(* ===== verification/Prelude.thy ===== *)
theory Prelude
  imports Main "HOL-Library.Char_ord" "HOL-Library.List_Lexorder"
begin

text \<open>
  Shared vocabulary of the development: what a TypeScript function throws (\<open>js_error\<close>),
  the results of fallible functions (\<open>res\<close>), the string operations of the language the
  source uses, decimal printing and reading, and generic lemmas on lists and maps.

  A JavaScript string is a sequence of UTF-16 code units. The model uses Isabelle's
  \<^typ>\<open>string\<close>, so a code unit is a value below 256 (the Latin-1 range); \<open>length\<close>
  counts code units as the source's \<open>.length\<close> does, and \<open>utf8_length\<close> counts the
  bytes of the UTF-8 encoding of such a string.
\<close>

named_theorems res_simps \<open>rewriting the result combinators\<close>
named_theorems guard_simps \<open>unfolding of guards and parsers\<close>

section \<open>Errors and results\<close>

text \<open>
  \<open>Err m\<close> is \<open>throw Error(m)\<close>; \<open>Platform s c m\<close> is the \<open>PlatformError\<close> of
  \<open>src/src/lib/platform/http.ts\<close>; \<open>Zod\<close> is a failed schema parse; \<open>Thrown\<close> is
  an error raised by code outside the model.
\<close>

datatype js_error = Err string | Platform int string string | Zod | Thrown string

type_synonym 'a res = "js_error + 'a"

definition bindR :: "'a res \<Rightarrow> ('a \<Rightarrow> 'b res) \<Rightarrow> 'b res" where
  "bindR r f = (case r of Inl e \<Rightarrow> Inl e | Inr a \<Rightarrow> f a)"

lemma bindR_simps [simp, res_simps]:
  "bindR (Inl e) f = Inl e"
  "bindR (Inr a) f = f a"
  by (simp_all add: bindR_def)

lemma bindR_eq_Inr [res_simps]: "bindR r f = Inr b \<longleftrightarrow> (\<exists>a. r = Inr a \<and> f a = Inr b)"
  by (cases r) simp_all

lemma bindR_eq_Inl [res_simps]:
  "bindR r f = Inl e \<longleftrightarrow> r = Inl e \<or> (\<exists>a. r = Inr a \<and> f a = Inl e)"
  by (cases r) simp_all

lemma bindR_cong [fundef_cong]:
  "r = r' \<Longrightarrow> (\<And>a. r' = Inr a \<Longrightarrow> f a = g a) \<Longrightarrow> bindR r f = bindR r' g"
  by (cases r') simp_all

text \<open>A guard: \<open>if (!b) throw e\<close>.\<close>

definition need :: "bool \<Rightarrow> js_error \<Rightarrow> unit res" where
  "need b e = (if b then Inr () else Inl e)"

lemma need_simps [simp, res_simps]:
  "need True e = Inr ()" "need False e = Inl e"
  by (simp_all add: need_def)

lemma need_eq_Inr [simp, res_simps]: "need b e = Inr u \<longleftrightarrow> b"
  by (simp add: need_def)

text \<open>A schema that fails to parse throws.\<close>

definition of_opt :: "js_error \<Rightarrow> 'a option \<Rightarrow> 'a res" where
  "of_opt e x = (case x of None \<Rightarrow> Inl e | Some a \<Rightarrow> Inr a)"

lemma of_opt_simps [simp, res_simps]:
  "of_opt e None = Inl e" "of_opt e (Some a) = Inr a"
  by (simp_all add: of_opt_def)

lemma of_opt_eq_Inr [simp, res_simps]: "of_opt e x = Inr a \<longleftrightarrow> x = Some a"
  by (cases x) simp_all

text \<open>Apply a fallible function to each element in order; the first error stops the loop.\<close>

fun mapR :: "('a \<Rightarrow> 'b res) \<Rightarrow> 'a list \<Rightarrow> 'b list res" where
  "mapR f [] = Inr []"
| "mapR f (x # xs) = bindR (f x) (\<lambda>y. bindR (mapR f xs) (\<lambda>ys. Inr (y # ys)))"

lemma mapR_cong [fundef_cong]:
  "xs = ys \<Longrightarrow> (\<And>x. x \<in> set ys \<Longrightarrow> f x = g x) \<Longrightarrow> mapR f xs = mapR g ys"
  by (induction ys arbitrary: xs) (auto cong: bindR_cong)

lemma mapR_eq_Inr: "mapR f xs = Inr ys \<longleftrightarrow> list_all2 (\<lambda>x y. f x = Inr y) xs ys"
  by (induction xs arbitrary: ys) (auto simp: bindR_eq_Inr list_all2_Cons1)

lemma mapR_length: "mapR f xs = Inr ys \<Longrightarrow> length ys = length xs"
  by (auto simp: mapR_eq_Inr dest: list_all2_lengthD)

lemma mapR_nth: "mapR f xs = Inr ys \<Longrightarrow> i < length xs \<Longrightarrow> f (xs ! i) = Inr (ys ! i)"
  by (auto simp: mapR_eq_Inr list_all2_conv_all_nth)

section \<open>Strings\<close>

definition code :: "char \<Rightarrow> nat" where
  "code c = of_char c"

definition char_between :: "nat \<Rightarrow> nat \<Rightarrow> char \<Rightarrow> bool" where
  "char_between lo hi c \<longleftrightarrow> lo \<le> code c \<and> code c \<le> hi"

definition is_digit :: "char \<Rightarrow> bool" where
  "is_digit c \<longleftrightarrow> char_between 48 57 c"

definition is_lower_hex :: "char \<Rightarrow> bool" where
  "is_lower_hex c \<longleftrightarrow> is_digit c \<or> char_between 97 102 c"

definition is_hex :: "char \<Rightarrow> bool" where
  "is_hex c \<longleftrightarrow> is_lower_hex c \<or> char_between 65 70 c"

definition is_alnum :: "char \<Rightarrow> bool" where
  "is_alnum c \<longleftrightarrow> is_digit c \<or> char_between 97 122 c \<or> char_between 65 90 c"

text \<open>\<open>String.prototype.toLowerCase\<close> on Latin-1: ASCII and the accented capitals.\<close>

definition lower_char :: "char \<Rightarrow> char" where
  "lower_char c =
     (if char_between 65 90 c \<or> (char_between 192 222 c \<and> code c \<noteq> 215)
      then char_of (code c + 32) else c)"

definition to_lower :: "string \<Rightarrow> string" where
  "to_lower s = map lower_char s"

text \<open>\<open>String.prototype.trim\<close>: the white space and line terminators of Latin-1.\<close>

definition is_space :: "char \<Rightarrow> bool" where
  "is_space c \<longleftrightarrow> char_between 9 13 c \<or> code c = 32 \<or> code c = 160"

definition trim :: "string \<Rightarrow> string" where
  "trim s = rev (dropWhile is_space (rev (dropWhile is_space s)))"

definition starts_with :: "string \<Rightarrow> string \<Rightarrow> bool" where
  "starts_with p s \<longleftrightarrow> take (length p) s = p"

text \<open>\<open>s.split(c)\<close> for a one-character separator; never empty.\<close>

fun split_on :: "char \<Rightarrow> string \<Rightarrow> string list" where
  "split_on c [] = [[]]"
| "split_on c (x # xs) =
     (if x = c then [] # split_on c xs
      else (case split_on c xs of [] \<Rightarrow> [[x]] | w # ws \<Rightarrow> (x # w) # ws))"

fun join :: "string \<Rightarrow> string list \<Rightarrow> string" where
  "join sep [] = []"
| "join sep [x] = x"
| "join sep (x # y # ys) = x @ sep @ join sep (y # ys)"

fun utf8_length :: "string \<Rightarrow> nat" where
  "utf8_length [] = 0"
| "utf8_length (c # cs) = (if code c < 128 then 1 else 2) + utf8_length cs"

text \<open>\<open>/^0x[0-9a-f]{n}$/\<close> and \<open>/^0x[0-9a-fA-F]{n}$/\<close>.\<close>

definition lower_hex_n :: "nat \<Rightarrow> string \<Rightarrow> bool" where
  "lower_hex_n n s \<longleftrightarrow>
     length s = n + 2 \<and> take 2 s = ''0x'' \<and> list_all is_lower_hex (drop 2 s)"

definition hex_n :: "nat \<Rightarrow> string \<Rightarrow> bool" where
  "hex_n n s \<longleftrightarrow> length s = n + 2 \<and> take 2 s = ''0x'' \<and> list_all is_hex (drop 2 s)"

lemma lower_hex_n_length: "lower_hex_n n s \<Longrightarrow> length s = n + 2"
  by (simp add: lower_hex_n_def)

lemma to_lower_length [simp]: "length (to_lower s) = length s"
  by (simp add: to_lower_def)

lemma to_lower_idem [simp]: "to_lower (to_lower s) = to_lower s"
proof -
  have "lower_char (lower_char c) = lower_char c" for c
    by (auto simp: lower_char_def char_between_def code_def)
  then show ?thesis by (simp add: to_lower_def)
qed

text \<open>A UUID as \<open>z.uuid()\<close> accepts it: 8-4-4-4-12 hexadecimal digits, version 1 to 8 and
  variant 8 to b, or the nil and max UUIDs.\<close>

definition is_uuid :: "string \<Rightarrow> bool" where
  "is_uuid s \<longleftrightarrow>
     length s = 36 \<and>
     (\<forall>i \<in> set [8, 13, 18, 23]. s ! i = CHR ''-'') \<and>
     (\<forall>i \<in> set [0..<36]. i \<in> set [8, 13, 18, 23] \<or> is_hex (s ! i)) \<and>
     ((char_between 49 56 (s ! 14) \<and> s ! 19 \<in> set ''89abAB'') \<or>
      to_lower s = ''00000000-0000-0000-0000-000000000000'' \<or>
      to_lower s = ''ffffffff-ffff-ffff-ffff-ffffffffffff'')"

lemma is_uuid_length: "is_uuid s \<Longrightarrow> length s = 36"
  by (simp add: is_uuid_def)

section \<open>Decimal numerals\<close>

definition digit_char :: "nat \<Rightarrow> char" where
  "digit_char d = char_of (48 + d)"

fun nat_dec :: "nat \<Rightarrow> string" where
  "nat_dec n = (if n < 10 then [digit_char n] else nat_dec (n div 10) @ [digit_char (n mod 10)])"

declare nat_dec.simps [simp del]

definition int_dec :: "int \<Rightarrow> string" where
  "int_dec i = (if i < 0 then ''-'' @ nat_dec (nat (- i)) else nat_dec (nat i))"

definition digit_val :: "char \<Rightarrow> nat" where
  "digit_val c = code c - 48"

text \<open>The number a digit string denotes: \<open>BigInt(s)\<close> on a string of decimal digits.\<close>

definition dec_val :: "string \<Rightarrow> nat" where
  "dec_val s = foldl (\<lambda>v c. v * 10 + digit_val c) 0 s"

definition dec_int :: "string \<Rightarrow> int" where
  "dec_int s = int (dec_val s)"

lemma digit_char_props [simp]:
  "d < 10 \<Longrightarrow> digit_val (digit_char d) = d"
  "d < 10 \<Longrightarrow> is_digit (digit_char d)"
  by (auto simp: digit_val_def digit_char_def is_digit_def char_between_def code_def)

lemma dec_val_snoc [simp]: "dec_val (s @ [c]) = dec_val s * 10 + digit_val c"
  by (simp add: dec_val_def)

lemma dec_val_Nil [simp]: "dec_val [] = 0"
  by (simp add: dec_val_def)

lemma dec_val_nat_dec [simp]: "dec_val (nat_dec n) = n"
proof (induction n rule: nat_dec.induct)
  case (1 n)
  show ?case
  proof (cases "n < 10")
    case True
    then show ?thesis using dec_val_snoc [of "[]"] by (simp add: nat_dec.simps [of n])
  next
    case False
    with 1 show ?thesis by (simp add: nat_dec.simps [of n])
  qed
qed

lemma nat_dec_digits: "list_all is_digit (nat_dec n)"
proof (induction n rule: nat_dec.induct)
  case (1 n)
  then show ?case by (cases "n < 10") (simp_all add: nat_dec.simps [of n])
qed

lemma nat_dec_nonempty [simp]: "nat_dec n \<noteq> []"
  by (subst nat_dec.simps) simp

lemma nat_dec_inj [simp]: "nat_dec m = nat_dec n \<longleftrightarrow> m = n"
  by (metis dec_val_nat_dec)

lemma nat_dec_digits_set: "c \<in> set (nat_dec n) \<Longrightarrow> is_digit c"
  using nat_dec_digits [of n] by (auto simp: list_all_iff)

text \<open>\<open>/^[1-9]\d*$/\<close> and \<open>/^(0|[1-9]\d*)$/\<close>.\<close>

definition pos_numeral :: "string \<Rightarrow> bool" where
  "pos_numeral s \<longleftrightarrow> s \<noteq> [] \<and> hd s \<noteq> CHR ''0'' \<and> list_all is_digit s"

definition numeral_str :: "string \<Rightarrow> bool" where
  "numeral_str s \<longleftrightarrow> s = ''0'' \<or> pos_numeral s"

lemma dec_val_append: "dec_val (a @ b) = dec_val a * 10 ^ length b + dec_val b"
proof (induction b rule: rev_induct)
  case Nil
  then show ?case by simp
next
  case (snoc c b)
  have "dec_val (a @ b @ [c]) = dec_val (a @ b) * 10 + digit_val c"
    using dec_val_snoc [of "a @ b" c] by simp
  with snoc show ?case by (simp add: algebra_simps)
qed

lemma pos_numeral_pos: "pos_numeral s \<Longrightarrow> 0 < dec_int s"
proof -
  assume a: "pos_numeral s"
  then obtain c t where s: "s = c # t" and c: "c \<noteq> CHR ''0''" "is_digit c"
    by (cases s) (auto simp: pos_numeral_def)
  have "code c \<noteq> 48"
  proof
    assume "code c = 48"
    then have "(of_char c :: nat) = of_char (CHR ''0'')"
      by (simp add: code_def)
    with c(1) show False by (simp only: of_char_eq_iff)
  qed
  with c(2) have "1 \<le> digit_val c"
    by (auto simp: digit_val_def is_digit_def char_between_def)
  moreover have "dec_val s = digit_val c * 10 ^ length t + dec_val t"
    using dec_val_append [of "[c]" t] dec_val_snoc [of "[]" c] by (simp add: s)
  ultimately have "0 < dec_val s"
    by (metis One_nat_def add_gr_0 less_eq_Suc_le mult_pos_pos zero_less_numeral zero_less_power)
  then show ?thesis by (simp add: dec_int_def)
qed

section \<open>Lists and association lists\<close>

text \<open>\<open>new Set(xs).size === xs.length\<close> is \<^const>\<open>distinct\<close>.\<close>

lemma card_set_distinct: "card (set xs) = length xs \<longleftrightarrow> distinct xs"
  by (simp add: card_distinct distinct_card order.eq_iff)

lemma map_of_in_set: "map_of kvs k = Some v \<Longrightarrow> (k, v) \<in> set kvs"
  by (rule map_of_SomeD)

lemma list_all_mono: "list_all P xs \<Longrightarrow> (\<And>x. x \<in> set xs \<Longrightarrow> P x \<Longrightarrow> Q x) \<Longrightarrow> list_all Q xs"
  by (auto simp: list_all_iff)

text \<open>\<open>Number.isSafeInteger\<close> on an integer, and the division rules of \<open>bigint\<close>.\<close>

definition max_safe :: int where
  "max_safe = 9007199254740991"

definition safe_int :: "int \<Rightarrow> bool" where
  "safe_int i \<longleftrightarrow> - max_safe \<le> i \<and> i \<le> max_safe"

definition big_div :: "int \<Rightarrow> int \<Rightarrow> int" where
  "big_div a b = sgn a * sgn b * (\<bar>a\<bar> div \<bar>b\<bar>)"

lemma big_div_nonneg: "0 \<le> a \<Longrightarrow> 0 \<le> b \<Longrightarrow> big_div a b = a div b"
  by (cases "a = 0"; cases "b = 0") (auto simp: big_div_def)

end
