(* ===== verification/Json.thy ===== *)
theory Json
  imports Prelude
begin

text \<open>
  JSON values as the program handles them (\<open>unknown\<close> after \<open>JSON.parse\<close>), the two
  printers it uses, \<open>JSON.stringify\<close> and \<open>canonicalJson\<close>
  (\<open>src/src/lib/economy/service-contract.ts\<close>), and \<open>JSON.parse\<close>.

  A finite number is written \<open>Dec m e\<close>, the value \<open>m * 10 ^ e\<close>: the shortest decimal
  that denotes the double, with no trailing zero in \<open>m\<close>. Two doubles are equal exactly
  when these decimals are, and the order of the decimals is the order of the doubles.
  The entries of \<open>JObj\<close> are in the order of \<open>Object.entries\<close>.
\<close>

datatype jsnum = Dec int int | Infinite bool | NaN

datatype json = JNull | JBool bool | JNum jsnum | JStr string
  | JArr "json list" | JObj "(string \<times> json) list"

section \<open>Numbers\<close>

function mk_dec :: "int \<Rightarrow> int \<Rightarrow> jsnum" where
  "mk_dec m e =
     (if m = 0 then Dec 0 0
      else if m mod 10 = 0 then mk_dec (m div 10) (e + 1)
      else Dec m e)"
  by pat_completeness auto
termination
  by (relation "measure (\<lambda>(m, e). nat \<bar>m\<bar>)") auto

declare mk_dec.simps [simp del]

definition num_of_int :: "int \<Rightarrow> jsnum" where
  "num_of_int i = mk_dec i 0"

fun wf_num :: "jsnum \<Rightarrow> bool" where
  "wf_num (Dec m e) = (if m = 0 then e = 0 else m mod 10 \<noteq> 0)"
| "wf_num _ = True"

fun is_finite :: "jsnum \<Rightarrow> bool" where
  "is_finite (Dec m e) = True"
| "is_finite _ = False"

text \<open>\<open>Number.isInteger\<close>, the integer itself, and \<open>Number.isSafeInteger\<close>.\<close>

fun is_integer :: "jsnum \<Rightarrow> bool" where
  "is_integer (Dec m e) = (0 \<le> e)"
| "is_integer _ = False"

fun num_int :: "jsnum \<Rightarrow> int" where
  "num_int (Dec m e) = (if 0 \<le> e then m * 10 ^ nat e else big_div m (10 ^ nat (- e)))"
| "num_int _ = 0"

definition is_safe_integer :: "jsnum \<Rightarrow> bool" where
  "is_safe_integer n \<longleftrightarrow> is_integer n \<and> safe_int (num_int n)"

text \<open>\<open>a <= b\<close> on doubles; a comparison with \<open>NaN\<close> is false.\<close>

definition dec_le :: "int \<Rightarrow> int \<Rightarrow> int \<Rightarrow> int \<Rightarrow> bool" where
  "dec_le m e m' e' = (m * 10 ^ nat (e - min e e') \<le> m' * 10 ^ nat (e' - min e e'))"

fun num_le :: "jsnum \<Rightarrow> jsnum \<Rightarrow> bool" where
  "num_le (Dec m e) (Dec m' e') = dec_le m e m' e'"
| "num_le NaN _ = False"
| "num_le _ NaN = False"
| "num_le (Infinite neg) y = (neg \<or> y = Infinite False)"
| "num_le x (Infinite neg) = (\<not> neg)"

lemma dec_le_shift:
  assumes "k \<le> e" "k \<le> e'"
  shows "dec_le m e m' e' \<longleftrightarrow> m * 10 ^ nat (e - k) \<le> m' * 10 ^ nat (e' - k)"
proof -
  let ?d = "min e e'"
  have "nat (e - k) = nat (e - ?d) + nat (?d - k)" "nat (e' - k) = nat (e' - ?d) + nat (?d - k)"
    using assms by auto
  then have "m * 10 ^ nat (e - k) = (m * 10 ^ nat (e - ?d)) * 10 ^ nat (?d - k)"
    "m' * 10 ^ nat (e' - k) = (m' * 10 ^ nat (e' - ?d)) * 10 ^ nat (?d - k)"
    by (simp_all only: power_add mult.assoc)
  then show ?thesis
    by (simp only: dec_le_def mult_le_cancel_right) simp
qed

lemma dec_le_trans:
  assumes "dec_le a e b f" "dec_le b f c g"
  shows "dec_le a e c g"
proof -
  let ?k = "min e (min f g)"
  have "a * 10 ^ nat (e - ?k) \<le> b * 10 ^ nat (f - ?k)"
    using assms(1) by (subst (asm) dec_le_shift [of ?k]) auto
  also have "\<dots> \<le> c * 10 ^ nat (g - ?k)"
    using assms(2) by (subst (asm) dec_le_shift [of ?k]) auto
  finally show ?thesis by (subst dec_le_shift [of ?k]) auto
qed

lemma num_le_trans:
  assumes "num_le x y" "num_le y z" shows "num_le x z"
  using assms by (cases x; cases y; cases z) (auto intro: dec_le_trans)

text \<open>\<open>Number.prototype.toString\<close> on a finite double.\<close>

definition num_body :: "nat \<Rightarrow> int \<Rightarrow> string" where
  "num_body a e =
     (let ds = nat_dec a; k = int (length ds); n = k + e
      in if a = 0 then ''0''
         else if 0 \<le> e \<and> n \<le> 21 then ds @ replicate (nat e) (CHR ''0'')
         else if e < 0 \<and> 0 < n \<and> n \<le> 21 then take (nat n) ds @ ''.'' @ drop (nat n) ds
         else if - 6 < n \<and> n \<le> 0 then ''0.'' @ replicate (nat (- n)) (CHR ''0'') @ ds
         else [hd ds] @ (if tl ds = [] then [] else CHR ''.'' # tl ds) @
              CHR ''e'' # (if 0 < n then ''+'' else ''-'') @ nat_dec (nat \<bar>n - 1\<bar>))"

fun num_str :: "jsnum \<Rightarrow> string" where
  "num_str (Infinite neg) = (if neg then ''-Infinity'' else ''Infinity'')"
| "num_str NaN = ''NaN''"
| "num_str (Dec m e) = (if m < 0 then ''-'' else []) @ num_body (nat \<bar>m\<bar>) e"

lemma num_int_mk_dec: "0 \<le> e \<Longrightarrow> num_int (mk_dec m e) = m * 10 ^ nat e"
proof (induction m e rule: mk_dec.induct)
  case (1 m e)
  show ?case
  proof (cases "m \<noteq> 0 \<and> m mod 10 = 0")
    case True
    with 1 have "num_int (mk_dec m e) = (m div 10) * 10 ^ nat (e + 1)"
      by (subst mk_dec.simps) auto
    also have "nat (e + 1) = Suc (nat e)" using 1 by simp
    also have "(m div 10) * 10 ^ Suc (nat e) = m * 10 ^ nat e"
      using True by (simp add: mult.commute mult.left_commute) (metis dvd_div_mult_self mod_0_imp_dvd mult.assoc mult.commute)
    finally show ?thesis .
  next
    case False
    with 1 show ?thesis by (subst mk_dec.simps) auto
  qed
qed

lemma is_integer_mk_dec: "0 \<le> e \<Longrightarrow> is_integer (mk_dec m e)"
proof (induction m e rule: mk_dec.induct)
  case (1 m e)
  then show ?case by (subst mk_dec.simps) auto
qed

lemma num_le_integer: "is_integer a \<Longrightarrow> is_integer b \<Longrightarrow> num_le a b \<longleftrightarrow> num_int a \<le> num_int b"
  by (cases a; cases b) (auto simp: dec_le_shift [of 0])

lemma num_of_int_props [simp]: "is_integer (num_of_int i)" "num_int (num_of_int i) = i"
  by (simp_all add: num_of_int_def num_int_mk_dec is_integer_mk_dec)

lemma num_of_int_wf [simp]: "is_finite (num_of_int i)" "wf_num (num_of_int i)"
proof -
  have "is_finite (mk_dec m e) \<and> wf_num (mk_dec m e)" for m e
    by (induction m e rule: mk_dec.induct) (subst mk_dec.simps, simp)+
  then show "is_finite (num_of_int i)" "wf_num (num_of_int i)"
    by (simp_all add: num_of_int_def)
qed

lemma num_of_int_inject [simp]: "num_of_int i = num_of_int j \<longleftrightarrow> i = j"
  by (metis num_of_int_props(2))

section \<open>Printing\<close>

definition hex_digit :: "nat \<Rightarrow> char" where
  "hex_digit d = char_of (if d < 10 then 48 + d else 87 + d)"

definition esc_char :: "char \<Rightarrow> string" where
  "esc_char c =
     (if code c = 34 then [char_of (92::nat), char_of (34::nat)]
      else if code c = 92 then [char_of (92::nat), char_of (92::nat)]
      else if code c = 8 then [char_of (92::nat), CHR ''b'']
      else if code c = 12 then [char_of (92::nat), CHR ''f'']
      else if code c = 10 then [char_of (92::nat), CHR ''n'']
      else if code c = 13 then [char_of (92::nat), CHR ''r'']
      else if code c = 9 then [char_of (92::nat), CHR ''t'']
      else if code c < 32 then
        [char_of (92::nat), CHR ''u'', CHR ''0'', CHR ''0'',
         hex_digit (code c div 16), hex_digit (code c mod 16)]
      else [c])"

definition quote :: "string \<Rightarrow> string" where
  "quote s = char_of (34::nat) # concat (map esc_char s) @ [char_of (34::nat)]"

text \<open>\<open>JSON.stringify(v)\<close>; a number that is not finite prints as \<open>null\<close>.\<close>

fun stringify :: "json \<Rightarrow> string" where
  "stringify JNull = ''null''"
| "stringify (JBool b) = (if b then ''true'' else ''false'')"
| "stringify (JNum n) = (if is_finite n then num_str n else ''null'')"
| "stringify (JStr s) = quote s"
| "stringify (JArr xs) = ''['' @ join '','' (map stringify xs) @ '']''"
| "stringify (JObj kvs) =
     ''{'' @ join '','' (map (\<lambda>(k, v). quote k @ '':'' @ stringify v) kvs) @ ''}''"

text \<open>
  The canonical form: entries sorted by key, by code units. \<open>canonicalJson\<close> prints the
  sorted value, which \<open>sort_keys\<close> makes explicit.
\<close>

fun canonicalJson :: "json \<Rightarrow> string" where
  "canonicalJson JNull = ''null''"
| "canonicalJson (JBool b) = (if b then ''true'' else ''false'')"
| "canonicalJson (JNum n) = (if is_finite n then num_str n else ''null'')"
| "canonicalJson (JStr s) = quote s"
| "canonicalJson (JArr xs) = ''['' @ join '','' (map canonicalJson xs) @ '']''"
| "canonicalJson (JObj kvs) =
     ''{'' @ join '','' (map (\<lambda>(k, s). quote k @ '':'' @ s)
       (sort_key fst (map (\<lambda>(k, v). (k, canonicalJson v)) kvs))) @ ''}''"

fun sort_keys :: "json \<Rightarrow> json" where
  "sort_keys (JArr xs) = JArr (map sort_keys xs)"
| "sort_keys (JObj kvs) = JObj (sort_key fst (map (\<lambda>(k, v). (k, sort_keys v)) kvs))"
| "sort_keys v = v"

lemma insort_key_map:
  assumes "\<And>x. g (f x) = h x"
  shows "insort_key g (f x) (map f xs) = map f (insort_key h x xs)"
  by (induction xs) (auto simp: assms)

lemma sort_key_map:
  assumes "\<And>x. g (f x) = h x"
  shows "sort_key g (map f xs) = map f (sort_key h xs)"
  unfolding sort_key_def
  by (induction xs) (auto simp: insort_key_map [of g f h, OF assms])

lemma canonicalJson_stringify: "canonicalJson v = stringify (sort_keys v)"
proof (induction v rule: canonicalJson.induct)
  case (5 xs)
  then have "map canonicalJson xs = map (stringify \<circ> sort_keys) xs" by simp
  then show ?case by (simp only: canonicalJson.simps sort_keys.simps stringify.simps map_map)
next
  case (6 kvs)
  let ?s = "\<lambda>(k :: string, v). (k, stringify v)"
  let ?q = "\<lambda>(k :: string, v). (k, sort_keys v)"
  have "map (\<lambda>(k, v). (k, canonicalJson v)) kvs = map ?s (map ?q kvs)"
    using 6 by (auto simp: fun_eq_iff)
  then have "sort_key fst (map (\<lambda>(k, v). (k, canonicalJson v)) kvs) =
      map ?s (sort_key fst (map ?q kvs))"
    by (simp only:) (rule sort_key_map, auto)
  then show ?case by (simp add: case_prod_unfold comp_def)
qed simp_all

section \<open>Access\<close>

text \<open>Property access: \<open>v[k]\<close> for an own key, undefined otherwise.\<close>

fun fld :: "json \<Rightarrow> string \<Rightarrow> json option" where
  "fld (JObj kvs) k = map_of kvs k"
| "fld _ k = None"

fun is_obj :: "json \<Rightarrow> bool" where
  "is_obj (JObj _) = True" | "is_obj _ = False"

fun is_arr :: "json \<Rightarrow> bool" where
  "is_arr (JArr _) = True" | "is_arr _ = False"

fun entries :: "json \<Rightarrow> (string \<times> json) list" where
  "entries (JObj kvs) = kvs" | "entries _ = []"

fun elems :: "json \<Rightarrow> json list" where
  "elems (JArr xs) = xs" | "elems _ = []"

definition keys :: "json \<Rightarrow> string list" where
  "keys v = map fst (entries v)"

fun as_str :: "json \<Rightarrow> string option" where
  "as_str (JStr s) = Some s" | "as_str _ = None"

fun as_bool :: "json \<Rightarrow> bool option" where
  "as_bool (JBool b) = Some b" | "as_bool _ = None"

fun as_num :: "json \<Rightarrow> jsnum option" where
  "as_num (JNum n) = Some n" | "as_num _ = None"

text \<open>\<open>z.number().int()\<close>: a safe integer.\<close>

definition as_int :: "json \<Rightarrow> int option" where
  "as_int v = (case v of
     JNum n \<Rightarrow> if is_safe_integer n then Some (num_int n) else None
   | _ \<Rightarrow> None)"

text \<open>Schema combinators: a strict object has no unknown key.\<close>

definition strict :: "string list \<Rightarrow> json \<Rightarrow> bool" where
  "strict ks v \<longleftrightarrow> is_obj v \<and> (\<forall>k \<in> set (keys v). k \<in> set ks)"

definition field :: "json \<Rightarrow> string \<Rightarrow> (json \<Rightarrow> 'a option) \<Rightarrow> 'a option" where
  "field v k p = Option.bind (fld v k) p"

lemma field_eq_Some [simp]: "field v k p = Some a \<longleftrightarrow> (\<exists>c. fld v k = Some c \<and> p c = Some a)"
  by (auto simp: field_def bind_eq_Some_conv)

definition fstr :: "json \<Rightarrow> string \<Rightarrow> string option" where
  "fstr v k = Option.bind (fld v k) as_str"

definition fint :: "json \<Rightarrow> string \<Rightarrow> int option" where
  "fint v k = Option.bind (fld v k) as_int"

definition fbool :: "json \<Rightarrow> string \<Rightarrow> bool option" where
  "fbool v k = Option.bind (fld v k) as_bool"

definition check :: "('a \<Rightarrow> bool) \<Rightarrow> 'a option \<Rightarrow> 'a option" where
  "check P x = (case x of Some a \<Rightarrow> if P a then Some a else None | None \<Rightarrow> None)"

lemma check_eq_Some [simp]: "check P x = Some a \<longleftrightarrow> x = Some a \<and> P a"
  by (auto simp: check_def split: option.splits if_splits)

text \<open>\<open>z.array(...)\<close> of items, and an optional property.\<close>

definition farr :: "json \<Rightarrow> string \<Rightarrow> (json \<Rightarrow> 'a option) \<Rightarrow> 'a list option" where
  "farr v k p = Option.bind (fld v k)
     (\<lambda>a. if is_arr a then those (map p (elems a)) else None)"

definition fopt :: "json \<Rightarrow> string \<Rightarrow> (json \<Rightarrow> 'a option) \<Rightarrow> 'a option option" where
  "fopt v k p = (case fld v k of None \<Rightarrow> Some None
     | Some c \<Rightarrow> map_option Some (p c))"

text \<open>What \<open>if (v)\<close> tests, \<open>None\<close> being \<open>undefined\<close>.\<close>

definition truthy :: "json option \<Rightarrow> bool" where
  "truthy v = (case v of None \<Rightarrow> False | Some JNull \<Rightarrow> False | Some (JBool b) \<Rightarrow> b
     | Some (JNum n) \<Rightarrow> n \<noteq> Dec 0 0 \<and> n \<noteq> NaN | Some (JStr s) \<Rightarrow> s \<noteq> [] | Some _ \<Rightarrow> True)"

text \<open>\<open>===\<close>: arrays and objects are equal by identity only, and \<open>NaN\<close> never.\<close>

definition strict_eq :: "json option \<Rightarrow> json option \<Rightarrow> bool" where
  "strict_eq a b \<longleftrightarrow> a = b \<and>
     (case a of None \<Rightarrow> True | Some v \<Rightarrow> \<not> is_obj v \<and> \<not> is_arr v \<and> v \<noteq> JNum NaN)"

lemma map_JStr_inject [simp]: "map JStr xs = map JStr ys \<longleftrightarrow> xs = ys"
  by (simp add: inj_map_eq_map inj_def)

lemma those_strings [simp]: "those (map as_str (map JStr ss)) = Some ss" "those (map (as_str \<circ> JStr) ss) = Some ss"
  by (induction ss) simp_all

lemma those_eq_strings: "those (map as_str vs) = Some ss \<longleftrightarrow> vs = map JStr ss"
proof (induction vs arbitrary: ss)
  case (Cons v vs)
  then show ?case by (cases v; cases ss) (auto simp: map_option_case split: option.splits)
qed auto

lemma size_kv: "(k, c) \<in> set kvs \<Longrightarrow> size c < Suc (size_list (size_prod (\<lambda>x. 0) size) kvs)"
  by (induction kvs) (auto simp: less_Suc_eq_le)

lemma size_entry: "(k, x) \<in> set (entries v) \<Longrightarrow> size x < size v"
  by (cases v) (auto dest: size_kv)

lemma size_fld: "fld v k = Some c \<Longrightarrow> size c < size v"
  by (cases v) (auto dest: map_of_SomeD size_kv)

lemma size_elem: "x \<in> set (elems v) \<Longrightarrow> size x < size v"
  by (cases v) (auto simp: less_Suc_eq_le size_list_estimation')

end
