(* ===== verification/JsonParse.thy ===== *)
theory JsonParse
  imports Json "HOL-Library.Multiset"
begin

text \<open>
  \<open>JSON.parse\<close> and the round trip with \<open>JSON.stringify\<close> and \<open>canonicalJson\<close>.
  The rounding of a decimal literal to the nearest double is the argument \<open>rd\<close>; it is the
  identity on a number that is a double already, which is all the round trip needs.
  The parser runs on fuel: one unit more than the length of the text is always enough to read
  back a printed value (\<open>pval_stringify\<close>).
\<close>

section \<open>The parser\<close>

definition skip_ws :: "string \<Rightarrow> string" where
  "skip_ws = dropWhile (\<lambda>c. code c \<in> {9, 10, 13, 32})"

definition hex_val :: "char \<Rightarrow> nat" where
  "hex_val c = (if is_digit c then code c - 48
     else if char_between 97 102 c then code c - 87 else code c - 55)"

definition simple_esc :: "char \<Rightarrow> char option" where
  "simple_esc d =
     (if code d \<in> {34, 92, 47} then Some d
      else if d = CHR ''b'' then Some (char_of (8::nat))
      else if d = CHR ''f'' then Some (char_of (12::nat))
      else if d = CHR ''n'' then Some (char_of (10::nat))
      else if d = CHR ''r'' then Some (char_of (13::nat))
      else if d = CHR ''t'' then Some (char_of (9::nat))
      else None)"

fun pstr :: "string \<Rightarrow> (string \<times> string) option" where
  "pstr [] = None"
| "pstr (c # cs) =
     (if code c = 34 then Some ([], cs)
      else if code c = 92 then
        (case cs of
           [] \<Rightarrow> None
         | d # ds \<Rightarrow>
            (if d = CHR ''u'' then
               (case ds of
                  a # b # x # y # r \<Rightarrow>
                    (if a = CHR ''0'' \<and> b = CHR ''0'' \<and> is_hex x \<and> is_hex y
                     then map_option (\<lambda>(t, r'). (char_of (16 * hex_val x + hex_val y) # t, r')) (pstr r)
                     else None)
                | _ \<Rightarrow> None)
             else (case simple_esc d of None \<Rightarrow> None
                   | Some ch \<Rightarrow> map_option (\<lambda>(t, r'). (ch # t, r')) (pstr ds))))
      else if code c < 32 then None
      else map_option (\<lambda>(t, r'). (c # t, r')) (pstr cs))"

fun pfrac :: "string \<Rightarrow> (string \<times> string) option" where
  "pfrac [] = Some ([], [])"
| "pfrac (c # r) =
     (if c = CHR ''.'' then
        (if takeWhile is_digit r = [] then None
         else Some (takeWhile is_digit r, dropWhile is_digit r))
      else Some ([], c # r))"

definition pdigits :: "string \<Rightarrow> (int \<times> string) option" where
  "pdigits r = (if takeWhile is_digit r = [] then None
     else Some (dec_int (takeWhile is_digit r), dropWhile is_digit r))"

fun pexp :: "string \<Rightarrow> (int \<times> string) option" where
  "pexp [] = Some (0, [])"
| "pexp (c # r) =
     (if c = CHR ''e'' \<or> c = CHR ''E'' then
        (case r of
           [] \<Rightarrow> None
         | d # r' \<Rightarrow>
            (if d = CHR ''-'' then map_option (\<lambda>(x, t). (- x, t)) (pdigits r')
             else if d = CHR ''+'' then pdigits r'
             else pdigits (d # r')))
      else Some (0, c # r))"

definition punsigned :: "int \<Rightarrow> string \<Rightarrow> (jsnum \<times> string) option" where
  "punsigned sg s =
     (let ip = takeWhile is_digit s
      in if \<not> numeral_str ip then None
         else (case pfrac (dropWhile is_digit s) of
                 None \<Rightarrow> None
               | Some (fp, t) \<Rightarrow>
                   (case pexp t of
                      None \<Rightarrow> None
                    | Some (x, r) \<Rightarrow>
                        Some (mk_dec (sg * dec_int (ip @ fp)) (x - int (length fp)), r))))"

definition pnum :: "string \<Rightarrow> (jsnum \<times> string) option" where
  "pnum s = (case s of c # r \<Rightarrow> if c = CHR ''-'' then punsigned (- 1) r else punsigned 1 s
     | [] \<Rightarrow> None)"

text \<open>A repeated key overwrites the earlier value; keys that are array indices come first,
  in numeric order.\<close>

definition put :: "string \<times> json \<Rightarrow> (string \<times> json) list \<Rightarrow> (string \<times> json) list" where
  "put kv kvs =
     (if fst kv \<in> set (map fst kvs)
      then map (\<lambda>x. if fst x = fst kv then kv else x) kvs
      else kvs @ [kv])"

definition is_index :: "string \<Rightarrow> bool" where
  "is_index k \<longleftrightarrow> numeral_str k \<and> dec_val k < 4294967295"

definition js_order :: "(string \<times> json) list \<Rightarrow> (string \<times> json) list" where
  "js_order kvs = sort_key (\<lambda>x. dec_val (fst x)) (filter (\<lambda>x. is_index (fst x)) kvs)
     @ filter (\<lambda>x. \<not> is_index (fst x)) kvs"

definition mk_entries :: "(string \<times> json) list \<Rightarrow> (string \<times> json) list" where
  "mk_entries kvs = js_order (fold put kvs [])"

fun pval :: "(jsnum \<Rightarrow> jsnum) \<Rightarrow> nat \<Rightarrow> string \<Rightarrow> (json \<times> string) option"
and pelems :: "(jsnum \<Rightarrow> jsnum) \<Rightarrow> nat \<Rightarrow> string \<Rightarrow> (json list \<times> string) option"
and pmems :: "(jsnum \<Rightarrow> jsnum) \<Rightarrow> nat \<Rightarrow> string \<Rightarrow> ((string \<times> json) list \<times> string) option" where
  "pval rd 0 s = None"
| "pval rd (Suc f) s =
     (case skip_ws s of
        [] \<Rightarrow> None
      | c # cs \<Rightarrow>
         (if c = CHR ''{'' then
            (case skip_ws cs of
               [] \<Rightarrow> None
             | d # r \<Rightarrow>
                 (if d = CHR ''}'' then Some (JObj [], r)
                  else map_option (\<lambda>(kvs, t). (JObj (mk_entries kvs), t)) (pmems rd f (d # r))))
          else if c = CHR ''['' then
            (case skip_ws cs of
               [] \<Rightarrow> None
             | d # r \<Rightarrow>
                 (if d = CHR '']'' then Some (JArr [], r)
                  else map_option (\<lambda>(xs, t). (JArr xs, t)) (pelems rd f (d # r))))
          else if code c = 34 then map_option (\<lambda>(x, t). (JStr x, t)) (pstr cs)
          else if take 4 (c # cs) = ''null'' then Some (JNull, drop 4 (c # cs))
          else if take 4 (c # cs) = ''true'' then Some (JBool True, drop 4 (c # cs))
          else if take 5 (c # cs) = ''false'' then Some (JBool False, drop 5 (c # cs))
          else map_option (\<lambda>(n, t). (JNum (rd n), t)) (pnum (c # cs))))"
| "pelems rd 0 s = None"
| "pelems rd (Suc f) s =
     (case pval rd f s of
        None \<Rightarrow> None
      | Some (v, r) \<Rightarrow>
         (case skip_ws r of
            [] \<Rightarrow> None
          | c # t \<Rightarrow>
             (if c = CHR '','' then map_option (\<lambda>(vs, u). (v # vs, u)) (pelems rd f t)
              else if c = CHR '']'' then Some ([v], t) else None)))"
| "pmems rd 0 s = None"
| "pmems rd (Suc f) s =
     (case skip_ws s of
        [] \<Rightarrow> None
      | q # ks \<Rightarrow>
         (if code q \<noteq> 34 then None
          else (case pstr ks of
             None \<Rightarrow> None
           | Some (k, r) \<Rightarrow>
              (case skip_ws r of
                 [] \<Rightarrow> None
               | c # t \<Rightarrow>
                  (if c \<noteq> CHR '':'' then None
                   else (case pval rd f t of
                      None \<Rightarrow> None
                    | Some (v, u) \<Rightarrow>
                       (case skip_ws u of
                          [] \<Rightarrow> None
                        | d # w \<Rightarrow>
                           (if d = CHR '','' then map_option (\<lambda>(m, z). ((k, v) # m, z)) (pmems rd f w)
                            else if d = CHR ''}'' then Some ([(k, v)], w) else None))))))))"

text \<open>\<open>JSON.parse(s)\<close>: \<open>None\<close> is the \<open>SyntaxError\<close>.\<close>

definition json_parse :: "(jsnum \<Rightarrow> jsnum) \<Rightarrow> string \<Rightarrow> json option" where
  "json_parse rd s =
     (case pval rd (Suc (length s)) s of
        Some (v, r) \<Rightarrow> if skip_ws r = [] then Some v else None
      | None \<Rightarrow> None)"

section \<open>Reading back strings and numbers\<close>

lemma code_eqD: "code c = n \<Longrightarrow> c = char_of n"
  by (auto simp: code_def)

lemma code_char_of [simp]: "n < 256 \<Longrightarrow> code (char_of n) = n"
  by (simp add: code_def)

lemma code_lt: "code c < 256"
  by (simp add: code_def)

lemma hex_val_digit: "d < 16 \<Longrightarrow> hex_val (hex_digit d) = d \<and> is_hex (hex_digit d)"
  by (auto simp: hex_val_def hex_digit_def is_hex_def is_lower_hex_def is_digit_def char_between_def)

lemma pstr_esc:
  "pstr (esc_char c @ r) = map_option (\<lambda>(t, r'). (c # t, r')) (pstr r)"
proof -
  have lit: "code (CHR ''b'') = 98" "code (CHR ''f'') = 102" "code (CHR ''n'') = 110"
    "code (CHR ''r'') = 114" "code (CHR ''t'') = 116" "code (CHR ''u'') = 117"
    by (simp_all add: code_def)
  have ne: "char_of (34::nat) \<noteq> CHR ''u''" "char_of (92::nat) \<noteq> CHR ''u''"
    by (auto dest!: arg_cong [where f = code] simp: lit)
  consider "code c \<in> {34, 92, 8, 12, 10, 13, 9}"
    | "code c < 32" "code c \<notin> {34, 92, 8, 12, 10, 13, 9}"
    | "32 \<le> code c" "code c \<notin> {34, 92}"
    by force
  then show ?thesis
  proof cases
    case 1
    then have "c = char_of (34::nat) \<or> c = char_of (92::nat) \<or> c = char_of (8::nat) \<or>
        c = char_of (12::nat) \<or> c = char_of (10::nat) \<or> c = char_of (13::nat) \<or> c = char_of (9::nat)"
      by (simp only: insert_iff empty_iff) (blast dest: code_eqD)
    then show ?thesis
      by (elim disjE) (simp_all add: esc_char_def simple_esc_def lit ne del: of_char_of char_of_nat)
  next
    case 2
    have "16 * (code c div 16) + code c mod 16 = code c" by simp
    moreover have "char_of (code c) = c" by (simp add: code_def)
    ultimately show ?thesis
      using 2 by (simp add: esc_char_def hex_val_digit)
  next
    case 3
    then show ?thesis by (simp add: esc_char_def)
  qed
qed

lemma pstr_quote: "pstr (concat (map esc_char s) @ char_of (34::nat) # r) = Some (s, r)"
  by (induction s) (simp_all add: pstr_esc)

lemma mk_dec_pow:
  assumes "m mod 10 \<noteq> 0"
  shows "mk_dec (m * 10 ^ z) e = Dec m (e + int z)"
proof (induction z arbitrary: e)
  case 0
  from assms have "m \<noteq> 0" by auto
  with assms show ?case by (simp add: mk_dec.simps [of m])
next
  case (Suc z)
  have "m * 10 ^ Suc z = (m * 10 ^ z) * 10" by simp
  then have "mk_dec (m * 10 ^ Suc z) e = mk_dec (m * 10 ^ z) (e + 1)"
    using assms by (subst mk_dec.simps) auto
  with Suc.IH show ?case by simp
qed

definition num_stop :: "string \<Rightarrow> bool" where
  "num_stop r \<longleftrightarrow> r = [] \<or> (\<not> is_digit (hd r) \<and> hd r \<notin> {CHR ''.'', CHR ''e'', CHR ''E''})"

lemma takeWhile_digits:
  assumes "list_all is_digit a" "r = [] \<or> \<not> is_digit (hd r)"
  shows "takeWhile is_digit (a @ r) = a" "dropWhile is_digit (a @ r) = r"
  using assms by (induction a; cases r; auto)+

lemma dec_val_zeros [simp]: "dec_val (replicate z (CHR ''0'')) = 0"
  by (induction z) (simp_all add: dec_val_def digit_val_def code_def replicate_append_same [symmetric])

lemma dec_val_zeros_append [simp]: "dec_val (replicate z (CHR ''0'') @ s) = dec_val s"
  by (simp add: dec_val_append)

lemma digit_lits [simp]:
  "is_digit (CHR ''0'')" "\<not> is_digit (CHR ''.'')" "\<not> is_digit (CHR ''e'')"
  "\<not> is_digit (CHR ''-'')" "\<not> is_digit (CHR ''+'')" "\<not> is_digit (CHR '','')"
  "\<not> is_digit (CHR '']'')" "\<not> is_digit (CHR ''}'')"
  by (simp_all add: is_digit_def char_between_def code_def)

lemma nat_dec_hd: "0 < n \<Longrightarrow> hd (nat_dec n) \<noteq> CHR ''0''"
proof (induction n rule: nat_dec.induct)
  case (1 n)
  show ?case
  proof (cases "n < 10")
    case True
    have "digit_val (CHR ''0'') = 0" by (simp add: digit_val_def code_def)
    then have "digit_char n \<noteq> CHR ''0''"
      using True "1.prems" by (metis digit_char_props(1) less_not_refl)
    with True show ?thesis by (simp add: nat_dec.simps [of n])
  next
    case False
    with 1 have "hd (nat_dec (n div 10)) \<noteq> CHR ''0''" by auto
    with False show ?thesis by (simp add: nat_dec.simps [of n])
  qed
qed

lemma nat_dec_pos_numeral: "0 < n \<Longrightarrow> pos_numeral (nat_dec n)"
  by (simp add: pos_numeral_def nat_dec_hd nat_dec_digits)

lemma pfrac_stop: "num_stop r \<Longrightarrow> pfrac r = Some ([], r)"
  by (cases r) (auto simp: num_stop_def)

lemma pexp_stop: "num_stop r \<Longrightarrow> pexp r = Some (0, r)"
  by (cases r) (auto simp: num_stop_def)

lemma num_stop_digit: "num_stop r \<Longrightarrow> r = [] \<or> \<not> is_digit (hd r)"
  by (auto simp: num_stop_def)

lemma pdigits_nat_dec: "num_stop r \<Longrightarrow> pdigits (nat_dec n @ r) = Some (int n, r)"
  using takeWhile_digits [OF nat_dec_digits num_stop_digit, of r n]
  by (simp add: pdigits_def dec_int_def)

text \<open>The three shapes of an unsigned number: an integer, a fraction, an exponent.\<close>

lemma punsigned_int:
  assumes "numeral_str ip" "list_all is_digit ip" "num_stop r"
  shows "punsigned sg (ip @ r) = Some (mk_dec (sg * dec_int ip) 0, r)"
  using assms takeWhile_digits [OF assms(2) num_stop_digit [OF assms(3)]]
  by (simp add: punsigned_def pfrac_stop pexp_stop)

lemma punsigned_frac:
  assumes "numeral_str ip" "list_all is_digit ip" "list_all is_digit fp" "fp \<noteq> []" "num_stop r"
  shows "punsigned sg (ip @ CHR ''.'' # fp @ r) =
    Some (mk_dec (sg * dec_int (ip @ fp)) (- int (length fp)), r)"
proof -
  have "takeWhile is_digit (ip @ CHR ''.'' # fp @ r) = ip"
    "dropWhile is_digit (ip @ CHR ''.'' # fp @ r) = CHR ''.'' # fp @ r"
    using assms(2) by (simp_all add: takeWhile_digits)
  with assms takeWhile_digits [OF assms(3) num_stop_digit [OF assms(5)]] show ?thesis
    by (simp add: punsigned_def pexp_stop)
qed

lemma pexp_printed:
  assumes "num_stop r"
  shows "pexp (CHR ''e'' # (if pos then ''+'' else ''-'') @ nat_dec n @ r) =
    Some (if pos then int n else - int n, r)"
  using assms by (simp add: pdigits_nat_dec)

lemma punsigned_exp:
  assumes "numeral_str ip" "list_all is_digit ip" "list_all is_digit fp" "num_stop r"
  shows "punsigned sg (ip @ (if fp = [] then [] else CHR ''.'' # fp) @
      CHR ''e'' # (if pos then ''+'' else ''-'') @ nat_dec n @ r) =
    Some (mk_dec (sg * dec_int (ip @ fp)) ((if pos then int n else - int n) - int (length fp)), r)"
proof -
  let ?x = "CHR ''e'' # (if pos then ''+'' else ''-'') @ nat_dec n @ r"
  have x: "?x = [] \<or> \<not> is_digit (hd ?x)" by simp
  note tw = takeWhile_digits [OF assms(3) x]
  show ?thesis
  proof (cases "fp = []")
    case True
    then show ?thesis
      using assms takeWhile_digits [OF assms(2) x]
      by (simp add: punsigned_def pdigits_nat_dec)
  next
    case False
    have "takeWhile is_digit (ip @ CHR ''.'' # fp @ ?x) = ip"
      "dropWhile is_digit (ip @ CHR ''.'' # fp @ ?x) = CHR ''.'' # fp @ ?x"
      using assms(2) by (simp_all add: takeWhile_digits)
    with False assms tw show ?thesis
      by (simp add: punsigned_def pdigits_nat_dec)
  qed
qed

lemma numeral_digits: "numeral_str s \<Longrightarrow> list_all is_digit s"
  by (auto simp: numeral_str_def pos_numeral_def)

lemma punsigned_body:
  assumes m: "sg * int a mod 10 \<noteq> 0" and sg: "sg \<in> {1, - 1}" and r: "num_stop r"
  shows "punsigned sg (num_body a e @ r) = Some (Dec (sg * int a) e, r)"
proof -
  define ds where "ds = nat_dec a"
  define n where "n = int (length ds) + e"
  have a: "0 < a" using m by (cases a) auto
  have ds: "pos_numeral ds" "list_all is_digit ds" "ds \<noteq> []" "dec_int ds = int a"
    using a by (simp_all add: ds_def nat_dec_pos_numeral nat_dec_digits dec_int_def)
  have hd: "hd ds \<noteq> CHR ''0''" using ds(1) by (simp add: pos_numeral_def)
  note mk = mk_dec_pow [OF m, where z = 0, simplified]
  consider (int) "0 \<le> e" "n \<le> 21" | (frac) "e < 0" "0 < n" "n \<le> 21"
    | (small) "- 6 < n" "n \<le> 0" | (exp) "\<not> (0 \<le> e \<and> n \<le> 21)" "\<not> (e < 0 \<and> 0 < n \<and> n \<le> 21)"
      "\<not> (- 6 < n \<and> n \<le> 0)"
    by linarith
  then show ?thesis
  proof cases
    case int
    let ?ip = "ds @ replicate (nat e) (CHR ''0'')"
    have p: "pos_numeral ?ip" using ds by (auto simp: pos_numeral_def list_all_iff)
    have v: "dec_int ?ip = int a * 10 ^ nat e"
      using ds(4) by (simp add: dec_int_def dec_val_append)
    have b: "num_body a e = ?ip"
      using int a by (simp add: num_body_def Let_def ds_def n_def)
    from p have "punsigned sg (?ip @ r) = Some (mk_dec (sg * dec_int ?ip) 0, r)"
      using punsigned_int [of ?ip r sg] r by (simp add: numeral_str_def pos_numeral_def)
    then show ?thesis
      using int mk_dec_pow [OF m, of "nat e" 0] by (simp only: b v mult.assoc [symmetric]) simp
  next
    case frac
    let ?ip = "take (nat n) ds" and ?fp = "drop (nat n) ds"
    have len: "nat n < length ds" using frac by (simp add: n_def)
    have p: "numeral_str ?ip" "list_all is_digit ?ip" "list_all is_digit ?fp" "?fp \<noteq> []"
      using ds hd len frac
      by (auto simp: numeral_str_def pos_numeral_def list_all_iff dest: in_set_takeD in_set_dropD)
    have b: "num_body a e = ?ip @ CHR ''.'' # ?fp"
      using frac a by (simp add: num_body_def Let_def ds_def n_def)
    have l: "- int (length ?fp) = e" using len frac by (simp add: n_def)
    show ?thesis
      using punsigned_frac [OF p r, of sg] ds(4) mk l by (simp add: b)
  next
    case small
    let ?fp = "replicate (nat (- n)) (CHR ''0'') @ ds"
    have e: "e < 0" using small ds(3) by (cases ds) (auto simp: n_def)
    have p: "numeral_str ''0''" "list_all is_digit ''0''" "list_all is_digit ?fp" "?fp \<noteq> []"
      using ds by (auto simp: numeral_str_def list_all_iff)
    have b: "num_body a e = ''0'' @ CHR ''.'' # ?fp"
      using small a e by (simp add: num_body_def Let_def ds_def n_def)
    have l: "- int (length ?fp) = e" using small by (simp add: n_def)
    have v: "dec_int (''0'' @ ?fp) = int a"
      using ds(4) dec_val_zeros_append [of 1 ?fp] by (simp add: dec_int_def)
    show ?thesis
      using punsigned_frac [OF p r, of sg] mk l by (simp add: b v del: append_Cons append_Nil)
        (simp add: v)
  next
    case exp
    let ?ip = "[hd ds]" and ?fp = "tl ds"
    have p: "numeral_str ?ip" "list_all is_digit ?ip" "list_all is_digit ?fp"
      using ds by (cases ds; simp add: numeral_str_def pos_numeral_def)+
    have b: "num_body a e = ?ip @ (if ?fp = [] then [] else CHR ''.'' # ?fp) @
        CHR ''e'' # (if 0 < n then ''+'' else ''-'') @ nat_dec (nat \<bar>n - 1\<bar>)"
      using a unfolding num_body_def Let_def ds_def [symmetric] n_def [symmetric]
      by (simp only: exp if_False) simp
    have l: "(if 0 < n then int (nat \<bar>n - 1\<bar>) else - int (nat \<bar>n - 1\<bar>)) - int (length ?fp) = e"
      using ds(3) by (cases ds) (auto simp: n_def)
    have v: "dec_int (?ip @ ?fp) = int a" using ds(3,4) by simp
    show ?thesis
      using punsigned_exp [OF p r, of sg "0 < n" "nat \<bar>n - 1\<bar>"] mk l v
      by (simp add: b)
  qed
qed

lemma num_body_hd: "num_body a e \<noteq> [] \<and> is_digit (hd (num_body a e))"
proof -
  have "nat_dec a \<noteq> []" "is_digit (hd (nat_dec a))"
    using nat_dec_digits_set [of "hd (nat_dec a)" a] by simp_all
  then show ?thesis
    by (auto simp: num_body_def Let_def hd_append)
qed

lemma pnum_num_str:
  assumes "wf_num (Dec m e)" "num_stop r"
  shows "pnum (num_str (Dec m e) @ r) = Some (Dec m e, r)"
proof (cases "m = 0")
  case True
  with assms have "e = 0" by simp
  have "punsigned 1 (''0'' @ r) = Some (mk_dec (1 * dec_int ''0'') 0, r)"
    by (rule punsigned_int) (simp_all add: numeral_str_def assms)
  moreover have "dec_int ''0'' = 0" using dec_val_zeros [of 1] by (simp add: dec_int_def)
  ultimately show ?thesis
    using True \<open>e = 0\<close> by (simp add: pnum_def num_body_def mk_dec.simps)
next
  case False
  with assms have m: "m mod 10 \<noteq> 0" by simp
  show ?thesis
  proof (cases "m < 0")
    case True
    then have "- 1 * int (nat \<bar>m\<bar>) = m" by simp
    with punsigned_body [of "- 1" "nat \<bar>m\<bar>" r e] m assms(2) True show ?thesis
      by (simp add: pnum_def)
  next
    case pos: False
    obtain c t where c: "num_body (nat \<bar>m\<bar>) e = c # t" "is_digit c"
      using num_body_hd [of "nat \<bar>m\<bar>" e] by (cases "num_body (nat \<bar>m\<bar>) e") auto
    then have "c \<noteq> CHR ''-''" by auto
    then have "pnum (num_str (Dec m e) @ r) = punsigned 1 (num_body (nat \<bar>m\<bar>) e @ r)"
      using pos c(1) by (simp add: pnum_def)
    with punsigned_body [of 1 "nat \<bar>m\<bar>" r e] m assms(2) pos show ?thesis by simp
  qed
qed

section \<open>The round trip\<close>

text \<open>The values the program prints: finite numbers that are doubles, and objects with
  distinct keys. Parsing also puts the entries of each object in enumeration order.\<close>

fun wf_json :: "(jsnum \<Rightarrow> jsnum) \<Rightarrow> json \<Rightarrow> bool" where
  "wf_json rd (JNum n) = (is_finite n \<and> wf_num n \<and> rd n = n)"
| "wf_json rd (JArr xs) = (\<forall>x \<in> set xs. wf_json rd x)"
| "wf_json rd (JObj kvs) =
     (distinct (map fst kvs) \<and> (\<forall>kv \<in> set kvs. wf_json rd (snd kv)))"
| "wf_json rd _ = True"

fun js_norm :: "json \<Rightarrow> json" where
  "js_norm (JArr xs) = JArr (map js_norm xs)"
| "js_norm (JObj kvs) = JObj (js_order (map (\<lambda>(k, v). (k, js_norm v)) kvs))"
| "js_norm v = v"

definition stops :: "string \<Rightarrow> bool" where
  "stops r \<longleftrightarrow> r = [] \<or> hd r \<in> set '',]}''"

lemma stops_num_stop: "stops r \<Longrightarrow> num_stop r"
  by (auto simp: stops_def num_stop_def)

lemma stops_simps [simp]: "stops []" "stops (CHR '','' # r)" "stops (CHR '']'' # r)" "stops (CHR ''}'' # r)"
  by (simp_all add: stops_def)

lemma fold_put: "distinct (map fst (acc @ kvs)) \<Longrightarrow> fold put kvs acc = acc @ kvs"
  by (induction kvs arbitrary: acc) (auto simp: put_def)

lemma mk_entries_distinct: "distinct (map fst kvs) \<Longrightarrow> mk_entries kvs = js_order kvs"
  using fold_put [of "[]" kvs] by (simp add: mk_entries_def)

lemma skip_ws_id: "s = [] \<or> 32 < code (hd s) \<Longrightarrow> skip_ws s = s"
  by (cases s) (auto simp: skip_ws_def)

lemma code_lits [simp]:
  "code (CHR ''{'') = 123" "code (CHR ''}'') = 125" "code (CHR ''['') = 91" "code (CHR '']'') = 93"
  "code (CHR '','') = 44" "code (CHR '':'') = 58" "code (CHR ''n'') = 110" "code (CHR ''t'') = 116"
  "code (CHR ''f'') = 102" "code (CHR ''-'') = 45"
  by (simp_all add: code_def)

lemma skip_ws_lits [simp]:
  "skip_ws (CHR ''{'' # r) = CHR ''{'' # r" "skip_ws (CHR ''}'' # r) = CHR ''}'' # r"
  "skip_ws (CHR ''['' # r) = CHR ''['' # r" "skip_ws (CHR '']'' # r) = CHR '']'' # r"
  "skip_ws (CHR '','' # r) = CHR '','' # r" "skip_ws (CHR '':'' # r) = CHR '':'' # r"
  "skip_ws (CHR ''n'' # r) = CHR ''n'' # r" "skip_ws (CHR ''t'' # r) = CHR ''t'' # r"
  "skip_ws (CHR ''f'' # r) = CHR ''f'' # r" "skip_ws (char_of (34::nat) # r) = char_of (34::nat) # r"
  by (simp_all add: skip_ws_id del: of_char_of)

lemma quote_lit [simp]:
  "char_of (34::nat) \<noteq> CHR ''{''" "char_of (34::nat) \<noteq> CHR ''[''" "char_of (34::nat) \<noteq> CHR ''}''"
  "char_of (34::nat) \<noteq> CHR '']''"
  by (auto dest!: arg_cong [where f = code])

text \<open>The first character of a printed value: never white space, \<open>]\<close> or \<open>}\<close>.\<close>

lemma num_str_hd:
  "num_str (Dec m e) \<noteq> [] \<and> (is_digit (hd (num_str (Dec m e))) \<or> hd (num_str (Dec m e)) = CHR ''-'')"
  using num_body_hd [of "nat \<bar>m\<bar>" e] by (simp add: hd_append)

lemma is_digit_code: "is_digit c \<longleftrightarrow> 48 \<le> code c \<and> code c \<le> 57"
  by (simp add: is_digit_def char_between_def)

lemma stringify_hd:
  assumes "wf_json rd v"
  shows "stringify v \<noteq> [] \<and> 32 < code (hd (stringify v)) \<and>
    hd (stringify v) \<noteq> CHR '']'' \<and> hd (stringify v) \<noteq> CHR ''}''"
proof (cases v)
  case (JNum n)
  with assms obtain m e where n: "n = Dec m e" by (cases n) auto
  have "is_digit c \<or> c = CHR ''-'' \<Longrightarrow> 32 < code c \<and> c \<noteq> CHR '']'' \<and> c \<noteq> CHR ''}''" for c
    by (auto simp: is_digit_code)
  with num_str_hd [of m e] show ?thesis by (simp add: JNum n del: num_str.simps)
qed (auto simp: quote_def)

lemma pval_num:
  assumes "wf_json rd (JNum n)" "stops r" "0 < F"
  shows "pval rd F (num_str n @ r) = Some (JNum n, r)"
proof -
  from assms obtain m e where n: "n = Dec m e" by (cases n) auto
  obtain c t where c: "num_str n = c # t" and d: "is_digit c \<or> c = CHR ''-''"
    using num_str_hd [of m e] by (cases "num_str n") (auto simp: n simp del: num_str.simps)
  obtain f where f: "F = Suc f" using assms by (cases F) auto
  have k: "c \<noteq> CHR ''{''" "c \<noteq> CHR ''[''" "c \<noteq> CHR ''n''" "c \<noteq> CHR ''t''" "c \<noteq> CHR ''f''"
    "code c \<noteq> 34" "32 < code c"
    using d by (auto simp: is_digit_code)
  have "pnum (num_str n @ r) = Some (n, r)"
    using assms pnum_num_str [of m e r] stops_num_stop by (simp add: n del: num_str.simps)
  with c have "pnum (c # t @ r) = Some (n, r)" by simp
  moreover have "skip_ws (c # t @ r) = c # t @ r" using k by (simp add: skip_ws_id)
  ultimately show ?thesis using k assms(1) by (simp add: f c)
qed

lemma pelems_join:
  assumes "\<And>x F r. x \<in> set xs \<Longrightarrow> stops r \<Longrightarrow> length (stringify x) < F \<Longrightarrow>
      pval rd F (stringify x @ r) = Some (js_norm x, r)"
    and "xs \<noteq> []" "length (join '','' (map stringify xs)) + 2 \<le> F"
  shows "pelems rd F (join '','' (map stringify xs) @ CHR '']'' # r) = Some (map js_norm xs, r)"
  using assms
proof (induction xs arbitrary: F)
  case Nil
  then show ?case by simp
next
  case (Cons x xs)
  from Cons.prems(3) obtain f where f: "F = Suc f" by (cases F) auto
  show ?case
  proof (cases xs)
    case Nil
    with Cons.prems(1) [of x "CHR '']'' # r" f] Cons.prems(3) show ?thesis by (simp add: f)
  next
    case (Cons y ys)
    let ?j = "join '','' (map stringify xs)"
    have "pval rd f (stringify x @ CHR '','' # ?j @ CHR '']'' # r) =
        Some (js_norm x, CHR '','' # ?j @ CHR '']'' # r)"
      using Cons.prems(1) [of x _ f] Cons.prems(3) by (simp add: f Cons)
    moreover have "pelems rd f (?j @ CHR '']'' # r) = Some (map js_norm xs, r)"
      using Cons.IH [of f] Cons.prems by (simp add: f Cons)
    ultimately show ?thesis by (simp add: f Cons)
  qed
qed

definition print_entry :: "string \<times> json \<Rightarrow> string" where
  "print_entry kv = quote (fst kv) @ '':'' @ stringify (snd kv)"

lemma stringify_obj: "stringify (JObj kvs) = ''{'' @ join '','' (map print_entry kvs) @ ''}''"
  by (simp add: print_entry_def [abs_def] case_prod_unfold)

abbreviation norm_entries :: "(string \<times> json) list \<Rightarrow> (string \<times> json) list" where
  "norm_entries \<equiv> map (\<lambda>(k, v). (k, js_norm v))"

lemma pmems_join:
  assumes "\<And>k x F r. (k, x) \<in> set kvs \<Longrightarrow> stops r \<Longrightarrow> length (stringify x) < F \<Longrightarrow>
      pval rd F (stringify x @ r) = Some (js_norm x, r)"
    and "kvs \<noteq> []" "length (join '','' (map print_entry kvs)) + 2 \<le> F"
  shows "pmems rd F (join '','' (map print_entry kvs) @ CHR ''}'' # r) = Some (norm_entries kvs, r)"
  using assms
proof (induction kvs arbitrary: F)
  case Nil
  then show ?case by simp
next
  case (Cons kv kvs)
  obtain k x where kv: "kv = (k, x)" by (cases kv)
  from Cons.prems(3) obtain f where f: "F = Suc f" by (cases F) auto
  have head: "pmems rd (Suc f) (print_entry (k, x) @ t) =
      (case pval rd f (stringify x @ t) of
         None \<Rightarrow> None
       | Some (v, u) \<Rightarrow>
          (case skip_ws u of
             [] \<Rightarrow> None
           | d # w \<Rightarrow>
              (if d = CHR '','' then map_option (\<lambda>(m, z). ((k, v) # m, z)) (pmems rd f w)
               else if d = CHR ''}'' then Some ([(k, v)], w) else None)))" for t
    by (simp add: print_entry_def quote_def pstr_quote del: of_char_of)
  have len: "length (stringify x) < length (print_entry (k, x))"
    by (simp add: print_entry_def quote_def)
  show ?case
  proof (cases kvs)
    case Nil
    then show ?thesis
      using Cons.prems(1) [of k x "CHR ''}'' # r" f] Cons.prems(3) len head
      by (simp add: f kv del: pmems.simps)
  next
    case (Cons y ys)
    let ?j = "join '','' (map print_entry kvs)"
    have "pval rd f (stringify x @ CHR '','' # ?j @ CHR ''}'' # r) =
        Some (js_norm x, CHR '','' # ?j @ CHR ''}'' # r)"
      using Cons.prems(1) [of k x _ f] Cons.prems(3) len by (simp add: f kv Cons)
    moreover have "pmems rd f (?j @ CHR ''}'' # r) = Some (norm_entries kvs, r)"
      by (rule Cons.IH) (use Cons.prems in \<open>auto simp: f Cons\<close>)
    ultimately show ?thesis using head by (simp add: f kv Cons del: pmems.simps)
  qed
qed

text \<open>A printed value, followed by anything that can follow it, reads back as itself.\<close>

lemma pval_stringify:
  "wf_json rd v \<Longrightarrow> stops r \<Longrightarrow> length (stringify v) < F \<Longrightarrow>
   pval rd F (stringify v @ r) = Some (js_norm v, r)"
proof (induction v arbitrary: F r rule: stringify.induct)
  case 1
  then show ?case by (cases F) auto
next
  case (2 b)
  then show ?case by (cases F) auto
next
  case (3 n)
  then show ?case using pval_num [of rd n r F] by simp
next
  case (4 s)
  then obtain f where "F = Suc f" by (cases F) auto
  then show ?case using pstr_quote [of s r] by (simp add: quote_def del: of_char_of)
next
  case (5 xs)
  then obtain f where f: "F = Suc f" by (cases F) auto
  show ?case
  proof (cases xs)
    case Nil
    then show ?thesis by (simp add: f)
  next
    case (Cons y ys)
    let ?j = "join '','' (map stringify xs)"
    have e: "pelems rd f (?j @ CHR '']'' # r) = Some (map js_norm xs, r)"
      using 5 by (intro pelems_join) (auto simp: f Cons)
    obtain z where z: "?j = stringify y @ z" by (cases ys) (auto simp: Cons)
    obtain c l where c: "stringify y = c # l" "32 < code c" "c \<noteq> CHR '']''"
      using stringify_hd [of rd y] 5 by (cases "stringify y") (auto simp: Cons)
    have "?j @ CHR '']'' # r = c # (l @ z @ CHR '']'' # r)"
      by (simp only: z c) simp
    then show ?thesis using e c by (simp add: f skip_ws_id)
  qed
next
  case (6 kvs)
  then obtain f where f: "F = Suc f" by (cases F) auto
  show ?case
  proof (cases kvs)
    case Nil
    then show ?thesis by (simp add: f js_order_def)
  next
    case (Cons y ys)
    let ?j = "join '','' (map print_entry kvs)"
    have e: "pmems rd f (?j @ CHR ''}'' # r) = Some (norm_entries kvs, r)"
      using 6 by (intro pmems_join) (fastforce simp: f Cons stringify_obj simp del: stringify.simps)+
    obtain t where c: "?j @ CHR ''}'' # r = char_of (34::nat) # t"
      by (cases ys) (auto simp: Cons print_entry_def quote_def)
    have "map fst (norm_entries kvs) = map fst kvs" by (simp add: case_prod_unfold)
    then have "mk_entries (norm_entries kvs) = js_order (norm_entries kvs)"
      using 6 by (simp add: mk_entries_distinct del: map_map)
    with e c show ?thesis
      by (simp add: f stringify_obj del: stringify.simps of_char_of pmems.simps)
  qed
qed

text \<open>The round trip of \<open>JSON.stringify\<close> and \<open>JSON.parse\<close>.\<close>

lemma json_roundtrip: "wf_json rd v \<Longrightarrow> json_parse rd (stringify v) = Some (js_norm v)"
  using pval_stringify [of rd v "[]" "Suc (length (stringify v))"]
  by (simp add: json_parse_def skip_ws_def stops_def del: pval.simps)

lemma stringify_inj:
  assumes "wf_json rd v" "wf_json rd w" "stringify v = stringify w"
  shows "js_norm v = js_norm w"
proof -
  have "Some (js_norm v) = Some (js_norm w)"
    using json_roundtrip [OF assms(1)] json_roundtrip [OF assms(2)] by (simp only: assms(3))
  then show ?thesis by (rule option.inject [THEN iffD1])
qed

section \<open>Canonical form\<close>

lemma mset_js_order [simp]: "mset (js_order kvs) = mset kvs"
  by (simp add: js_order_def)

lemma sort_key_mset_eq:
  assumes "mset xs = mset ys" "distinct (map fst xs)"
  shows "sort_key fst xs = sort_key fst ys"
proof (rule sort_key_inj_key_eq)
  show "mset xs = mset (sort_key fst ys)" using assms(1) by simp
  show "inj_on fst (set xs)" using assms(2) by (simp add: distinct_map)
  show "sorted (map fst (sort_key fst ys))" by simp
qed

lemma sort_keys_js_norm: "wf_json rd v \<Longrightarrow> sort_keys (js_norm v) = sort_keys v"
proof (induction v rule: js_norm.induct)
  case (2 kvs)
  let ?q = "\<lambda>(k :: string, v). (k, sort_keys v)"
  have eq: "map ?q (norm_entries kvs) = map ?q kvs"
    using 2 by (auto simp: fun_eq_iff)
  have "mset (map ?q (js_order (norm_entries kvs))) = mset (map ?q (norm_entries kvs))"
    by (simp only: mset_map mset_js_order)
  moreover have "distinct (map fst (map ?q (js_order (norm_entries kvs))))"
  proof -
    have "map fst (map ?q xs) = map fst xs" for xs by (simp add: case_prod_unfold)
    moreover have "mset (map fst (js_order (norm_entries kvs))) = mset (map fst kvs)"
      by (simp only: mset_map mset_js_order) (simp add: case_prod_unfold multiset.map_comp comp_def)
    ultimately show ?thesis using 2 by (metis mset_eq_imp_distinct_iff wf_json.simps(3))
  qed
  ultimately have "sort_key fst (map ?q (js_order (norm_entries kvs))) = sort_key fst (map ?q kvs)"
    by (simp only: eq sort_key_mset_eq)
  then show ?case by simp
qed simp_all

lemma wf_sort_keys: "wf_json rd v \<Longrightarrow> wf_json rd (sort_keys v)"
proof (induction v rule: sort_keys.induct)
  case (2 kvs)
  have "mset (map fst (sort_key fst (map (\<lambda>(k, v). (k, sort_keys v)) kvs))) = mset (map fst kvs)"
    by (simp only: mset_map mset_sort) (simp add: case_prod_unfold multiset.map_comp comp_def)
  then have "distinct (map fst (sort_key fst (map (\<lambda>(k, v). (k, sort_keys v)) kvs)))"
    using 2 by (metis mset_eq_imp_distinct_iff wf_json.simps(3))
  with 2 show ?case by auto
qed auto

lemma sort_keys_idem: "sort_keys (sort_keys v) = sort_keys v"
proof (induction v rule: sort_keys.induct)
  case (2 kvs)
  let ?q = "\<lambda>(k :: string, v). (k, sort_keys v)"
  have "map ?q (sort_key fst (map ?q kvs)) = sort_key fst (map ?q (map ?q kvs))"
    by (rule sort_key_map [symmetric]) auto
  also have "map ?q (map ?q kvs) = map ?q kvs" using 2 by auto
  finally show ?case
    by (simp add: sort_key_id_if_sorted)
qed auto

text \<open>Two values have the same canonical text exactly when they are the same value up to the
  order of object entries.\<close>

lemma canonicalJson_inj:
  assumes "wf_json rd v" "wf_json rd w" "canonicalJson v = canonicalJson w"
  shows "sort_keys v = sort_keys w"
proof -
  have "js_norm (sort_keys v) = js_norm (sort_keys w)"
    using assms by (intro stringify_inj [of rd]) (simp_all add: wf_sort_keys canonicalJson_stringify)
  then show ?thesis
    by (metis assms(1,2) sort_keys_idem sort_keys_js_norm wf_sort_keys)
qed

end
