(* ===== verification/ServiceContract.thy ===== *)
theory ServiceContract
  imports JsonParse
begin

text \<open>
  The service protocol of \<open>src/src/lib/economy/service-contract.ts\<close>: constrained JSON
  schemas, canonical hashing, immutable service definitions, paid requests and the check of a
  settlement receipt. A schema is kept as the JSON value the code keeps, and read through
  \<^const>\<open>fld\<close> as the code reads its properties.

  Code that is not in the repository enters as the record \<open>ext\<close>: the hash, the ABI encoder,
  the address check and the event decoders of \<open>viem\<close>, the URL parser of the platform, and the
  URL check of \<open>zod\<close>.
\<close>

section \<open>The boundary\<close>

record url =
  href :: string
  protocol :: string
  origin :: string
  username :: string
  password :: string
  hostname :: string
  pathname :: string
  search :: string
  hash_part :: string

record log_entry =
  log_address :: string
  log_data :: string
  log_topics :: "string list"

datatype ResourceCategory = Data | Compute | Inference | Verification | Storage

datatype chain_event =
    OrderSettled (os_orderId: string) (os_payer: string) (os_amount: int)
  | OrderPaid (op_orderId: string) (op_agentId: string) (op_seller: string)
      (op_serviceHash: string) (op_category: int) (op_unitHash: string) (op_quantity: int)
      (op_unitPrice: int) (op_amount: int) (op_inputHash: string)
  | OtherEvent string

record ext =
  keccak256 :: "string \<Rightarrow> string"
  toHex :: "string \<Rightarrow> string"
  isAddress :: "string \<Rightarrow> bool"
  encode_terms :: "int \<times> string \<times> string \<times> int \<times> string \<times> int \<times> int \<times> string \<Rightarrow> string option"
  new_URL :: "string \<Rightarrow> url option"
  z_url :: "string \<Rightarrow> string option"
  decode_market :: "log_entry \<Rightarrow> chain_event option"
  decode_ledger :: "log_entry \<Rightarrow> chain_event option"

definition text_hash :: "ext \<Rightarrow> string \<Rightarrow> string" where
  "text_hash x s = keccak256 x (toHex x s)"

section \<open>Categories and units\<close>

definition resourceCategories :: "ResourceCategory list" where
  "resourceCategories = [Data, Compute, Inference, Verification, Storage]"

fun category_str :: "ResourceCategory \<Rightarrow> string" where
  "category_str Data = ''data''"
| "category_str Compute = ''compute''"
| "category_str Inference = ''inference''"
| "category_str Verification = ''verification''"
| "category_str Storage = ''storage''"

definition category_of :: "string \<Rightarrow> ResourceCategory option" where
  "category_of s = find (\<lambda>c. category_str c = s) resourceCategories"

fun category_index :: "ResourceCategory \<Rightarrow> int" where
  "category_index Data = 0"
| "category_index Compute = 1"
| "category_index Inference = 2"
| "category_index Verification = 3"
| "category_index Storage = 4"

fun normalizedUnits :: "ResourceCategory \<Rightarrow> string list" where
  "normalizedUnits Data = [''source-record'']"
| "normalizedUnits Compute = [''compute-unit'']"
| "normalizedUnits Inference = [''inference-request'']"
| "normalizedUnits Verification = [''verification-job'']"
| "normalizedUnits Storage = [''gigabyte-hour'', ''stored-object-hour'']"

section \<open>Constrained schemas\<close>

definition schemaKeys :: "string list" where
  "schemaKeys = [''type'', ''properties'', ''required'', ''additionalProperties'', ''items'',
     ''maxItems'', ''maxLength'', ''minimum'', ''maximum'']"

definition schemaTypes :: "string list" where
  "schemaTypes = [''object'', ''array'', ''string'', ''number'', ''integer'', ''boolean'', ''null'']"

text \<open>\<open>String(v)\<close>: an array prints its elements joined with commas, so that
  \<open>String(['null'])\<close> is \<open>'null'\<close>.\<close>

fun js_String :: "json \<Rightarrow> string" where
  "js_String JNull = ''null''"
| "js_String (JBool b) = (if b then ''true'' else ''false'')"
| "js_String (JNum n) = num_str n"
| "js_String (JStr s) = s"
| "js_String (JArr xs) = join '','' (map (\<lambda>x. if x = JNull then [] else js_String x) xs)"
| "js_String (JObj _) = ''[object Object]''"

definition has_type :: "json \<Rightarrow> string \<Rightarrow> bool" where
  "has_type s t \<longleftrightarrow> fld s ''type'' = Some (JStr t)"

definition bounded_int :: "int \<Rightarrow> json option \<Rightarrow> bool" where
  "bounded_int hi v = (case v of
     Some (JNum n) \<Rightarrow> is_safe_integer n \<and> 0 \<le> num_int n \<and> num_int n \<le> hi
   | _ \<Rightarrow> False)"

definition required_ok :: "json \<Rightarrow> string list \<Rightarrow> bool" where
  "required_ok s names = (case fld s ''required'' of
     None \<Rightarrow> True
   | Some (JArr rs) \<Rightarrow>
       list_all (\<lambda>r. case r of JStr n \<Rightarrow> n \<in> set names | _ \<Rightarrow> False) rs \<and> distinct rs
   | Some _ \<Rightarrow> False)"

definition bound_ok :: "json option \<Rightarrow> bool" where
  "bound_ok v = (case v of None \<Rightarrow> True | Some (JNum n) \<Rightarrow> is_finite n | Some _ \<Rightarrow> False)"

text \<open>The last guards of \<open>isSchema\<close>: \<open>maxLength\<close> on strings only, finite bounds on
  numbers only, and an ordered pair of bounds.\<close>

definition scalar_bounds_ok :: "json \<Rightarrow> bool" where
  "scalar_bounds_ok s \<longleftrightarrow>
     (fld s ''maxLength'' = None \<or> (has_type s ''string'' \<and> bounded_int 65536 (fld s ''maxLength''))) \<and>
     bound_ok (fld s ''minimum'') \<and> bound_ok (fld s ''maximum'') \<and>
     ((fld s ''minimum'' = None \<and> fld s ''maximum'' = None) \<or>
      has_type s ''number'' \<or> has_type s ''integer'') \<and>
     (case (fld s ''minimum'', fld s ''maximum'') of
        (Some (JNum a), Some (JNum b)) \<Rightarrow> num_le a b
      | _ \<Rightarrow> True)"

function isSchema :: "nat \<Rightarrow> json \<Rightarrow> bool" where
  "isSchema depth s \<longleftrightarrow>
     depth \<le> 8 \<and> is_obj s \<and>
     list_all (\<lambda>k. k \<in> set schemaKeys) (keys s) \<and>
     (case fld s ''type'' of Some t \<Rightarrow> js_String t \<in> set schemaTypes | None \<Rightarrow> False) \<and>
     (if has_type s ''object'' then
        fld s ''additionalProperties'' = Some (JBool False) \<and>
        (case fld s ''properties'' of
           Some (JObj ps) \<Rightarrow>
             length ps \<le> 50 \<and>
             list_all (\<lambda>p. fst p \<noteq> [] \<and> length (fst p) \<le> 80 \<and> isSchema (Suc depth) (snd p)) ps \<and>
             required_ok s (map fst ps)
         | _ \<Rightarrow> False)
      else fld s ''properties'' = None \<and> fld s ''required'' = None \<and>
           fld s ''additionalProperties'' = None) \<and>
     (if has_type s ''array'' then
        (case fld s ''items'' of Some c \<Rightarrow> isSchema (Suc depth) c | None \<Rightarrow> False) \<and>
        bounded_int 1000 (fld s ''maxItems'')
      else fld s ''items'' = None \<and> fld s ''maxItems'' = None) \<and>
     scalar_bounds_ok s"
  by pat_completeness auto
termination
  by (relation "measure (\<lambda>(d, s). size s)")
    (auto dest!: size_fld [where k = "''properties''"] size_fld [where k = "''items''"] size_kv)

declare isSchema.simps [simp del]

section \<open>Bounded JSON and canonical hashing\<close>

fun visit :: "nat \<Rightarrow> json \<Rightarrow> unit res"
and visit_all :: "nat \<Rightarrow> json list \<Rightarrow> unit res"
and visit_entries :: "nat \<Rightarrow> (string \<times> json) list \<Rightarrow> unit res" where
  "visit d v =
     (if 12 < d then Inl (Err ''JSON nesting exceeds limit'')
      else (case v of
         JNull \<Rightarrow> Inr ()
       | JStr _ \<Rightarrow> Inr ()
       | JBool _ \<Rightarrow> Inr ()
       | JNum n \<Rightarrow> need (is_finite n) (Err ''JSON number must be finite'')
       | JArr xs \<Rightarrow>
           (if 1000 < length xs then Inl (Err ''JSON array exceeds limit'')
            else visit_all (Suc d) xs)
       | JObj kvs \<Rightarrow>
           (if 1000 < length kvs then Inl (Err ''JSON object exceeds limit'')
            else visit_entries (Suc d) kvs)))"
| "visit_all d [] = Inr ()"
| "visit_all d (x # xs) = bindR (visit d x) (\<lambda>_. visit_all d xs)"
| "visit_entries d [] = Inr ()"
| "visit_entries d ((k, x) # kvs) =
     (if k = [] \<or> 256 < length k then Inl (Err ''Invalid JSON key'')
      else bindR (visit d x) (\<lambda>_. visit_entries d kvs))"

declare visit.simps [simp del]

definition assertJson :: "json \<Rightarrow> nat \<Rightarrow> unit res" where
  "assertJson v limit =
     bindR (visit 0 v) (\<lambda>_.
       need (utf8_length (canonicalJson v) \<le> limit) (Err ''JSON payload exceeds limit''))"

definition canonicalJsonHash :: "ext \<Rightarrow> json \<Rightarrow> string res" where
  "canonicalJsonHash x v =
     bindR (assertJson v (128 * 1024)) (\<lambda>_. Inr (text_hash x (canonicalJson v)))"

section \<open>Values against schemas\<close>

definition num_ge_opt :: "jsnum \<Rightarrow> json option \<Rightarrow> bool" where
  "num_ge_opt n b = (case b of None \<Rightarrow> True | Some (JNum m) \<Rightarrow> num_le m n | Some _ \<Rightarrow> False)"

definition num_le_opt :: "jsnum \<Rightarrow> json option \<Rightarrow> bool" where
  "num_le_opt n b = (case b of None \<Rightarrow> True | Some (JNum m) \<Rightarrow> num_le n m | Some _ \<Rightarrow> False)"

definition nat_num :: "nat \<Rightarrow> jsnum" where
  "nat_num n = num_of_int (int n)"

definition required_of :: "json \<Rightarrow> json list" where
  "required_of s = (case fld s ''required'' of Some r \<Rightarrow> elems r | None \<Rightarrow> [])"

definition properties_of :: "json \<Rightarrow> json" where
  "properties_of s = (case fld s ''properties'' of Some p \<Rightarrow> p | None \<Rightarrow> JNull)"

definition items_of :: "json \<Rightarrow> json" where
  "items_of s = (case fld s ''items'' of Some c \<Rightarrow> c | None \<Rightarrow> JNull)"

definition own_key :: "json \<Rightarrow> json \<Rightarrow> bool" where
  "own_key v k = (case k of JStr n \<Rightarrow> fld v n \<noteq> None | _ \<Rightarrow> False)"

fun matchesSchema :: "json \<Rightarrow> json \<Rightarrow> bool" where
  "matchesSchema v s =
     (if has_type s ''null'' then v = JNull
      else if has_type s ''boolean'' then as_bool v \<noteq> None
      else if has_type s ''string'' then
        (case v of JStr t \<Rightarrow> num_le_opt (nat_num (length t)) (fld s ''maxLength'') | _ \<Rightarrow> False)
      else if has_type s ''number'' \<or> has_type s ''integer'' then
        (case v of
           JNum n \<Rightarrow> is_finite n \<and> (has_type s ''number'' \<or> is_integer n) \<and>
             num_ge_opt n (fld s ''minimum'') \<and> num_le_opt n (fld s ''maximum'')
         | _ \<Rightarrow> False)
      else if has_type s ''array'' then
        (case v of
           JArr xs \<Rightarrow> num_le_opt (nat_num (length xs)) (fld s ''maxItems'') \<and>
             list_all (\<lambda>x. matchesSchema x (items_of s)) xs
         | _ \<Rightarrow> False)
      else if has_type s ''object'' then
        (case v of
           JObj kvs \<Rightarrow>
             list_all (own_key v) (required_of s) \<and>
             list_all (\<lambda>kv. case fld (properties_of s) (fst kv) of
                 None \<Rightarrow> False | Some c \<Rightarrow> matchesSchema (snd kv) c) kvs
         | _ \<Rightarrow> False)
      else False)"

declare matchesSchema.simps [simp del]

definition validateSchemaValue :: "json \<Rightarrow> json \<Rightarrow> nat \<Rightarrow> unit res" where
  "validateSchemaValue v s limit =
     bindR (assertJson v limit) (\<lambda>_.
     bindR (need (isSchema 0 s) Zod) (\<lambda>_.
     need (matchesSchema v s) (Err ''JSON value does not match service schema'')))"

text \<open>No object has a key twice; every JavaScript object has this property.\<close>

fun unique_keys :: "json \<Rightarrow> bool" where
  "unique_keys (JArr xs) = (\<forall>x \<in> set xs. unique_keys x)"
| "unique_keys (JObj kvs) = (distinct (map fst kvs) \<and> (\<forall>kv \<in> set kvs. unique_keys (snd kv)))"
| "unique_keys _ = True"

lemma visit_all_ok: "(\<And>x. x \<in> set xs \<Longrightarrow> visit d x = Inr ()) \<Longrightarrow> visit_all d xs = Inr ()"
  by (induction xs) simp_all

lemma visit_entries_ok:
  "(\<And>k x. (k, x) \<in> set kvs \<Longrightarrow> k \<noteq> [] \<and> length k \<le> 256 \<and> visit d x = Inr ()) \<Longrightarrow>
    visit_entries d kvs = Inr ()"
proof (induction kvs)
  case (Cons kv kvs)
  obtain k x where "kv = (k, x)" by (cases kv)
  with Cons.prems [of k x] Cons.IH Cons.prems show ?case by auto
qed simp

lemma bounded_len:
  assumes "bounded_int 1000 v" "num_le_opt (nat_num n) v"
  shows "n \<le> 1000"
  using assms
  by (auto simp: bounded_int_def num_le_opt_def nat_num_def is_safe_integer_def num_le_integer
      split: option.splits json.splits)

lemma isSchema_array:
  assumes "isSchema d s" "has_type s ''array''"
  shows "isSchema (Suc d) (items_of s) \<and> bounded_int 1000 (fld s ''maxItems'')"
  using assms by (subst (asm) isSchema.simps) (auto simp: items_of_def split: option.splits)

lemma isSchema_object:
  assumes "isSchema d s" "has_type s ''object''"
  shows "\<exists>ps. properties_of s = JObj ps \<and> length ps \<le> 50 \<and>
    (\<forall>(k, c) \<in> set ps. k \<noteq> [] \<and> length k \<le> 80 \<and> isSchema (Suc d) c)"
  using assms
  by (subst (asm) isSchema.simps)
    (auto simp: properties_of_def list_all_iff split: option.splits json.splits)

lemma distinct_keys_length:
  assumes "distinct ks" "set ks \<subseteq> set (map fst ps)"
  shows "length ks \<le> length ps"
proof -
  have "length ks = card (set ks)" using assms(1) by (simp add: distinct_card)
  also have "\<dots> \<le> card (set (map fst ps))" using assms(2) by (intro card_mono) auto
  also have "\<dots> \<le> length ps" by (metis card_length length_map)
  finally show ?thesis .
qed

lemma matchesSchema_JArr:
  "matchesSchema (JArr xs) s \<Longrightarrow> has_type s ''array'' \<and>
     num_le_opt (nat_num (length xs)) (fld s ''maxItems'') \<and>
     (\<forall>x \<in> set xs. matchesSchema x (items_of s))"
  by (subst (asm) matchesSchema.simps) (auto simp: list_all_iff split: if_splits)

lemma matchesSchema_JObj:
  "matchesSchema (JObj kvs) s \<Longrightarrow> has_type s ''object'' \<and>
     list_all (own_key (JObj kvs)) (required_of s) \<and>
     (\<forall>kv \<in> set kvs. \<exists>c. fld (properties_of s) (fst kv) = Some c \<and> matchesSchema (snd kv) c)"
  by (subst (asm) matchesSchema.simps) (auto simp: list_all_iff split: if_splits option.splits)

lemma matchesSchema_JNum: "matchesSchema (JNum n) s \<Longrightarrow> is_finite n"
  by (subst (asm) matchesSchema.simps) (auto split: if_splits)

lemma matches_visit:
  "isSchema d s \<Longrightarrow> matchesSchema v s \<Longrightarrow> unique_keys v \<Longrightarrow> visit d v = Inr ()"
proof (induction v s arbitrary: d rule: matchesSchema.induct)
  case (1 v s)
  have d: "d \<le> 8" using 1(3) by (subst (asm) isSchema.simps) simp
  show ?case
  proof (cases v)
    case (JArr xs)
    have t: "has_type s ''array''" and len: "num_le_opt (nat_num (length xs)) (fld s ''maxItems'')"
      and el: "\<forall>x \<in> set xs. matchesSchema x (items_of s)"
      using 1(4) JArr by (auto dest: matchesSchema_JArr)
    have "\<not> has_type s ''null''" "\<not> has_type s ''boolean''" "\<not> has_type s ''string''"
      "\<not> (has_type s ''number'' \<or> has_type s ''integer'')"
      using t by (auto simp: has_type_def)
    note IH = 1(1) [OF this t JArr]
    have "visit (Suc d) x = Inr ()" if "x \<in> set xs" for x
      using IH [OF that] isSchema_array [OF 1(3) t] el that 1(5) JArr by auto
    then show ?thesis
      using d JArr bounded_len [OF _ len] isSchema_array [OF 1(3) t]
      by (subst visit.simps) (auto intro: visit_all_ok)
  next
    case (JObj kvs)
    have t: "has_type s ''object''"
      and el: "\<forall>kv \<in> set kvs. \<exists>c. fld (properties_of s) (fst kv) = Some c \<and> matchesSchema (snd kv) c"
      using 1(4) JObj by (auto dest!: matchesSchema_JObj)
    have nt: "\<not> has_type s ''null''" "\<not> has_type s ''boolean''" "\<not> has_type s ''string''"
      "\<not> (has_type s ''number'' \<or> has_type s ''integer'')" "\<not> has_type s ''array''"
      using t by (auto simp: has_type_def)
    note IH = 1(2) [OF nt t JObj]
    obtain ps where ps: "properties_of s = JObj ps" "length ps \<le> 50"
      "\<forall>(k, c) \<in> set ps. k \<noteq> [] \<and> length k \<le> 80 \<and> isSchema (Suc d) c"
      using isSchema_object [OF 1(3) t] by blast
    have sub: "set (map fst kvs) \<subseteq> set (map fst ps)"
      using el ps(1) by (force dest: map_of_SomeD)
    have len: "length kvs \<le> 1000"
      using distinct_keys_length [OF _ sub] 1(5) JObj ps(2) by simp
    have "k \<noteq> [] \<and> length k \<le> 256 \<and> visit (Suc d) x = Inr ()" if kv: "(k, x) \<in> set kvs" for k x
    proof -
      obtain c where c: "map_of ps k = Some c" "matchesSchema x c"
        using el kv ps(1) by force
      then have "k \<noteq> [] \<and> length k \<le> 80 \<and> isSchema (Suc d) c"
        using ps(3) by (blast dest: map_of_SomeD)
      then show ?thesis
        using IH [OF kv] c ps(1) kv 1(5) JObj by force
    qed
    then show ?thesis
      using d JObj len by (subst visit.simps) (auto intro: visit_entries_ok)
  qed (use 1(4) d in \<open>auto simp: visit.simps dest: matchesSchema_JNum\<close>)
qed

text \<open>
  C25. For a schema the protocol accepts, a value is accepted exactly when it matches the schema
  and its canonical text fits the byte limit: a matching value can never fail the structural
  limits (nesting, array and object length, key length, finite numbers), whatever it holds.
\<close>

theorem schema_value_accepted_iff:
  assumes "isSchema 0 s" "unique_keys v"
  shows "validateSchemaValue v s limit = Inr () \<longleftrightarrow>
    matchesSchema v s \<and> utf8_length (canonicalJson v) \<le> limit"
  using assms matches_visit [of 0 s v]
  by (cases "visit 0 v") (auto simp: validateSchemaValue_def assertJson_def bindR_eq_Inr)

definition sample_schema :: json where
  "sample_schema = JObj [(''type'', JStr ''object''), (''additionalProperties'', JBool False),
     (''properties'', JObj [(''amount'', JObj [(''type'', JStr ''integer''),
        (''minimum'', JNum (Dec 1 0))])]),
     (''required'', JArr [JStr ''amount''])]"

lemma schema_value_accepted_iff_witness:
  "validateSchemaValue (JObj [(''amount'', JNum (Dec 5 0))]) sample_schema 100 = Inr () \<and>
   validateSchemaValue (JObj [(''amount'', JNum (Dec 5 (- 1)))]) sample_schema 100 \<noteq> Inr ()"
proof -
  have s: "isSchema 0 sample_schema"
    and u: "unique_keys (JObj [(''amount'', JNum n)])" for n
    by code_simp simp
  have "matchesSchema (JObj [(''amount'', JNum (Dec 5 0))]) sample_schema \<and>
      utf8_length (canonicalJson (JObj [(''amount'', JNum (Dec 5 0))])) \<le> 100 \<and>
      \<not> matchesSchema (JObj [(''amount'', JNum (Dec 5 (- 1)))]) sample_schema"
    by code_simp
  then show ?thesis
    by (simp only: schema_value_accepted_iff [OF s u] simp_thms)
qed

text \<open>
  A canonical hash binds its value: two values with the same \<open>canonicalJsonHash\<close> are the
  same up to the order of object entries, or their two canonical texts are a collision of the
  hash function.
\<close>

theorem canonical_hash_binds:
  assumes "canonicalJsonHash x v = Inr h" "canonicalJsonHash x w = Inr h"
    and "wf_json rd v" "wf_json rd w"
  shows "sort_keys v = sort_keys w \<or>
    (canonicalJson v \<noteq> canonicalJson w \<and>
     text_hash x (canonicalJson v) = text_hash x (canonicalJson w))"
  using assms canonicalJson_inj [of rd v w]
  by (auto simp: canonicalJsonHash_def bindR_eq_Inr)

lemma canonicalJsonHash_small:
  "visit 0 v = Inr () \<Longrightarrow> utf8_length (canonicalJson v) \<le> 100 \<Longrightarrow>
     canonicalJsonHash x v = Inr (text_hash x (canonicalJson v))"
  by (simp add: canonicalJsonHash_def assertJson_def)

definition plain_ext :: ext where
  "plain_ext = \<lparr>keccak256 = (\<lambda>s. s), toHex = (\<lambda>s. s), isAddress = (\<lambda>_. True),
     encode_terms = (\<lambda>_. None), new_URL = (\<lambda>_. None), z_url = Some,
     decode_market = (\<lambda>_. None), decode_ledger = (\<lambda>_. None)\<rparr>"

lemma canonical_hash_binds_witness:
  "sort_keys (JObj [(''b'', JNull), (''a'', JBool True)]) =
     sort_keys (JObj [(''a'', JBool True), (''b'', JNull)])"
proof -
  let ?v = "JObj [(''b'', JNull), (''a'', JBool True)]" and ?w = "JObj [(''a'', JBool True), (''b'', JNull)]"
  have t: "text_hash plain_ext s = s" for s by (simp add: plain_ext_def text_hash_def)
  have "visit 0 ?v = Inr () \<and> visit 0 ?w = Inr () \<and> utf8_length (canonicalJson ?v) \<le> 100 \<and>
      utf8_length (canonicalJson ?w) \<le> 100 \<and> canonicalJson ?v = canonicalJson ?w"
    by code_simp
  then have h: "canonicalJsonHash plain_ext ?v = Inr (canonicalJson ?v)"
      "canonicalJsonHash plain_ext ?w = Inr (canonicalJson ?v)"
    by (simp_all only: canonicalJsonHash_small t)
  have w: "wf_json (\<lambda>n. n) ?v" "wf_json (\<lambda>n. n) ?w" by simp_all
  from canonical_hash_binds [OF h w] t show ?thesis by metis
qed

end
