(* ===== verification/ServiceTerms.thy ===== *)
theory ServiceTerms
  imports ServiceContract
begin

text \<open>
  The second half of \<open>src/src/lib/economy/service-contract.ts\<close>: immutable service
  definitions with their hash, paid service requests, and the check that a settlement receipt
  carries the two events of exactly this order.
\<close>

section \<open>Service definitions\<close>

record service_terms =
  st_settlement :: string
  st_ledger :: string
  st_seller :: string
  st_endpoint :: string
  st_category :: ResourceCategory
  st_unit :: string
  st_quantity :: string
  st_unitPrice :: string
  st_input :: json
  st_output :: json

record service_definition = service_terms +
  sd_hash :: string

definition arc_chain :: int where
  "arc_chain = 5042002"

definition SERVICE_PROTOCOL :: string where
  "SERVICE_PROTOCOL = ''obolos.service.v1''"

text \<open>The field schemas \<open>hex32\<close>, \<open>address\<close> and \<open>positiveInteger\<close>; the first two
  lower-case what they accept.\<close>

definition p_hex32 :: "json \<Rightarrow> string option" where
  "p_hex32 v = map_option to_lower (check (hex_n 64) (as_str v))"

definition p_address :: "ext \<Rightarrow> json \<Rightarrow> string option" where
  "p_address x v = map_option to_lower (check (isAddress x) (as_str v))"

definition p_positive :: "json \<Rightarrow> string option" where
  "p_positive v = check pos_numeral (as_str v)"

definition p_category :: "json \<Rightarrow> ResourceCategory option" where
  "p_category v = Option.bind (as_str v) category_of"

definition p_schema :: "json \<Rightarrow> json option" where
  "p_schema v = (if isSchema 0 v then Some v else None)"

definition p_chain :: "json \<Rightarrow> unit option" where
  "p_chain v = (if as_int v = Some arc_chain then Some () else None)"

definition termKeys :: "string list" where
  "termKeys = [''chainId'', ''settlementAddress'', ''ledgerAddress'', ''seller'', ''endpoint'',
     ''category'', ''unit'', ''quantity'', ''unitPriceAtomic'', ''inputSchema'', ''outputSchema'']"

definition parse_terms :: "ext \<Rightarrow> json \<Rightarrow> service_terms option" where
  "parse_terms x v =
     Option.bind (field v ''chainId'' p_chain) (\<lambda>_.
     Option.bind (field v ''settlementAddress'' (p_address x)) (\<lambda>sa.
     Option.bind (field v ''ledgerAddress'' (p_address x)) (\<lambda>la.
     Option.bind (field v ''seller'' (p_address x)) (\<lambda>se.
     Option.bind (field v ''endpoint'' (\<lambda>e. Option.bind (as_str e) (z_url x))) (\<lambda>en.
     Option.bind (field v ''category'' p_category) (\<lambda>ca.
     Option.bind (field v ''unit'' (\<lambda>u. check (\<lambda>s. 1 \<le> length s \<and> length s \<le> 80) (as_str u))) (\<lambda>un.
     Option.bind (field v ''quantity'' p_positive) (\<lambda>qu.
     Option.bind (field v ''unitPriceAtomic'' p_positive) (\<lambda>pr.
     Option.bind (field v ''inputSchema'' p_schema) (\<lambda>is.
     Option.bind (field v ''outputSchema'' p_schema) (\<lambda>os.
       Some \<lparr>st_settlement = sa, st_ledger = la, st_seller = se, st_endpoint = en,
         st_category = ca, st_unit = un, st_quantity = qu, st_unitPrice = pr,
         st_input = is, st_output = os\<rparr>)))))))))))"

definition with_hash :: "service_terms \<Rightarrow> string \<Rightarrow> service_definition" where
  "with_hash t h = service_terms.extend t \<lparr>sd_hash = h\<rparr>"

definition terms_of :: "service_definition \<Rightarrow> service_terms" where
  "terms_of d = service_terms.truncate d"

text \<open>\<open>serviceDefinitionSchema.parse\<close>.\<close>

definition parse_definition :: "ext \<Rightarrow> json \<Rightarrow> service_definition option" where
  "parse_definition x v =
     (if \<not> strict (termKeys @ [''protocol'', ''serviceHash'']) v then None
      else if fstr v ''protocol'' \<noteq> Some SERVICE_PROTOCOL then None
      else Option.bind (parse_terms x v) (\<lambda>t.
           Option.bind (field v ''serviceHash'' p_hex32) (\<lambda>h. Some (with_hash t h))))"

definition terms_json :: "service_terms \<Rightarrow> (string \<times> json) list" where
  "terms_json t =
     [(''chainId'', JNum (num_of_int arc_chain)),
      (''settlementAddress'', JStr (st_settlement t)),
      (''ledgerAddress'', JStr (st_ledger t)),
      (''seller'', JStr (st_seller t)),
      (''endpoint'', JStr (st_endpoint t)),
      (''category'', JStr (category_str (st_category t))),
      (''unit'', JStr (st_unit t)),
      (''quantity'', JStr (st_quantity t)),
      (''unitPriceAtomic'', JStr (st_unitPrice t)),
      (''inputSchema'', st_input t),
      (''outputSchema'', st_output t)]"

definition definition_json :: "service_definition \<Rightarrow> json" where
  "definition_json d = JObj (terms_json (terms_of d) @
     [(''protocol'', JStr SERVICE_PROTOCOL), (''serviceHash'', JStr (sd_hash d))])"

text \<open>\<open>createServiceDefinition\<close> on parsed terms: the unit belongs to the category, the
  endpoint is canonical, and the hash binds the terms the settlement contract knows.\<close>

definition hashed_terms ::
    "ext \<Rightarrow> service_terms \<Rightarrow> int \<times> string \<times> string \<times> int \<times> string \<times> int \<times> int \<times> string" where
  "hashed_terms x t = (arc_chain, st_settlement t, st_seller t, category_index (st_category t),
     text_hash x (st_unit t), dec_int (st_quantity t), dec_int (st_unitPrice t),
     text_hash x (st_endpoint t))"

definition service_hash :: "ext \<Rightarrow> service_terms \<Rightarrow> string res" where
  "service_hash x t =
     of_opt (Thrown ''encodeAbiParameters'')
       (map_option (keccak256 x) (encode_terms x (hashed_terms x t)))"

definition create_definition :: "ext \<Rightarrow> service_terms \<Rightarrow> service_definition res" where
  "create_definition x t =
     (if st_unit t \<notin> set (normalizedUnits (st_category t))
      then Inl (Err ''Unit does not match service category'')
      else bindR (of_opt (Thrown ''URL'') (new_URL x (st_endpoint t))) (\<lambda>u.
        if href u \<noteq> st_endpoint t then Inl (Err ''Endpoint must be canonical'')
        else bindR (service_hash x t) (\<lambda>h.
             of_opt Zod (parse_definition x (definition_json (with_hash t h))))))"

definition createServiceDefinition :: "ext \<Rightarrow> json \<Rightarrow> service_definition res" where
  "createServiceDefinition x v =
     bindR (of_opt Zod (if strict termKeys v then parse_terms x v else None)) (create_definition x)"

definition validateServiceDefinition :: "ext \<Rightarrow> json \<Rightarrow> service_definition res" where
  "validateServiceDefinition x v =
     bindR (of_opt Zod (parse_definition x v)) (\<lambda>d.
     bindR (createServiceDefinition x (JObj (terms_json (terms_of d)))) (\<lambda>c.
       if sd_hash c \<noteq> sd_hash d
       then Inl (Err ''Service hash does not match immutable service terms'')
       else Inr d))"

section \<open>Paid requests\<close>

record service_request =
  rq_orderId :: string
  rq_agentId :: string
  rq_payer :: string
  rq_serviceHash :: string
  rq_inputHash :: string
  rq_category :: ResourceCategory
  rq_unit :: string
  rq_quantity :: string
  rq_unitPrice :: string
  rq_amount :: string
  rq_settlement :: string
  rq_ledger :: string
  rq_transaction :: string
  rq_input :: "json option"

definition requestKeys :: "string list" where
  "requestKeys = [''protocol'', ''orderId'', ''agentId'', ''payer'', ''serviceHash'', ''inputHash'',
     ''category'', ''unit'', ''quantity'', ''unitPriceAtomic'', ''amountAtomic'', ''settlement'',
     ''input'']"

definition parse_settlement :: "ext \<Rightarrow> json \<Rightarrow> (string \<times> string \<times> string) option" where
  "parse_settlement x v =
     (if \<not> strict [''chainId'', ''address'', ''ledgerAddress'', ''transactionHash''] v then None
      else Option.bind (field v ''chainId'' p_chain) (\<lambda>_.
           Option.bind (field v ''address'' (p_address x)) (\<lambda>a.
           Option.bind (field v ''ledgerAddress'' (p_address x)) (\<lambda>l.
           Option.bind (field v ''transactionHash'' p_hex32) (\<lambda>t. Some (a, l, t))))))"

definition parse_request :: "ext \<Rightarrow> json \<Rightarrow> service_request option" where
  "parse_request x v =
     (if \<not> strict requestKeys v \<or> fstr v ''protocol'' \<noteq> Some SERVICE_PROTOCOL then None
      else
     Option.bind (field v ''orderId'' p_hex32) (\<lambda>oi.
     Option.bind (field v ''agentId'' p_hex32) (\<lambda>ai.
     Option.bind (field v ''payer'' (p_address x)) (\<lambda>pa.
     Option.bind (field v ''serviceHash'' p_hex32) (\<lambda>sh.
     Option.bind (field v ''inputHash'' p_hex32) (\<lambda>ih.
     Option.bind (field v ''category'' p_category) (\<lambda>ca.
     Option.bind (field v ''unit'' as_str) (\<lambda>un.
     Option.bind (field v ''quantity'' p_positive) (\<lambda>qu.
     Option.bind (field v ''unitPriceAtomic'' p_positive) (\<lambda>pr.
     Option.bind (field v ''amountAtomic'' p_positive) (\<lambda>am.
     Option.bind (field v ''settlement'' (parse_settlement x)) (\<lambda>(se, le, tr).
       Some \<lparr>rq_orderId = oi, rq_agentId = ai, rq_payer = pa, rq_serviceHash = sh,
         rq_inputHash = ih, rq_category = ca, rq_unit = un, rq_quantity = qu,
         rq_unitPrice = pr, rq_amount = am, rq_settlement = se, rq_ledger = le,
         rq_transaction = tr,
         rq_input = fld v ''input''\<rparr>))))))))))))"

definition request_json :: "service_request \<Rightarrow> json" where
  "request_json r = JObj (
     [(''protocol'', JStr SERVICE_PROTOCOL),
      (''orderId'', JStr (rq_orderId r)), (''agentId'', JStr (rq_agentId r)),
      (''payer'', JStr (rq_payer r)), (''serviceHash'', JStr (rq_serviceHash r)),
      (''inputHash'', JStr (rq_inputHash r)),
      (''category'', JStr (category_str (rq_category r))), (''unit'', JStr (rq_unit r)),
      (''quantity'', JStr (rq_quantity r)), (''unitPriceAtomic'', JStr (rq_unitPrice r)),
      (''amountAtomic'', JStr (rq_amount r)),
      (''settlement'', JObj [(''chainId'', JNum (num_of_int arc_chain)),
         (''address'', JStr (rq_settlement r)), (''ledgerAddress'', JStr (rq_ledger r)),
         (''transactionHash'', JStr (rq_transaction r))])] @
     (case rq_input r of None \<Rightarrow> [] | Some i \<Rightarrow> [(''input'', i)]))"

text \<open>\<open>canonicalJsonHash\<close> of a property that may be missing: \<open>undefined\<close> is no JSON.\<close>

definition hash_opt :: "ext \<Rightarrow> json option \<Rightarrow> string res" where
  "hash_opt x v = bindR (of_opt (Err ''Value is not JSON'') v) (canonicalJsonHash x)"

definition validateServiceRequest ::
    "ext \<Rightarrow> service_definition \<Rightarrow> json \<Rightarrow> service_request res" where
  "validateServiceRequest x s v =
     bindR (of_opt Zod (parse_request x v)) (\<lambda>r.
     bindR (if rq_serviceHash r \<noteq> sd_hash s \<or> rq_category r \<noteq> st_category s \<or>
               rq_unit r \<noteq> st_unit s \<or> rq_quantity r \<noteq> st_quantity s \<or>
               rq_unitPrice r \<noteq> st_unitPrice s \<or>
               dec_int (rq_amount r) \<noteq> dec_int (rq_quantity r) * dec_int (rq_unitPrice r) \<or>
               rq_settlement r \<noteq> st_settlement s \<or> rq_ledger r \<noteq> st_ledger s
            then Inl (Err ''Service request does not match immutable order terms'')
            else bindR (hash_opt x (rq_input r)) (\<lambda>h.
              need (rq_inputHash r = h)
                (Err ''Service request does not match immutable order terms''))) (\<lambda>_.
     bindR (of_opt (Err ''Value is not JSON'') (rq_input r)) (\<lambda>i.
     bindR (validateSchemaValue i (st_input s) (64 * 1024)) (\<lambda>_. Inr r))))"

section \<open>Settlement receipts\<close>

record service_receipt =
  rc_chainId :: int
  rc_success :: bool
  rc_transaction :: string
  rc_logs :: "log_entry list"

definition settled_match :: "service_request \<Rightarrow> chain_event \<Rightarrow> bool" where
  "settled_match r e = (case e of
     OrderSettled oid payer amount \<Rightarrow>
       oid = rq_orderId r \<and> to_lower payer = rq_payer r \<and> amount = dec_int (rq_amount r)
   | _ \<Rightarrow> False)"

definition paid_match :: "ext \<Rightarrow> service_definition \<Rightarrow> service_request \<Rightarrow> chain_event \<Rightarrow> bool" where
  "paid_match x s r e = (case e of
     OrderPaid oid agent seller sh cat uh q p amount ih \<Rightarrow>
       oid = rq_orderId r \<and> agent = rq_agentId r \<and> to_lower seller = st_seller s \<and>
       sh = sd_hash s \<and> cat = category_index (st_category s) \<and> uh = text_hash x (st_unit s) \<and>
       q = dec_int (rq_quantity r) \<and> p = dec_int (rq_unitPrice r) \<and>
       amount = dec_int (rq_amount r) \<and> ih = rq_inputHash r
   | _ \<Rightarrow> False)"

text \<open>One iteration of the loop over the logs. A log that does not decode leaves the loop body
  (the \<open>catch\<close>), so the ledger check is skipped when the market decoder throws.\<close>

definition scan_log ::
    "ext \<Rightarrow> service_definition \<Rightarrow> service_request \<Rightarrow> log_entry \<Rightarrow> bool \<times> bool \<Rightarrow> bool \<times> bool" where
  "scan_log x s r l st =
     (let (settled, paid) = st;
          m = (if to_lower (log_address l) = st_settlement s
               then map_option Some (decode_market x l) else Some None)
      in case m of
           None \<Rightarrow> st
         | Some e \<Rightarrow>
            (let settled' = settled \<or> (case e of Some ev \<Rightarrow> settled_match r ev | None \<Rightarrow> False)
             in if to_lower (log_address l) = st_ledger s then
                  (case decode_ledger x l of
                     None \<Rightarrow> (settled', paid)
                   | Some ev \<Rightarrow> (settled', paid \<or> paid_match x s r ev))
                else (settled', paid)))"

record settlement_proof =
  sp_orderId :: string
  sp_transaction :: string
  sp_serviceHash :: string
  sp_inputHash :: string

definition verifyServiceSettlement ::
    "ext \<Rightarrow> service_definition \<Rightarrow> service_request \<Rightarrow> service_receipt \<Rightarrow> settlement_proof res" where
  "verifyServiceSettlement x s r c =
     (if rc_chainId c \<noteq> arc_chain \<or> \<not> rc_success c \<or> to_lower (rc_transaction c) \<noteq> rq_transaction r
      then Inl (Err ''Settlement receipt is not confirmed on Arc testnet'')
      else (let (settled, paid) = fold (scan_log x s r) (rc_logs c) (False, False)
        in if \<not> settled \<or> \<not> paid
           then Inl (Err ''Receipt does not contain matching OrderSettled and OrderPaid events'')
           else Inr \<lparr>sp_orderId = rq_orderId r, sp_transaction = rc_transaction c,
                  sp_serviceHash = sd_hash s, sp_inputHash = rq_inputHash r\<rparr>))"

section \<open>Properties\<close>

lemma scan_log_cases:
  "scan_log x s r l (a, b) =
     (a \<or> (to_lower (log_address l) = st_settlement s \<and>
           (\<exists>e. decode_market x l = Some e \<and> settled_match r e)),
      b \<or> (to_lower (log_address l) = st_ledger s \<and>
           (to_lower (log_address l) = st_settlement s \<longrightarrow> decode_market x l \<noteq> None) \<and>
           (\<exists>e. decode_ledger x l = Some e \<and> paid_match x s r e)))"
  by (auto simp: scan_log_def Let_def split: option.splits)

lemma fold_scan_log:
  "fold (scan_log x s r) ls (a, b) =
     (a \<or> (\<exists>l \<in> set ls. to_lower (log_address l) = st_settlement s \<and>
           (\<exists>e. decode_market x l = Some e \<and> settled_match r e)),
      b \<or> (\<exists>l \<in> set ls. to_lower (log_address l) = st_ledger s \<and>
           (to_lower (log_address l) = st_settlement s \<longrightarrow> decode_market x l \<noteq> None) \<and>
           (\<exists>e. decode_ledger x l = Some e \<and> paid_match x s r e)))"
  by (induction ls arbitrary: a b) (auto simp: scan_log_cases)

lemma map_of_terms_json [simp]:
  "map_of (terms_json t) ''chainId'' = Some (JNum (num_of_int arc_chain))"
  "map_of (terms_json t) ''settlementAddress'' = Some (JStr (st_settlement t))"
  "map_of (terms_json t) ''ledgerAddress'' = Some (JStr (st_ledger t))"
  "map_of (terms_json t) ''seller'' = Some (JStr (st_seller t))"
  "map_of (terms_json t) ''endpoint'' = Some (JStr (st_endpoint t))"
  "map_of (terms_json t) ''category'' = Some (JStr (category_str (st_category t)))"
  "map_of (terms_json t) ''unit'' = Some (JStr (st_unit t))"
  "map_of (terms_json t) ''quantity'' = Some (JStr (st_quantity t))"
  "map_of (terms_json t) ''unitPriceAtomic'' = Some (JStr (st_unitPrice t))"
  "map_of (terms_json t) ''inputSchema'' = Some (st_input t)"
  "map_of (terms_json t) ''outputSchema'' = Some (st_output t)"
  by (simp_all add: terms_json_def)

lemma fld_definition_json [simp]:
  "fld (definition_json d) ''protocol'' = Some (JStr SERVICE_PROTOCOL)"
  "fld (definition_json d) ''serviceHash'' = Some (JStr (sd_hash d))"
  "k \<noteq> ''protocol'' \<Longrightarrow> k \<noteq> ''serviceHash'' \<Longrightarrow>
     fld (definition_json d) k = fld (JObj (terms_json (terms_of d))) k"
  by (auto simp: definition_json_def terms_json_def map_add_def split: option.splits)

lemma category_of_str [simp]: "category_of (category_str c) = Some c"
  by (cases c) (simp_all add: category_of_def resourceCategories_def)

lemma as_int_num_of_int: "safe_int i \<Longrightarrow> as_int (JNum (num_of_int i)) = Some i"
  by (simp add: as_int_def is_safe_integer_def)

lemma p_chain_arc [simp]: "p_chain (JNum (num_of_int arc_chain)) = Some ()"
  by (simp add: p_chain_def as_int_num_of_int safe_int_def max_safe_def arc_chain_def)

text \<open>Terms that the schema parses to themselves.\<close>

definition wf_terms :: "ext \<Rightarrow> service_terms \<Rightarrow> bool" where
  "wf_terms x t \<longleftrightarrow>
     p_address x (JStr (st_settlement t)) = Some (st_settlement t) \<and>
     p_address x (JStr (st_ledger t)) = Some (st_ledger t) \<and>
     p_address x (JStr (st_seller t)) = Some (st_seller t) \<and>
     z_url x (st_endpoint t) = Some (st_endpoint t) \<and>
     1 \<le> length (st_unit t) \<and> length (st_unit t) \<le> 80 \<and>
     pos_numeral (st_quantity t) \<and> pos_numeral (st_unitPrice t) \<and>
     isSchema 0 (st_input t) \<and> isSchema 0 (st_output t)"

lemma parse_terms_fld_cong: "(\<And>k. k \<in> set termKeys \<Longrightarrow> fld v k = fld w k) \<Longrightarrow> parse_terms x v = parse_terms x w"
  by (simp add: parse_terms_def field_def termKeys_def)

lemma parse_terms_json: "wf_terms x t \<Longrightarrow> parse_terms x (JObj (terms_json t)) = Some t"
  by (simp add: parse_terms_def field_def wf_terms_def p_category_def p_positive_def p_schema_def
      check_def)

lemma strict_terms_json [simp]: "strict termKeys (JObj (terms_json t))"
  by (simp add: strict_def keys_def terms_json_def termKeys_def)

lemma strict_definition_json [simp]: "strict (termKeys @ [''protocol'', ''serviceHash'']) (definition_json d)"
  by (simp add: strict_def keys_def definition_json_def terms_json_def termKeys_def)

lemma parse_terms_definition_json:
  "parse_terms x (definition_json d) = parse_terms x (JObj (terms_json (terms_of d)))"
  by (rule parse_terms_fld_cong) (auto simp: termKeys_def)

text \<open>
  What the code relies on: an address is still one in lower case, and a parsed URL parses to
  itself.
\<close>

definition lower_stable :: "ext \<Rightarrow> bool" where
  "lower_stable x \<longleftrightarrow> (\<forall>a. isAddress x a \<longrightarrow> isAddress x (to_lower a)) \<and>
     (\<forall>e u. z_url x e = Some u \<longrightarrow> z_url x u = Some u)"

lemma parse_terms_wf:
  assumes "lower_stable x" "parse_terms x v = Some t"
  shows "wf_terms x t"
proof -
  have a: "p_address x c = Some s \<Longrightarrow> p_address x (JStr s) = Some s" for c s
    using assms(1) by (auto simp: p_address_def lower_stable_def)
  show ?thesis
    using assms by (auto simp: parse_terms_def bind_eq_Some_conv wf_terms_def p_positive_def
        p_schema_def lower_stable_def dest: a split: if_splits)
qed

lemma hex_lower: "hex_n n s \<Longrightarrow> hex_n n (to_lower s)"
proof -
  have "is_hex c \<Longrightarrow> is_hex (lower_char c)" for c
    by (auto simp: is_hex_def is_lower_hex_def is_digit_def lower_char_def char_between_def)
  moreover assume "hex_n n s"
  moreover have "lower_char (CHR ''0'') = CHR ''0''" "lower_char (CHR ''x'') = CHR ''x''" by code_simp+
  ultimately show ?thesis
    by (auto simp: hex_n_def to_lower_def take_map drop_map list_all_iff)
qed

lemma p_hex32_idem: "p_hex32 c = Some s \<Longrightarrow> p_hex32 (JStr s) = Some s"
  by (auto simp: p_hex32_def dest: hex_lower)

lemma terms_of_with_hash [simp]: "terms_of (with_hash t h) = t" "sd_hash (with_hash t h) = h"
  by (simp_all add: terms_of_def with_hash_def service_terms.defs)

lemma with_hash_terms_of [simp]: "with_hash (terms_of d) (sd_hash d) = d"
  by (simp add: terms_of_def with_hash_def service_terms.defs)

lemma parse_definition_json:
  "wf_terms x t \<Longrightarrow> parse_definition x (definition_json (with_hash t h)) =
     map_option (with_hash t) (p_hex32 (JStr h))"
  by (simp add: parse_definition_def fstr_def parse_terms_definition_json
      parse_terms_json field_def split: option.split)
    (simp add: map_option_case split: option.split)

lemma create_definition_iff:
  assumes "wf_terms x t"
  shows "create_definition x t = Inr d \<longleftrightarrow>
    st_unit t \<in> set (normalizedUnits (st_category t)) \<and>
    (\<exists>u. new_URL x (st_endpoint t) = Some u \<and> href u = st_endpoint t) \<and>
    (\<exists>h. service_hash x t = Inr h \<and> hex_n 64 h \<and> d = with_hash t (to_lower h))"
  using assms
  by (auto simp: create_definition_def bindR_eq_Inr parse_definition_json p_hex32_def)

lemma definition_accepted_iff:
  assumes "lower_stable x" "parse_definition x v = Some d"
  shows "validateServiceDefinition x v = Inr d \<longleftrightarrow>
    st_unit d \<in> set (normalizedUnits (st_category d)) \<and>
    (\<exists>u. new_URL x (st_endpoint d) = Some u \<and> href u = st_endpoint d) \<and>
    (\<exists>h. service_hash x (terms_of d) = Inr h \<and> hex_n 64 h \<and> sd_hash d = to_lower h)"
proof -
  have wf: "wf_terms x (terms_of d)"
    using assms by (auto simp: parse_definition_def bind_eq_Some_conv dest: parse_terms_wf split: if_splits)
  have f: "st_unit (terms_of d) = st_unit d" "st_category (terms_of d) = st_category d"
    "st_endpoint (terms_of d) = st_endpoint d"
    by (simp_all add: terms_of_def service_terms.defs)
  show ?thesis
    using wf assms(2)
    by (auto simp: validateServiceDefinition_def createServiceDefinition_def bindR_eq_Inr
        parse_terms_json create_definition_iff f
        intro!: exI [of _ "with_hash (terms_of d) (sd_hash d)"] simp del: with_hash_terms_of)
qed

lemma validated_hash:
  assumes "lower_stable x" "validateServiceDefinition x v = Inr d"
  shows "\<exists>h. service_hash x (terms_of d) = Inr h \<and> sd_hash d = to_lower h"
proof -
  have "parse_definition x v = Some d"
    using assms(2) by (auto simp: validateServiceDefinition_def bindR_eq_Inr split: if_splits)
  with assms definition_accepted_iff [of x v d] show ?thesis by blast
qed

text \<open>
  C23. A settlement is accepted exactly when the receipt is a success on Arc testnet for the
  transaction the request names, one log of the settlement contract is the \<open>OrderSettled\<close> of
  this order, payer and amount, and one log of the ledger contract is the \<open>OrderPaid\<close> of
  this order, agent, seller, service terms and input. (The two contracts are distinct.)
\<close>

theorem settlement_accepted_iff:
  assumes "st_settlement s \<noteq> st_ledger s"
  shows "(\<exists>p. verifyServiceSettlement x s r c = Inr p) \<longleftrightarrow>
    rc_chainId c = 5042002 \<and> rc_success c \<and> to_lower (rc_transaction c) = rq_transaction r \<and>
    (\<exists>l \<in> set (rc_logs c). to_lower (log_address l) = st_settlement s \<and>
      (\<exists>payer. decode_market x l =
         Some (OrderSettled (rq_orderId r) payer (dec_int (rq_amount r))) \<and>
         to_lower payer = rq_payer r)) \<and>
    (\<exists>l \<in> set (rc_logs c). to_lower (log_address l) = st_ledger s \<and>
      (\<exists>seller. decode_ledger x l =
         Some (OrderPaid (rq_orderId r) (rq_agentId r) seller (sd_hash s)
           (category_index (st_category s)) (text_hash x (st_unit s)) (dec_int (rq_quantity r))
           (dec_int (rq_unitPrice r)) (dec_int (rq_amount r)) (rq_inputHash r)) \<and>
         to_lower seller = st_seller s))"
proof -
  have m: "settled_match r e \<longleftrightarrow>
      (\<exists>payer. e = OrderSettled (rq_orderId r) payer (dec_int (rq_amount r)) \<and> to_lower payer = rq_payer r)" for e
    by (cases e) (auto simp: settled_match_def)
  have p: "paid_match x s r e \<longleftrightarrow>
      (\<exists>seller. e = OrderPaid (rq_orderId r) (rq_agentId r) seller (sd_hash s)
         (category_index (st_category s)) (text_hash x (st_unit s)) (dec_int (rq_quantity r))
         (dec_int (rq_unitPrice r)) (dec_int (rq_amount r)) (rq_inputHash r) \<and>
       to_lower seller = st_seller s)" for e
    by (cases e) (auto simp: paid_match_def)
  show ?thesis
    unfolding verifyServiceSettlement_def fold_scan_log
    using assms by (auto simp: m p arc_chain_def)
qed

text \<open>
  An accepted paid request names the immutable terms of the service it was sent to, its
  amount is quantity times unit price and positive, and its input is present, bound by the
  input hash, matches the input schema and fits 64 KiB.
\<close>

theorem request_accepted_binds:
  assumes "validateServiceRequest x s v = Inr r"
  shows "rq_serviceHash r = sd_hash s \<and> rq_category r = st_category s \<and> rq_unit r = st_unit s \<and>
    rq_settlement r = st_settlement s \<and> rq_ledger r = st_ledger s \<and>
    dec_int (rq_amount r) = dec_int (st_quantity s) * dec_int (st_unitPrice s) \<and>
    0 < dec_int (rq_amount r) \<and>
    (\<exists>i. rq_input r = Some i \<and> rq_inputHash r = text_hash x (canonicalJson i) \<and>
      matchesSchema i (st_input s) \<and> utf8_length (canonicalJson i) \<le> 65536)"
proof -
  have "parse_request x v = Some r"
    using assms by (auto simp: validateServiceRequest_def bindR_eq_Inr)
  then have "pos_numeral (rq_amount r)"
    by (auto simp: parse_request_def p_positive_def bind_eq_Some_conv split: if_splits)
  with assms pos_numeral_pos show ?thesis
    by (auto simp: validateServiceRequest_def hash_opt_def canonicalJsonHash_def
        validateSchemaValue_def assertJson_def bindR_eq_Inr split: if_splits)
qed

text \<open>
  C24. What \<open>createServiceDefinition\<close> produces is accepted unchanged by
  \<open>validateServiceDefinition\<close>.
\<close>

theorem definition_roundtrip:
  assumes "lower_stable x" "createServiceDefinition x v = Inr d"
  shows "validateServiceDefinition x (definition_json d) = Inr d"
proof -
  obtain t where t: "parse_terms x v = Some t" "create_definition x t = Inr d"
    using assms(2) by (auto simp: createServiceDefinition_def bindR_eq_Inr split: if_splits)
  have wf: "wf_terms x t" by (rule parse_terms_wf [OF assms(1) t(1)])
  obtain h where h: "service_hash x t = Inr h" "hex_n 64 h" "d = with_hash t (to_lower h)"
    using t(2) by (auto simp: create_definition_iff [OF wf])
  have "createServiceDefinition x (JObj (terms_json t)) = Inr d"
    using t(2) wf by (simp add: createServiceDefinition_def parse_terms_json)
  then show ?thesis
    using wf h by (simp add: validateServiceDefinition_def parse_definition_json p_hex32_def check_def hex_lower)
qed

text \<open>
  A service hash binds the terms the settlement contract knows: two accepted definitions
  with one hash agree on settlement, seller, category, unit, quantity, price and endpoint,
  when the hash has no collision among the texts involved and the ABI encoding is injective
  on the two tuples.
\<close>

theorem service_hash_binds:
  assumes d: "lower_stable x" "validateServiceDefinition x v = Inr d" "validateServiceDefinition x w = Inr d'"
    and eq: "sd_hash d = sd_hash d'"
    and enc: "inj_on (encode_terms x) {hashed_terms x (terms_of d), hashed_terms x (terms_of d')}"
    and kec: "inj_on (\<lambda>a. to_lower (keccak256 x a))
      (Option.these (encode_terms x ` {hashed_terms x (terms_of d), hashed_terms x (terms_of d')}) \<union>
       toHex x ` {st_unit d, st_unit d', st_endpoint d, st_endpoint d'})"
    and hex: "inj_on (toHex x) {st_unit d, st_unit d', st_endpoint d, st_endpoint d'}"
  shows "st_settlement d = st_settlement d' \<and> st_seller d = st_seller d' \<and>
    st_category d = st_category d' \<and> st_unit d = st_unit d' \<and>
    dec_int (st_quantity d) = dec_int (st_quantity d') \<and>
    dec_int (st_unitPrice d) = dec_int (st_unitPrice d') \<and> st_endpoint d = st_endpoint d'"
proof -
  have f: "st_settlement (terms_of e) = st_settlement e" "st_seller (terms_of e) = st_seller e"
    "st_unit (terms_of e) = st_unit e" "st_category (terms_of e) = st_category e"
    "st_quantity (terms_of e) = st_quantity e" "st_unitPrice (terms_of e) = st_unitPrice e"
    "st_endpoint (terms_of e) = st_endpoint e" for e
    by (simp_all add: terms_of_def service_terms.defs)
  obtain e where e1: "encode_terms x (hashed_terms x (terms_of d)) = Some e" "sd_hash d = to_lower (keccak256 x e)"
    using validated_hash [OF d(1,2)] by (auto simp: service_hash_def)
  obtain e' where e2: "encode_terms x (hashed_terms x (terms_of d')) = Some e'" "sd_hash d' = to_lower (keccak256 x e')"
    using validated_hash [OF d(1,3)] by (auto simp: service_hash_def)
  note e = e1(1) e2(1) eq [unfolded e1(2) e2(2)]
  have "e = e'"
    by (rule inj_onD [OF kec e(3)]) (simp_all add: in_these_eq e(1,2))
  then have h: "hashed_terms x (terms_of d) = hashed_terms x (terms_of d')"
    using e enc by (auto dest: inj_onD)
  have t: "text_hash x a = text_hash x b \<Longrightarrow> a = b"
    if "a \<in> {st_unit d, st_unit d', st_endpoint d, st_endpoint d'}"
       "b \<in> {st_unit d, st_unit d', st_endpoint d, st_endpoint d'}" for a b
    using that inj_onD [OF kec, of "toHex x a" "toHex x b"] inj_onD [OF hex, of a b]
    by (simp only: text_hash_def) blast
  have "category_index a = category_index b \<Longrightarrow> a = b" for a b
    by (cases a; cases b) simp_all
  with h show ?thesis
    by (simp only: hashed_terms_def prod.inject f) (blast intro: t)
qed

text \<open>
  Concrete boundary functions for the witnesses: an address is any string of 42 characters,
  the hash pads or cuts its argument to 64 hexadecimal digits, every URL is canonical.
\<close>

definition sample_address :: "nat \<Rightarrow> string" where
  "sample_address n = ''0x'' @ replicate 40 (hex_digit n)"

definition sample_hash :: "nat \<Rightarrow> string" where
  "sample_hash n = ''0x'' @ replicate 64 (hex_digit n)"

definition sample_url :: "string \<Rightarrow> url" where
  "sample_url s = \<lparr>href = s, protocol = ''https:'', origin = ''https://seller.example'',
     username = [], password = [], hostname = ''seller.example'', pathname = ''/'',
     search = [], hash_part = []\<rparr>"

definition sample_ext :: "(log_entry \<Rightarrow> chain_event option) \<Rightarrow> (log_entry \<Rightarrow> chain_event option) \<Rightarrow> ext" where
  "sample_ext m l = \<lparr>
     keccak256 = (\<lambda>s. ''0x'' @ take 64 (drop 2 s @ replicate 64 (CHR ''0''))),
     toHex = (\<lambda>s. ''0x'' @ concat (map (\<lambda>c. [hex_digit (code c div 16), hex_digit (code c mod 16)]) s)),
     isAddress = hex_n 40,
     encode_terms = (\<lambda>(c, se, sl, ca, uh, q, p, eh). Some (se @ drop 2 sl)),
     new_URL = (\<lambda>s. Some (sample_url s)),
     z_url = Some, decode_market = m, decode_ledger = l\<rparr>"

definition sample_service :: service_definition where
  "sample_service = \<lparr>st_settlement = sample_address 1, st_ledger = sample_address 2,
     st_seller = sample_address 3, st_endpoint = ''https://seller.example/'', st_category = Compute,
     st_unit = ''compute-unit'', st_quantity = ''2'', st_unitPrice = ''5'',
     st_input = JObj [(''type'', JStr ''null'')], st_output = JObj [(''type'', JStr ''null'')],
     sd_hash = sample_hash 9\<rparr>"

definition sample_request :: service_request where
  "sample_request = \<lparr>rq_orderId = sample_hash 4, rq_agentId = sample_hash 5,
     rq_payer = sample_address 6, rq_serviceHash = sample_hash 9, rq_inputHash = sample_hash 7,
     rq_category = Compute, rq_unit = ''compute-unit'', rq_quantity = ''2'', rq_unitPrice = ''5'',
     rq_amount = ''10'', rq_settlement = sample_address 1, rq_ledger = sample_address 2,
     rq_transaction = sample_hash 8, rq_input = Some JNull\<rparr>"

definition sample_market :: "log_entry \<Rightarrow> chain_event option" where
  "sample_market l = Some (OrderSettled (sample_hash 4) (sample_address 6) 10)"

definition sample_ledger :: "log_entry \<Rightarrow> chain_event option" where
  "sample_ledger l = Some (OrderPaid (sample_hash 4) (sample_hash 5) (sample_address 3) (sample_hash 9)
     1 (text_hash (sample_ext sample_market (\<lambda>_. None)) ''compute-unit'') 2 5 10 (sample_hash 7))"

definition sample_receipt :: service_receipt where
  "sample_receipt = \<lparr>rc_chainId = 5042002, rc_success = True, rc_transaction = sample_hash 8,
     rc_logs = [\<lparr>log_address = sample_address 1, log_data = [], log_topics = []\<rparr>,
                \<lparr>log_address = sample_address 2, log_data = [], log_topics = []\<rparr>]\<rparr>"

lemma sample_addresses_differ: "st_settlement sample_service \<noteq> st_ledger sample_service"
  by code_simp

lemma settlement_accepted_iff_witness:
  "\<exists>p. verifyServiceSettlement (sample_ext sample_market sample_ledger) sample_service
     sample_request sample_receipt = Inr p"
proof -
  have "to_lower (sample_address 1) = sample_address 1 \<and> to_lower (sample_address 2) = sample_address 2 \<and>
      to_lower (sample_address 3) = sample_address 3 \<and> to_lower (sample_address 6) = sample_address 6 \<and>
      to_lower (sample_hash 8) = sample_hash 8"
    by code_simp
  then show ?thesis
    by (subst settlement_accepted_iff [OF sample_addresses_differ])
      (simp add: sample_receipt_def sample_service_def sample_request_def sample_ext_def
        sample_market_def sample_ledger_def text_hash_def dec_int_def dec_val_def digit_val_def
        code_def)
qed

definition sample_terms :: service_terms where
  "sample_terms = terms_of sample_service"

text \<open>The same terms with another output schema: the hash does not cover the schemas.\<close>

definition sample_terms2 :: service_terms where
  "sample_terms2 = sample_terms\<lparr>st_output := JObj [(''type'', JStr ''boolean'')]\<rparr>"

definition sample_definition :: service_definition where
  "sample_definition = with_hash sample_terms (''0x'' @ replicate 40 (CHR ''1'') @ replicate 24 (CHR ''3''))"

definition sample_definition2 :: service_definition where
  "sample_definition2 = with_hash sample_terms2 (sd_hash sample_definition)"

lemma sample_lower_stable: "lower_stable (sample_ext m l)"
  by (simp add: lower_stable_def sample_ext_def hex_lower)

lemma lower_hex_digit: "d < 16 \<Longrightarrow> lower_char (hex_digit d) = hex_digit d"
  by (auto simp: lower_char_def hex_digit_def char_between_def code_def)

lemma is_hex_digit: "d < 16 \<Longrightarrow> is_hex (hex_digit d)"
  using hex_val_digit by blast

lemma sample_chars:
  "lower_char (CHR ''0'') = CHR ''0''" "lower_char (CHR ''x'') = CHR ''x''" "lower_char (CHR ''1'') = CHR ''1''"
  "lower_char (CHR ''3'') = CHR ''3''" "is_hex (CHR ''0'')" "is_hex (CHR ''1'')" "is_hex (CHR ''3'')"
  "hex_digit 1 = CHR ''1''" "hex_digit 3 = CHR ''3''"
  by code_simp+

lemma sample_hex:
  "n < 16 \<Longrightarrow> hex_n 40 (sample_address n)" "n < 16 \<Longrightarrow> to_lower (sample_address n) = sample_address n"
  "n < 16 \<Longrightarrow> hex_n 64 (sample_hash n)" "n < 16 \<Longrightarrow> to_lower (sample_hash n) = sample_hash n"
  using hex_val_digit [of n]
  by (simp_all add: sample_address_def sample_hash_def hex_n_def to_lower_def list_all_iff lower_hex_digit
      sample_chars)

lemma sample_fields:
  "hex_n 40 (sample_address 1) \<and> hex_n 40 (sample_address 2) \<and> hex_n 40 (sample_address 3)"
  "to_lower (sample_address 1) = sample_address 1 \<and> to_lower (sample_address 2) = sample_address 2 \<and>
   to_lower (sample_address 3) = sample_address 3"
  "pos_numeral ''2'' \<and> pos_numeral ''5''"
  "isSchema 0 (JObj [(''type'', JStr ''null'')]) \<and> isSchema 0 (JObj [(''type'', JStr ''boolean'')])"
  "hex_n 64 (''0x'' @ replicate 40 (CHR ''1'') @ replicate 24 (CHR ''3''))"
  "to_lower (''0x'' @ replicate 40 (CHR ''1'') @ replicate 24 (CHR ''3'')) = ''0x'' @ replicate 40 (CHR ''1'') @ replicate 24 (CHR ''3'')"
  "''0x'' @ take 64 (drop 2 (sample_address 1 @ drop 2 (sample_address 3)) @ replicate 64 (CHR ''0'')) = 
     ''0x'' @ replicate 40 (CHR ''1'') @ replicate 24 (CHR ''3'')"
proof -
  show "pos_numeral ''2'' \<and> pos_numeral ''5''"
    "isSchema 0 (JObj [(''type'', JStr ''null'')]) \<and> isSchema 0 (JObj [(''type'', JStr ''boolean'')])"
    by code_simp+
qed (simp_all add: sample_hex is_hex_digit lower_hex_digit hex_n_def to_lower_def list_all_iff sample_chars sample_address_def del: One_nat_def)

lemma sample_paid_hash:
  "hex_n 64 (''0x6e756c6c'' @ replicate 56 (CHR ''0''))"
  "to_lower (''0x6e756c6c'' @ replicate 56 (CHR ''0'')) = ''0x6e756c6c'' @ replicate 56 (CHR ''0'')"
proof -
  have "list_all is_hex ''6e756c6c''" "map lower_char ''6e756c6c'' = ''6e756c6c''" by code_simp+
  then show "hex_n 64 (''0x6e756c6c'' @ replicate 56 (CHR ''0''))"
    "to_lower (''0x6e756c6c'' @ replicate 56 (CHR ''0'')) = ''0x6e756c6c'' @ replicate 56 (CHR ''0'')"
    by (simp_all add: hex_n_def to_lower_def sample_chars list_all_iff)
qed

lemma sample_wf: "wf_terms (sample_ext m l) sample_terms" "wf_terms (sample_ext m l) sample_terms2"
  using sample_fields(1-4)
  by (simp_all add: wf_terms_def sample_terms2_def sample_terms_def sample_service_def terms_of_def
      service_terms.defs sample_ext_def p_address_def check_def)

lemma sample_same_terms: "hashed_terms x sample_terms2 = hashed_terms x sample_terms"
  by (simp add: hashed_terms_def sample_terms2_def)

lemma sample_service_hash:
  "service_hash (sample_ext m l) sample_terms = Inr (''0x'' @ replicate 40 (CHR ''1'') @ replicate 24 (CHR ''3''))"
  by (simp only: service_hash_def hashed_terms_def sample_terms_def sample_service_def terms_of_def
      service_terms.defs sample_ext_def ext.simps service_terms.simps service_definition.simps prod.case
      option.map of_opt_simps sample_fields(7))

lemma sample_service_hash2:
  "service_hash (sample_ext m l) sample_terms2 = service_hash (sample_ext m l) sample_terms"
  by (simp add: service_hash_def sample_same_terms)

lemma sample_created:
  "createServiceDefinition (sample_ext m l) (JObj (terms_json sample_terms)) = Inr sample_definition"
  "createServiceDefinition (sample_ext m l) (JObj (terms_json sample_terms2)) = Inr sample_definition2"
proof -
  have u: "st_unit sample_terms \<in> set (normalizedUnits (st_category sample_terms))"
    "\<exists>u. new_URL (sample_ext m l) (st_endpoint sample_terms) = Some u \<and> href u = st_endpoint sample_terms"
    by (simp_all add: sample_terms_def sample_service_def terms_of_def service_terms.defs sample_ext_def
        sample_url_def)
  have "create_definition (sample_ext m l) sample_terms = Inr sample_definition"
    unfolding create_definition_iff [OF sample_wf(1)] sample_definition_def
    using sample_fields(5,6) u by (simp add: sample_service_hash)
  moreover have "create_definition (sample_ext m l) sample_terms2 = Inr sample_definition2"
    unfolding create_definition_iff [OF sample_wf(2)] sample_definition2_def sample_definition_def
    using sample_fields(5,6) u
    by (simp add: sample_service_hash sample_service_hash2) (simp add: sample_terms2_def)
  ultimately show
    "createServiceDefinition (sample_ext m l) (JObj (terms_json sample_terms)) = Inr sample_definition"
    "createServiceDefinition (sample_ext m l) (JObj (terms_json sample_terms2)) = Inr sample_definition2"
    by (simp_all add: createServiceDefinition_def parse_terms_json [OF sample_wf(1)]
        parse_terms_json [OF sample_wf(2)])
qed

lemma definition_roundtrip_witness:
  "validateServiceDefinition (sample_ext sample_market sample_ledger) (definition_json sample_definition) =
     Inr sample_definition"
  by (rule definition_roundtrip [OF sample_lower_stable sample_created(1)])

lemma sample_validated:
  "validateServiceDefinition (sample_ext m l) (definition_json sample_definition) = Inr sample_definition"
  "validateServiceDefinition (sample_ext m l) (definition_json sample_definition2) = Inr sample_definition2"
proof -
  have f: "terms_of sample_definition = sample_terms" "terms_of sample_definition2 = sample_terms2"
    "sd_hash sample_definition2 = sd_hash sample_definition"
    by (simp_all add: sample_definition_def sample_definition2_def)
  have h: "hex_n 64 (sd_hash sample_definition)" "to_lower (sd_hash sample_definition) = sd_hash sample_definition"
    using sample_fields(5,6) by (simp_all add: sample_definition_def)
  have w: "with_hash sample_terms (sd_hash sample_definition) = sample_definition"
    "with_hash sample_terms2 (sd_hash sample_definition) = sample_definition2"
    by (simp_all add: sample_definition_def sample_definition2_def)
  have p: "parse_definition (sample_ext m l) (definition_json sample_definition) = Some sample_definition"
    using parse_definition_json [OF sample_wf(1), of m l "sd_hash sample_definition"] h
    by (simp add: w p_hex32_def check_def)
  show "validateServiceDefinition (sample_ext m l) (definition_json sample_definition) = Inr sample_definition"
    using p sample_created(1) [of m l] by (simp add: validateServiceDefinition_def f)
  have p2: "parse_definition (sample_ext m l) (definition_json sample_definition2) = Some sample_definition2"
    using parse_definition_json [OF sample_wf(2), of m l "sd_hash sample_definition"] h
    by (simp add: w p_hex32_def check_def)
  show "validateServiceDefinition (sample_ext m l) (definition_json sample_definition2) = Inr sample_definition2"
    using p2 sample_created(2) [of m l] by (simp add: validateServiceDefinition_def f)
qed

lemma sample_text_digits:
  "keccak256 (sample_ext m l) (toHex (sample_ext m l) (c # s)) ! 2 = hex_digit (code c div 16)"
  "keccak256 (sample_ext m l) (toHex (sample_ext m l) (c # s)) ! 3 = hex_digit (code c mod 16)"
  by (simp_all add: sample_ext_def numeral_2_eq_2 numeral_3_eq_3)

lemma sample_keccak_head: "2 < length a \<Longrightarrow> keccak256 (sample_ext m l) a ! 2 = a ! 2"
  by (cases a rule: list.exhaust; cases "tl a"; cases "tl (tl a)")
    (auto simp: sample_ext_def numeral_2_eq_2)

lemma service_hash_binds_witness:
  "sample_definition \<noteq> sample_definition2 \<and>
   st_settlement sample_definition = st_settlement sample_definition2 \<and>
   st_endpoint sample_definition = st_endpoint sample_definition2"
proof -
  have ne: "sample_definition \<noteq> sample_definition2"
  proof
    assume "sample_definition = sample_definition2"
    then have "st_output (terms_of sample_definition) = st_output (terms_of sample_definition2)" by simp
    then show False
      by (simp add: sample_definition_def sample_definition2_def)
        (simp add: sample_terms2_def sample_terms_def sample_service_def terms_of_def service_terms.defs)
  qed
  have eq: "terms_of sample_definition = sample_terms" "terms_of sample_definition2 = sample_terms2"
    "sd_hash sample_definition = sd_hash sample_definition2"
    by (simp_all add: sample_definition_def sample_definition2_def)
  have g: "st_unit sample_definition = ''compute-unit''" "st_unit sample_definition2 = ''compute-unit''"
    "st_endpoint sample_definition = ''https://seller.example/''"
    "st_endpoint sample_definition2 = ''https://seller.example/''"
    by (simp_all add: sample_definition_def sample_definition2_def sample_terms2_def sample_terms_def
        sample_service_def with_hash_def terms_of_def service_terms.defs)
  let ?x = "sample_ext sample_market sample_ledger"
  let ?e = "sample_address 1 @ drop 2 (sample_address 3)"
  have enc: "Option.these (encode_terms ?x ` {hashed_terms ?x sample_terms, hashed_terms ?x sample_terms2}) = {?e}"
  proof -
    have "encode_terms ?x (hashed_terms ?x sample_terms) = Some ?e"
      by (simp add: sample_ext_def hashed_terms_def sample_terms_def sample_service_def terms_of_def service_terms.defs)
    then show ?thesis by (auto simp: sample_same_terms Option.these_def)
  qed
  let ?h = "\<lambda>a. to_lower (keccak256 ?x a)"
  let ?u = "toHex ?x ''compute-unit''" and ?v = "toHex ?x ''https://seller.example/''"
  have hd: "hex_digit 6 = CHR ''6''" "hex_digit 3 = CHR ''3''" "hex_digit 8 = CHR ''8''" by code_simp+
  have "?e ! 2 = CHR ''1'' \<and> 2 < length ?e" by code_simp
  then have e1: "keccak256 ?x ?e ! 2 = CHR ''1''" by (metis sample_keccak_head)
  have k: "keccak256 ?x ?e ! 2 = CHR ''1''" "keccak256 ?x ?u ! 2 = CHR ''6''"
      "keccak256 ?x ?u ! 3 = CHR ''3''" "keccak256 ?x ?v ! 2 = CHR ''6''" "keccak256 ?x ?v ! 3 = CHR ''8''"
    by (rule e1) (simp_all add: sample_text_digits code_def hd)
  have len: "length (keccak256 ?x a) = 66" for a by (simp add: sample_ext_def)
  have c: "lower_char (CHR ''1'') = CHR ''1''" "lower_char (CHR ''6'') = CHR ''6''"
      "lower_char (CHR ''3'') = CHR ''3''" "lower_char (CHR ''8'') = CHR ''8''"
    by code_simp+
  have d: "?h ?e ! 2 = CHR ''1'' \<and> ?h ?u ! 2 = CHR ''6'' \<and> ?h ?u ! 3 = CHR ''3'' \<and>
      ?h ?v ! 2 = CHR ''6'' \<and> ?h ?v ! 3 = CHR ''8''"
    by (simp add: to_lower_def len k [unfolded One_nat_def] c)
  then have n: "?h ?e \<noteq> ?h ?u" "?h ?e \<noteq> ?h ?v" "?h ?u \<noteq> ?h ?v" by auto
  have "inj_on ?h {?e, ?u, ?v}"
    using n unfolding inj_on_def by (metis empty_iff insert_iff)
  moreover have "inj_on (toHex ?x) {''compute-unit'', ''https://seller.example/''}"
    using n(3) unfolding inj_on_def by (metis empty_iff insert_iff)
  moreover have "toHex ?x ` {st_unit sample_definition, st_unit sample_definition2,
      st_endpoint sample_definition, st_endpoint sample_definition2} = {?u, ?v}"
    by (simp only: g) blast
  moreover have "{st_unit sample_definition, st_unit sample_definition2, st_endpoint sample_definition,
      st_endpoint sample_definition2} = {''compute-unit'', ''https://seller.example/''}"
    by (simp only: g) blast
  moreover have "inj_on (encode_terms ?x) {hashed_terms ?x sample_terms, hashed_terms ?x sample_terms2}"
    by (simp only: sample_same_terms) (simp add: inj_on_def)
  ultimately have "st_settlement sample_definition = st_settlement sample_definition2 \<and>
      st_endpoint sample_definition = st_endpoint sample_definition2"
    using service_hash_binds [OF sample_lower_stable sample_validated eq(3)]
    by (simp only: eq(1,2) enc insert_is_Un [symmetric] Un_insert_left Un_empty_left)
  with ne show ?thesis by simp
qed

definition sample_paid :: service_request where
  "sample_paid = sample_request\<lparr>rq_serviceHash := sd_hash sample_definition,
     rq_inputHash := ''0x6e756c6c'' @ replicate 56 (CHR ''0'')\<rparr>"

lemma sample_paid_parts:
  "list_all (hex_n 64) [sample_hash 4, sample_hash 5, sample_hash 8, sd_hash sample_definition,
     ''0x6e756c6c'' @ replicate 56 (CHR ''0'')]"
  "list_all (\<lambda>s. to_lower s = s) [sample_hash 4, sample_hash 5, sample_hash 8, sd_hash sample_definition,
     ''0x6e756c6c'' @ replicate 56 (CHR ''0''), sample_address 1, sample_address 2, sample_address 6]"
  "list_all (hex_n 40) [sample_address 1, sample_address 2, sample_address 6]"
  "list_all pos_numeral [''2'', ''5'', ''10'']"
  "text_hash (sample_ext m l) (canonicalJson JNull) = ''0x6e756c6c'' @ replicate 56 (CHR ''0'')"
  "utf8_length (canonicalJson JNull) = 4"
proof -
  have d: "sd_hash sample_definition = ''0x'' @ replicate 40 (CHR ''1'') @ replicate 24 (CHR ''3'')"
    by (simp add: sample_definition_def)
  show "list_all (hex_n 64) [sample_hash 4, sample_hash 5, sample_hash 8, sd_hash sample_definition,
       ''0x6e756c6c'' @ replicate 56 (CHR ''0'')]"
    "list_all (\<lambda>s. to_lower s = s) [sample_hash 4, sample_hash 5, sample_hash 8, sd_hash sample_definition,
       ''0x6e756c6c'' @ replicate 56 (CHR ''0''), sample_address 1, sample_address 2, sample_address 6]"
    "list_all (hex_n 40) [sample_address 1, sample_address 2, sample_address 6]"
    unfolding d using sample_fields(5,6) sample_paid_hash by (simp_all add: sample_hex del: One_nat_def)
  have c: "concat (map (\<lambda>c. [hex_digit (code c div 16), hex_digit (code c mod 16)]) ''null'') = ''6e756c6c''"
  proof -
    have "hex_digit 6 = CHR ''6''" "hex_digit 14 = CHR ''e''" "hex_digit 7 = CHR ''7''" "hex_digit 5 = CHR ''5''"
      "hex_digit 12 = CHR ''c''"
      by code_simp+
    then show ?thesis by (simp add: code_def)
  qed
  then show "text_hash (sample_ext m l) (canonicalJson JNull) = ''0x6e756c6c'' @ replicate 56 (CHR ''0'')"
    by (simp only: text_hash_def sample_ext_def ext.simps canonicalJson.simps c) simp
qed code_simp+

definition wf_request :: "ext \<Rightarrow> service_request \<Rightarrow> bool" where
  "wf_request x r \<longleftrightarrow>
     list_all (\<lambda>h. p_hex32 (JStr h) = Some h)
       [rq_orderId r, rq_agentId r, rq_serviceHash r, rq_inputHash r, rq_transaction r] \<and>
     list_all (\<lambda>a. p_address x (JStr a) = Some a) [rq_payer r, rq_settlement r, rq_ledger r] \<and>
     list_all pos_numeral [rq_quantity r, rq_unitPrice r, rq_amount r]"

lemma parse_request_json:
  assumes "wf_request x r"
  shows "parse_request x (request_json r) = Some r"
proof -
  have s: "strict requestKeys (request_json r)"
    by (simp add: strict_def keys_def request_json_def requestKeys_def split: option.split)
  have p: "parse_settlement x (JObj [(''chainId'', JNum (num_of_int arc_chain)),
      (''address'', JStr (rq_settlement r)), (''ledgerAddress'', JStr (rq_ledger r)),
      (''transactionHash'', JStr (rq_transaction r))]) =
      Some (rq_settlement r, rq_ledger r, rq_transaction r)"
    using assms by (simp add: parse_settlement_def field_def strict_def keys_def wf_request_def)
  have i: "fld (request_json r) ''input'' = rq_input r"
    by (simp add: request_json_def split: option.split)
  show ?thesis
    using assms
    by (simp add: parse_request_def s i field_def fstr_def del: fld.simps)
      (simp add: request_json_def wf_request_def p p_category_def p_positive_def check_def)
qed

lemma sample_paid_parsed: "parse_request (sample_ext m l) (request_json sample_paid) = Some sample_paid"
proof (rule parse_request_json)
  have "isAddress (sample_ext m l) = hex_n 40" by (simp add: sample_ext_def)
  with sample_paid_parts(1-4) show "wf_request (sample_ext m l) sample_paid"
    by (simp add: wf_request_def sample_paid_def sample_request_def p_hex32_def p_address_def check_def)
qed

lemma request_accepted_binds_witness:
  "dec_int (rq_amount sample_paid) = dec_int ''2'' * dec_int ''5''"
proof -
  have v: "dec_int ''10'' = dec_int ''2'' * dec_int ''5''" by code_simp
  have n: "canonicalJsonHash (sample_ext m l) JNull = Inr (''0x6e756c6c'' @ replicate 56 (CHR ''0''))" for m l
    using sample_paid_parts(5,6) by (simp add: canonicalJsonHash_small visit.simps del: canonicalJson.simps)
  have m: "validateSchemaValue JNull (JObj [(''type'', JStr ''null'')]) 65536 = Inr ()"
    using sample_fields(4) sample_paid_parts(6)
    by (simp add: validateSchemaValue_def assertJson_def visit.simps matchesSchema.simps has_type_def
        del: canonicalJson.simps)
  have f: "st_category sample_definition = Compute" "st_unit sample_definition = ''compute-unit''"
    "st_quantity sample_definition = ''2''" "st_unitPrice sample_definition = ''5''"
    "st_settlement sample_definition = sample_address 1" "st_ledger sample_definition = sample_address 2"
    "st_input sample_definition = JObj [(''type'', JStr ''null'')]"
    by (simp_all add: sample_definition_def sample_terms_def sample_service_def with_hash_def terms_of_def
        service_terms.defs)
  have "validateServiceRequest (sample_ext sample_market sample_ledger) sample_definition
      (request_json sample_paid) = Inr sample_paid"
    by (simp add: validateServiceRequest_def sample_paid_parsed)
      (simp add: f sample_paid_def sample_request_def v hash_opt_def n m)
  from request_accepted_binds [OF this] show ?thesis by (simp only: f)
qed

end
