(* ===== verification/TaskModel.thy ===== *)
theory TaskModel
  imports ServiceTerms
begin

text \<open>
  Task plans, \<open>src/src/lib/tasks/model.ts\<close>: a plan is a list of paid service calls whose
  inputs are templates. A template may refer to the output of an earlier step with
  \<open>{"$from": i, "path": [...]}\<close>; \<open>validateTemplate\<close> checks the references against the
  schemas before anything is paid, \<open>resolveTaskInput\<close> puts the outputs in when the step runs.
\<close>

section \<open>Plans and tasks\<close>

datatype TaskStatus = Queued | Planning | NeedsApproval | Approved | Running | Completed | Blocked | Cancelled

record task_step =
  ts_serviceHash :: string
  ts_definition :: service_definition
  ts_input :: json

record task_plan =
  tp_summary :: string
  tp_steps :: "task_step list"
  tp_total :: string

record task_result =
  tr_index :: int
  tr_orderId :: string
  tr_transaction :: string
  tr_outputHash :: string
  tr_output :: json

definition atomic_ok :: "string \<Rightarrow> bool" where
  "atomic_ok s \<longleftrightarrow> pos_numeral s \<and> length s \<le> 78 \<and> dec_int s < 2 ^ 256"

section \<open>References in templates\<close>

definition forbiddenKeys :: "string list" where
  "forbiddenKeys = [''__proto__'', ''prototype'', ''constructor'']"

definition safe_nat :: "json \<Rightarrow> bool" where
  "safe_nat v = (case v of JNum n \<Rightarrow> is_safe_integer n \<and> 0 \<le> num_int n | _ \<Rightarrow> False)"

definition path_key :: "json \<Rightarrow> bool" where
  "path_key v = (case v of JStr k \<Rightarrow> k \<noteq> [] \<and> k \<notin> set forbiddenKeys | _ \<Rightarrow> safe_nat v)"

text \<open>The reference an object with an own key \<open>$from\<close> stands for.\<close>

definition reference :: "(string \<times> json) list \<Rightarrow> (nat \<times> json list) option" where
  "reference kvs = (case (map_of kvs ''$from'', map_of kvs ''path'') of
     (Some (JNum n), Some (JArr path)) \<Rightarrow>
       if length kvs = 2 \<and> is_safe_integer n \<and> 0 \<le> num_int n \<and> length path \<le> 12 \<and>
          list_all path_key path
       then Some (nat (num_int n), path) else None
   | _ \<Rightarrow> None)"

fun mapInput :: "(nat \<Rightarrow> json list \<Rightarrow> json res) \<Rightarrow> json \<Rightarrow> json res" where
  "mapInput resolve (JArr xs) = bindR (mapR (mapInput resolve) xs) (\<lambda>ys. Inr (JArr ys))"
| "mapInput resolve (JObj kvs) =
     (if \<exists>k \<in> set (map fst kvs). k \<in> set forbiddenKeys then Inl (Err ''Unsafe input key'')
      else if map_of kvs ''$from'' \<noteq> None then
        (case reference kvs of
           None \<Rightarrow> Inl (Err ''Invalid output reference'')
         | Some (i, path) \<Rightarrow> resolve i path)
      else bindR (mapR (\<lambda>(k, c). bindR (mapInput resolve c) (\<lambda>d. Inr (k, d))) kvs)
             (\<lambda>kvs'. Inr (JObj kvs')))"
| "mapInput resolve v = Inr v"

text \<open>\<open>Object.hasOwn(value, key)\<close> and \<open>value[key]\<close>: an array has its indices and
  \<open>length\<close>; a number is used as the key it prints as.\<close>

definition key_str :: "json \<Rightarrow> string" where
  "key_str k = (case k of JStr s \<Rightarrow> s | JNum n \<Rightarrow> num_str n | _ \<Rightarrow> [])"

definition own_property :: "json \<Rightarrow> string \<Rightarrow> json option" where
  "own_property v k = (case v of
     JObj kvs \<Rightarrow> map_of kvs k
   | JArr xs \<Rightarrow>
       (if k = ''length'' then Some (JNum (nat_num (length xs)))
        else if numeral_str k \<and> dec_val k < length xs then Some (xs ! dec_val k) else None)
   | _ \<Rightarrow> None)"

fun walk :: "json \<Rightarrow> json list \<Rightarrow> json res" where
  "walk v [] = Inr v"
| "walk v (k # ks) = (case own_property v (key_str k) of
     None \<Rightarrow> Inl (Err ''Output reference path is missing'')
   | Some c \<Rightarrow> walk c ks)"

definition resolve_output :: "ext \<Rightarrow> json list \<Rightarrow> nat \<Rightarrow> json list \<Rightarrow> json res" where
  "resolve_output x outputs i path =
     (if length outputs \<le> i
      then Inl (Err ''Output reference must identify an earlier completed step'')
      else bindR (walk (outputs ! i) path) (\<lambda>v. bindR (canonicalJsonHash x v) (\<lambda>_. Inr v)))"

definition resolveTaskInput :: "ext \<Rightarrow> json \<Rightarrow> json list \<Rightarrow> json res" where
  "resolveTaskInput x template outputs =
     bindR (canonicalJsonHash x template) (\<lambda>_. mapInput (resolve_output x outputs) template)"

section \<open>Static checks on references\<close>

definition property_schema :: "json \<Rightarrow> string \<Rightarrow> json option" where
  "property_schema s k = fld (properties_of s) k"

fun schemaAtPath :: "json \<Rightarrow> json list \<Rightarrow> json res" where
  "schemaAtPath s [] = Inr s"
| "schemaAtPath s (k # ks) =
     (case k of
        JStr n \<Rightarrow>
          (if has_type s ''object'' \<and> JStr n \<in> set (required_of s) then
             (case property_schema s n of
                Some c \<Rightarrow> schemaAtPath c ks
              | None \<Rightarrow> Inl (Err ''Reference path is not present in the earlier output schema''))
           else Inl (Err ''Reference path is not present in the earlier output schema''))
      | _ \<Rightarrow> Inl (Err ''Reference path is not present in the earlier output schema''))"

text \<open>\<open>target[k] === undefined || (source[k] !== undefined && source[k] <= target[k])\<close>; and
  the same the other way round for \<open>minimum\<close>.\<close>

definition upper_fits :: "json option \<Rightarrow> json option \<Rightarrow> bool" where
  "upper_fits s t = (case (t, s) of
     (None, _) \<Rightarrow> True
   | (Some (JNum m), Some (JNum n)) \<Rightarrow> num_le n m
   | _ \<Rightarrow> False)"

definition lower_fits :: "json option \<Rightarrow> json option \<Rightarrow> bool" where
  "lower_fits s t = (case (t, s) of
     (None, _) \<Rightarrow> True
   | (Some (JNum m), Some (JNum n)) \<Rightarrow> num_le m n
   | _ \<Rightarrow> False)"

text \<open>\<open>source.type === target.type\<close> compares arrays by identity.\<close>

definition same_type :: "json \<Rightarrow> json \<Rightarrow> bool" where
  "same_type s t \<longleftrightarrow>
     (case fld s ''type'' of
        None \<Rightarrow> fld t ''type'' = None
      | Some a \<Rightarrow> \<not> is_obj a \<and> \<not> is_arr a \<and> fld t ''type'' = Some a) \<or>
     (has_type s ''integer'' \<and> has_type t ''number'')"

function compatibleSchema :: "json \<Rightarrow> json \<Rightarrow> bool" where
  "compatibleSchema s t \<longleftrightarrow>
     same_type s t \<and>
     upper_fits (fld s ''maxLength'') (fld t ''maxLength'') \<and>
     lower_fits (fld s ''minimum'') (fld t ''minimum'') \<and>
     upper_fits (fld s ''maximum'') (fld t ''maximum'') \<and>
     (if has_type t ''array'' then
        (case (fld s ''maxItems'', fld t ''maxItems'') of
           (Some (JNum n), Some (JNum m)) \<Rightarrow> num_le n m | _ \<Rightarrow> False) \<and>
        (case (fld s ''items'', fld t ''items'') of
           (Some c, Some d) \<Rightarrow> compatibleSchema c d | _ \<Rightarrow> False)
      else if has_type t ''object'' then
        list_all (\<lambda>k. k \<in> set (required_of s)) (required_of t) \<and>
        (case fld s ''properties'' of
           Some (JObj ps) \<Rightarrow>
             list_all (\<lambda>p. case property_schema t (fst p) of
               None \<Rightarrow> False | Some d \<Rightarrow> compatibleSchema (snd p) d) ps
         | _ \<Rightarrow> False)
      else True)"
  by pat_completeness auto
termination
  by (relation "measure (\<lambda>(s, t). size s)")
    (auto dest!: size_fld [where k = "''properties''"] size_fld [where k = "''items''", OF sym] size_kv)

declare compatibleSchema.simps [simp del]

definition reference_fits :: "service_definition list \<Rightarrow> json \<Rightarrow> nat \<Rightarrow> json list \<Rightarrow> json res" where
  "reference_fits earlier schema i path =
     (if length earlier \<le> i then Inl (Err ''Output references must identify earlier steps'')
      else bindR (schemaAtPath (st_output (earlier ! i)) path) (\<lambda>c.
        if \<not> compatibleSchema c schema
        then Inl (Err ''Referenced output schema does not fit the service input'')
        else Inr JNull))"

text \<open>The two loops return at the first error; their results carry no value.\<close>

function validateTemplate :: "json \<Rightarrow> json \<Rightarrow> service_definition list \<Rightarrow> unit res" where
  "validateTemplate v schema earlier =
     (if fld v ''$from'' \<noteq> None then
        bindR (mapInput (reference_fits earlier schema) v) (\<lambda>_. Inr ())
      else if has_type schema ''object'' \<and> is_obj v then
        (if \<exists>k \<in> set (required_of schema). \<not> own_key v k
         then Inl (Err ''Required service input is missing'')
         else bindR (mapR (\<lambda>(k, c).
             (if k \<in> set forbiddenKeys then Inl (Err ''Unknown service input field'')
              else case property_schema schema k of
                None \<Rightarrow> Inl (Err ''Unknown service input field'')
              | Some s \<Rightarrow> validateTemplate c s earlier)) (entries v)) (\<lambda>_. Inr ()))
      else if has_type schema ''array'' \<and> is_arr v then
        (if \<not> num_le_opt (nat_num (length (elems v))) (fld schema ''maxItems'')
         then Inl (Err ''Input array exceeds service schema'')
         else bindR (mapR (\<lambda>c. validateTemplate c (items_of schema) earlier) (elems v)) (\<lambda>_. Inr ()))
      else validateSchemaValue v schema (64 * 1024))"
  by pat_completeness auto
termination
  by (relation "measure (\<lambda>(v, s, e). size v)") (auto dest: size_entry size_elem)

declare validateTemplate.simps [simp del]

section \<open>Building a plan\<close>

record raw_step =
  rs_serviceHash :: string
  rs_input :: json

definition parse_raw_step :: "json \<Rightarrow> raw_step option" where
  "parse_raw_step v =
     (if \<not> strict [''serviceHash'', ''input''] v then None
      else Option.bind (check (hex_n 64) (fstr v ''serviceHash'')) (\<lambda>h.
           Option.bind (fld v ''input'') (\<lambda>i.
             Some \<lparr>rs_serviceHash = h, rs_input = i\<rparr>)))"

definition rawPlan :: "json \<Rightarrow> (string \<times> raw_step list) option" where
  "rawPlan v =
     (if \<not> strict [''summary'', ''steps''] v then None
      else Option.bind (check (\<lambda>s. 1 \<le> length s \<and> length s \<le> 2000)
               (map_option trim (fstr v ''summary''))) (\<lambda>su.
           Option.bind (check (\<lambda>ss. 1 \<le> length ss \<and> length ss \<le> 5)
               (farr v ''steps'' parse_raw_step)) (\<lambda>ss.
             Some (su, ss))))"

definition registered :: "service_definition list \<Rightarrow> string \<Rightarrow> service_definition option" where
  "registered services h = find (\<lambda>s. to_lower (sd_hash s) = to_lower h) services"

definition step_cost :: "service_definition \<Rightarrow> int" where
  "step_cost d = dec_int (st_quantity d) * dec_int (st_unitPrice d)"

fun plan_steps ::
    "ext \<Rightarrow> service_definition list \<Rightarrow> int \<Rightarrow> service_definition list \<Rightarrow> int \<Rightarrow> raw_step list \<Rightarrow>
      (task_step list \<times> int) res" where
  "plan_steps x services budget defs tot [] = Inr ([], tot)"
| "plan_steps x services budget defs tot (r # rs) =
     bindR (of_opt (Err ''Plan names an unregistered or unavailable service'')
       (registered services (rs_serviceHash r))) (\<lambda>reg.
     bindR (validateServiceDefinition x (definition_json reg)) (\<lambda>d.
     bindR (validateTemplate (rs_input r) (st_input d) defs) (\<lambda>_.
       (let tot' = tot + step_cost d
        in if budget < tot' then Inl (Err ''Plan exceeds the task budget'')
           else bindR (plan_steps x services budget (defs @ [d]) tot' rs) (\<lambda>(steps, t).
             Inr (\<lparr>ts_serviceHash = sd_hash d, ts_definition = d, ts_input = rs_input r\<rparr> # steps, t))))))"

definition createTaskPlan ::
    "ext \<Rightarrow> json \<Rightarrow> service_definition list \<Rightarrow> string \<Rightarrow> task_plan res" where
  "createTaskPlan x v services budgetAtomic =
     bindR (need (atomic_ok budgetAtomic) Zod) (\<lambda>_.
     bindR (of_opt Zod (rawPlan v)) (\<lambda>(summary, raw).
     bindR (canonicalJsonHash x v) (\<lambda>_.
     bindR (plan_steps x services (dec_int budgetAtomic) [] 0 raw) (\<lambda>(steps, tot).
       Inr \<lparr>tp_summary = summary, tp_steps = steps, tp_total = int_dec tot\<rparr>))))"

definition step_json :: "task_step \<Rightarrow> json" where
  "step_json s = JObj [(''serviceHash'', JStr (ts_serviceHash s)),
     (''definition'', definition_json (ts_definition s)), (''input'', ts_input s)]"

definition plan_json :: "task_plan \<Rightarrow> json" where
  "plan_json p = JObj [(''version'', JNum (num_of_int 1)), (''summary'', JStr (tp_summary p)),
     (''steps'', JArr (map step_json (tp_steps p))), (''totalAtomic'', JStr (tp_total p))]"

definition taskPlanHash :: "ext \<Rightarrow> task_plan \<Rightarrow> string res" where
  "taskPlanHash x p = canonicalJsonHash x (plan_json p)"

text \<open>\<open>taskStepOrderId\<close>: the index is an integer.\<close>

definition order_text :: "string \<Rightarrow> string \<Rightarrow> int \<Rightarrow> string" where
  "order_text taskId planHash i =
     ''obolos.task.v1:'' @ to_lower taskId @ '':'' @ planHash @ '':'' @ int_dec i"

definition taskStepOrderId :: "ext \<Rightarrow> string \<Rightarrow> string \<Rightarrow> int \<Rightarrow> string res" where
  "taskStepOrderId x taskId planHash i =
     (if \<not> is_uuid taskId \<or> \<not> lower_hex_n 64 planHash \<or> i < 0 \<or> 5 \<le> i
      then Inl (Err ''Invalid task order identity'')
      else Inr (text_hash x (order_text taskId planHash i)))"

section \<open>Compatible schemas\<close>

lemma lower_fits_ge: "lower_fits a b \<Longrightarrow> num_ge_opt n a \<Longrightarrow> num_ge_opt n b"
  by (auto simp: lower_fits_def num_ge_opt_def split: option.splits json.splits intro: num_le_trans)

lemma upper_fits_le: "upper_fits a b \<Longrightarrow> num_le_opt n a \<Longrightarrow> num_le_opt n b"
  by (auto simp: upper_fits_def num_le_opt_def split: option.splits json.splits intro: num_le_trans)

lemma matches_type: "matchesSchema v s \<Longrightarrow> \<exists>ty. fld s ''type'' = Some (JStr ty)"
  by (subst (asm) matchesSchema.simps) (auto simp: has_type_def split: if_splits)

lemma same_type_JStr:
  "same_type s t \<Longrightarrow> fld s ''type'' = Some (JStr ty) \<Longrightarrow>
     fld t ''type'' = Some (JStr ty) \<or> (ty = ''integer'' \<and> fld t ''type'' = Some (JStr ''number''))"
  by (auto simp: same_type_def has_type_def)

lemma compatible_array:
  assumes "compatibleSchema s t" "has_type t ''array''"
  shows "upper_fits (fld s ''maxItems'') (fld t ''maxItems'') \<and> compatibleSchema (items_of s) (items_of t) \<and>
    fld s ''items'' = Some (items_of s) \<and> fld t ''items'' = Some (items_of t)"
  using assms by (subst (asm) compatibleSchema.simps)
    (auto simp: upper_fits_def items_of_def split: option.splits json.splits)

lemma compatible_object:
  assumes "compatibleSchema s t" "has_type t ''object''"
  shows "set (required_of t) \<subseteq> set (required_of s) \<and>
    (\<exists>ps. fld s ''properties'' = Some (JObj ps) \<and>
      (\<forall>(k, c) \<in> set ps. \<exists>d. property_schema t k = Some d \<and> compatibleSchema c d))"
proof -
  have "\<not> has_type t ''array''" using assms(2) by (simp add: has_type_def)
  with assms show ?thesis
    by (subst (asm) compatibleSchema.simps)
      (auto simp: list_all_iff split: option.splits json.splits)
qed

lemma matchesSchema_JObjI:
  assumes "has_type s ''object''" "list_all (own_key (JObj kvs)) (required_of s)"
    and "\<And>kv. kv \<in> set kvs \<Longrightarrow> \<exists>c. fld (properties_of s) (fst kv) = Some c \<and> matchesSchema (snd kv) c"
  shows "matchesSchema (JObj kvs) s"
  using assms by (subst matchesSchema.simps) (fastforce simp: has_type_def list_all_iff)

lemma matchesSchema_JArrI:
  assumes "has_type s ''array''" "num_le_opt (nat_num (length xs)) (fld s ''maxItems'')"
    and "\<And>x. x \<in> set xs \<Longrightarrow> matchesSchema x (items_of s)"
  shows "matchesSchema (JArr xs) s"
  using assms by (subst matchesSchema.simps) (auto simp: has_type_def list_all_iff)

lemma matchesSchema_scalar [simp]:
  "matchesSchema JNull s \<longleftrightarrow> has_type s ''null''"
  "matchesSchema (JBool b) s \<longleftrightarrow> has_type s ''boolean''"
  "matchesSchema (JStr u) s \<longleftrightarrow>
     has_type s ''string'' \<and> num_le_opt (nat_num (length u)) (fld s ''maxLength'')"
  "matchesSchema (JNum n) s \<longleftrightarrow>
     (has_type s ''number'' \<or> has_type s ''integer'' \<and> is_integer n) \<and> is_finite n \<and>
     num_ge_opt n (fld s ''minimum'') \<and> num_le_opt n (fld s ''maximum'')"
  by (auto simp: matchesSchema.simps [of JNull s] matchesSchema.simps [of "JBool b" s]
      matchesSchema.simps [of "JStr u" s] matchesSchema.simps [of "JNum n" s] has_type_def)

lemma own_key_keys: "own_key (JObj kvs) k \<longleftrightarrow> (\<exists>n. k = JStr n \<and> n \<in> set (map fst kvs))"
  by (auto simp: own_key_def map_of_eq_None_iff split: json.splits)

lemma compatible_schema_sound:
  "compatibleSchema s t \<Longrightarrow> matchesSchema v s \<Longrightarrow> matchesSchema v t"
proof (induction s t arbitrary: v rule: compatibleSchema.induct)
  case (1 s t)
  obtain ty where ty: "fld s ''type'' = Some (JStr ty)" using 1(4) matches_type by blast
  have st: "same_type s t" and ml: "upper_fits (fld s ''maxLength'') (fld t ''maxLength'')"
    and mn: "lower_fits (fld s ''minimum'') (fld t ''minimum'')"
    and mx: "upper_fits (fld s ''maximum'') (fld t ''maximum'')"
    using 1(3) by (subst (asm) compatibleSchema.simps, simp)+
  have tt: "fld t ''type'' = Some (JStr ty) \<or> (ty = ''integer'' \<and> fld t ''type'' = Some (JStr ''number''))"
    by (rule same_type_JStr [OF st ty])
  show ?case
  proof (cases v)
    case (JArr xs)
    have s: "ty = ''array''" and m: "num_le_opt (nat_num (length xs)) (fld s ''maxItems'')"
      and el: "\<forall>x \<in> set xs. matchesSchema x (items_of s)"
      using matchesSchema_JArr [of xs s] 1(4) JArr ty by (auto simp: has_type_def)
    then have t: "has_type t ''array''" using tt by (auto simp: has_type_def)
    note c = compatible_array [OF 1(3) t]
    have "\<forall>x \<in> set xs. matchesSchema x (items_of t)"
      using 1(1) [OF t refl] c el by auto
    with c m t show ?thesis
      unfolding JArr by (intro matchesSchema_JArrI) (auto intro: upper_fits_le)
  next
    case (JObj kvs)
    have s: "ty = ''object''" and r: "list_all (own_key v) (required_of s)"
      and el: "\<forall>kv \<in> set kvs. \<exists>c. fld (properties_of s) (fst kv) = Some c \<and> matchesSchema (snd kv) c"
      using matchesSchema_JObj [of kvs s] 1(4) JObj ty by (auto simp: has_type_def)
    then have t: "has_type t ''object''" and nt: "\<not> has_type t ''array''" using tt by (auto simp: has_type_def)
    obtain ps where ps: "set (required_of t) \<subseteq> set (required_of s)" "fld s ''properties'' = Some (JObj ps)"
      "\<forall>(k, c) \<in> set ps. \<exists>d. property_schema t k = Some d \<and> compatibleSchema c d"
      using compatible_object [OF 1(3) t] by blast
    have "\<exists>d. fld (properties_of t) (fst kv) = Some d \<and> matchesSchema (snd kv) d" if kv: "kv \<in> set kvs" for kv
    proof -
      obtain c where c: "map_of ps (fst kv) = Some c" "matchesSchema (snd kv) c"
        using el kv ps(2) by (auto simp: properties_of_def)
      then have m: "(fst kv, c) \<in> set ps" by (simp add: map_of_SomeD)
      then obtain d where d: "property_schema t (fst kv) = Some d" "compatibleSchema c d"
        using ps(3) by blast
      have "matchesSchema (snd kv) d"
        using 1(2) [OF nt t ps(2) refl m] d c by auto
      with d show ?thesis by (auto simp: property_schema_def)
    qed
    with r ps(1) t show ?thesis
      unfolding JObj by (intro matchesSchema_JObjI) (auto simp: list_all_iff)
  qed (use 1(4) ty tt lower_fits_ge [OF mn] upper_fits_le [OF ml] upper_fits_le [OF mx] in
      \<open>auto simp: has_type_def\<close>)
qed


section \<open>Values reached by a path\<close>

lemma visit_mono:
  "visit (Suc d) v = Inr () \<Longrightarrow> visit d v = Inr ()"
  "visit_all (Suc d) xs = Inr () \<Longrightarrow> visit_all d xs = Inr ()"
  "visit_entries (Suc d) kvs = Inr () \<Longrightarrow> visit_entries d kvs = Inr ()"
proof (induction d v and d xs and d kvs rule: visit_visit_all_visit_entries.induct)
  case (1 d v)
  then show ?case
    by (cases v) (auto simp: visit.simps split: if_splits)
next
  case (5 d k x kvs)
  then show ?case by (auto simp: bindR_eq_Inr split: if_splits)
qed (auto simp: bindR_eq_Inr)

lemma visit_0: "visit d v = Inr () \<Longrightarrow> visit 0 v = Inr ()"
  by (induction d) (auto dest: visit_mono)

lemma visit_all_mem: "visit_all d xs = Inr () \<Longrightarrow> x \<in> set xs \<Longrightarrow> visit d x = Inr ()"
  by (induction xs) (auto simp: bindR_eq_Inr)

lemma visit_entries_mem: "visit_entries d kvs = Inr () \<Longrightarrow> (k, x) \<in> set kvs \<Longrightarrow> visit d x = Inr ()"
  by (induction kvs) (auto simp: bindR_eq_Inr split: if_splits)

lemma visit_member:
  "visit 0 (JArr xs) = Inr () \<Longrightarrow> x \<in> set xs \<Longrightarrow> visit 0 x = Inr ()"
  "visit 0 (JObj kvs) = Inr () \<Longrightarrow> (k, x) \<in> set kvs \<Longrightarrow> visit 0 x = Inr ()"
  by (subst (asm) visit.simps, auto split: if_splits dest: visit_all_mem visit_entries_mem visit_0)+

lemma utf8_append [simp]: "utf8_length (a @ b) = utf8_length a + utf8_length b"
  by (induction a) simp_all

lemma utf8_join: "s \<in> set ss \<Longrightarrow> utf8_length s \<le> utf8_length (join sep ss)"
  by (induction sep ss rule: join.induct) auto

lemma utf8_member:
  "x \<in> set xs \<Longrightarrow> utf8_length (canonicalJson x) \<le> utf8_length (canonicalJson (JArr xs))"
  "(k, x) \<in> set kvs \<Longrightarrow> utf8_length (canonicalJson x) \<le> utf8_length (canonicalJson (JObj kvs))"
proof -
  show "x \<in> set xs \<Longrightarrow> utf8_length (canonicalJson x) \<le> utf8_length (canonicalJson (JArr xs))"
    using utf8_join [of "canonicalJson x" "map canonicalJson xs" "'',''"] by simp
  assume kv: "(k, x) \<in> set kvs"
  let ?f = "\<lambda>(k, s). quote k @ '':'' @ s"
  let ?ss = "map ?f (sort_key fst (map (\<lambda>(k, v). (k, canonicalJson v)) kvs))"
  have "?f (k, canonicalJson x) \<in> set ?ss"
    using kv by (force simp only: set_map set_sort)
  from utf8_join [OF this, of "'',''"] show
    "utf8_length (canonicalJson x) \<le> utf8_length (canonicalJson (JObj kvs))"
    by simp
qed

text \<open>A value that \<^const>\<open>canonicalJsonHash\<close> accepts, without the hash.\<close>

definition hashable :: "json \<Rightarrow> bool" where
  "hashable v \<longleftrightarrow> visit 0 v = Inr () \<and> utf8_length (canonicalJson v) \<le> 131072"

lemma hash_hashable: "canonicalJsonHash x v = Inr h \<longleftrightarrow> hashable v \<and> h = text_hash x (canonicalJson v)"
  by (auto simp: canonicalJsonHash_def assertJson_def hashable_def bindR_eq_Inr)

lemma hashable_member:
  "hashable (JArr xs) \<Longrightarrow> x \<in> set xs \<Longrightarrow> hashable x"
  "hashable (JObj kvs) \<Longrightarrow> (k, x) \<in> set kvs \<Longrightarrow> hashable x"
  using visit_member utf8_member unfolding hashable_def by (metis order.trans)+

lemma schemaAtPath_walk:
  assumes "schemaAtPath s path = Inr c" "matchesSchema v s" "hashable v"
  shows "\<exists>w. walk v path = Inr w \<and> matchesSchema w c \<and> hashable w"
  using assms
proof (induction v path arbitrary: s rule: walk.induct)
  case (2 v k ks)
  obtain n d where n: "k = JStr n" "has_type s ''object''" "JStr n \<in> set (required_of s)"
      "property_schema s n = Some d" "schemaAtPath d ks = Inr c"
    using 2(2) by (auto split: json.splits if_splits option.splits)
  obtain kvs where v: "v = JObj kvs"
    using 2(3) n(2) by (subst (asm) matchesSchema.simps) (auto simp: has_type_def split: json.splits)
  note m = matchesSchema_JObj [OF 2(3) [unfolded v]]
  then have "own_key (JObj kvs) (JStr n)"
    using n(3) unfolding list_all_iff by blast
  then obtain w where w: "map_of kvs n = Some w"
    by (auto simp: own_key_def)
  then have "(n, w) \<in> set kvs" by (rule map_of_SomeD)
  then have "matchesSchema w d" and "hashable w"
    using m n(4) hashable_member(2) 2(4) v by (auto simp: property_schema_def)
  then show ?case using 2(1) [of w d] n w v by (simp add: key_str_def own_property_def)
qed simp

section \<open>Checked templates resolve\<close>

lemma mapR_total:
  assumes "\<And>x. x \<in> set xs \<Longrightarrow> \<exists>y. f x = Inr y \<and> P x y"
  shows "\<exists>ys. mapR f xs = Inr ys \<and> list_all2 P xs ys"
  using assms
proof (induction xs)
  case (Cons x xs)
  then obtain y where "f x = Inr y" "P x y" by auto
  with Cons show ?case by auto
qed simp

lemma mapR_unit: "mapR f xs = Inr ys \<Longrightarrow> x \<in> set xs \<Longrightarrow> \<exists>y. f x = Inr y"
  by (induction xs arbitrary: ys) (auto simp: bindR_eq_Inr)

lemma mapInput_scalar: "\<not> is_obj v \<Longrightarrow> \<not> is_arr v \<Longrightarrow> mapInput f v = Inr v"
  by (cases v) simp_all

lemma matches_scalar:
  assumes "matchesSchema v s" "\<not> (has_type s ''object'' \<and> is_obj v)" "\<not> (has_type s ''array'' \<and> is_arr v)"
  shows "\<not> is_obj v \<and> \<not> is_arr v"
  using assms by (cases v) (auto dest: matchesSchema_JObj matchesSchema_JArr)

lemma template_resolves:
  assumes "length earlier \<le> length outputs"
    and "\<And>i. i < length earlier \<Longrightarrow> matchesSchema (outputs ! i) (st_output (earlier ! i)) \<and> hashable (outputs ! i)"
  shows "validateTemplate v schema earlier = Inr () \<Longrightarrow>
    \<exists>w. mapInput (resolve_output x outputs) v = Inr w \<and> matchesSchema w schema"
  using assms
proof (induction v schema earlier rule: validateTemplate.induct)
  case (1 v schema earlier)
  note val = 1(3)
  note ok = 1(4,5)
  consider (ref) "fld v ''$from'' \<noteq> None"
    | (obj) "fld v ''$from'' = None" "has_type schema ''object'' \<and> is_obj v"
    | (arr) "fld v ''$from'' = None" "\<not> (has_type schema ''object'' \<and> is_obj v)"
        "has_type schema ''array'' \<and> is_arr v"
    | (leaf) "fld v ''$from'' = None" "\<not> (has_type schema ''object'' \<and> is_obj v)"
        "\<not> (has_type schema ''array'' \<and> is_arr v)"
    by blast
  then show ?case
  proof cases
    case ref
    then obtain kvs where v: "v = JObj kvs" by (cases v) auto
    have "\<exists>u. mapInput (reference_fits earlier schema) v = Inr u"
      using val ref by (subst (asm) validateTemplate.simps) (auto simp: bindR_eq_Inr)
    then obtain i path where r: "reference kvs = Some (i, path)"
        "\<not> (\<exists>k \<in> set (map fst kvs). k \<in> set forbiddenKeys)"
        "\<exists>u. reference_fits earlier schema i path = Inr u"
      using ref v by (auto split: if_splits option.splits)
    then obtain c where c: "i < length earlier" "schemaAtPath (st_output (earlier ! i)) path = Inr c"
        "compatibleSchema c schema"
      by (auto simp: reference_fits_def bindR_eq_Inr split: if_splits)
    obtain w where w: "walk (outputs ! i) path = Inr w" "matchesSchema w c" "hashable w"
      using schemaAtPath_walk [OF c(2)] ok(2) [OF c(1)] by blast
    then have "resolve_output x outputs i path = Inr w"
      using c(1) ok(1) by (simp add: resolve_output_def hash_hashable [THEN iffD2])
    then have "mapInput (resolve_output x outputs) v = Inr w"
      using v r ref by simp
    with compatible_schema_sound [OF c(3) w(2)] show ?thesis by blast
  next
    case obj
    then obtain kvs where v: "v = JObj kvs" by (cases v) auto
    have req: "\<not> (\<exists>k \<in> set (required_of schema). \<not> own_key v k)"
      using val obj by (subst (asm) validateTemplate.simps) (auto split: if_splits)
    have each: "k \<notin> set forbiddenKeys \<and> (\<exists>s w. property_schema schema k = Some s \<and>
        mapInput (resolve_output x outputs) c = Inr w \<and> matchesSchema w s)" if kc: "(k, c) \<in> set kvs" for k c
    proof -
      have "\<exists>s. k \<notin> set forbiddenKeys \<and> property_schema schema k = Some s \<and> validateTemplate c s earlier = Inr ()"
        using val obj req v mapR_unit [OF _ kc]
        by (subst (asm) validateTemplate.simps) (fastforce simp: bindR_eq_Inr split: if_splits option.splits)
      then show ?thesis
        using 1(1) [OF _ obj(2) req _ refl _ _ _ ok] obj(1) kc v by auto
    qed
    let ?f = "\<lambda>(k, c). bindR (mapInput (resolve_output x outputs) c) (\<lambda>d. Inr (k, d))"
    have "\<exists>ys. mapR ?f kvs = Inr ys \<and> list_all2 (\<lambda>kc kw. fst kw = fst kc \<and>
        (\<exists>s. property_schema schema (fst kc) = Some s \<and> matchesSchema (snd kw) s)) kvs ys"
      by (rule mapR_total) (use each in force)
    then obtain ys where ys: "mapR ?f kvs = Inr ys" and l: "list_all2 (\<lambda>kc kw. fst kw = fst kc \<and>
        (\<exists>s. property_schema schema (fst kc) = Some s \<and> matchesSchema (snd kw) s)) kvs ys"
      by blast
    have keys: "map fst ys = map fst kvs"
      using l by (induction rule: list_all2_induct) auto
    have "mapInput (resolve_output x outputs) v = Inr (JObj ys)"
      using v obj(1) ys each by auto
    moreover have "matchesSchema (JObj ys) schema"
    proof (rule matchesSchema_JObjI)
      show "list_all (own_key (JObj ys)) (required_of schema)"
        using req unfolding v list_all_iff own_key_keys keys by blast
      show "\<exists>c. fld (properties_of schema) (fst kw) = Some c \<and> matchesSchema (snd kw) c" if "kw \<in> set ys" for kw
        using l that by (auto simp: list_all2_conv_all_nth in_set_conv_nth property_schema_def)
    qed (use obj in simp)
    ultimately show ?thesis by blast
  next
    case arr
    then obtain xs where v: "v = JArr xs" by (cases v) auto
    have len: "num_le_opt (nat_num (length xs)) (fld schema ''maxItems'')"
      using val arr v by (subst (asm) validateTemplate.simps) (auto split: if_splits)
    have "\<exists>w. mapInput (resolve_output x outputs) c = Inr w \<and> matchesSchema w (items_of schema)"
      if c: "c \<in> set xs" for c
    proof -
      have "validateTemplate c (items_of schema) earlier = Inr ()"
        using val arr v len mapR_unit [OF _ c]
        by (subst (asm) validateTemplate.simps) (fastforce simp: bindR_eq_Inr split: if_splits)
      then show ?thesis using 1(2) [OF _ arr(2,3) _ _ _ ok] arr(1) v len c by auto
    qed
    then obtain ys where ys: "mapR (mapInput (resolve_output x outputs)) xs = Inr ys"
        "list_all2 (\<lambda>c w. matchesSchema w (items_of schema)) xs ys"
      using mapR_total [of xs "mapInput (resolve_output x outputs)" "\<lambda>c w. matchesSchema w (items_of schema)"]
      by blast
    have "matchesSchema (JArr ys) schema"
      by (rule matchesSchema_JArrI)
        (use arr ys len in \<open>auto simp: list_all2_conv_all_nth in_set_conv_nth\<close>)
    with ys v show ?thesis by simp
  next
    case leaf
    then have "validateSchemaValue v schema (64 * 1024) = Inr ()"
      using val by (subst (asm) validateTemplate.simps) auto
    then have m: "matchesSchema v schema" by (auto simp: validateSchemaValue_def bindR_eq_Inr)
    with matches_scalar [OF m leaf(2,3)] mapInput_scalar show ?thesis by blast
  qed
qed


section \<open>What a plan guarantees\<close>

definition plan_step_ok ::
    "ext \<Rightarrow> service_definition list \<Rightarrow> service_definition list \<Rightarrow> raw_step \<Rightarrow> task_step \<Rightarrow> bool" where
  "plan_step_ok x services earlier r s \<longleftrightarrow>
     (\<exists>reg \<in> set services. to_lower (sd_hash reg) = to_lower (rs_serviceHash r) \<and>
        validateServiceDefinition x (definition_json reg) = Inr (ts_definition s)) \<and>
     ts_serviceHash s = sd_hash (ts_definition s) \<and> ts_input s = rs_input r \<and>
     validateTemplate (ts_input s) (st_input (ts_definition s)) earlier = Inr ()"

lemma plan_steps_ok:
  assumes "plan_steps x services budget defs tot rs = Inr (steps, t)" "tot \<le> budget"
  shows "length steps = length rs \<and> t = tot + (\<Sum>s \<leftarrow> steps. step_cost (ts_definition s)) \<and> t \<le> budget \<and>
    (\<forall>i < length steps. plan_step_ok x services (defs @ map ts_definition (take i steps)) (rs ! i) (steps ! i))"
  using assms
proof (induction rs arbitrary: defs tot steps)
  case (Cons r rs)
  obtain reg d u rest where reg: "registered services (rs_serviceHash r) = Some reg"
    and d: "validateServiceDefinition x (definition_json reg) = Inr d"
    and u: "validateTemplate (rs_input r) (st_input d) defs = Inr u"
    and b: "tot + step_cost d \<le> budget"
    and rest: "plan_steps x services budget (defs @ [d]) (tot + step_cost d) rs = Inr (rest, t)"
    and steps: "steps = \<lparr>ts_serviceHash = sd_hash d, ts_definition = d, ts_input = rs_input r\<rparr> # rest"
    using Cons.prems(1) by (auto simp: bindR_eq_Inr Let_def split: if_splits)
  note IH = Cons.IH [OF rest b]
  have "reg \<in> set services \<and> to_lower (sd_hash reg) = to_lower (rs_serviceHash r)"
    using reg by (auto simp: registered_def find_Some_iff)
  then have "plan_step_ok x services defs r (hd steps)"
    using d u by (auto simp: plan_step_ok_def steps)
  then have "plan_step_ok x services (defs @ map ts_definition (take i steps)) ((r # rs) ! i) (steps ! i)"
    if i: "i < length steps" for i
    using IH i by (cases i) (simp_all add: steps)
  with IH show ?case by (auto simp: steps)
qed simp

lemma parsed_step_hashable:
  assumes "rawPlan v = Some (su, raw)" "hashable v" "r \<in> set raw"
  shows "hashable (rs_input r)"
proof -
  obtain arr where arr: "fld v ''steps'' = Some arr" "is_arr arr"
      "those (map parse_raw_step (elems arr)) = Some raw"
    using assms(1) by (auto simp: rawPlan_def farr_def bind_eq_Some_conv split: if_splits)
  obtain kvs where v: "v = JObj kvs" using arr(1) by (cases v) auto
  obtain es where es: "arr = JArr es" using arr(2) by (cases arr) auto
  have "those (map f ys) = Some zs \<Longrightarrow> z \<in> set zs \<Longrightarrow> \<exists>y \<in> set ys. f y = Some z" for f :: "json \<Rightarrow> raw_step option" and ys zs z
    by (induction ys arbitrary: zs) (auto split: option.splits)
  then obtain e where e: "e \<in> set es" "parse_raw_step e = Some r"
    using arr(3) assms(3) es by fastforce
  obtain ekvs where ekvs: "e = JObj ekvs" "map_of ekvs ''input'' = Some (rs_input r)"
    using e(2) by (cases e) (auto simp: parse_raw_step_def bind_eq_Some_conv split: if_splits)
  have "hashable arr" using assms(2) arr(1) v by (auto intro: hashable_member(2) map_of_SomeD)
  then have "hashable e" using es e(1) by (auto intro: hashable_member(1))
  then show ?thesis using ekvs by (auto intro: hashable_member(2) map_of_SomeD)
qed

lemma createTaskPlan_Inr:
  assumes "createTaskPlan x v services b = Inr p"
  shows "\<exists>raw. rawPlan v = Some (tp_summary p, raw) \<and> hashable v \<and> atomic_ok b \<and>
    plan_steps x services (dec_int b) [] 0 raw = Inr (tp_steps p, \<Sum>s \<leftarrow> tp_steps p. step_cost (ts_definition s)) \<and>
    tp_total p = int_dec (\<Sum>s \<leftarrow> tp_steps p. step_cost (ts_definition s))"
proof -
  obtain su raw h steps t where p: "atomic_ok b" "rawPlan v = Some (su, raw)" "canonicalJsonHash x v = Inr h"
      "plan_steps x services (dec_int b) [] 0 raw = Inr (steps, t)"
      "p = \<lparr>tp_summary = su, tp_steps = steps, tp_total = int_dec t\<rparr>"
    using assms by (auto simp: createTaskPlan_def bindR_eq_Inr)
  have "t = (\<Sum>s \<leftarrow> steps. step_cost (ts_definition s))"
    using plan_steps_ok [OF p(4)] by (simp add: dec_int_def)
  with p show ?thesis by (auto simp: hash_hashable)
qed

text \<open>
  C22. A plan the builder returns has one to five steps, each naming a registered service
  whose definition validates, with a template that was checked against its input schema and the
  definitions of the earlier steps; its total is the exact sum of quantity times price over the
  steps and stays within the task's budget.
\<close>

theorem plan_within_budget:
  assumes "createTaskPlan x v services b = Inr p"
  shows "1 \<le> length (tp_steps p) \<and> length (tp_steps p) \<le> 5 \<and>
    tp_total p = int_dec (\<Sum>s \<leftarrow> tp_steps p. step_cost (ts_definition s)) \<and>
    (\<Sum>s \<leftarrow> tp_steps p. step_cost (ts_definition s)) \<le> dec_int b \<and> dec_int b < 2 ^ 256 \<and>
    (\<forall>i < length (tp_steps p). \<exists>reg \<in> set services.
       validateServiceDefinition x (definition_json reg) = Inr (ts_definition (tp_steps p ! i)) \<and>
       validateTemplate (ts_input (tp_steps p ! i)) (st_input (ts_definition (tp_steps p ! i)))
         (map ts_definition (take i (tp_steps p))) = Inr ())"
proof -
  obtain raw where raw: "rawPlan v = Some (tp_summary p, raw)" "atomic_ok b"
      "plan_steps x services (dec_int b) [] 0 raw = Inr (tp_steps p, \<Sum>s \<leftarrow> tp_steps p. step_cost (ts_definition s))"
      "tp_total p = int_dec (\<Sum>s \<leftarrow> tp_steps p. step_cost (ts_definition s))"
    using createTaskPlan_Inr [OF assms] by blast
  have "1 \<le> length raw \<and> length raw \<le> 5"
    using raw(1) by (auto simp: rawPlan_def bind_eq_Some_conv split: if_splits)
  moreover have "dec_int b < 2 ^ 256" using raw(2) by (simp add: atomic_ok_def)
  ultimately show ?thesis
    using plan_steps_ok [OF raw(3)] raw(4) by (auto simp: dec_int_def plan_step_ok_def)
qed

text \<open>
  C21. A checked plan cannot get stuck on its references: at every step, when the outputs of
  the earlier steps were accepted against their output schemas, the template of the step
  resolves, and the resolved input matches the input schema of the service that will be paid.
\<close>

theorem planned_inputs_resolve:
  assumes "createTaskPlan x v services b = Inr p"
    and "i < length (tp_steps p)" "i \<le> length outputs"
    and "\<forall>j < i. validateSchemaValue (outputs ! j) (st_output (ts_definition (tp_steps p ! j))) 65536 = Inr ()"
  shows "\<exists>w. resolveTaskInput x (ts_input (tp_steps p ! i)) outputs = Inr w \<and>
    matchesSchema w (st_input (ts_definition (tp_steps p ! i)))"
proof -
  obtain raw where raw: "rawPlan v = Some (tp_summary p, raw)" "hashable v"
      "plan_steps x services (dec_int b) [] 0 raw = Inr (tp_steps p, \<Sum>s \<leftarrow> tp_steps p. step_cost (ts_definition s))"
    using createTaskPlan_Inr [OF assms(1)] by blast
  have s: "length (tp_steps p) = length raw" "plan_step_ok x services (map ts_definition (take i (tp_steps p)))
      (raw ! i) (tp_steps p ! i)"
    using plan_steps_ok [OF raw(3)] assms(2) by (auto simp: dec_int_def)
  have "hashable (ts_input (tp_steps p ! i))"
    using parsed_step_hashable [OF raw(1,2), of "raw ! i"] s assms(2) by (simp add: plan_step_ok_def)
  then have h: "canonicalJsonHash x (ts_input (tp_steps p ! i)) =
      Inr (text_hash x (canonicalJson (ts_input (tp_steps p ! i))))"
    by (simp add: hash_hashable)
  have o: "matchesSchema (outputs ! j) (st_output (map ts_definition (take i (tp_steps p)) ! j)) \<and>
      hashable (outputs ! j)" if "j < length (map ts_definition (take i (tp_steps p)))" for j
    using that assms(2,4)
    by (auto simp: validateSchemaValue_def assertJson_def hashable_def bindR_eq_Inr)
  have "length (map ts_definition (take i (tp_steps p))) \<le> length outputs"
    using assms(2,3) by simp
  from template_resolves [OF this o] s(2) h show ?thesis
    by (auto simp: resolveTaskInput_def plan_step_ok_def)
qed

section \<open>Order identities\<close>

lemma order_text_inj:
  assumes "length t = 36" "length t' = 36" "length h = 66" "length h' = 66"
    and "0 \<le> i" "0 \<le> i'" "order_text t h i = order_text t' h' i'"
  shows "to_lower t = to_lower t' \<and> h = h' \<and> i = i'"
proof -
  have "to_lower t @ '':'' @ h @ '':'' @ int_dec i = to_lower t' @ '':'' @ h' @ '':'' @ int_dec i'"
    using assms(7) by (simp add: order_text_def)
  then have "to_lower t = to_lower t' \<and> h @ '':'' @ int_dec i = h' @ '':'' @ int_dec i'"
    using assms(1,2) by (subst (asm) append_eq_append_conv) auto
  moreover from this have "h = h' \<and> int_dec i = int_dec i'"
    using assms(3,4) by (subst (asm) append_eq_append_conv) auto
  ultimately show ?thesis using assms(5,6) by (auto simp: int_dec_def)
qed

text \<open>
  Two task steps have the same order id only when they are the same step of the same
  plan of the same task, or the two identity texts are a collision of the hash.
\<close>

theorem step_order_ids_distinct:
  assumes "taskStepOrderId x t h i = Inr a" "taskStepOrderId x t' h' i' = Inr a"
  shows "(to_lower t = to_lower t' \<and> h = h' \<and> i = i') \<or>
    (order_text t h i \<noteq> order_text t' h' i' \<and>
     text_hash x (order_text t h i) = text_hash x (order_text t' h' i'))"
  using assms order_text_inj [of t t' h h' i i']
  by (auto simp: taskStepOrderId_def dest!: is_uuid_length lower_hex_n_length split: if_splits)

section \<open>Two services and a plan\<close>

text \<open>
  A quoting service whose output has a required \<open>amount\<close>, a working service that takes an
  amount, and the plan that pays for the work with the quoted amount.
\<close>

definition sample_service_of :: "nat \<Rightarrow> json \<Rightarrow> json \<Rightarrow> service_definition" where
  "sample_service_of n inp out =
     with_hash (sample_terms\<lparr>st_seller := sample_address n, st_input := inp, st_output := out\<rparr>)
       (''0x'' @ replicate 40 (CHR ''1'') @ replicate 24 (hex_digit n))"

definition sample_digit :: "nat \<Rightarrow> bool" where
  "sample_digit n \<longleftrightarrow> is_hex (hex_digit n) \<and> lower_char (hex_digit n) = hex_digit n"

lemma sample_service_valid:
  assumes n: "sample_digit n" and sch: "isSchema 0 inp" "isSchema 0 out"
  shows "validateServiceDefinition (sample_ext m l) (definition_json (sample_service_of n inp out)) =
    Inr (sample_service_of n inp out)"
proof -
  let ?t = "sample_terms\<lparr>st_seller := sample_address n, st_input := inp, st_output := out\<rparr>"
  let ?h = "''0x'' @ replicate 40 (CHR ''1'') @ replicate 24 (hex_digit n)"
  have c: "lower_char (CHR ''0'') = CHR ''0''" "lower_char (CHR ''x'') = CHR ''x''"
    "lower_char (CHR ''1'') = CHR ''1''" "is_hex (CHR ''1'')"
    by code_simp+
  have hd: "hex_digit (Suc 0) = CHR ''1''" by code_simp
  have a: "hex_n 40 (sample_address n)" "to_lower (sample_address n) = sample_address n"
    using n c by (simp_all add: sample_address_def hex_n_def sample_digit_def to_lower_def list_all_iff)
  have h: "hex_n 64 ?h" "to_lower ?h = ?h"
    using n c by (simp_all add: hex_n_def sample_digit_def to_lower_def list_all_iff)
  have "p_address (sample_ext m l) (JStr (sample_address n)) = Some (sample_address n)"
    using a by (simp add: p_address_def sample_ext_def check_def)
  then have wf: "wf_terms (sample_ext m l) ?t"
    using sample_wf(1) [of m l] sch by (simp add: wf_terms_def)
  have "encode_terms (sample_ext m l) (hashed_terms (sample_ext m l) ?t) =
      Some (sample_address 1 @ drop 2 (sample_address n))"
    by (simp add: sample_ext_def hashed_terms_def sample_terms_def sample_service_def terms_of_def service_terms.defs)
  moreover have "keccak256 (sample_ext m l) (sample_address 1 @ drop 2 (sample_address n)) = ?h"
    using hd by (simp add: sample_ext_def sample_address_def)
  ultimately have sh: "service_hash (sample_ext m l) ?t = Inr ?h"
    by (simp add: service_hash_def)
  have f: "terms_of (sample_service_of n inp out) = ?t" "sd_hash (sample_service_of n inp out) = ?h"
    by (simp_all add: sample_service_of_def)
  have p: "parse_definition (sample_ext m l) (definition_json (sample_service_of n inp out)) =
      Some (sample_service_of n inp out)"
    using parse_definition_json [OF wf, of ?h] h by (simp add: sample_service_of_def p_hex32_def check_def)
  have "st_unit ?t \<in> set (normalizedUnits (st_category ?t))" "href (sample_url (st_endpoint ?t)) = st_endpoint ?t"
    "new_URL (sample_ext m l) (st_endpoint ?t) = Some (sample_url (st_endpoint ?t))"
    by (simp_all add: sample_terms_def sample_service_def terms_of_def service_terms.defs sample_ext_def
        sample_url_def)
  then have "st_unit (sample_service_of n inp out) \<in> set (normalizedUnits (st_category (sample_service_of n inp out)))"
    "\<exists>u. new_URL (sample_ext m l) (st_endpoint (sample_service_of n inp out)) = Some u \<and>
        href u = st_endpoint (sample_service_of n inp out)"
    by (auto simp: sample_service_of_def with_hash_def service_terms.defs)
  then show ?thesis
    using definition_accepted_iff [OF sample_lower_stable p] sh h f by simp
qed

definition amount_schema :: json where
  "amount_schema = JObj [(''type'', JStr ''number''), (''minimum'', JNum (Dec 0 0))]"

definition null_schema :: json where
  "null_schema = JObj [(''type'', JStr ''null'')]"

definition quote_service :: service_definition where
  "quote_service = sample_service_of 3 null_schema sample_schema"

definition work_service :: service_definition where
  "work_service = sample_service_of 4 amount_schema null_schema"

definition sample_template :: json where
  "sample_template = JObj [(''$from'', JNum (Dec 0 0)), (''path'', JArr [JStr ''amount''])]"

definition sample_plan_json :: json where
  "sample_plan_json = JObj [(''summary'', JStr ''quote, then work''),
     (''steps'', JArr [
        JObj [(''serviceHash'', JStr (sd_hash quote_service)), (''input'', JNull)],
        JObj [(''serviceHash'', JStr (sd_hash work_service)), (''input'', sample_template)]])]"

definition sample_plan :: task_plan where
  "sample_plan = \<lparr>tp_summary = ''quote, then work'',
     tp_steps = [\<lparr>ts_serviceHash = sd_hash quote_service, ts_definition = quote_service, ts_input = JNull\<rparr>,
       \<lparr>ts_serviceHash = sd_hash work_service, ts_definition = work_service, ts_input = sample_template\<rparr>],
     tp_total = ''20''\<rparr>"

lemma sample_services_valid:
  "validateServiceDefinition (sample_ext m l) (definition_json quote_service) = Inr quote_service"
  "validateServiceDefinition (sample_ext m l) (definition_json work_service) = Inr work_service"
proof -
  have d: "sample_digit 3" "sample_digit 4" "isSchema 0 null_schema" "isSchema 0 sample_schema"
    "isSchema 0 amount_schema"
    by code_simp+
  show "validateServiceDefinition (sample_ext m l) (definition_json quote_service) = Inr quote_service"
    "validateServiceDefinition (sample_ext m l) (definition_json work_service) = Inr work_service"
    unfolding quote_service_def work_service_def
    by (rule sample_service_valid [OF d(1,3,4)], rule sample_service_valid [OF d(2,5,3)])
qed

lemma sample_service_fields:
  "st_input quote_service = null_schema" "st_output quote_service = sample_schema"
  "st_input work_service = amount_schema" "st_output work_service = null_schema"
  "step_cost quote_service = 10" "step_cost work_service = 10"
proof -
  have q: "dec_int ''2'' * dec_int ''5'' = 10" by code_simp
  show "step_cost quote_service = 10" "step_cost work_service = 10"
    using q by (simp_all add: step_cost_def quote_service_def work_service_def sample_service_of_def with_hash_def
        service_terms.defs sample_terms_def sample_service_def terms_of_def)
qed (simp_all add: quote_service_def work_service_def sample_service_of_def with_hash_def service_terms.defs)

lemma sample_hashes:
  "to_lower (sd_hash quote_service) = sd_hash quote_service" "hex_n 64 (sd_hash quote_service)"
  "to_lower (sd_hash work_service) = sd_hash work_service" "hex_n 64 (sd_hash work_service)"
  "sd_hash quote_service \<noteq> sd_hash work_service"
proof -
  have h: "sd_hash quote_service = ''0x'' @ replicate 40 (CHR ''1'') @ replicate 24 (hex_digit 3)"
    "sd_hash work_service = ''0x'' @ replicate 40 (CHR ''1'') @ replicate 24 (hex_digit 4)"
    by (simp_all add: quote_service_def work_service_def sample_service_of_def)
  have d: "hex_digit 3 \<noteq> hex_digit 4" by code_simp
  show "to_lower (sd_hash quote_service) = sd_hash quote_service" "hex_n 64 (sd_hash quote_service)"
    "to_lower (sd_hash work_service) = sd_hash work_service" "hex_n 64 (sd_hash work_service)"
    unfolding h by (simp_all add: to_lower_def hex_n_def list_all_iff is_hex_digit lower_hex_digit sample_chars(1-7))
  show "sd_hash quote_service \<noteq> sd_hash work_service"
    unfolding h using d by simp
qed

lemma schema_ok: "isSchema 0 (JObj [(''type'', JStr ''null'')])"
  by code_simp

lemma sample_plan_created:
  "createTaskPlan (sample_ext m l) sample_plan_json [quote_service, work_service] ''50'' = Inr sample_plan"
proof -
  have b: "atomic_ok ''50''" "dec_int ''50'' = 50" "int_dec 20 = ''20''" by code_simp+
  have raw: "rawPlan sample_plan_json = Some (''quote, then work'',
      [\<lparr>rs_serviceHash = sd_hash quote_service, rs_input = JNull\<rparr>,
       \<lparr>rs_serviceHash = sd_hash work_service, rs_input = sample_template\<rparr>])"
  proof -
    have "trim ''quote, then work'' = ''quote, then work''" by code_simp
    then show ?thesis
      using sample_hashes(2,4)
      by (simp add: rawPlan_def sample_plan_json_def strict_def keys_def fstr_def farr_def check_def
          parse_raw_step_def)
  qed
  have "visit 0 sample_plan_json = Inr () \<and> utf8_length (canonicalJson sample_plan_json) \<le> 1000"
    by code_simp
  then have "hashable sample_plan_json" by (simp add: hashable_def)
  then have h: "canonicalJsonHash (sample_ext m l) sample_plan_json =
      Inr (text_hash (sample_ext m l) (canonicalJson sample_plan_json))"
    by (simp add: hash_hashable)
  have t: "validateTemplate JNull null_schema [] = Inr ()" 
      "validateTemplate sample_template amount_schema [quote_service] = Inr ()"
  proof -
    have n: "validateSchemaValue JNull null_schema 65536 = Inr ()"
      using schema_ok sample_paid_parts(6)
      by (simp add: validateSchemaValue_def assertJson_def visit.simps null_schema_def has_type_def
          del: canonicalJson.simps)
    show "validateTemplate JNull null_schema [] = Inr ()"
      using n by (simp add: validateTemplate.simps)
    have r: "reference [(''$from'', JNum (Dec 0 0)), (''path'', JArr [JStr ''amount''])] = Some (0, [JStr ''amount''])"
      by code_simp
    have c: "schemaAtPath sample_schema [JStr ''amount''] = Inr (JObj [(''type'', JStr ''integer''), (''minimum'', JNum (Dec 1 0))])"
      "compatibleSchema (JObj [(''type'', JStr ''integer''), (''minimum'', JNum (Dec 1 0))]) amount_schema"
      by code_simp+
    have "mapInput (reference_fits [quote_service] amount_schema) sample_template = Inr JNull"
      by (simp add: sample_template_def r reference_fits_def sample_service_fields c forbiddenKeys_def
          del: schemaAtPath.simps)
    then show "validateTemplate sample_template amount_schema [quote_service] = Inr ()"
      by (subst validateTemplate.simps) (simp add: sample_template_def)
  qed
  have r: "registered [quote_service, work_service] (sd_hash quote_service) = Some quote_service"
    "registered [quote_service, work_service] (sd_hash work_service) = Some work_service"
    using sample_hashes by (simp_all add: registered_def)
  show ?thesis
    by (simp add: createTaskPlan_def b raw h r sample_services_valid sample_service_fields t)
      (simp add: sample_plan_def b)
qed


lemma plan_within_budget_witness:
  "(\<Sum>s \<leftarrow> tp_steps sample_plan. step_cost (ts_definition s)) \<le> dec_int ''50'' \<and>
   tp_total sample_plan = ''20''"
  using plan_within_budget [OF sample_plan_created [of sample_market sample_ledger]]
  by (simp add: sample_plan_def)

lemma planned_inputs_resolve_witness:
  "\<exists>w. resolveTaskInput (sample_ext sample_market sample_ledger) sample_template
     [JObj [(''amount'', JNum (Dec 7 0))]] = Inr w \<and> matchesSchema w amount_schema"
proof -
  have m: "validateSchemaValue (JObj [(''amount'', JNum (Dec 7 0))]) sample_schema 65536 = Inr ()"
  proof -
    have "visit 0 (JObj [(''amount'', JNum (Dec 7 0))]) = Inr () \<and>
        utf8_length (canonicalJson (JObj [(''amount'', JNum (Dec 7 0))])) \<le> 100 \<and>
        isSchema 0 sample_schema \<and> matchesSchema (JObj [(''amount'', JNum (Dec 7 0))]) sample_schema"
      by code_simp
    then show ?thesis
      by (simp add: validateSchemaValue_def assertJson_def del: canonicalJson.simps)
  qed
  have "1 < length (tp_steps sample_plan)" "1 \<le> length [JObj [(''amount'', JNum (Dec 7 0))]]"
    "\<forall>j < 1. validateSchemaValue ([JObj [(''amount'', JNum (Dec 7 0))]] ! j)
       (st_output (ts_definition (tp_steps sample_plan ! j))) 65536 = Inr ()"
    using m by (simp_all add: sample_plan_def sample_service_fields)
  from planned_inputs_resolve [OF sample_plan_created [of sample_market sample_ledger] this]
  show ?thesis by (simp add: sample_plan_def sample_service_fields)
qed

lemma step_order_ids_distinct_witness:
  "\<exists>a. taskStepOrderId plain_ext ''0123abcd-0123-4123-8123-0123456789ab'' (sample_hash 1) 2 = Inr a \<and>
     taskStepOrderId plain_ext ''0123ABCD-0123-4123-8123-0123456789ab'' (sample_hash 1) 2 = Inr a"
proof -
  let ?t = "''0123abcd-0123-4123-8123-0123456789ab''" and ?u = "''0123ABCD-0123-4123-8123-0123456789ab''"
  let ?a = "text_hash plain_ext (order_text ?t (sample_hash 1) 2)"
  have ok: "is_uuid ?t" "is_uuid ?u" "lower_hex_n 64 (sample_hash 1)" "to_lower ?t = to_lower ?u" by code_simp+
  have "order_text ?u (sample_hash 1) 2 = order_text ?t (sample_hash 1) 2"
    using ok(4) by (simp only: order_text_def)
  then have "taskStepOrderId plain_ext ?t (sample_hash 1) 2 = Inr ?a"
    "taskStepOrderId plain_ext ?u (sample_hash 1) 2 = Inr ?a"
    using ok by (simp_all only: taskStepOrderId_def) simp_all
  with step_order_ids_distinct [OF this] show ?thesis by blast
qed

end
