(* ===== verification/Machine.thy ===== *)
theory Machine
  imports ServiceTerms
begin

text \<open>
  Programs that crash. The purchaser of \<open>src/src/lib/economy/executor.ts\<close> and the Circle
  operations of \<open>src/scripts/economy-circle.ts\<close> keep their promises across process
  deaths by what they write to disk before they act. The machine holds that disk: the journal
  of each order, the allowance reservation, the executor's lock, the operation journal with its
  locks, and everything outside the process (chain, Circle, platform, clock, randomness) as one
  component \<open>outside\<close> that calls may read and change.

  A program is an async function of the source: it returns, throws, or dies with the process.
  Every file operation and every call to the outside first spends one unit of \<open>budget\<close>;
  when none is left the process dies there, and neither \<open>catch\<close> nor \<open>finally\<close> runs.
  A statement for all budgets is a statement for a crash between any two effects. Writing a file
  is one effect: the source writes a temporary file, syncs it and renames it.

  \<open>trace\<close> records the effects a statement about order is about; no program reads it.
\<close>

section \<open>Machines and programs\<close>

datatype 'a disk_file = Absent | Corrupt | Stored 'a

datatype 'a outcome = Ret 'a | Throw js_error | Died

record op_intent =
  oi_kind :: string
  oi_args :: "string list"

datatype op_status = Submitting | Uncertain | Submitted | Failed | OtherStatus string

record operation =
  op_version :: int
  op_name :: string
  op_intent :: op_intent
  op_intentHash :: string
  op_key :: string
  op_created :: string
  op_status :: op_status
  op_result :: "(string \<times> json) list option"

record ('s, 'c) machine =
  journal :: "string \<Rightarrow> 's disk_file"
  reservation :: "(string \<times> string) disk_file"
  locked :: bool
  ops :: "string \<Rightarrow> operation disk_file"
  op_locks :: "string set"
  outside :: 'c
  submits :: "(string \<times> op_intent) list"
  budget :: nat

type_synonym ('s, 'c, 'a) prog = "('s, 'c) machine \<Rightarrow> 'a outcome \<times> ('s, 'c) machine"

definition retP :: "'a \<Rightarrow> ('s, 'c, 'a) prog" where
  "retP a m = (Ret a, m)"

definition throwP :: "js_error \<Rightarrow> ('s, 'c, 'a) prog" where
  "throwP e m = (Throw e, m)"

definition bindP :: "('s, 'c, 'a) prog \<Rightarrow> ('a \<Rightarrow> ('s, 'c, 'b) prog) \<Rightarrow> ('s, 'c, 'b) prog" where
  "bindP p f m = (case p m of
     (Ret a, m') \<Rightarrow> f a m' | (Throw e, m') \<Rightarrow> (Throw e, m') | (Died, m') \<Rightarrow> (Died, m'))"

text \<open>\<open>try { p } catch (e) { h }\<close> and \<open>try { p } finally { c }\<close>.\<close>

definition catchP :: "('s, 'c, 'a) prog \<Rightarrow> (js_error \<Rightarrow> ('s, 'c, 'a) prog) \<Rightarrow> ('s, 'c, 'a) prog" where
  "catchP p h m = (case p m of (Throw e, m') \<Rightarrow> h e m' | r \<Rightarrow> r)"

definition finallyP :: "('s, 'c, 'a) prog \<Rightarrow> ('s, 'c, unit) prog \<Rightarrow> ('s, 'c, 'a) prog" where
  "finallyP p c m = (case p m of
     (Died, m') \<Rightarrow> (Died, m')
   | (r, m') \<Rightarrow> (case c m' of
        (Ret _, m'') \<Rightarrow> (r, m'') | (Throw e, m'') \<Rightarrow> (Throw e, m'') | (Died, m'') \<Rightarrow> (Died, m'')))"

definition liftP :: "'a res \<Rightarrow> ('s, 'c, 'a) prog" where
  "liftP r = (case r of Inl e \<Rightarrow> throwP e | Inr a \<Rightarrow> retP a)"

definition needP :: "bool \<Rightarrow> js_error \<Rightarrow> ('s, 'c, unit) prog" where
  "needP b e = (if b then retP () else throwP e)"

text \<open>One effect: the process dies when the budget is spent.\<close>

definition effect :: "(('s, 'c) machine \<Rightarrow> 'a \<times> ('s, 'c) machine) \<Rightarrow> ('s, 'c, 'a) prog" where
  "effect f m = (case budget m of
     0 \<Rightarrow> (Died, m)
   | Suc n \<Rightarrow> (let (a, m') = f (m\<lparr>budget := n\<rparr>) in (Ret a, m')))"

text \<open>A call to the outside: it may change it, and it may fail after it did.\<close>

definition callP :: "('c \<Rightarrow> 'a res \<times> 'c) \<Rightarrow> ('s, 'c, 'a) prog" where
  "callP g = bindP (effect (\<lambda>m. let (r, w) = g (outside m) in (r, m\<lparr>outside := w\<rparr>))) liftP"

section \<open>Files\<close>

text \<open>\<open>read\<close> of \<open>executor.ts\<close>: a missing file is \<open>undefined\<close>, a damaged one throws.\<close>

definition file_opt :: "js_error \<Rightarrow> 'a disk_file \<Rightarrow> 'a option res" where
  "file_opt e f = (case f of Absent \<Rightarrow> Inr None | Corrupt \<Rightarrow> Inl e | Stored a \<Rightarrow> Inr (Some a))"

definition readJournal :: "js_error \<Rightarrow> string \<Rightarrow> ('s, 'c, 's option) prog" where
  "readJournal e k = bindP (effect (\<lambda>m. (journal m k, m))) (\<lambda>f. liftP (file_opt e f))"

definition saveJournal :: "string \<Rightarrow> 's \<Rightarrow> ('s, 'c, unit) prog" where
  "saveJournal k s = effect (\<lambda>m. ((), m\<lparr>journal := (journal m)(k := Stored s)\<rparr>))"

definition readReservation :: "js_error \<Rightarrow> ('s, 'c, (string \<times> string) option) prog" where
  "readReservation e = bindP (effect (\<lambda>m. (reservation m, m))) (\<lambda>f. liftP (file_opt e f))"

definition saveReservation :: "string \<Rightarrow> string \<Rightarrow> ('s, 'c, unit) prog" where
  "saveReservation k p = effect (\<lambda>m. ((), m\<lparr>reservation := Stored (k, p)\<rparr>))"

definition removeReservation :: "('s, 'c, unit) prog" where
  "removeReservation = effect (\<lambda>m. ((), m\<lparr>reservation := Absent\<rparr>))"

text \<open>\<open>open(path, 'wx')\<close> fails when the file exists.\<close>

definition takeLock :: "js_error \<Rightarrow> ('s, 'c, unit) prog" where
  "takeLock e = bindP (effect (\<lambda>m. (locked m, m\<lparr>locked := True\<rparr>)))
     (\<lambda>held. if held then throwP e else retP ())"

definition dropLock :: "('s, 'c, unit) prog" where
  "dropLock = effect (\<lambda>m. ((), m\<lparr>locked := False\<rparr>))"

definition takeOpLock :: "js_error \<Rightarrow> string \<Rightarrow> ('s, 'c, unit) prog" where
  "takeOpLock e n = bindP (effect (\<lambda>m. (n \<in> op_locks m, m\<lparr>op_locks := insert n (op_locks m)\<rparr>)))
     (\<lambda>held. if held then throwP e else retP ())"

definition dropOpLock :: "string \<Rightarrow> ('s, 'c, unit) prog" where
  "dropOpLock n = effect (\<lambda>m. ((), m\<lparr>op_locks := op_locks m - {n}\<rparr>))"

definition readOp :: "string \<Rightarrow> ('s, 'c, operation option) prog" where
  "readOp n = bindP (effect (\<lambda>m. (ops m n, m))) (\<lambda>f. liftP (file_opt (Thrown ''SyntaxError'') f))"

definition saveOp :: "string \<Rightarrow> operation \<Rightarrow> ('s, 'c, unit) prog" where
  "saveOp n op = effect (\<lambda>m. ((), m\<lparr>ops := (ops m)(n := Stored op)\<rparr>))"

text \<open>The ghost of handing an intent to Circle; no budget, it happens with the call it marks.\<close>

definition noteSubmit :: "string \<Rightarrow> op_intent \<Rightarrow> ('s, 'c, unit) prog" where
  "noteSubmit n i m = (Ret (), m\<lparr>submits := submits m @ [(n, i)]\<rparr>)"

definition submits_of :: "string \<Rightarrow> ('s, 'c) machine \<Rightarrow> op_intent list" where
  "submits_of n m = map snd (filter (\<lambda>s. fst s = n) (submits m))"

section \<open>Triples\<close>

text \<open>
  \<open>triple I E P p Q\<close>: from a machine with \<open>P\<close>, a return leads to \<open>Q\<close>, a throw to
  \<open>E\<close>, and a death to \<open>I\<close>.
\<close>

definition triple ::
    "(('s, 'c) machine \<Rightarrow> bool) \<Rightarrow> (('s, 'c) machine \<Rightarrow> bool) \<Rightarrow> (('s, 'c) machine \<Rightarrow> bool) \<Rightarrow>
     ('s, 'c, 'a) prog \<Rightarrow> ('a \<Rightarrow> ('s, 'c) machine \<Rightarrow> bool) \<Rightarrow> bool" where
  "triple I E P p Q \<longleftrightarrow>
     (\<forall>m. P m \<longrightarrow> (case p m of (Ret a, m') \<Rightarrow> Q a m' | (Throw e, m') \<Rightarrow> E m' | (Died, m') \<Rightarrow> I m'))"

named_theorems triple_rules \<open>rules for programs\<close>

lemma tripleD:
  assumes "triple I E P p Q" "P m"
  shows "p m = (Ret a, m') \<Longrightarrow> Q a m'" "p m = (Throw e, m') \<Longrightarrow> E m'" "p m = (Died, m') \<Longrightarrow> I m'"
  using assms by (auto simp: triple_def split: prod.splits outcome.splits)

lemma triple_conseq:
  assumes "triple I' E' P' p Q'" "\<And>m. P m \<Longrightarrow> P' m" "\<And>a m. Q' a m \<Longrightarrow> Q a m"
    "\<And>m. I' m \<Longrightarrow> I m" "\<And>m. E' m \<Longrightarrow> E m"
  shows "triple I E P p Q"
  using assms unfolding triple_def by (fastforce split: prod.splits outcome.splits)

lemma triple_pre: "triple I E P' p Q \<Longrightarrow> (\<And>m. P m \<Longrightarrow> P' m) \<Longrightarrow> triple I E P p Q"
  by (rule triple_conseq)

lemma triple_post: "triple I E P p Q' \<Longrightarrow> (\<And>a m. Q' a m \<Longrightarrow> Q a m) \<Longrightarrow> triple I E P p Q"
  by (rule triple_conseq)

lemma triple_ret: "(\<And>m. P m \<Longrightarrow> Q a m) \<Longrightarrow> triple I E P (retP a) Q"
  by (simp add: triple_def retP_def)

lemma triple_throw: "(\<And>m. P m \<Longrightarrow> E m) \<Longrightarrow> triple I E P (throwP e) Q"
  by (simp add: triple_def throwP_def)

lemma triple_bind:
  assumes "triple I E P p R" "\<And>a. triple I E (R a) (f a) Q"
  shows "triple I E P (bindP p f) Q"
  using assms unfolding triple_def bindP_def by (fastforce split: prod.splits outcome.splits)

lemma triple_catch:
  assumes "triple I E' P p Q" "\<And>e. triple I E E' (h e) Q"
  shows "triple I E P (catchP p h) Q"
  using assms unfolding triple_def catchP_def by (fastforce split: prod.splits outcome.splits)

lemma triple_finally:
  assumes "triple I E' P p Q'" "\<And>a. triple I E (Q' a) c (\<lambda>_. Q a)" "triple I E E' c (\<lambda>_. E)"
  shows "triple I E P (finallyP p c) Q"
  using assms unfolding triple_def finallyP_def by (fastforce split: prod.splits outcome.splits)

lemma triple_lift:
  "(\<And>a m. r = Inr a \<Longrightarrow> P m \<Longrightarrow> Q a m) \<Longrightarrow> (\<And>e m. r = Inl e \<Longrightarrow> P m \<Longrightarrow> E m) \<Longrightarrow> triple I E P (liftP r) Q"
  by (cases r) (auto simp: liftP_def intro: triple_ret triple_throw)

lemma triple_need:
  "(\<And>m. b \<Longrightarrow> P m \<Longrightarrow> Q () m) \<Longrightarrow> (\<And>m. \<not> b \<Longrightarrow> P m \<Longrightarrow> E m) \<Longrightarrow> triple I E P (needP b e) Q"
  by (auto simp: needP_def intro: triple_ret triple_throw)

lemma triple_if:
  "(b \<Longrightarrow> triple I E P p Q) \<Longrightarrow> (\<not> b \<Longrightarrow> triple I E P q Q) \<Longrightarrow> triple I E P (if b then p else q) Q"
  by simp

lemma triple_effect:
  assumes "\<And>m. P m \<Longrightarrow> I m"
    and "\<And>m n a m'. P m \<Longrightarrow> f (m\<lparr>budget := n\<rparr>) = (a, m') \<Longrightarrow> Q a m'"
  shows "triple I E P (effect f) Q"
  using assms unfolding triple_def effect_def by (fastforce split: nat.splits prod.splits)

lemma triple_false: "triple I E (\<lambda>_. False) p Q"
  by (simp add: triple_def)

lemma triple_pure: "(b \<Longrightarrow> triple I E P p Q) \<Longrightarrow> triple I E (\<lambda>m. b \<and> P m) p Q"
  by (auto simp: triple_def)

text \<open>One step at a time: a step that keeps \<open>P\<close>, then the rest.\<close>

definition stable :: "(('s, 'c) machine \<Rightarrow> bool) \<Rightarrow> bool" where
  "stable P \<longleftrightarrow> (\<forall>m n w. P m \<longrightarrow> P (m\<lparr>budget := n\<rparr>) \<and> P (m\<lparr>outside := w\<rparr>))"

lemma stableD: "stable P \<Longrightarrow> P m \<Longrightarrow> P (m\<lparr>budget := n\<rparr>)" "stable P \<Longrightarrow> P m \<Longrightarrow> P (m\<lparr>outside := w\<rparr>)"
  by (simp_all add: stable_def)

lemma stable_conj: "stable P \<Longrightarrow> stable Q \<Longrightarrow> stable (\<lambda>m. P m \<and> Q m)"
  by (simp add: stable_def)

lemma stable_const: "stable (\<lambda>_. b)"
  by (simp add: stable_def)

lemma triple_call:
  assumes "stable P" "\<And>m. P m \<Longrightarrow> I m" "\<And>m. P m \<Longrightarrow> E m"
  shows "triple I E P (callP g) (\<lambda>_. P)"
  unfolding callP_def
  by (rule triple_bind [where R = "\<lambda>_. P"], rule triple_effect)
    (auto simp: assms stableD [OF assms(1)] intro!: triple_lift split: prod.splits)

lemma triple_call_then:
  "stable P \<Longrightarrow> (\<And>m. P m \<Longrightarrow> I m) \<Longrightarrow> (\<And>m. P m \<Longrightarrow> E m) \<Longrightarrow> (\<And>a. triple I E P (f a) Q) \<Longrightarrow>
    triple I E P (bindP (callP g) f) Q"
  by (rule triple_bind [where R = "\<lambda>_. P", OF triple_call])

lemma triple_lift_then:
  "(\<And>m. P m \<Longrightarrow> E m) \<Longrightarrow> (\<And>a. r = Inr a \<Longrightarrow> triple I E P (f a) Q) \<Longrightarrow> triple I E P (bindP (liftP r) f) Q"
  by (cases r) (auto simp: triple_def bindP_def liftP_def throwP_def retP_def)

lemma triple_need_then:
  "(\<And>m. P m \<Longrightarrow> E m) \<Longrightarrow> (b \<Longrightarrow> triple I E P (f ()) Q) \<Longrightarrow> triple I E P (bindP (needP b e) f) Q"
  by (auto simp: triple_def bindP_def needP_def throwP_def retP_def)

lemma triple_then:
  "triple I E P p (\<lambda>_. P) \<Longrightarrow> (\<And>a. triple I E P (f a) Q) \<Longrightarrow> triple I E P (bindP p f) Q"
  by (rule triple_bind)

lemma triple_catch_keep:
  "triple I P P p (\<lambda>_. P) \<Longrightarrow> (\<And>e. triple I E P (h e) (\<lambda>_. P)) \<Longrightarrow> triple I E P (catchP p h) (\<lambda>_. P)"
  by (rule triple_catch)

lemma triple_readJournal:
  assumes "stable P" "\<And>m. P m \<Longrightarrow> I m" "\<And>m. P m \<Longrightarrow> E m"
  shows "triple I E P (readJournal e k) (\<lambda>a m. P m \<and> (case a of None \<Rightarrow> journal m k = Absent | Some s \<Rightarrow> journal m k = Stored s))"
  unfolding readJournal_def
  by (rule triple_bind [where R = "\<lambda>f m. P m \<and> journal m k = f"], rule triple_effect)
    (auto simp: assms stableD [OF assms(1)] file_opt_def intro!: triple_lift split: disk_file.splits)

lemma triple_readJournal_keep:
  assumes "stable P" "\<And>m. P m \<Longrightarrow> I m" "\<And>m. P m \<Longrightarrow> E m"
  shows "triple I E P (readJournal e k) (\<lambda>_. P)"
  by (rule triple_post [OF triple_readJournal]) (use assms in auto)

lemma triple_saveJournal:
  assumes "\<And>m. P m \<Longrightarrow> I m" "\<And>m n. P m \<Longrightarrow> Q (m\<lparr>budget := n, journal := (journal m)(k := Stored s)\<rparr>)"
  shows "triple I E P (saveJournal k s) (\<lambda>_. Q)"
  unfolding saveJournal_def by (rule triple_effect) (use assms in auto)

lemma triple_noteSubmit:
  "(\<And>m. P m \<Longrightarrow> Q (m\<lparr>submits := submits m @ [(n, i)]\<rparr>)) \<Longrightarrow> triple I E P (noteSubmit n i) (\<lambda>_. Q)"
  by (simp add: triple_def noteSubmit_def)

section \<open>Programs within a relation\<close>

text \<open>\<open>within R p\<close>: however \<open>p\<close> ends, it leaves the machine related to the one it
  found. The rules are stated for reflexive and transitive relations.\<close>

definition within :: "(('s, 'c) machine \<Rightarrow> ('s, 'c) machine \<Rightarrow> bool) \<Rightarrow> ('s, 'c, 'a) prog \<Rightarrow> bool" where
  "within R p \<longleftrightarrow> (\<forall>m. R m (snd (p m)))"

lemma withinD: "within R p \<Longrightarrow> p m = (r, m') \<Longrightarrow> R m m'"
  unfolding within_def by (metis snd_conv)

lemma callP_ops: "callP g m = (r, m') \<Longrightarrow> ops m' = ops m"
  by (auto simp: callP_def bindP_def effect_def liftP_def retP_def throwP_def
      split: nat.splits prod.splits sum.splits outcome.splits)

lemma readOp_None: "readOp n m = (Ret None, m') \<Longrightarrow> ops m' n = Absent"
  by (auto simp: readOp_def bindP_def effect_def liftP_def file_opt_def retP_def throwP_def
      split: nat.splits prod.splits sum.splits outcome.splits disk_file.splits)

locale machine_order =
  fixes R :: "('s, 'c) machine \<Rightarrow> ('s, 'c) machine \<Rightarrow> bool"
  assumes refl: "R m m"
    and trans: "R a b \<Longrightarrow> R b c \<Longrightarrow> R a c"
    and budget: "R m (m\<lparr>budget := n\<rparr>)"
begin

lemma ret: "within R (retP a)"
  by (simp add: within_def retP_def refl)

lemma throw: "within R (throwP e)"
  by (simp add: within_def throwP_def refl)

lemma lift: "within R (liftP r)"
  by (cases r) (simp_all add: liftP_def ret throw)

lemma need: "within R (needP b e)"
  by (simp add: needP_def ret throw)

text \<open>From one machine: the second program may rely on how the first one ended.\<close>

lemma bind_at:
  assumes "within R p" "\<And>a m'. p m = (Ret a, m') \<Longrightarrow> R m' (snd (f a m'))"
  shows "R m (snd (bindP p f m))"
proof -
  obtain r m' where p: "p m = (r, m')" by (cases "p m")
  have "R m m'" by (rule withinD [OF assms(1) p])
  with assms(2) show ?thesis
    by (cases r) (auto simp: bindP_def p intro: trans)
qed

lemma bind: "within R p \<Longrightarrow> (\<And>a. within R (f a)) \<Longrightarrow> within R (bindP p f)"
  by (simp add: within_def [of R "bindP p f"] bind_at) (simp add: bind_at within_def)

lemma catch:
  assumes "within R p" "\<And>e. within R (h e)"
  shows "within R (catchP p h)"
  unfolding within_def
proof
  fix m
  obtain r m' where p: "p m = (r, m')" by (cases "p m")
  have "R m m'" by (rule withinD [OF assms(1) p])
  moreover have "R m' (snd (h e m'))" for e using assms(2) by (simp add: within_def)
  ultimately show "R m (snd (catchP p h m))"
    by (cases r) (auto simp: catchP_def p intro: trans)
qed

lemma cleanup:
  assumes "within R p" "within R c"
  shows "within R (finallyP p c)"
  unfolding within_def
proof
  fix m
  obtain r m' where p: "p m = (r, m')" by (cases "p m")
  obtain s m'' where c: "c m' = (s, m'')" by (cases "c m'")
  have "R m m'" "R m' m''" by (rule withinD [OF assms(1) p], rule withinD [OF assms(2) c])
  then show "R m (snd (finallyP p c m))"
    by (cases r; cases s) (auto simp: finallyP_def p c intro: trans)
qed

lemma effect:
  assumes "\<And>m. R m (snd (f m))"
  shows "within R (effect f)"
  using assms budget by (auto simp: within_def effect_def refl split: nat.split prod.split) (metis snd_conv trans)

lemma call_by: "(\<And>m. R m (m\<lparr>outside := snd (g (outside m))\<rparr>)) \<Longrightarrow> within R (callP g)"
  unfolding callP_def by (intro bind lift effect) (simp add: case_prod_beta)

lemma read_files: "within R (readJournal e k)" "within R (readReservation e)" "within R (readOp n)"
  unfolding readJournal_def readReservation_def readOp_def by (intro bind lift effect; simp add: refl)+

lemma cond: "within R p \<Longrightarrow> within R q \<Longrightarrow> within R (if b then p else q)"
  by simp

end

text \<open>A relation that allows any change of the outside.\<close>

locale machine_relation = machine_order R
  for R :: "('s, 'c) machine \<Rightarrow> ('s, 'c) machine \<Rightarrow> bool" +
  assumes outside: "R m (m\<lparr>outside := w\<rparr>)"
begin

lemma call: "within R (callP g)"
  by (rule call_by) (rule outside)

lemmas basics = ret throw lift need call read_files

end

section \<open>Runs\<close>

text \<open>
  What a directory sees over time: programs run one after the other, each with its own budget;
  after a death the stale locks are removed by hand before the next run.
\<close>

definition empty_machine :: "'c \<Rightarrow> ('s, 'c) machine" where
  "empty_machine w = \<lparr>journal = (\<lambda>_. Absent), reservation = Absent, locked = False,
     ops = (\<lambda>_. Absent), op_locks = {}, outside = w, submits = [], budget = 0\<rparr>"

definition restart :: "nat \<Rightarrow> ('s, 'c) machine \<Rightarrow> ('s, 'c) machine" where
  "restart n m = m\<lparr>budget := n, locked := False, op_locks := {}\<rparr>"

fun run_all :: "(nat \<times> ('s, 'c, 'a) prog) list \<Rightarrow> ('s, 'c) machine \<Rightarrow> ('s, 'c) machine" where
  "run_all [] m = m"
| "run_all ((n, p) # ps) m = run_all ps (snd (p (restart n m)))"

lemma run_all_invariant:
  assumes "\<And>n m. I m \<Longrightarrow> I (restart n m)"
    and "\<And>n p m. (n, p) \<in> set ps \<Longrightarrow> I m \<Longrightarrow> I (snd (p m))"
    and "I m"
  shows "I (run_all ps m)"
  using assms(2,3)
proof (induction ps arbitrary: m)
  case (Cons np ps)
  obtain n p where np: "np = (n, p)" by (cases np)
  have "I (snd (p (restart n m)))"
    by (rule Cons.prems(1) [of n]) (simp_all add: np assms(1) Cons.prems(2))
  moreover have "I (snd (q m'))" if "(k, q) \<in> set ps" "I m'" for k q m'
    by (rule Cons.prems(1) [of k]) (simp_all add: that)
  ultimately show ?case using Cons.IH by (simp add: np)
qed simp

end
