(* ===== verification/CircleOps.thy ===== *)
theory CircleOps
  imports Machine
begin

text \<open>
  Circle operations, \<open>src/scripts/economy-circle.ts\<close> and
  \<open>src/scripts/circle-userop-recovery.ts\<close>: one durable operation per name, journalled
  before it is handed to the Circle command line, reconciled by reading only.

  The command line, the chain client, the clock and the random source are the functions of
  \<open>circle_ext\<close>; each may change the outside or fail.
\<close>

section \<open>The boundary\<close>

record chain_receipt =
  cr_success :: bool
  cr_transaction :: string
  cr_block :: int
  cr_blockHash :: string
  cr_logs :: "log_entry list"

record found_log =
  fl_log :: log_entry
  fl_removed :: bool
  fl_transaction :: "string option"
  fl_blockHash :: "string option"
  fl_block :: "int option"

record userop_event =
  uo_hash :: string
  uo_sender :: string
  uo_success :: bool

record 'c circle_ext =
  random_uuid :: "'c \<Rightarrow> string res \<times> 'c"
  now_iso :: "'c \<Rightarrow> string res \<times> 'c"
  chain_id :: "'c \<Rightarrow> int res \<times> 'c"
  circle_cli :: "string list \<Rightarrow> 'c \<Rightarrow> json res \<times> 'c"
  encode_call :: "string \<Rightarrow> string list \<Rightarrow> string res"
  wait_receipt :: "string \<Rightarrow> 'c \<Rightarrow> chain_receipt res \<times> 'c"
  get_receipt :: "string \<Rightarrow> 'c \<Rightarrow> chain_receipt res \<times> 'c"
  finalized_number :: "'c \<Rightarrow> int option res \<times> 'c"
  block_at :: "int \<Rightarrow> 'c \<Rightarrow> (int \<times> string) res \<times> 'c"
  entry_point :: "string \<Rightarrow> int \<Rightarrow> 'c \<Rightarrow> string res \<times> 'c"
  userop_logs :: "string \<Rightarrow> string \<Rightarrow> string \<Rightarrow> int \<Rightarrow> int \<Rightarrow> 'c \<Rightarrow> found_log list res \<times> 'c"
  decode_userop :: "log_entry \<Rightarrow> userop_event res"

record circle_config =
  cc_wallet :: string
  cc_approver :: string

definition CHAIN :: string where
  "CHAIN = ''ARC-TESTNET''"

definition usdc :: string where
  "usdc = ''0x3600000000000000000000000000000000000000''"

section \<open>Durable operations\<close>

definition is_name_char :: "char \<Rightarrow> bool" where
  "is_name_char c \<longleftrightarrow> is_alnum c \<or> c = CHR ''_'' \<or> c = CHR ''-''"

definition validName :: "string \<Rightarrow> bool" where
  "validName s \<longleftrightarrow> s \<noteq> [] \<and> is_alnum (hd s) \<and> length s \<le> 101 \<and> list_all is_name_char s"

definition intent_json :: "op_intent \<Rightarrow> json" where
  "intent_json i = JObj [(''kind'', JStr (oi_kind i)), (''args'', JArr (map JStr (oi_args i)))]"

definition intent_hash :: "ext \<Rightarrow> op_intent \<Rightarrow> string" where
  "intent_hash x i = text_hash x (stringify (intent_json i))"

text \<open>A name that has a journal is never submitted again.\<close>

definition earlier_operation :: "operation \<Rightarrow> string \<Rightarrow> operation res" where
  "earlier_operation prev h =
     (if op_intentHash prev \<noteq> h
      then Inl (Err ''Operation name already belongs to a different intent.'')
      else if op_status prev = Submitted then Inr prev
      else if op_status prev = Failed
      then Inl (Err ''Terminal failure recorded; preserve this intent and use only an explicitly reviewed linked recovery operation.'')
      else Inl (Err ''Existing operation outcome uncertain; reconcile it before further actions.''))"

text \<open>\<open>submit\<close> and what follows it, inside \<open>try\<close>; the result is kept even when the
  idempotency key differs, and the \<open>catch\<close> writes what the operation holds by then.\<close>

definition uncertain_operation ::
    "string \<Rightarrow> operation \<Rightarrow> ('s, 'c, operation) prog" where
  "uncertain_operation name op =
     bindP (saveOp name (op\<lparr>op_status := Uncertain\<rparr>)) (\<lambda>_.
       throwP (Err ''Circle operation outcome uncertain; reconcile the journal before retrying.''))"

definition submit_operation ::
    "string \<Rightarrow> operation \<Rightarrow> (string \<Rightarrow> ('s, 'c, (string \<times> json) list) prog) \<Rightarrow> ('s, 'c, operation) prog" where
  "submit_operation name op submit =
     bindP (catchP (bindP (submit (op_key op)) (\<lambda>r. retP (Some r))) (\<lambda>_. retP None)) (\<lambda>r.
       case r of
         None \<Rightarrow> uncertain_operation name op
       | Some got \<Rightarrow>
           (let op' = op\<lparr>op_result := Some got\<rparr>
            in if map_of got ''idempotencyKey'' \<noteq> Some (JStr (op_key op))
               then uncertain_operation name op'
               else bindP (saveOp name (op'\<lparr>op_status := Submitted\<rparr>)) (\<lambda>_.
                      retP (op'\<lparr>op_status := Submitted\<rparr>))))"

definition durableOperation ::
    "ext \<Rightarrow> 'c circle_ext \<Rightarrow> string \<Rightarrow> op_intent \<Rightarrow>
      (string \<Rightarrow> ('s, 'c, (string \<times> json) list) prog) \<Rightarrow> ('s, 'c, operation) prog" where
  "durableOperation x y name intent submit =
     bindP (needP (validName name) (Err ''Invalid operation name.'')) (\<lambda>_.
     bindP (takeOpLock (Err ''Operation locked; inspect the process before removing a stale lock.'') name) (\<lambda>_.
     finallyP
       (bindP (readOp name) (\<lambda>previous.
          case previous of
            Some prev \<Rightarrow> liftP (earlier_operation prev (intent_hash x intent))
          | None \<Rightarrow>
              bindP (callP (random_uuid y)) (\<lambda>key.
              bindP (callP (now_iso y)) (\<lambda>created.
                (let op = \<lparr>op_version = 1, op_name = name, op_intent = intent,
                   op_intentHash = intent_hash x intent, op_key = key, op_created = created,
                   op_status = Submitting, op_result = None\<rparr>
                 in bindP (saveOp name op) (\<lambda>_.
                    bindP (noteSubmit name intent) (\<lambda>_. submit_operation name op submit)))))))
       (dropOpLock name)))"

section \<open>Calls to Circle\<close>

definition resultKeys :: "string list" where
  "resultKeys = [''id'', ''idempotencyKey'', ''state'', ''blockchain'', ''txHash'', ''userOpHash'',
     ''sourceAddress'', ''destinationAddress'', ''contractAddress'', ''blockHeight'', ''operation'',
     ''abiFunctionSignature'', ''abiParameters'', ''createDate'', ''errorReason'', ''errorDetails'']"

definition sanitizeResult :: "json \<Rightarrow> (string \<times> json) list res" where
  "sanitizeResult v =
     (if is_obj v \<or> is_arr v
      then Inr (List.map_filter (\<lambda>k. map_option (\<lambda>c. (k, c)) (fld v k)) resultKeys)
      else Inl (Err ''Missing Circle result.''))"

definition assertTestnet :: "'c circle_ext \<Rightarrow> ('s, 'c, unit) prog" where
  "assertTestnet y = bindP (callP (chain_id y)) (\<lambda>i. needP (i = 5042002) (Err ''Wrong chain.''))"

definition circle :: "'c circle_ext \<Rightarrow> string list \<Rightarrow> ('s, 'c, json) prog" where
  "circle y args = catchP (callP (circle_cli y args)) (\<lambda>_.
     throwP (Err ''Circle CLI returned no usable result. Preserve any existing operation journal for reconciliation.''))"

definition is_word :: "char \<Rightarrow> bool" where
  "is_word c \<longleftrightarrow> is_alnum c \<or> c = CHR ''_''"

text \<open>\<open>/^\w+\(.+\)$|^\w+\(\)$/\<close>.\<close>

definition call_signature :: "string \<Rightarrow> bool" where
  "call_signature s =
     (let w = takeWhile is_word s; r = dropWhile is_word s
      in w \<noteq> [] \<and> 2 \<le> length r \<and> hd r = CHR ''('' \<and> last r = CHR '')'' \<and>
         list_all (\<lambda>c. code c \<noteq> 10 \<and> code c \<noteq> 13) r)"

definition execute_args :: "circle_config \<Rightarrow> string list \<Rightarrow> string \<Rightarrow> string list" where
  "execute_args cfg head contract =
     [''wallet'', ''execute''] @ head @ [''--contract'', contract, ''--address'', cc_wallet cfg,
      ''--chain'', CHAIN, ''--amount'', ''0'', ''--output'', ''json'']"

definition executeCircle ::
    "ext \<Rightarrow> 'c circle_ext \<Rightarrow> circle_config \<Rightarrow> string \<Rightarrow> string \<Rightarrow> string \<Rightarrow> string list \<Rightarrow>
      ('s, 'c, operation) prog" where
  "executeCircle x y cfg name contract signature parameters =
     bindP (needP (isAddress x contract \<and> call_signature signature) (Err ''Invalid contract call.'')) (\<lambda>_.
     bindP (assertTestnet y) (\<lambda>_.
     bindP (liftP (encode_call y signature parameters)) (\<lambda>data.
       durableOperation x y name
         \<lparr>oi_kind = ''execute'', oi_args = execute_args cfg (signature # parameters) contract\<rparr>
         (\<lambda>key. bindP (circle y (execute_args cfg [data] contract @ [''--idempotency-key'', key]))
            (\<lambda>v. liftP (sanitizeResult v))))))"

definition executeCircleCalldata ::
    "ext \<Rightarrow> 'c circle_ext \<Rightarrow> circle_config \<Rightarrow> string \<Rightarrow> string \<Rightarrow> string \<Rightarrow> ('s, 'c, operation) prog" where
  "executeCircleCalldata x y cfg name contract data =
     bindP (needP (isAddress x contract \<and> take 2 data = ''0x'' \<and> list_all is_hex (drop 2 data) \<and>
         even (length data) \<and> 10 \<le> length data) (Err ''Invalid calldata.'')) (\<lambda>_.
     bindP (assertTestnet y) (\<lambda>_.
       durableOperation x y name
         \<lparr>oi_kind = ''execute-calldata'', oi_args = execute_args cfg [data] contract\<rparr>
         (\<lambda>key. bindP (circle y (execute_args cfg [data] contract @ [''--idempotency-key'', key]))
            (\<lambda>v. liftP (sanitizeResult v)))))"

definition approveCircleUsdc ::
    "ext \<Rightarrow> 'c circle_ext \<Rightarrow> circle_config \<Rightarrow> string \<Rightarrow> string \<Rightarrow> int \<Rightarrow> ('s, 'c, operation) prog" where
  "approveCircleUsdc x y cfg name settlement amount =
     bindP (needP (0 \<le> amount \<and> amount < 2 ^ 256) (Err ''Invalid bounded USDC allowance.'')) (\<lambda>_.
       executeCircle x y cfg name usdc ''approve(address,uint256)'' [settlement, int_dec amount])"

record settlement_order =
  so_orderId :: string
  so_agentId :: string
  so_category :: int
  so_seller :: string
  so_serviceHash :: string
  so_unitHash :: string
  so_quantity :: int
  so_unitPrice :: int
  so_amount :: int
  so_inputHash :: string
  so_deadline :: int
  so_policyVersion :: int
  so_agentVersion :: int
  so_feeVersion :: int

definition order_json :: "settlement_order \<Rightarrow> json" where
  "order_json so = JArr [JStr (so_orderId so), JStr (so_agentId so), JNum (num_of_int (so_category so)),
     JStr (so_seller so), JStr (so_serviceHash so), JStr (so_unitHash so), JStr (int_dec (so_quantity so)),
     JStr (int_dec (so_unitPrice so)), JStr (int_dec (so_amount so)), JStr (so_inputHash so),
     JStr (int_dec (so_deadline so)), JStr (int_dec (so_policyVersion so)),
     JStr (int_dec (so_agentVersion so)), JStr (int_dec (so_feeVersion so))]"

definition settlementParameters :: "ext \<Rightarrow> settlement_order \<Rightarrow> string list res" where
  "settlementParameters x so =
     bindR (need (\<not> (so_category so < 0 \<or> 4 < so_category so \<or> so_quantity so \<le> 0 \<or> so_unitPrice so \<le> 0 \<or>
         so_amount so \<noteq> so_quantity so * so_unitPrice so)) (Err ''Invalid settlement terms.'')) (\<lambda>_.
     bindR (need (list_all (hex_n 64) [so_orderId so, so_agentId so, so_serviceHash so, so_unitHash so,
         so_inputHash so]) (Err ''Invalid order hash.'')) (\<lambda>_.
     bindR (need (isAddress x (so_seller so)) (Err ''Invalid seller.'')) (\<lambda>_.
       Inr [stringify (order_json so)])))"

definition settle_signature :: string where
  "settle_signature = ''settle((bytes32,bytes32,uint8,address,bytes32,bytes32,uint256,uint256,uint256,bytes32,uint256,uint64,uint64,uint64))''"

definition settleCircleOrder ::
    "ext \<Rightarrow> 'c circle_ext \<Rightarrow> circle_config \<Rightarrow> string \<Rightarrow> string \<Rightarrow> settlement_order \<Rightarrow> ('s, 'c, operation) prog" where
  "settleCircleOrder x y cfg name settlement so =
     bindP (liftP (settlementParameters x so)) (\<lambda>ps. executeCircle x y cfg name settlement settle_signature ps)"

section \<open>Reconciliation\<close>

definition result_field :: "operation \<Rightarrow> string \<Rightarrow> json option" where
  "result_field op k = Option.bind (op_result op) (\<lambda>r. map_of r k)"

definition result_str :: "operation \<Rightarrow> string \<Rightarrow> string option" where
  "result_str op k = Option.bind (result_field op k) as_str"

text \<open>\<open>String(v).toLowerCase()\<close> where a missing property is \<open>undefined\<close>.\<close>

definition lower_text :: "json option \<Rightarrow> string" where
  "lower_text v = (case v of None \<Rightarrow> ''undefined'' | Some j \<Rightarrow> to_lower (js_String j))"

definition tx_evidence :: "circle_config \<Rightarrow> operation \<Rightarrow> string option" where
  "tx_evidence cfg op =
     (if result_str op ''blockchain'' = Some CHAIN \<and>
         lower_text (result_field op ''sourceAddress'') = to_lower (cc_wallet cfg)
      then check (hex_n 64) (result_str op ''txHash'') else None)"

definition receipt :: "'c circle_ext \<Rightarrow> circle_config \<Rightarrow> operation \<Rightarrow> ('s, 'c, chain_receipt) prog" where
  "receipt y cfg op =
     bindP (liftP (of_opt (Err ''Missing matching Circle transaction evidence; reconcile.'') (tx_evidence cfg op)))
       (\<lambda>h. bindP (callP (wait_receipt y h)) (\<lambda>mined.
          if \<not> cr_success mined then throwP (Err ''On-chain transaction reverted.'') else retP mined))"

definition requireCircleTransactionHash :: "operation \<Rightarrow> string res" where
  "requireCircleTransactionHash op = (case check (hex_n 64) (result_str op ''txHash'') of
     Some h \<Rightarrow> Inr h
   | None \<Rightarrow> (case result_str op ''id'' of
        Some (_ # _) \<Rightarrow> Inl (Err ''Circle transaction is correlated, but its transaction hash is not available yet. Preserve this operation and retry read-only reconciliation; do not submit again.'')
      | _ \<Rightarrow> Inl (Err ''No uniquely correlated transaction found. Preserve the journal and reconcile Circle challenge manually; do not create a replacement operation.'')))"

definition transactions_of :: "json \<Rightarrow> json list option" where
  "transactions_of d = (case fld d ''transactions'' of Some (JArr ts) \<Rightarrow> Some ts | _ \<Rightarrow> None)"

definition list_args :: "circle_config \<Rightarrow> string list \<Rightarrow> string list" where
  "list_args cfg rest = [''transaction'', ''list'', ''--address'', cc_wallet cfg, ''--chain'', CHAIN] @ rest"

definition exact_detail ::
    "'c circle_ext \<Rightarrow> circle_config \<Rightarrow> operation \<Rightarrow> string \<Rightarrow> ('s, 'c, (string \<times> json) list) prog" where
  "exact_detail y cfg op tid =
     bindP (circle y (list_args cfg [''--transaction-id'', tid, ''--output'', ''json''])) (\<lambda>d.
       case transactions_of d of
         Some [t] \<Rightarrow>
           bindP (liftP (sanitizeResult t)) (\<lambda>detail.
             if \<not> strict_eq (map_of detail ''id'') (result_field op ''id'') \<or>
                map_of detail ''blockchain'' \<noteq> Some (JStr CHAIN) \<or>
                lower_text (map_of detail ''sourceAddress'') \<noteq> to_lower (cc_wallet cfg)
             then throwP (Err ''Circle detail differs from original wallet, chain or transaction ID.'')
             else retP detail)
       | _ \<Rightarrow> throwP (Err ''Missing exact Circle transaction detail.''))"

definition correlates :: "operation \<Rightarrow> (string \<times> json) list \<Rightarrow> bool" where
  "correlates op tx \<longleftrightarrow>
     strict_eq (map_of tx ''idempotencyKey'') (Some (JStr (op_key op))) \<or>
     (truthy (result_field op ''id'') \<and> strict_eq (map_of tx ''id'') (result_field op ''id'')) \<or>
     (truthy (result_field op ''txHash'') \<and> strict_eq (map_of tx ''txHash'') (result_field op ''txHash''))"

fun find_match :: "operation \<Rightarrow> json list \<Rightarrow> (string \<times> json) list option res" where
  "find_match op [] = Inr None"
| "find_match op (v # vs) = bindR (sanitizeResult v) (\<lambda>tx.
     if correlates op tx then Inr (Some tx) else find_match op vs)"

text \<open>At most twenty pages of history; the argument counts the pages that are left.\<close>

fun search_pages ::
    "'c circle_ext \<Rightarrow> circle_config \<Rightarrow> operation \<Rightarrow> string option \<Rightarrow> nat \<Rightarrow>
      ('s, 'c, (string \<times> json) list option) prog" where
  "search_pages y cfg op cursor 0 = retP None"
| "search_pages y cfg op cursor (Suc left) =
     bindP (circle y (list_args cfg ([''--limit'', ''50'', ''--output'', ''json''] @
         (case cursor of Some c \<Rightarrow> [''--cursor'', c] | None \<Rightarrow> [])))) (\<lambda>d.
       case transactions_of d of
         None \<Rightarrow> throwP (Err ''Unexpected Circle history envelope.'')
       | Some ts \<Rightarrow>
           bindP (liftP (find_match op ts)) (\<lambda>m.
             case m of
               Some tx \<Rightarrow> retP (Some tx)
             | None \<Rightarrow>
                 if length ts < 50 then retP None
                 else bindP (liftP (sanitizeResult (last ts))) (\<lambda>l.
                   case map_of l ''id'' of
                     Some (JStr c) \<Rightarrow> search_pages y cfg op (Some c) left
                   | _ \<Rightarrow> retP None)))"

text \<open>\<open>{...a, ...b}\<close>.\<close>

definition spread :: "(string \<times> json) list \<Rightarrow> (string \<times> json) list \<Rightarrow> (string \<times> json) list" where
  "spread a b = fold put b a"

definition merge_match :: "operation \<Rightarrow> (string \<times> json) list \<Rightarrow> operation res" where
  "merge_match op tx =
     (if truthy (result_field op ''txHash'') \<and> truthy (map_of tx ''txHash'') \<and>
         \<not> strict_eq (result_field op ''txHash'') (map_of tx ''txHash'')
      then Inl (Err ''Conflicting Circle transaction hash; preserve original evidence.'')
      else Inr (op\<lparr>
        op_result := Some (put (''idempotencyKey'', JStr (op_key op))
          (spread (case op_result op of Some r \<Rightarrow> r | None \<Rightarrow> []) tx)),
        op_status := (if map_of tx ''state'' \<in> {Some (JStr ''FAILED''), Some (JStr ''CANCELLED''), Some (JStr ''DENIED'')}
                      then Failed else Submitted)\<rparr>))"

section \<open>User operations\<close>

definition supportedEntryPoint :: string where
  "supportedEntryPoint = ''0x5ff137d4b0fdcd49dca30c7cf57e578a026d2789''"

definition match_userop :: "'c circle_ext \<Rightarrow> string \<Rightarrow> string \<Rightarrow> log_entry \<Rightarrow> bool res" where
  "match_userop y wallet h l =
     (if to_lower (log_address l) \<noteq> supportedEntryPoint then Inr False
      else bindR (decode_userop y l) (\<lambda>e.
        Inr (to_lower (uo_hash e) = to_lower h \<and> to_lower (uo_sender e) = to_lower wallet \<and> uo_success e)))"

definition findFinalizedUserOperation ::
    "'c circle_ext \<Rightarrow> string \<Rightarrow> string \<Rightarrow> ('s, 'c, string option) prog" where
  "findFinalizedUserOperation y wallet h =
     bindP (needP (hex_n 64 h) (Err ''Invalid Circle user operation hash.'')) (\<lambda>_.
     bindP (callP (finalized_number y)) (\<lambda>f.
     bindP (liftP (of_opt (Err ''Finalized block unavailable.'') f)) (\<lambda>final.
     bindP (callP (entry_point y wallet final)) (\<lambda>ep.
     bindP (needP (to_lower ep = supportedEntryPoint) (Err ''Unsupported Circle wallet EntryPoint binding.'')) (\<lambda>_.
     bindP (callP (userop_logs y ep h wallet (if 1999 < final then final - 1999 else 0) final)) (\<lambda>logs.
       case logs of
         [] \<Rightarrow> retP None
       | [l] \<Rightarrow>
           (case (fl_transaction l, fl_blockHash l, fl_block l) of
              (Some t, Some bh, Some b) \<Rightarrow>
                bindP (liftP (if fl_removed l \<or> t = [] \<or> bh = [] \<or> final < b then Inr False
                    else match_userop y wallet h (fl_log l))) (\<lambda>ok.
                bindP (needP ok (Err ''Invalid or failed UserOperationEvent.'')) (\<lambda>_.
                bindP (callP (get_receipt y t)) (\<lambda>r.
                bindP (needP (cr_success r \<and> cr_transaction r = t \<and> cr_block r = b \<and> cr_blockHash r = bh \<and>
                    cr_block r \<le> final \<and>
                    length (filter (\<lambda>g. match_userop y wallet h g = Inr True) (cr_logs r)) = 1)
                  (Err ''User operation does not match a finalized successful receipt.'')) (\<lambda>_.
                bindP (callP (block_at y (cr_block r))) (\<lambda>(n, hash).
                bindP (needP (n = cr_block r \<and> hash = cr_blockHash r)
                  (Err ''User operation receipt differs from canonical block.'')) (\<lambda>_.
                  retP (Some (cr_transaction r))))))))
            | _ \<Rightarrow> throwP (Err ''Invalid or failed UserOperationEvent.''))
       | _ \<Rightarrow> throwP (Err ''Ambiguous UserOperationEvent evidence.'')))))))"

text \<open>The rest of \<open>reconcile\<close> once the history has been searched.\<close>

definition correlate_userop ::
    "'c circle_ext \<Rightarrow> circle_config \<Rightarrow> string \<Rightarrow> operation \<Rightarrow> ('s, 'c, operation) prog" where
  "correlate_userop y cfg name op =
     (case (truthy (result_field op ''txHash''), result_str op ''userOpHash'') of
        (False, Some u) \<Rightarrow>
          bindP (needP (result_str op ''blockchain'' = Some CHAIN \<and>
              lower_text (result_field op ''sourceAddress'') = to_lower (cc_wallet cfg))
            (Err ''Circle user operation belongs to a different wallet or chain.'')) (\<lambda>_.
          bindP (findFinalizedUserOperation y (cc_wallet cfg) u) (\<lambda>h.
            case h of
              Some (c # cs) \<Rightarrow>
                (let op' = op\<lparr>op_result := Some (put (''chainCorrelation'', JStr ''finalized-user-operation-event'')
                   (put (''txHash'', JStr (c # cs)) (case op_result op of Some r \<Rightarrow> r | None \<Rightarrow> [])))\<rparr>
                 in bindP (saveOp name op') (\<lambda>_. retP op'))
            | _ \<Rightarrow> retP op))
      | _ \<Rightarrow> retP op)"

definition finish_reconcile ::
    "'c circle_ext \<Rightarrow> circle_config \<Rightarrow> string \<Rightarrow> operation \<Rightarrow> ('s, 'c, operation) prog" where
  "finish_reconcile y cfg name op =
     bindP (correlate_userop y cfg name op) (\<lambda>op'.
     bindP (liftP (requireCircleTransactionHash op')) (\<lambda>_.
     bindP (receipt y cfg op') (\<lambda>_. retP op')))"

definition reconcile ::
    "'c circle_ext \<Rightarrow> circle_config \<Rightarrow> string \<Rightarrow> ('s, 'c, operation) prog" where
  "reconcile y cfg name =
     bindP (needP (validName name) (Err ''Invalid operation name.'')) (\<lambda>_.
     bindP (assertTestnet y) (\<lambda>_.
     bindP (readOp name) (\<lambda>stored.
       case stored of
         None \<Rightarrow> throwP (Err ''Unknown operation.'')
       | Some op \<Rightarrow>
           if op_status op = Failed then retP op
           else
             bindP (case result_str op ''id'' of
                 Some tid \<Rightarrow> bindP (exact_detail y cfg op tid) (\<lambda>d. retP (Some d))
               | None \<Rightarrow> search_pages y cfg op None 20) (\<lambda>m.
               case m of
                 None \<Rightarrow> finish_reconcile y cfg name op
               | Some tx \<Rightarrow>
                   bindP (liftP (merge_match op tx)) (\<lambda>op'.
                   bindP (saveOp name op') (\<lambda>_.
                     if op_status op' = Failed then retP op'
                     else finish_reconcile y cfg name op'))))))"

text \<open>\<open>runtimeMatches\<close>: the deployed code equals the compiled one outside the immutable
  ranges. A range that ends beyond the code extends both arrays with zeros at its indices; the
  gap stays a hole, which joins as nothing.\<close>

definition zero_ranges :: "(nat \<times> nat) list \<Rightarrow> string \<Rightarrow> string" where
  "zero_ranges rs s =
     (let hit = (\<lambda>i. \<exists>(st, len) \<in> set rs. 2 * st \<le> i \<and> i < 2 * (st + len));
          end = Max (set (length s # map (\<lambda>(st, len). if len = 0 then 0 else 2 * (st + len)) rs))
      in concat (map (\<lambda>i. if hit i then ''0'' else if i < length s then [s ! i] else []) [0..<end]))"

definition runtimeMatches :: "string \<Rightarrow> string \<Rightarrow> (nat \<times> nat) list \<Rightarrow> bool" where
  "runtimeMatches actual expected rs =
     (let got = to_lower (drop 2 actual); want = to_lower expected
      in length got = length want \<and> zero_ranges rs got = zero_ranges rs want)"

section \<open>At most one submission per name\<close>

text \<open>A name was handed to Circle at most once, and only when its journal exists.\<close>

definition once_ok :: "('s, 'c) machine \<Rightarrow> bool" where
  "once_ok m \<longleftrightarrow> 
     (\<forall>n. length (submits_of n m) \<le> 1 \<and> (ops m n = Absent \<longrightarrow> submits_of n m = []))"

text \<open>What every operation keeps of the rest of the disk.\<close>

definition op_frame :: "('s, 'c) machine \<Rightarrow> ('s, 'c) machine \<Rightarrow> bool" where
  "op_frame m m' \<longleftrightarrow> journal m' = journal m \<and> reservation m' = reservation m \<and> locked m' = locked m \<and>
     (\<forall>n. ops m n \<noteq> Absent \<longrightarrow> ops m' n \<noteq> Absent) \<and> (once_ok m \<longrightarrow> once_ok m')"

text \<open>Operations under other names are left alone.\<close>

definition op_others :: "string \<Rightarrow> ('s, 'c) machine \<Rightarrow> ('s, 'c) machine \<Rightarrow> bool" where
  "op_others n m m' \<longleftrightarrow> (\<forall>k. k \<noteq> n \<longrightarrow> ops m' k = ops m k \<and> submits_of k m' = submits_of k m)"

text \<open>Programs that submit nothing.\<close>

definition no_submit :: "('s, 'c) machine \<Rightarrow> ('s, 'c) machine \<Rightarrow> bool" where
  "no_submit m m' \<longleftrightarrow> submits m' = submits m"

interpretation fr: machine_relation op_frame
  by unfold_locales (auto simp: op_frame_def once_ok_def submits_of_def)

interpretation ot: machine_relation "op_others n" for n
  by unfold_locales (auto simp: op_others_def submits_of_def)

interpretation ns: machine_relation no_submit
  by unfold_locales (auto simp: no_submit_def)

lemma op_file_frames:
  "within op_frame (saveOp n op)" "within op_frame (takeOpLock e n)" "within op_frame (dropOpLock n)"
proof -
  show "within op_frame (saveOp n op)"
    unfolding saveOp_def by (rule fr.effect) (simp add: op_frame_def once_ok_def submits_of_def)
  show "within op_frame (dropOpLock n)"
    unfolding dropOpLock_def by (rule fr.effect) (simp add: op_frame_def once_ok_def submits_of_def)
  show "within op_frame (takeOpLock e n)"
    unfolding takeOpLock_def
    by (rule fr.bind, rule fr.effect, simp add: op_frame_def once_ok_def submits_of_def, rule fr.cond, rule fr.throw, rule fr.ret)
qed

lemma op_file_others:
  "within (op_others n) (saveOp n op)" "within (op_others n) (takeOpLock e k)" "within (op_others n) (dropOpLock k)"
proof -
  show "within (op_others n) (saveOp n op)"
    unfolding saveOp_def by (rule ot.effect) (simp add: op_others_def submits_of_def)
  show "within (op_others n) (dropOpLock k)"
    unfolding dropOpLock_def by (rule ot.effect) (simp add: op_others_def submits_of_def)
  show "within (op_others n) (takeOpLock e k)"
    unfolding takeOpLock_def
    by (rule ot.bind, rule ot.effect, simp add: op_others_def submits_of_def, rule ot.cond, rule ot.throw, rule ot.ret)
qed

lemma op_file_no_submit:
  "within no_submit (saveOp n op)" "within no_submit (takeOpLock e k)" "within no_submit (dropOpLock k)"
proof -
  show "within no_submit (saveOp n op)"
    unfolding saveOp_def by (rule ns.effect) (simp add: no_submit_def)
  show "within no_submit (dropOpLock k)"
    unfolding dropOpLock_def by (rule ns.effect) (simp add: no_submit_def)
  show "within no_submit (takeOpLock e k)"
    unfolding takeOpLock_def
    by (rule ns.bind, rule ns.effect, simp add: no_submit_def, rule ns.cond, rule ns.throw, rule ns.ret)
qed

lemma note_submit_others: "within (op_others n) (noteSubmit n i)"
  by (simp add: within_def noteSubmit_def op_others_def submits_of_def)


lemmas fr_rules = fr.ret fr.throw fr.lift fr.need fr.call fr.read_files fr.cond op_file_frames
lemmas ot_rules = ot.ret ot.throw ot.lift ot.need ot.call ot.read_files ot.cond op_file_others
lemmas ns_rules = ns.ret ns.throw ns.lift ns.need ns.call ns.read_files ns.cond op_file_no_submit

context machine_relation
begin

lemma assertTestnet: "within R (assertTestnet y)"
  unfolding assertTestnet_def by (intro bind call need)

lemma circle: "within R (circle y args)"
  unfolding circle_def by (intro catch call throw)

lemma receipt: "within R (receipt y cfg op)"
  unfolding receipt_def by (intro bind lift call cond throw ret)

lemma exact_detail: "within R (exact_detail y cfg op tid)"
  unfolding exact_detail_def
  by (rule bind [OF circle]) (auto intro!: bind lift throw ret cond split: option.split list.split)

lemma search_pages: "within R (search_pages y cfg op cur left)"
proof (induction left arbitrary: cur)
  case (Suc left)
  show ?case
    unfolding search_pages.simps
    by (rule bind [OF circle])
      (auto intro!: bind lift throw ret cond Suc split: option.split json.split)
qed (simp add: ret)

lemma findFinalizedUserOperation: "within R (findFinalizedUserOperation y w h)"
  unfolding findFinalizedUserOperation_def
  by (intro bind need call lift)
    (auto intro!: bind lift throw ret cond need call split: option.split list.split prod.split)

lemma reconcile:
  assumes save: "\<And>op. within R (saveOp name op)"
  shows "within R (reconcile y cfg name)"
proof -
  have c: "within R (correlate_userop y cfg name op)" for op
    unfolding correlate_userop_def Let_def
    by (auto intro!: bind need ret findFinalizedUserOperation save split: bool.split option.split list.split)
  have f: "within R (finish_reconcile y cfg name op)" for op
    unfolding finish_reconcile_def by (intro bind c lift receipt ret)
  show ?thesis
    unfolding reconcile_def
    by (intro bind need assertTestnet read_files)
      (auto intro!: bind throw ret lift cond save exact_detail search_pages f split: option.split)
qed

lemma submit_operation:
  assumes save: "\<And>op. within R (saveOp name op)" and "within R (submit (op_key op))"
  shows "within R (submit_operation name op submit)"
proof -
  have u: "within R (uncertain_operation name op')" for op'
    unfolding uncertain_operation_def by (intro bind save throw)
  show ?thesis
    unfolding submit_operation_def Let_def
    by (intro bind catch assms(2) ret) (auto intro!: bind save ret cond u split: option.split)
qed

lemma durableOperation:
  assumes save: "\<And>op. within R (saveOp name op)" and sub: "\<And>key. within R (submit key)"
    and lock: "\<And>e. within R (takeOpLock e name)" "within R (dropOpLock name)"
    and note_: "within R (noteSubmit name intent)"
  shows "within R (durableOperation x y name intent submit)"
  unfolding durableOperation_def Let_def
  by (intro bind cleanup need lock read_files)
    (auto intro!: bind lift call save note_ submit_operation sub split: option.split)

end

text \<open>The journal is written before the intent is handed over, and only a name without a
  journal gets there.\<close>

lemma save_then_submit:
  assumes "ops m name = Absent" "within op_frame q"
  shows "op_frame m (snd (bindP (saveOp name op) (\<lambda>_. bindP (noteSubmit name i) (\<lambda>_. q)) m))"
proof (cases "budget m")
  case 0
  then show ?thesis by (simp add: bindP_def saveOp_def effect_def fr.refl)
next
  case (Suc n)
  let ?m = "m\<lparr>budget := n, ops := (ops m)(name := Stored op), submits := submits m @ [(name, i)]\<rparr>"
  have s: "submits_of k ?m = (if k = name then submits_of k m @ [i] else submits_of k m)" for k
    by (simp add: submits_of_def)
  have o: "ops ?m k = Absent \<longleftrightarrow> k \<noteq> name \<and> ops m k = Absent" for k by simp
  have "once_ok ?m" if "once_ok m"
    using that assms(1) unfolding once_ok_def s o by auto
  then have "op_frame m ?m" unfolding op_frame_def o by simp
  moreover have "op_frame ?m (snd (q ?m))" using assms(2) unfolding within_def by blast
  ultimately have "op_frame m (snd (q ?m))" by (rule fr.trans)
  moreover have "bindP (saveOp name op) (\<lambda>_. bindP (noteSubmit name i) (\<lambda>_. q)) m = q ?m"
    by (simp add: bindP_def saveOp_def effect_def noteSubmit_def Suc)
  ultimately show ?thesis by (simp only:)
qed

lemma durableOperation_frame:
  assumes sub: "\<And>key. within op_frame (submit key)"
  shows "within op_frame (durableOperation x y name intent submit)"
proof -
  let ?new = "bindP (callP (random_uuid y)) (\<lambda>key. bindP (callP (now_iso y)) (\<lambda>created.
    (let op = \<lparr>op_version = 1, op_name = name, op_intent = intent,
         op_intentHash = intent_hash x intent, op_key = key, op_created = created,
         op_status = Submitting, op_result = None\<rparr>
     in bindP (saveOp name op) (\<lambda>_. bindP (noteSubmit name intent) (\<lambda>_. submit_operation name op submit)))))"
  have new: "op_frame m (snd (?new m))" if "ops m name = Absent" for m
    unfolding Let_def
    by (intro fr.bind_at fr.call save_then_submit fr.submit_operation op_file_frames sub)
      (use that in \<open>auto dest!: callP_ops\<close>)
  have "within op_frame (bindP (readOp name) (\<lambda>previous. case previous of
      Some prev \<Rightarrow> liftP (earlier_operation prev (intent_hash x intent)) | None \<Rightarrow> ?new))"
    unfolding within_def
  proof
    fix m
    show "op_frame m (snd (bindP (readOp name) (\<lambda>previous. case previous of
        Some prev \<Rightarrow> liftP (earlier_operation prev (intent_hash x intent)) | None \<Rightarrow> ?new) m))"
    proof (rule fr.bind_at [OF fr.read_files(3)])
      fix a m' assume "readOp name m = (Ret a, m')"
      then show "op_frame m' (snd ((case a of Some prev \<Rightarrow> liftP (earlier_operation prev (intent_hash x intent))
          | None \<Rightarrow> ?new) m'))"
        using new [OF readOp_None] fr.lift by (cases a) (auto simp: within_def)
    qed
  qed
  note body = this
  show ?thesis
    unfolding durableOperation_def
    by (rule fr.bind [OF fr.need], rule fr.bind [OF op_file_frames(2)], rule fr.cleanup [OF body op_file_frames(3)])
qed

lemma executeCircle_frame: "within op_frame (executeCircle x y cfg name contract sig params)"
  unfolding executeCircle_def
  by (intro fr.bind fr.need fr.assertTestnet fr.lift durableOperation_frame fr.circle)

lemma executeCircleCalldata_frame: "within op_frame (executeCircleCalldata x y cfg name contract data)"
  unfolding executeCircleCalldata_def
  by (intro fr.bind fr.need fr.assertTestnet fr.lift durableOperation_frame fr.circle)

lemma approveCircleUsdc_frame: "within op_frame (approveCircleUsdc x y cfg name settlement amount)"
  unfolding approveCircleUsdc_def by (intro fr.bind fr.need executeCircle_frame)

lemma settleCircleOrder_frame: "within op_frame (settleCircleOrder x y cfg name settlement so)"
  unfolding settleCircleOrder_def by (intro fr.bind fr.lift executeCircle_frame)

lemma reconcile_frame: "within op_frame (reconcile y cfg name)"
  by (intro fr.reconcile op_file_frames)

section \<open>Commands\<close>

text \<open>What scripts and the executor ask of Circle.\<close>

datatype circle_command =
    Execute string string string "string list"
  | ExecuteCalldata string string string
  | Approve string string int
  | Settle string string settlement_order
  | Reconcile string

fun run_command ::
    "ext \<Rightarrow> 'c circle_ext \<Rightarrow> circle_config \<Rightarrow> circle_command \<Rightarrow> ('s, 'c, operation) prog" where
  "run_command x y cfg (Execute name contract sig params) = executeCircle x y cfg name contract sig params"
| "run_command x y cfg (ExecuteCalldata name contract data) = executeCircleCalldata x y cfg name contract data"
| "run_command x y cfg (Approve name settlement amount) = approveCircleUsdc x y cfg name settlement amount"
| "run_command x y cfg (Settle name settlement so) = settleCircleOrder x y cfg name settlement so"
| "run_command x y cfg (Reconcile name) = reconcile y cfg name"

lemma run_command_frame: "within op_frame (run_command x y cfg c)"
  by (cases c) (simp_all add: executeCircle_frame executeCircleCalldata_frame approveCircleUsdc_frame
      settleCircleOrder_frame reconcile_frame)

lemma once_ok_restart: "once_ok m \<Longrightarrow> once_ok (restart n m)"
  by (simp add: once_ok_def restart_def submits_of_def)

lemma once_ok_commands:
  fixes m :: "('s, 'c) machine"
  assumes "once_ok m"
  shows "once_ok (run_all (map (\<lambda>(b, c). (b, run_command x y cfg c)) cmds) m)"
proof (rule run_all_invariant [of once_ok])
  fix b and p :: "('s, 'c, operation) prog" and m' :: "('s, 'c) machine"
  assume "(b, p) \<in> set (map (\<lambda>(b, c). (b, run_command x y cfg c)) cmds)" "once_ok m'"
  then show "once_ok (snd (p m'))"
    using run_command_frame [of x y cfg] by (auto simp: within_def op_frame_def)
qed (rule once_ok_restart, assumption, rule assms)

definition after_commands ::
    "ext \<Rightarrow> 'c circle_ext \<Rightarrow> circle_config \<Rightarrow> (nat \<times> circle_command) list \<Rightarrow> 'c \<Rightarrow> (unit, 'c) machine" where
  "after_commands x y cfg cmds w =
     run_all (map (\<lambda>(b, c). (b, run_command x y cfg c)) cmds) (empty_machine w)"

text \<open>
  C1. No operation name is ever handed to Circle twice: from an empty operation directory, after
  any sequence of commands, each of which may die between any two effects, and after any removal
  of stale locks, each name was submitted at most once, and only if its journal is on disk.
\<close>

theorem circle_submits_once:
  "length (submits_of n (after_commands x y cfg cmds w)) \<le>
     (if ops (after_commands x y cfg cmds w) n = Absent then 0 else 1)"
proof -
  have "once_ok (after_commands x y cfg cmds w)"
    unfolding after_commands_def
    by (rule once_ok_commands) (simp add: once_ok_def submits_of_def empty_machine_def)
  then show ?thesis by (simp add: once_ok_def)
qed

end
