(* ===== verification/Bytes.thy ===== *)
theory Bytes
  imports Prelude
begin

text \<open>
  Bytes: the UTF-8 encoding of a string, and the \<open>base64url\<close> text of
  \<open>Buffer.from(s).toString('base64url')\<close> and its decoder
  \<open>Buffer.from(s, 'base64url')\<close>. A byte is a number below 256. Strings hold code units below
  256 (see \<open>Prelude\<close>), so each takes one or two bytes; a decoder that meets other UTF-8
  sequences yields the replacement character of the model, \<open>?\<close>.
\<close>

section \<open>UTF-8\<close>

fun utf8 :: "string \<Rightarrow> nat list" where
  "utf8 [] = []"
| "utf8 (c # cs) =
     (if code c < 128 then code c # utf8 cs
      else (192 + code c div 64) # (128 + code c mod 64) # utf8 cs)"

fun of_utf8 :: "nat list \<Rightarrow> string" where
  "of_utf8 [] = []"
| "of_utf8 [b] = (if b < 128 then [char_of b] else ''?'')"
| "of_utf8 (b # c # bs) =
     (if b < 128 then char_of b # of_utf8 (c # bs)
      else if (b = 194 \<or> b = 195) \<and> 128 \<le> c \<and> c < 192 then char_of ((b - 192) * 64 + (c - 128)) # of_utf8 bs
      else CHR ''?'' # of_utf8 (c # bs))"

lemma code_lt_256: "code c < 256"
  by (simp add: code_def)

lemma char_of_code [simp]: "char_of (code c) = c"
  by (simp add: code_def)

lemma of_utf8_utf8 [simp]: "of_utf8 (utf8 s) = s"
proof (induction s)
  case (Cons c s)
  show ?case
  proof (cases "code c < 128")
    case True
    then show ?thesis using Cons by (cases "utf8 s") auto
  next
    case False
    let ?k = "code c"
    have lt: "?k < 256" by (rule code_lt_256)
    have d: "?k div 64 = 2 \<or> ?k div 64 = 3"
    proof -
      have "?k div 64 < 4" using lt by (simp add: less_mult_imp_div_less)
      moreover have "128 div 64 \<le> ?k div 64" using False by (intro div_le_mono) simp
      ultimately show ?thesis by auto
    qed
    have v: "(192 + ?k div 64 - 192) * 64 + (128 + ?k mod 64 - 128) = ?k"
      by (simp only: diff_add_inverse div_mult_mod_eq)
    have "of_utf8 ((192 + ?k div 64) # (128 + ?k mod 64) # utf8 s) =
        char_of ((192 + ?k div 64 - 192) * 64 + (128 + ?k mod 64 - 128)) # of_utf8 (utf8 s)"
    proof -
      have "\<not> 192 + ?k div 64 < 128" by simp
      moreover have "(192 + ?k div 64 = 194 \<or> 192 + ?k div 64 = 195) \<and> 128 \<le> 128 + ?k mod 64 \<and>
          128 + ?k mod 64 < 192"
        using d by auto
      ultimately show ?thesis by (simp only: of_utf8.simps(3) simp_thms if_False if_True)
    qed
    with Cons False show ?thesis by (simp only: utf8.simps if_False v char_of_code)
  qed
qed simp

lemma utf8_length_utf8: "length (utf8 s) = utf8_length s"
  by (induction s) auto

lemma utf8_bytes: "b \<in> set (utf8 s) \<Longrightarrow> b < 256"
proof (induction s)
  case (Cons c s)
  have "code c < 256" by (rule code_lt_256)
  with Cons show ?case by (auto split: if_splits)
qed simp

section \<open>base64url\<close>

definition b64_alphabet :: string where
  "b64_alphabet = ''ABCDEFGHIJKLMNOPQRSTUVWXYZabcdefghijklmnopqrstuvwxyz0123456789-_''"

definition b64_char :: "nat \<Rightarrow> char" where
  "b64_char n = b64_alphabet ! n"

text \<open>The value of a character; \<open>+\<close> and \<open>/\<close> of the other alphabet are read too.\<close>

definition b64_val :: "char \<Rightarrow> nat option" where
  "b64_val c =
     (if char_between 65 90 c then Some (code c - 65)
      else if char_between 97 122 c then Some (code c - 71)
      else if char_between 48 57 c then Some (code c + 4)
      else if c = CHR ''-'' \<or> c = CHR ''+'' then Some 62
      else if c = CHR ''_'' \<or> code c = 47 then Some 63
      else None)"

fun b64_sextets :: "nat list \<Rightarrow> nat list" where
  "b64_sextets [] = []"
| "b64_sextets [a] = [a div 4, (a mod 4) * 16]"
| "b64_sextets [a, b] = [a div 4, (a mod 4) * 16 + b div 16, (b mod 16) * 4]"
| "b64_sextets (a # b # c # bs) =
     [a div 4, (a mod 4) * 16 + b div 16, (b mod 16) * 4 + c div 64, c mod 64] @ b64_sextets bs"

fun b64_bytes :: "nat list \<Rightarrow> nat list" where
  "b64_bytes (p # q # r # s # ss) =
     [p * 4 + q div 16, (q mod 16) * 16 + r div 4, (r mod 4) * 64 + s] @ b64_bytes ss"
| "b64_bytes [p, q, r] = [p * 4 + q div 16, (q mod 16) * 16 + r div 4]"
| "b64_bytes [p, q] = [p * 4 + q div 16]"
| "b64_bytes _ = []"

definition base64url :: "nat list \<Rightarrow> string" where
  "base64url bs = map b64_char (b64_sextets bs)"

text \<open>Decoding stops at the padding and skips what is in neither alphabet.\<close>

definition of_base64url :: "string \<Rightarrow> nat list" where
  "of_base64url s = b64_bytes (List.map_filter b64_val (takeWhile (\<lambda>c. c \<noteq> CHR ''='') s))"

definition is_b64_char :: "char \<Rightarrow> bool" where
  "is_b64_char c \<longleftrightarrow> is_alnum c \<or> c = CHR ''-'' \<or> c = CHR ''_''"

lemma b64_alphabet_vals:
  "map b64_val b64_alphabet = map Some [0..<64] \<and> list_all is_b64_char b64_alphabet \<and> length b64_alphabet = 64"
  by code_simp

lemma b64_alphabet_no_pad: "CHR ''='' \<notin> set b64_alphabet \<and> CHR ''.'' \<notin> set b64_alphabet"
  by code_simp

lemma b64_char_props:
  assumes "n < 64"
  shows "b64_val (b64_char n) = Some n" "is_b64_char (b64_char n)" "b64_char n \<noteq> CHR ''=''" "b64_char n \<noteq> CHR ''.''"
proof -
  have l: "length b64_alphabet = 64" using b64_alphabet_vals by simp
  have "map b64_val b64_alphabet ! n = map Some [0..<64] ! n" using b64_alphabet_vals by simp
  then show "b64_val (b64_char n) = Some n" using assms l by (simp add: b64_char_def)
  have m: "b64_char n \<in> set b64_alphabet" using assms l by (simp add: b64_char_def)
  then show "is_b64_char (b64_char n)" using b64_alphabet_vals by (auto simp: list_all_iff)
  show "b64_char n \<noteq> CHR ''=''" "b64_char n \<noteq> CHR ''.''" using m b64_alphabet_no_pad by auto
qed

lemma b64_sextets_lt: "\<forall>b \<in> set bs. b < 256 \<Longrightarrow> n \<in> set (b64_sextets bs) \<Longrightarrow> n < 64"
proof (induction bs rule: b64_sextets.induct)
  case (4 a b c bs)
  then show ?case by auto
qed auto

lemma b64_bytes_sextets: "\<forall>b \<in> set bs. b < 256 \<Longrightarrow> b64_bytes (b64_sextets bs) = bs"
proof (induction bs rule: b64_sextets.induct)
  case (4 a b c bs)
  have q: "((a mod 4) * 16 + b div 16) div 16 = a mod 4" "((a mod 4) * 16 + b div 16) mod 16 = b div 16"
    using 4(2) by auto
  have r: "((b mod 16) * 4 + c div 64) div 4 = b mod 16" "((b mod 16) * 4 + c div 64) mod 4 = c div 64"
    using 4(2) by auto
  have e: "b div 16 mod 16 * 16 + b mod 16 = b" "c div 64 mod 4 * 64 + c mod 64 = c"
  proof -
    have "b div 16 < 16" "c div 64 < 4" using 4(2) by (simp_all add: less_mult_imp_div_less)
    then have "b div 16 mod 16 = b div 16" "c div 64 mod 4 = c div 64" by (simp_all only: mod_less)
    then show "b div 16 mod 16 * 16 + b mod 16 = b" "c div 64 mod 4 * 64 + c mod 64 = c"
      by (simp_all only: div_mult_mod_eq)
  qed
  show ?case using 4 by (simp add: q r) (metis e add.commute)
next
  case (3 a b)
  have q: "((a mod 4) * 16 + b div 16) div 16 = a mod 4" "((a mod 4) * 16 + b div 16) mod 16 = b div 16"
    using 3 by auto
  have "b div 16 < 16" using 3 by (simp add: less_mult_imp_div_less)
  then have "b div 16 mod 16 = b div 16" by (rule mod_less)
  then have "b div 16 mod 16 * 16 + b mod 16 = b" by (simp only: div_mult_mod_eq)
  then show ?case by (simp add: q)
qed auto

lemma of_base64url_base64url:
  assumes "\<forall>b \<in> set bs. b < 256"
  shows "of_base64url (base64url bs) = bs"
proof -
  have lt: "\<forall>n \<in> set (b64_sextets bs). n < 64" using b64_sextets_lt [OF assms] by blast
  have "takeWhile (\<lambda>c. c \<noteq> CHR ''='') (map b64_char ns) = map b64_char ns" if "\<forall>n \<in> set ns. n < 64" for ns
    using that by (induction ns) (auto simp: b64_char_props)
  then have "takeWhile (\<lambda>c. c \<noteq> CHR ''='') (map b64_char (b64_sextets bs)) = map b64_char (b64_sextets bs)"
    using lt by blast
  moreover have "List.map_filter b64_val (map b64_char ns) = ns" if "\<forall>n \<in> set ns. n < 64" for ns
    using that by (induction ns) (auto simp: b64_char_props List.map_filter_simps)
  ultimately show ?thesis
    using lt b64_bytes_sextets [OF assms] by (simp only: of_base64url_def base64url_def)
qed

lemma base64url_chars: "\<forall>b \<in> set bs. b < 256 \<Longrightarrow> c \<in> set (base64url bs) \<Longrightarrow> is_b64_char c \<and> c \<noteq> CHR ''.''"
  using b64_sextets_lt by (auto simp: base64url_def b64_char_props)

lemma b64_sextets_length: "length (b64_sextets bs) = (4 * length bs + 2) div 3"
  by (induction bs rule: b64_sextets.induct) auto

lemma base64url_length: "length (base64url bs) = (4 * length bs + 2) div 3"
  by (simp add: base64url_def b64_sextets_length)

section \<open>Splitting a token at its dots\<close>

lemma split_on_no: "c \<notin> set s \<Longrightarrow> split_on c s = [s]"
  by (induction s) auto

lemma split_on_append: "c \<notin> set a \<Longrightarrow> split_on c (a @ c # b) = a # split_on c b"
  by (induction a) auto

end
