(* ===== verification/IsoDate.thy ===== *)
theory IsoDate
  imports Bytes JsonParse
begin

text \<open>
  Time stamps: \<open>Date.parse\<close> and \<open>Date.prototype.toISOString\<close>. A time is an integer
  number of milliseconds since 1970-01-01T00:00:00Z, as the language has it. The texts that
  \<open>z.iso.datetime\<close> accepts are read by the definitions here; what an engine makes of other
  texts is left to it by the language, so it is the argument \<open>legacy\<close> (\<open>None\<close> for
  \<open>NaN\<close>).
\<close>

section \<open>The calendar\<close>

definition leap :: "int \<Rightarrow> bool" where
  "leap y \<longleftrightarrow> y mod 4 = 0 \<and> (y mod 100 \<noteq> 0 \<or> y mod 400 = 0)"

text \<open>The days from 0000-01-01 to the first of January of year \<open>y\<close>.\<close>

definition days_before :: "int \<Rightarrow> int" where
  "days_before y = 365 * y + (y + 3) div 4 - (y + 99) div 100 + (y + 399) div 400"

definition epoch_day :: int where
  "epoch_day = 719528"

definition year_of_day :: "int \<Rightarrow> int" where
  "year_of_day d =
     (let e = 400 * d div 146097
      in if d < days_before e then e - 1 else if days_before (e + 1) \<le> d then e + 1 else e)"

definition month_starts :: "bool \<Rightarrow> int list" where
  "month_starts l =
     (if l then [0, 31, 60, 91, 121, 152, 182, 213, 244, 274, 305, 335, 366]
      else [0, 31, 59, 90, 120, 151, 181, 212, 243, 273, 304, 334, 365])"

text \<open>The month, from 1, of the day \<open>n\<close> of a year, and the length of a month.\<close>

definition month_of_day :: "bool \<Rightarrow> int \<Rightarrow> nat" where
  "month_of_day l n = length (takeWhile (\<lambda>s. s \<le> n) (month_starts l))"

definition month_start :: "bool \<Rightarrow> nat \<Rightarrow> int" where
  "month_start l m = month_starts l ! (m - 1)"

definition month_days :: "bool \<Rightarrow> nat \<Rightarrow> int" where
  "month_days l m = month_starts l ! m - month_starts l ! (m - 1)"

lemma div_bounds:
  assumes "0 < (k :: int)"
  shows "k * (a div k) \<le> a" "a < k * (a div k) + k"
proof -
  have e: "k * (a div k) + a mod k = a" by simp
  show "k * (a div k) \<le> a" using e pos_mod_sign [OF assms, of a] by linarith
  show "a < k * (a div k) + k" using e pos_mod_bound [OF assms, of a] by linarith
qed

lemma days_before_lower: "146097 * y - 396 \<le> 400 * days_before y"
proof -
  have "y + 3 < 4 * ((y + 3) div 4) + 4" "100 * ((y + 99) div 100) \<le> y + 99"
    "y + 399 < 400 * ((y + 399) div 400) + 400"
    by (rule div_bounds, simp)+
  then show ?thesis unfolding days_before_def by simp
qed

lemma days_before_upper: "400 * days_before y \<le> 146097 * y + 699"
proof -
  have "4 * ((y + 3) div 4) \<le> y + 3" "y + 99 < 100 * ((y + 99) div 100) + 100"
    "400 * ((y + 399) div 400) \<le> y + 399"
    by (rule div_bounds, simp)+
  then show ?thesis unfolding days_before_def by simp
qed

lemma year_of_day_bounds:
  "days_before (year_of_day d) \<le> d \<and> d < days_before (year_of_day d + 1)"
proof -
  define e where "e = 400 * d div 146097"
  have e: "146097 * e \<le> 400 * d" "400 * d < 146097 * e + 146097"
    unfolding e_def by (rule div_bounds, simp)+
  have b: "days_before (e - 1) \<le> d"
    using e days_before_upper [of "e - 1"] by simp
  have c: "d < days_before (e + 2)"
    using e days_before_lower [of "e + 2"] by simp
  have y: "year_of_day d =
      (if d < days_before e then e - 1 else if days_before (e + 1) \<le> d then e + 1 else e)"
    by (simp only: year_of_day_def Let_def e_def)
  consider "d < days_before e" | "\<not> d < days_before e" "days_before (e + 1) \<le> d"
    | "\<not> d < days_before e" "\<not> days_before (e + 1) \<le> d" by blast
  then show ?thesis
    by cases (simp_all add: y b c c [unfolded add.commute [of e]])
qed

lemma div_step:
  assumes "0 < (k :: int)" "j = k - 1"
  shows "(y + 1 + j) div k = (y + j) div k + (if y mod k = 0 then 1 else 0)"
proof -
  define q r where "q = y div k" and "r = y mod k"
  have r: "0 \<le> r" "r < k" using assms by (simp_all add: r_def)
  have y: "y = r + k * q" by (simp add: q_def r_def)
  have "(y + 1 + j) div k = (r + k * (q + 1)) div k" by (simp add: y assms(2) algebra_simps)
  also have "\<dots> = q + 1" using r assms by (simp only: div_mult_self2) simp
  finally have l: "(y + 1 + j) div k = q + 1" .
  have "(y + j) div k = q + (if r = 0 then 0 else 1)"
  proof (cases "r = 0")
    case True
    then have "(y + j) div k = ((k - 1) + k * q) div k" by (simp add: y assms(2) algebra_simps)
    also have "\<dots> = q" using assms by (simp only: div_mult_self2) simp
    finally show ?thesis using True by simp
  next
    case False
    then have "(y + j) div k = ((r - 1) + k * (q + 1)) div k" by (simp add: y assms(2) algebra_simps)
    also have "\<dots> = q + 1" using r assms False by (simp only: div_mult_self2) simp
    finally show ?thesis using False by simp
  qed
  with l show ?thesis by (simp add: r_def)
qed

lemma days_before_Suc: "days_before (y + 1) = days_before y + (if leap y then 366 else 365)"
proof -
  have h: "y mod 400 = 0 \<Longrightarrow> y mod 100 = 0" "y mod 100 = 0 \<Longrightarrow> y mod 4 = 0"
    by (auto simp: mod_eq_0_iff_dvd intro: dvd_trans [of 100 400] dvd_trans [of 4 100])
  have s: "(y + 1 + 3) div 4 = (y + 3) div 4 + (if y mod 4 = 0 then 1 else 0)"
    "(y + 1 + 99) div 100 = (y + 99) div 100 + (if y mod 100 = 0 then 1 else 0)"
    "(y + 1 + 399) div 400 = (y + 399) div 400 + (if y mod 400 = 0 then 1 else 0)"
    by (rule div_step; simp)+
  have e: "days_before (y + 1) = days_before y + 365 + (if y mod 4 = 0 then 1 else 0)
      - (if y mod 100 = 0 then 1 else 0) + (if y mod 400 = 0 then 1 else 0)"
    unfolding days_before_def s by (simp add: distrib_left)
  show ?thesis
    using h unfolding e leap_def by (cases "y mod 400 = 0"; cases "y mod 100 = 0"; cases "y mod 4 = 0") simp_all
qed

lemma month_of_day_bounds:
  assumes "0 \<le> n" "n < (if l then 366 else 365)"
  shows "1 \<le> month_of_day l n \<and> month_of_day l n \<le> 12 \<and>
    month_starts l ! (month_of_day l n - 1) \<le> n \<and> n < month_starts l ! month_of_day l n"
proof -
  let ?xs = "month_starts l" and ?P = "\<lambda>s. s \<le> n"
  let ?m = "length (takeWhile ?P ?xs)"
  have x: "length ?xs = 13" "?xs ! 0 \<le> n" "\<not> ?P (?xs ! 12)"
    using assms by (auto simp: month_starts_def)
  have "?m \<noteq> 0"
    using x(1,2) by (cases ?xs) auto
  then have lo: "?P (?xs ! (?m - 1))"
    using takeWhile_nth [of "?m - 1" ?P ?xs] set_takeWhileD [of "?xs ! (?m - 1)" ?P ?xs]
      nth_mem [of "?m - 1" "takeWhile ?P ?xs"] by simp
  have "?m < 13"
  proof (rule ccontr)
    assume "\<not> ?m < 13"
    then have "takeWhile ?P ?xs = ?xs"
      using x(1) length_takeWhile_le [of ?P ?xs] by (metis le_antisym linorder_not_less takeWhile_eq_all_conv takeWhile_nth nth_equalityI)
    then have "?P (?xs ! 12)" using x(1) by (auto simp: takeWhile_eq_all_conv)
    with x(3) show False by simp
  qed
  then have hi: "\<not> ?P (?xs ! ?m)"
    using x(1) by (intro nth_length_takeWhile) simp
  show ?thesis
    using \<open>?m \<noteq> 0\<close> \<open>?m < 13\<close> lo hi by (simp add: month_of_day_def Suc_le_eq)
qed

section \<open>Printing\<close>

definition pad2 :: "nat \<Rightarrow> string" where
  "pad2 n = [digit_char (n div 10), digit_char (n mod 10)]"

definition pad3 :: "nat \<Rightarrow> string" where
  "pad3 n = digit_char (n div 100) # pad2 (n mod 100)"

definition pad4 :: "nat \<Rightarrow> string" where
  "pad4 n = pad2 (n div 100) @ pad2 (n mod 100)"

text \<open>Years outside 0 to 9999 take a sign and six digits.\<close>

definition year_text :: "int \<Rightarrow> string" where
  "year_text y =
     (if 0 \<le> y \<and> y \<le> 9999 then pad4 (nat y)
      else (if y < 0 then ''-'' else ''+'') @ pad2 (nat \<bar>y\<bar> div 10000) @ pad4 (nat \<bar>y\<bar> mod 10000))"

definition day_text :: "int \<Rightarrow> string" where
  "day_text d =
     (let y = year_of_day d; n = d - days_before y; m = month_of_day (leap y) n
      in year_text y @ ''-'' @ pad2 m @ ''-'' @ pad2 (nat (n - month_start (leap y) m + 1)))"

definition clock_text :: "nat \<Rightarrow> string" where
  "clock_text ms =
     pad2 (ms div 3600000) @ '':'' @ pad2 (ms div 60000 mod 60) @ '':'' @
     pad2 (ms div 1000 mod 60) @ ''.'' @ pad3 (ms mod 1000) @ ''Z''"

text \<open>\<open>new Date(t).toISOString()\<close> throws beyond 100,000,000 days from the epoch.\<close>

definition to_iso :: "int \<Rightarrow> string res" where
  "to_iso t =
     (if 8640000000000000 < \<bar>t\<bar> then Inl (Thrown ''RangeError'')
      else Inr (day_text (t div 86400000 + epoch_day) @ ''T'' @ clock_text (nat (t mod 86400000))))"

section \<open>Reading\<close>

definition two :: "char \<Rightarrow> char \<Rightarrow> int" where
  "two a b = int (10 * digit_val a + digit_val b)"

fun p_day :: "string \<Rightarrow> int option" where
  "p_day [a, b, c, d, s, e, f, s', g, h] =
     (let y = 100 * two a b + two c d; m = nat (two e f); n = two g h
      in if list_all is_digit [a, b, c, d, e, f, g, h] \<and> s = CHR ''-'' \<and> s' = CHR ''-'' \<and>
            1 \<le> m \<and> m \<le> 12 \<and> 1 \<le> n \<and> n \<le> month_days (leap y) m
         then Some (days_before y + month_start (leap y) m + n - 1) else None)"
| "p_day _ = None"

fun p_minutes :: "string \<Rightarrow> (int \<times> string) option" where
  "p_minutes (a # b # s # c # d # r) =
     (if list_all is_digit [a, b, c, d] \<and> s = CHR '':'' \<and> two a b \<le> 23 \<and> two c d \<le> 59
      then Some (60 * two a b + two c d, r) else None)"
| "p_minutes _ = None"

fun p_millis :: "string \<Rightarrow> int \<times> string" where
  "p_millis (s # r) =
     (let ds = takeWhile is_digit r
      in if s = CHR ''.'' \<and> ds \<noteq> [] then (dec_int (take 3 (ds @ ''00'')), dropWhile is_digit r)
         else (0, s # r))"
| "p_millis [] = (0, [])"

fun p_seconds :: "string \<Rightarrow> int \<times> string" where
  "p_seconds (s # a # b # r) =
     (if s = CHR '':'' \<and> is_digit a \<and> is_digit b \<and> two a b \<le> 59
      then (let (ms, r') = p_millis r in (1000 * two a b + ms, r'))
      else (0, s # a # b # r))"
| "p_seconds r = (0, r)"

text \<open>The zone: \<open>Z\<close>, or a signed offset where the schema allows one.\<close>

definition p_zone :: "bool \<Rightarrow> string \<Rightarrow> int option" where
  "p_zone offset s =
     (if s = ''Z'' then Some 0
      else case s of
        g # r \<Rightarrow> if offset \<and> (g = CHR ''+'' \<or> g = CHR ''-'')
           then (case p_minutes r of Some (k, []) \<Rightarrow> Some (if g = CHR ''-'' then - k else k) | _ \<Rightarrow> None)
           else None
      | [] \<Rightarrow> None)"

text \<open>\<open>z.iso.datetime({offset})\<close> with the time it denotes.\<close>

definition iso_datetime :: "bool \<Rightarrow> string \<Rightarrow> int option" where
  "iso_datetime offset s =
     (case (p_day (take 10 s), drop 10 s) of
       (Some d, t # r) \<Rightarrow>
         if t \<noteq> CHR ''T'' then None
         else (case p_minutes r of
           None \<Rightarrow> None
         | Some (k, r') \<Rightarrow>
             (case p_seconds r' of (ms, z) \<Rightarrow>
               map_option (\<lambda>shift. 86400000 * (d - epoch_day) + 60000 * (k - shift) + ms) (p_zone offset z)))
     | _ \<Rightarrow> None)"

text \<open>\<open>Date.parse\<close>.\<close>

definition date_parse :: "(string \<Rightarrow> int option) \<Rightarrow> string \<Rightarrow> int option" where
  "date_parse legacy s = (case iso_datetime True s of Some t \<Rightarrow> Some t | None \<Rightarrow> legacy s)"

section \<open>The round trip\<close>

lemma two_pad: "n < 100 \<Longrightarrow> two (digit_char (n div 10)) (digit_char (n mod 10)) = int n"
  by (simp add: two_def less_mult_imp_div_less)

lemma pad_digits: "n < 100 \<Longrightarrow> is_digit (digit_char (n div 10)) \<and> is_digit (digit_char (n mod 10))"
  by (simp add: less_mult_imp_div_less)

lemma iso_datetime_mono: "iso_datetime False s = Some t \<Longrightarrow> iso_datetime True s = Some t"
  by (auto simp: iso_datetime_def p_zone_def split: option.splits list.splits if_splits prod.splits)

lemma date_parse_iso: "iso_datetime b s = Some t \<Longrightarrow> date_parse legacy s = Some t"
  by (cases b) (auto simp: date_parse_def dest: iso_datetime_mono)

lemma p_day_text:
  assumes "0 \<le> d" "d < 3652425"
  shows "length (day_text d) = 10 \<and> p_day (day_text d) = Some d"
proof -
  define y where "y = year_of_day d"
  define n where "n = d - days_before y"
  define l where "l = leap y"
  define m where "m = month_of_day l n"
  define k where "k = nat (n - month_start l m + 1)"
  have b: "days_before y \<le> d" "d < days_before (y + 1)"
    using year_of_day_bounds [of d] by (simp_all add: y_def)
  have "- 1 \<le> y"
    using b(2) assms(1) days_before_upper [of "y + 1"] by simp
  moreover have "y \<noteq> - 1"
    using b(2) assms(1) by (auto simp: days_before_def)
  ultimately have y: "0 \<le> y" by simp
  have y9: "y \<le> 9999"
    using b(1) assms(2) days_before_lower [of y] by simp
  have n: "0 \<le> n" "n < (if l then 366 else 365)"
    using b days_before_Suc [of y] by (simp_all add: n_def l_def split: if_splits)
  note mb = month_of_day_bounds [OF n, folded m_def]
  have k: "1 \<le> int k" "int k \<le> month_days l m" "k < 100"
  proof -
    show "1 \<le> int k" "int k \<le> month_days l m"
      using mb by (simp_all add: k_def month_start_def month_days_def)
    have "month_days l m \<le> 99"
    proof -
      have "m \<in> {1..12}" using mb by simp
      then have "m \<in> set [1..<13]" by simp
      moreover have "list_all (\<lambda>m. month_days True m \<le> 99 \<and> month_days False m \<le> 99) [1..<13]"
        by code_simp
      ultimately show ?thesis by (cases l) (simp_all add: list_all_iff)
    qed
    with \<open>int k \<le> month_days l m\<close> show "k < 100" by simp
  qed
  have yn: "nat y div 100 < 100" "nat y mod 100 < 100" using y y9 by (simp_all add: less_mult_imp_div_less)
  have yv: "100 * int (nat y div 100) + int (nat y mod 100) = y"
    using y by (metis int_nat_eq mult_div_mod_eq of_nat_add of_nat_mult of_nat_numeral)
  have out: "day_text d = pad2 (nat y div 100) @ pad2 (nat y mod 100) @ ''-'' @ pad2 m @ ''-'' @ pad2 k"
    using y y9 by (simp add: day_text_def Let_def year_text_def pad4_def k_def m_def l_def n_def y_def)
  have m: "m < 100" using mb by simp
  have "days_before y + month_start l m + int k - 1 = d"
    using mb by (simp add: k_def n_def month_start_def)
  then show ?thesis
    using k m mb by (simp add: out pad2_def Let_def two_pad [OF yn(1)] two_pad [OF yn(2)] two_pad [OF m]
      two_pad [OF k(3)] pad_digits yn yv flip: l_def)
qed

lemma p_clock_text:
  assumes "ms < 86400000"
  obtains k r where "p_minutes (clock_text ms) = Some (k, r)"
    "p_seconds r = (int (ms mod 60000), ''Z'')" "60000 * k + int (ms mod 60000) = int ms"
proof -
  define h mi s f where "h = ms div 3600000" and "mi = ms div 60000 mod 60"
    and "s = ms div 1000 mod 60" and "f = ms mod 1000"
  have h: "h < 24" using assms by (simp add: h_def less_mult_imp_div_less)
  have lt: "mi < 60" "s < 60" "f < 1000" by (simp_all add: mi_def s_def f_def)
  have b: "h < 100" "mi < 100" "s < 100" "f mod 100 < 100" "f div 100 < 10"
    using h lt by (simp_all add: less_mult_imp_div_less)
  have sf: "1000 * s + f = ms mod 60000"
    using mod_mult2_eq [of ms 1000 60] by (simp add: s_def f_def)
  have hm: "60 * h + mi = ms div 60000"
  proof -
    have "ms div 60000 div 60 = h" by (simp add: h_def div_mult2_eq flip: div_mult2_eq)
    then show ?thesis using mult_div_mod_eq [of 60 "ms div 60000"] by (simp add: mi_def)
  qed
  have v3: "int (dec_val (pad3 f)) = int f"
    using b by (simp add: pad3_def pad2_def dec_val_def less_mult_imp_div_less)
  have d3: "list_all is_digit (pad3 f)" "length (pad3 f) = 3"
    using b pad_digits [OF b(4)] by (simp_all add: pad3_def pad2_def)
  have tw: "takeWhile is_digit (pad3 f @ ''Z'') = pad3 f" "dropWhile is_digit (pad3 f @ ''Z'') = ''Z''"
    by (rule takeWhile_digits [OF d3(1)]; simp add: is_digit_def char_between_def code_def)+
  define r where "r = CHR '':'' # pad2 s @ ''.'' @ pad3 f @ ''Z''"
  have "p_minutes (clock_text ms) = Some (60 * int h + int mi, r)"
    using h lt by (simp add: clock_text_def r_def two_pad [OF b(1)] two_pad [OF b(2)] pad_digits b pad2_def
        flip: h_def mi_def s_def f_def)
  moreover have "p_seconds r = (int (ms mod 60000), ''Z'')"
  proof -
    have "p_millis (CHR ''.'' # pad3 f @ ''Z'') = (int f, ''Z'')"
      using d3(2) by (simp add: tw dec_int_def v3 Let_def) (auto simp: pad3_def)
    moreover have "1000 * int s + int f = int (ms mod 60000)" using sf by (metis of_nat_add of_nat_mult of_nat_numeral)
    ultimately show ?thesis
      using lt by (simp add: r_def pad2_def two_pad [OF b(3)] pad_digits b)
  qed
  moreover have "60000 * (60 * int h + int mi) + int (ms mod 60000) = int ms"
  proof -
    have "int (60000 * (60 * h + mi) + ms mod 60000) = int ms" by (simp only: hm mult_div_mod_eq)
    then show ?thesis by (simp only: of_nat_add of_nat_mult of_nat_numeral)
  qed
  ultimately show thesis by (rule that)
qed

text \<open>The times a four-digit year can print: 0000-01-01 to 9999-12-31.\<close>

definition iso_range :: "int \<Rightarrow> bool" where
  "iso_range t \<longleftrightarrow> - 62167219200000 \<le> t \<and> t < 253402300800000"

lemma iso_roundtrip:
  assumes "iso_range t"
  obtains s where "to_iso t = Inr s" "iso_datetime b s = Some t"
proof -
  define d where "d = t div 86400000 + epoch_day"
  define ms where "ms = nat (t mod 86400000)"
  have t: "- 62167219200000 \<le> t" "t < 253402300800000" using assms by (simp_all add: iso_range_def)
  have m: "86400000 * (t div 86400000) + t mod 86400000 = t" "0 \<le> t mod 86400000" "t mod 86400000 < 86400000"
    by simp_all
  have "0 \<le> d" "d < 3652425"
    using t m by (simp_all add: d_def epoch_day_def)
  note day = p_day_text [OF this]
  have "ms < 86400000" using m by (simp add: ms_def)
  then obtain k r where c: "p_minutes (clock_text ms) = Some (k, r)" "p_seconds r = (int (ms mod 60000), ''Z'')"
    "60000 * k + int (ms mod 60000) = int ms" by (rule p_clock_text)
  have "to_iso t = Inr (day_text d @ ''T'' @ clock_text ms)"
    using t by (simp add: to_iso_def d_def ms_def)
  moreover have "iso_datetime b (day_text d @ ''T'' @ clock_text ms) = Some t"
  proof -
    have "86400000 * (d - epoch_day) + 60000 * k + int (ms mod 60000) = t"
    proof -
      have "int ms = t mod 86400000" "d - epoch_day = t div 86400000" using m by (simp_all add: ms_def d_def)
      then show ?thesis by (simp only: add.assoc c(3) m(1))
    qed
    then show ?thesis using day c(1,2) by (simp add: iso_datetime_def p_zone_def)
  qed
  ultimately show thesis by (rule that)
qed

end
