(* ===== verification/RepoService.thy ===== *)
theory RepoService
  imports ServiceContract IsoDate
begin

text \<open>
  The repository evidence service, \<open>src/src/lib/repository-service.ts\<close>: which repository
  lists are billable, what a quote costs, and what the GitHub answers become.

  The runtime's hashing, number reading and URL functions are the fields of \<open>web\<close>.
  \<open>sha256\<close> is the lower-case hexadecimal digest of a text, \<open>hmac\<close> the bytes of
  HMAC-SHA256 under a secret, \<open>read_number\<close> the double a decimal numeral denotes,
  \<open>add_double\<close> the addition of doubles where the exact integer sum is not a safe integer,
  \<open>resolve_url\<close> is \<open>new URL(relative, base)\<close> and \<open>set_pathname\<close> the assignment
  to \<open>url.pathname\<close>.
\<close>

section \<open>The runtime\<close>

record web =
  sha256 :: "string \<Rightarrow> string"
  hmac :: "string \<Rightarrow> string \<Rightarrow> nat list"
  legacy_date :: "string \<Rightarrow> int option"
  read_number :: "jsnum \<Rightarrow> jsnum"
  add_double :: "jsnum \<Rightarrow> jsnum \<Rightarrow> jsnum"
  parse_url :: "string \<Rightarrow> url option"
  resolve_url :: "string \<Rightarrow> url \<Rightarrow> url option"
  set_pathname :: "url \<Rightarrow> string \<Rightarrow> url"

definition parse_date :: "web \<Rightarrow> string \<Rightarrow> int option" where
  "parse_date w s = date_parse (legacy_date w) s"

text \<open>\<open>Date.parse(v)\<close> on any value: of its text.\<close>

definition parse_date_of :: "web \<Rightarrow> json option \<Rightarrow> int option" where
  "parse_date_of w v = parse_date w (case v of None \<Rightarrow> ''undefined'' | Some j \<Rightarrow> js_String j)"

text \<open>\<open>Date.now()\<close> at the call sites of a function, numbered in the order of the text.\<close>

type_synonym clock = "nat \<Rightarrow> int"

definition HEDERA_NETWORK :: string where
  "HEDERA_NETWORK = ''hedera:testnet''"

definition BLOCKY402_URL :: string where
  "BLOCKY402_URL = ''https://api.testnet.blocky402.com''"

definition HBAR_ASSET :: string where
  "HBAR_ASSET = ''0.0.0''"

text \<open>Reading a printed safe integer gives it back; an HMAC-SHA256 is 32 bytes.\<close>

definition exact_numbers :: "web \<Rightarrow> bool" where
  "exact_numbers w \<longleftrightarrow> (\<forall>i. safe_int i \<longrightarrow> read_number w (num_of_int i) = num_of_int i)"

definition mac_bytes :: "web \<Rightarrow> bool" where
  "mac_bytes w \<longleftrightarrow> (\<forall>k s. length (hmac w k s) = 32 \<and> (\<forall>b \<in> set (hmac w k s). b < 256))"

definition hex_hash :: "web \<Rightarrow> bool" where
  "hex_hash w \<longleftrightarrow> (\<forall>s. list_all is_lower_hex (sha256 w s))"

section \<open>Repositories\<close>

definition is_owner_char :: "char \<Rightarrow> bool" where
  "is_owner_char c \<longleftrightarrow> is_alnum c \<or> c = CHR ''-''"

definition is_repo_char :: "char \<Rightarrow> bool" where
  "is_repo_char c \<longleftrightarrow> is_alnum c \<or> c = CHR ''_'' \<or> c = CHR ''.'' \<or> c = CHR ''-''"

definition is_repo :: "string \<Rightarrow> bool" where
  "is_repo s = (case split_on (CHR ''/'') s of
     [a, b] \<Rightarrow> a \<noteq> [] \<and> is_alnum (hd a) \<and> length a \<le> 39 \<and> list_all is_owner_char a \<and>
       b \<noteq> [] \<and> length b \<le> 100 \<and> list_all is_repo_char b \<and> b \<notin> set [''.'', ''..'']
   | _ \<Rightarrow> False)"

definition check_repo :: "json \<Rightarrow> string res" where
  "check_repo v = of_opt (Err ''Invalid GitHub owner/repository.'') (check is_repo (as_str v))"

definition validateRepos :: "json \<Rightarrow> string list res" where
  "validateRepos v =
     bindR (need (is_arr v \<and> 1 \<le> length (elems v) \<and> length (elems v) \<le> 3) (Err ''Provide one to three repositories.'')) (\<lambda>_.
     bindR (mapR check_repo (elems v)) (\<lambda>repos.
     bindR (need (distinct (map to_lower repos)) (Err ''Duplicate repositories are not billable.'')) (\<lambda>_.
       Inr repos)))"

definition repos_json :: "string list \<Rightarrow> json" where
  "repos_json rs = JArr (map JStr rs)"

definition billable :: "string list \<Rightarrow> bool" where
  "billable rs \<longleftrightarrow> 1 \<le> length rs \<and> length rs \<le> 3 \<and> list_all is_repo rs \<and> distinct (map to_lower rs)"

lemma mapR_check_repo: "mapR check_repo vs = Inr rs \<longleftrightarrow> vs = map JStr rs \<and> list_all is_repo rs"
proof (induction vs arbitrary: rs)
  case (Cons v vs)
  have "check_repo v = Inr r \<longleftrightarrow> v = JStr r \<and> is_repo r" for r
    by (cases v) (auto simp: check_repo_def)
  with Cons show ?case by (cases rs) (auto simp: bindR_eq_Inr)
qed auto

lemma validateRepos_iff: "validateRepos v = Inr rs \<longleftrightarrow> v = repos_json rs \<and> billable rs"
  by (cases v) (auto simp: validateRepos_def bindR_eq_Inr mapR_check_repo repos_json_def billable_def)

lemma validateRepos_repos_json: "billable rs \<Longrightarrow> validateRepos (repos_json rs) = Inr rs"
  by (simp add: validateRepos_iff)

section \<open>Quotes\<close>

record price_book =
  pb_standard :: int
  pb_economy :: int

definition defaultPrices :: price_book where
  "defaultPrices = \<lparr>pb_standard = 100000, pb_economy = 120000\<rparr>"

definition price_of :: "price_book \<Rightarrow> string \<Rightarrow> int option" where
  "price_of b p =
     (if p = ''repo-standard'' then Some (pb_standard b)
      else if p = ''repo-economy'' then Some (pb_economy b) else None)"

record repo_quote =
  rq_provider :: string
  rq_unitPrice :: int
  rq_units :: int
  rq_amount :: int
  rq_network :: string
  rq_asset :: string
  rq_payTo :: string
  rq_expires :: string

definition createQuote :: "clock \<Rightarrow> string \<Rightarrow> json \<Rightarrow> price_book \<Rightarrow> string \<Rightarrow> repo_quote res" where
  "createQuote now p input prices pay =
     bindR (validateRepos input) (\<lambda>repos.
     bindR (of_opt (Err ''Unknown provider.'') (price_of prices p)) (\<lambda>unit.
       let amount = unit * int (length repos)
       in bindR (need (safe_int unit \<and> 0 < unit \<and> safe_int amount) (Err ''Invalid service price.'')) (\<lambda>_.
          bindR (to_iso (now 0 + 60000)) (\<lambda>t.
            Inr \<lparr>rq_provider = p, rq_unitPrice = unit, rq_units = int (length repos), rq_amount = amount,
              rq_network = HEDERA_NETWORK, rq_asset = ''HBAR'', rq_payTo = pay, rq_expires = t\<rparr>))))"

definition quote_json :: "repo_quote \<Rightarrow> json" where
  "quote_json q = JObj
     [(''providerId'', JStr (rq_provider q)), (''unitPriceAtomic'', JNum (num_of_int (rq_unitPrice q))),
      (''units'', JNum (num_of_int (rq_units q))), (''amountAtomic'', JNum (num_of_int (rq_amount q))),
      (''network'', JStr (rq_network q)), (''asset'', JStr (rq_asset q)), (''payTo'', JStr (rq_payTo q)),
      (''expiresAt'', JStr (rq_expires q))]"

section \<open>Evidence\<close>

text \<open>The answer of one GET; \<open>json()\<close> may fail.\<close>

record http_response =
  hr_status :: int
  hr_body :: "json res"

definition hr_ok :: "http_response \<Rightarrow> bool" where
  "hr_ok r \<longleftrightarrow> 200 \<le> hr_status r \<and> hr_status r \<le> 299"

definition or_else :: "json option \<Rightarrow> string \<Rightarrow> json" where
  "or_else v d = (case v of None \<Rightarrow> JStr d | Some JNull \<Rightarrow> JStr d | Some j \<Rightarrow> j)"

definition copied :: "string \<Rightarrow> json option \<Rightarrow> (string \<times> json) list" where
  "copied k v = (case v of None \<Rightarrow> [] | Some j \<Rightarrow> [(k, j)])"

text \<open>\<open>data.full_name?.toLowerCase()\<close> throws on what is neither missing nor a string.\<close>

definition lower_field :: "json \<Rightarrow> string \<Rightarrow> string option res" where
  "lower_field v k = (case fld v k of
     None \<Rightarrow> Inr None
   | Some JNull \<Rightarrow> Inr None
   | Some (JStr s) \<Rightarrow> Inr (Some (to_lower s))
   | Some _ \<Rightarrow> Inl (Thrown ''TypeError''))"

definition source_url :: "string \<Rightarrow> string" where
  "source_url repo = ''https://api.github.com/repos/'' @ repo"

definition repo_evidence :: "string \<Rightarrow> json \<Rightarrow> string \<Rightarrow> json" where
  "repo_evidence repo data fetched = JObj
     ([(''repo'', JStr repo), (''description'', or_else (fld data ''description'') [])] @
      copied ''stars'' (fld data ''stargazers_count'') @ copied ''forks'' (fld data ''forks_count'') @
      copied ''openIssues'' (fld data ''open_issues_count'') @ copied ''pushedAt'' (fld data ''pushed_at'') @
      [(''language'', or_else (fld data ''language'') ''Not specified''),
       (''license'', or_else (Option.bind (fld data ''license'') (\<lambda>l. fld l ''spdx_id'')) ''Not specified''),
       (''sourceUrl'', JStr (source_url repo)), (''fetchedAt'', JStr fetched)])"

definition fetch_one :: "(string \<Rightarrow> http_response res) \<Rightarrow> string res \<Rightarrow> string \<Rightarrow> json res" where
  "fetch_one get now repo =
     bindR (get (source_url repo)) (\<lambda>r.
     bindR (need (hr_ok r) (Err (''GitHub evidence unavailable (HTTP '' @ int_dec (hr_status r) @ '').''))) (\<lambda>_.
     bindR (hr_body r) (\<lambda>data.
     bindR (need (data \<noteq> JNull) (Thrown ''TypeError'')) (\<lambda>_.
     bindR (if fld data ''private'' \<noteq> Some (JBool False) then Inr None else lower_field data ''full_name'') (\<lambda>name.
     bindR (need (name = Some (to_lower repo))
         (Err ''Only exact public repository evidence can be purchased.'')) (\<lambda>_.
     bindR now (\<lambda>t. Inr (repo_evidence repo data t))))))))"

text \<open>\<open>Promise.all\<close> answers in list order; of several failures it reports one, here the
  first of the list.\<close>

definition fetchRepoEvidence ::
    "(string \<Rightarrow> http_response res) \<Rightarrow> string res \<Rightarrow> string list \<Rightarrow> json list res" where
  "fetchRepoEvidence get now repos =
     bindR (validateRepos (repos_json repos)) (mapR (fetch_one get now))"

text \<open>A quote is for a billable list, and its amount is exactly the price of its units.\<close>

lemma createQuote_amount:
  assumes "createQuote now p input prices pay = Inr q"
  obtains rs where "input = repos_json rs" "billable rs" "price_of prices p = Some (rq_unitPrice q)"
    "rq_units q = int (length rs)" "rq_amount q = rq_unitPrice q * int (length rs)" "0 < rq_amount q"
    "safe_int (rq_amount q)" "rq_network q = HEDERA_NETWORK" "rq_payTo q = pay" "rq_provider q = p"
    "to_iso (now 0 + 60000) = Inr (rq_expires q)"
proof -
  obtain rs where rs: "validateRepos input = Inr rs"
    using assms by (auto simp: createQuote_def bindR_eq_Inr)
  then have "input = repos_json rs" "billable rs" "1 \<le> length rs"
    by (auto simp: validateRepos_iff billable_def)
  then show ?thesis
    using assms rs by (intro that [of rs]) (auto simp: createQuote_def bindR_eq_Inr Let_def intro!: mult_pos_pos)
qed

end
