(* ===== verification/A2A.thy ===== *)
theory A2A
  imports RepoService
begin

text \<open>
  The agent-to-agent seller, \<open>src/src/lib/hedera/a2a.ts\<close>: signed offers (issued by
  \<open>handleA2ARequest\<close>, verified by \<open>verifyA2AOffer\<close>, checked by a buyer in
  \<open>validateSellerOffer\<close>), the JSON-RPC handler, and the HTTP route in front of it,
  \<open>src/src/app/api/hedera/a2a/route.ts\<close>.

  \<open>now\<close> gives \<open>Date.now()\<close> at each call site of a function; the quote service is an
  argument of the handler.
\<close>

section \<open>Schemas\<close>

record a2a_config =
  ac_publicUrl :: string
  ac_resourceBaseUrl :: string
  ac_payTo :: string
  ac_offerSecret :: string
  ac_uaid :: "string option"

definition A2A_EXTENSION :: string where
  "A2A_EXTENSION = ''https://obolos.dev/extensions/hedera-commerce/v1''"

text \<open>\<open>/^0\.0\.[1-9]\d*$/\<close> and \<open>/^[A-Za-z0-9_-]{1,120}$/\<close>.\<close>

definition is_account :: "string \<Rightarrow> bool" where
  "is_account s \<longleftrightarrow> take 4 s = ''0.0.'' \<and> pos_numeral (drop 4 s)"

definition is_ident_char :: "char \<Rightarrow> bool" where
  "is_ident_char c \<longleftrightarrow> is_alnum c \<or> c = CHR ''_'' \<or> c = CHR ''-''"

definition is_identity :: "string \<Rightarrow> bool" where
  "is_identity s \<longleftrightarrow> s \<noteq> [] \<and> length s \<le> 120 \<and> list_all is_ident_char s"

definition p_account :: "json \<Rightarrow> string option" where
  "p_account v = check is_account (as_str v)"

definition p_identity :: "json \<Rightarrow> string option" where
  "p_identity v = check is_identity (as_str v)"

definition p_atomic :: "json \<Rightarrow> int option" where
  "p_atomic v = check (\<lambda>i. 0 < i) (as_int v)"

definition provider_ids :: "string list" where
  "provider_ids = [''repo-standard'', ''repo-economy'']"

definition p_provider :: "json \<Rightarrow> string option" where
  "p_provider v = check (\<lambda>s. s \<in> set provider_ids) (as_str v)"

definition p_repo_list :: "json \<Rightarrow> string list option" where
  "p_repo_list v =
     (if is_arr v then check (\<lambda>rs. 1 \<le> length rs \<and> length rs \<le> 3) (those (map as_str (elems v))) else None)"

definition p_datetime :: "bool \<Rightarrow> json \<Rightarrow> string option" where
  "p_datetime offset v = check (\<lambda>s. iso_datetime offset s \<noteq> None) (as_str v)"

definition p_literal :: "json \<Rightarrow> json \<Rightarrow> unit option" where
  "p_literal l v = (if v = l then Some () else None)"

record a2a_proposal =
  ap_payer :: string
  ap_requestId :: string
  ap_provider :: string
  ap_repos :: "string list"
  ap_max :: int
  ap_mandateExpires :: string

definition p_proposal :: "json \<Rightarrow> a2a_proposal option" where
  "p_proposal v =
     (if \<not> strict [''action'', ''payer'', ''requestId'', ''providerId'', ''repos'', ''maxAmountAtomic'',
        ''mandateExpiresAt''] v then None
      else Option.bind (field v ''action'' (p_literal (JStr ''propose''))) (\<lambda>_.
        Option.bind (field v ''payer'' p_account) (\<lambda>pay.
        Option.bind (field v ''requestId'' p_identity) (\<lambda>req.
        Option.bind (field v ''providerId'' p_provider) (\<lambda>prov.
        Option.bind (field v ''repos'' p_repo_list) (\<lambda>rs.
        Option.bind (field v ''maxAmountAtomic'' p_atomic) (\<lambda>mx.
        Option.bind (field v ''mandateExpiresAt'' (p_datetime True)) (\<lambda>ex.
          Some \<lparr>ap_payer = pay, ap_requestId = req, ap_provider = prov, ap_repos = rs, ap_max = mx,
            ap_mandateExpires = ex\<rparr>))))))))"

record a2a_acceptance =
  aa_payer :: string
  aa_requestId :: string
  aa_offerToken :: string

definition p_token :: "json \<Rightarrow> string option" where
  "p_token v = check (\<lambda>s. s \<noteq> [] \<and> length s \<le> 12000) (as_str v)"

definition p_acceptance :: "json \<Rightarrow> a2a_acceptance option" where
  "p_acceptance v =
     (if \<not> strict [''action'', ''payer'', ''requestId'', ''offerToken''] v then None
      else Option.bind (field v ''action'' (p_literal (JStr ''accept''))) (\<lambda>_.
        Option.bind (field v ''payer'' p_account) (\<lambda>pay.
        Option.bind (field v ''requestId'' p_identity) (\<lambda>req.
        Option.bind (field v ''offerToken'' p_token) (\<lambda>t.
          Some \<lparr>aa_payer = pay, aa_requestId = req, aa_offerToken = t\<rparr>)))))"

record offer_payload =
  of_context :: string
  of_requestId :: string
  of_payer :: string
  of_provider :: string
  of_repos :: "string list"
  of_resource :: string
  of_unitPrice :: int
  of_amount :: int
  of_max :: int
  of_mandateExpires :: string
  of_issued :: string
  of_expires :: string
  of_payTo :: string

definition offerKeys :: "string list" where
  "offerKeys = [''version'', ''contextId'', ''requestId'', ''payer'', ''providerId'', ''repos'', ''resourceUrl'',
     ''unitPriceAtomic'', ''amountAtomic'', ''maxAmountAtomic'', ''mandateExpiresAt'', ''issuedAt'', ''expiresAt'',
     ''network'', ''asset'', ''payTo'']"

definition p_offer :: "json \<Rightarrow> offer_payload option" where
  "p_offer v =
     (if \<not> strict offerKeys v then None
      else Option.bind (field v ''version'' (p_literal (JNum (num_of_int 1)))) (\<lambda>_.
        Option.bind (field v ''contextId'' p_identity) (\<lambda>ctx.
        Option.bind (field v ''requestId'' p_identity) (\<lambda>req.
        Option.bind (field v ''payer'' p_account) (\<lambda>pay.
        Option.bind (field v ''providerId'' p_provider) (\<lambda>prov.
        Option.bind (field v ''repos'' p_repo_list) (\<lambda>rs.
        Option.bind (field v ''resourceUrl'' as_str) (\<lambda>res.
        Option.bind (field v ''unitPriceAtomic'' p_atomic) (\<lambda>un.
        Option.bind (field v ''amountAtomic'' p_atomic) (\<lambda>am.
        Option.bind (field v ''maxAmountAtomic'' p_atomic) (\<lambda>mx.
        Option.bind (field v ''mandateExpiresAt'' (p_datetime True)) (\<lambda>me.
        Option.bind (field v ''issuedAt'' (p_datetime False)) (\<lambda>iss.
        Option.bind (field v ''expiresAt'' (p_datetime False)) (\<lambda>ex.
        Option.bind (field v ''network'' (p_literal (JStr HEDERA_NETWORK))) (\<lambda>_.
        Option.bind (field v ''asset'' (p_literal (JStr HBAR_ASSET))) (\<lambda>_.
        Option.bind (field v ''payTo'' p_account) (\<lambda>pt.
          Some \<lparr>of_context = ctx, of_requestId = req, of_payer = pay, of_provider = prov, of_repos = rs,
            of_resource = res, of_unitPrice = un, of_amount = am, of_max = mx, of_mandateExpires = me,
            of_issued = iss, of_expires = ex, of_payTo = pt\<rparr>)))))))))))))))))"

definition int_json :: "int \<Rightarrow> json" where
  "int_json i = JNum (num_of_int i)"

lemma as_int_int_json [simp]: "as_int (int_json i) = (if safe_int i then Some i else None)"
  by (simp add: as_int_def int_json_def is_safe_integer_def)

text \<open>The payload as an object; the schema's key order is the order of \<open>sign\<close>'s literal.\<close>

definition offer_fields :: "offer_payload \<Rightarrow> (string \<times> json) list" where
  "offer_fields p =
     [(''version'', int_json 1), (''contextId'', JStr (of_context p)), (''requestId'', JStr (of_requestId p)),
      (''payer'', JStr (of_payer p)), (''providerId'', JStr (of_provider p)), (''repos'', repos_json (of_repos p)),
      (''resourceUrl'', JStr (of_resource p)), (''unitPriceAtomic'', int_json (of_unitPrice p)),
      (''amountAtomic'', int_json (of_amount p)), (''maxAmountAtomic'', int_json (of_max p)),
      (''mandateExpiresAt'', JStr (of_mandateExpires p)), (''issuedAt'', JStr (of_issued p)),
      (''expiresAt'', JStr (of_expires p)), (''network'', JStr HEDERA_NETWORK), (''asset'', JStr HBAR_ASSET),
      (''payTo'', JStr (of_payTo p))]"

record a2a_offer = offer_payload +
  ao_id :: string
  ao_paymentRequest :: string
  ao_token :: string

definition payload_of :: "a2a_offer \<Rightarrow> offer_payload" where
  "payload_of ao = offer_payload.truncate ao"

definition as_offer :: "web \<Rightarrow> offer_payload \<Rightarrow> string \<Rightarrow> a2a_offer" where
  "as_offer w p t =
     (let i = sha256 w (stringify (JObj (offer_fields p)))
      in offer_payload.extend p \<lparr>ao_id = i, ao_paymentRequest = ''a2a:'' @ i, ao_token = t\<rparr>)"

definition full_offer_fields :: "a2a_offer \<Rightarrow> (string \<times> json) list" where
  "full_offer_fields ao = offer_fields (payload_of ao) @
     [(''offerId'', JStr (ao_id ao)), (''paymentRequestId'', JStr (ao_paymentRequest ao)),
      (''offerToken'', JStr (ao_token ao))]"

section \<open>Configuration\<close>

definition loopback :: "string list" where
  "loopback = [''127.0.0.1'', ''localhost'', ''[::1]'']"

definition trusted_url :: "url \<Rightarrow> bool" where
  "trusted_url u \<longleftrightarrow>
     (protocol u = ''https:'' \<or> protocol u = ''http:'' \<and> hostname u \<in> set loopback) \<and>
     username u = [] \<and> password u = [] \<and> search u = [] \<and> hash_part u = []"

definition with_slash :: "web \<Rightarrow> url \<Rightarrow> url" where
  "with_slash w u =
     (if pathname u \<noteq> [] \<and> last (pathname u) = CHR ''/'' then u else set_pathname w u (pathname u @ ''/''))"

definition url_or_throw :: "url option \<Rightarrow> url res" where
  "url_or_throw u = of_opt (Thrown ''TypeError: Invalid URL'') u"

definition trustedBase :: "web \<Rightarrow> string \<Rightarrow> url res" where
  "trustedBase w s =
     bindR (url_or_throw (parse_url w s)) (\<lambda>u.
     bindR (need (trusted_url u) (Err ''HTTPS or loopback URL required.'')) (\<lambda>_. Inr (with_slash w u)))"

definition validateConfig :: "web \<Rightarrow> a2a_config \<Rightarrow> unit res" where
  "validateConfig w c =
     bindR (trustedBase w (ac_publicUrl c)) (\<lambda>_.
     bindR (trustedBase w (ac_resourceBaseUrl c)) (\<lambda>_.
     bindR (need (is_account (ac_payTo c)) Zod) (\<lambda>_.
       need (32 \<le> utf8_length (ac_offerSecret c))
         (Err ''Configure a private A2A_OFFER_SECRET with at least 32 bytes.''))))"

definition env_or :: "(string \<Rightarrow> string option) \<Rightarrow> string \<Rightarrow> string \<Rightarrow> string" where
  "env_or env k d = (case env k of Some s \<Rightarrow> s | None \<Rightarrow> d)"

definition a2aConfiguration :: "web \<Rightarrow> (string \<Rightarrow> string option) \<Rightarrow> a2a_config res" where
  "a2aConfiguration w env =
     (let c = \<lparr>ac_publicUrl = env_or env ''A2A_PUBLIC_URL'' [],
        ac_resourceBaseUrl = env_or env ''DATA_SERVICE_PUBLIC_URL'' (env_or env ''DATA_SERVICE_URL'' []),
        ac_payTo = env_or env ''HEDERA_PAY_TO'' [], ac_offerSecret = env_or env ''A2A_OFFER_SECRET'' [],
        ac_uaid = check (\<lambda>s. s \<noteq> []) (env ''HEDERA_SERVICE_UAID'')\<rparr>
      in bindR (validateConfig w c) (\<lambda>_. Inr c))"

definition resource_url :: "web \<Rightarrow> string \<Rightarrow> string \<Rightarrow> string res" where
  "resource_url w base provider =
     bindR (trustedBase w base) (\<lambda>b.
     bindR (url_or_throw (resolve_url w (''evidence/'' @ provider) b)) (\<lambda>u. Inr (href u)))"

section \<open>Signed offers\<close>

text \<open>A comparison of dates is false when one is \<open>NaN\<close>.\<close>

definition date_le :: "int option \<Rightarrow> int option \<Rightarrow> bool" where
  "date_le a b = (case (a, b) of (Some x, Some y) \<Rightarrow> x \<le> y | _ \<Rightarrow> False)"

definition date_lt :: "int option \<Rightarrow> int option \<Rightarrow> bool" where
  "date_lt a b = (case (a, b) of (Some x, Some y) \<Rightarrow> x < y | _ \<Rightarrow> False)"

lemma date_simps [simp]:
  "date_le (Some x) (Some y) = (x \<le> y)" "date_lt (Some x) (Some y) = (x < y)"
  "\<not> date_le None b" "\<not> date_le a None" "\<not> date_lt None b" "\<not> date_lt a None"
  by (auto simp: date_le_def date_lt_def split: option.splits)

definition shifted :: "int option \<Rightarrow> int \<Rightarrow> int option" where
  "shifted t k = map_option (\<lambda>x. x + k) t"

lemma shifted_simps [simp]: "shifted (Some x) k = Some (x + k)" "shifted None k = None"
  by (simp_all add: shifted_def)

definition sign :: "web \<Rightarrow> offer_payload \<Rightarrow> a2a_config \<Rightarrow> a2a_offer" where
  "sign w p c =
     (let body = base64url (utf8 (stringify (JObj (offer_fields p))));
          signature = base64url (hmac w (ac_offerSecret c) body)
      in as_offer w p (body @ ''.'' @ signature))"

text \<open>\<open>const [body, signature, ...extra] = token.split(".")\<close> with the checks of both parts.\<close>

definition is_signature :: "string \<Rightarrow> bool" where
  "is_signature s \<longleftrightarrow> length s = 43 \<and> list_all is_ident_char s"

definition token_parts :: "string \<Rightarrow> (string \<times> string) option" where
  "token_parts t = (case split_on (CHR ''.'') t of
     [body, s] \<Rightarrow> if body \<noteq> [] \<and> is_signature s then Some (body, s) else None
   | _ \<Rightarrow> None)"

definition decode_payload :: "web \<Rightarrow> string \<Rightarrow> offer_payload res" where
  "decode_payload w body =
     bindR (of_opt (Thrown ''SyntaxError'') (json_parse (read_number w) (of_utf8 (of_base64url body)))) (\<lambda>v.
       of_opt Zod (p_offer v))"

definition offer_times_ok :: "web \<Rightarrow> clock \<Rightarrow> bool \<Rightarrow> offer_payload \<Rightarrow> bool" where
  "offer_times_ok w now allowExpired p =
     (let expiry = parse_date w (of_expires p); issued = parse_date w (of_issued p);
          mandate = parse_date w (of_mandateExpires p)
      in \<not> (expiry = None \<or> issued = None \<or> date_lt (Some (now 0 + 1000)) issued \<or> date_le expiry issued \<or>
            date_lt (shifted issued 60000) expiry \<or> date_lt mandate expiry \<or>
            (\<not> allowExpired \<and> (date_le expiry (Some (now 1)) \<or> date_le mandate (Some (now 2))))))"

definition verifyA2AOffer :: "web \<Rightarrow> clock \<Rightarrow> string \<Rightarrow> a2a_config \<Rightarrow> bool \<Rightarrow> a2a_offer res" where
  "verifyA2AOffer w now token c allowExpired =
     bindR (validateConfig w c) (\<lambda>_.
     bindR (need (length token \<le> 12000) (Err ''Invalid offer.'')) (\<lambda>_.
     bindR (of_opt (Err ''Invalid offer.'') (check (\<lambda>(body, _). list_all is_ident_char body) (token_parts token))) (\<lambda>(body, signature).
     bindR (need (hmac w (ac_offerSecret c) body = of_base64url signature) (Err ''Invalid signed offer.'')) (\<lambda>_.
     bindR (decode_payload w body) (\<lambda>p.
     bindR (validateRepos (repos_json (of_repos p))) (\<lambda>_.
     bindR (need (offer_times_ok w now allowExpired p) (Err ''Signed offer expired or has invalid bounds.'')) (\<lambda>_.
     bindR (need (of_payTo p = ac_payTo c \<and> of_payer p \<noteq> ac_payTo c)
         (Err ''Offer violates exact resource or mandate.'')) (\<lambda>_.
     bindR (resource_url w (ac_resourceBaseUrl c) (of_provider p)) (\<lambda>r.
     bindR (need (of_resource p = r \<and> of_amount p = of_unitPrice p * int (length (of_repos p)) \<and>
           of_amount p \<le> of_max p)
         (Err ''Offer violates exact resource or mandate.'')) (\<lambda>_.
       Inr (as_offer w p token)))))))))))"

definition seller_times_ok :: "web \<Rightarrow> clock \<Rightarrow> offer_payload \<Rightarrow> a2a_proposal \<Rightarrow> bool" where
  "seller_times_ok w now p q =
     (let expiry = parse_date w (of_expires p); issued = parse_date w (of_issued p)
      in \<not> (date_le expiry (Some (now 0)) \<or> date_lt (parse_date w (ap_mandateExpires q)) expiry \<or>
            date_lt (Some (now 1 + 1000)) issued \<or> date_le expiry issued \<or>
            date_lt (shifted issued 60000) expiry))"

text \<open>The buyer's check of an offer against the proposal it made.\<close>

definition validateSellerOffer ::
    "web \<Rightarrow> clock \<Rightarrow> json \<Rightarrow> json \<Rightarrow> string \<Rightarrow> string \<Rightarrow> a2a_offer res" where
  "validateSellerOffer w now value prop base pay =
     bindR (of_opt Zod (p_proposal prop)) (\<lambda>q.
     bindR (of_opt (Err ''Invalid seller offer.'') (check (\<lambda>t. length t \<le> 12000) (fstr value ''offerToken''))) (\<lambda>token.
     bindR (of_opt (Err ''Invalid seller offer token.'') (token_parts token)) (\<lambda>(body, _).
     bindR (decode_payload w body) (\<lambda>p.
     bindR (validateRepos (repos_json (of_repos p))) (\<lambda>_.
       let expected = as_offer w p token; differs = Err ''Seller offer differs from approved exact purchase.''
       in bindR (need (list_all (\<lambda>(k, v). map_option stringify (fld value k) = Some (stringify v))
             (full_offer_fields expected) \<and>
             of_requestId p = ap_requestId q \<and> of_payer p = ap_payer q \<and> of_provider p = ap_provider q \<and>
             stringify (repos_json (of_repos p)) = stringify (repos_json (ap_repos q)) \<and>
             of_max p = ap_max q \<and> of_mandateExpires p = ap_mandateExpires q \<and>
             of_payTo p = pay \<and> of_payer p \<noteq> pay) differs) (\<lambda>_.
          bindR (resource_url w base (ap_provider q)) (\<lambda>r.
          bindR (need (of_resource p = r \<and> of_amount p = of_unitPrice p * int (length (ap_repos q)) \<and>
             of_amount p \<le> ap_max q \<and> seller_times_ok w now p q) differs) (\<lambda>_.
            Inr expected))))))))"

section \<open>The agent card\<close>

definition json_strs :: "string list \<Rightarrow> json" where
  "json_strs ss = JArr (map JStr ss)"

definition card_extension :: "a2a_config \<Rightarrow> json" where
  "card_extension c = JObj
     [(''uri'', JStr A2A_EXTENSION), (''required'', JBool True),
      (''description'', JStr ''Payer-bound signed offers and privately executed x402 acceptance.''),
      (''params'', JObj ([(''network'', JStr HEDERA_NETWORK), (''asset'', JStr HBAR_ASSET), (''maxUnits'', int_json 3)] @
         (case ac_uaid c of Some (x # xs) \<Rightarrow> [(''uaid'', JStr (x # xs))] | _ \<Rightarrow> [])))]"

definition card_skill :: json where
  "card_skill = JObj
     [(''id'', JStr ''repository-evidence''), (''name'', JStr ''Public repository evidence''),
      (''description'', JStr ''Propose repositories and an approved maximum in tinybar; accept the signed offer and execute its exact paid resource request with the private buyer.''),
      (''tags'', json_strs [''hedera'', ''x402'', ''repository-evidence'']),
      (''examples'', json_strs [''Propose one public repository at a maximum of 100000 tinybar.''])]"

definition createAgentCard :: "web \<Rightarrow> a2a_config \<Rightarrow> json res" where
  "createAgentCard w c =
     bindR (validateConfig w c) (\<lambda>_.
     bindR (trustedBase w (ac_publicUrl c)) (\<lambda>b.
     bindR (url_or_throw (resolve_url w ''api/hedera/a2a'' b)) (\<lambda>u. Inr (JObj
       [(''protocolVersion'', JStr ''0.3.0''), (''name'', JStr ''Obolos Hedera repository agent''),
        (''description'', JStr ''Negotiate one to three public repository evidence units; accepted offers are paid privately with native testnet HBAR through Blocky402. Negotiation returns Messages; it does not start a server Task.''),
        (''url'', JStr (href u)), (''preferredTransport'', JStr ''JSONRPC''),
        (''additionalInterfaces'', JArr [JObj [(''url'', JStr (href u)), (''transport'', JStr ''JSONRPC'')]]),
        (''version'', JStr ''1.0.0''),
        (''capabilities'', JObj [(''streaming'', JBool False), (''pushNotifications'', JBool False),
           (''extensions'', JArr [card_extension c])]),
        (''defaultInputModes'', json_strs [''application/json'']),
        (''defaultOutputModes'', json_strs [''application/json'']),
        (''skills'', JArr [card_skill]), (''supportsAuthenticatedExtendedCard'', JBool False)]))))"

section \<open>The JSON-RPC handler\<close>

record a2a_message =
  am_id :: string
  am_context :: string
  am_data :: "(string \<times> json) list"

datatype a2a_response = Reply json a2a_message | Failure json int string

definition message :: "web \<Rightarrow> string \<Rightarrow> (string \<times> json) list \<Rightarrow> a2a_message" where
  "message w ctx d =
     \<lparr>am_id = ''response-'' @ take 32 (sha256 w (stringify (JObj d))), am_context = ctx, am_data = d\<rparr>"

definition p_strings :: "json \<Rightarrow> string list option" where
  "p_strings v = (if is_arr v then those (map as_str (elems v)) else None)"

definition p_nonneg :: "json \<Rightarrow> int option" where
  "p_nonneg v = check (\<lambda>i. 0 \<le> i) (as_int v)"

definition p_record :: "json \<Rightarrow> json option" where
  "p_record v = (if is_obj v then Some v else None)"

definition p_task_query :: "json \<Rightarrow> unit option" where
  "p_task_query v =
     (if \<not> strict [''id'', ''historyLength'', ''metadata''] v then None
      else Option.bind (field v ''id'' (\<lambda>i. check (\<lambda>s. s \<noteq> []) (as_str i))) (\<lambda>_.
        Option.bind (fopt v ''historyLength'' p_nonneg) (\<lambda>_.
        Option.bind (fopt v ''metadata'' p_record) (\<lambda>_. Some ()))))"

definition p_part :: "json \<Rightarrow> json option" where
  "p_part v =
     (if \<not> strict [''kind'', ''data''] v then None
      else Option.bind (field v ''kind'' (p_literal (JStr ''data''))) (\<lambda>_. field v ''data'' p_record))"

record a2a_params =
  pm_context :: "string option"
  pm_task :: "string option"
  pm_data :: json
  pm_modes :: "string list option"

definition p_message :: "json \<Rightarrow> (string option \<times> string option \<times> json) option" where
  "p_message v =
     (if \<not> strict [''kind'', ''role'', ''messageId'', ''contextId'', ''taskId'', ''parts'', ''extensions'',
        ''metadata''] v then None
      else Option.bind (field v ''kind'' (p_literal (JStr ''message''))) (\<lambda>_.
        Option.bind (field v ''role'' (p_literal (JStr ''user''))) (\<lambda>_.
        Option.bind (field v ''messageId'' (\<lambda>i. check (\<lambda>s. s \<noteq> [] \<and> length s \<le> 180) (as_str i))) (\<lambda>_.
        Option.bind (fopt v ''contextId'' p_identity) (\<lambda>ctx.
        Option.bind (fopt v ''taskId'' as_str) (\<lambda>task.
        Option.bind (farr v ''parts'' p_part) (\<lambda>parts.
        Option.bind (fopt v ''extensions'' p_strings) (\<lambda>_.
        Option.bind (fopt v ''metadata'' p_record) (\<lambda>_.
          case parts of [d] \<Rightarrow> Some (ctx, task, d) | _ \<Rightarrow> None)))))))))"

definition p_configuration :: "json \<Rightarrow> string list option option" where
  "p_configuration v =
     (if \<not> strict [''acceptedOutputModes'', ''blocking'', ''historyLength''] v then None
      else Option.bind (fopt v ''acceptedOutputModes'' p_strings) (\<lambda>modes.
        Option.bind (fopt v ''blocking'' as_bool) (\<lambda>_.
        Option.bind (fopt v ''historyLength'' p_nonneg) (\<lambda>_. Some modes))))"

definition p_params :: "json \<Rightarrow> a2a_params option" where
  "p_params v =
     (if \<not> strict [''message'', ''configuration'', ''metadata''] v then None
      else Option.bind (field v ''message'' p_message) (\<lambda>(ctx, task, d).
        Option.bind (fopt v ''configuration'' p_configuration) (\<lambda>conf.
        Option.bind (fopt v ''metadata'' p_record) (\<lambda>_.
          Some \<lparr>pm_context = ctx, pm_task = task, pm_data = d, pm_modes = Option.bind conf id\<rparr>))))"

text \<open>The request id the reply echoes; none when the envelope is malformed.\<close>

definition envelope :: "json \<Rightarrow> (json \<times> string) option" where
  "envelope r =
     (if fstr r ''jsonrpc'' \<noteq> Some ''2.0'' then None
      else case (fld r ''id'', fstr r ''method'') of
        (Some i, Some m) \<Rightarrow>
          if (case i of JStr s \<Rightarrow> length s \<le> 180 | JNum n \<Rightarrow> is_safe_integer n | JNull \<Rightarrow> True | _ \<Rightarrow> False)
          then Some (i, m) else None
      | _ \<Rightarrow> None)"

definition accept_offer :: "web \<Rightarrow> clock \<Rightarrow> a2a_config \<Rightarrow> a2a_params \<Rightarrow> a2a_message res" where
  "accept_offer w now c ps =
     bindR (of_opt Zod (p_acceptance (pm_data ps))) (\<lambda>a.
     bindR (verifyA2AOffer w now (aa_offerToken a) c False) (\<lambda>ao.
     bindR (need (of_payer ao = aa_payer a \<and> of_requestId ao = aa_requestId a \<and>
         pm_context ps = Some (of_context ao)) (Err ''Identity mismatch'')) (\<lambda>_.
       Inr (message w (of_context ao)
         ([(''action'', JStr ''accepted'')] @ full_offer_fields ao @
          [(''paymentStatus'', JStr ''required''),
           (''instructions'', JStr ''Execute the exact resource privately through purchaseHederaData; retain the offer-linked receipt and validated evidence.'')])))))"

definition context_of :: "web \<Rightarrow> a2a_proposal \<Rightarrow> string" where
  "context_of w q = ''commerce-'' @ take 40 (sha256 w (stringify (JObj
     [(''payer'', JStr (ap_payer q)), (''requestId'', JStr (ap_requestId q))])))"

text \<open>The checks of the quote; the result is its unit price, amount and expiry.\<close>

definition quote_terms ::
    "web \<Rightarrow> int \<Rightarrow> a2a_config \<Rightarrow> a2a_proposal \<Rightarrow> int \<Rightarrow> json \<Rightarrow> (int \<times> int \<times> int) res" where
  "quote_terms w now c q n v =
     bindR (need (v \<noteq> JNull) (Thrown ''TypeError'')) (\<lambda>_.
     bindR (need (fstr v ''providerId'' = Some (ap_provider q) \<and> fld v ''units'' = Some (int_json n) \<and>
         fstr v ''network'' = Some HEDERA_NETWORK \<and> fstr v ''asset'' = Some ''HBAR'' \<and>
         fstr v ''payTo'' = Some (ac_payTo c)) (Err ''Invalid quote'')) (\<lambda>_.
     bindR (of_opt (Err ''Invalid quote'') (check (\<lambda>u. 1 \<le> u) (fint v ''unitPriceAtomic''))) (\<lambda>u.
     bindR (of_opt (Err ''Invalid quote'') (check (\<lambda>a. 1 \<le> a \<and> a = u * n) (fint v ''amountAtomic''))) (\<lambda>a.
     bindR (of_opt (Err ''Invalid quote'') (check (\<lambda>e. now < e) (parse_date_of w (fld v ''expiresAt'')))) (\<lambda>e.
       Inr (u, a, e))))))"

definition counteroffer :: "string \<Rightarrow> int \<Rightarrow> int \<Rightarrow> int \<Rightarrow> (string \<times> json) list" where
  "counteroffer provider n u a =
     [(''action'', JStr ''counteroffer''), (''providerId'', JStr provider), (''units'', int_json n),
      (''unitPriceAtomic'', int_json u), (''amountAtomic'', int_json a), (''requiresNewMandate'', JBool True)]"

definition propose_offer ::
    "web \<Rightarrow> clock \<Rightarrow> a2a_config \<Rightarrow> (string \<Rightarrow> string list \<Rightarrow> json res) \<Rightarrow> a2a_params \<Rightarrow> a2a_message res" where
  "propose_offer w now c ask ps =
     bindR (of_opt Zod (p_proposal (pm_data ps))) (\<lambda>q.
     bindR (validateRepos (repos_json (ap_repos q))) (\<lambda>repos.
     bindR (of_opt (Thrown ''RangeError'') (parse_date w (ap_mandateExpires q))) (\<lambda>mandate.
     bindR (need (now 3 < mandate \<and> ap_payer q \<noteq> ac_payTo c) (Err ''Expired mandate'')) (\<lambda>_.
     bindR (ask (ap_provider q) repos) (\<lambda>v.
     bindR (quote_terms w (now 4) c q (int (length repos)) v) (\<lambda>(u, a, expiry).
       let ctx = context_of w q
       in bindR (need (pm_context ps = None \<or> pm_context ps = Some ctx) (Err ''Identity mismatch'')) (\<lambda>_.
          if ap_max q < a
          then Inr (message w ctx (counteroffer (ap_provider q) (int (length repos)) u a))
          else bindR (resource_url w (ac_resourceBaseUrl c) (ap_provider q)) (\<lambda>r.
               bindR (to_iso (now 5)) (\<lambda>issued.
               bindR (to_iso (min (now 5 + 60000) (min mandate expiry))) (\<lambda>ex.
                 let ao = sign w \<lparr>of_context = ctx, of_requestId = ap_requestId q, of_payer = ap_payer q,
                   of_provider = ap_provider q, of_repos = repos, of_resource = r, of_unitPrice = u,
                   of_amount = a, of_max = ap_max q, of_mandateExpires = ap_mandateExpires q,
                   of_issued = issued, of_expires = ex, of_payTo = ac_payTo c\<rparr> c
                 in Inr (message w ctx
                      ([(''action'', JStr ''offer'')] @ full_offer_fields ao @ [(''paymentStatus'', JStr ''unpaid'')]))))))))))))"

definition output_ok :: "a2a_params \<Rightarrow> bool" where
  "output_ok ps = (case pm_modes ps of None \<Rightarrow> True | Some ms \<Rightarrow> ''application/json'' \<in> set ms)"

definition handle_send ::
    "web \<Rightarrow> clock \<Rightarrow> a2a_config \<Rightarrow> (string \<Rightarrow> string list \<Rightarrow> json res) \<Rightarrow> json \<Rightarrow> json option \<Rightarrow> a2a_response res" where
  "handle_send w now c ask i params =
     bindR (validateConfig w c) (\<lambda>_.
     bindR (of_opt Zod (Option.bind params p_params)) (\<lambda>ps.
       if pm_task ps \<noteq> None \<and> pm_task ps \<noteq> Some [] then Inr (Failure i (- 32001) ''Task not found'')
       else if \<not> output_ok ps
       then Inr (Failure i (- 32005) ''Unsupported content type'')
       else bindR (if fld (pm_data ps) ''action'' = Some (JStr ''accept'')
                   then accept_offer w now c ps else propose_offer w now c ask ps) (\<lambda>m. Inr (Reply i m))))"

definition handleA2ARequest ::
    "web \<Rightarrow> clock \<Rightarrow> a2a_config \<Rightarrow> (string \<Rightarrow> string list \<Rightarrow> json res) \<Rightarrow> json \<Rightarrow> a2a_response" where
  "handleA2ARequest w now c ask input =
     (case envelope input of
        None \<Rightarrow> Failure JNull (- 32600) ''Invalid Request''
      | Some (i, method) \<Rightarrow>
          if method \<in> set [''tasks/get'', ''tasks/cancel'']
          then (if Option.bind (fld input ''params'') p_task_query \<noteq> None
                then Failure i (- 32001) ''Task not found. This agent returns Messages without creating Tasks.''
                else Failure i (- 32602) ''Invalid params'')
          else if method \<noteq> ''message/send'' then Failure i (- 32601) ''Method not found''
          else (case handle_send w now c ask i (fld input ''params'') of
                  Inr r \<Rightarrow> r
                | Inl _ \<Rightarrow> Failure i (- 32602)
                    ''Invalid params, expired authorization or unavailable valid service quote''))"

section \<open>The route\<close>

definition message_json :: "a2a_message \<Rightarrow> json" where
  "message_json m = JObj
     [(''kind'', JStr ''message''), (''role'', JStr ''agent''), (''contextId'', JStr (am_context m)),
      (''messageId'', JStr (am_id m)),
      (''parts'', JArr [JObj [(''kind'', JStr ''data''), (''data'', JObj (am_data m))]]),
      (''extensions'', json_strs [A2A_EXTENSION])]"

definition rpc_error :: "json \<Rightarrow> int \<Rightarrow> string \<Rightarrow> json" where
  "rpc_error i n msg = JObj [(''jsonrpc'', JStr ''2.0''), (''id'', i),
     (''error'', JObj [(''code'', int_json n), (''message'', JStr msg)])]"

fun response_json :: "a2a_response \<Rightarrow> json" where
  "response_json (Reply i m) = JObj [(''jsonrpc'', JStr ''2.0''), (''id'', i), (''result'', message_json m)]"
| "response_json (Failure i n msg) = rpc_error i n msg"

text \<open>The body arrives in chunks; reading one may fail, and more than 16,000 bytes stop it.\<close>

fun read_chunks :: "nat \<Rightarrow> nat list res list \<Rightarrow> nat list option res" where
  "read_chunks seen [] = Inr (Some [])"
| "read_chunks seen (c # cs) = bindR c (\<lambda>bs.
     let seen' = seen + length bs
     in if 16000 < seen' then Inr None
        else bindR (read_chunks seen' cs) (\<lambda>r. Inr (map_option (\<lambda>rest. bs @ rest) r)))"

record http_reply =
  hp_status :: int
  hp_body :: json

definition content_type :: "string option \<Rightarrow> string option" where
  "content_type h = map_option (\<lambda>s. trim (hd (split_on (CHR '';'') s))) h"

definition fetch_quote :: "web \<Rightarrow> (string \<Rightarrow> json \<Rightarrow> http_response res) \<Rightarrow> a2a_config \<Rightarrow> string \<Rightarrow> string list \<Rightarrow> json res" where
  "fetch_quote w post c provider repos =
     bindR (trustedBase w (ac_resourceBaseUrl c)) (\<lambda>b.
     bindR (url_or_throw (resolve_url w ''quote'' b)) (\<lambda>u.
     bindR (post (href u) (JObj [(''providerId'', JStr provider), (''repos'', repos_json repos)])) (\<lambda>r.
     bindR (need (hr_ok r) (Err ''Quote unavailable'')) (\<lambda>_. hr_body r))))"

definition a2a_POST ::
    "web \<Rightarrow> clock \<Rightarrow> (string \<Rightarrow> string option) \<Rightarrow> (string \<Rightarrow> json \<Rightarrow> http_response res) \<Rightarrow> string option \<Rightarrow>
      nat list res list \<Rightarrow> http_reply" where
  "a2a_POST w now env post ctype body =
     (if content_type ctype \<noteq> Some ''application/json''
      then \<lparr>hp_status = 415, hp_body = rpc_error JNull (- 32600) ''Content-Type must be application/json''\<rparr>
      else case read_chunks 0 body of
        Inl _ \<Rightarrow> \<lparr>hp_status = 200, hp_body = rpc_error JNull (- 32700) ''Parse error''\<rparr>
      | Inr None \<Rightarrow> \<lparr>hp_status = 413, hp_body = rpc_error JNull (- 32600) ''Request too large''\<rparr>
      | Inr (Some bytes) \<Rightarrow>
          (case json_parse (read_number w) (of_utf8 bytes) of
             None \<Rightarrow> \<lparr>hp_status = 200, hp_body = rpc_error JNull (- 32700) ''Parse error''\<rparr>
           | Some input \<Rightarrow>
               (case a2aConfiguration w env of
                  Inl _ \<Rightarrow> \<lparr>hp_status = 503,
                    hp_body = rpc_error JNull (- 32603) ''A2A service is not configured or unavailable''\<rparr>
                | Inr c \<Rightarrow> \<lparr>hp_status = 200,
                    hp_body = response_json (handleA2ARequest w now c (fetch_quote w post c) input)\<rparr>)))"

end
