(* ===== verification/A2AOffers.thy ===== *)
theory A2AOffers
  imports A2A
begin

text \<open>
  What the offers of \<open>A2A\<close> promise: the token of a signed offer decodes to the payload
  that was signed, so an offer the handler issues is one \<open>verifyA2AOffer\<close> and
  \<open>validateSellerOffer\<close> accept; an accepted token carries the seller's code and stays
  within its mandate.
\<close>

section \<open>Well-formed offers\<close>

definition wf_offer :: "offer_payload \<Rightarrow> bool" where
  "wf_offer p \<longleftrightarrow>
     is_identity (of_context p) \<and> is_identity (of_requestId p) \<and> is_account (of_payer p) \<and>
     of_provider p \<in> set provider_ids \<and> 1 \<le> length (of_repos p) \<and> length (of_repos p) \<le> 3 \<and>
     0 < of_unitPrice p \<and> safe_int (of_unitPrice p) \<and> 0 < of_amount p \<and> safe_int (of_amount p) \<and>
     0 < of_max p \<and> safe_int (of_max p) \<and> iso_datetime True (of_mandateExpires p) \<noteq> None \<and>
     iso_datetime False (of_issued p) \<noteq> None \<and> iso_datetime False (of_expires p) \<noteq> None \<and>
     is_account (of_payTo p)"

lemma safe_one [simp]: "safe_int 1"
  by (simp add: safe_int_def max_safe_def)

lemma int_json_one [simp]: "int_json 1 = JNum (num_of_int 1)"
  by (simp add: int_json_def)

lemma js_norm_offer: "js_norm (JObj (offer_fields p)) = JObj (offer_fields p)"
  by (simp add: offer_fields_def js_order_def is_index_def int_json_def repos_json_def numeral_str_def
      pos_numeral_def is_digit_def char_between_def code_def comp_def)

lemma wf_offer_json:
  assumes "exact_numbers w" "wf_offer p"
  shows "wf_json (read_number w) (JObj (offer_fields p))"
  using assms by (auto simp: offer_fields_def wf_offer_def exact_numbers_def int_json_def repos_json_def)

lemma p_offer_fields: "wf_offer p \<Longrightarrow> p_offer (JObj (offer_fields p)) = Some p"
  by (simp add: p_offer_def offer_fields_def wf_offer_def strict_def offerKeys_def keys_def field_def p_literal_def
      p_identity_def p_account_def p_provider_def p_repo_list_def p_atomic_def p_datetime_def check_def repos_json_def)

lemma decode_sign:
  assumes "exact_numbers w" "wf_offer p"
  shows "decode_payload w (base64url (utf8 (stringify (JObj (offer_fields p))))) = Inr p"
proof -
  have "of_base64url (base64url (utf8 s)) = utf8 s" for s
    by (rule of_base64url_base64url) (auto dest: utf8_bytes)
  then show ?thesis
    using p_offer_fields [OF assms(2)]
    by (simp add: decode_payload_def json_roundtrip [OF wf_offer_json [OF assms]] js_norm_offer
        del: stringify.simps js_norm.simps)
qed

lemma b64_char_ident: "is_b64_char c \<Longrightarrow> is_ident_char c"
  by (auto simp: is_b64_char_def is_ident_char_def)

lemma base64url_ident: "\<forall>b \<in> set bs. b < 256 \<Longrightarrow> list_all is_ident_char (base64url bs)"
  by (auto simp: list_all_iff dest: base64url_chars b64_char_ident)

lemma base64url_no_dot: "\<forall>b \<in> set bs. b < 256 \<Longrightarrow> CHR ''.'' \<notin> set (base64url bs)"
  using base64url_chars by blast

text \<open>The token of \<open>sign\<close>: its parts, its code, its payload.\<close>

lemma sign_token:
  assumes "mac_bytes w"
  obtains body s where "ao_token (sign w p c) = body @ CHR ''.'' # s"
    "token_parts (ao_token (sign w p c)) = Some (body, s)" "list_all is_ident_char body"
    "hmac w (ac_offerSecret c) body = of_base64url s"
    "body = base64url (utf8 (stringify (JObj (offer_fields p))))" "sign w p c = as_offer w p (body @ CHR ''.'' # s)"
proof -
  define body where "body = base64url (utf8 (stringify (JObj (offer_fields p))))"
  define s where "s = base64url (hmac w (ac_offerSecret c) body)"
  have ub: "\<forall>b \<in> set (utf8 u). b < 256" for u by (auto dest: utf8_bytes)
  have mb: "\<forall>b \<in> set (hmac w k u). b < 256" "length (hmac w k u) = 32" for k u
    using assms by (auto simp: mac_bytes_def)
  have tok: "sign w p c = as_offer w p (body @ CHR ''.'' # s)"
    by (simp add: sign_def body_def s_def Let_def)
  then have t: "ao_token (sign w p c) = body @ CHR ''.'' # s"
    by (simp add: as_offer_def Let_def offer_payload.defs)
  have "body \<noteq> []"
  proof
    assume "body = []"
    then have "length body = 0" by simp
    then show False by (simp add: body_def base64url_length utf8_length_utf8 stringify_obj del: stringify.simps)
  qed
  moreover have "is_signature s"
    by (simp add: is_signature_def s_def base64url_length mb base64url_ident)
  moreover have "split_on (CHR ''.'') (body @ CHR ''.'' # s) = [body, s]"
    by (simp add: split_on_append split_on_no base64url_no_dot ub mb body_def s_def)
  ultimately have "token_parts (ao_token (sign w p c)) = Some (body, s)"
    by (simp add: token_parts_def t)
  then show thesis
    using t tok by (intro that [of body s]) (simp_all add: body_def s_def base64url_ident ub mb of_base64url_base64url)
qed

section \<open>Issuing\<close>

text \<open>Clocks a minute short of the year 10000.\<close>

definition clock_ok :: "clock \<Rightarrow> bool" where
  "clock_ok now \<longleftrightarrow> (\<forall>k. - 62167219200000 \<le> now k \<and> now k + 60000 < 253402300800000)"

lemma context_identity:
  assumes "hex_hash w" shows "is_identity (context_of w q)"
proof -
  have "is_ident_char c" if "is_lower_hex c" for c
    using that by (auto simp: is_ident_char_def is_alnum_def is_lower_hex_def is_digit_def char_between_def)
  then have "list_all is_ident_char (take 40 (sha256 w s))" for s
    using assms by (auto simp: hex_hash_def list_all_iff dest!: in_set_takeD)
  moreover have "list_all is_ident_char ''commerce-''" by code_simp
  ultimately show ?thesis by (simp add: is_identity_def context_of_def)
qed

lemma as_int_safe: "as_int v = Some i \<Longrightarrow> safe_int i"
  by (cases v) (auto simp: as_int_def is_safe_integer_def split: if_splits)

lemma fint_safe: "fint v k = Some i \<Longrightarrow> safe_int i"
  by (auto simp: fint_def bind_eq_Some_conv dest: as_int_safe)

lemma p_proposal_props:
  assumes "p_proposal v = Some q"
  shows "is_account (ap_payer q)" "is_identity (ap_requestId q)" "ap_provider q \<in> set provider_ids"
    "0 < ap_max q" "safe_int (ap_max q)" "iso_datetime True (ap_mandateExpires q) \<noteq> None"
  using assms
  by (auto simp: p_proposal_def bind_eq_Some_conv p_account_def p_identity_def p_provider_def p_atomic_def
      p_datetime_def split: if_splits dest: as_int_safe)

lemma parse_date_iso: "iso_datetime b s = Some t \<Longrightarrow> parse_date w s = Some t"
  by (simp add: parse_date_def date_parse_iso)

lemma to_iso_parses:
  assumes "to_iso t = Inr s" "iso_range t"
  shows "iso_datetime b s = Some t" "parse_date w s = Some t"
proof -
  show "iso_datetime b s = Some t"
    using iso_roundtrip [OF assms(2), of b] assms(1) by (metis sum.inject(2))
  then show "parse_date w s = Some t" by (rule parse_date_iso)
qed

lemma quote_terms_props:
  assumes "quote_terms w n c q k v = Inr (u, a, e)"
  shows "1 \<le> u" "safe_int u" "1 \<le> a" "safe_int a" "a = u * k" "n < e"
  using assms
  by (auto simp: quote_terms_def bindR_eq_Inr dest: fint_safe)

definition offer_data :: "a2a_offer \<Rightarrow> (string \<times> json) list" where
  "offer_data ao = [(''action'', JStr ''offer'')] @ full_offer_fields ao @ [(''paymentStatus'', JStr ''unpaid'')]"

text \<open>What a proposal gets: a counteroffer above its maximum, or a signed offer.\<close>

definition offer_for :: "web \<Rightarrow> a2a_config \<Rightarrow> a2a_proposal \<Rightarrow> int \<Rightarrow> int \<Rightarrow> string \<Rightarrow> string \<Rightarrow> string \<Rightarrow> offer_payload" where
  "offer_for w c q u a res iss ex = \<lparr>of_context = context_of w q, of_requestId = ap_requestId q,
     of_payer = ap_payer q, of_provider = ap_provider q, of_repos = ap_repos q, of_resource = res,
     of_unitPrice = u, of_amount = a, of_max = ap_max q, of_mandateExpires = ap_mandateExpires q,
     of_issued = iss, of_expires = ex, of_payTo = ac_payTo c\<rparr>"

lemma propose_reply:
  assumes "propose_offer w now c ask ps = Inr m"
  obtains q mandate u a e0 where "p_proposal (pm_data ps) = Some q" "billable (ap_repos q)"
    "parse_date w (ap_mandateExpires q) = Some mandate" "now 3 < mandate" "ap_payer q \<noteq> ac_payTo c"
    "1 \<le> u" "safe_int u" "1 \<le> a" "safe_int a" "a = u * int (length (ap_repos q))" "now 4 < e0"
    "if ap_max q < a
     then m = message w (context_of w q) (counteroffer (ap_provider q) (int (length (ap_repos q))) u a)
     else \<exists>res iss ex. resource_url w (ac_resourceBaseUrl c) (ap_provider q) = Inr res \<and>
            to_iso (now 5) = Inr iss \<and> to_iso (min (now 5 + 60000) (min mandate e0)) = Inr ex \<and>
            m = message w (context_of w q) (offer_data (sign w (offer_for w c q u a res iss ex) c))"
proof -
  from assms obtain q repos mandate v u a e0 where q: "p_proposal (pm_data ps) = Some q"
    and repos: "validateRepos (repos_json (ap_repos q)) = Inr repos"
    and mandate: "parse_date w (ap_mandateExpires q) = Some mandate" "now 3 < mandate" "ap_payer q \<noteq> ac_payTo c"
    and quote: "ask (ap_provider q) repos = Inr v"
      "quote_terms w (now 4) c q (int (length repos)) v = Inr (u, a, e0)"
    by (auto simp: propose_offer_def bindR_eq_Inr)
  have r: "repos = ap_repos q" "billable (ap_repos q)"
    using repos by (auto simp: validateRepos_iff repos_json_def)
  have "if ap_max q < a
     then m = message w (context_of w q) (counteroffer (ap_provider q) (int (length (ap_repos q))) u a)
     else \<exists>res iss ex. resource_url w (ac_resourceBaseUrl c) (ap_provider q) = Inr res \<and>
            to_iso (now 5) = Inr iss \<and> to_iso (min (now 5 + 60000) (min mandate e0)) = Inr ex \<and>
            m = message w (context_of w q) (offer_data (sign w (offer_for w c q u a res iss ex) c))"
    using assms q repos mandate quote r
    by (auto simp: propose_offer_def bindR_eq_Inr Let_def offer_data_def offer_for_def split: if_splits)
  with q r mandate quote_terms_props [OF quote(2)] that show thesis by auto
qed

lemma propose_offer_cases:
  assumes "propose_offer w now c ask ps = Inr m" "validateConfig w c = Inr ()" "hex_hash w" "clock_ok now"
  obtains (counter) q u a n where "p_proposal (pm_data ps) = Some q" "ap_max q < a" "a = u * n" "0 < u"
      "m = message w (context_of w q) (counteroffer (ap_provider q) n u a)"
  | (issued) q p e where "p_proposal (pm_data ps) = Some q" "wf_offer p" "billable (of_repos p)"
      "m = message w (of_context p) (offer_data (sign w p c))"
      "of_amount p = of_unitPrice p * int (length (of_repos p))" "of_amount p \<le> of_max p"
      "of_requestId p = ap_requestId q" "of_payer p = ap_payer q" "of_provider p = ap_provider q"
      "of_repos p = ap_repos q" "of_max p = ap_max q" "of_mandateExpires p = ap_mandateExpires q"
      "of_payTo p = ac_payTo c" "of_payer p \<noteq> ac_payTo c"
      "resource_url w (ac_resourceBaseUrl c) (of_provider p) = Inr (of_resource p)"
      "parse_date w (of_issued p) = Some (now 5)" "parse_date w (of_expires p) = Some e"
      "e \<le> now 5 + 60000" "date_le (Some e) (parse_date w (of_mandateExpires p))"
proof -
  obtain q mandate u a e0 where q: "p_proposal (pm_data ps) = Some q"
    and f: "billable (ap_repos q)" "parse_date w (ap_mandateExpires q) = Some mandate"
      "now 3 < mandate" "ap_payer q \<noteq> ac_payTo c"
      "1 \<le> u" "safe_int u" "1 \<le> a" "safe_int a" "a = u * int (length (ap_repos q))" "now 4 < e0"
    and m: "if ap_max q < a
     then m = message w (context_of w q) (counteroffer (ap_provider q) (int (length (ap_repos q))) u a)
     else \<exists>res iss ex. resource_url w (ac_resourceBaseUrl c) (ap_provider q) = Inr res \<and>
            to_iso (now 5) = Inr iss \<and> to_iso (min (now 5 + 60000) (min mandate e0)) = Inr ex \<and>
            m = message w (context_of w q) (offer_data (sign w (offer_for w c q u a res iss ex) c))"
    by (rule propose_reply [OF assms(1)])
  show thesis
  proof (cases "ap_max q < a")
    case True
    with m f show thesis by (intro counter [OF q True f(9)]) auto
  next
    case False
    define e where "e = min (now 5 + 60000) (min mandate e0)"
    from False m obtain res iss ex where
      res: "resource_url w (ac_resourceBaseUrl c) (ap_provider q) = Inr res"
      and iso: "to_iso (now 5) = Inr iss" "to_iso e = Inr ex"
      and m: "m = message w (context_of w q) (offer_data (sign w (offer_for w c q u a res iss ex) c))"
      by (auto simp: e_def)
    have range: "iso_range (now 5)" "iso_range e"
      using assms(4) [unfolded clock_ok_def, rule_format, of 3] assms(4) [unfolded clock_ok_def, rule_format, of 4]
        assms(4) [unfolded clock_ok_def, rule_format, of 5] f(3,10)
      unfolding iso_range_def e_def by auto
    note parsed = to_iso_parses [OF iso(1) range(1)] to_iso_parses [OF iso(2) range(2)]
    have pay: "is_account (ac_payTo c)" using assms(2) by (auto simp: validateConfig_def bindR_eq_Inr)
    let ?p = "offer_for w c q u a res iss ex"
    have "wf_offer ?p"
      using p_proposal_props [OF q] context_identity [OF assms(3)] f parsed pay
      by (simp add: wf_offer_def offer_for_def billable_def)
    moreover have "billable (of_repos ?p)" "m = message w (of_context ?p) (offer_data (sign w ?p c))"
      using f(1) m by (simp_all add: offer_for_def)
    moreover have "e \<le> now 5 + 60000" "e \<le> mandate" unfolding e_def by (rule min.cobounded1, simp)
    ultimately show thesis
      by (intro issued [OF q, of ?p e]) (use f res parsed False in \<open>simp_all add: offer_for_def\<close>)
  qed
qed

lemma payload_as_offer [simp]: "payload_of (as_offer w p t) = p" "ao_token (as_offer w p t) = t"
  "offer_payload.truncate (as_offer w p t) = p"
  by (simp_all add: payload_of_def as_offer_def Let_def offer_payload.defs)

lemma as_offer_fields [simp]:
  "of_payer (as_offer w p t) = of_payer p" "of_expires (as_offer w p t) = of_expires p"
  "of_mandateExpires (as_offer w p t) = of_mandateExpires p" "of_provider (as_offer w p t) = of_provider p"
  "of_resource (as_offer w p t) = of_resource p" "of_repos (as_offer w p t) = of_repos p"
  "of_amount (as_offer w p t) = of_amount p" "of_unitPrice (as_offer w p t) = of_unitPrice p"
  "of_max (as_offer w p t) = of_max p" "of_payTo (as_offer w p t) = of_payTo p"
  "of_requestId (as_offer w p t) = of_requestId p" "of_context (as_offer w p t) = of_context p"
  "of_issued (as_offer w p t) = of_issued p"
  by (simp_all add: as_offer_def Let_def offer_payload.defs)

lemma offer_data_inject: "offer_data ao = offer_data bo \<longleftrightarrow> ao = bo"
  by (cases ao; cases bo)
    (auto simp: offer_data_def full_offer_fields_def offer_fields_def payload_of_def offer_payload.defs int_json_def
      repos_json_def)

text \<open>A reply comes out of the acceptance or the proposal of a parsed message.\<close>

definition sent_params :: "json \<Rightarrow> a2a_params option" where
  "sent_params input = Option.bind (fld input ''params'') p_params"

lemma handler_reply:
  assumes "handleA2ARequest w now c ask input = Reply i m"
  obtains ps where "envelope input = Some (i, ''message/send'')" "validateConfig w c = Inr ()"
    "sent_params input = Some ps"
    "(if fld (pm_data ps) ''action'' = Some (JStr ''accept'') then accept_offer w now c ps
      else propose_offer w now c ask ps) = Inr m"
  using assms
  by (auto simp: handleA2ARequest_def handle_send_def bindR_eq_Inr sent_params_def
      split: option.split_asm if_split_asm sum.split_asm)

lemma accept_reply:
  assumes "accept_offer w now c ps = Inr m"
  obtains a ao where "p_acceptance (pm_data ps) = Some a"
    "verifyA2AOffer w now (aa_offerToken a) c False = Inr ao" "of_payer ao = aa_payer a"
    "of_requestId ao = aa_requestId a" "pm_context ps = Some (of_context ao)"
    "fst (hd (am_data m)) = ''action''" "map_of (am_data m) ''action'' = Some (JStr ''accepted'')" "am_context m = of_context ao"
  using assms by (auto simp: accept_offer_def bindR_eq_Inr message_def)

text \<open>The offer behind an issued message, with what \<open>propose_offer_cases\<close> says of it.\<close>

lemma issued_offer:
  assumes "handleA2ARequest w now c ask input = Reply i m" "am_data m = offer_data ao" "hex_hash w" "clock_ok now"
  obtains ps q p e where "sent_params input = Some ps" "validateConfig w c = Inr ()"
      "p_proposal (pm_data ps) = Some q" "ao = sign w p c" "wf_offer p" "billable (of_repos p)"
      "of_amount p = of_unitPrice p * int (length (of_repos p))" "of_amount p \<le> of_max p"
      "of_requestId p = ap_requestId q" "of_payer p = ap_payer q" "of_provider p = ap_provider q"
      "of_repos p = ap_repos q" "of_max p = ap_max q" "of_mandateExpires p = ap_mandateExpires q"
      "of_payTo p = ac_payTo c" "of_payer p \<noteq> ac_payTo c"
      "resource_url w (ac_resourceBaseUrl c) (of_provider p) = Inr (of_resource p)"
      "parse_date w (of_issued p) = Some (now 5)" "parse_date w (of_expires p) = Some e"
      "e \<le> now 5 + 60000" "date_le (Some e) (parse_date w (of_mandateExpires p))"
proof -
  obtain ps where ps: "sent_params input = Some ps" "validateConfig w c = Inr ()"
    "(if fld (pm_data ps) ''action'' = Some (JStr ''accept'') then accept_offer w now c ps
      else propose_offer w now c ask ps) = Inr m"
    by (rule handler_reply [OF assms(1)])
  have act: "map_of (am_data m) ''action'' = Some (JStr ''offer'')"
    by (simp add: assms(2) offer_data_def)
  have "propose_offer w now c ask ps = Inr m"
  proof (cases "fld (pm_data ps) ''action'' = Some (JStr ''accept'')")
    case True
    then have "accept_offer w now c ps = Inr m" using ps(3) by simp
    then show ?thesis by (rule accept_reply) (use act in simp)
  next
    case False
    then show ?thesis using ps(3) by simp
  qed
  then show thesis
  proof (rule propose_offer_cases [OF _ ps(2) assms(3,4)], goal_cases)
    case (1 q u a n)
    then show thesis using act by (simp add: message_def counteroffer_def)
  next
    case (2 q p e)
    then have "offer_data ao = offer_data (sign w p c)" using assms(2) by (simp add: message_def)
    then have "ao = sign w p c" by (simp only: offer_data_inject)
    with 2 ps that show thesis by blast
  qed
qed

text \<open>A signed offer with sound terms verifies.\<close>

lemma sign_fields [simp]: "of_expires (sign w p c) = of_expires p" "of_mandateExpires (sign w p c) = of_mandateExpires p"
  "of_payer (sign w p c) = of_payer p" "of_provider (sign w p c) = of_provider p" "of_resource (sign w p c) = of_resource p"
  by (simp_all add: sign_def Let_def)

lemma verify_sign:
  assumes "exact_numbers w" "mac_bytes w" "validateConfig w c = Inr ()" "wf_offer p" "billable (of_repos p)"
    "of_amount p = of_unitPrice p * int (length (of_repos p))" "of_amount p \<le> of_max p"
    "of_payTo p = ac_payTo c" "of_payer p \<noteq> ac_payTo c"
    "resource_url w (ac_resourceBaseUrl c) (of_provider p) = Inr (of_resource p)"
    "offer_times_ok w later False p" "length (ao_token (sign w p c)) \<le> 12000"
  shows "verifyA2AOffer w later (ao_token (sign w p c)) c False = Inr (sign w p c)"
proof -
  obtain body s where t: "ao_token (sign w p c) = body @ CHR ''.'' # s"
    "token_parts (ao_token (sign w p c)) = Some (body, s)"
    "list_all is_ident_char body" "hmac w (ac_offerSecret c) body = of_base64url s"
    "body = base64url (utf8 (stringify (JObj (offer_fields p))))" "sign w p c = as_offer w p (body @ CHR ''.'' # s)"
    by (rule sign_token [OF assms(2)])
  have d: "decode_payload w body = Inr p" unfolding t(5) by (rule decode_sign [OF assms(1,4)])
  show ?thesis
    using assms t(2-4) d by (simp add: verifyA2AOffer_def validateRepos_repos_json check_def) (simp add: t(1) flip: t(6))
qed

section \<open>Properties\<close>

text \<open>
  C17. An offer the handler issues verifies under the seller's configuration until it expires:
  the token decodes to the signed payload, the code matches, the resource and the amount are
  those the verifier expects.
\<close>

theorem issued_offer_verifies:
  assumes "handleA2ARequest w now c ask input = Reply i m" "am_data m = offer_data ao"
    and laws: "exact_numbers w" "mac_bytes w" "hex_hash w"
    and clocks: "clock_ok now" "\<forall>k. now 5 \<le> later k"
    and "length (ao_token ao) \<le> 12000"
    and "date_lt (Some (later 1)) (parse_date w (of_expires ao))"
    and "date_lt (Some (later 2)) (parse_date w (of_mandateExpires ao))"
  shows "verifyA2AOffer w later (ao_token ao) c False = Inr ao"
proof -
  obtain ps q p e where o: "validateConfig w c = Inr ()" "ao = sign w p c" "wf_offer p" "billable (of_repos p)"
      "of_amount p = of_unitPrice p * int (length (of_repos p))" "of_amount p \<le> of_max p"
      "of_payTo p = ac_payTo c" "of_payer p \<noteq> ac_payTo c"
      "resource_url w (ac_resourceBaseUrl c) (of_provider p) = Inr (of_resource p)"
      "parse_date w (of_issued p) = Some (now 5)" "parse_date w (of_expires p) = Some e"
      "e \<le> now 5 + 60000" "date_le (Some e) (parse_date w (of_mandateExpires p))"
    by (rule issued_offer [OF assms(1,2) laws(3) clocks(1)])
  have c: "now 5 \<le> later 0" "now 5 \<le> later 1" "now 5 \<le> later 2" using clocks(2) by blast+
  have "offer_times_ok w later False p"
    using assms(9,10) c o by (auto simp: offer_times_ok_def o(2) date_le_def date_lt_def split: option.splits)
  then show ?thesis
    unfolding o(2) by (intro verify_sign laws o) (use assms(8) o(2) in simp_all)
qed

text \<open>
  C18. The same offer, sent back to the buyer that proposed it, passes \<open>validateSellerOffer\<close>:
  seller and buyer agree on the token format and on every term.
\<close>

theorem issued_offer_suits_buyer:
  assumes "handleA2ARequest w now c ask input = Reply i m" "am_data m = offer_data ao"
    and "sent_params input = Some ps"
    and laws: "exact_numbers w" "mac_bytes w" "hex_hash w"
    and clocks: "clock_ok now" "\<forall>k. now 5 \<le> later k"
    and "length (ao_token ao) \<le> 12000"
    and "date_lt (Some (later 0)) (parse_date w (of_expires ao))"
    and "resource_url w base (of_provider ao) = Inr (of_resource ao)"
  shows "validateSellerOffer w later (JObj (am_data m)) (pm_data ps) base (ac_payTo c) = Inr ao"
proof -
  obtain ps' q p e where ps: "sent_params input = Some ps'" "p_proposal (pm_data ps') = Some q"
    and o: "ao = sign w p c" "wf_offer p" "billable (of_repos p)"
      "of_amount p = of_unitPrice p * int (length (of_repos p))" "of_amount p \<le> of_max p"
      "of_requestId p = ap_requestId q" "of_payer p = ap_payer q" "of_provider p = ap_provider q"
      "of_repos p = ap_repos q" "of_max p = ap_max q" "of_mandateExpires p = ap_mandateExpires q"
      "of_payTo p = ac_payTo c" "of_payer p \<noteq> ac_payTo c"
      "parse_date w (of_issued p) = Some (now 5)" "parse_date w (of_expires p) = Some e"
      "e \<le> now 5 + 60000" "date_le (Some e) (parse_date w (of_mandateExpires p))"
    by (rule issued_offer [OF assms(1,2) laws(3) clocks(1)])
  have "ps' = ps" using ps(1) assms(3) by simp
  obtain body s where t: "ao_token ao = body @ CHR ''.'' # s" "token_parts (ao_token ao) = Some (body, s)"
    "list_all is_ident_char body" "hmac w (ac_offerSecret c) body = of_base64url s"
    "body = base64url (utf8 (stringify (JObj (offer_fields p))))" "ao = as_offer w p (body @ CHR ''.'' # s)"
    unfolding o(1) by (rule sign_token [OF laws(2)])
  have d: "decode_payload w body = Inr p" unfolding t(5) by (rule decode_sign [OF laws(1) o(2)])
  have c: "now 5 \<le> later 0" "now 5 \<le> later 1" using clocks(2) by blast+
  have times: "seller_times_ok w later p q"
    using assms(10) c o by (auto simp: seller_times_ok_def t(6) date_le_def date_lt_def split: option.splits)
  have tok: "fstr (JObj (offer_data ao)) ''offerToken'' = Some (ao_token ao)"
    by (simp add: fstr_def offer_data_def full_offer_fields_def offer_fields_def)
  have same: "list_all (\<lambda>(k, v). \<exists>z. fld (JObj (offer_data ao)) k = Some z \<and> stringify z = stringify v)
      (full_offer_fields ao)"
    by (simp add: offer_data_def full_offer_fields_def offer_fields_def)
  have res: "resource_url w base (ap_provider q) = Inr (of_resource p)"
    using assms(11) o(8) by (simp add: t(6))
  have ao: "as_offer w p (ao_token ao) = ao" by (simp add: t(1) flip: t(6))
  show ?thesis
    unfolding \<open>ps' = ps\<close> [symmetric] assms(2)
    by (simp add: validateSellerOffer_def ps(2) tok check_def assms(9) t(2) d o(3) validateRepos_repos_json Let_def ao same res
        times o(4,6-11) [symmetric] o(5,12,13) res [unfolded o(8) [symmetric]] del: stringify.simps fld.simps)
qed

text \<open>
  C19. An offer that \<open>verifyA2AOffer\<close> accepts carries the seller's authentication code over
  its own text, names the seller as payee and someone else as payer, costs the unit price times
  the billable repositories and no more than the mandate's maximum, lasts at most a minute and
  not beyond the mandate, and has not expired.
\<close>

theorem verified_offer_sound:
  assumes "verifyA2AOffer w now token c False = Inr ao"
  shows "(\<exists>body s. token_parts token = Some (body, s) \<and> hmac w (ac_offerSecret c) body = of_base64url s \<and>
        decode_payload w body = Inr (payload_of ao)) \<and>
      billable (of_repos ao) \<and> of_amount ao = of_unitPrice ao * int (length (of_repos ao)) \<and>
      of_amount ao \<le> of_max ao \<and> of_payTo ao = ac_payTo c \<and> of_payer ao \<noteq> ac_payTo c \<and>
      resource_url w (ac_resourceBaseUrl c) (of_provider ao) = Inr (of_resource ao) \<and>
      (\<exists>issued expiry. parse_date w (of_issued ao) = Some issued \<and> parse_date w (of_expires ao) = Some expiry \<and>
        issued < expiry \<and> expiry \<le> issued + 60000 \<and> issued \<le> now 0 + 1000 \<and> now 1 < expiry \<and>
        (case parse_date w (of_mandateExpires ao) of Some mandate \<Rightarrow> expiry \<le> mandate \<and> now 2 < mandate | None \<Rightarrow> True))"
proof -
  obtain body s p where v: "token_parts token = Some (body, s)" "hmac w (ac_offerSecret c) body = of_base64url s"
    "decode_payload w body = Inr p" "\<exists>rs. validateRepos (repos_json (of_repos p)) = Inr rs" "offer_times_ok w now False p"
    "of_payTo p = ac_payTo c" "of_payer p \<noteq> ac_payTo c"
    "resource_url w (ac_resourceBaseUrl c) (of_provider p) = Inr (of_resource p)"
    "of_amount p = of_unitPrice p * int (length (of_repos p))" "of_amount p \<le> of_max p" "ao = as_offer w p token"
    using assms by (auto simp: verifyA2AOffer_def bindR_eq_Inr)
  have "billable (of_repos p)"
    using v(4) by (auto simp: validateRepos_iff repos_json_def)
  moreover have "\<exists>issued expiry. parse_date w (of_issued p) = Some issued \<and> parse_date w (of_expires p) = Some expiry \<and>
      issued < expiry \<and> expiry \<le> issued + 60000 \<and> issued \<le> now 0 + 1000 \<and> now 1 < expiry \<and>
      (case parse_date w (of_mandateExpires p) of Some mandate \<Rightarrow> expiry \<le> mandate \<and> now 2 < mandate | None \<Rightarrow> True)"
  proof -
    obtain issued expiry where d: "parse_date w (of_issued p) = Some issued" "parse_date w (of_expires p) = Some expiry"
      using v(5) by (auto simp: offer_times_ok_def Let_def)
    then show ?thesis
      using v(5) by (auto simp: offer_times_ok_def not_less not_le split: option.splits)
  qed
  ultimately show ?thesis
    using v(1-3) v(10) [unfolded v(9)] by (simp add: v(6-9) v(11))
qed

text \<open>
  C20. For every input and whatever the quote service answers, the handler replies: it echoes the
  request's id (none when the envelope is malformed), its errors have one of the five codes, and a
  message goes only to \<open>message/send\<close>, as a verified acceptance, an offer whose amount is
  within the proposed maximum, or a counteroffer above it.
\<close>

theorem handler_replies:
  shows "case handleA2ARequest w now c ask input of
      Failure i n _ \<Rightarrow> n \<in> {- 32600, - 32601, - 32602, - 32001, - 32005} \<and>
        i = (case envelope input of None \<Rightarrow> JNull | Some (j, _) \<Rightarrow> j)
    | Reply i m \<Rightarrow> envelope input = Some (i, ''message/send'') \<and>
        (case sent_params input of None \<Rightarrow> False | Some ps \<Rightarrow>
          (\<exists>a ao. p_acceptance (pm_data ps) = Some a \<and> verifyA2AOffer w now (aa_offerToken a) c False = Inr ao \<and>
             of_payer ao = aa_payer a \<and> pm_context ps = Some (of_context ao) \<and> am_context m = of_context ao) \<or>
          (\<exists>q p. p_proposal (pm_data ps) = Some q \<and> of_payer p = ap_payer q \<and> of_repos p = ap_repos q \<and>
             of_max p = ap_max q \<and> of_amount p \<le> ap_max q \<and> am_data m = offer_data (sign w p c)) \<or>
          (\<exists>q n u a. p_proposal (pm_data ps) = Some q \<and> ap_max q < a \<and> a = u * n \<and>
             am_data m = counteroffer (ap_provider q) n u a))"
proof (cases "handleA2ARequest w now c ask input")
  case (Failure i n msg)
  then show ?thesis
    by (auto simp: handleA2ARequest_def handle_send_def bindR_eq_Inr split: option.splits if_splits sum.splits)
next
  case (Reply i m)
  obtain ps where ps: "envelope input = Some (i, ''message/send'')" "sent_params input = Some ps"
    "(if fld (pm_data ps) ''action'' = Some (JStr ''accept'') then accept_offer w now c ps
      else propose_offer w now c ask ps) = Inr m"
    by (rule handler_reply [OF Reply])
  show ?thesis
  proof (cases "fld (pm_data ps) ''action'' = Some (JStr ''accept'')")
    case True
    then have "accept_offer w now c ps = Inr m" using ps(3) by simp
    then show ?thesis by (rule accept_reply) (auto simp: Reply ps(1,2))
  next
    case False
    then have p: "propose_offer w now c ask ps = Inr m" using ps(3) by simp
    show ?thesis
      by (rule propose_reply [OF p])
        (auto simp: Reply ps(1,2) message_def offer_for_def split: if_splits intro!: exI)
  qed
qed

text \<open>
  How the body is cut into chunks does not matter: the route reads the concatenation, or
  refuses it when it is longer than 16,000 bytes.
\<close>

theorem chunks_are_irrelevant:
  "read_chunks 0 (map Inr cs) =
     Inr (if 16000 < length (concat cs) then None else Some (concat cs))"
proof -
  have "read_chunks n (map Inr cs) =
     Inr (if cs \<noteq> [] \<and> 16000 < n + length (concat cs) then None else Some (concat cs))" if "n \<le> 16000" for n
    using that
  proof (induction cs arbitrary: n)
    case (Cons b bs)
    then show ?case by (auto simp: Let_def)
  qed simp
  from this [of 0] show ?thesis by auto
qed

section \<open>A sample seller\<close>

text \<open>A runtime that satisfies the laws, a seller, and a proposal of one repository.\<close>

definition iso_text :: "int \<Rightarrow> string" where
  "iso_text t = (case to_iso t of Inr s \<Rightarrow> s | Inl _ \<Rightarrow> [])"

definition sample_url :: "string \<Rightarrow> url" where
  "sample_url s = \<lparr>href = s, protocol = ''https:'', origin = s, username = [], password = [], hostname = ''a.example'',
     pathname = ''/'', search = [], hash_part = []\<rparr>"

definition sample_web :: web where
  "sample_web = \<lparr>sha256 = (\<lambda>_. replicate 64 (CHR ''0'')), hmac = (\<lambda>_ _. replicate 32 7),
     legacy_date = (\<lambda>_. None), read_number = (\<lambda>n. n), add_double = (\<lambda>_ _. NaN),
     parse_url = (\<lambda>s. Some (sample_url s)), resolve_url = (\<lambda>r b. Some (sample_url (href b @ r))),
     set_pathname = (\<lambda>u p. u\<lparr>pathname := p\<rparr>)\<rparr>"

definition sample_time :: int where
  "sample_time = 1790000000000"

definition sample_seller :: a2a_config where
  "sample_seller = \<lparr>ac_publicUrl = ''https://a.example/'', ac_resourceBaseUrl = ''https://a.example/'',
     ac_payTo = ''0.0.2'', ac_offerSecret = replicate 32 (CHR ''k''), ac_uaid = None\<rparr>"

definition sample_ask :: "string \<Rightarrow> string list \<Rightarrow> json res" where
  "sample_ask p rs = bindR (createQuote (\<lambda>_. sample_time) p (repos_json rs) defaultPrices ''0.0.2'')
     (\<lambda>q. Inr (quote_json q))"

definition sample_data :: json where
  "sample_data = JObj [(''action'', JStr ''propose''), (''payer'', JStr ''0.0.1''), (''requestId'', JStr ''r1''),
     (''providerId'', JStr ''repo-standard''), (''repos'', repos_json [''a/b'']), (''maxAmountAtomic'', int_json 200000),
     (''mandateExpiresAt'', JStr (iso_text (sample_time + 30000)))]"

definition sample_input :: json where
  "sample_input = JObj [(''jsonrpc'', JStr ''2.0''), (''id'', JStr ''1''), (''method'', JStr ''message/send''),
     (''params'', JObj [(''message'', JObj [(''kind'', JStr ''message''), (''role'', JStr ''user''),
        (''messageId'', JStr ''m''), (''parts'', JArr [JObj [(''kind'', JStr ''data''), (''data'', sample_data)]])])])]"

definition sample_proposal :: a2a_proposal where
  "sample_proposal = \<lparr>ap_payer = ''0.0.1'', ap_requestId = ''r1'', ap_provider = ''repo-standard'', ap_repos = [''a/b''],
     ap_max = 200000, ap_mandateExpires = iso_text (sample_time + 30000)\<rparr>"

definition sample_payload :: offer_payload where
  "sample_payload = offer_for sample_web sample_seller sample_proposal 100000 100000
     ''https://a.example/evidence/repo-standard'' (iso_text sample_time) (iso_text (sample_time + 30000))"

lemma iso_text:
  assumes "iso_range t"
  shows "to_iso t = Inr (iso_text t)" "iso_datetime b (iso_text t) = Some t" "parse_date w (iso_text t) = Some t"
proof -
  obtain s where s: "to_iso t = Inr s" using iso_roundtrip [OF assms, of True] .
  then show "to_iso t = Inr (iso_text t)" by (simp add: iso_text_def)
  then show "iso_datetime b (iso_text t) = Some t" "parse_date w (iso_text t) = Some t"
    using to_iso_parses [OF _ assms] by blast+
qed

lemma sample_range: "iso_range sample_time" "iso_range (sample_time + 30000)" "iso_range (sample_time + 60000)"
  by (simp_all add: iso_range_def sample_time_def)

lemma sample_laws: "exact_numbers sample_web" "mac_bytes sample_web" "hex_hash sample_web" "clock_ok (\<lambda>_. sample_time)"
  by (simp_all add: exact_numbers_def mac_bytes_def hex_hash_def clock_ok_def sample_time_def sample_web_def
      is_lower_hex_def is_digit_def char_between_def code_def list_all_iff)

lemma sample_config: "validateConfig sample_web sample_seller = Inr ()"
proof -
  have "is_account ''0.0.2''" by code_simp
  moreover have "utf8_length (replicate n (CHR ''k'')) = n" for n by (induction n) (simp_all add: code_def)
  ultimately show ?thesis
    by (simp add: validateConfig_def trustedBase_def sample_web_def sample_seller_def url_or_throw_def trusted_url_def
        sample_url_def with_slash_def)
qed

lemma sample_parsed: "p_proposal sample_data = Some sample_proposal"
proof -
  have "is_account ''0.0.1'' \<and> is_identity ''r1'' \<and> safe_int 200000" by code_simp
  then show ?thesis
    by (simp add: p_proposal_def sample_data_def sample_proposal_def strict_def keys_def field_def p_literal_def
        p_identity_def p_account_def p_provider_def provider_ids_def p_repo_list_def p_atomic_def p_datetime_def check_def
        repos_json_def iso_text sample_range)
qed

lemma sample_quote:
  "sample_ask ''repo-standard'' [''a/b''] = Inr (quote_json \<lparr>rq_provider = ''repo-standard'', rq_unitPrice = 100000,
     rq_units = 1, rq_amount = 100000, rq_network = HEDERA_NETWORK, rq_asset = ''HBAR'', rq_payTo = ''0.0.2'',
     rq_expires = iso_text (sample_time + 60000)\<rparr>)"
proof -
  have "billable [''a/b''] \<and> safe_int 100000" by code_simp
  then show ?thesis
    by (simp add: sample_ask_def createQuote_def validateRepos_repos_json price_of_def defaultPrices_def iso_text sample_range)
qed

lemma sample_reply:
  "handleA2ARequest sample_web (\<lambda>_. sample_time) sample_seller sample_ask sample_input =
     Reply (JStr ''1'') (message sample_web (context_of sample_web sample_proposal)
       (offer_data (sign sample_web sample_payload sample_seller)))"
  "sent_params sample_input = Some \<lparr>pm_context = None, pm_task = None, pm_data = sample_data, pm_modes = None\<rparr>"
proof -
  have params: "Option.bind (fld sample_input ''params'') p_params =
      Some \<lparr>pm_context = None, pm_task = None, pm_data = sample_data, pm_modes = None\<rparr>"
    by (simp add: sample_input_def p_params_def strict_def keys_def field_def p_message_def p_literal_def check_def
        fopt_def farr_def p_part_def p_record_def sample_data_def)
  then show "sent_params sample_input = Some \<lparr>pm_context = None, pm_task = None, pm_data = sample_data, pm_modes = None\<rparr>"
    by (simp add: sent_params_def)
  have env: "envelope sample_input = Some (JStr ''1'', ''message/send'')"
    by (simp add: envelope_def sample_input_def fstr_def)
  have b: "billable [''a/b''] \<and> safe_int 100000 \<and> sample_time < sample_time + 60000" by code_simp
  have res: "resource_url sample_web ''https://a.example/'' ''repo-standard'' = Inr ''https://a.example/evidence/repo-standard''"
    by (simp add: resource_url_def trustedBase_def url_or_throw_def sample_web_def trusted_url_def sample_url_def with_slash_def)
  have qt: "quote_terms sample_web sample_time sample_seller sample_proposal 1 (quote_json \<lparr>rq_provider = ''repo-standard'',
      rq_unitPrice = 100000, rq_units = 1, rq_amount = 100000, rq_network = HEDERA_NETWORK, rq_asset = ''HBAR'',
      rq_payTo = ''0.0.2'', rq_expires = iso_text (sample_time + 60000)\<rparr>) = Inr (100000, 100000, sample_time + 60000)"
    using b by (simp add: quote_terms_def quote_json_def fstr_def fint_def as_int_def is_safe_integer_def
        parse_date_of_def check_def iso_text sample_range sample_proposal_def sample_seller_def)
  have offer: "propose_offer sample_web (\<lambda>_. sample_time) sample_seller sample_ask
      \<lparr>pm_context = None, pm_task = None, pm_data = sample_data, pm_modes = None\<rparr> =
      Inr (message sample_web (context_of sample_web sample_proposal)
       (offer_data (sign sample_web sample_payload sample_seller)))"
  proof -
    have p: "ap_repos sample_proposal = [''a/b'']" "ap_provider sample_proposal = ''repo-standard''"
      "ap_mandateExpires sample_proposal = iso_text (sample_time + 30000)" "ap_payer sample_proposal = ''0.0.1''"
      "ap_max sample_proposal = 200000" "ap_requestId sample_proposal = ''r1''"
      "ac_payTo sample_seller = ''0.0.2''" "ac_resourceBaseUrl sample_seller = ''https://a.example/''"
      by (simp_all add: sample_proposal_def sample_seller_def)
    have min: "min (sample_time + 60000) (min (sample_time + 30000) (sample_time + 60000)) = sample_time + 30000"
      by simp
    show ?thesis
      using b by (simp only: propose_offer_def a2a_params.simps sample_parsed of_opt_simps bindR_simps p
          validateRepos_repos_json iso_text sample_range sample_quote)
        (simp add: qt Let_def res iso_text sample_range offer_data_def sample_payload_def offer_for_def p min)
  qed
  have act: "fld sample_data ''action'' = Some (JStr ''propose'')" by (simp add: sample_data_def)
  show "handleA2ARequest sample_web (\<lambda>_. sample_time) sample_seller sample_ask sample_input =
     Reply (JStr ''1'') (message sample_web (context_of sample_web sample_proposal)
       (offer_data (sign sample_web sample_payload sample_seller)))"
    by (simp add: handleA2ARequest_def env handle_send_def sample_config params output_ok_def act offer)
qed

text \<open>A bound on the length of a printed value, for the length of a token.\<close>

fun width :: "json \<Rightarrow> nat" where
  "width JNull = 4"
| "width (JBool b) = 5"
| "width (JNum n) = (if is_finite n then length (num_str n) else 4)"
| "width (JStr s) = 6 * length s + 2"
| "width (JArr xs) = sum_list (map (\<lambda>x. width x + 1) xs) + 2"
| "width (JObj kvs) = sum_list (map (\<lambda>(k, v). 6 * length k + width v + 4) kvs) + 2"

lemma quote_length: "length (quote s) \<le> 6 * length s + 2"
proof -
  have "length (esc_char c) \<le> 6" for c by (simp add: esc_char_def)
  then have "length (concat (map esc_char s)) \<le> 6 * length s"
    by (induction s) (simp_all add: add_le_mono)
  then show ?thesis by (simp add: quote_def)
qed

lemma join_length: "length (join '','' xs) \<le> sum_list (map (\<lambda>x. length x + 1) xs)"
  by (induction "'',''" xs rule: join.induct) auto

lemma print_entries_length:
  assumes "\<And>k v. (k, v) \<in> set kvs \<Longrightarrow> length (stringify v) \<le> width v"
  shows "sum_list (map (\<lambda>x. length x + 1) (map print_entry kvs)) \<le>
    sum_list (map (\<lambda>(k, v). 6 * length k + width v + 4) kvs)"
  using assms
proof (induction kvs)
  case (Cons kv kvs)
  obtain k v where kv: "kv = (k, v)" by (cases kv)
  have "length (stringify v) \<le> width v" by (rule Cons.prems [of k]) (simp add: kv)
  then have "length (print_entry kv) + 1 \<le> 6 * length k + width v + 4"
    using quote_length [of k] by (simp add: kv print_entry_def)
  moreover have "sum_list (map (\<lambda>x. length x + 1) (map print_entry kvs)) \<le>
      sum_list (map (\<lambda>(k, v). 6 * length k + width v + 4) kvs)"
    by (rule Cons.IH) (auto intro: Cons.prems)
  ultimately show ?case unfolding list.map sum_list.Cons kv case_prod_conv by (rule add_mono)
qed simp

lemma stringify_length: "length (stringify v) \<le> width v"
proof (induction v rule: stringify.induct)
  case (4 s)
  then show ?case using quote_length [of s] by simp
next
  case (5 xs)
  have "sum_list (map (\<lambda>x. length x + 1) (map stringify xs)) \<le> sum_list (map (\<lambda>x. width x + 1) xs)"
    using 5 by (induction xs) (simp_all add: add_le_mono)
  then show ?case using join_length [of "map stringify xs"] by simp
next
  case (6 kvs)
  have "length (stringify v) \<le> width v" if "(k, v) \<in> set kvs" for k v
    using 6 that by simp
  then have "sum_list (map (\<lambda>x. length x + 1) (map print_entry kvs)) \<le>
      sum_list (map (\<lambda>(k, v). 6 * length k + width v + 4) kvs)"
    by (rule print_entries_length)
  then show ?case using join_length [of "map print_entry kvs"]
    by (simp only: stringify_obj width.simps length_append list.size)
qed simp_all

lemma iso_text_length: "iso_range t \<Longrightarrow> length (iso_text t) = 24"
proof -
  assume t: "iso_range t"
  have c: "length (clock_text n) = 13" for n by (simp add: clock_text_def pad2_def pad3_def)
  define d where "d = t div 86400000 + epoch_day"
  have m: "86400000 * (t div 86400000) + t mod 86400000 = t" "0 \<le> t mod 86400000" "t mod 86400000 < 86400000"
    by simp_all
  have r: "- 62167219200000 \<le> t" "t < 253402300800000" using t by (simp_all add: iso_range_def)
  have "0 \<le> d" "d < 3652425"
    using r m by (simp_all add: d_def epoch_day_def)
  then have "length (day_text d @ ''T'' @ clock_text n) = 24" for n using p_day_text c by simp
  moreover have "iso_text t = day_text d @ ''T'' @ clock_text (nat (t mod 86400000))"
    using iso_text(1) [OF t] by (simp only: to_iso_def d_def split: if_splits) simp_all
  ultimately show ?thesis by simp
qed

lemma utf8_length_le: "utf8_length s \<le> 2 * length s"
  by (induction s) auto

lemma sample_token_length: "length (ao_token (sign sample_web sample_payload sample_seller)) \<le> 12000"
proof -
  let ?s = "stringify (JObj (offer_fields sample_payload))"
  have n: "length (num_str (num_of_int 1)) = 1" "length (num_str (num_of_int 100000)) = 6"
    "length (num_str (num_of_int 200000)) = 6"
    by code_simp+
  have "width (JObj (offer_fields sample_payload)) \<le> 3000"
    using n by (simp add: offer_fields_def sample_payload_def offer_for_def int_json_def repos_json_def context_of_def
        sample_web_def sample_proposal_def sample_seller_def HEDERA_NETWORK_def HBAR_ASSET_def iso_text_length sample_range)
  then have "length ?s \<le> 3000" using stringify_length [of "JObj (offer_fields sample_payload)"] by linarith
  then have "utf8_length ?s \<le> 6000" using utf8_length_le [of ?s] by linarith
  then show ?thesis
    by (simp add: sign_def Let_def as_offer_def offer_payload.defs base64url_length utf8_length_utf8 sample_web_def
        del: stringify.simps)
qed

theorem issued_offer_verifies_witness:
  "verifyA2AOffer sample_web (\<lambda>_. sample_time) (ao_token (sign sample_web sample_payload sample_seller)) sample_seller
     False = Inr (sign sample_web sample_payload sample_seller)"
proof -
  have t: "parse_date sample_web (of_expires sample_payload) = Some (sample_time + 30000)"
    "parse_date sample_web (of_mandateExpires sample_payload) = Some (sample_time + 30000)"
    by (simp_all add: sample_payload_def offer_for_def sample_proposal_def iso_text sample_range)
  show ?thesis
    by (rule issued_offer_verifies [OF sample_reply(1) _ sample_laws(1,2,3,4)])
      (simp_all add: message_def sample_token_length t)
qed

theorem issued_offer_suits_buyer_witness:
  "validateSellerOffer sample_web (\<lambda>_. sample_time) (JObj (offer_data (sign sample_web sample_payload sample_seller)))
     sample_data ''https://a.example/'' ''0.0.2'' = Inr (sign sample_web sample_payload sample_seller)"
proof -
  have t: "parse_date sample_web (of_expires sample_payload) = Some (sample_time + 30000)"
    by (simp_all add: sample_payload_def offer_for_def sample_proposal_def iso_text sample_range)
  have r: "resource_url sample_web ''https://a.example/'' (of_provider sample_payload) =
      Inr (of_resource sample_payload)"
    by (simp add: resource_url_def trustedBase_def url_or_throw_def sample_web_def trusted_url_def sample_url_def
        with_slash_def sample_payload_def offer_for_def sample_proposal_def)
  show ?thesis
    using issued_offer_suits_buyer [OF sample_reply(1) _ sample_reply(2) sample_laws(1,2,3,4), of "sign sample_web sample_payload sample_seller"
        "\<lambda>_. sample_time" "''https://a.example/''"] sample_token_length t r
    by (simp add: message_def) (simp add: sample_seller_def)
qed

theorem verified_offer_sound_witness:
  "of_amount (sign sample_web sample_payload sample_seller) \<le> of_max (sign sample_web sample_payload sample_seller)"
proof -
  have b: "billable [''a/b''] \<and> safe_int 100000 \<and> safe_int 200000 \<and> is_account ''0.0.1'' \<and> is_account ''0.0.2'' \<and>
      is_identity ''r1''"
    by code_simp
  have "wf_offer sample_payload"
    using b context_identity [OF sample_laws(3), of sample_proposal]
    by (simp add: wf_offer_def sample_payload_def offer_for_def sample_proposal_def sample_seller_def provider_ids_def
        iso_text sample_range)
  moreover have "resource_url sample_web ''https://a.example/'' ''repo-standard'' = Inr ''https://a.example/evidence/repo-standard''"
    by (simp add: resource_url_def trustedBase_def url_or_throw_def sample_web_def trusted_url_def sample_url_def with_slash_def)
  moreover have "offer_times_ok sample_web (\<lambda>_. sample_time) False sample_payload"
    by (simp add: offer_times_ok_def sample_payload_def offer_for_def sample_proposal_def iso_text sample_range)
  ultimately have "verifyA2AOffer sample_web (\<lambda>_. sample_time) (ao_token (sign sample_web sample_payload sample_seller))
      sample_seller False = Inr (sign sample_web sample_payload sample_seller)"
    using b by (intro verify_sign sample_laws sample_config sample_token_length)
      (simp_all add: sample_payload_def offer_for_def sample_proposal_def sample_seller_def)
  from verified_offer_sound [OF this] show ?thesis by blast
qed

end
