(* ===== verification/Contracts.thy ===== *)
theory Contracts
  imports RepoService
begin

text \<open>
  The data of \<open>src/src/lib/contracts.ts\<close> that services exchange. Amounts are atomic units:
  integers, as the schemas of the callers require them. Repository evidence stays a JSON value: it
  is what a provider sent, checked but not rebuilt.
\<close>

record data_purchase =
  dp_runId :: string
  dp_requestId :: string
  dp_repos :: "string list"
  dp_provider :: string
  dp_max :: int
  dp_unitPrice :: int
  dp_mandateExpires :: string
  dp_offerToken :: "string option"

definition purchase_json :: "data_purchase \<Rightarrow> json" where
  "purchase_json d = JObj
     ([(''runId'', JStr (dp_runId d)), (''requestId'', JStr (dp_requestId d)), (''repos'', repos_json (dp_repos d)),
       (''providerId'', JStr (dp_provider d)), (''maxAmountAtomic'', JNum (num_of_int (dp_max d))),
       (''unitPriceAtomic'', JNum (num_of_int (dp_unitPrice d))), (''mandateExpiresAt'', JStr (dp_mandateExpires d))] @
      (case dp_offerToken d of None \<Rightarrow> [] | Some t \<Rightarrow> [(''a2aOfferToken'', JStr t)]))"

record payment_receipt =
  pr_id :: string
  pr_requestId :: string
  pr_mode :: string
  pr_network :: string
  pr_asset :: string
  pr_amount :: int
  pr_units :: int
  pr_provider :: string
  pr_status :: string
  pr_timestamp :: string
  pr_transaction :: "string option"
  pr_explorer :: "string option"
  pr_order :: "string option"
  pr_recipient :: "string option"

record data_result =
  dr_evidence :: "json list"
  dr_receipt :: payment_receipt

end
