(* ===== verification/HederaChecks.thy ===== *)
theory HederaChecks
  imports Contracts A2A
begin

text \<open>
  The checks around a Hedera payment: what a facilitator's requirements, a settlement, a mirror
  node's transactions and a provider's evidence must say
  (\<open>src/src/lib/integrations/hedera.ts\<close>), token and scheduled transfers
  (\<open>src/src/lib/hedera/commerce.ts\<close>), and agent identifiers
  (\<open>src/src/lib/hedera/identity.ts\<close>).
\<close>

section \<open>Payment requirements\<close>

definition positiveAtomic :: "int \<Rightarrow> bool" where
  "positiveAtomic i \<longleftrightarrow> safe_int i \<and> 0 < i"

text \<open>\<open>value.extra?.k\<close>.\<close>

definition extra :: "json \<Rightarrow> string \<Rightarrow> json option" where
  "extra v k = Option.bind (fld v ''extra'') (\<lambda>e. fld e k)"

definition amount_text :: "json \<Rightarrow> string" where
  "amount_text v = (case fld v ''amount'' of None \<Rightarrow> ''undefined'' | Some a \<Rightarrow> js_String a)"

definition timeout_ok :: "json \<Rightarrow> bool" where
  "timeout_ok v = (case fld v ''maxTimeoutSeconds'' of
     Some (JNum n) \<Rightarrow> is_integer n \<and> 1 \<le> num_int n \<and> num_int n \<le> 120
   | _ \<Rightarrow> False)"

definition validatePaymentRequirements ::
    "json option \<Rightarrow> data_purchase \<Rightarrow> string \<Rightarrow> json \<Rightarrow> int res" where
  "validatePaymentRequirements value input pay feePayer =
     bindR (validateRepos (repos_json (dp_repos input))) (\<lambda>repos.
     let amount = dp_unitPrice input * int (length repos); v = (case value of Some j \<Rightarrow> j | None \<Rightarrow> JNull)
     in bindR (need (dp_provider input \<in> set provider_ids \<and> positiveAtomic (dp_unitPrice input) \<and>
           positiveAtomic (dp_max input) \<and> positiveAtomic amount \<and> amount \<le> dp_max input)
         (Err ''Approved data allowance is invalid or insufficient.'')) (\<lambda>_.
        bindR (need (truthy value \<and> fstr v ''scheme'' = Some ''exact'' \<and> fstr v ''network'' = Some HEDERA_NETWORK \<and>
           fstr v ''asset'' = Some HBAR_ASSET \<and> fstr v ''payTo'' = Some pay \<and> is_account pay)
         (Err ''Payment network, asset, scheme or recipient violates the mandate.'')) (\<lambda>_.
        bindR (need (amount_text v \<noteq> [] \<and> list_all is_digit (amount_text v) \<and> dec_int (amount_text v) = amount)
         (Err ''Provider price changed; renew the quote before authorizing payment.'')) (\<lambda>_.
        bindR (need (timeout_ok v \<and> is_account (js_String feePayer) \<and> strict_eq (extra v ''feePayer'') (Some feePayer))
         (Err ''Untrusted facilitator fee payer or transaction lifetime.'')) (\<lambda>_.
        bindR (need (\<not> truthy (extra v ''paymentFlow'') \<or> extra v ''paymentFlow'' = Some (JStr ''authorization''))
         (Err ''Unsupported payment flow.'')) (\<lambda>_.
          Inr amount))))))"

section \<open>Settlements and mirror transactions\<close>

fun replace_first :: "char \<Rightarrow> string \<Rightarrow> string \<Rightarrow> string" where
  "replace_first c r [] = []"
| "replace_first c r (x # xs) = (if x = c then r @ xs else x # replace_first c r xs)"

text \<open>\<open>id.replace('@','-').replace(/\.(\d+)$/,'-$1')\<close>.\<close>

definition normalizeTransactionId :: "string \<Rightarrow> string" where
  "normalizeTransactionId i =
     (let s = replace_first (CHR ''@'') ''-'' i;
          ds = rev (takeWhile is_digit (rev s)); rest = rev (dropWhile is_digit (rev s))
      in if ds \<noteq> [] \<and> rest \<noteq> [] \<and> last rest = CHR ''.'' then butlast rest @ ''-'' @ ds else s)"

text \<open>\<open>/^0\.0\.[1-9]\d*-\d{10,}-\d{1,9}$/\<close>.\<close>

definition is_transaction :: "string \<Rightarrow> bool" where
  "is_transaction s = (case split_on (CHR ''-'') s of
     [a, b, c] \<Rightarrow> is_account a \<and> 10 \<le> length b \<and> list_all is_digit b \<and> 1 \<le> length c \<and> length c \<le> 9 \<and> list_all is_digit c
   | _ \<Rightarrow> False)"

definition settlement_ok :: "json \<Rightarrow> string \<Rightarrow> string option" where
  "settlement_ok v payer =
     (if fld v ''success'' = Some (JBool True) \<and> fstr v ''network'' = Some HEDERA_NETWORK \<and> fstr v ''payer'' = Some payer
      then check (\<lambda>t. is_transaction (normalizeTransactionId t)) (fstr v ''transaction'') else None)"

definition validateSettlement :: "json \<Rightarrow> string \<Rightarrow> string res" where
  "validateSettlement v payer =
     of_opt (Err ''Payment settlement is unproven; reconcile before retrying.'') (settlement_ok v payer)"

text \<open>Double addition: exact on integers whose sum is a safe integer.\<close>

definition js_add :: "web \<Rightarrow> jsnum \<Rightarrow> jsnum \<Rightarrow> jsnum" where
  "js_add w a b =
     (if is_integer a \<and> is_integer b \<and> safe_int (num_int a) \<and> safe_int (num_int b) \<and> safe_int (num_int a + num_int b)
      then num_of_int (num_int a + num_int b) else add_double w a b)"

text \<open>\<open>reduce((sum, t) => sum + t.amount, 0)\<close>: an operand that is text makes the sum text,
  here \<open>None\<close>, which no number equals.\<close>

definition add_amount :: "web \<Rightarrow> jsnum option \<Rightarrow> json option \<Rightarrow> jsnum option" where
  "add_amount w acc v = Option.bind acc (\<lambda>a. case v of
     None \<Rightarrow> Some (js_add w a NaN)
   | Some JNull \<Rightarrow> Some (js_add w a (Dec 0 0))
   | Some (JBool b) \<Rightarrow> Some (js_add w a (Dec (if b then 1 else 0) 0))
   | Some (JNum n) \<Rightarrow> Some (js_add w a n)
   | Some _ \<Rightarrow> None)"

text \<open>Reading a property of \<open>null\<close> throws.\<close>

definition no_null :: "json list \<Rightarrow> unit res" where
  "no_null vs = need (JNull \<notin> set vs) (Thrown ''TypeError'')"

definition moved :: "web \<Rightarrow> string \<Rightarrow> json list \<Rightarrow> jsnum option" where
  "moved w who rows = fold (\<lambda>t acc. add_amount w acc (fld t ''amount''))
     (filter (\<lambda>t. fld t ''account'' = Some (JStr who)) rows) (Some (Dec 0 0))"

text \<open>\<open>tx.transfers?.filter(...)\<close>: missing rows prove nothing, rows that are no array throw.\<close>

definition rows_of :: "json option \<Rightarrow> json list option res" where
  "rows_of v = (case v of None \<Rightarrow> Inr None | Some JNull \<Rightarrow> Inr None
     | Some (JArr rs) \<Rightarrow> bindR (no_null rs) (\<lambda>_. Inr (Some rs)) | Some _ \<Rightarrow> Inl (Thrown ''TypeError''))"

definition moves :: "web \<Rightarrow> string \<Rightarrow> int \<Rightarrow> json list option \<Rightarrow> bool" where
  "moves w who amount rows = (case rows of None \<Rightarrow> False | Some rs \<Rightarrow> moved w who rs = Some (num_of_int amount))"

text \<open>\<open>!tx.token_transfers?.length\<close>.\<close>

definition no_length :: "json option \<Rightarrow> bool" where
  "no_length v = (case v of Some (JArr xs) \<Rightarrow> xs = [] | Some (JStr s) \<Rightarrow> s = [] | Some (JObj kvs) \<Rightarrow> \<not> truthy (map_of kvs ''length'') | _ \<Rightarrow> True)"

definition mirror_match :: "web \<Rightarrow> string \<Rightarrow> string \<Rightarrow> int \<Rightarrow> json \<Rightarrow> bool res" where
  "mirror_match w payer pay amount tx =
     (if fstr tx ''result'' = Some ''SUCCESS'' \<and> fstr tx ''name'' = Some ''CRYPTOTRANSFER'' \<and> no_length (fld tx ''token_transfers'')
      then bindR (rows_of (fld tx ''transfers'')) (\<lambda>rows.
             Inr (moves w payer (- amount) rows \<and> moves w pay amount rows))
      else Inr False)"

text \<open>\<open>array?.some(p)\<close> with a predicate that may throw.\<close>

fun some_row :: "(json \<Rightarrow> bool res) \<Rightarrow> json list \<Rightarrow> bool res" where
  "some_row p [] = Inr False"
| "some_row p (v # vs) =
     (if v = JNull then Inl (Thrown ''TypeError'') else bindR (p v) (\<lambda>b. if b then Inr True else some_row p vs))"

definition transactions_rows :: "json \<Rightarrow> json list res" where
  "transactions_rows v = (case fld v ''transactions'' of None \<Rightarrow> Inr [] | Some JNull \<Rightarrow> Inr []
     | Some (JArr ts) \<Rightarrow> Inr ts | Some _ \<Rightarrow> Inl (Thrown ''TypeError''))"

definition validateMirrorTransfer :: "web \<Rightarrow> json \<Rightarrow> string \<Rightarrow> string \<Rightarrow> int \<Rightarrow> unit res" where
  "validateMirrorTransfer w v payer pay amount =
     bindR (transactions_rows v) (\<lambda>ts.
     bindR (some_row (mirror_match w payer pay amount) ts) (\<lambda>b.
       need b (Err ''Hedera mirror node has not proven the exact native transfer; reconcile before retrying.'')))"

section \<open>Evidence\<close>

definition count_ok :: "json option \<Rightarrow> bool" where
  "count_ok v = (case v of Some (JNum n) \<Rightarrow> is_safe_integer n \<and> 0 \<le> num_int n | _ \<Rightarrow> False)"

definition text_ok :: "json option \<Rightarrow> bool" where
  "text_ok v = (case v of Some (JStr s) \<Rightarrow> length s \<le> 10000 | _ \<Rightarrow> False)"

definition evidence_ok :: "web \<Rightarrow> string \<Rightarrow> json \<Rightarrow> bool" where
  "evidence_ok w repo e \<longleftrightarrow>
     fstr e ''sourceUrl'' = Some (source_url repo) \<and>
     parse_date_of w (fld e ''fetchedAt'') \<noteq> None \<and> parse_date_of w (fld e ''pushedAt'') \<noteq> None \<and>
     list_all (\<lambda>k. count_ok (fld e k)) [''stars'', ''forks'', ''openIssues''] \<and>
     list_all (\<lambda>k. text_ok (fld e k)) [''description'', ''language'', ''license'']"

definition check_evidence :: "web \<Rightarrow> string \<times> json \<Rightarrow> json res" where
  "check_evidence w x = (case x of (repo, e) \<Rightarrow>
     bindR (lower_field e ''repo'') (\<lambda>r.
     bindR (need (truthy (Some e) \<and> r = Some (to_lower repo) \<and> evidence_ok w repo e)
       (Err ''Provider evidence failed source/schema validation.'')) (\<lambda>_. Inr e)))"

definition validateEvidence :: "web \<Rightarrow> json \<Rightarrow> string list \<Rightarrow> json list res" where
  "validateEvidence w v repos =
     bindR (need (is_arr v \<and> length (elems v) = length repos) (Err ''Provider returned incomplete evidence.'')) (\<lambda>_.
       mapR (check_evidence w) (zip repos (elems v)))"

end
