(* ===== verification/Commerce.thy ===== *)
theory Commerce
  imports HederaChecks
begin

text \<open>
  Token transfers and native schedules, \<open>src/src/lib/hedera/commerce.ts\<close>, and HCS-14
  agent identifiers, \<open>src/src/lib/hedera/identity.ts\<close>.
\<close>

section \<open>Token transfers\<close>

record token_terms =
  tt_asset :: string
  tt_payer :: string
  tt_payTo :: string
  tt_amount :: int

definition p_token_terms :: "json \<Rightarrow> token_terms option" where
  "p_token_terms v =
     (if \<not> strict [''asset'', ''payer'', ''payTo'', ''amountAtomic''] v then None
      else Option.bind (field v ''asset'' p_account) (\<lambda>a.
        Option.bind (field v ''payer'' p_account) (\<lambda>p.
        Option.bind (field v ''payTo'' p_account) (\<lambda>t.
        Option.bind (field v ''amountAtomic'' p_atomic) (\<lambda>n.
          Some \<lparr>tt_asset = a, tt_payer = p, tt_payTo = t, tt_amount = n\<rparr>)))))"

definition validateTokenTerms :: "json \<Rightarrow> token_terms res" where
  "validateTokenTerms v =
     bindR (of_opt Zod (p_token_terms v)) (\<lambda>t.
     bindR (need (tt_payer t \<noteq> tt_payTo t) (Err ''Payer and service recipient must differ.'')) (\<lambda>_. Inr t))"

definition token_terms_json :: "token_terms \<Rightarrow> json" where
  "token_terms_json t = JObj [(''asset'', JStr (tt_asset t)), (''payer'', JStr (tt_payer t)),
     (''payTo'', JStr (tt_payTo t)), (''amountAtomic'', int_json (tt_amount t))]"

definition safe_amount :: "json \<Rightarrow> bool" where
  "safe_amount v = (case fld v ''amount'' of Some (JNum n) \<Rightarrow> is_safe_integer n | _ \<Rightarrow> False)"

text \<open>\<open>rows.every(p)\<close>: stops at the first row that fails; reading \<open>null\<close> throws.\<close>

fun every_row :: "(json \<Rightarrow> bool) \<Rightarrow> json list \<Rightarrow> bool res" where
  "every_row p [] = Inr True"
| "every_row p (v # vs) =
     (if v = JNull then Inl (Thrown ''TypeError'') else if p v then every_row p vs else Inr False)"

definition token_match :: "web \<Rightarrow> token_terms \<Rightarrow> json \<Rightarrow> bool res" where
  "token_match w t tx =
     (if fstr tx ''result'' \<noteq> Some ''SUCCESS'' \<or> fstr tx ''name'' \<noteq> Some ''CRYPTOTRANSFER'' then Inr False
      else case fld tx ''token_transfers'' of
        Some (JArr rows) \<Rightarrow>
          if length rows \<noteq> 2 then Inr False
          else bindR (every_row (\<lambda>r. fld r ''token_id'' = Some (JStr (tt_asset t)) \<and> safe_amount r) rows) (\<lambda>b.
            Inr (b \<and> moves w (tt_payer t) (- tt_amount t) (Some rows) \<and> moves w (tt_payTo t) (tt_amount t) (Some rows)))
      | Some (JStr s) \<Rightarrow> if length s = 2 then Inl (Thrown ''TypeError'') else Inr False
      | Some (JObj kvs) \<Rightarrow> if map_of kvs ''length'' = Some (int_json 2) then Inl (Thrown ''TypeError'') else Inr False
      | _ \<Rightarrow> Inr False)"

definition validateTokenTransfer :: "web \<Rightarrow> json \<Rightarrow> token_terms \<Rightarrow> unit res" where
  "validateTokenTransfer w v input =
     bindR (validateTokenTerms (token_terms_json input)) (\<lambda>t.
     bindR (transactions_rows v) (\<lambda>ts.
     bindR (some_row (token_match w t) ts) (\<lambda>b.
       need b (Err ''Mirror node has not proved the exact HTS transfer.''))))"

section \<open>Schedules\<close>

record schedule_plan =
  sp_id :: string
  sp_payer :: string
  sp_payTo :: string
  sp_repos :: "string list"
  sp_unitPrice :: int
  sp_count :: int
  sp_interval :: int
  sp_first :: string
  sp_maxTotal :: int

definition p_between :: "int \<Rightarrow> int \<Rightarrow> json \<Rightarrow> int option" where
  "p_between lo hi v = check (\<lambda>i. lo \<le> i \<and> i \<le> hi) (as_int v)"

definition p_schedule :: "json \<Rightarrow> schedule_plan option" where
  "p_schedule v =
     (if \<not> strict [''id'', ''payer'', ''payTo'', ''repos'', ''unitPriceAtomic'', ''count'', ''intervalSeconds'',
        ''firstExecutionAt'', ''maxTotalAtomic''] v then None
      else Option.bind (field v ''id'' (\<lambda>u. check is_uuid (as_str u))) (\<lambda>i.
        Option.bind (field v ''payer'' p_account) (\<lambda>p.
        Option.bind (field v ''payTo'' p_account) (\<lambda>t.
        Option.bind (field v ''repos'' p_repo_list) (\<lambda>rs.
        Option.bind (field v ''unitPriceAtomic'' (p_between 1 100000000)) (\<lambda>u.
        Option.bind (field v ''count'' (p_between 1 10)) (\<lambda>n.
        Option.bind (field v ''intervalSeconds'' (p_between 10 86400)) (\<lambda>d.
        Option.bind (field v ''firstExecutionAt'' (p_datetime False)) (\<lambda>f.
        Option.bind (field v ''maxTotalAtomic'' (p_between 1 100000000)) (\<lambda>m.
          Some \<lparr>sp_id = i, sp_payer = p, sp_payTo = t, sp_repos = rs, sp_unitPrice = u, sp_count = n,
            sp_interval = d, sp_first = f, sp_maxTotal = m\<rparr>))))))))))"

definition schedule_total :: "schedule_plan \<Rightarrow> int" where
  "schedule_total p = sp_unitPrice p * int (length (sp_repos p)) * sp_count p"

definition schedule_times_ok :: "web \<Rightarrow> int \<Rightarrow> schedule_plan \<Rightarrow> bool" where
  "schedule_times_ok w now p =
     (let first = parse_date w (sp_first p); last_at = shifted first ((sp_count p - 1) * sp_interval p * 1000)
      in \<not> date_lt first (Some (now + 10000)) \<and> \<not> date_lt (Some (now + 86400000)) last_at)"

definition validateSchedulePlan :: "web \<Rightarrow> json \<Rightarrow> int \<Rightarrow> bool \<Rightarrow> schedule_plan res" where
  "validateSchedulePlan w input now allowPast =
     bindR (of_opt Zod (p_schedule input)) (\<lambda>p.
     bindR (validateRepos (repos_json (sp_repos p))) (\<lambda>_.
     bindR (need (sp_payer p \<noteq> sp_payTo p \<and> safe_int (schedule_total p) \<and> schedule_total p \<le> sp_maxTotal p \<and>
         (allowPast \<or> schedule_times_ok w now p)) (Err ''Schedule exceeds its finite spending authority.'')) (\<lambda>_.
       Inr p)))"

definition schedule_json :: "schedule_plan \<Rightarrow> json" where
  "schedule_json p = JObj
     [(''id'', JStr (sp_id p)), (''payer'', JStr (sp_payer p)), (''payTo'', JStr (sp_payTo p)),
      (''repos'', repos_json (sp_repos p)), (''unitPriceAtomic'', int_json (sp_unitPrice p)),
      (''count'', int_json (sp_count p)), (''intervalSeconds'', int_json (sp_interval p)),
      (''firstExecutionAt'', JStr (sp_first p)), (''maxTotalAtomic'', int_json (sp_maxTotal p))]"

definition memo_json :: "schedule_plan \<Rightarrow> int \<Rightarrow> json" where
  "memo_json p round = JArr
     [JStr (sp_id p), JStr (sp_payer p), JStr (sp_payTo p), repos_json (sp_repos p), int_json (sp_unitPrice p),
      int_json (sp_count p), int_json (sp_interval p), JStr (sp_first p), int_json (sp_maxTotal p), int_json round]"

definition scheduleMemo :: "web \<Rightarrow> schedule_plan \<Rightarrow> int \<Rightarrow> string res" where
  "scheduleMemo w input round =
     bindR (validateSchedulePlan w (schedule_json input) 0 True) (\<lambda>p.
     bindR (need (0 \<le> round \<and> round < sp_count p) (Err ''Invalid schedule round.'')) (\<lambda>_.
       Inr (''obolos:'' @ sha256 w (stringify (memo_json p round)))))"

text \<open>\<open>Number(v)\<close>: on text, a decimal literal, an infinity, or an integer in base 2, 8 or 16.\<close>

definition decimal_number :: "web \<Rightarrow> bool \<Rightarrow> string \<Rightarrow> jsnum" where
  "decimal_number w neg s =
     (let ds = takeWhile is_digit s; r = dropWhile is_digit s;
          fs = (case r of c # q \<Rightarrow> if c = CHR ''.'' then takeWhile is_digit q else [] | [] \<Rightarrow> []);
          r' = (case r of c # q \<Rightarrow> if c = CHR ''.'' then dropWhile is_digit q else r | [] \<Rightarrow> []);
          m = dec_int (ds @ fs)
      in if s = ''Infinity'' then Infinite neg
         else if ds = [] \<and> fs = [] then NaN
         else (case pexp r' of
             Some (e, []) \<Rightarrow> read_number w (mk_dec (if neg then - m else m) (e - int (length fs)))
           | _ \<Rightarrow> NaN))"

definition based_number :: "web \<Rightarrow> nat \<Rightarrow> string \<Rightarrow> jsnum" where
  "based_number w b ds =
     (if ds \<noteq> [] \<and> list_all (\<lambda>c. is_hex c \<and> hex_val c < b) ds
      then read_number w (num_of_int (int (foldl (\<lambda>v c. v * b + hex_val c) 0 ds))) else NaN)"

definition text_number :: "web \<Rightarrow> string \<Rightarrow> jsnum" where
  "text_number w s = (let t = trim s in
     if t = [] then Dec 0 0
     else if to_lower (take 2 t) = ''0x'' then based_number w 16 (drop 2 t)
     else if to_lower (take 2 t) = ''0o'' then based_number w 8 (drop 2 t)
     else if to_lower (take 2 t) = ''0b'' then based_number w 2 (drop 2 t)
     else if hd t = CHR ''-'' then decimal_number w True (tl t)
     else if hd t = CHR ''+'' then decimal_number w False (tl t)
     else decimal_number w False t)"

definition js_Number :: "web \<Rightarrow> json option \<Rightarrow> jsnum" where
  "js_Number w v = (case v of None \<Rightarrow> NaN | Some JNull \<Rightarrow> Dec 0 0 | Some (JBool b) \<Rightarrow> Dec (if b then 1 else 0) 0
     | Some (JNum n) \<Rightarrow> n | Some j \<Rightarrow> text_number w (js_String j))"

text \<open>The second at which a round is due; a plan's first execution may carry milliseconds.\<close>

definition due_at :: "web \<Rightarrow> schedule_plan \<Rightarrow> int \<Rightarrow> jsnum" where
  "due_at w p round = (case parse_date w (sp_first p) of
     None \<Rightarrow> NaN
   | Some t \<Rightarrow> js_add w (read_number w (mk_dec t (- 3))) (num_of_int (round * sp_interval p)))"

definition schedule_executed :: "web \<Rightarrow> json \<Rightarrow> schedule_plan \<Rightarrow> jsnum \<Rightarrow> string \<Rightarrow> string \<Rightarrow> bool" where
  "schedule_executed w s p due memo sid \<longleftrightarrow>
     truthy (Some s) \<and> fstr s ''schedule_id'' = Some sid \<and> fstr s ''payer_account_id'' = Some (sp_payer p) \<and>
     fld s ''wait_for_expiry'' = Some (JBool True) \<and> \<not> truthy (fld s ''deleted'') \<and> truthy (fld s ''executed_timestamp'') \<and>
     (js_Number w (fld s ''executed_timestamp'') = NaN \<or> due = NaN \<or> num_le due (js_Number w (fld s ''executed_timestamp''))) \<and>
     js_Number w (fld s ''expiration_time'') = due \<and> due \<noteq> NaN \<and> fstr s ''memo'' = Some memo"

definition fee_of :: "json \<Rightarrow> int option" where
  "fee_of tx = check (\<lambda>f. 0 \<le> f \<and> f \<le> 100000000) (fint tx ''charged_tx_fee'')"

definition memo_text :: "json \<Rightarrow> string res" where
  "memo_text tx = (case fld tx ''memo_base64'' of None \<Rightarrow> Inr [] | Some JNull \<Rightarrow> Inr []
     | Some (JStr s) \<Rightarrow> Inr (of_utf8 (of_base64url s)) | Some _ \<Rightarrow> Inl (Thrown ''TypeError''))"

definition every_safe :: "json option \<Rightarrow> bool res" where
  "every_safe v = (case v of None \<Rightarrow> Inr False | Some JNull \<Rightarrow> Inr False
     | Some (JArr rs) \<Rightarrow> every_row safe_amount rs | Some _ \<Rightarrow> Inl (Thrown ''TypeError''))"

definition scheduled_match :: "web \<Rightarrow> json \<Rightarrow> schedule_plan \<Rightarrow> int \<Rightarrow> string \<Rightarrow> json \<Rightarrow> bool res" where
  "scheduled_match w s p amount memo tx =
     (case (fee_of tx, fstr tx ''transaction_id'') of
       (Some fee, Some t) \<Rightarrow>
         if fstr tx ''result'' = Some ''SUCCESS'' \<and> fstr tx ''name'' = Some ''CRYPTOTRANSFER'' \<and>
            fld tx ''scheduled'' = Some (JBool True) \<and>
            strict_eq (fld tx ''consensus_timestamp'') (fld s ''executed_timestamp'') \<and>
            is_transaction t \<and> hd (split_on (CHR ''-'') t) = sp_payer p
         then bindR (every_safe (fld tx ''transfers'')) (\<lambda>safe.
              if \<not> safe then Inr False
              else bindR (memo_text tx) (\<lambda>m.
                if m \<noteq> memo \<or> \<not> no_length (fld tx ''token_transfers'') then Inr False
                else bindR (rows_of (fld tx ''transfers'')) (\<lambda>rows.
                  Inr (moves w (sp_payTo p) amount rows \<and> moves w (sp_payer p) (- (amount + fee)) rows))))
         else Inr False
     | _ \<Rightarrow> Inr False)"

definition validateScheduledProof ::
    "web \<Rightarrow> json \<Rightarrow> json \<Rightarrow> schedule_plan \<Rightarrow> int \<Rightarrow> string \<Rightarrow> unit res" where
  "validateScheduledProof w s v p round sid =
     bindR (need (is_account sid) Zod) (\<lambda>_.
     bindR (validateSchedulePlan w (schedule_json p) 0 True) (\<lambda>_.
     bindR (scheduleMemo w p round) (\<lambda>memo.
     bindR (need (schedule_executed w s p (due_at w p round) memo sid) (Err ''Native schedule execution is not proven.'')) (\<lambda>_.
     bindR (transactions_rows v) (\<lambda>txs.
     bindR (some_row (scheduled_match w s p (sp_unitPrice p * int (length (sp_repos p))) memo) txs) (\<lambda>b.
       need b (Err ''Scheduled payment does not match the resource purchase.'')))))))"

section \<open>What a proof of payment says\<close>

lemma some_row_iff: "some_row p vs = Inr True \<longleftrightarrow>
    (\<exists>us v ws. vs = us @ v # ws \<and> v \<noteq> JNull \<and> p v = Inr True \<and> (\<forall>u \<in> set us. u \<noteq> JNull \<and> p u = Inr False))"
proof (induction vs)
  case (Cons a vs)
  show ?case
  proof
    assume l: "some_row p (a # vs) = Inr True"
    then have a: "a \<noteq> JNull" by (auto split: if_splits)
    from l a obtain b where b: "p a = Inr b" by (auto simp: bindR_eq_Inr)
    show "\<exists>us v ws. a # vs = us @ v # ws \<and> v \<noteq> JNull \<and> p v = Inr True \<and> (\<forall>u \<in> set us. u \<noteq> JNull \<and> p u = Inr False)"
    proof (cases b)
      case True
      then show ?thesis using a b by (intro exI [of _ "[]"]) auto
    next
      case False
      then have "some_row p vs = Inr True" using l a b by simp
      with Cons.IH obtain us v ws where "vs = us @ v # ws" "v \<noteq> JNull" "p v = Inr True"
        "\<forall>u \<in> set us. u \<noteq> JNull \<and> p u = Inr False" by blast
      then show ?thesis using a b False by (intro exI [of _ "a # us"] exI [of _ v] exI [of _ ws]) auto
    qed
  next
    assume "\<exists>us v ws. a # vs = us @ v # ws \<and> v \<noteq> JNull \<and> p v = Inr True \<and> (\<forall>u \<in> set us. u \<noteq> JNull \<and> p u = Inr False)"
    then obtain us v ws where u: "a # vs = us @ v # ws" "v \<noteq> JNull" "p v = Inr True"
      "\<forall>u \<in> set us. u \<noteq> JNull \<and> p u = Inr False" by blast
    then show "some_row p (a # vs) = Inr True"
      using Cons.IH by (cases us) auto
  qed
qed simp

lemma js_add_safe: "safe_int i \<Longrightarrow> safe_int j \<Longrightarrow> safe_int (i + j) \<Longrightarrow> js_add w (num_of_int i) (num_of_int j) = num_of_int (i + j)"
  by (simp add: js_add_def)

text \<open>Two safe rows that sum to \<open>- n\<close> for one account and to \<open>n > 0\<close> for another are one
  row each.\<close>

definition row_amount :: "json \<Rightarrow> int option" where
  "row_amount r = fint r ''amount''"

lemma safe_amount_iff: "safe_amount r \<longleftrightarrow> (\<exists>n. fld r ''amount'' = Some (JNum n) \<and> is_safe_integer n)"
  by (auto simp: safe_amount_def split: option.splits json.splits)

lemma row_sum_single:
  assumes "fld r ''amount'' = Some (JNum n)" "is_safe_integer n"
  shows "add_amount w (Some (Dec 0 0)) (fld r ''amount'') = Some (num_of_int (num_int n))"
proof -
  have "is_integer (Dec 0 0)" "num_int (Dec 0 0) = 0" by simp_all
  moreover have "safe_int 0" by (simp add: safe_int_def max_safe_def)
  ultimately show ?thesis using assms by (simp add: add_amount_def js_add_def is_safe_integer_def)
qed

lemma moves_two_rows:
  assumes rows: "safe_amount a" "safe_amount b" and n: "0 < n" and "p \<noteq> q"
    and "moves w p (- n) (Some [a, b])" "moves w q n (Some [a, b])"
  obtains "fstr a ''account'' = Some p" "row_amount a = Some (- n)" "fstr b ''account'' = Some q" "row_amount b = Some n"
  | "fstr b ''account'' = Some p" "row_amount b = Some (- n)" "fstr a ''account'' = Some q" "row_amount a = Some n"
proof -
  obtain x y where xy: "fld a ''amount'' = Some (JNum x)" "is_safe_integer x"
    "fld b ''amount'' = Some (JNum y)" "is_safe_integer y"
    using rows by (auto simp: safe_amount_iff)
  note sa = row_sum_single [OF xy(1,2), of w] and sb = row_sum_single [OF xy(3,4), of w]
  have z: "Dec 0 0 = num_of_int i \<longleftrightarrow> i = 0" for i
    by (metis num_of_int_props(2) num_int.simps(1) mk_dec.simps num_of_int_def mult_zero_left order_refl)
  have r: "row_amount a = Some (num_int x)" "row_amount b = Some (num_int y)"
    using xy by (simp_all add: row_amount_def fint_def as_int_def)
  have acc: "fld v ''account'' = Some (JStr s) \<longleftrightarrow> fstr v ''account'' = Some s" for v s
    by (auto simp: fstr_def bind_eq_Some_conv elim: as_str.elims)
  show thesis
    using assms(3-6) that sa sb r
    by (auto simp: moves_def moved_def acc z split: if_splits)
qed

lemma token_terms_roundtrip: "validateTokenTerms (token_terms_json t) = Inr t' \<Longrightarrow> t' = t \<and> tt_payer t \<noteq> tt_payTo t \<and> 0 < tt_amount t"
  by (cases t) (auto simp: validateTokenTerms_def p_token_terms_def token_terms_json_def bindR_eq_Inr bind_eq_Some_conv
      p_account_def p_atomic_def split: if_splits)

lemma every_row_True: "every_row p vs = Inr True \<longleftrightarrow> (\<forall>v \<in> set vs. v \<noteq> JNull \<and> p v)"
  by (induction vs) auto

text \<open>
  C26. An accepted token transfer is a successful transaction of the list with exactly two token
  rows, both of the agreed token: one takes the agreed amount from the payer, the other gives it to
  the payee.
\<close>

theorem token_transfer_proved:
  assumes "validateTokenTransfer w v t = Inr ()"
  shows "\<exists>ts tx a b. transactions_rows v = Inr ts \<and> tx \<in> set ts \<and>
      fstr tx ''result'' = Some ''SUCCESS'' \<and> fstr tx ''name'' = Some ''CRYPTOTRANSFER'' \<and>
      (fld tx ''token_transfers'' = Some (JArr [a, b]) \<or> fld tx ''token_transfers'' = Some (JArr [b, a])) \<and>
      fstr a ''token_id'' = Some (tt_asset t) \<and> fstr b ''token_id'' = Some (tt_asset t) \<and>
      fstr a ''account'' = Some (tt_payer t) \<and> row_amount a = Some (- tt_amount t) \<and>
      fstr b ''account'' = Some (tt_payTo t) \<and> row_amount b = Some (tt_amount t)"
proof -
  from assms obtain t' ts where t: "validateTokenTerms (token_terms_json t) = Inr t'" and
    ts: "transactions_rows v = Inr ts" "some_row (token_match w t') ts = Inr True"
    by (auto simp: validateTokenTransfer_def bindR_eq_Inr)
  note tt = token_terms_roundtrip [OF t]
  from ts(2) obtain us tx vs where "ts = us @ tx # vs" "token_match w t' tx = Inr True"
    unfolding some_row_iff by blast
  then have tx: "tx \<in> set ts" "token_match w t tx = Inr True" using tt by auto
  obtain rows where r: "fld tx ''token_transfers'' = Some (JArr rows)" "length rows = 2"
    "every_row (\<lambda>r. fld r ''token_id'' = Some (JStr (tt_asset t)) \<and> safe_amount r) rows = Inr True"
    "moves w (tt_payer t) (- tt_amount t) (Some rows)" "moves w (tt_payTo t) (tt_amount t) (Some rows)"
    "fstr tx ''result'' = Some ''SUCCESS''" "fstr tx ''name'' = Some ''CRYPTOTRANSFER''"
    using tx(2) by (auto simp: token_match_def bindR_eq_Inr split: if_splits option.splits json.splits)
  obtain a b where ab: "rows = [a, b]" using r(2) by (auto simp: numeral_2_eq_2 length_Suc_conv)
  have s: "safe_amount a" "safe_amount b" "fstr a ''token_id'' = Some (tt_asset t)" "fstr b ''token_id'' = Some (tt_asset t)"
    using r(3) [unfolded every_row_True] by (auto simp: ab fstr_def)
  show ?thesis
  proof (rule moves_two_rows [OF s(1,2) _ _ r(4) [unfolded ab] r(5) [unfolded ab]])
    assume "fstr a ''account'' = Some (tt_payer t)" "row_amount a = Some (- tt_amount t)"
      "fstr b ''account'' = Some (tt_payTo t)" "row_amount b = Some (tt_amount t)"
    then show ?thesis using ts(1) tx(1) r(1,6,7) s ab by blast
  next
    assume "fstr b ''account'' = Some (tt_payer t)" "row_amount b = Some (- tt_amount t)"
      "fstr a ''account'' = Some (tt_payTo t)" "row_amount a = Some (tt_amount t)"
    then show ?thesis using ts(1) tx(1) r(1,6,7) s ab by blast
  qed (use tt in auto)
qed

text \<open>
  C27. A validated plan spends within its authority: the rounds cost what the plan totals, no more
  than its maximum and 100,000,000 atomic units, and every round is due between ten seconds and a day
  from now.
\<close>

theorem schedule_within_authority:
  assumes "validateSchedulePlan w input now False = Inr p"
  shows "(\<Sum>k \<in> {0..<nat (sp_count p)}. sp_unitPrice p * int (length (sp_repos p))) = schedule_total p \<and>
    schedule_total p \<le> sp_maxTotal p \<and> sp_maxTotal p \<le> 100000000 \<and> sp_payer p \<noteq> sp_payTo p \<and> billable (sp_repos p) \<and>
    (case parse_date w (sp_first p) of None \<Rightarrow> False | Some first \<Rightarrow>
      list_all (\<lambda>k. now + 10000 \<le> first + int k * sp_interval p * 1000 \<and>
          first + int k * sp_interval p * 1000 \<le> now + 86400000) [0..<nat (sp_count p)])"
proof -
  from assms have p: "p_schedule input = Some p" "sp_payer p \<noteq> sp_payTo p" "schedule_total p \<le> sp_maxTotal p"
    "schedule_times_ok w now p" "billable (sp_repos p)"
    by (auto simp: validateSchedulePlan_def bindR_eq_Inr validateRepos_iff repos_json_def)
  from p(1) have b: "1 \<le> sp_count p" "sp_count p \<le> 10" "10 \<le> sp_interval p" "sp_maxTotal p \<le> 100000000"
    "iso_datetime False (sp_first p) \<noteq> None"
    by (auto simp: p_schedule_def bind_eq_Some_conv p_between_def p_datetime_def split: if_splits)
  then obtain first where f: "parse_date w (sp_first p) = Some first"
    by (auto simp: parse_date_def dest: date_parse_iso)
  have t: "now + 10000 \<le> first" "first + (sp_count p - 1) * sp_interval p * 1000 \<le> now + 86400000"
    using p(4) f by (auto simp: schedule_times_ok_def)
  have "now + 10000 \<le> first + int k * sp_interval p * 1000 \<and> first + int k * sp_interval p * 1000 \<le> now + 86400000"
    if "k < nat (sp_count p)" for k
  proof -
    have "0 \<le> int k * sp_interval p" "int k * sp_interval p \<le> (sp_count p - 1) * sp_interval p"
      using that b by (auto intro: mult_right_mono)
    then show ?thesis using t by linarith
  qed
  moreover have "(\<Sum>k \<in> {0..<nat (sp_count p)}. sp_unitPrice p * int (length (sp_repos p))) = schedule_total p"
    using b(1) by (simp add: schedule_total_def)
  ultimately show ?thesis using p b f by (simp add: list_all_iff)
qed

lemma schedule_replay:
  assumes "validateSchedulePlan w (schedule_json P) now past = Inr Q"
  shows "Q = P \<and> sp_count P \<le> 10 \<and> safe_int (sp_unitPrice P) \<and> safe_int (sp_count P) \<and>
      safe_int (sp_interval P) \<and> safe_int (sp_maxTotal P)"
  using assms by (cases P) (auto simp: validateSchedulePlan_def p_schedule_def schedule_json_def bindR_eq_Inr
      bind_eq_Some_conv p_between_def p_datetime_def p_account_def p_repo_list_def repos_json_def split: if_splits)

text \<open>
  The memo of a scheduled payment determines the plan and the round, or exhibits a collision
  of the hash.
\<close>

theorem schedule_memo_binds:
  assumes "exact_numbers w" "scheduleMemo w p r = Inr m" "scheduleMemo w p' r' = Inr m"
  shows "(p = p' \<and> r = r') \<or> (\<exists>a b. a \<noteq> b \<and> sha256 w a = sha256 w b)"
proof (cases "stringify (memo_json p r) = stringify (memo_json p' r')")
  case True
  have wf: "wf_json (read_number w) (memo_json P R)" if m: "scheduleMemo w P R = Inr M" for P R M
  proof -
    obtain P' where v: "validateSchedulePlan w (schedule_json P) 0 True = Inr P'" "0 \<le> R" "R < sp_count P'"
      using m by (auto simp: scheduleMemo_def bindR_eq_Inr)
    have "safe_int R" using schedule_replay [OF v(1)] v(2,3) by (auto simp: safe_int_def max_safe_def)
    then show ?thesis
      using schedule_replay [OF v(1)] assms(1) by (auto simp: memo_json_def int_json_def repos_json_def exact_numbers_def)
  qed
  have "js_norm (memo_json p r) = js_norm (memo_json p' r')"
    by (rule stringify_inj [OF wf [OF assms(2)] wf [OF assms(3)] True])
  then have "p = p' \<and> r = r'"
    by (cases p; cases p') (simp add: memo_json_def int_json_def repos_json_def comp_def)
  then show ?thesis by blast
next
  case False
  have "M = ''obolos:'' @ sha256 w (stringify (memo_json P R))" if "scheduleMemo w P R = Inr M" for P R M
    using that by (auto simp: scheduleMemo_def bindR_eq_Inr dest!: schedule_replay)
  note this [OF assms(2)] this [OF assms(3)]
  then have "sha256 w (stringify (memo_json p r)) = sha256 w (stringify (memo_json p' r'))" by simp
  then show ?thesis using False by blast
qed

section \<open>Samples\<close>

definition sample_runtime :: web where
  "sample_runtime = \<lparr>sha256 = (\<lambda>s. s), hmac = (\<lambda>_ _. []), legacy_date = (\<lambda>_. None), read_number = (\<lambda>n. n),
     add_double = (\<lambda>_ _. NaN), parse_url = (\<lambda>_. None), resolve_url = (\<lambda>_ _. None), set_pathname = (\<lambda>u p. u)\<rparr>"

definition sample_terms_of_token :: token_terms where
  "sample_terms_of_token = \<lparr>tt_asset = ''0.0.9'', tt_payer = ''0.0.1'', tt_payTo = ''0.0.2'', tt_amount = 5\<rparr>"

definition sample_row :: "string \<Rightarrow> int \<Rightarrow> json" where
  "sample_row who n = JObj [(''token_id'', JStr ''0.0.9''), (''account'', JStr who), (''amount'', int_json n)]"

definition sample_transactions :: json where
  "sample_transactions = JObj [(''transactions'', JArr [JObj [(''result'', JStr ''SUCCESS''),
     (''name'', JStr ''CRYPTOTRANSFER''), (''token_transfers'', JArr [sample_row ''0.0.2'' 5, sample_row ''0.0.1'' (- 5)])]])]"

definition sample_schedule :: schedule_plan where
  "sample_schedule = \<lparr>sp_id = ''00000000-0000-0000-0000-000000000000'', sp_payer = ''0.0.1'', sp_payTo = ''0.0.2'',
     sp_repos = [''a/b''], sp_unitPrice = 5, sp_count = 2, sp_interval = 10, sp_first = ''2026-10-01T00:00:30Z'',
     sp_maxTotal = 10\<rparr>"

lemma sample_schedule_valid:
  "validateSchedulePlan sample_runtime (schedule_json sample_schedule) 1790812800000 False = Inr sample_schedule \<and>
   validateSchedulePlan sample_runtime (schedule_json sample_schedule) 0 True = Inr sample_schedule"
proof -
  have "is_uuid ''00000000-0000-0000-0000-000000000000'' \<and> is_account ''0.0.1'' \<and> is_account ''0.0.2'' \<and> billable [''a/b'']"
    by code_simp
  moreover from this have "validateRepos (JArr [JStr ''a/b'']) = Inr [''a/b'']"
    using validateRepos_repos_json [of "[''a/b'']"] by (simp add: repos_json_def)
  moreover have "iso_datetime False ''2026-10-01T00:00:30Z'' = Some 1790812830000" by code_simp
  moreover have "safe_int 5" "safe_int 2" "safe_int 10" by (simp_all add: safe_int_def max_safe_def)
  ultimately show ?thesis
    by (simp add: validateSchedulePlan_def p_schedule_def schedule_json_def sample_schedule_def strict_def keys_def field_def
        check_def p_account_def p_repo_list_def repos_json_def p_between_def p_datetime_def schedule_total_def
        schedule_times_ok_def parse_date_def date_parse_iso)
qed

theorem schedule_within_authority_witness:
  "schedule_total sample_schedule \<le> sp_maxTotal sample_schedule"
  using schedule_within_authority [OF sample_schedule_valid [THEN conjunct1]] by blast

theorem token_transfer_proved_witness:
  "\<exists>ts tx. transactions_rows sample_transactions = Inr ts \<and> tx \<in> set ts \<and> fstr tx ''result'' = Some ''SUCCESS''"
proof -
  have "validateTokenTransfer sample_runtime sample_transactions sample_terms_of_token = Inr ()"
  proof -
    have "is_account ''0.0.9'' \<and> is_account ''0.0.1'' \<and> is_account ''0.0.2''" by code_simp
    moreover have s: "safe_int 5" "safe_int (- 5)" "safe_int 0" by (simp_all add: safe_int_def max_safe_def)
    ultimately have v: "validateTokenTerms (token_terms_json sample_terms_of_token) = Inr sample_terms_of_token"
      by (simp add: validateTokenTerms_def token_terms_json_def sample_terms_of_token_def p_token_terms_def strict_def
          keys_def field_def check_def p_account_def p_atomic_def)
    have "Dec 0 0 = num_of_int 0" by (simp add: num_of_int_def mk_dec.simps)
    with s show ?thesis
      by (simp add: validateTokenTransfer_def v) (simp add: sample_terms_of_token_def transactions_rows_def
          sample_transactions_def token_match_def sample_row_def fstr_def safe_amount_def int_json_def is_safe_integer_def
          moves_def moved_def add_amount_def js_add_def)
  qed
  from token_transfer_proved [OF this] show ?thesis by blast
qed

theorem schedule_memo_binds_witness:
  "(sample_schedule = sample_schedule \<and> (1::int) = 1) \<or> (\<exists>a b. a \<noteq> b \<and> sha256 sample_runtime a = sha256 sample_runtime b)"
proof -
  have "scheduleMemo sample_runtime sample_schedule 1 =
      Inr (''obolos:'' @ stringify (memo_json sample_schedule 1))"
    by (simp add: scheduleMemo_def sample_schedule_valid) (simp add: sample_schedule_def sample_runtime_def)
  moreover have "exact_numbers sample_runtime" by (simp add: exact_numbers_def sample_runtime_def)
  ultimately show ?thesis by (intro schedule_memo_binds)
qed

end
