(* ===== verification/Dispatch.thy ===== *)
theory Dispatch
  imports Machine
begin

text \<open>
  The discipline shared by the buyers that sign a transfer and send it once: a journal file is
  created exclusively under the name of the purchase (\<open>open(path, 'wx')\<close>), the signed
  transfer is recorded in it, and only then the paid request is sent. \<open>T\<close> reads the recorded
  transfer of a journal, \<open>kd\<close> names the kind of the request in the machine's ghost trace.
\<close>

section \<open>Exclusive creation\<close>

text \<open>\<open>open(path, 'wx')\<close> fails on an existing file; a death before the content is written
  leaves an unreadable file.\<close>

definition createJournal :: "js_error \<Rightarrow> string \<Rightarrow> 's \<Rightarrow> ('s, 'c, unit) prog" where
  "createJournal e k s =
     bindP (effect (\<lambda>m. (journal m k \<noteq> Absent,
       if journal m k = Absent then m\<lparr>journal := (journal m)(k := Corrupt)\<rparr> else m))) (\<lambda>exists.
     bindP (needP (\<not> exists) e) (\<lambda>_. saveJournal k s))"

section \<open>At most one request per journal\<close>

definition dispatch_ok :: "('s \<Rightarrow> string option) \<Rightarrow> string \<Rightarrow> ('s, 'c) machine \<Rightarrow> bool" where
  "dispatch_ok T kd m \<longleftrightarrow>
     (\<forall>k. submits_of k m = [] \<or>
       (\<exists>f t. journal m k = Stored f \<and> T f = Some t \<and> submits_of k m = [\<lparr>oi_kind = kd, oi_args = [t]\<rparr>]))"

definition unpaid :: "('s \<Rightarrow> string option) \<Rightarrow> string \<Rightarrow> string \<Rightarrow> ('s, 'c) machine \<Rightarrow> bool" where
  "unpaid T kd k m \<longleftrightarrow> dispatch_ok T kd m \<and> submits_of k m = []"

text \<open>The journal names the transfer \<open>t\<close>, before and after it is sent.\<close>

definition signed_unpaid :: "('s \<Rightarrow> string option) \<Rightarrow> string \<Rightarrow> string \<Rightarrow> string \<Rightarrow> ('s, 'c) machine \<Rightarrow> bool" where
  "signed_unpaid T kd k t m \<longleftrightarrow> unpaid T kd k m \<and> (\<exists>f. journal m k = Stored f \<and> T f = Some t)"

definition names_transfer :: "('s \<Rightarrow> string option) \<Rightarrow> string \<Rightarrow> string \<Rightarrow> string \<Rightarrow> ('s, 'c) machine \<Rightarrow> bool" where
  "names_transfer T kd k t m \<longleftrightarrow> dispatch_ok T kd m \<and> (\<exists>f. journal m k = Stored f \<and> T f = Some t)"

lemmas dispatch_defs = dispatch_ok_def unpaid_def signed_unpaid_def names_transfer_def submits_of_def

lemma stable_dispatch [simp]:
  "stable (dispatch_ok T kd)" "stable (unpaid T kd k)" "stable (signed_unpaid T kd k t)" "stable (names_transfer T kd k t)"
  by (simp_all add: stable_def dispatch_defs)

lemma dispatchD [dest]:
  "unpaid T kd k m \<Longrightarrow> dispatch_ok T kd m" "signed_unpaid T kd k t m \<Longrightarrow> dispatch_ok T kd m"
  "names_transfer T kd k t m \<Longrightarrow> dispatch_ok T kd m"
  by (simp_all add: unpaid_def signed_unpaid_def names_transfer_def)

lemma dispatch_absent: "dispatch_ok T kd m \<Longrightarrow> journal m k = Absent \<Longrightarrow> submits_of k m = []"
  by (auto simp: dispatch_ok_def dest: spec [of _ k])

lemma dispatch_upd:
  assumes "dispatch_ok T kd m" "submits m' = submits m" "journal m' = (journal m)(k := f)"
    and "submits_of k m = [] \<or> (\<exists>t s s'. f = Stored s \<and> T s = Some t \<and> journal m k = Stored s' \<and> T s' = Some t)"
  shows "dispatch_ok T kd m'"
proof -
  have s: "submits_of j m' = submits_of j m" for j by (simp add: submits_of_def assms(2))
  show ?thesis using assms(1,4) unfolding dispatch_ok_def s assms(3) by (auto dest: spec [of _ k])
qed

lemma createJournal_unpaid:
  "triple (dispatch_ok T kd) (dispatch_ok T kd) (dispatch_ok T kd) (createJournal e k s) (\<lambda>_. unpaid T kd k)"
  unfolding createJournal_def
proof (rule triple_bind)
  show "triple (dispatch_ok T kd) (dispatch_ok T kd) (dispatch_ok T kd) (effect (\<lambda>m. (journal m k \<noteq> Absent,
      if journal m k = Absent then m\<lparr>journal := (journal m)(k := Corrupt)\<rparr> else m)))
    (\<lambda>ex m. dispatch_ok T kd m \<and> (\<not> ex \<longrightarrow> submits_of k m = []))"
  proof (rule triple_effect)
    fix m n a m'
    assume ok: "dispatch_ok T kd m" and "(journal (m\<lparr>budget := n\<rparr>) k \<noteq> Absent, if journal (m\<lparr>budget := n\<rparr>) k = Absent
        then (m\<lparr>budget := n\<rparr>)\<lparr>journal := (journal (m\<lparr>budget := n\<rparr>))(k := Corrupt)\<rparr> else m\<lparr>budget := n\<rparr>) = (a, m')"
    then have m': "a = (journal m k \<noteq> Absent)" "m' = (if journal m k = Absent
        then m\<lparr>budget := n, journal := (journal m)(k := Corrupt)\<rparr> else m\<lparr>budget := n\<rparr>)" by auto
    have "submits_of k m = []" if "journal m k = Absent" by (rule dispatch_absent [OF ok that])
    moreover have "submits_of k m' = submits_of k m" by (simp add: m' submits_of_def)
    moreover have "dispatch_ok T kd m'"
    proof (cases "journal m k = Absent")
      case True
      then show ?thesis
        by (intro dispatch_upd [OF ok, of m' k Corrupt]) (simp_all add: m' dispatch_absent [OF ok])
    next
      case False
      then show ?thesis using ok by (simp add: m' dispatch_ok_def submits_of_def)
    qed
    ultimately show "dispatch_ok T kd m' \<and> (\<not> a \<longrightarrow> submits_of k m' = [])" by (auto simp: m'(1))
  qed simp
next
  fix ex
  show "triple (dispatch_ok T kd) (dispatch_ok T kd) (\<lambda>m. dispatch_ok T kd m \<and> (\<not> ex \<longrightarrow> submits_of k m = []))
      (bindP (needP (\<not> ex) e) (\<lambda>_. saveJournal k s)) (\<lambda>_. unpaid T kd k)"
    by (rule triple_need_then, simp, rule triple_saveJournal)
      (auto simp: unpaid_def submits_of_def intro: dispatch_upd)
qed

lemma saveJournal_signed:
  "T s = Some t \<Longrightarrow> triple (dispatch_ok T kd) (dispatch_ok T kd) (unpaid T kd k) (saveJournal k s) (\<lambda>_. signed_unpaid T kd k t)"
  by (rule triple_saveJournal)
    (auto simp: signed_unpaid_def unpaid_def submits_of_def intro: dispatch_upd)

lemma note_pays:
  "triple (dispatch_ok T kd) (dispatch_ok T kd) (signed_unpaid T kd k t) (noteSubmit k \<lparr>oi_kind = kd, oi_args = [t]\<rparr>)
     (\<lambda>_. names_transfer T kd k t)"
  by (rule triple_noteSubmit) (auto simp: dispatch_defs)

lemma saveJournal_later:
  "T s = Some t \<Longrightarrow>
    triple (dispatch_ok T kd) (dispatch_ok T kd) (names_transfer T kd k t) (saveJournal k s) (\<lambda>_. names_transfer T kd k t)"
  by (rule triple_saveJournal)
    (auto simp: names_transfer_def intro: dispatch_upd)

lemma dispatch_restart [simp]: "dispatch_ok T kd (restart n m) = dispatch_ok T kd m"
  by (simp add: dispatch_ok_def submits_of_def restart_def)

lemma dispatch_empty [simp]: "dispatch_ok T kd (empty_machine u)"
  by (simp add: dispatch_ok_def submits_of_def empty_machine_def)

text \<open>An invariant every run keeps however it ends holds after any sequence of runs.\<close>

lemma run_all_triple:
  assumes "\<And>n p. (n, p) \<in> set ps \<Longrightarrow> triple I I I p (\<lambda>_. I)" "I m" "\<And>n m. I m \<Longrightarrow> I (restart n m)"
  shows "I (run_all ps m)"
proof (rule run_all_invariant)
  fix n p m
  assume "(n, p) \<in> set ps" "I m"
  obtain r m' where r: "p m = (r, m')" by (cases "p m")
  show "I (snd (p m))"
    using tripleD [OF assms(1) [OF \<open>(n, p) \<in> set ps\<close>] \<open>I m\<close>] r by (cases r) auto
qed (use assms in auto)

end
