(* ===== verification/HederaPurchase.thy ===== *)
theory HederaPurchase
  imports HederaChecks Dispatch
begin

text \<open>
  Buying evidence with a signed Hedera transfer: \<open>purchaseHederaData\<close> of
  \<open>src/src/lib/integrations/hedera.ts\<close> and \<open>purchaseAcceptedOffer\<close> of
  \<open>src/src/lib/hedera/a2a.ts\<close>, as programs of \<open>Machine\<close>. Each purchase has a
  journal named by the hash of its request id. The file is created exclusively before anything is
  signed, holds the transaction id before the signed transfer is sent, and the result afterwards.

  The x402 codec, the Hedera SDK, the facilitator, the data service, the mirror node and the clock
  are the functions of \<open>hedera_ext\<close>. Timeouts and pauses between polls are not modelled.
\<close>

section \<open>The boundary\<close>

record challenge =
  ch_status :: int
  ch_header :: "string option"

record paid_reply =
  pd_status :: int
  pd_header :: "string option"
  pd_body :: "json res"

record 'c hedera_ext =
  he_now :: "'c \<Rightarrow> int res \<times> 'c"
  he_challenge :: "string \<Rightarrow> string \<Rightarrow> json \<Rightarrow> 'c \<Rightarrow> challenge res \<times> 'c"
  he_decode_required :: "string \<Rightarrow> json res"
  he_supported :: "'c \<Rightarrow> http_response res \<times> 'c"
  he_key :: "string \<Rightarrow> string \<Rightarrow> bool"
  he_sign :: "string \<Rightarrow> json \<Rightarrow> 'c \<Rightarrow> json res \<times> 'c"
  he_transaction_id :: "string \<Rightarrow> string option res"
  he_pay :: "string \<Rightarrow> string \<Rightarrow> json \<Rightarrow> json \<Rightarrow> 'c \<Rightarrow> paid_reply res \<times> 'c"
  he_decode_settlement :: "string \<Rightarrow> json res"
  he_mirror :: "string \<Rightarrow> 'c \<Rightarrow> http_response res \<times> 'c"

record hedera_credentials =
  hc_account :: string
  hc_key :: string
  hc_keyType :: string

text \<open>The journal in its three states; the first two carry what an operator needs to reconcile.\<close>

datatype purchase_file =
    Intent (pf_fingerprint: string) (pf_request: string) string int
  | Signed (pf_fingerprint: string) (pf_request: string) (pf_transaction: string) int
  | Settled (pf_fingerprint: string) (pf_result: data_result)

type_synonym ('c, 'a) hedera_prog = "(purchase_file, 'c, 'a) prog"

section \<open>The purchase\<close>

definition is_request_id :: "string \<Rightarrow> bool" where
  "is_request_id s \<longleftrightarrow> s \<noteq> [] \<and> length s \<le> 180 \<and> list_all (\<lambda>c. is_ident_char c \<or> c = CHR '':'') s"

definition is_run_id :: "string \<Rightarrow> bool" where
  "is_run_id s \<longleftrightarrow> s \<noteq> [] \<and> length s \<le> 180 \<and> list_all is_ident_char s"

definition assertMandateActive :: "web \<Rightarrow> 'c hedera_ext \<Rightarrow> string \<Rightarrow> ('s, 'c, unit) prog" where
  "assertMandateActive w y expires =
     (let e = Err ''Data mandate is expired or has an invalid expiry; payment authorization is required.''
      in case parse_date w expires of
           None \<Rightarrow> throwP e
         | Some t \<Rightarrow> bindP (callP (he_now y)) (\<lambda>now. needP (now < t) e))"

definition serviceBase :: "web \<Rightarrow> (string \<Rightarrow> string option) \<Rightarrow> url res" where
  "serviceBase w env =
     bindR (of_opt (Err ''DATA_SERVICE_URL is required for live purchases.'') (check (\<lambda>s. s \<noteq> []) (env ''DATA_SERVICE_URL''))) (\<lambda>s.
     bindR (url_or_throw (parse_url w s)) (\<lambda>u.
     bindR (need (trusted_url u) (Err ''Data service must use HTTPS, or loopback HTTP.'')) (\<lambda>_. Inr (with_slash w u))))"

definition env_credentials :: "(string \<Rightarrow> string option) \<Rightarrow> hedera_credentials" where
  "env_credentials env =
     \<lparr>hc_account = env_or env ''HEDERA_PAYER_ACCOUNT_ID'' [], hc_key = env_or env ''HEDERA_PAYER_PRIVATE_KEY'' [],
      hc_keyType = env_or env ''HEDERA_PAYER_KEY_TYPE'' ''der''\<rparr>"

definition fingerprint :: "web \<Rightarrow> data_purchase \<Rightarrow> url \<Rightarrow> string \<Rightarrow> string \<Rightarrow> string" where
  "fingerprint w input base pay payer = sha256 w (stringify (JObj
     [(''input'', purchase_json input), (''base'', JStr (href base)), (''payTo'', JStr pay), (''payer'', JStr payer)]))"

definition journal_key :: "web \<Rightarrow> string \<Rightarrow> string" where
  "journal_key w request = sha256 w request"

text \<open>An earlier attempt: the same terms return the recorded result, anything else stops.\<close>

definition earlier_purchase :: "purchase_file \<Rightarrow> string \<Rightarrow> data_result res" where
  "earlier_purchase f fp =
     (if pf_fingerprint f \<noteq> fp then Inl (Err ''Purchase idempotency key was reused with different terms.'')
      else case f of
        Settled _ r \<Rightarrow> Inr r
      | _ \<Rightarrow> Inl (Err ''Purchase already attempted; reconcile the recorded intent before any retry.''))"

definition request_body :: "data_purchase \<Rightarrow> string list \<Rightarrow> json" where
  "request_body input repos = JObj ((''repos'', repos_json repos) #
     (case dp_offerToken input of Some (c # cs) \<Rightarrow> [(''a2aOfferToken'', JStr (c # cs))] | _ \<Rightarrow> []))"

text \<open>\<open>required.accepts?.length === 1\<close> and its only element.\<close>

definition only_element :: "json option \<Rightarrow> json option option" where
  "only_element v = (case v of
     Some (JArr [a]) \<Rightarrow> Some (Some a)
   | Some (JStr [c]) \<Rightarrow> Some (Some (JStr [c]))
   | Some (JObj kvs) \<Rightarrow> if map_of kvs ''length'' = Some (int_json 1) then Some (map_of kvs ''0'') else None
   | _ \<Rightarrow> None)"

definition read_challenge :: "'c hedera_ext \<Rightarrow> string \<Rightarrow> challenge \<Rightarrow> (json \<times> json option) res" where
  "read_challenge y endpoint c =
     bindR (need (ch_status c = 402) (Err ''Provider did not return an x402 payment challenge.'')) (\<lambda>_.
     bindR (of_opt (Err ''Missing or oversized x402 challenge.'') (check (\<lambda>h. h \<noteq> [] \<and> length h \<le> 24000) (ch_header c))) (\<lambda>h.
     bindR (he_decode_required y h) (\<lambda>required.
     bindR (need (required \<noteq> JNull) (Thrown ''TypeError'')) (\<lambda>_.
     bindR (need (fld required ''x402Version'' = Some (int_json 2) \<and>
         Option.bind (fld required ''resource'') (\<lambda>r. fstr r ''url'') = Some endpoint)
       (Err ''Unexpected x402 protocol, resource or payment alternatives.'')) (\<lambda>_.
     bindR (of_opt (Err ''Unexpected x402 protocol, resource or payment alternatives.'')
         (only_element (fld required ''accepts''))) (\<lambda>a. Inr (required, a)))))))"

text \<open>\<open>supported.kinds.find(...)?.extra?.feePayer\<close>.\<close>

fun find_kind :: "json list \<Rightarrow> json option res" where
  "find_kind [] = Inr None"
| "find_kind (k # ks) =
     (if k = JNull then Inl (Thrown ''TypeError'')
      else if fld k ''x402Version'' = Some (int_json 2) \<and> fstr k ''scheme'' = Some ''exact'' \<and>
              fstr k ''network'' = Some HEDERA_NETWORK
      then Inr (Some k) else find_kind ks)"

definition fee_payer :: "http_response \<Rightarrow> json res" where
  "fee_payer r =
     bindR (need (hr_ok r) (Err ''Blocky402 testnet facilitator unavailable.'')) (\<lambda>_.
     bindR (hr_body r) (\<lambda>v.
     bindR (case fld v ''kinds'' of Some (JArr ks) \<Rightarrow> find_kind ks | _ \<Rightarrow> Inl (Thrown ''TypeError'')) (\<lambda>k.
       of_opt (Err ''Blocky402 does not advertise native Hedera testnet support.'')
         (check (\<lambda>f. truthy (Some f)) (Option.bind k (\<lambda>kd. extra kd ''feePayer''))))))"

definition is_uri_char :: "char \<Rightarrow> bool" where
  "is_uri_char c \<longleftrightarrow> is_alnum c \<or> c \<in> set ''-_.!~*()'' \<or> code c = 39"

definition upper_hex_digit :: "nat \<Rightarrow> char" where
  "upper_hex_digit d = char_of (if d < 10 then 48 + d else 55 + d)"

definition encodeURIComponent :: "string \<Rightarrow> string" where
  "encodeURIComponent s = concat (map (\<lambda>c. if is_uri_char c then [c]
     else concat (map (\<lambda>b. [CHR ''%'', upper_hex_digit (b div 16), upper_hex_digit (b mod 16)]) (utf8 [c]))) s)"

definition mirror_url :: "string \<Rightarrow> string" where
  "mirror_url t = ''https://testnet.mirrornode.hedera.com/api/v1/transactions/'' @ encodeURIComponent (normalizeTransactionId t)"

text \<open>At most five reads of the mirror node; each failure is forgotten if a later read succeeds.\<close>

fun poll_mirror :: "web \<Rightarrow> 'c hedera_ext \<Rightarrow> string \<Rightarrow> string \<Rightarrow> string \<Rightarrow> int \<Rightarrow> nat \<Rightarrow> ('s, 'c, unit) prog" where
  "poll_mirror w y url payer pay amount 0 =
     throwP (Err ''Payment may have settled but mirror proof is unavailable; reconcile recorded transaction before retrying.'')"
| "poll_mirror w y url payer pay amount (Suc left) =
     bindP (catchP
       (bindP (callP (he_mirror y url)) (\<lambda>r.
        bindP (needP (hr_ok r) (Err ''Mirror receipt unavailable.'')) (\<lambda>_.
        bindP (liftP (bindR (hr_body r) (\<lambda>v. validateMirrorTransfer w v payer pay amount))) (\<lambda>_. retP True))))
       (\<lambda>_. retP False)) (\<lambda>proven.
     if proven then retP () else poll_mirror w y url payer pay amount left)"

definition settled_receipt :: "data_purchase \<Rightarrow> int \<Rightarrow> nat \<Rightarrow> string \<Rightarrow> string \<Rightarrow> payment_receipt" where
  "settled_receipt input amount units t stamp =
     \<lparr>pr_id = ''hedera-'' @ dp_requestId input, pr_requestId = dp_requestId input, pr_mode = ''live'',
      pr_network = HEDERA_NETWORK, pr_asset = ''HBAR'', pr_amount = amount, pr_units = int units,
      pr_provider = dp_provider input, pr_status = ''settled'', pr_timestamp = stamp, pr_transaction = Some t,
      pr_explorer = Some (''https://hashscan.io/testnet/transaction/'' @ encodeURIComponent t),
      pr_order = None, pr_recipient = None\<rparr>"

text \<open>After the signed transfer is on disk: one paid request, its settlement, the mirror proof, the
  evidence, and the result on disk.\<close>

definition pay_and_prove ::
    "web \<Rightarrow> 'c hedera_ext \<Rightarrow> data_purchase \<Rightarrow> string list \<Rightarrow> string \<Rightarrow> string \<Rightarrow> string \<Rightarrow> string \<Rightarrow> int \<Rightarrow> json \<Rightarrow>
      string \<Rightarrow> ('c, data_result) hedera_prog" where
  "pay_and_prove w y input repos endpoint fp payer pay amount payload t =
     bindP (noteSubmit (journal_key w (dp_requestId input)) \<lparr>oi_kind = ''hedera'', oi_args = [t]\<rparr>) (\<lambda>_.
     bindP (callP (he_pay y endpoint (dp_requestId input) (request_body input repos) payload)) (\<lambda>r.
     bindP (liftP (of_opt (Err ''Paid request has no successful settlement response; reconcile before retrying.'')
         (if 200 \<le> pd_status r \<and> pd_status r \<le> 299 then check (\<lambda>h. h \<noteq> [] \<and> length h \<le> 24000) (pd_header r) else None))) (\<lambda>h.
     bindP (liftP (bindR (he_decode_settlement y h) (\<lambda>v. validateSettlement v payer))) (\<lambda>settled.
     bindP (needP (normalizeTransactionId settled = normalizeTransactionId t)
         (Err ''Settlement transaction differs from the signed intent.'')) (\<lambda>_.
     bindP (poll_mirror w y (mirror_url t) payer pay amount 5) (\<lambda>_.
     bindP (liftP (bindR (pd_body r) (\<lambda>b. bindR (need (b \<noteq> JNull) (Thrown ''TypeError'')) (\<lambda>_.
         validateEvidence w (case fld b ''evidence'' of Some e \<Rightarrow> e | None \<Rightarrow> JNull) repos)))) (\<lambda>evidence.
     bindP (callP (he_now y)) (\<lambda>now.
     bindP (liftP (to_iso now)) (\<lambda>stamp.
       let res = \<lparr>dr_evidence = evidence, dr_receipt = settled_receipt input amount (length repos) t stamp\<rparr>
       in bindP (saveJournal (journal_key w (dp_requestId input)) (Settled fp res)) (\<lambda>_. retP res))))))))))"

text \<open>The id of the signed transfer.\<close>

definition signed_transaction :: "'c hedera_ext \<Rightarrow> json \<Rightarrow> (json \<times> string) res" where
  "signed_transaction y signed =
     (case fld signed ''payload'' of
        Some p \<Rightarrow>
          bindR (need (p \<noteq> JNull) (Thrown ''TypeError'')) (\<lambda>_.
          bindR (of_opt (Err ''Hedera signer did not produce a transaction.'') (fstr p ''transaction'')) (\<lambda>bytes.
          bindR (he_transaction_id y bytes) (\<lambda>t.
          bindR (of_opt (Err ''Signed transfer has no transaction id.'') (check (\<lambda>s. s \<noteq> []) t)) (\<lambda>i. Inr (p, i)))))
      | None \<Rightarrow> Inl (Thrown ''TypeError''))"

text \<open>From the exclusive journal to the paid request.\<close>

definition sign_and_pay ::
    "web \<Rightarrow> 'c hedera_ext \<Rightarrow> data_purchase \<Rightarrow> string list \<Rightarrow> string \<Rightarrow> string \<Rightarrow> hedera_credentials \<Rightarrow> string \<Rightarrow>
      json \<Rightarrow> json \<Rightarrow> int \<Rightarrow> ('c, data_result) hedera_prog" where
  "sign_and_pay w y input repos endpoint fp cred pay required accepted amount =
     (let k = journal_key w (dp_requestId input)
      in bindP (callP (he_now y)) (\<lambda>now.
         bindP (liftP (to_iso now)) (\<lambda>created.
         bindP (createJournal (Thrown ''EEXIST'') k (Intent fp (dp_requestId input) created amount)) (\<lambda>_.
         bindP (assertMandateActive w y (dp_mandateExpires input)) (\<lambda>_.
         bindP (callP (he_sign y (hc_account cred) accepted)) (\<lambda>signed.
         bindP (liftP (signed_transaction y signed)) (\<lambda>(p, t).
         bindP (saveJournal k (Signed fp (dp_requestId input) t amount)) (\<lambda>_.
         bindP (assertMandateActive w y (dp_mandateExpires input)) (\<lambda>_.
           pay_and_prove w y input repos endpoint fp (hc_account cred) pay amount
             (JObj ([(''x402Version'', int_json 2)] @ copied ''resource'' (fld required ''resource'') @
               [(''accepted'', accepted), (''payload'', p)])) t)))))))))"

text \<open>A purchase without a journal: the challenge, the facilitator, the requirements, the key.\<close>

definition new_purchase ::
    "web \<Rightarrow> 'c hedera_ext \<Rightarrow> data_purchase \<Rightarrow> string list \<Rightarrow> url \<Rightarrow> string \<Rightarrow> hedera_credentials \<Rightarrow> string \<Rightarrow>
      ('c, data_result) hedera_prog" where
  "new_purchase w y input repos base pay cred fp =
     bindP (liftP (bindR (url_or_throw (resolve_url w (''evidence/'' @ dp_provider input) base)) (\<lambda>u. Inr (href u)))) (\<lambda>endpoint.
     bindP (callP (he_challenge y endpoint (dp_requestId input) (request_body input repos))) (\<lambda>c.
     bindP (liftP (read_challenge y endpoint c)) (\<lambda>(required, accepted).
     bindP (callP (he_supported y)) (\<lambda>s.
     bindP (liftP (fee_payer s)) (\<lambda>fee.
     bindP (liftP (validatePaymentRequirements accepted input pay fee)) (\<lambda>amount.
     bindP (needP (fee \<noteq> JStr (hc_account cred) \<and> fee \<noteq> JStr pay)
       (Err ''Payer, payee and facilitator must be distinct.'')) (\<lambda>_.
     bindP (needP (he_key y (hc_keyType cred) (hc_key cred)) (Err ''Hedera payer key could not be decoded.'')) (\<lambda>_.
       sign_and_pay w y input repos endpoint fp cred pay required (case accepted of Some a \<Rightarrow> a | None \<Rightarrow> JNull)
         amount))))))))"

definition purchaseHederaData ::
    "web \<Rightarrow> 'c hedera_ext \<Rightarrow> (string \<Rightarrow> string option) \<Rightarrow> data_purchase \<Rightarrow> hedera_credentials option \<Rightarrow>
      ('c, data_result) hedera_prog" where
  "purchaseHederaData w y env input credentials =
     bindP (assertMandateActive w y (dp_mandateExpires input)) (\<lambda>_.
     bindP (liftP (validateRepos (repos_json (dp_repos input)))) (\<lambda>repos.
     bindP (needP (is_request_id (dp_requestId input) \<and> is_run_id (dp_runId input) \<and>
         dp_provider input \<in> set provider_ids) (Err ''Invalid purchase identity.'')) (\<lambda>_.
     bindP (liftP (serviceBase w env)) (\<lambda>base.
     let pay = env_or env ''HEDERA_PAY_TO'' [];
         cred = (case credentials of Some c \<Rightarrow> c | None \<Rightarrow> env_credentials env);
         fp = fingerprint w input base pay (hc_account cred)
     in bindP (needP (is_account (hc_account cred) \<and> hc_key cred \<noteq> [] \<and> is_account pay \<and> pay \<noteq> hc_account cred)
          (Err ''Configure distinct Hedera testnet payer and recipient accounts in the broker.'')) (\<lambda>_.
        bindP (readJournal (Thrown ''SyntaxError'') (journal_key w (dp_requestId input))) (\<lambda>existing.
          case existing of
            Some f \<Rightarrow> liftP (earlier_purchase f fp)
          | None \<Rightarrow> new_purchase w y input repos base pay cred fp))))))"

section \<open>Accepted offers\<close>

record offer_purchase =
  op_offerId :: string
  op_contextId :: string
  op_payer :: string
  op_resourceUrl :: string
  op_receipt :: payment_receipt
  op_evidence :: "json list"

definition offer_input :: "a2a_offer \<Rightarrow> data_purchase" where
  "offer_input ao = \<lparr>dp_runId = of_context ao, dp_requestId = ao_paymentRequest ao, dp_repos = of_repos ao,
     dp_provider = of_provider ao, dp_max = of_max ao, dp_unitPrice = of_unitPrice ao,
     dp_mandateExpires = of_expires ao, dp_offerToken = Some (ao_token ao)\<rparr>"

definition receipt_matches :: "payment_receipt \<Rightarrow> a2a_offer \<Rightarrow> bool" where
  "receipt_matches r ao \<longleftrightarrow>
     pr_requestId r = ao_paymentRequest ao \<and> pr_mode r = ''live'' \<and> pr_status r = ''settled'' \<and>
     pr_network r = HEDERA_NETWORK \<and> pr_asset r = ''HBAR'' \<and> pr_provider r = of_provider ao \<and>
     pr_units r = int (length (of_repos ao)) \<and> pr_amount r = of_amount ao \<and>
     (case pr_transaction r of Some (_ # _) \<Rightarrow> True | _ \<Rightarrow> False)"

definition purchaseAcceptedOffer ::
    "web \<Rightarrow> 'c hedera_ext \<Rightarrow> (data_purchase \<Rightarrow> hedera_credentials \<Rightarrow> ('c, data_result) hedera_prog) \<Rightarrow> a2a_offer \<Rightarrow>
      hedera_credentials \<Rightarrow> string \<Rightarrow> ('c, offer_purchase) hedera_prog" where
  "purchaseAcceptedOffer w y purchase ao cred base =
     bindP (needP (hc_account cred = of_payer ao) (Err ''Offer payer differs from private payer.'')) (\<lambda>_.
     bindP (liftP (resource_url w base (of_provider ao))) (\<lambda>r.
     bindP (needP (r = of_resource ao) (Err ''Private resource differs from accepted exact resource.'')) (\<lambda>_.
     bindP (callP (he_now y)) (\<lambda>now.
     bindP (callP (he_now y)) (\<lambda>now'.
     bindP (needP (\<not> date_le (parse_date w (of_expires ao)) (Some now) \<and>
         \<not> date_le (parse_date w (of_mandateExpires ao)) (Some now')) (Err ''Accepted offer expired.'')) (\<lambda>_.
     bindP (purchase (offer_input ao) cred) (\<lambda>res.
     bindP (needP (receipt_matches (dr_receipt res) ao)
         (Err ''Paid receipt does not match the accepted offer; reconcile before retrying.'')) (\<lambda>_.
     bindP (liftP (validateEvidence w (JArr (dr_evidence res)) (of_repos ao))) (\<lambda>evidence.
       retP \<lparr>op_offerId = ao_id ao, op_contextId = of_context ao, op_payer = of_payer ao,
         op_resourceUrl = of_resource ao, op_receipt = dr_receipt res, op_evidence = evidence\<rparr>)))))))))"

section \<open>One paid request per journal\<close>

text \<open>The transfer a journal records.\<close>

fun file_transfer :: "purchase_file \<Rightarrow> string option" where
  "file_transfer (Intent _ _ _ _) = None"
| "file_transfer (Signed _ _ t _) = Some t"
| "file_transfer (Settled _ r) = pr_transaction (dr_receipt r)"

abbreviation paid_ok :: "(purchase_file, 'c) machine \<Rightarrow> bool" where
  "paid_ok \<equiv> dispatch_ok file_transfer ''hedera''"

lemma triple_assertMandateActive:
  assumes "stable P" "\<And>m. P m \<Longrightarrow> I m" "\<And>m. P m \<Longrightarrow> E m"
  shows "triple I E P (assertMandateActive w y s) (\<lambda>_. P)"
  unfolding assertMandateActive_def Let_def
  by (cases "parse_date w s")
    (auto intro!: triple_throw triple_call_then triple_need assms)

lemma triple_poll:
  assumes "stable P" "\<And>m. P m \<Longrightarrow> I m" "\<And>m. P m \<Longrightarrow> E m"
  shows "triple I E P (poll_mirror w y u a b n left) (\<lambda>_. P)"
proof (induction left)
  case 0
  show ?case by (simp add: triple_throw assms)
next
  case (Suc left)
  show ?case
    unfolding poll_mirror.simps
  proof (rule triple_then)
    show "triple I E P (catchP (bindP (callP (he_mirror y u)) (\<lambda>r.
        bindP (needP (hr_ok r) (Err ''Mirror receipt unavailable.'')) (\<lambda>_.
        bindP (liftP (bindR (hr_body r) (\<lambda>v. validateMirrorTransfer w v a b n))) (\<lambda>_. retP True)))) (\<lambda>_. retP False))
      (\<lambda>_. P)"
      by (intro triple_catch_keep triple_call_then triple_need_then triple_lift_then triple_ret assms)
  qed (auto intro!: triple_ret Suc)
qed

lemma pay_and_prove_once:
  "triple paid_ok paid_ok (signed_unpaid file_transfer ''hedera'' (journal_key w (dp_requestId input)) t)
     (pay_and_prove w y input repos endpoint fp payer pay amount payload t) (\<lambda>_. paid_ok)"
proof -
  let ?k = "journal_key w (dp_requestId input)"
  have save: "triple paid_ok paid_ok (names_transfer file_transfer ''hedera'' ?k t)
      (bindP (saveJournal ?k (Settled fp \<lparr>dr_evidence = ev, dr_receipt = settled_receipt input amount n t stamp\<rparr>))
        (\<lambda>_. retP r)) (\<lambda>_. paid_ok)" for ev n stamp r
    by (rule triple_bind [OF saveJournal_later [where t = t]]) (auto simp: settled_receipt_def intro: triple_ret)
  show ?thesis
    unfolding pay_and_prove_def Let_def
    by (intro triple_bind [OF note_pays] triple_call_then triple_lift_then triple_need_then stable_dispatch
        triple_then [OF triple_poll] save) auto
qed

lemma sign_and_pay_once:
  "triple paid_ok paid_ok paid_ok (sign_and_pay w y input repos endpoint fp cred pay required accepted amount)
     (\<lambda>_. paid_ok)"
  unfolding sign_and_pay_def Let_def
  by (intro triple_call_then triple_lift_then triple_bind [OF createJournal_unpaid]
      triple_bind [OF triple_assertMandateActive] stable_dispatch)
    (auto intro!: triple_call_then triple_lift_then triple_bind [OF saveJournal_signed]
      triple_bind [OF triple_assertMandateActive] pay_and_prove_once split: prod.split)

lemma new_purchase_once:
  "triple paid_ok paid_ok paid_ok (new_purchase w y input repos base pay cred fp) (\<lambda>_. paid_ok)"
  unfolding new_purchase_def
  by (intro triple_lift_then triple_call_then stable_dispatch)
    (auto intro!: triple_lift_then triple_call_then triple_need_then sign_and_pay_once split: prod.split)

lemma purchase_once:
  "triple paid_ok paid_ok paid_ok (purchaseHederaData w y env input cred) (\<lambda>_. paid_ok)"
  unfolding purchaseHederaData_def Let_def
  by (intro triple_then [OF triple_assertMandateActive] triple_lift_then triple_need_then stable_dispatch
      triple_then [OF triple_readJournal_keep])
    (auto intro!: triple_lift new_purchase_once split: option.split)

text \<open>What a broker's directory sees: purchases one after the other, each with its own budget.\<close>

definition after_purchases ::
    "web \<Rightarrow> 'c hedera_ext \<Rightarrow> (string \<Rightarrow> string option) \<Rightarrow> (nat \<times> data_purchase \<times> hedera_credentials option) list \<Rightarrow> 'c \<Rightarrow>
      (purchase_file, 'c) machine" where
  "after_purchases w y env ps u =
     run_all (map (\<lambda>(n, input, cred). (n, purchaseHederaData w y env input cred)) ps) (empty_machine u)"

lemma after_purchases_invariant:
  assumes "\<And>input cred. triple I I I (purchaseHederaData w y env input cred) (\<lambda>_. I)"
    "I (empty_machine u)" "\<And>n m. I m \<Longrightarrow> I (restart n m)"
  shows "I (after_purchases w y env ps u)"
  unfolding after_purchases_def
  by (rule run_all_triple) (use assms in auto)

text \<open>
  C7. No purchase is paid twice: after any sequence of purchases from an empty directory, each of
  which may die between any two effects, either no paid request was sent for a request id, or
  exactly one, for the very transfer its journal records.
\<close>

theorem hedera_pays_once:
  "case submits_of (journal_key w request) (after_purchases w y env ps u) of
     [] \<Rightarrow> True
   | s # ss \<Rightarrow> ss = [] \<and> (case journal (after_purchases w y env ps u) (journal_key w request) of
       Stored f \<Rightarrow> (\<exists>t. file_transfer f = Some t \<and> s = \<lparr>oi_kind = ''hedera'', oi_args = [t]\<rparr>)
     | _ \<Rightarrow> False)"
proof -
  have "paid_ok (after_purchases w y env ps u)"
    by (rule after_purchases_invariant [OF purchase_once]) simp_all
  then show ?thesis by (auto simp: dispatch_ok_def dest: spec [of _ "journal_key w request"] split: list.split)
qed

section \<open>Every journal stays within its mandate\<close>

fun file_amount :: "purchase_file \<Rightarrow> int" where
  "file_amount (Intent _ _ _ n) = n"
| "file_amount (Signed _ _ _ n) = n"
| "file_amount (Settled _ r) = pr_amount (dr_receipt r)"

definition files_ok :: "(string \<Rightarrow> purchase_file \<Rightarrow> bool) \<Rightarrow> (purchase_file, 'c) machine \<Rightarrow> bool" where
  "files_ok D m \<longleftrightarrow> (\<forall>k f. journal m k = Stored f \<longrightarrow> D k f)"

lemma stable_files [simp]: "stable (files_ok D)"
  by (simp add: stable_def files_ok_def)

lemma requirements_amount:
  assumes "validatePaymentRequirements v input pay fee = Inr n"
  shows "n = dp_unitPrice input * int (length (dp_repos input)) \<and> n \<le> dp_max input \<and> 0 < dp_unitPrice input \<and>
    billable (dp_repos input)"
  using assms by (auto simp: validatePaymentRequirements_def bindR_eq_Inr Let_def validateRepos_iff repos_json_def
      positiveAtomic_def)

lemma saveJournal_files: "D k f \<Longrightarrow> triple (files_ok D) (files_ok D) (files_ok D) (saveJournal k f) (\<lambda>_. files_ok D)"
  by (rule triple_saveJournal) (auto simp: files_ok_def)

lemma createJournal_files:
  assumes "D k f"
  shows "triple (files_ok D) (files_ok D) (files_ok D) (createJournal e k f) (\<lambda>_. files_ok D)"
proof -
  have "triple (files_ok D) (files_ok D) (files_ok D) (effect (\<lambda>m. (journal m k \<noteq> Absent,
      if journal m k = Absent then m\<lparr>journal := (journal m)(k := Corrupt)\<rparr> else m))) (\<lambda>_. files_ok D)"
    by (rule triple_effect) (auto simp: files_ok_def split: if_splits)
  then show ?thesis
    unfolding createJournal_def
    by (intro triple_then triple_need_then saveJournal_files assms) simp_all
qed

lemma noteSubmit_files: "triple (files_ok D) (files_ok D) (files_ok D) (noteSubmit k i) (\<lambda>_. files_ok D)"
  by (rule triple_noteSubmit) (simp add: files_ok_def)

lemma pay_and_prove_files:
  assumes "\<And>f. pf_fingerprint f = fp \<Longrightarrow> file_amount f = amount \<Longrightarrow> D (journal_key w (dp_requestId input)) f"
  shows "triple (files_ok D) (files_ok D) (files_ok D)
     (pay_and_prove w y input repos endpoint fp payer pay amount payload t) (\<lambda>_. files_ok D)"
  unfolding pay_and_prove_def Let_def
  by (intro triple_then [OF noteSubmit_files] triple_call_then triple_lift_then triple_need_then stable_files
      triple_then [OF triple_poll] triple_then [OF saveJournal_files] triple_ret assms)
    (simp_all add: settled_receipt_def)

lemma sign_and_pay_files:
  assumes "\<And>f. pf_fingerprint f = fp \<Longrightarrow> file_amount f = amount \<Longrightarrow> D (journal_key w (dp_requestId input)) f"
  shows "triple (files_ok D) (files_ok D) (files_ok D)
     (sign_and_pay w y input repos endpoint fp cred pay required accepted amount) (\<lambda>_. files_ok D)"
  unfolding sign_and_pay_def Let_def
  by (intro triple_call_then triple_lift_then triple_then [OF createJournal_files] stable_files
      triple_then [OF triple_assertMandateActive])
    (auto intro!: triple_call_then triple_lift_then triple_then [OF saveJournal_files]
      triple_then [OF triple_assertMandateActive] pay_and_prove_files assms split: prod.split)

text \<open>What a purchase may write: files for its input, within its mandate.\<close>

definition for_input :: "web \<Rightarrow> data_purchase \<Rightarrow> purchase_file \<Rightarrow> bool" where
  "for_input w input f \<longleftrightarrow>
     (\<exists>base pay payer. pf_fingerprint f = fingerprint w input base pay payer \<and> pay \<noteq> payer) \<and> billable (dp_repos input) \<and>
     0 < dp_unitPrice input \<and> file_amount f = dp_unitPrice input * int (length (dp_repos input)) \<and>
     file_amount f \<le> dp_max input"

definition within_mandate :: "web \<Rightarrow> string \<Rightarrow> purchase_file \<Rightarrow> bool" where
  "within_mandate w k f \<longleftrightarrow> (\<exists>input. k = journal_key w (dp_requestId input) \<and> for_input w input f)"

lemma new_purchase_files:
  assumes "pay \<noteq> hc_account cred" "fp = fingerprint w input base pay (hc_account cred)"
    and D: "\<And>f. for_input w input f \<Longrightarrow> D (journal_key w (dp_requestId input)) f"
  shows "triple (files_ok D) (files_ok D) (files_ok D) (new_purchase w y input repos base' pay cred fp) (\<lambda>_. files_ok D)"
proof -
  have within: "D (journal_key w (dp_requestId input)) f"
    if "validatePaymentRequirements v input pay fee = Inr n" "pf_fingerprint f = fp" "file_amount f = n" for v fee n f
    by (rule D) (use requirements_amount [OF that(1)] that(2,3) assms in \<open>auto simp: for_input_def\<close>)
  show ?thesis
    unfolding new_purchase_def
    by (intro triple_lift_then triple_call_then stable_files)
      (auto intro!: triple_lift_then triple_call_then triple_need_then sign_and_pay_files intro: within split: prod.split)
qed

lemma purchase_files:
  assumes "\<And>f. for_input w input f \<Longrightarrow> D (journal_key w (dp_requestId input)) f"
  shows "triple (files_ok D) (files_ok D) (files_ok D) (purchaseHederaData w y env input cred) (\<lambda>_. files_ok D)"
  unfolding purchaseHederaData_def Let_def
  by (intro triple_then [OF triple_assertMandateActive] triple_lift_then triple_need_then stable_files
      triple_then [OF triple_readJournal_keep])
    (auto intro!: triple_lift new_purchase_files assms split: option.split)

text \<open>
  C8. What the directory holds stays within what was approved: every journal was written for
  terms its fingerprint names, under the name of their request id, with distinct payer and payee,
  and its amount is the approved unit price times the billable repositories, at most the mandate's
  maximum.
\<close>

theorem hedera_journals_within_mandate:
  "case journal (after_purchases w y env ps u) k of
     Stored f \<Rightarrow> within_mandate w k f
   | _ \<Rightarrow> True"
proof -
  have "files_ok (within_mandate w) (after_purchases w y env ps u)"
    by (rule after_purchases_invariant [OF purchase_files])
      (auto simp: files_ok_def within_mandate_def empty_machine_def restart_def)
  then show ?thesis by (auto simp: files_ok_def split: disk_file.split)
qed

section \<open>Replay\<close>

text \<open>
  A request whose journal is there is settled by reading alone: the recorded result when the
  terms are the same, an error otherwise, and in no case another paid request or another journal.
\<close>

theorem hedera_purchase_replays:
  assumes "journal m (journal_key w (dp_requestId input)) \<noteq> Absent"
  shows "case purchaseHederaData w y env input cred m of
      (Ret r, m') \<Rightarrow> (\<exists>fp. journal m (journal_key w (dp_requestId input)) = Stored (Settled fp r)) \<and>
        submits m' = submits m \<and> journal m' = journal m
    | (_, m') \<Rightarrow> submits m' = submits m \<and> journal m' = journal m"
proof -
  let ?k = "journal_key w (dp_requestId input)"
  let ?same = "\<lambda>m'. submits m' = submits m \<and> journal m' = journal m"
  have st: "stable ?same" by (simp add: stable_def)
  have one: "triple ?same ?same (\<lambda>m'. ?same m' \<and> (case a of None \<Rightarrow> journal m' ?k = Absent | Some s \<Rightarrow> journal m' ?k = Stored s))
      (case a of Some f \<Rightarrow> liftP (earlier_purchase f fp) | None \<Rightarrow> new_purchase w y input repos base pay c fp)
      (\<lambda>r m'. ?same m' \<and> (\<exists>fp. journal m ?k = Stored (Settled fp r)))" for a fp repos base pay c
  proof (cases a)
    case None
    show ?thesis by (rule triple_pre [OF triple_false]) (use assms None in auto)
  next
    case (Some f)
    then show ?thesis
      by (auto simp: earlier_purchase_def intro!: triple_lift split: if_splits purchase_file.splits)
  qed
  have "triple ?same ?same ?same (purchaseHederaData w y env input cred)
      (\<lambda>r m'. ?same m' \<and> (\<exists>fp. journal m ?k = Stored (Settled fp r)))"
    unfolding purchaseHederaData_def Let_def
    by (intro triple_then [OF triple_assertMandateActive] triple_lift_then triple_need_then st
        triple_bind [OF triple_readJournal] one) simp_all
  note t = tripleD [OF this, of m, OF conjI [OF refl refl]]
  obtain r m' where r: "purchaseHederaData w y env input cred m = (r, m')"
    by (cases "purchaseHederaData w y env input cred m")
  show ?thesis
  proof (cases r)
    case (Ret a)
    then show ?thesis unfolding r using t(1) [OF r [unfolded Ret]] by (simp only: prod.case outcome.case)
  next
    case (Throw e)
    then show ?thesis unfolding r using t(2) [OF r [unfolded Throw]] by (simp only: prod.case outcome.case)
  next
    case Died
    then show ?thesis unfolding r using t(3) [OF r [unfolded Died]] by (simp only: prod.case outcome.case)
  qed
qed

definition replay_web :: web where
  "replay_web = \<lparr>sha256 = (\<lambda>s. s), hmac = (\<lambda>_ _. []), legacy_date = (\<lambda>_. Some 5), read_number = (\<lambda>n. n),
     add_double = (\<lambda>_ _. NaN),
     parse_url = (\<lambda>s. Some \<lparr>href = s, protocol = ''https:'', origin = s, username = [], password = [],
       hostname = s, pathname = ''/'', search = [], hash_part = []\<rparr>),
     resolve_url = (\<lambda>_ _. None), set_pathname = (\<lambda>u p. u)\<rparr>"

definition replay_hedera :: "unit hedera_ext" where
  "replay_hedera = \<lparr>he_now = (\<lambda>u. (Inr 0, u)), he_challenge = (\<lambda>_ _ _ u. (Inl Zod, u)), he_decode_required = (\<lambda>_. Inl Zod),
     he_supported = (\<lambda>u. (Inl Zod, u)), he_key = (\<lambda>_ _. True), he_sign = (\<lambda>_ _ u. (Inl Zod, u)),
     he_transaction_id = (\<lambda>_. Inl Zod), he_pay = (\<lambda>_ _ _ _ u. (Inl Zod, u)), he_decode_settlement = (\<lambda>_. Inl Zod),
     he_mirror = (\<lambda>_ u. (Inl Zod, u))\<rparr>"

definition replay_input :: data_purchase where
  "replay_input = \<lparr>dp_runId = ''run'', dp_requestId = ''r1'', dp_repos = [''a/b''], dp_provider = ''repo-standard'',
     dp_max = 7, dp_unitPrice = 7, dp_mandateExpires = ''x'', dp_offerToken = None\<rparr>"

definition replay_cred :: hedera_credentials where
  "replay_cred = \<lparr>hc_account = ''0.0.1'', hc_key = ''k'', hc_keyType = ''der''\<rparr>"

definition replay_env :: "string \<Rightarrow> string option" where
  "replay_env k = (if k = ''DATA_SERVICE_URL'' then Some ''u'' else if k = ''HEDERA_PAY_TO'' then Some ''0.0.2'' else None)"

definition replay_result :: data_result where
  "replay_result = \<lparr>dr_evidence = [], dr_receipt = settled_receipt replay_input 7 1 ''t'' ''s''\<rparr>"

definition replay_machine :: "(purchase_file, unit) machine" where
  "replay_machine = (empty_machine ())\<lparr>budget := 5, journal := (\<lambda>_. Stored (Settled
     (fingerprint replay_web replay_input (the (parse_url replay_web ''u'')) ''0.0.2'' ''0.0.1'') replay_result))\<rparr>"

theorem hedera_purchase_replays_witness:
  "\<exists>m'. purchaseHederaData replay_web replay_hedera replay_env replay_input (Some replay_cred) replay_machine =
      (Ret replay_result, m') \<and> submits m' = []"
proof -
  have b: "billable [''a/b''] \<and> is_request_id ''r1'' \<and> is_run_id ''run'' \<and> is_account ''0.0.1'' \<and> is_account ''0.0.2'' \<and>
      iso_datetime True ''x'' = None"
    by code_simp
  have "fst (purchaseHederaData replay_web replay_hedera replay_env replay_input (Some replay_cred) replay_machine) =
      Ret replay_result"
    using b
    by (simp add: purchaseHederaData_def assertMandateActive_def parse_date_def date_parse_def replay_web_def
        replay_hedera_def replay_env_def replay_input_def replay_cred_def replay_machine_def bindP_def callP_def effect_def
        liftP_def retP_def needP_def serviceBase_def check_def url_or_throw_def trusted_url_def with_slash_def env_or_def
        validateRepos_repos_json provider_ids_def readJournal_def file_opt_def earlier_purchase_def empty_machine_def Let_def)
  moreover have "journal replay_machine (journal_key replay_web (dp_requestId replay_input)) \<noteq> Absent"
    by (simp add: replay_machine_def)
  note hedera_purchase_replays [OF this, of replay_hedera replay_env "Some replay_cred"]
  moreover have "submits replay_machine = []" by (simp add: replay_machine_def empty_machine_def)
  ultimately show ?thesis
    by (cases "purchaseHederaData replay_web replay_hedera replay_env replay_input (Some replay_cred) replay_machine") simp
qed

end
