(* ===== verification/TokenBuyer.thy ===== *)
theory TokenBuyer
  imports Commerce HederaPurchase
begin

text \<open>
  The buyer that pays with a fixed-supply test token, \<open>src/scripts/hedera-token-buyer.ts\<close>,
  as a program of \<open>Machine\<close>. One journal per request id goes through \<open>intent\<close>,
  \<open>signed\<close>, \<open>received\<close> and \<open>settled\<close>; a later run with the same terms recovers by
  reading the mirror node and the stored receipt, and never pays again.

  \<open>ht_read\<close> is the read-only \<open>fetch\<close> of \<open>readJson\<close> (with a body: a POST). The
  process lock of \<open>src/scripts/process-lock.ts\<close> is taken and released as one effect each.
\<close>

section \<open>Data\<close>

record 'c hts_ext = "'c hedera_ext" +
  ht_read :: "string \<Rightarrow> json option \<Rightarrow> 'c \<Rightarrow> http_response res \<times> 'c"

record hts_purchase =
  hp_requestId :: string
  hp_baseUrl :: string
  hp_repos :: "string list"
  hp_terms :: token_terms
  hp_max :: int
  hp_mandateExpires :: string
  hp_symbol :: string

record hts_received =
  rc_settlement :: json
  rc_evidence :: "json list"

record hts_result =
  hr_requestId :: string
  hr_transaction :: string
  hr_terms :: token_terms
  hr_units :: int
  hr_evidence :: "json list"
  hr_settlement :: json
  hr_explorer :: string

datatype hts_status = HtsIntent | HtsSigned | HtsReceived | HtsSettled

record hts_intent =
  hi_fingerprint :: string
  hi_status :: hts_status
  hi_created :: string
  hi_input :: hts_purchase
  hi_transaction :: "string option"
  hi_received :: "hts_received option"
  hi_result :: "hts_result option"

type_synonym ('c, 'a) hts_prog = "(hts_intent, 'c, 'a) prog"

section \<open>The input\<close>

definition is_symbol :: "string \<Rightarrow> bool" where
  "is_symbol s \<longleftrightarrow> s \<noteq> [] \<and> length s \<le> 12 \<and> list_all is_ident_char s"

text \<open>\<open>inputSchema\<close>: the parsed input and the terms it leaves unchecked. The unit price and
  the decimals are literals, the provider is \<open>repo-standard\<close>.\<close>

definition p_hts_input :: "json \<Rightarrow> (hts_purchase \<times> json) option" where
  "p_hts_input v =
     (if \<not> strict [''requestId'', ''resourceBaseUrl'', ''providerId'', ''repos'', ''terms'', ''unitPriceAtomic'',
        ''maxAmountAtomic'', ''mandateExpiresAt'', ''symbol'', ''decimals''] v then None
      else Option.bind (field v ''requestId'' (\<lambda>s. check is_request_id (as_str s))) (\<lambda>i.
        Option.bind (field v ''resourceBaseUrl'' as_str) (\<lambda>b.
        Option.bind (field v ''providerId'' (p_literal (JStr ''repo-standard''))) (\<lambda>_.
        Option.bind (field v ''repos'' p_repo_list) (\<lambda>rs.
        Option.bind (field v ''unitPriceAtomic'' (p_literal (int_json 1))) (\<lambda>_.
        Option.bind (field v ''maxAmountAtomic'' (p_between 1 3)) (\<lambda>mx.
        Option.bind (field v ''mandateExpiresAt'' (p_datetime True)) (\<lambda>ex.
        Option.bind (field v ''symbol'' (\<lambda>s. check is_symbol (as_str s))) (\<lambda>sy.
        Option.bind (field v ''decimals'' (p_literal (int_json 0))) (\<lambda>_.
          Some (\<lparr>hp_requestId = i, hp_baseUrl = b, hp_repos = rs,
             hp_terms = \<lparr>tt_asset = [], tt_payer = [], tt_payTo = [], tt_amount = 0\<rparr>, hp_max = mx,
             hp_mandateExpires = ex, hp_symbol = sy\<rparr>,
            case fld v ''terms'' of Some t \<Rightarrow> t | None \<Rightarrow> JNull)))))))))))"

definition ends_with :: "string \<Rightarrow> string \<Rightarrow> bool" where
  "ends_with p s \<longleftrightarrow> length p \<le> length s \<and> drop (length s - length p) s = p"

definition hts_terms_ok :: "hts_purchase \<Rightarrow> hedera_credentials \<Rightarrow> bool" where
  "hts_terms_ok p cred \<longleftrightarrow>
     hc_account cred = tt_payer (hp_terms p) \<and> hc_key cred \<noteq> [] \<and>
     tt_amount (hp_terms p) = int (length (hp_repos p)) \<and> tt_amount (hp_terms p) \<le> hp_max p"

definition validateInput :: "web \<Rightarrow> json \<Rightarrow> hedera_credentials \<Rightarrow> hts_purchase res" where
  "validateInput w v cred =
     bindR (of_opt Zod (p_hts_input v)) (\<lambda>(p, traw).
     bindR (validateTokenTerms traw) (\<lambda>terms.
     bindR (validateRepos (repos_json (hp_repos p))) (\<lambda>repos.
     bindR (trustedBase w (hp_baseUrl p)) (\<lambda>base.
     let input = p\<lparr>hp_terms := terms, hp_repos := repos, hp_baseUrl := href base\<rparr>
     in bindR (need (ends_with ''/x402/hts/'' (pathname base) \<and> hts_terms_ok input cred)
          (Err ''Invalid pinned HTS resource, payer or bounded token authority.'')) (\<lambda>_. Inr input)))))"

definition hts_json :: "hts_purchase \<Rightarrow> json" where
  "hts_json p = JObj
     [(''requestId'', JStr (hp_requestId p)), (''resourceBaseUrl'', JStr (hp_baseUrl p)),
      (''providerId'', JStr ''repo-standard''), (''repos'', repos_json (hp_repos p)),
      (''terms'', token_terms_json (hp_terms p)), (''unitPriceAtomic'', int_json 1),
      (''maxAmountAtomic'', int_json (hp_max p)), (''mandateExpiresAt'', JStr (hp_mandateExpires p)),
      (''symbol'', JStr (hp_symbol p)), (''decimals'', int_json 0)]"

definition hts_fingerprint :: "web \<Rightarrow> hts_purchase \<Rightarrow> string" where
  "hts_fingerprint w p = sha256 w (stringify (hts_json p))"

definition hts_key :: "web \<Rightarrow> string \<Rightarrow> string" where
  "hts_key w request = ''hts-'' @ sha256 w request"

definition active :: "web \<Rightarrow> ('c, 'z) hedera_ext_scheme \<Rightarrow> hts_purchase \<Rightarrow> ('s, 'c, unit) prog" where
  "active w y p =
     bindP (callP (he_now y)) (\<lambda>now.
       needP (\<not> date_le (parse_date w (hp_mandateExpires p)) (Some now)) (Err ''HTS mandate expired; no payment authorized.''))"

section \<open>Reading\<close>

definition readJson :: "'c hts_ext \<Rightarrow> string \<Rightarrow> json option \<Rightarrow> ('s, 'c, json) prog" where
  "readJson y u body =
     bindP (callP (ht_read y u body)) (\<lambda>r.
     bindP (needP (hr_ok r) (Err ''Read-only token configuration, proof or resource receipt unavailable.'')) (\<lambda>_.
       liftP (hr_body r)))"

text \<open>\<open>new URL(relative, base)\<close> on two texts.\<close>

definition relative_url :: "web \<Rightarrow> string \<Rightarrow> string \<Rightarrow> string res" where
  "relative_url w path base =
     bindR (url_or_throw (parse_url w base)) (\<lambda>b.
     bindR (url_or_throw (resolve_url w path b)) (\<lambda>u. Inr (href u)))"

definition not_null :: "json \<Rightarrow> unit res" where
  "not_null v = need (v \<noteq> JNull) (Thrown ''TypeError'')"

definition received :: "web \<Rightarrow> json option \<Rightarrow> json option \<Rightarrow> hts_purchase \<Rightarrow> string \<Rightarrow> hts_received res" where
  "received w settlement evidence input t =
     (let s = (case settlement of Some v \<Rightarrow> v | None \<Rightarrow> JNull)
      in bindR (validateSettlement s (tt_payer (hp_terms input))) (\<lambda>tx.
         bindR (need (normalizeTransactionId tx = normalizeTransactionId t)
           (Err ''HTS settlement differs from the signed transaction; reconcile.'')) (\<lambda>_.
         bindR (validateEvidence w (case evidence of Some e \<Rightarrow> e | None \<Rightarrow> JNull) (hp_repos input)) (\<lambda>ev.
           Inr \<lparr>rc_settlement = s, rc_evidence = ev\<rparr>))))"

definition mirrorProof :: "web \<Rightarrow> 'c hts_ext \<Rightarrow> string \<Rightarrow> hts_purchase \<Rightarrow> ('s, 'c, unit) prog" where
  "mirrorProof w y t input =
     bindP (readJson y (mirror_url t) None) (\<lambda>body. liftP (validateTokenTransfer w body (hp_terms input)))"

definition completed :: "hts_purchase \<Rightarrow> string \<Rightarrow> hts_received \<Rightarrow> hts_result" where
  "completed input t r =
     \<lparr>hr_requestId = hp_requestId input, hr_transaction = t, hr_terms = hp_terms input,
      hr_units = int (length (hp_repos input)), hr_evidence = rc_evidence r, hr_settlement = rc_settlement r,
      hr_explorer = ''https://hashscan.io/testnet/transaction/'' @ encodeURIComponent t\<rparr>"

section \<open>Recovery\<close>

text \<open>The stored receipt of the resource, compared with the request left to right;
  \<open>normalizeTransactionId\<close> throws on what is not a string.\<close>

definition receipt_of_request :: "json \<Rightarrow> hts_purchase \<Rightarrow> string \<Rightarrow> unit res" where
  "receipt_of_request body input t =
     (let e = Err ''Stored HTS resource receipt differs from the paid request.''
      in bindR (not_null body) (\<lambda>_.
         bindR (need (fstr body ''state'' = Some ''settled'') e) (\<lambda>_.
         bindR (case fld body ''transactionId'' of
             None \<Rightarrow> Inr [] | Some JNull \<Rightarrow> Inr [] | Some (JStr s) \<Rightarrow> Inr s | Some _ \<Rightarrow> Inl (Thrown ''TypeError'')) (\<lambda>s.
           need (normalizeTransactionId s = normalizeTransactionId t \<and> fstr body ''providerId'' = Some ''repo-standard'' \<and>
             map_option stringify (fld body ''repos'') = Some (stringify (repos_json (hp_repos input))) \<and>
             fld body ''amountAtomic'' = Some (int_json (tt_amount (hp_terms input))) \<and>
             fstr body ''asset'' = Some (tt_asset (hp_terms input))) e))))"

text \<open>The response on disk, or else the receipt the resource keeps.\<close>

definition known_response ::
    "web \<Rightarrow> 'c hts_ext \<Rightarrow> string \<Rightarrow> hts_intent \<Rightarrow> hts_purchase \<Rightarrow> ('s, 'c, json option \<times> json option) prog" where
  "known_response w y t intent input =
     (case hi_received intent of
        Some r \<Rightarrow> retP (Some (rc_settlement r), Some (JArr (rc_evidence r)))
      | None \<Rightarrow>
          bindP (liftP (relative_url w (''receipts/'' @ encodeURIComponent t) (hp_baseUrl input))) (\<lambda>u.
          bindP (readJson y u None) (\<lambda>body.
          bindP (liftP (receipt_of_request body input t)) (\<lambda>_.
            retP (fld body ''settlement'', fld body ''evidence'')))))"

definition recover ::
    "web \<Rightarrow> 'c hts_ext \<Rightarrow> string \<Rightarrow> hts_intent \<Rightarrow> hts_purchase \<Rightarrow> ('c, hts_result) hts_prog" where
  "recover w y k intent input =
     (case hi_transaction intent of
        None \<Rightarrow> throwP (Err ''HTS purchase already attempted without a saved transaction; reconcile the intent.'')
      | Some t \<Rightarrow> (case hi_result intent of
          Some r \<Rightarrow> bindP (liftP (received w (Some (hr_settlement r)) (Some (JArr (hr_evidence r))) input t)) (\<lambda>checked.
            retP (completed input t checked))
        | None \<Rightarrow>
            bindP (mirrorProof w y t input) (\<lambda>_.
            bindP (known_response w y t intent input) (\<lambda>(s, e).
            bindP (liftP (received w s e input t)) (\<lambda>checked.
              let res = completed input t checked
              in bindP (saveJournal k (intent\<lparr>hi_status := HtsSettled, hi_received := Some checked, hi_result := Some res\<rparr>)) (\<lambda>_.
                 retP res))))))"

section \<open>The quote, the token and the challenge\<close>

definition quote_matches :: "json \<Rightarrow> hts_purchase \<Rightarrow> bool" where
  "quote_matches q p \<longleftrightarrow>
     fstr q ''providerId'' = Some ''repo-standard'' \<and> fld q ''units'' = Some (int_json (int (length (hp_repos p)))) \<and>
     fld q ''unitPriceAtomic'' = Some (int_json 1) \<and> fld q ''amountAtomic'' = Some (int_json (tt_amount (hp_terms p))) \<and>
     fstr q ''payTo'' = Some (tt_payTo (hp_terms p)) \<and> fstr q ''network'' = Some HEDERA_NETWORK \<and>
     fstr q ''asset'' = Some (tt_asset (hp_terms p)) \<and> fld q ''decimals'' = Some (int_json 0) \<and>
     fstr q ''symbol'' = Some (hp_symbol p)"

text \<open>The checked quote's expiry; the clock is read only when the rest agrees.\<close>

definition check_quote :: "web \<Rightarrow> 'c hts_ext \<Rightarrow> json \<Rightarrow> hts_purchase \<Rightarrow> ('s, 'c, string) prog" where
  "check_quote w y q p =
     (let e = Err ''HTS quote differs from the explicitly approved fixed test-credit terms.''
      in bindP (liftP (not_null q)) (\<lambda>_.
         bindP (liftP (of_opt e (if quote_matches q p then check (\<lambda>s. parse_date w s \<noteq> None) (fstr q ''expiresAt'') else None))) (\<lambda>x.
         bindP (callP (he_now y)) (\<lambda>now.
         bindP (needP (\<not> date_le (parse_date w x) (Some now)) e) (\<lambda>_. retP x)))))"

definition no_fees :: "json \<Rightarrow> string \<Rightarrow> bool" where
  "no_fees fees k = (case fld fees k of None \<Rightarrow> True | Some v \<Rightarrow> v = JArr [])"

definition check_token :: "json \<Rightarrow> hts_purchase \<Rightarrow> unit res" where
  "check_token v p =
     bindR (not_null v) (\<lambda>_.
       need (fstr v ''token_id'' = Some (tt_asset (hp_terms p)) \<and> fstr v ''type'' = Some ''FUNGIBLE_COMMON'' \<and>
         fstr v ''supply_type'' = Some ''FINITE'' \<and> fld v ''decimals'' \<in> {Some (int_json 0), Some (JStr ''0'')} \<and>
         fstr v ''symbol'' = Some (hp_symbol p) \<and>
         (case fld v ''custom_fees'' of
            Some f \<Rightarrow> is_obj f \<and> list_all (no_fees f) [''fixed_fees'', ''fractional_fees'', ''royalty_fees'']
          | None \<Rightarrow> False))
         (Err ''Token metadata is not the pinned fee-free zero-decimal finite test credit.''))"

definition hts_challenge :: "'c hts_ext \<Rightarrow> string \<Rightarrow> challenge \<Rightarrow> (json \<times> json option) res" where
  "hts_challenge y endpoint c =
     bindR (need (ch_status c = 402) (Err ''HTS resource did not return an x402 challenge.'')) (\<lambda>_.
     bindR (of_opt (Err ''Invalid HTS payment challenge.'') (check (\<lambda>h. h \<noteq> [] \<and> length h \<le> 24000) (ch_header c))) (\<lambda>h.
     bindR (he_decode_required y h) (\<lambda>required.
     bindR (not_null required) (\<lambda>_.
     bindR (need (fld required ''x402Version'' = Some (int_json 2) \<and>
         Option.bind (fld required ''resource'') (\<lambda>r. fstr r ''url'') = Some endpoint)
       (Err ''HTS challenge changed the exact resource or payment alternatives.'')) (\<lambda>_.
     bindR (of_opt (Err ''HTS challenge changed the exact resource or payment alternatives.'')
         (only_element (fld required ''accepts''))) (\<lambda>a. Inr (required, a)))))))"

text \<open>\<open>supported.kinds?.find(...)?.extra?.feePayer\<close>.\<close>

definition hts_fee_payer :: "json \<Rightarrow> json res" where
  "hts_fee_payer v =
     bindR (not_null v) (\<lambda>_.
     bindR (case fld v ''kinds'' of None \<Rightarrow> Inr None | Some JNull \<Rightarrow> Inr None
       | Some (JArr ks) \<Rightarrow> find_kind ks | Some _ \<Rightarrow> Inl (Thrown ''TypeError'')) (\<lambda>k.
       of_opt (Err ''Blocky402 testnet native facilitator unavailable.'')
         (check (\<lambda>f. truthy (Some f)) (Option.bind k (\<lambda>kd. extra kd ''feePayer'')))))"

definition exactRequirements :: "json option \<Rightarrow> hts_purchase \<Rightarrow> json \<Rightarrow> json res" where
  "exactRequirements value p fee =
     bindR (of_opt (Thrown ''TypeError'') (check (\<lambda>v. v \<noteq> JNull) value)) (\<lambda>v.
     bindR (need (fstr v ''scheme'' = Some ''exact'' \<and> fstr v ''network'' = Some HEDERA_NETWORK \<and>
         fstr v ''asset'' = Some (tt_asset (hp_terms p)) \<and> fstr v ''payTo'' = Some (tt_payTo (hp_terms p)) \<and>
         amount_text v \<noteq> [] \<and> list_all is_digit (amount_text v) \<and> dec_int (amount_text v) = tt_amount (hp_terms p) \<and>
         strict_eq (extra v ''feePayer'') (Some fee) \<and> is_account (js_String fee) \<and>
         fee \<noteq> JStr (tt_payer (hp_terms p)) \<and> fee \<noteq> JStr (tt_payTo (hp_terms p)) \<and> timeout_ok v \<and>
         (\<not> truthy (extra v ''paymentFlow'') \<or> extra v ''paymentFlow'' = Some (JStr ''authorization'')))
       (Err ''HTS x402 challenge violates exact asset, recipient, amount or facilitator mandate.'')) (\<lambda>_. Inr v))"

definition hts_signed :: "'c hts_ext \<Rightarrow> json \<Rightarrow> (json \<times> string) res" where
  "hts_signed y signed =
     bindR (of_opt (Thrown ''TypeError'') (check (\<lambda>p. p \<noteq> JNull) (fld signed ''payload''))) (\<lambda>p.
     bindR (of_opt (Err ''HTS signer returned no transaction.'') (fstr p ''transaction'')) (\<lambda>bytes.
     bindR (he_transaction_id y bytes) (\<lambda>t.
     bindR (of_opt (Err ''HTS signed transaction lacks permanent identity.'') (check (\<lambda>s. s \<noteq> []) t)) (\<lambda>i. Inr (p, i)))))"

section \<open>The purchase\<close>

text \<open>\<open>active\<close> and the quote's expiry, before signing and before dispatch.\<close>

definition still_open :: "web \<Rightarrow> 'c hts_ext \<Rightarrow> hts_purchase \<Rightarrow> string \<Rightarrow> string \<Rightarrow> ('s, 'c, unit) prog" where
  "still_open w y input expires late =
     bindP (active w y input) (\<lambda>_.
     bindP (callP (he_now y)) (\<lambda>now. needP (\<not> date_le (parse_date w expires) (Some now)) (Err late)))"

text \<open>One dispatch, its settlement and evidence on disk, the mirror proof, the result on disk.\<close>

definition hts_dispatch ::
    "web \<Rightarrow> 'c hts_ext \<Rightarrow> string \<Rightarrow> hts_intent \<Rightarrow> hts_purchase \<Rightarrow> string \<Rightarrow> json \<Rightarrow> string \<Rightarrow> ('c, hts_result) hts_prog" where
  "hts_dispatch w y k intent input endpoint payload t =
     bindP (noteSubmit k \<lparr>oi_kind = ''hts'', oi_args = [t]\<rparr>) (\<lambda>_.
     bindP (catchP (callP (he_pay y endpoint (hp_requestId input) (JObj [(''repos'', repos_json (hp_repos input))]) payload))
       (\<lambda>_. throwP (Err ''HTS payment transport uncertain; reconcile the saved transaction before retrying.''))) (\<lambda>r.
     bindP (liftP (of_opt (Err ''HTS payment result uncertain; reconcile the saved transaction.'')
         (if 200 \<le> pd_status r \<and> pd_status r \<le> 299 then check (\<lambda>h. h \<noteq> [] \<and> length h \<le> 24000) (pd_header r) else None))) (\<lambda>h.
     bindP (liftP (pd_body r)) (\<lambda>body.
     bindP (liftP (he_decode_settlement y h)) (\<lambda>settlement.
     bindP (liftP (not_null body)) (\<lambda>_.
     bindP (liftP (received w (Some settlement) (fld body ''evidence'') input t)) (\<lambda>checked.
       let arrived = intent\<lparr>hi_status := HtsReceived, hi_received := Some checked\<rparr>; res = completed input t checked
       in bindP (saveJournal k arrived) (\<lambda>_.
          bindP (mirrorProof w y t input) (\<lambda>_.
          bindP (saveJournal k (arrived\<lparr>hi_status := HtsSettled, hi_result := Some res\<rparr>)) (\<lambda>_.
            retP res))))))))))"

text \<open>From the exclusive journal to the dispatch.\<close>

definition hts_sign_and_pay ::
    "web \<Rightarrow> 'c hts_ext \<Rightarrow> string \<Rightarrow> hts_purchase \<Rightarrow> hedera_credentials \<Rightarrow> string \<Rightarrow> string \<Rightarrow> json \<Rightarrow> json \<Rightarrow>
      ('c, hts_result) hts_prog" where
  "hts_sign_and_pay w y k input cred endpoint expires required accepted =
     bindP (callP (he_now y)) (\<lambda>now.
     bindP (liftP (to_iso now)) (\<lambda>created.
     let intent = \<lparr>hi_fingerprint = hts_fingerprint w input, hi_status = HtsIntent, hi_created = created, hi_input = input,
          hi_transaction = None, hi_received = None, hi_result = None\<rparr>
     in bindP (createJournal (Thrown ''EEXIST'') k intent) (\<lambda>_.
        bindP (still_open w y input expires ''HTS quote expired before signing; reconcile this reserved intent.'') (\<lambda>_.
        bindP (callP (he_sign y (hc_account cred) accepted)) (\<lambda>signed.
        bindP (liftP (hts_signed y signed)) (\<lambda>(p, t).
        bindP (saveJournal k (intent\<lparr>hi_transaction := Some t, hi_status := HtsSigned\<rparr>)) (\<lambda>_.
        bindP (still_open w y input expires ''HTS quote expired before dispatch; reconcile signed intent.'') (\<lambda>_.
          hts_dispatch w y k (intent\<lparr>hi_transaction := Some t, hi_status := HtsSigned\<rparr>) input endpoint
            (JObj ([(''x402Version'', int_json 2)] @ copied ''resource'' (fld required ''resource'') @
              [(''accepted'', accepted), (''payload'', p)])) t))))))))"

definition hts_new_purchase ::
    "web \<Rightarrow> 'c hts_ext \<Rightarrow> string \<Rightarrow> hts_purchase \<Rightarrow> hedera_credentials \<Rightarrow> ('c, hts_result) hts_prog" where
  "hts_new_purchase w y k input cred =
     bindP (active w y input) (\<lambda>_.
     bindP (liftP (relative_url w ''quote'' (hp_baseUrl input))) (\<lambda>qu.
     bindP (readJson y qu (Some (JObj [(''providerId'', JStr ''repo-standard''), (''repos'', repos_json (hp_repos input))]))) (\<lambda>q.
     bindP (active w y input) (\<lambda>_.
     bindP (check_quote w y q input) (\<lambda>expires.
     bindP (readJson y (''https://testnet.mirrornode.hedera.com/api/v1/tokens/'' @ encodeURIComponent (tt_asset (hp_terms input))) None) (\<lambda>meta.
     bindP (liftP (check_token meta input)) (\<lambda>_.
     bindP (liftP (relative_url w ''evidence/repo-standard'' (hp_baseUrl input))) (\<lambda>endpoint.
     bindP (active w y input) (\<lambda>_.
     bindP (callP (he_challenge y endpoint (hp_requestId input) (JObj [(''repos'', repos_json (hp_repos input))]))) (\<lambda>c.
     bindP (liftP (hts_challenge y endpoint c)) (\<lambda>(required, accepted).
     bindP (readJson y (BLOCKY402_URL @ ''/supported'') None) (\<lambda>s.
     bindP (liftP (hts_fee_payer s)) (\<lambda>fee.
     bindP (liftP (exactRequirements accepted input fee)) (\<lambda>v.
     bindP (needP (he_key y (hc_keyType cred) (hc_key cred)) (Thrown ''BadKeyError'')) (\<lambda>_.
       hts_sign_and_pay w y k input cred endpoint expires required v)))))))))))))))"

definition purchaseHtsRepositories ::
    "web \<Rightarrow> 'c hts_ext \<Rightarrow> json \<Rightarrow> hedera_credentials \<Rightarrow> ('c, hts_result) hts_prog" where
  "purchaseHtsRepositories w y value cred =
     bindP (liftP (validateInput w value cred)) (\<lambda>input.
     let k = hts_key w (hp_requestId input)
     in bindP (takeOpLock (Err ''Another process owns this operation lock.'') k) (\<lambda>_.
        finallyP
          (bindP (readJournal (Thrown ''SyntaxError'') k) (\<lambda>previous.
             case previous of
               Some f \<Rightarrow>
                 if hi_fingerprint f \<noteq> hts_fingerprint w input
                 then throwP (Err ''HTS request identity was reused with different terms.'')
                 else recover w y k f input
             | None \<Rightarrow> hts_new_purchase w y k input cred))
          (dropOpLock k)))"

text \<open>What the command prints of a result.\<close>

definition hts_printed :: "hts_result \<Rightarrow> json" where
  "hts_printed r = JObj
     [(''status'', JStr ''settled''), (''requestId'', JStr (hr_requestId r)), (''transactionId'', JStr (hr_transaction r)),
      (''network'', JStr HEDERA_NETWORK), (''asset'', JStr (tt_asset (hr_terms r))), (''payer'', JStr (tt_payer (hr_terms r))),
      (''payTo'', JStr (tt_payTo (hr_terms r))), (''amountAtomic'', int_json (tt_amount (hr_terms r))),
      (''units'', int_json (hr_units r)), (''explorerUrl'', JStr (hr_explorer r))]"

section \<open>One dispatch per request id\<close>

lemma triple_active:
  "stable P \<Longrightarrow> (\<And>m. P m \<Longrightarrow> I m) \<Longrightarrow> (\<And>m. P m \<Longrightarrow> E m) \<Longrightarrow> triple I E P (active w y p) (\<lambda>_. P)"
  unfolding active_def by (intro triple_call_then triple_need)

lemma triple_readJson:
  "stable P \<Longrightarrow> (\<And>m. P m \<Longrightarrow> I m) \<Longrightarrow> (\<And>m. P m \<Longrightarrow> E m) \<Longrightarrow> triple I E P (readJson y u b) (\<lambda>_. P)"
  unfolding readJson_def by (intro triple_call_then triple_need_then triple_lift)

lemma triple_mirrorProof:
  "stable P \<Longrightarrow> (\<And>m. P m \<Longrightarrow> I m) \<Longrightarrow> (\<And>m. P m \<Longrightarrow> E m) \<Longrightarrow> triple I E P (mirrorProof w y t p) (\<lambda>_. P)"
  unfolding mirrorProof_def by (intro triple_then [OF triple_readJson] triple_lift)

lemma triple_check_quote:
  "stable P \<Longrightarrow> (\<And>m. P m \<Longrightarrow> I m) \<Longrightarrow> (\<And>m. P m \<Longrightarrow> E m) \<Longrightarrow> triple I E P (check_quote w y q p) (\<lambda>_. P)"
  unfolding check_quote_def Let_def by (intro triple_lift_then triple_call_then triple_need_then triple_ret)

lemma triple_still_open:
  "stable P \<Longrightarrow> (\<And>m. P m \<Longrightarrow> I m) \<Longrightarrow> (\<And>m. P m \<Longrightarrow> E m) \<Longrightarrow> triple I E P (still_open w y p x e) (\<lambda>_. P)"
  unfolding still_open_def by (intro triple_then [OF triple_active] triple_call_then triple_need)

lemma triple_known_response:
  "stable P \<Longrightarrow> (\<And>m. P m \<Longrightarrow> I m) \<Longrightarrow> (\<And>m. P m \<Longrightarrow> E m) \<Longrightarrow> triple I E P (known_response w y t f p) (\<lambda>_. P)"
  unfolding known_response_def
  by (auto split: option.split intro!: triple_ret triple_lift_then triple_then [OF triple_readJson])

lemmas hts_reads = triple_known_response triple_active triple_readJson triple_mirrorProof triple_check_quote triple_still_open

text \<open>The process lock guards a body that keeps an invariant blind to the locks.\<close>

definition lock_free :: "(('s, 'c) machine \<Rightarrow> bool) \<Rightarrow> bool" where
  "lock_free P \<longleftrightarrow> stable P \<and> (\<forall>m L. P m \<longrightarrow> P (m\<lparr>op_locks := L\<rparr>))"

lemma triple_takeOpLock: "lock_free P \<Longrightarrow> triple P P P (takeOpLock e n) (\<lambda>_. P)"
  unfolding takeOpLock_def lock_free_def
  by (rule triple_bind [where R = "\<lambda>_. P"], rule triple_effect)
    (auto dest: stableD intro: triple_throw triple_ret)

lemma triple_dropOpLock: "lock_free P \<Longrightarrow> (\<And>m. P m \<Longrightarrow> I m) \<Longrightarrow> triple I E P (dropOpLock n) (\<lambda>_. P)"
  unfolding dropOpLock_def lock_free_def by (rule triple_effect) (auto dest: stableD)

lemma triple_locked:
  assumes "triple I I I p Q" "lock_free I" "\<And>a. lock_free (Q a)" "\<And>a m. Q a m \<Longrightarrow> I m"
  shows "triple I I I (bindP (takeOpLock e n) (\<lambda>_. finallyP p (dropOpLock n))) Q"
proof (rule triple_then [OF triple_takeOpLock [OF assms(2)]], rule triple_finally [OF assms(1)])
  show "triple I I (Q a) (dropOpLock n) (\<lambda>_. Q a)" for a
    by (rule triple_dropOpLock) (use assms in auto)
  show "triple I I I (dropOpLock n) (\<lambda>_. I)"
    by (rule triple_dropOpLock) (use assms in auto)
qed

abbreviation hts_ok :: "(hts_intent, 'c) machine \<Rightarrow> bool" where
  "hts_ok \<equiv> dispatch_ok hi_transaction ''hts''"

lemma lock_free_dispatch: "lock_free (dispatch_ok T kd)"
  by (simp add: lock_free_def dispatch_ok_def submits_of_def)

lemma hts_dispatch_once:
  assumes "hi_transaction intent = Some t"
  shows "triple hts_ok hts_ok (signed_unpaid hi_transaction ''hts'' k t)
     (hts_dispatch w y k intent input endpoint payload t) (\<lambda>_. hts_ok)"
proof -
  let ?named = "names_transfer hi_transaction ''hts'' k t"
  have pay: "triple hts_ok hts_ok ?named (catchP (callP g) (\<lambda>_. throwP e)) (\<lambda>_. ?named)" for g :: "'a \<Rightarrow> 'b res \<times> 'a" and e
    by (rule triple_catch [where E' = ?named]) (auto intro: triple_call triple_throw)
  show ?thesis
    unfolding hts_dispatch_def Let_def
    by (intro triple_bind [OF note_pays] triple_then [OF pay] triple_lift_then stable_dispatch
        triple_then [OF saveJournal_later] triple_then [OF triple_mirrorProof] triple_ret)
      (auto simp: assms)
qed

lemma hts_sign_and_pay_once:
  "triple hts_ok hts_ok hts_ok (hts_sign_and_pay w y k input cred endpoint expires required accepted) (\<lambda>_. hts_ok)"
  unfolding hts_sign_and_pay_def Let_def
  by (intro triple_call_then triple_lift_then triple_bind [OF createJournal_unpaid]
      triple_then [OF triple_still_open] stable_dispatch)
    (auto intro!: triple_call_then triple_lift_then triple_bind [OF saveJournal_signed]
      triple_then [OF triple_still_open] hts_dispatch_once split: prod.split)

lemma hts_new_purchase_once:
  "triple hts_ok hts_ok hts_ok (hts_new_purchase w y k input cred) (\<lambda>_. hts_ok)"
  unfolding hts_new_purchase_def
  by (intro triple_lift_then triple_call_then stable_dispatch hts_reads [THEN triple_then])
    (auto intro!: triple_lift_then triple_call_then triple_need_then hts_reads [THEN triple_then] hts_sign_and_pay_once
      split: prod.split)

lemma recover_once:
  "triple hts_ok hts_ok (\<lambda>m. hts_ok m \<and> journal m k = Stored f) (recover w y k f input) (\<lambda>_. hts_ok)"
proof (cases "hi_transaction f")
  case None
  then show ?thesis by (auto simp: recover_def intro: triple_throw)
next
  case (Some t)
  have "triple hts_ok hts_ok (names_transfer hi_transaction ''hts'' k t) (recover w y k f input) (\<lambda>_. hts_ok)"
    unfolding recover_def Let_def Some option.case
    by (auto intro!: triple_lift_then triple_ret hts_reads [THEN triple_then] triple_then [OF saveJournal_later]
        simp: Some split: option.split prod.split)
  then show ?thesis by (rule triple_pre) (auto simp: names_transfer_def Some)
qed

lemma hts_purchase_once:
  "triple hts_ok hts_ok hts_ok (purchaseHtsRepositories w y v cred) (\<lambda>_. hts_ok)"
  unfolding purchaseHtsRepositories_def Let_def
  by (intro triple_lift_then triple_locked triple_bind [OF triple_readJournal] lock_free_dispatch stable_dispatch)
    (auto intro!: triple_throw hts_new_purchase_once [THEN triple_pre] recover_once [THEN triple_pre] split: option.split)

definition after_hts ::
    "web \<Rightarrow> 'c hts_ext \<Rightarrow> (nat \<times> json \<times> hedera_credentials) list \<Rightarrow> 'c \<Rightarrow> (hts_intent, 'c) machine" where
  "after_hts w y ps u = run_all (map (\<lambda>(n, v, cred). (n, purchaseHtsRepositories w y v cred)) ps) (empty_machine u)"

text \<open>
  C2. The token buyer never pays twice: after any sequence of purchases and recoveries from an
  empty directory, each with its own input and credentials and each of which may die between any
  two effects, no journal name has more than one paid dispatch, and a dispatched transfer is the
  one its journal still records.
\<close>

theorem hts_pays_once:
  "case submits_of k (after_hts w y ps u) of
     [] \<Rightarrow> True
   | s # ss \<Rightarrow> ss = [] \<and> (case journal (after_hts w y ps u) k of
       Stored f \<Rightarrow> (\<exists>t. hi_transaction f = Some t \<and> s = \<lparr>oi_kind = ''hts'', oi_args = [t]\<rparr>)
     | _ \<Rightarrow> False)"
proof -
  have "hts_ok (after_hts w y ps u)"
    unfolding after_hts_def by (rule run_all_triple) (auto intro: hts_purchase_once)
  then show ?thesis by (auto simp: dispatch_ok_def dest: spec [of _ k] split: list.split)
qed

section \<open>What a returned result proves\<close>

definition hts_result_ok :: "web \<Rightarrow> hts_purchase \<Rightarrow> hts_result \<Rightarrow> bool" where
  "hts_result_ok w p r \<longleftrightarrow>
     hr_requestId r = hp_requestId p \<and> hr_terms r = hp_terms p \<and> hr_units r = int (length (hp_repos p)) \<and>
     tt_payer (hr_terms r) \<noteq> tt_payTo (hr_terms r) \<and>
     tt_amount (hr_terms r) = hr_units r \<and> 1 \<le> hr_units r \<and> hr_units r \<le> hp_max p \<and> hp_max p \<le> 3 \<and>
     (\<exists>tx. validateSettlement (hr_settlement r) (tt_payer (hp_terms p)) = Inr tx \<and>
        normalizeTransactionId tx = normalizeTransactionId (hr_transaction r)) \<and>
     validateEvidence w (JArr (hr_evidence r)) (hp_repos p) = Inr (hr_evidence r)"

lemma validateEvidence_same:
  assumes "validateEvidence w v repos = Inr ev"
  shows "v = JArr ev"
proof -
  obtain xs where xs: "v = JArr xs" "length xs = length repos" "mapR (check_evidence w) (zip repos xs) = Inr ev"
    using assms by (cases v) (auto simp: validateEvidence_def bindR_eq_Inr)
  have "ev = xs"
  proof (rule nth_equalityI)
    show "length ev = length xs" using mapR_length [OF xs(3)] xs(2) by simp
    fix i assume "i < length ev"
    then have "check_evidence w (zip repos xs ! i) = Inr (ev ! i)" "i < length xs"
      using mapR_nth [OF xs(3), of i] mapR_length [OF xs(3)] xs(2) by simp_all
    then show "ev ! i = xs ! i" using xs(2) by (auto simp: check_evidence_def bindR_eq_Inr)
  qed
  then show ?thesis using xs by simp
qed

lemma received_ok:
  assumes "received w s e input t = Inr r"
  shows "\<exists>tx. validateSettlement (rc_settlement r) (tt_payer (hp_terms input)) = Inr tx \<and>
      normalizeTransactionId tx = normalizeTransactionId t"
    and "validateEvidence w (JArr (rc_evidence r)) (hp_repos input) = Inr (rc_evidence r)"
proof -
  obtain tx ev where tx: "validateSettlement (rc_settlement r) (tt_payer (hp_terms input)) = Inr tx"
      "normalizeTransactionId tx = normalizeTransactionId t"
    and ev: "validateEvidence w (case e of Some e \<Rightarrow> e | None \<Rightarrow> JNull) (hp_repos input) = Inr ev" "rc_evidence r = ev"
    using assms by (auto simp: received_def bindR_eq_Inr Let_def)
  from tx show "\<exists>tx. validateSettlement (rc_settlement r) (tt_payer (hp_terms input)) = Inr tx \<and>
      normalizeTransactionId tx = normalizeTransactionId t" by blast
  from ev show "validateEvidence w (JArr (rc_evidence r)) (hp_repos input) = Inr (rc_evidence r)"
    using validateEvidence_same [OF ev(1)] by simp
qed

lemma validateInput_props:
  assumes "validateInput w v cred = Inr p"
  shows "tt_amount (hp_terms p) = int (length (hp_repos p))" "1 \<le> length (hp_repos p)"
    "tt_amount (hp_terms p) \<le> hp_max p" "hp_max p \<le> 3" "tt_payer (hp_terms p) \<noteq> tt_payTo (hp_terms p)"
  using assms by (auto simp: validateInput_def p_hts_input_def p_between_def bind_eq_Some_conv bindR_eq_Inr Let_def hts_terms_ok_def
      validateRepos_iff billable_def validateTokenTerms_def split: if_splits)

lemma completed_ok:
  assumes "received w s e input t = Inr r" "validateInput w v cred = Inr input"
  shows "hts_result_ok w input (completed input t r)"
  using received_ok [OF assms(1)] validateInput_props [OF assms(2)] by (simp add: hts_result_ok_def completed_def)

text \<open>The journal of the request holds the transfer of the result, and a result.\<close>

definition hts_recorded :: "web \<Rightarrow> hts_purchase \<Rightarrow> hts_result \<Rightarrow> (hts_intent, 'c) machine \<Rightarrow> bool" where
  "hts_recorded w p r m \<longleftrightarrow>
     (case journal m (hts_key w (hp_requestId p)) of
        Stored f \<Rightarrow> hi_transaction f = Some (hr_transaction r) \<and> hi_result f \<noteq> None \<and> hts_result_ok w p r
      | _ \<Rightarrow> False)"

lemma lock_free_recorded: "lock_free (hts_recorded w p r)"
  by (simp add: lock_free_def stable_def hts_recorded_def)

lemma lock_free_true: "lock_free (\<lambda>_. True)" "stable (\<lambda>_. True)"
  by (simp_all add: lock_free_def stable_def)

lemma save_recorded:
  assumes "hi_transaction f = Some (hr_transaction r)" "hi_result f \<noteq> None" "hts_result_ok w p r"
  shows "triple (\<lambda>_. True) (\<lambda>_. True) P (bindP (saveJournal (hts_key w (hp_requestId p)) f) (\<lambda>_. retP r)) (hts_recorded w p)"
proof (rule triple_bind)
  show "triple (\<lambda>_. True) (\<lambda>_. True) P (saveJournal (hts_key w (hp_requestId p)) f) (\<lambda>_. hts_recorded w p r)"
    by (rule triple_saveJournal) (use assms in \<open>auto simp: hts_recorded_def\<close>)
qed (rule triple_ret)

lemma triple_anything: "triple (\<lambda>_. True) (\<lambda>_. True) P p (\<lambda>_ _. True)"
  by (simp add: triple_def split: prod.split outcome.split)

lemma triple_true_bind:
  "(\<And>a. triple (\<lambda>_. True) (\<lambda>_. True) (\<lambda>_. True) (f a) Q) \<Longrightarrow> triple (\<lambda>_. True) (\<lambda>_. True) P (bindP p f) Q"
  by (rule triple_bind [OF triple_anything])

lemma dispatch_recorded:
  assumes "hi_transaction intent = Some t" "validateInput w v cred = Inr input"
  shows "triple (\<lambda>_. True) (\<lambda>_. True) (\<lambda>_. True)
     (hts_dispatch w y (hts_key w (hp_requestId input)) intent input endpoint payload t) (hts_recorded w input)"
  unfolding hts_dispatch_def Let_def
  by (rule triple_true_bind triple_lift_then TrueI save_recorded)+
    (use assms completed_ok [OF _ assms(2)] in \<open>auto simp: completed_def\<close>)

lemma recover_recorded:
  assumes "validateInput w v cred = Inr input"
  shows "triple (\<lambda>_. True) (\<lambda>_. True) (\<lambda>m. journal m (hts_key w (hp_requestId input)) = Stored f)
     (recover w y (hts_key w (hp_requestId input)) f input) (hts_recorded w input)"
proof (cases "hi_transaction f")
  case None
  then show ?thesis by (auto simp: recover_def intro: triple_throw)
next
  case (Some t)
  let ?k = "hts_key w (hp_requestId input)"
  show ?thesis
  proof (cases "hi_result f")
    case None
    show ?thesis
      unfolding recover_def Some None option.case Let_def case_prod_unfold
      by (rule triple_true_bind triple_lift_then TrueI save_recorded)+
        (use completed_ok [OF _ assms] Some in \<open>auto simp: completed_def\<close>)
  next
    case res: (Some r)
    show ?thesis
      unfolding recover_def Some res option.case
      by (intro triple_lift_then triple_ret)
        (use completed_ok [OF _ assms] Some res in \<open>auto simp: hts_recorded_def completed_def\<close>)
  qed
qed

lemma sign_and_pay_recorded:
  assumes "validateInput w v cred = Inr input"
  shows "triple (\<lambda>_. True) (\<lambda>_. True) (\<lambda>_. True)
     (hts_sign_and_pay w y (hts_key w (hp_requestId input)) input cred' endpoint expires required accepted)
     (hts_recorded w input)"
  unfolding hts_sign_and_pay_def Let_def case_prod_unfold
  by (rule triple_true_bind dispatch_recorded [OF _ assms])+ simp

lemma new_purchase_recorded:
  assumes "validateInput w v cred = Inr input"
  shows "triple (\<lambda>_. True) (\<lambda>_. True) (\<lambda>_. True)
     (hts_new_purchase w y (hts_key w (hp_requestId input)) input cred') (hts_recorded w input)"
  unfolding hts_new_purchase_def Let_def case_prod_unfold
  by (rule triple_true_bind sign_and_pay_recorded [OF assms])+

lemma purchase_recorded:
  "triple (\<lambda>_. True) (\<lambda>_. True) (\<lambda>_. True) (purchaseHtsRepositories w y v cred)
     (\<lambda>r m. case validateInput w v cred of Inr input \<Rightarrow> hts_recorded w input r m | _ \<Rightarrow> False)"
  unfolding purchaseHtsRepositories_def Let_def
proof (rule triple_lift_then)
  fix input
  assume v: "validateInput w v cred = Inr input"
  let ?k = "hts_key w (hp_requestId input)"
  have "triple (\<lambda>_. True) (\<lambda>_. True) (\<lambda>_. True)
      (bindP (readJournal e ?k) (\<lambda>previous. case previous of
          Some f \<Rightarrow> if hi_fingerprint f \<noteq> hts_fingerprint w input then throwP e' else recover w y ?k f input
        | None \<Rightarrow> hts_new_purchase w y ?k input cred))
      (hts_recorded w input)" for e e'
    by (intro triple_bind [OF triple_readJournal] lock_free_true)
      (auto intro!: triple_throw new_purchase_recorded [OF v, THEN triple_pre] recover_recorded [OF v, THEN triple_pre]
        split: option.split)
  then show "triple (\<lambda>_. True) (\<lambda>_. True) (\<lambda>_. True)
      (bindP (takeOpLock (Err ''Another process owns this operation lock.'') ?k)
        (\<lambda>_. finallyP (bindP (readJournal (Thrown ''SyntaxError'') ?k) (\<lambda>previous. case previous of
            Some f \<Rightarrow> if hi_fingerprint f \<noteq> hts_fingerprint w input
              then throwP (Err ''HTS request identity was reused with different terms.'') else recover w y ?k f input
          | None \<Rightarrow> hts_new_purchase w y ?k input cred)) (dropOpLock ?k)))
      (\<lambda>r m. case validateInput w v cred of Inr input \<Rightarrow> hts_recorded w input r m | _ \<Rightarrow> False)"
    unfolding v sum.case by (rule triple_locked) (simp_all add: lock_free_true lock_free_recorded)
qed simp_all

text \<open>
  C3. A result the token buyer returns, from a new purchase or from recovery, is within the
  mandate it was asked for: the units are the repositories, one credit each, at most the approved
  maximum and never more than three; the settlement is the payer's and names the transfer; the
  evidence passes its check; and the journal of the request holds this transfer and a result.
\<close>

theorem hts_result_within_mandate:
  "case purchaseHtsRepositories w y v cred m of
     (Ret r, m') \<Rightarrow> (case validateInput w v cred of Inr input \<Rightarrow> hts_recorded w input r m' | Inl _ \<Rightarrow> False)
   | _ \<Rightarrow> True"
  using purchase_recorded [of w y v cred, unfolded triple_def, rule_format, of m]
  by (auto split: prod.splits outcome.splits sum.splits)

section \<open>Recovery only reads\<close>

text \<open>
  C4. Once a request has a journal, no run with it pays: nothing is dispatched, and no other
  journal changes, whatever the run does and wherever it stops.
\<close>

theorem hts_recovery_never_pays:
  fixes m :: "(hts_intent, 'c) machine"
  shows "case validateInput w v cred of
     Inl _ \<Rightarrow> True
   | Inr input \<Rightarrow>
       if journal m (hts_key w (hp_requestId input)) = Absent then True
       else (let m' = snd (purchaseHtsRepositories w y v cred m)
         in submits m' = submits m \<and> (\<forall>k. k = hts_key w (hp_requestId input) \<or> journal m' k = journal m k))"
proof (cases "validateInput w v cred")
  case (Inr input)
  let ?k = "hts_key w (hp_requestId input)"
  define same where "same m' \<longleftrightarrow> journal m ?k \<noteq> Absent \<and> (journal m' ?k = Absent \<longrightarrow> False) \<and> submits m' = submits m \<and>
      (\<forall>k. k = ?k \<or> journal m' k = journal m k)" for m' :: "(hts_intent, 'c) machine"
  have st: "lock_free same" by (simp add: lock_free_def stable_def same_def)
  then have st': "stable same" by (simp add: lock_free_def)
  have save: "triple same same same (saveJournal ?k f) (\<lambda>_. same)" for f
    by (rule triple_saveJournal) (auto simp: same_def)
  have rec: "triple same same same (recover w y ?k f input) (\<lambda>_. same)" for f
    unfolding recover_def Let_def
    by (auto intro!: triple_throw triple_lift_then triple_ret hts_reads [THEN triple_then] triple_then [OF save] st'
        split: option.split prod.split)
  have absent: "triple same same (\<lambda>m'. same m' \<and> journal m' ?k = Absent) p (\<lambda>_. same)" for p :: "('c, hts_result) hts_prog"
    by (rule triple_pre [OF triple_false]) (auto simp: same_def)
  have "triple same same same (purchaseHtsRepositories w y v cred) (\<lambda>_. same)"
    unfolding purchaseHtsRepositories_def Let_def Inr
    by (intro triple_lift_then triple_locked triple_bind [OF triple_readJournal] st st')
      (auto intro!: triple_throw absent rec [THEN triple_pre] split: option.split)
  then have "same m \<longrightarrow> same (snd (purchaseHtsRepositories w y v cred m))"
    by (cases "purchaseHtsRepositories w y v cred m"; cases "fst (purchaseHtsRepositories w y v cred m)") (auto dest: tripleD)
  then show ?thesis by (auto simp: Inr same_def Let_def)
qed simp

end
