(* ===== verification/A2ABuyer.thy ===== *)
theory A2ABuyer
  imports HederaPurchase Commerce
begin

text \<open>
  The private buyer of an A2A seller, \<open>src/scripts/hedera-a2a-buyer.ts\<close>: one negotiation
  and one purchase per operation name. The operation's journal is created exclusively before the
  seller is contacted and holds the accepted offer before anything is paid.

  The buyer keeps two directories: its own operation journals, and the purchase journals of
  \<open>purchaseHederaData\<close>. The second is a machine of its own, the \<open>outside\<close> of the
  first; \<open>embed\<close> runs a program of the inner machine under the budget of the outer one.

  The first part of the proofs shows that an operation purchases once and within the broker's cap. The
  second adds a ghost to the outside, the list of what was posted to sellers with their answers, and
  shows that every purchase has its offer and its acceptance there.
\<close>

section \<open>Two directories\<close>

definition embed :: "('s, 'c, 'a) prog \<Rightarrow> ('b, ('s, 'c) machine, 'a) prog" where
  "embed p m = (let (r, h) = p ((outside m)\<lparr>budget := budget m\<rparr>) in (r, m\<lparr>outside := h, budget := budget h\<rparr>))"

text \<open>A call from the outer program to what lies outside both directories.\<close>

definition farP :: "('c \<Rightarrow> 'a res \<times> 'c) \<Rightarrow> ('b, ('s, 'c) machine, 'a) prog" where
  "farP g = callP (\<lambda>h. let (r, u) = g (outside h) in (r, h\<lparr>outside := u\<rparr>))"

section \<open>Data\<close>

record 'c buyer_ext = "'c hedera_ext" +
  ab_get :: "string \<Rightarrow> 'c \<Rightarrow> http_response res \<times> 'c"
  ab_post :: "string \<Rightarrow> json \<Rightarrow> 'c \<Rightarrow> http_response res \<times> 'c"
  ab_secrets :: "'c \<Rightarrow> hedera_credentials res \<times> 'c"

record buyer_intent =
  bi_operation :: string
  bi_provider :: string
  bi_max :: int
  bi_mandateExpires :: string
  bi_repos :: "string list"
  bi_endpoint :: string
  bi_resourceBase :: string
  bi_payTo :: string

datatype buyer_file =
    Negotiating (bf_fingerprint: string) buyer_intent
  | Accepted (bf_fingerprint: string) buyer_intent a2a_offer json
  | Completed (bf_fingerprint: string) buyer_intent a2a_offer offer_purchase json

type_synonym ('c, 'a) buyer_prog = "(buyer_file, (purchase_file, 'c) machine, 'a) prog"

definition intent_fields :: "buyer_intent \<Rightarrow> json" where
  "intent_fields b = JObj
     [(''operation'', JStr (bi_operation b)), (''providerId'', JStr (bi_provider b)), (''maxAmountAtomic'', int_json (bi_max b)),
      (''mandateExpiresAt'', JStr (bi_mandateExpires b)), (''repos'', repos_json (bi_repos b)),
      (''endpoint'', JStr (bi_endpoint b)), (''resourceBase'', JStr (bi_resourceBase b)), (''payTo'', JStr (bi_payTo b))]"

definition buyer_fingerprint :: "web \<Rightarrow> buyer_intent \<Rightarrow> string" where
  "buyer_fingerprint w b = sha256 w (stringify (intent_fields b))"

section \<open>Arguments and allowance\<close>

definition is_operation :: "string \<Rightarrow> bool" where
  "is_operation s \<longleftrightarrow> s \<noteq> [] \<and> length s \<le> 100 \<and> list_all is_ident_char s"

text \<open>\<open>args[i]\<close>, and \<open>args[i] ?? ""\<close>.\<close>

definition arg :: "string list \<Rightarrow> nat \<Rightarrow> string option" where
  "arg args i = (if i < length args then Some (args ! i) else None)"

definition arg_or :: "string list \<Rightarrow> nat \<Rightarrow> string" where
  "arg_or args i = (case arg args i of Some s \<Rightarrow> s | None \<Rightarrow> [])"

definition usage_error :: js_error where
  "usage_error = Err ''Usage: hedera-a2a-buyer.ts OPERATION PROVIDER MAX_TINYBAR MANDATE_EXPIRY REPO [REPO ...]''"

definition args_ok :: "string list \<Rightarrow> bool" where
  "args_ok args \<longleftrightarrow>
     is_operation (arg_or args 0) \<and> arg_or args 1 \<in> set provider_ids \<and>
     arg_or args 2 \<noteq> [] \<and> list_all is_digit (arg_or args 2) \<and>
     safe_int (dec_int (arg_or args 2)) \<and> 1 \<le> dec_int (arg_or args 2)"

definition broker_cap :: "web \<Rightarrow> (string \<Rightarrow> string option) \<Rightarrow> jsnum" where
  "broker_cap w env = js_Number w (Some (case env ''BROKER_MAX_DATA_ATOMIC'' of Some s \<Rightarrow> JStr s | None \<Rightarrow> int_json 0))"

definition allowance_ok :: "web \<Rightarrow> (string \<Rightarrow> string option) \<Rightarrow> string \<Rightarrow> int \<Rightarrow> bool" where
  "allowance_ok w env provider amount \<longleftrightarrow>
     is_account (env_or env ''HEDERA_PAY_TO'' []) \<and> is_safe_integer (broker_cap w env) \<and>
     1 \<le> num_int (broker_cap w env) \<and> amount \<le> num_int (broker_cap w env) \<and>
     provider \<in> set (split_on (CHR '','') (env_or env ''BROKER_ALLOWED_PROVIDERS'' []))"

text \<open>The intent of the arguments, and the URL the card is fetched from.\<close>

definition buyer_setup ::
    "web \<Rightarrow> 'c buyer_ext \<Rightarrow> (string \<Rightarrow> string option) \<Rightarrow> string list \<Rightarrow> ('c, buyer_intent \<times> url) buyer_prog" where
  "buyer_setup w y env args =
     bindP (needP (args_ok args) usage_error) (\<lambda>_.
     bindP (farP (he_now y)) (\<lambda>now.
     let expiry = parse_date_of w (map_option JStr (arg args 3))
     in bindP (needP (\<not> date_le expiry (Some now) \<and> expiry \<noteq> None) usage_error) (\<lambda>_.
        bindP (liftP (validateRepos (repos_json (drop 4 args)))) (\<lambda>repos.
        bindP (liftP (trustedBase w (env_or env ''DATA_SERVICE_URL'' []))) (\<lambda>resource.
        bindP (liftP (trustedBase w (env_or env ''A2A_PUBLIC_URL'' []))) (\<lambda>base.
        bindP (liftP (url_or_throw (resolve_url w ''api/hedera/a2a'' base))) (\<lambda>endpoint.
        bindP (needP (allowance_ok w env (arg_or args 1) (dec_int (arg_or args 2)))
          (Err ''Purchase exceeds configured private broker allowance.'')) (\<lambda>_.
          retP (\<lparr>bi_operation = arg_or args 0, bi_provider = arg_or args 1, bi_max = dec_int (arg_or args 2),
             bi_mandateExpires = arg_or args 3, bi_repos = repos, bi_endpoint = href endpoint,
             bi_resourceBase = href resource, bi_payTo = env_or env ''HEDERA_PAY_TO'' []\<rparr>, base)))))))))"

text \<open>An operation that has a journal: its proof when it is complete, otherwise an error.\<close>

definition earlier_buyer :: "buyer_file \<Rightarrow> string \<Rightarrow> json res" where
  "earlier_buyer f fp =
     (if bf_fingerprint f \<noteq> fp then Inl (Err ''Operation belongs to another intent.'')
      else case f of
        Completed _ _ _ _ proof \<Rightarrow> Inr proof
      | _ \<Rightarrow> Inl (Err ''Operation was already started; reconcile the existing payment identity before retrying.''))"

section \<open>The seller\<close>

definition has_substring :: "string \<Rightarrow> string \<Rightarrow> bool" where
  "has_substring p s = list_ex (\<lambda>i. take (length p) (drop i s) = p) [0..<Suc (length s)]"

text \<open>\<open>card.capabilities?.extensions?.some(...)\<close> and
  \<open>card.defaultOutputModes?.includes("application/json")\<close>.\<close>

definition card_extends :: "json \<Rightarrow> bool res" where
  "card_extends v = (case Option.bind (fld v ''capabilities'') (\<lambda>c. fld c ''extensions'') of
     None \<Rightarrow> Inr False | Some JNull \<Rightarrow> Inr False
   | Some (JArr es) \<Rightarrow> some_row (\<lambda>e. Inr (fstr e ''uri'' = Some A2A_EXTENSION)) es
   | Some _ \<Rightarrow> Inl (Thrown ''TypeError''))"

definition card_outputs :: "json \<Rightarrow> bool res" where
  "card_outputs v = (case fld v ''defaultOutputModes'' of
     None \<Rightarrow> Inr False | Some JNull \<Rightarrow> Inr False
   | Some (JArr ms) \<Rightarrow> Inr (JStr ''application/json'' \<in> set ms)
   | Some (JStr s) \<Rightarrow> Inr (has_substring ''application/json'' s)
   | Some _ \<Rightarrow> Inl (Thrown ''TypeError''))"

definition check_card :: "json \<Rightarrow> string \<Rightarrow> unit res" where
  "check_card v endpoint =
     (let e = Err ''Seller Agent Card differs from pinned A2A service.''
      in bindR (need (v \<noteq> JNull) (Thrown ''TypeError'')) (\<lambda>_.
         bindR (need (fstr v ''protocolVersion'' = Some ''0.3.0'' \<and> fstr v ''preferredTransport'' = Some ''JSONRPC'' \<and>
           fstr v ''url'' = Some endpoint) e) (\<lambda>_.
         bindR (card_extends v) (\<lambda>b. bindR (need b e) (\<lambda>_.
         bindR (card_outputs v) (\<lambda>b'. need b' e))))))"

definition proposal_json :: "buyer_intent \<Rightarrow> string \<Rightarrow> json" where
  "proposal_json b payer = JObj
     [(''action'', JStr ''propose''), (''payer'', JStr payer), (''requestId'', JStr (bi_operation b)),
      (''providerId'', JStr (bi_provider b)), (''repos'', repos_json (bi_repos b)), (''maxAmountAtomic'', int_json (bi_max b)),
      (''mandateExpiresAt'', JStr (bi_mandateExpires b))]"

definition acceptance_json :: "buyer_intent \<Rightarrow> string \<Rightarrow> string \<Rightarrow> json" where
  "acceptance_json b payer token = JObj
     [(''action'', JStr ''accept''), (''payer'', JStr payer), (''requestId'', JStr (bi_operation b)), (''offerToken'', JStr token)]"

text \<open>\<open>contextId ? ... : ...\<close>: an empty context counts as none.\<close>

definition message_id :: "buyer_intent \<Rightarrow> string \<Rightarrow> string" where
  "message_id b context_id = bi_operation b @ ''-'' @ (if context_id \<noteq> [] then ''accept'' else ''propose'')"

definition send_envelope :: "buyer_intent \<Rightarrow> json \<Rightarrow> string \<Rightarrow> json" where
  "send_envelope b data context_id = JObj
     [(''jsonrpc'', JStr ''2.0''), (''id'', JStr (message_id b context_id)), (''method'', JStr ''message/send''),
      (''params'', JObj [(''message'', JObj
        ([(''kind'', JStr ''message''), (''role'', JStr ''user''), (''messageId'', JStr (message_id b context_id)),
          (''parts'', JArr [JObj [(''kind'', JStr ''data''), (''data'', data)]]), (''extensions'', JArr [JStr A2A_EXTENSION])] @
         (if context_id \<noteq> [] then [(''contextId'', JStr context_id)] else [])))])]"

text \<open>The data part of a well-formed reply to the message with this id.\<close>

definition reply_data :: "json \<Rightarrow> string \<Rightarrow> json option res" where
  "reply_data v i =
     (let e = Err ''Invalid A2A response.''; r = (case fld v ''result'' of Some x \<Rightarrow> x | None \<Rightarrow> JNull)
      in bindR (need (v \<noteq> JNull) (Thrown ''TypeError'')) (\<lambda>_.
         bindR (need (fstr v ''jsonrpc'' = Some ''2.0'' \<and> fstr v ''id'' = Some i \<and> \<not> truthy (fld v ''error'') \<and>
           fstr r ''kind'' = Some ''message'' \<and> fstr r ''role'' = Some ''agent'') e) (\<lambda>_.
         bindR (of_opt e (only_element (fld r ''parts''))) (\<lambda>a.
         bindR (of_opt (Thrown ''TypeError'') (check (\<lambda>p. p \<noteq> JNull) a)) (\<lambda>p.
         bindR (need (fstr p ''kind'' = Some ''data'') e) (\<lambda>_. Inr (fld p ''data'')))))))"

definition send :: "'c buyer_ext \<Rightarrow> buyer_intent \<Rightarrow> json \<Rightarrow> string \<Rightarrow> ('c, json) buyer_prog" where
  "send y b data context_id =
     bindP (farP (ab_post y (bi_endpoint b) (send_envelope b data context_id))) (\<lambda>r.
     bindP (needP (hr_ok r) (Err ''A2A seller unavailable.'')) (\<lambda>_.
     bindP (liftP (hr_body r)) (\<lambda>v.
     bindP (liftP (reply_data v (message_id b context_id))) (\<lambda>d.
       liftP (of_opt (Thrown ''TypeError'') (check (\<lambda>p. p \<noteq> JNull) d))))))"

text \<open>The offer's times are compared with the clock at two places.\<close>

definition check_offer ::
    "web \<Rightarrow> 'c buyer_ext \<Rightarrow> buyer_intent \<Rightarrow> json \<Rightarrow> json \<Rightarrow> ('c, a2a_offer) buyer_prog" where
  "check_offer w y b proposal v =
     bindP (farP (he_now y)) (\<lambda>n0. bindP (farP (he_now y)) (\<lambda>n1.
       liftP (validateSellerOffer w (\<lambda>i. if i = 0 then n0 else n1) v proposal (bi_resourceBase b) (bi_payTo b))))"

section \<open>The operation\<close>

definition public_proof :: "offer_purchase \<Rightarrow> json" where
  "public_proof r =
     (let c = op_receipt r
      in JObj ([(''offerId'', JStr (op_offerId r)), (''contextId'', JStr (op_contextId r)), (''payer'', JStr (op_payer r)),
           (''resourceUrl'', JStr (op_resourceUrl r)), (''network'', JStr (pr_network c)), (''asset'', JStr (pr_asset c)),
           (''amountAtomic'', int_json (pr_amount c)), (''units'', int_json (pr_units c))] @
          copied ''transactionId'' (map_option JStr (pr_transaction c)) @ copied ''explorerUrl'' (map_option JStr (pr_explorer c))))"

text \<open>The accepted offer is on disk; it is paid and the proof is written.\<close>

definition buy_offer ::
    "web \<Rightarrow> 'c buyer_ext \<Rightarrow> (string \<Rightarrow> string option) \<Rightarrow> buyer_intent \<Rightarrow> hedera_credentials \<Rightarrow> a2a_offer \<Rightarrow> ('c, json) buyer_prog" where
  "buy_offer w y env b cred offer =
     bindP (noteSubmit (bi_operation b) \<lparr>oi_kind = ''a2a'', oi_args = [ao_id offer]\<rparr>) (\<lambda>_.
     bindP (embed (purchaseAcceptedOffer w (hedera_ext.truncate y)
         (\<lambda>d c. purchaseHederaData w (hedera_ext.truncate y) env d (Some c)) offer cred (bi_resourceBase b))) (\<lambda>res.
     let proof = public_proof res
     in bindP (saveJournal (bi_operation b) (Completed (buyer_fingerprint w b) b offer res proof)) (\<lambda>_. retP proof)))"

text \<open>The negotiation of a new operation.\<close>

definition negotiate ::
    "web \<Rightarrow> 'c buyer_ext \<Rightarrow> (string \<Rightarrow> string option) \<Rightarrow> buyer_intent \<Rightarrow> url \<Rightarrow> ('c, json) buyer_prog" where
  "negotiate w y env b base =
     bindP (createJournal (Thrown ''EEXIST'') (bi_operation b) (Negotiating (buyer_fingerprint w b) b)) (\<lambda>_.
     bindP (liftP (url_or_throw (resolve_url w ''.well-known/agent-card.json'' base))) (\<lambda>cu.
     bindP (farP (ab_get y (href cu))) (\<lambda>r.
     bindP (needP (hr_ok r) (Err ''Seller Agent Card unavailable.'')) (\<lambda>_.
     bindP (liftP (bindR (hr_body r) (\<lambda>v. check_card v (bi_endpoint b)))) (\<lambda>_.
     bindP (farP (ab_secrets y)) (\<lambda>cred.
     let proposal = proposal_json b (hc_account cred)
     in bindP (send y b proposal []) (\<lambda>response.
        bindP (needP (fstr response ''action'' = Some ''offer'')
          (Err ''Seller counteroffer requires a new explicit mandate; no payment attempted.'')) (\<lambda>_.
        bindP (check_offer w y b proposal response) (\<lambda>offer.
        bindP (send y b (acceptance_json b (hc_account cred) (ao_token offer)) (of_context offer)) (\<lambda>acceptance.
        bindP (needP (fstr acceptance ''action'' = Some ''accepted'' \<and> fstr acceptance ''offerToken'' = Some (ao_token offer) \<and>
            fstr acceptance ''offerId'' = Some (ao_id offer)) (Err ''Seller did not accept the same offer.'')) (\<lambda>_.
        bindP (check_offer w y b proposal acceptance) (\<lambda>_.
        bindP (saveJournal (bi_operation b) (Accepted (buyer_fingerprint w b) b offer acceptance)) (\<lambda>_.
          buy_offer w y env b cred offer)))))))))))))"

definition runA2ABuyer ::
    "web \<Rightarrow> 'c buyer_ext \<Rightarrow> (string \<Rightarrow> string option) \<Rightarrow> string list \<Rightarrow> ('c, json) buyer_prog" where
  "runA2ABuyer w y env args =
     bindP (buyer_setup w y env args) (\<lambda>(b, base).
     bindP (readJournal (Thrown ''SyntaxError'') (bi_operation b)) (\<lambda>old.
       case old of
         Some f \<Rightarrow> liftP (earlier_buyer f (buyer_fingerprint w b))
       | None \<Rightarrow> negotiate w y env b base))"

section \<open>Rules for the two directories\<close>

text \<open>What calls from the outer program cannot change.\<close>

definition calm :: "(('b, ('s, 'c) machine) machine \<Rightarrow> bool) \<Rightarrow> bool" where
  "calm P \<longleftrightarrow> (\<forall>m n u. P m \<longrightarrow> P (m\<lparr>budget := n\<rparr>) \<and> P (m\<lparr>outside := (outside m)\<lparr>outside := u\<rparr>\<rparr>))"

lemma nested_simps [simp]:
  "outside ((m :: ('b, ('s, 'c) machine) machine)\<lparr>budget := n\<rparr>) = outside m"
  "outside ((m :: ('b, ('s, 'c) machine) machine)\<lparr>outside := h\<rparr>) = h"
  by (cases m; simp)+

lemma nested_restart: "outside (restart n (m :: ('b, ('s, 'c) machine) machine)) = outside m"
  by (cases m) (simp add: restart_def)

lemma nested_empty: "outside (empty_machine (h :: ('s, 'c) machine)) = h"
  by (simp add: empty_machine_def)

lemma calmD: "calm P \<Longrightarrow> P m \<Longrightarrow> P (m\<lparr>budget := n\<rparr>)"
    "calm P \<Longrightarrow> P m \<Longrightarrow> P (m\<lparr>outside := (outside m)\<lparr>outside := u\<rparr>\<rparr>)"
  by (simp_all add: calm_def)

lemma calm_stable: "stable P \<Longrightarrow> calm P"
  by (simp add: calm_def stable_def)

lemma calm_inner: "stable J \<Longrightarrow> calm (\<lambda>m. J (outside m))"
  by (simp add: calm_def stable_def)

lemma triple_far:
  assumes "calm P" "\<And>m. P m \<Longrightarrow> I m" "\<And>m. P m \<Longrightarrow> E m"
  shows "triple I E P (farP g) (\<lambda>_. P)"
  unfolding farP_def callP_def
proof (rule triple_bind [where R = "\<lambda>_. P"], rule triple_effect)
  fix m n a m'
  assume "P m" "(let (r, v) = let (r, u) = g (outside (outside (m\<lparr>budget := n\<rparr>))) in (r, outside (m\<lparr>budget := n\<rparr>)\<lparr>outside := u\<rparr>)
      in (r, m\<lparr>budget := n\<rparr>\<lparr>outside := v\<rparr>)) = (a, m')"
  then obtain u where "m' = (m\<lparr>budget := n\<rparr>)\<lparr>outside := (outside (m\<lparr>budget := n\<rparr>))\<lparr>outside := u\<rparr>\<rparr>"
    by (auto simp: Let_def split: prod.splits)
  then show "P m'" using calmD [OF assms(1)] \<open>P m\<close> by metis
qed (auto intro: triple_lift assms)

lemma triple_far_then:
  "calm P \<Longrightarrow> (\<And>m. P m \<Longrightarrow> I m) \<Longrightarrow> (\<And>m. P m \<Longrightarrow> E m) \<Longrightarrow> (\<And>a. triple I E P (f a) Q) \<Longrightarrow>
    triple I E P (bindP (farP g) f) Q"
  by (rule triple_then [OF triple_far])

lemma triple_embed_keep:
  assumes "stable P" "\<And>m. P m \<Longrightarrow> I m" "\<And>m. P m \<Longrightarrow> E m"
  shows "triple I E P (embed p) (\<lambda>_. P)"
proof -
  have k: "P m \<Longrightarrow> P (m\<lparr>outside := h, budget := n\<rparr>)" for m h n
    using assms(1) unfolding stable_def by blast
  show ?thesis
    unfolding triple_def embed_def Let_def
    by (auto simp: assms k split: prod.split outcome.split)
qed

lemma triple_embed:
  assumes "triple J J J p (\<lambda>_. J)" "stable J"
  shows "triple (\<lambda>m. J (outside m)) (\<lambda>m. J (outside m)) (\<lambda>m. J (outside m)) (embed p) (\<lambda>_ m. J (outside m))"
  unfolding triple_def
proof (intro allI impI)
  fix m :: "('d, ('a, 'b) machine) machine"
  assume "J (outside m)"
  then have j: "J ((outside m)\<lparr>budget := budget m\<rparr>)" using assms(2) by (simp add: stable_def)
  obtain r h where p: "p ((outside m)\<lparr>budget := budget m\<rparr>) = (r, h)" by (cases "p ((outside m)\<lparr>budget := budget m\<rparr>)")
  have "J h" using tripleD [OF assms(1) j] p by (cases r) auto
  then show "case embed p m of (Ret a, m') \<Rightarrow> J (outside m') | (Throw e, m') \<Rightarrow> J (outside m') | (Died, m') \<Rightarrow> J (outside m')"
    by (cases r) (simp_all add: embed_def p Let_def)
qed

text \<open>The outer journals and the ghost trace say nothing of the inner directory.\<close>

lemma triple_inner_saves:
  "triple (\<lambda>m. J (outside m)) (\<lambda>m. J (outside m)) (\<lambda>m. J (outside m)) (saveJournal k s) (\<lambda>_ m. J (outside m))"
  "triple (\<lambda>m. J (outside m)) (\<lambda>m. J (outside m)) (\<lambda>m. J (outside m)) (createJournal e k s) (\<lambda>_ m. J (outside m))"
  "triple (\<lambda>m. J (outside m)) (\<lambda>m. J (outside m)) (\<lambda>m. J (outside m)) (noteSubmit k i) (\<lambda>_ m. J (outside m))"
  "triple (\<lambda>m. J (outside m)) (\<lambda>m. J (outside m)) (\<lambda>m. J (outside m)) (readJournal e k) (\<lambda>_ m. J (outside m))"
proof -
  show save: "triple (\<lambda>m. J (outside m)) (\<lambda>m. J (outside m)) (\<lambda>m. J (outside m)) (saveJournal k s) (\<lambda>_ m. J (outside m))"
    by (rule triple_saveJournal) simp_all
  have "triple (\<lambda>m. J (outside m)) (\<lambda>m. J (outside m)) (\<lambda>m. J (outside m)) (effect (\<lambda>m. (journal m k \<noteq> Absent,
      if journal m k = Absent then m\<lparr>journal := (journal m)(k := Corrupt)\<rparr> else m))) (\<lambda>_ m. J (outside m))"
    by (rule triple_effect) (auto split: if_splits)
  then show "triple (\<lambda>m. J (outside m)) (\<lambda>m. J (outside m)) (\<lambda>m. J (outside m)) (createJournal e k s) (\<lambda>_ m. J (outside m))"
    unfolding createJournal_def by (intro triple_then triple_need_then save) simp_all
  show "triple (\<lambda>m. J (outside m)) (\<lambda>m. J (outside m)) (\<lambda>m. J (outside m)) (noteSubmit k i) (\<lambda>_ m. J (outside m))"
    by (rule triple_noteSubmit) simp
  show "triple (\<lambda>m. J (outside m)) (\<lambda>m. J (outside m)) (\<lambda>m. J (outside m)) (readJournal e k) (\<lambda>_ m. J (outside m))"
    unfolding readJournal_def
    by (rule triple_bind [where R = "\<lambda>_ m. J (outside m)"], rule triple_effect) (auto intro: triple_lift)
qed

lemma triple_send:
  "calm P \<Longrightarrow> (\<And>m. P m \<Longrightarrow> I m) \<Longrightarrow> (\<And>m. P m \<Longrightarrow> E m) \<Longrightarrow> triple I E P (send y b d c) (\<lambda>_. P)"
  unfolding send_def by (intro triple_far_then triple_need_then triple_lift_then triple_lift)

lemma triple_check_offer:
  "calm P \<Longrightarrow> (\<And>m. P m \<Longrightarrow> I m) \<Longrightarrow> (\<And>m. P m \<Longrightarrow> E m) \<Longrightarrow>
    triple I E P (check_offer w y b prop v)
      (\<lambda>ao m. P m \<and> (\<exists>now. validateSellerOffer w now v prop (bi_resourceBase b) (bi_payTo b) = Inr ao))"
  unfolding check_offer_def by (intro triple_far_then triple_lift) auto

lemma triple_pure_exists: "(\<And>n. X n \<Longrightarrow> triple I E P p Q) \<Longrightarrow> triple I E (\<lambda>m. P m \<and> (\<exists>n. X n)) p Q"
  by (cases "\<exists>n. X n") (auto intro: triple_pre [OF triple_false])

lemma triple_check_offer_then:
  "calm P \<Longrightarrow> (\<And>m. P m \<Longrightarrow> I m) \<Longrightarrow> (\<And>m. P m \<Longrightarrow> E m) \<Longrightarrow>
    (\<And>ao now. validateSellerOffer w now v prop (bi_resourceBase b) (bi_payTo b) = Inr ao \<Longrightarrow> triple I E P (f ao) Q) \<Longrightarrow>
    triple I E P (bindP (check_offer w y b prop v) f) Q"
  by (rule triple_bind [OF triple_check_offer]) (auto intro: triple_pure_exists)

lemma triple_setup_then:
  assumes "calm P" "\<And>m. P m \<Longrightarrow> I m" "\<And>m. P m \<Longrightarrow> E m"
    and "\<And>b base. allowance_ok w env (bi_provider b) (bi_max b) \<Longrightarrow> triple I E P (f (b, base)) Q"
  shows "triple I E P (bindP (buyer_setup w y env args) f) Q"
proof -
  have "triple I E P (buyer_setup w y env args) (\<lambda>(b, base) m. P m \<and> allowance_ok w env (bi_provider b) (bi_max b))"
    unfolding buyer_setup_def Let_def
    by (intro triple_need_then triple_far_then triple_lift_then triple_ret) (auto simp: assms)
  then show ?thesis
    by (rule triple_bind) (use assms(4) in \<open>auto simp: triple_def split: prod.splits\<close>)
qed

section \<open>One negotiation and one purchase per operation\<close>

fun bought_offer :: "buyer_file \<Rightarrow> string option" where
  "bought_offer (Negotiating _ _) = None"
| "bought_offer (Accepted _ _ ao _) = Some (ao_id ao)"
| "bought_offer (Completed _ _ ao _ _) = Some (ao_id ao)"

abbreviation buyer_ok :: "(buyer_file, 'd) machine \<Rightarrow> bool" where
  "buyer_ok \<equiv> dispatch_ok bought_offer ''a2a''"

lemmas calm_dispatch = stable_dispatch [THEN calm_stable]

lemma negotiate_once:
  "triple buyer_ok buyer_ok buyer_ok (negotiate w y env b base) (\<lambda>_. buyer_ok)"
proof -
  have buy: "triple buyer_ok buyer_ok (signed_unpaid bought_offer ''a2a'' (bi_operation b) (ao_id ao))
      (buy_offer w y env b cred ao) (\<lambda>_. buyer_ok)" for cred ao
    unfolding buy_offer_def Let_def
    by (intro triple_bind [OF note_pays] triple_then [OF triple_embed_keep] triple_then [OF saveJournal_later] triple_ret) auto
  show ?thesis
    unfolding negotiate_def Let_def
    by (intro triple_bind [OF createJournal_unpaid] triple_lift_then triple_far_then triple_need_then calm_dispatch
        triple_then [OF triple_send] triple_check_offer_then triple_bind [OF saveJournal_signed])
      (auto intro: buy)
qed

lemma buyer_once:
  "triple buyer_ok buyer_ok buyer_ok (runA2ABuyer w y env args) (\<lambda>_. buyer_ok)"
  unfolding runA2ABuyer_def
  by (intro triple_setup_then calm_dispatch)
    (auto intro!: triple_then [OF triple_readJournal_keep] triple_lift negotiate_once split: option.split)

text \<open>A buyer's directories over time: one configuration, any arguments, any crash points.\<close>

definition after_buyer ::
    "web \<Rightarrow> 'c buyer_ext \<Rightarrow> (string \<Rightarrow> string option) \<Rightarrow> (nat \<times> string list) list \<Rightarrow> 'c \<Rightarrow>
      (buyer_file, (purchase_file, 'c) machine) machine" where
  "after_buyer w y env runs u =
     run_all (map (\<lambda>(n, args). (n, runA2ABuyer w y env args)) runs) (empty_machine (empty_machine u))"

text \<open>
  C6. An operation name stands for one purchase: after any sequence of runs, each of which may
  die between any two effects, the purchase of an offer was begun at most once for an operation,
  and the offer is the one the operation's journal records as accepted.
\<close>

theorem buyer_purchases_once:
  "case submits_of operation (after_buyer w y env runs u) of
     [] \<Rightarrow> True
   | s # ss \<Rightarrow> ss = [] \<and> (case journal (after_buyer w y env runs u) operation of
       Stored f \<Rightarrow> (\<exists>i. bought_offer f = Some i \<and> s = \<lparr>oi_kind = ''a2a'', oi_args = [i]\<rparr>)
     | _ \<Rightarrow> False)"
proof -
  have "buyer_ok (after_buyer w y env runs u)"
    unfolding after_buyer_def by (rule run_all_triple) (auto intro: buyer_once)
  then show ?thesis by (auto simp: dispatch_ok_def dest: spec [of _ operation] split: list.split)
qed

section \<open>Payments within the broker's cap\<close>

lemma offer_within_proposal:
  assumes "validateSellerOffer w now v (proposal_json b payer) base pay = Inr ao"
  shows "of_max ao = bi_max b"
proof -
  obtain q p t where q: "p_proposal (proposal_json b payer) = Some q" and ao: "ao = as_offer w p t" "of_max p = ap_max q"
    using assms by (auto simp: validateSellerOffer_def bindR_eq_Inr Let_def)
  have "ap_max q = bi_max b"
    using q by (auto simp: p_proposal_def bind_eq_Some_conv proposal_json_def p_atomic_def as_int_def int_json_def split: if_splits)
  then show ?thesis by (simp add: ao as_offer_def Let_def offer_payload.defs)
qed

definition capped :: "web \<Rightarrow> (string \<Rightarrow> string option) \<Rightarrow> string \<Rightarrow> purchase_file \<Rightarrow> bool" where
  "capped w env k f \<longleftrightarrow> within_mandate w k f \<and> file_amount f \<le> num_int (broker_cap w env)"

abbreviation payments_ok :: "web \<Rightarrow> (string \<Rightarrow> string option) \<Rightarrow> (purchase_file, 'c) machine \<Rightarrow> bool" where
  "payments_ok w env m \<equiv> files_ok (capped w env) m \<and> paid_ok m"

lemma triple_both:
  assumes "triple I I I p (\<lambda>_. I)" "triple J J J p (\<lambda>_. J)"
  shows "triple (\<lambda>m. I m \<and> J m) (\<lambda>m. I m \<and> J m) (\<lambda>m. I m \<and> J m) p (\<lambda>_ m. I m \<and> J m)"
  using assms unfolding triple_def by (fastforce split: prod.splits outcome.splits)

lemma purchase_capped:
  assumes "of_max ao = bi_max b" "bi_max b \<le> num_int (broker_cap w env)"
  shows "triple (payments_ok w env) (payments_ok w env) (payments_ok w env)
     (purchaseHederaData w y env (offer_input ao) cred) (\<lambda>_. payments_ok w env)"
proof (rule triple_both [OF purchase_files purchase_once])
  fix f assume f: "for_input w (offer_input ao) f"
  then have "within_mandate w (journal_key w (dp_requestId (offer_input ao))) f"
    unfolding within_mandate_def by blast
  moreover from f have "file_amount f \<le> of_max ao" by (simp add: for_input_def offer_input_def)
  ultimately show "capped w env (journal_key w (dp_requestId (offer_input ao))) f"
    using assms by (simp add: capped_def)
qed

lemma accepted_capped:
  assumes "of_max ao = bi_max b" "bi_max b \<le> num_int (broker_cap w env)"
  shows "triple (payments_ok w env) (payments_ok w env) (payments_ok w env)
     (purchaseAcceptedOffer w y (\<lambda>d c. purchaseHederaData w y env d (Some c)) ao cred base) (\<lambda>_. payments_ok w env)"
  unfolding purchaseAcceptedOffer_def
  by (intro triple_need_then triple_lift_then triple_call_then triple_ret triple_then [OF purchase_capped [OF assms]]
      stable_conj stable_files stable_dispatch)

lemma negotiate_capped:
  assumes "allowance_ok w env (bi_provider b) (bi_max b)"
  shows "triple (\<lambda>m. payments_ok w env (outside m)) (\<lambda>m. payments_ok w env (outside m)) (\<lambda>m. payments_ok w env (outside m))
     (negotiate w y env b base) (\<lambda>_ m. payments_ok w env (outside m))"
proof -
  have st: "stable (payments_ok w env)" by (intro stable_conj stable_files stable_dispatch)
  have cap: "bi_max b \<le> num_int (broker_cap w env)" using assms by (simp add: allowance_ok_def)
  have buy: "triple (\<lambda>m. payments_ok w env (outside m)) (\<lambda>m. payments_ok w env (outside m)) (\<lambda>m. payments_ok w env (outside m))
      (buy_offer w y env b cred ao) (\<lambda>_ m. payments_ok w env (outside m))" if "of_max ao = bi_max b" for cred ao
    unfolding buy_offer_def Let_def
    by (intro triple_then [OF triple_inner_saves(3)] triple_then [OF triple_inner_saves(1)] triple_ret
        triple_then [OF triple_embed [OF accepted_capped [OF that cap] st]])
  show ?thesis
    unfolding negotiate_def Let_def
    by (intro triple_then [OF triple_inner_saves(2)] triple_lift_then triple_far_then triple_need_then calm_inner [OF st]
        triple_then [OF triple_send] triple_check_offer_then triple_then [OF triple_inner_saves(1)] buy)
      (auto dest: offer_within_proposal)
qed

lemma buyer_capped:
  "triple (\<lambda>m. payments_ok w env (outside m)) (\<lambda>m. payments_ok w env (outside m)) (\<lambda>m. payments_ok w env (outside m))
     (runA2ABuyer w y env args) (\<lambda>_ m. payments_ok w env (outside m))"
  unfolding runA2ABuyer_def
  by (intro triple_setup_then calm_inner stable_conj stable_files stable_dispatch)
    (auto intro!: triple_then [OF triple_inner_saves(4)] triple_lift negotiate_capped split: option.split)

lemma history_capped: "payments_ok w env (outside (after_buyer w y env runs u))"
  unfolding after_buyer_def
proof (rule run_all_triple [where I = "\<lambda>m. payments_ok w env (outside m)"])
  show "payments_ok w env (outside (empty_machine (empty_machine u)))"
    by (simp add: nested_empty) (simp add: files_ok_def empty_machine_def)
qed (auto intro: buyer_capped simp: nested_restart)

section \<open>What the seller answered\<close>

text \<open>
  \<open>recorded y\<close> is the outside \<open>y\<close> with a ghost: the list of what was posted to sellers, with the
  answers. The programs run on it as on \<open>y\<close>; none reads the list.
\<close>

type_synonym exchange = "string \<times> json \<times> http_response res"

definition aside :: "('c \<Rightarrow> 'a \<times> 'c) \<Rightarrow> 'c \<times> exchange list \<Rightarrow> 'a \<times> ('c \<times> exchange list)" where
  "aside g = (\<lambda>(c, l). case g c of (a, c') \<Rightarrow> (a, (c', l)))"

definition recorded :: "'c buyer_ext \<Rightarrow> ('c \<times> exchange list) buyer_ext" where
  "recorded y =
     \<lparr>he_now = aside (he_now y), he_challenge = (\<lambda>u i v. aside (he_challenge y u i v)),
      he_decode_required = he_decode_required y, he_supported = aside (he_supported y), he_key = he_key y,
      he_sign = (\<lambda>s v. aside (he_sign y s v)), he_transaction_id = he_transaction_id y,
      he_pay = (\<lambda>u i v p. aside (he_pay y u i v p)), he_decode_settlement = he_decode_settlement y,
      he_mirror = (\<lambda>u. aside (he_mirror y u)), ab_get = (\<lambda>u. aside (ab_get y u)),
      ab_post = (\<lambda>u v (c, l). case ab_post y u v c of (r, c') \<Rightarrow> (r, (c', l @ [(u, v, r)]))),
      ab_secrets = aside (ab_secrets y)\<rparr>"

text \<open>The seller answered this message of the operation with these data.\<close>

definition replied :: "buyer_intent \<Rightarrow> json \<Rightarrow> string \<Rightarrow> json \<Rightarrow> exchange list \<Rightarrow> bool" where
  "replied b data context_id d l =
     list_ex (\<lambda>(u, v, r). u = bi_endpoint b \<and> v = send_envelope b data context_id \<and>
       (case r of Inl _ \<Rightarrow> False
        | Inr a \<Rightarrow> hr_ok a \<and> bindR (hr_body a) (\<lambda>j. reply_data j (message_id b context_id)) = Inr (Some d))) l"

text \<open>
  The offer was made and accepted: the seller answered the proposal with it, and the acceptance of
  its token by naming the same token and offer, and both answers are the approved exact purchase.
\<close>

definition agreed :: "web \<Rightarrow> exchange list \<Rightarrow> buyer_intent \<Rightarrow> a2a_offer \<Rightarrow> bool" where
  "agreed w l b ao \<longleftrightarrow>
     (\<exists>payer d1 d2 t1 t2.
        let prop = proposal_json b payer
        in replied b prop [] d1 l \<and> fstr d1 ''action'' = Some ''offer'' \<and>
           validateSellerOffer w t1 d1 prop (bi_resourceBase b) (bi_payTo b) = Inr ao \<and>
           replied b (acceptance_json b payer (ao_token ao)) (of_context ao) d2 l \<and>
           fstr d2 ''action'' = Some ''accepted'' \<and> fstr d2 ''offerToken'' = Some (ao_token ao) \<and>
           fstr d2 ''offerId'' = Some (ao_id ao) \<and>
           (case validateSellerOffer w t2 d2 prop (bi_resourceBase b) (bi_payTo b) of Inl _ \<Rightarrow> False | Inr _ \<Rightarrow> True))"

fun struck :: "buyer_file \<Rightarrow> (buyer_intent \<times> a2a_offer) option" where
  "struck (Negotiating _ _) = None"
| "struck (Accepted _ b ao _) = Some (b, ao)"
| "struck (Completed _ b ao _ _) = Some (b, ao)"

definition heard :: "('b, ('s, 'c \<times> exchange list) machine) machine \<Rightarrow> exchange list" where
  "heard m = snd (outside (outside m))"

text \<open>A purchase journal is backed by an operation's journal with an accepted offer.\<close>

definition backed :: "web \<Rightarrow> (string \<Rightarrow> buyer_file disk_file) \<Rightarrow> string \<Rightarrow> purchase_file \<Rightarrow> bool" where
  "backed w J k f \<longleftrightarrow> (\<exists>op g b ao. J op = Stored g \<and> struck g = Some (b, ao) \<and>
     k = journal_key w (ao_paymentRequest ao) \<and> for_input w (offer_input ao) f)"

text \<open>\<open>B\<close> is what is known of the intents, from the arguments of the runs.\<close>

definition deals_ok ::
    "web \<Rightarrow> (buyer_intent \<Rightarrow> bool) \<Rightarrow> (buyer_file, (purchase_file, 'c \<times> exchange list) machine) machine \<Rightarrow> bool" where
  "deals_ok w B m \<longleftrightarrow>
     (\<forall>op g b ao. journal m op = Stored g \<longrightarrow> struck g = Some (b, ao) \<longrightarrow>
        bi_operation b = op \<and> B b \<and> agreed w (heard m) b ao) \<and>
     files_ok (backed w (journal m)) (outside m)"

text \<open>The intent is what the arguments of a run ask for.\<close>

definition of_args :: "(string \<Rightarrow> string option) \<Rightarrow> string list \<Rightarrow> buyer_intent \<Rightarrow> bool" where
  "of_args env args b \<longleftrightarrow>
     bi_operation b = arg_or args 0 \<and> bi_provider b = arg_or args 1 \<and> bi_max b = dec_int (arg_or args 2) \<and>
     bi_mandateExpires b = arg_or args 3 \<and> validateRepos (repos_json (drop 4 args)) = Inr (bi_repos b) \<and>
     bi_payTo b = env_or env ''HEDERA_PAY_TO'' []"

subsection \<open>The list only grows\<close>

definition hears_more :: "('s, 'c \<times> exchange list) machine \<Rightarrow> ('s, 'c \<times> exchange list) machine \<Rightarrow> bool" where
  "hears_more m m' \<longleftrightarrow> set (snd (outside m)) \<subseteq> set (snd (outside m'))"

interpretation hm: machine_order hears_more
  by unfold_locales (auto simp: hears_more_def)

lemma aside_hears: "within hears_more (callP (aside g))"
  by (rule hm.call_by) (simp add: hears_more_def aside_def case_prod_beta)

lemma file_hears:
  "within hears_more (saveJournal k s)" "within hears_more (noteSubmit k i)" "within hears_more (createJournal e k s)"
proof -
  show save: "within hears_more (saveJournal k s)"
    unfolding saveJournal_def by (rule hm.effect) (simp add: hears_more_def)
  show "within hears_more (noteSubmit k i)" by (simp add: within_def noteSubmit_def hears_more_def)
  show "within hears_more (createJournal e k s)"
    unfolding createJournal_def by (intro hm.bind hm.need save hm.effect) (simp add: hears_more_def)
qed

lemma recorded_simps [simp]:
  "he_now (hedera_ext.truncate (recorded y)) = aside (he_now y)"
  "he_challenge (hedera_ext.truncate (recorded y)) u i v = aside (he_challenge y u i v)"
  "he_supported (hedera_ext.truncate (recorded y)) = aside (he_supported y)"
  "he_sign (hedera_ext.truncate (recorded y)) s v = aside (he_sign y s v)"
  "he_pay (hedera_ext.truncate (recorded y)) u i v p = aside (he_pay y u i v p)"
  "he_mirror (hedera_ext.truncate (recorded y)) u = aside (he_mirror y u)"
  "he_now (recorded y) = aside (he_now y)" "ab_get (recorded y) u = aside (ab_get y u)"
  "ab_secrets (recorded y) = aside (ab_secrets y)"
  by (simp_all add: recorded_def hedera_ext.defs)

lemmas hears = hm.bind hm.ret hm.throw hm.lift hm.need hm.read_files hm.catch hm.cond aside_hears file_hears

abbreviation recorded_hedera :: "'c buyer_ext \<Rightarrow> ('c \<times> exchange list) hedera_ext" where
  "recorded_hedera y \<equiv> hedera_ext.truncate (recorded y)"

lemma active_hears: "within hears_more (assertMandateActive w (recorded_hedera y) e)"
  unfolding assertMandateActive_def Let_def by (auto intro!: hears split: option.split)

lemma poll_hears: "within hears_more (poll_mirror w (recorded_hedera y) u a b n left)"
  by (induction left) (auto intro!: hears)

lemma pay_hears: "within hears_more (pay_and_prove w (recorded_hedera y) input repos endpoint fp payer pay amount payload t)"
  unfolding pay_and_prove_def Let_def by (simp, intro hears poll_hears)

lemma sign_hears: "within hears_more (sign_and_pay w (recorded_hedera y) input repos endpoint fp cred pay required accepted amount)"
  unfolding sign_and_pay_def Let_def by simp (auto intro!: hears active_hears pay_hears split: prod.split)

lemma new_hears: "within hears_more (new_purchase w (recorded_hedera y) input repos base pay cred fp)"
  unfolding new_purchase_def by simp (auto intro!: hears sign_hears split: prod.split)

lemma purchase_hears:
  "within hears_more (purchaseAcceptedOffer w (recorded_hedera y)
     (\<lambda>d c. purchaseHederaData w (recorded_hedera y) env d (Some c)) ao cred base)"
proof -
  have "within hears_more (purchaseHederaData w (recorded_hedera y) env d c)" for d c
    unfolding purchaseHederaData_def Let_def by (auto intro!: hears active_hears new_hears split: option.split)
  then show ?thesis unfolding purchaseAcceptedOffer_def by simp (intro hears)
qed

subsection \<open>Rules\<close>

text \<open>What survives calls that only let the list grow.\<close>

definition attentive :: "(('b, ('s, 'c \<times> exchange list) machine) machine \<Rightarrow> bool) \<Rightarrow> bool" where
  "attentive P \<longleftrightarrow> (\<forall>m n u. P m \<longrightarrow> P (m\<lparr>budget := n\<rparr>) \<and>
     (set (heard m) \<subseteq> set (snd u) \<longrightarrow> P (m\<lparr>outside := (outside m)\<lparr>outside := u\<rparr>\<rparr>)))"

lemma nested_files [simp]:
  "journal ((m :: ('b, ('s, 'c) machine) machine)\<lparr>budget := n\<rparr>) = journal m"
  "journal ((m :: ('b, ('s, 'c) machine) machine)\<lparr>outside := h\<rparr>) = journal m"
  "journal ((m :: ('b, ('s, 'c) machine) machine)\<lparr>submits := S\<rparr>) = journal m"
  "journal ((m :: ('b, ('s, 'c) machine) machine)\<lparr>journal := J\<rparr>) = J"
  "outside ((m :: ('b, ('s, 'c) machine) machine)\<lparr>submits := S\<rparr>) = outside m"
  "outside ((m :: ('b, ('s, 'c) machine) machine)\<lparr>journal := J\<rparr>) = outside m"
  by (cases m; simp)+

lemma heard_simps [simp]:
  "heard (m\<lparr>budget := n\<rparr>) = heard m" "heard (m\<lparr>outside := h\<rparr>) = snd (outside h)" "heard (m\<lparr>journal := J\<rparr>) = heard m"
  "heard (m\<lparr>submits := S\<rparr>) = heard m"
  by (simp_all add: heard_def)

lemma replied_mono: "set l \<subseteq> set l' \<Longrightarrow> replied b d c a l \<Longrightarrow> replied b d c a l'"
  unfolding replied_def list_ex_iff by blast

lemma agreed_mono: "set l \<subseteq> set l' \<Longrightarrow> agreed w l b ao \<Longrightarrow> agreed w l' b ao"
  unfolding agreed_def Let_def using replied_mono by metis

lemma attentive_conj: "attentive P \<Longrightarrow> attentive Q \<Longrightarrow> attentive (\<lambda>m. P m \<and> Q m)"
  by (simp add: attentive_def)

lemma attentive_replied: "attentive (\<lambda>m. replied b d c a (heard m))"
  by (auto simp: attentive_def intro: replied_mono)

lemma attentive_journal: "attentive (\<lambda>m. X (journal m))"
  by (simp add: attentive_def)

lemma deals_heard:
  assumes "deals_ok w B m" "set (heard m) \<subseteq> set (snd (outside h))" "files_ok (backed w (journal m)) h"
  shows "deals_ok w B (m\<lparr>outside := h\<rparr>)"
  using assms by (auto simp: deals_ok_def intro: agreed_mono)

lemma deals_budget: "deals_ok w B m \<Longrightarrow> deals_ok w B (m\<lparr>budget := n\<rparr>)"
  by (simp add: deals_ok_def)

lemma attentive_deals: "attentive (deals_ok w B)"
  unfolding attentive_def
  by (intro allI impI conjI deals_budget deals_heard) (simp_all add: deals_ok_def files_ok_def)

lemma deals_save:
  assumes "deals_ok w B m" "journal m' = (journal m)(op := F)" "outside m' = outside m"
    and "\<And>f b ao. F = Stored f \<Longrightarrow> struck f = Some (b, ao) \<Longrightarrow> bi_operation b = op \<and> B b \<and> agreed w (heard m) b ao"
    and "\<And>g b ao. journal m op = Stored g \<Longrightarrow> struck g = Some (b, ao) \<Longrightarrow> \<exists>f. F = Stored f \<and> struck f = Some (b, ao)"
  shows "deals_ok w B m'"
proof -
  have "heard m' = heard m" by (simp add: heard_def assms(3))
  moreover have "files_ok (backed w (journal m')) (outside m')"
    unfolding assms(3) files_ok_def
  proof (intro allI impI)
    fix k f
    assume "journal (outside m) k = Stored f"
    then have "backed w (journal m) k f" using assms(1) by (simp add: deals_ok_def files_ok_def)
    then obtain o' g b ao where g: "journal m o' = Stored g" "struck g = Some (b, ao)"
        and k: "k = journal_key w (ao_paymentRequest ao)" "for_input w (offer_input ao) f"
      unfolding backed_def by blast
    have "\<exists>g'. journal m' o' = Stored g' \<and> struck g' = Some (b, ao)"
      by (cases "o' = op") (use g assms(5) in \<open>auto simp: assms(2)\<close>)
    then show "backed w (journal m') k f" using k unfolding backed_def by blast
  qed
  ultimately show ?thesis
    using assms(1,4) unfolding deals_ok_def assms(2) by (auto split: if_splits)
qed

lemma triple_hears:
  assumes P: "attentive P" "\<And>m. P m \<Longrightarrow> I m" "\<And>m. P m \<Longrightarrow> E m"
    and g: "\<And>c. set (snd c) \<subseteq> set (snd (snd (g c)))"
  shows "triple I E P (farP g) (\<lambda>a m. P m \<and> (\<exists>c. g c = (Inr a, outside (outside m))))"
  unfolding farP_def callP_def
proof (rule triple_bind [where R = "\<lambda>r m. P m \<and> (\<exists>c. g c = (r, outside (outside m)))"], rule triple_effect)
  fix m n r m'
  assume p: "P m" and m': "(let (r, v) = let (r, u) = g (outside (outside (m\<lparr>budget := n\<rparr>))) in (r, outside (m\<lparr>budget := n\<rparr>)\<lparr>outside := u\<rparr>)
      in (r, m\<lparr>budget := n\<rparr>\<lparr>outside := v\<rparr>)) = (r, m')"
  obtain u where u: "g (outside (outside m)) = (r, u)" "m' = (m\<lparr>budget := n\<rparr>)\<lparr>outside := (outside (m\<lparr>budget := n\<rparr>))\<lparr>outside := u\<rparr>\<rparr>"
    using m' by (auto simp: Let_def split: prod.splits)
  have "P (m\<lparr>budget := n\<rparr>)" using P(1) p by (simp add: attentive_def)
  moreover have "set (heard (m\<lparr>budget := n\<rparr>)) \<subseteq> set (snd u)" using g [of "outside (outside m)"] u(1) by (simp add: heard_def)
  ultimately have "P m'" using P(1) unfolding attentive_def u(2) by blast
  moreover have "outside (outside m') = u" unfolding u(2) by simp
  ultimately show "P m' \<and> (\<exists>c. g c = (r, outside (outside m')))" using u(1) by blast
qed (auto intro: triple_lift P)

lemma triple_aside_then:
  assumes "attentive P" "\<And>m. P m \<Longrightarrow> I m" "\<And>m. P m \<Longrightarrow> E m" "\<And>a. triple I E P (f a) Q"
  shows "triple I E P (bindP (farP (aside g)) f) Q"
  by (rule triple_bind [OF triple_hears [OF assms(1-3)]])
    (auto simp: aside_def case_prod_beta intro: triple_pre [OF assms(4)])

lemma triple_posted:
  assumes "attentive P" "\<And>m. P m \<Longrightarrow> I m" "\<And>m. P m \<Longrightarrow> E m"
  shows "triple I E P (farP (ab_post (recorded y) u v)) (\<lambda>a m. P m \<and> (u, v, Inr a) \<in> set (heard m))"
  by (rule triple_post [OF triple_hears [OF assms]])
    (auto simp: recorded_def heard_def case_prod_beta dest!: sym [of "(_, _)" "outside (outside _)"])

lemma triple_send_then:
  assumes P: "attentive P" "\<And>m. P m \<Longrightarrow> I m" "\<And>m. P m \<Longrightarrow> E m"
    and f: "\<And>a. triple I E (\<lambda>m. P m \<and> replied b d c a (heard m)) (f a) Q"
  shows "triple I E P (bindP (send (recorded y) b d c) f) Q"
proof (rule triple_bind [OF _ f])
  show "triple I E P (send (recorded y) b d c) (\<lambda>a m. P m \<and> replied b d c a (heard m))"
    unfolding send_def
  proof (rule triple_bind [OF triple_posted [OF P]])
    fix r
    show "triple I E (\<lambda>m. P m \<and> (bi_endpoint b, send_envelope b d c, Inr r) \<in> set (heard m))
      (bindP (needP (hr_ok r) (Err ''A2A seller unavailable.'')) (\<lambda>_. bindP (liftP (hr_body r)) (\<lambda>v.
       bindP (liftP (reply_data v (message_id b c))) (\<lambda>e. liftP (of_opt (Thrown ''TypeError'') (check (\<lambda>p. p \<noteq> JNull) e))))))
      (\<lambda>a m. P m \<and> replied b d c a (heard m))"
      by (intro triple_need_then triple_lift_then triple_lift)
        (auto simp: replied_def list_ex_iff check_def P(3) split: if_splits option.splits
          intro!: bexI [of _ "(bi_endpoint b, send_envelope b d c, Inr r)"])
  qed
qed

lemma triple_offer_then:
  assumes "attentive P" "\<And>m. P m \<Longrightarrow> I m" "\<And>m. P m \<Longrightarrow> E m"
    and "\<And>ao now. validateSellerOffer w now v prop (bi_resourceBase b) (bi_payTo b) = Inr ao \<Longrightarrow> triple I E P (f ao) Q"
  shows "triple I E P (bindP (check_offer w (recorded y) b prop v) f) Q"
proof (rule triple_bind)
  show "triple I E P (check_offer w (recorded y) b prop v)
      (\<lambda>ao m. P m \<and> (\<exists>now. validateSellerOffer w now v prop (bi_resourceBase b) (bi_payTo b) = Inr ao))"
    unfolding check_offer_def recorded_simps by (intro triple_aside_then triple_lift assms(1-3)) (auto intro: assms(3))
qed (auto intro: triple_pure_exists assms(4))

subsection \<open>A purchase has its deal\<close>

definition undecided ::
    "web \<Rightarrow> (buyer_intent \<Rightarrow> bool) \<Rightarrow> string \<Rightarrow> (buyer_file, (purchase_file, 'c \<times> exchange list) machine) machine \<Rightarrow> bool" where
  "undecided w B op m \<longleftrightarrow> deals_ok w B m \<and> (\<forall>g. journal m op = Stored g \<longrightarrow> struck g = None)"

definition decided ::
    "web \<Rightarrow> (buyer_intent \<Rightarrow> bool) \<Rightarrow> buyer_intent \<Rightarrow> a2a_offer \<Rightarrow>
      (buyer_file, (purchase_file, 'c \<times> exchange list) machine) machine \<Rightarrow> bool" where
  "decided w B b ao m \<longleftrightarrow> deals_ok w B m \<and> (\<exists>g. journal m (bi_operation b) = Stored g \<and> struck g = Some (b, ao))"

lemma attentive_undecided: "attentive (undecided w B op)"
  unfolding undecided_def
  by (rule attentive_conj [OF attentive_deals attentive_journal [where X = "\<lambda>J. \<forall>g. J op = Stored g \<longrightarrow> struck g = None"]])

lemma createJournal_undecided:
  assumes "struck f = None"
  shows "triple (deals_ok w B) (deals_ok w B) (deals_ok w B) (createJournal e op f) (\<lambda>_. undecided w B op)"
  unfolding createJournal_def
proof (rule triple_bind)
  show "triple (deals_ok w B) (deals_ok w B) (deals_ok w B) (effect (\<lambda>m. (journal m op \<noteq> Absent,
      if journal m op = Absent then m\<lparr>journal := (journal m)(op := Corrupt)\<rparr> else m)))
    (\<lambda>ex m. deals_ok w B m \<and> (\<not> ex \<longrightarrow> journal m op = Corrupt))"
    by (rule triple_effect) (auto intro: deals_budget deals_save [OF deals_budget] split: if_splits)
  show "triple (deals_ok w B) (deals_ok w B) (\<lambda>m. deals_ok w B m \<and> (\<not> ex \<longrightarrow> journal m op = Corrupt))
      (bindP (needP (\<not> ex) e) (\<lambda>_. saveJournal op f)) (\<lambda>_. undecided w B op)" for ex
    by (rule triple_need_then, simp, rule triple_saveJournal)
      (auto simp: undecided_def assms intro: deals_save [OF deals_budget])
qed

lemma saveJournal_decided:
  assumes "\<And>m. P m \<Longrightarrow> deals_ok w B m" "struck f = Some (b, ao)" "bi_operation b = op"
    and "\<And>m. P m \<Longrightarrow> B b \<and> agreed w (heard m) b ao"
    and "\<And>m g. P m \<Longrightarrow> journal m op = Stored g \<Longrightarrow> struck g = None \<or> struck g = Some (b, ao)"
  shows "triple (deals_ok w B) (deals_ok w B) P (saveJournal op f) (\<lambda>_. decided w B b ao)"
  by (rule triple_saveJournal)
    (use assms in \<open>auto simp: decided_def dest: assms(5) intro!: deals_save [OF deals_budget [OF assms(1)]]\<close>)

lemma accepted_files:
  assumes "\<And>f. for_input w (offer_input ao) f \<Longrightarrow> D (journal_key w (ao_paymentRequest ao)) f"
  shows "triple (files_ok D) (files_ok D) (files_ok D)
     (purchaseAcceptedOffer w y (\<lambda>d c. purchaseHederaData w y env d (Some c)) ao cred base) (\<lambda>_. files_ok D)"
  unfolding purchaseAcceptedOffer_def
  by (intro triple_need_then triple_lift_then triple_call_then triple_ret triple_then [OF purchase_files] stable_files)
    (auto simp: offer_input_def intro: assms)

lemma purchase_decided:
  "triple (deals_ok w B) (deals_ok w B) (decided w B b ao)
     (embed (purchaseAcceptedOffer w (recorded_hedera y)
       (\<lambda>d c. purchaseHederaData w (recorded_hedera y) env d (Some c)) ao cred base)) (\<lambda>_. decided w B b ao)"
proof -
  let ?p = "purchaseAcceptedOffer w (recorded_hedera y) (\<lambda>d c. purchaseHederaData w (recorded_hedera y) env d (Some c)) ao cred base"
  have "decided w B b ao (m\<lparr>outside := h, budget := n\<rparr>)"
    if m: "decided w B b ao m" and p: "?p ((outside m)\<lparr>budget := k\<rparr>) = (r, h)" for m r h n k
  proof -
    have deals: "deals_ok w B m" using m by (simp add: decided_def)
    have D: "backed w (journal m) (journal_key w (ao_paymentRequest ao)) f" if "for_input w (offer_input ao) f" for f
      using m that unfolding decided_def backed_def by blast
    have "files_ok (backed w (journal m)) ((outside m)\<lparr>budget := k\<rparr>)"
      using deals by (simp add: deals_ok_def files_ok_def)
    then have "files_ok (backed w (journal m)) h"
      using tripleD [OF accepted_files [where D = "backed w (journal m)", OF D]] p by (cases r) blast+
    moreover have "set (heard m) \<subseteq> set (snd (outside h))"
      using withinD [OF purchase_hears p] by (simp add: hears_more_def heard_def)
    ultimately have "deals_ok w B (m\<lparr>outside := h\<rparr>)" using deals by (intro deals_heard)
    then have "deals_ok w B (m\<lparr>outside := h\<rparr>\<lparr>budget := n\<rparr>)" by (rule deals_budget)
    then show ?thesis using m by (simp add: decided_def)
  qed
  then show ?thesis
    unfolding triple_def embed_def Let_def
    by (auto simp: decided_def split: prod.split outcome.split)
qed

lemma buy_decided:
  "triple (deals_ok w B) (deals_ok w B) (decided w B b ao) (buy_offer w (recorded y) env b cred ao) (\<lambda>_. deals_ok w B)"
  unfolding buy_offer_def Let_def
proof (rule triple_then)
  show "triple (deals_ok w B) (deals_ok w B) (decided w B b ao) (noteSubmit (bi_operation b) i) (\<lambda>_. decided w B b ao)" for i
    by (rule triple_noteSubmit) (simp add: decided_def deals_ok_def)
  fix a
  let ?file = "\<lambda>res. Completed (buyer_fingerprint w b) b ao res (public_proof res)"
  have save: "triple (deals_ok w B) (deals_ok w B) (decided w B b ao) (saveJournal (bi_operation b) (?file res)) (\<lambda>_. decided w B b ao)" for res
    by (rule saveJournal_decided) (auto simp: decided_def deals_ok_def)
  show "triple (deals_ok w B) (deals_ok w B) (decided w B b ao)
      (bindP (embed (purchaseAcceptedOffer w (recorded_hedera y)
         (\<lambda>d c. purchaseHederaData w (recorded_hedera y) env d (Some c)) ao cred (bi_resourceBase b)))
       (\<lambda>res. bindP (saveJournal (bi_operation b) (?file res)) (\<lambda>_. retP (public_proof res)))) (\<lambda>_. deals_ok w B)"
    by (intro triple_then [OF purchase_decided] triple_then [OF save] triple_ret) (simp add: decided_def)
qed

lemma undecidedD: "undecided w B op m \<Longrightarrow> deals_ok w B m"
  by (simp add: undecided_def)

lemma agreedI:
  assumes "replied b (proposal_json b payer) [] d1 l" "fstr d1 ''action'' = Some ''offer''"
    "validateSellerOffer w t1 d1 (proposal_json b payer) (bi_resourceBase b) (bi_payTo b) = Inr ao"
    "replied b (acceptance_json b payer (ao_token ao)) (of_context ao) d2 l"
    "fstr d2 ''action'' = Some ''accepted'' \<and> fstr d2 ''offerToken'' = Some (ao_token ao) \<and> fstr d2 ''offerId'' = Some (ao_id ao)"
    "validateSellerOffer w t2 d2 (proposal_json b payer) (bi_resourceBase b) (bi_payTo b) = Inr ao'"
  shows "agreed w l b ao"
  unfolding agreed_def Let_def by (intro exI [of _ payer] exI [of _ d1] exI [of _ d2] exI [of _ t1] exI [of _ t2])
    (simp add: assms)

lemma negotiate_deals:
  assumes "B b"
  shows "triple (deals_ok w B) (deals_ok w B) (deals_ok w B) (negotiate w (recorded y) env b base) (\<lambda>_. deals_ok w B)"
  unfolding negotiate_def Let_def recorded_simps
  by (intro triple_bind [OF createJournal_undecided] triple_lift_then triple_aside_then triple_need_then triple_send_then
      triple_offer_then attentive_conj attentive_undecided attentive_replied triple_bind [OF saveJournal_decided] buy_decided)
    (auto simp: undecided_def assms intro: agreedI buy_decided)

lemma setup_deals:
  assumes "\<And>b base. of_args env args b \<Longrightarrow> triple (deals_ok w B) (deals_ok w B) (deals_ok w B) (f (b, base)) Q"
  shows "triple (deals_ok w B) (deals_ok w B) (deals_ok w B) (bindP (buyer_setup w (recorded y) env args) f) Q"
proof (rule triple_bind)
  show "triple (deals_ok w B) (deals_ok w B) (deals_ok w B) (buyer_setup w (recorded y) env args)
      (\<lambda>(b, base) m. deals_ok w B m \<and> of_args env args b)"
    unfolding buyer_setup_def Let_def recorded_simps
    by (intro triple_need_then triple_aside_then triple_lift_then triple_ret attentive_deals) (auto simp: of_args_def)
qed (use assms in \<open>auto simp: triple_def split: prod.splits\<close>)

lemma buyer_deals:
  assumes "\<And>b. of_args env args b \<Longrightarrow> B b"
  shows "triple (deals_ok w B) (deals_ok w B) (deals_ok w B) (runA2ABuyer w (recorded y) env args) (\<lambda>_. deals_ok w B)"
proof -
  have read: "triple (deals_ok w B) (deals_ok w B) (deals_ok w B) (readJournal e k) (\<lambda>_. deals_ok w B)" for e k
    unfolding readJournal_def
    by (rule triple_then, rule triple_effect) (auto intro: triple_lift deals_budget)
  show ?thesis
    unfolding runA2ABuyer_def
    by (rule setup_deals) (auto intro!: triple_then [OF read] triple_lift negotiate_deals assms split: option.split)
qed

lemma history_deals:
  "deals_ok w (\<lambda>b. list_ex (\<lambda>(n, args). of_args env args b) runs) (after_buyer w (recorded y) env runs u)"
  unfolding after_buyer_def
proof (rule run_all_triple)
  show "deals_ok w B (empty_machine (empty_machine u))" for B
    by (simp add: deals_ok_def nested_empty) (simp add: files_ok_def empty_machine_def)
  show "deals_ok w B (restart n m)" if "deals_ok w B m" for B n m
  proof -
    have "journal (restart n m) = journal m" by (cases m) (simp add: restart_def)
    with that show ?thesis by (simp add: deals_ok_def heard_def nested_restart)
  qed
qed (auto simp: list_ex_iff intro!: buyer_deals)

text \<open>
  C5. The buyer pays for what a seller offered and then accepted, within what its operator allowed:
  after any sequence of runs, with whatever the sellers answer and whenever the process dies, a
  purchase journal is there only for an offer that an operation's journal holds, whose operation,
  provider and maximum are those of the arguments of one of the runs. The recorded exchange shows
  that offer answered to the operation's proposal, and the acceptance of its token answered by naming
  the same token and offer, both passing the buyer's checks. The purchase is for the offer's
  own provider, repositories and token, its amount is within the operation's maximum and the broker's
  cap, and it is sent at most once.
\<close>

theorem buyer_pays_within_cap:
  "let m = after_buyer w (recorded y) env runs (u, []); inner = outside m
   in (case journal inner k of
         Stored f \<Rightarrow> capped w env k f \<and>
           (\<exists>g b ao. journal m (bi_operation b) = Stored g \<and> struck g = Some (b, ao) \<and>
              list_ex (\<lambda>(n, args). of_args env args b) runs \<and> agreed w (heard m) b ao \<and>
              k = journal_key w (ao_paymentRequest ao) \<and> for_input w (offer_input ao) f \<and> file_amount f \<le> bi_max b)
       | _ \<Rightarrow> True) \<and>
      length (submits_of k inner) \<le> 1"
proof -
  define m where "m = after_buyer w (recorded y) env runs (u, [])"
  let ?B = "\<lambda>b. list_ex (\<lambda>(n, args). of_args env args b) runs"
  have capped: "payments_ok w env (outside m)" unfolding m_def by (rule history_capped)
  have deals: "deals_ok w ?B m" unfolding m_def by (rule history_deals)
  have count: "length (submits_of k (outside m)) \<le> 1"
    using capped by (auto simp: dispatch_ok_def dest: spec [of _ k])
  have deal: "\<exists>g b ao. journal m (bi_operation b) = Stored g \<and> struck g = Some (b, ao) \<and> ?B b \<and> agreed w (heard m) b ao \<and>
      k = journal_key w (ao_paymentRequest ao) \<and> for_input w (offer_input ao) f \<and> file_amount f \<le> bi_max b"
    if f: "journal (outside m) k = Stored f" for f
  proof -
    have "backed w (journal m) k f" using deals f by (simp add: deals_ok_def files_ok_def)
    then obtain op g b ao where g: "journal m op = Stored g" "struck g = Some (b, ao)"
        and k: "k = journal_key w (ao_paymentRequest ao)" "for_input w (offer_input ao) f"
      unfolding backed_def by blast
    have b: "bi_operation b = op" "?B b" "agreed w (heard m) b ao"
      using deals g unfolding deals_ok_def by blast+
    have "of_max ao = bi_max b"
      using b(3) unfolding agreed_def Let_def by (blast dest: offer_within_proposal)
    then have "file_amount f \<le> bi_max b" using k(2) by (simp add: for_input_def offer_input_def)
    then show ?thesis using g b k by blast
  qed
  show ?thesis
    unfolding Let_def m_def [symmetric]
    using count deal capped by (simp add: files_ok_def split: disk_file.split)
qed

end
