(* ===== verification/Identity.thy ===== *)
theory Identity
  imports Commerce "HOL-Library.Word"
begin

text \<open>
  HCS-14 agent identifiers, \<open>src/src/lib/hedera/identity.ts\<close>: the canonical agent data,
  its base-58 digest and the routing parameters.
\<close>

record canonical_agent =
  ca_name :: string
  ca_nativeId :: string
  ca_protocol :: string
  ca_registry :: string
  ca_skills :: "int list"
  ca_version :: string

definition agent_text :: "json \<Rightarrow> string \<Rightarrow> string option" where
  "agent_text v k = map_option trim (check (\<lambda>s. trim s \<noteq> [] \<and> length s \<le> 500) (fstr v k))"

definition skill_ok :: "int \<Rightarrow> bool" where
  "skill_ok n \<longleftrightarrow> 0 \<le> n \<and> (n < 40 \<or> 100 \<le> n)"

definition agent_skills :: "json \<Rightarrow> int list option" where
  "agent_skills v = (case fld v ''skills'' of
     Some (JArr xs) \<Rightarrow> if length xs \<le> 64 then check (list_all skill_ok) (those (map as_int xs)) else None
   | _ \<Rightarrow> None)"

definition canonicalAgentData :: "json \<Rightarrow> canonical_agent res" where
  "canonicalAgentData v =
     (let text = \<lambda>k. of_opt (Err ''HCS-14 identity requires bounded nonempty public strings.'') (agent_text v k)
      in bindR (text ''registry'') (\<lambda>registry.
         bindR (text ''name'') (\<lambda>name.
         bindR (text ''version'') (\<lambda>version.
         bindR (text ''protocol'') (\<lambda>prot.
         bindR (text ''nativeId'') (\<lambda>native.
         bindR (of_opt (Err ''HCS-14 skills must be core or OASF integer IDs.'') (agent_skills v)) (\<lambda>skills.
           Inr \<lparr>ca_name = name, ca_nativeId = native, ca_protocol = to_lower prot, ca_registry = to_lower registry,
             ca_skills = sort skills, ca_version = version\<rparr>)))))))"

definition agent_json :: "canonical_agent \<Rightarrow> json" where
  "agent_json a = JObj [(''name'', JStr (ca_name a)), (''nativeId'', JStr (ca_nativeId a)),
     (''protocol'', JStr (ca_protocol a)), (''registry'', JStr (ca_registry a)),
     (''skills'', JArr (map int_json (ca_skills a))), (''version'', JStr (ca_version a))]"

section \<open>Base 58\<close>

definition b58_alphabet :: string where
  "b58_alphabet = ''123456789ABCDEFGHJKLMNPQRSTUVWXYZabcdefghijkmnopqrstuvwxyz''"

definition bytes_value :: "nat list \<Rightarrow> nat" where
  "bytes_value bs = foldl (\<lambda>v b. v * 256 + b) 0 bs"

text \<open>\<open>while (value > 0n)\<close>: the digits are prepended to what is encoded already.\<close>

function b58_digits :: "nat \<Rightarrow> string \<Rightarrow> string" where
  "b58_digits v acc = (if v = 0 then acc else b58_digits (v div 58) (b58_alphabet ! (v mod 58) # acc))"
  by pat_completeness auto
termination by (relation "measure fst") auto

declare b58_digits.simps [simp del]

text \<open>One \<open>1\<close> for each leading zero byte.\<close>

definition base58 :: "nat list \<Rightarrow> string" where
  "base58 bs = replicate (length (takeWhile (\<lambda>b. b = 0) bs)) (CHR ''1'') @ b58_digits (bytes_value bs) []"

section \<open>Identifiers\<close>

definition is_routing_char :: "char \<Rightarrow> bool" where
  "is_routing_char c \<longleftrightarrow> c \<notin> set '';?#%'' \<and> \<not> is_space c \<and> 32 \<le> code c"

definition parameter :: "string \<Rightarrow> string res" where
  "parameter s = (if s \<noteq> [] \<and> length s \<le> 500 \<and> list_all is_routing_char s then Inr s
     else Inl (Err ''Invalid HCS-14 routing parameter.''))"

text \<open>\<open>sha384\<close> is the digest of a text as bytes.\<close>

definition createUaid ::
    "(string \<Rightarrow> nat list) \<Rightarrow> json \<Rightarrow> string option \<Rightarrow> string option \<Rightarrow> string res" where
  "createUaid sha384 input uid site =
     bindR (canonicalAgentData input) (\<lambda>a.
     bindR (parameter (case uid of None \<Rightarrow> ''0'' | Some u \<Rightarrow> u)) (\<lambda>u.
     bindR (parameter (ca_registry a)) (\<lambda>r.
     bindR (parameter (ca_protocol a)) (\<lambda>p.
     bindR (parameter (ca_nativeId a)) (\<lambda>n.
     bindR (case site of Some (d # ds) \<Rightarrow> bindR (parameter (d # ds)) (\<lambda>x. Inr ('';domain='' @ x)) | _ \<Rightarrow> Inr []) (\<lambda>tail.
       Inr (''uaid:aid:'' @ base58 (sha384 (stringify (agent_json a))) @ '';uid='' @ u @ '';registry='' @ r @
         '';proto='' @ p @ '';nativeId='' @ n @ tail)))))))"

section \<open>Reading base 58 back\<close>

definition b58_val :: "char \<Rightarrow> nat" where
  "b58_val c = length (takeWhile (\<lambda>d. d \<noteq> c) b58_alphabet)"

definition b58_value :: "string \<Rightarrow> nat" where
  "b58_value s = foldl (\<lambda>v c. v * 58 + b58_val c) 0 s"

function value_bytes :: "nat \<Rightarrow> nat list" where
  "value_bytes v = (if v = 0 then [] else value_bytes (v div 256) @ [v mod 256])"
  by pat_completeness auto
termination by (relation "measure id") auto

declare value_bytes.simps [simp del]

definition of_base58 :: "string \<Rightarrow> nat list" where
  "of_base58 s = replicate (length (takeWhile (\<lambda>c. c = CHR ''1'') s)) 0 @ value_bytes (b58_value s)"

lemma b58_vals: "list_all (\<lambda>n. b58_val (b58_alphabet ! n) = n) [0..<58]"
  by code_simp

lemma b58_val_nth: "n < 58 \<Longrightarrow> b58_val (b58_alphabet ! n) = n"
  using b58_vals by (simp add: list_all_iff)

lemma b58_one: "n < 58 \<Longrightarrow> b58_alphabet ! n = CHR ''1'' \<longleftrightarrow> n = 0"
proof -
  assume n: "n < 58"
  have "b58_val (CHR ''1'') = 0" by code_simp
  moreover have "b58_alphabet ! 0 = CHR ''1''" by code_simp
  ultimately show ?thesis using b58_val_nth [OF n] by auto
qed

lemma b58_fold: "foldl (\<lambda>v c. v * 58 + b58_val c) a s = a * 58 ^ length s + b58_value s"
proof (induction s rule: rev_induct)
  case (snoc c s)
  then show ?case by (simp add: b58_value_def algebra_simps)
qed (simp add: b58_value_def)

lemma b58_value_digits: "b58_value (b58_digits v acc) = v * 58 ^ length acc + b58_value acc"
proof (induction v acc rule: b58_digits.induct)
  case (1 v acc)
  show ?case
  proof (cases "v = 0")
    case True
    then show ?thesis by (simp add: b58_digits.simps)
  next
    case False
    let ?c = "b58_alphabet ! (v mod 58)"
    have "b58_value (?c # acc) = (v mod 58) * 58 ^ length acc + b58_value acc"
      using b58_fold [of "v mod 58" acc] by (simp add: b58_value_def b58_val_nth)
    moreover have "v div 58 * 58 + v mod 58 = v" by (rule div_mult_mod_eq)
    then have "v div 58 * (58 * 58 ^ length acc) + (v mod 58) * 58 ^ length acc = v * 58 ^ length acc"
      by (metis distrib_right mult.assoc)
    ultimately show ?thesis
      using 1 [OF False] False by (subst b58_digits.simps) (simp add: algebra_simps)
  qed
qed

lemma b58_digits_hd: "0 < v \<Longrightarrow> b58_digits v acc \<noteq> [] \<and> hd (b58_digits v acc) \<noteq> CHR ''1''"
proof (induction v acc rule: b58_digits.induct)
  case (1 v acc)
  show ?case
  proof (cases "v div 58 = 0")
    case True
    then have "v mod 58 = v" by simp
    moreover have "v < 58" using True by simp
    ultimately show ?thesis
      using 1(2) b58_one [of v] by (simp add: b58_digits.simps [of v] b58_digits.simps [of 0])
  next
    case False
    then show ?thesis using 1 by (simp add: b58_digits.simps [of v])
  qed
qed

lemma bytes_value_snoc: "bytes_value (bs @ [b]) = bytes_value bs * 256 + b"
  by (simp add: bytes_value_def)

lemma bytes_value_pos: "bs \<noteq> [] \<Longrightarrow> hd bs \<noteq> 0 \<Longrightarrow> 0 < bytes_value bs"
proof (induction bs rule: rev_induct)
  case (snoc b bs)
  then show ?case by (cases bs) (auto simp: bytes_value_snoc bytes_value_def)
qed simp

lemma value_bytes_value:
  "\<forall>b \<in> set bs. b < 256 \<Longrightarrow> bs = [] \<or> hd bs \<noteq> 0 \<Longrightarrow> value_bytes (bytes_value bs) = bs"
proof (induction bs rule: rev_induct)
  case (snoc b bs)
  have b: "b < 256" using snoc.prems by simp
  have "bs = [] \<or> hd bs \<noteq> 0" using snoc.prems by (cases bs) auto
  then have ih: "value_bytes (bytes_value bs) = bs" using snoc by simp
  have "0 < bytes_value (bs @ [b])" using snoc.prems by (intro bytes_value_pos) auto
  then show ?case
    using b ih by (subst value_bytes.simps) (simp add: bytes_value_snoc)
qed (simp add: bytes_value_def value_bytes.simps)

lemma bytes_value_zeros: "bytes_value (replicate n 0 @ bs) = bytes_value bs"
proof -
  have "foldl (\<lambda>v b. v * 256 + b) 0 (replicate n 0) = (0 :: nat)" by (induction n) auto
  then show ?thesis by (simp add: bytes_value_def)
qed

text \<open>
  The base-58 text of a digest determines it: reading it back gives the bytes, leading zero
  bytes included.
\<close>

theorem base58_roundtrip:
  "of_base58 (base58 (map unat ws)) = map unat ws" for ws :: "8 word list"
proof -
  have rt: "of_base58 (base58 bs) = bs" if "\<forall>b \<in> set bs. b < 256" for bs
  proof -
    define z where "z = length (takeWhile (\<lambda>b. b = 0) bs)"
    define r where "r = dropWhile (\<lambda>b. b = 0) bs"
    have tw: "takeWhile (\<lambda>b. b = 0) bs = replicate z 0"
      unfolding z_def by (rule replicate_eqI [symmetric, THEN sym]) (auto dest: set_takeWhileD)
    have bs: "bs = replicate z 0 @ r" using takeWhile_dropWhile_id [of "\<lambda>b. b = 0" bs] tw by (simp add: r_def)
    have r: "r = [] \<or> hd r \<noteq> 0" unfolding r_def using hd_dropWhile [of "\<lambda>b. b = 0" bs] by blast
    have v: "bytes_value bs = bytes_value r" unfolding bs by (rule bytes_value_zeros)
    let ?d = "b58_digits (bytes_value bs) []"
    have d: "?d = [] \<or> hd ?d \<noteq> CHR ''1''"
      using b58_digits_hd [of "bytes_value bs" "[]"] by (cases "bytes_value bs = 0") (auto simp: b58_digits.simps)
    have "takeWhile (\<lambda>c. c = CHR ''1'') (replicate z (CHR ''1'') @ ?d) = replicate z (CHR ''1'')"
      using d by (cases ?d) (simp_all add: takeWhile_append)
    then have tw1: "takeWhile (\<lambda>c. c = CHR ''1'') (base58 bs) = replicate z (CHR ''1'')"
      by (simp add: base58_def z_def)
    have "b58_value (base58 bs) = bytes_value bs"
    proof -
      have "b58_val (CHR ''1'') = 0" by code_simp
      then have "foldl (\<lambda>v c. v * 58 + b58_val c) 0 (replicate z (CHR ''1'')) = (0 :: nat)" by (induction z) auto
      then show ?thesis
        using b58_value_digits [of "bytes_value bs" "[]"] by (simp add: base58_def b58_value_def flip: z_def)
    qed
    then have "of_base58 (base58 bs) = replicate z 0 @ value_bytes (bytes_value r)"
      by (simp add: of_base58_def tw1 v)
    moreover have "\<forall>b \<in> set r. b < 256" using that bs by (metis Un_iff set_append)
    ultimately show ?thesis using value_bytes_value [of r] r bs by simp
  qed
  have "unat u < 256" for u :: "8 word" by (rule order_less_le_trans [OF unsigned_less]) simp
  then have "\<forall>b \<in> set (map unat ws). b < 256" by auto
  then show ?thesis by (rule rt)
qed

end
