(* ===== verification/Sessions.thy ===== *)
theory Sessions
  imports Prelude
begin

text \<open>
  Requests that share a database. A request of the platform runs as a \<open>session\<close>: it answers,
  or it sends one statement (or one transaction) to the database and goes on with the answer.
  Statements are atomic; between two statements of a request anything else may happen, and a
  request may stop anywhere. A pool is the database with all sessions begun so far; an event
  begins a session, gives one its turn, or changes the world outside the requests.

  \<open>guaranteed I R Q d s\<close> is the contract of a session begun at a database \<open>d\<close>: as long as
  the database satisfies \<open>I\<close> and has evolved by \<open>R\<close> since the session last saw it, every
  statement keeps \<open>I\<close>, evolves by \<open>R\<close>, and the answer satisfies \<open>Q\<close>.
\<close>

datatype ('d, 'r) session = Reply "'r res" | Sql "'d \<Rightarrow> ('d, 'r) session \<times> 'd"

definition query :: "('d \<Rightarrow> 'a) \<Rightarrow> ('a \<Rightarrow> ('d, 'r) session) \<Rightarrow> ('d, 'r) session" where
  "query f k = Sql (\<lambda>d. (k (f d), d))"

text \<open>A transaction that fails leaves the database as it was.\<close>

definition transact :: "('d \<Rightarrow> ('a \<times> 'd) res) \<Rightarrow> ('a \<Rightarrow> ('d, 'r) session) \<Rightarrow> ('d, 'r) session" where
  "transact f k = Sql (\<lambda>d. case f d of Inl e \<Rightarrow> (Reply (Inl e), d) | Inr (a, d') \<Rightarrow> (k a, d'))"

definition liftS :: "'a res \<Rightarrow> ('a \<Rightarrow> ('d, 'r) session) \<Rightarrow> ('d, 'r) session" where
  "liftS r k = (case r of Inl e \<Rightarrow> Reply (Inl e) | Inr a \<Rightarrow> k a)"

definition needS :: "bool \<Rightarrow> js_error \<Rightarrow> ('d, 'r) session \<Rightarrow> ('d, 'r) session" where
  "needS b e s = (if b then s else Reply (Inl e))"

text \<open>\<open>await\<close> of a helper, errors included.\<close>

primrec bindS :: "('d, 'a) session \<Rightarrow> ('a res \<Rightarrow> ('d, 'b) session) \<Rightarrow> ('d, 'b) session" where
  "bindS (Reply r) f = f r"
| "bindS (Sql g) f = Sql (\<lambda>d. map_prod (\<lambda>s. bindS s f) (\<lambda>x. x) (g d))"

section \<open>Pools\<close>

datatype ('q, 'w) event = Call 'q | Turn nat | World 'w

fun pool_step ::
    "('q \<Rightarrow> ('d, 'r) session) \<Rightarrow> ('w \<Rightarrow> 'd \<Rightarrow> 'd) \<Rightarrow> ('q, 'w) event \<Rightarrow> 'd \<times> ('d, 'r) session list \<Rightarrow>
      'd \<times> ('d, 'r) session list" where
  "pool_step api world (Call q) (d, ss) = (d, ss @ [api q])"
| "pool_step api world (World w) (d, ss) = (world w d, ss)"
| "pool_step api world (Turn i) (d, ss) =
     (if i < length ss then
        (case ss ! i of Sql g \<Rightarrow> (let (s, d') = g d in (d', ss[i := s])) | Reply _ \<Rightarrow> (d, ss))
      else (d, ss))"

definition run_pool ::
    "('q \<Rightarrow> ('d, 'r) session) \<Rightarrow> ('w \<Rightarrow> 'd \<Rightarrow> 'd) \<Rightarrow> ('q, 'w) event list \<Rightarrow> 'd \<times> ('d, 'r) session list \<Rightarrow>
      'd \<times> ('d, 'r) session list" where
  "run_pool api world es p = fold (pool_step api world) es p"

inductive guaranteed ::
    "('d \<Rightarrow> bool) \<Rightarrow> ('d \<Rightarrow> 'd \<Rightarrow> bool) \<Rightarrow> ('r \<Rightarrow> bool) \<Rightarrow> 'd \<Rightarrow> ('d, 'r) session \<Rightarrow> bool"
  for I R Q where
  reply: "(\<And>a. r = Inr a \<Longrightarrow> Q a) \<Longrightarrow> guaranteed I R Q d (Reply r)"
| sql: "(\<And>d'. I d' \<Longrightarrow> R d d' \<Longrightarrow>
      I (snd (g d')) \<and> R d' (snd (g d')) \<and> guaranteed I R Q (snd (g d')) (fst (g d'))) \<Longrightarrow>
    guaranteed I R Q d (Sql g)"

inductive_cases guaranteed_Sql: "guaranteed I R Q d (Sql g)"
inductive_cases guaranteed_Reply: "guaranteed I R Q d (Reply r)"

locale evolution =
  fixes I :: "'d \<Rightarrow> bool" and R :: "'d \<Rightarrow> 'd \<Rightarrow> bool"
  assumes refl: "R d d" and trans: "R a b \<Longrightarrow> R b c \<Longrightarrow> R a c"
begin

lemma failed: "guaranteed I R Q d (Reply (Inl e))"
  by (rule reply) simp

lemma ret: "Q a \<Longrightarrow> guaranteed I R Q d (Reply (Inr a))"
  by (rule reply) simp

lemma queried:
  "(\<And>d'. I d' \<Longrightarrow> R d d' \<Longrightarrow> guaranteed I R Q d' (k (f d'))) \<Longrightarrow> guaranteed I R Q d (query f k)"
  unfolding query_def by (rule sql) (simp add: refl)

lemma transacted:
  assumes "\<And>d' a d''. I d' \<Longrightarrow> R d d' \<Longrightarrow> f d' = Inr (a, d'') \<Longrightarrow> I d'' \<and> R d' d'' \<and> guaranteed I R Q d'' (k a)"
  shows "guaranteed I R Q d (transact f k)"
  unfolding transact_def
proof (rule sql)
  fix d' assume d': "I d'" "R d d'"
  show "I (snd (case f d' of Inl e \<Rightarrow> (Reply (Inl e), d') | Inr (a, d') \<Rightarrow> (k a, d'))) \<and>
      R d' (snd (case f d' of Inl e \<Rightarrow> (Reply (Inl e), d') | Inr (a, d') \<Rightarrow> (k a, d'))) \<and>
      guaranteed I R Q (snd (case f d' of Inl e \<Rightarrow> (Reply (Inl e), d') | Inr (a, d') \<Rightarrow> (k a, d')))
        (fst (case f d' of Inl e \<Rightarrow> (Reply (Inl e), d') | Inr (a, d') \<Rightarrow> (k a, d')))"
  proof (cases "f d'")
    case (Inl e)
    then show ?thesis using d' by (simp add: refl failed)
  next
    case (Inr r)
    obtain a d'' where r: "r = (a, d'')" by (cases r)
    show ?thesis using assms [OF d', of a d''] Inr r by simp
  qed
qed

lemma lifted: "(\<And>a. r = Inr a \<Longrightarrow> guaranteed I R Q d (k a)) \<Longrightarrow> guaranteed I R Q d (liftS r k)"
  by (cases r) (auto simp: liftS_def intro: failed)

lemma needed: "(b \<Longrightarrow> guaranteed I R Q d s) \<Longrightarrow> guaranteed I R Q d (needS b e s)"
  by (auto simp: needS_def intro: failed)

lemma bound:
  fixes s :: "('d, 'p) session"
  assumes "guaranteed I R P d s"
    and "\<And>d' r. R d d' \<Longrightarrow> (\<And>a. r = Inr a \<Longrightarrow> P a) \<Longrightarrow> guaranteed I R Q d' (f r)"
  shows "guaranteed I R Q d (bindS s f)"
  using assms
proof (induction)
  case (reply r d)
  then show ?case using refl by simp
next
  case (sql d g)
  show ?case
    unfolding bindS.simps
  proof (rule guaranteed.sql)
    fix d' assume d': "I d'" "R d d'"
    have step: "I (snd (g d'))" "R d' (snd (g d'))"
      and IH: "(\<And>d2 r. R (snd (g d')) d2 \<Longrightarrow> (\<And>a. r = Inr a \<Longrightarrow> P a) \<Longrightarrow> guaranteed I R Q d2 (f r)) \<Longrightarrow>
        guaranteed I R Q (snd (g d')) (bindS (fst (g d')) f)"
      using sql.IH [OF d'] by blast+
    have "guaranteed I R Q (snd (g d')) (bindS (fst (g d')) f)"
    proof (rule IH)
      fix d2 and r :: "'p res" assume "R (snd (g d')) d2" "\<And>a. r = Inr a \<Longrightarrow> P a"
      then show "guaranteed I R Q d2 (f r)"
        using sql.prems d'(2) step(2) trans by blast
    qed
    with step show "I (snd (map_prod (\<lambda>s. bindS s f) (\<lambda>x. x) (g d'))) \<and>
        R d' (snd (map_prod (\<lambda>s. bindS s f) (\<lambda>x. x) (g d'))) \<and>
        guaranteed I R Q (snd (map_prod (\<lambda>s. bindS s f) (\<lambda>x. x) (g d')))
          (fst (map_prod (\<lambda>s. bindS s f) (\<lambda>x. x) (g d')))"
      by simp
  qed
qed

lemma later: "guaranteed I R Q d s \<Longrightarrow> R d d' \<Longrightarrow> guaranteed I R Q d' s"
proof (induction rule: guaranteed.induct)
  case (reply r d)
  then show ?case by (blast intro: guaranteed.reply)
next
  case (sql d g)
  then show ?case by (intro guaranteed.sql) (meson trans)
qed

end

locale platform = evolution I R
  for I :: "'d \<Rightarrow> bool" and R :: "'d \<Rightarrow> 'd \<Rightarrow> bool" +
  fixes api :: "'q \<Rightarrow> ('d, 'r) session" and world :: "'w \<Rightarrow> 'd \<Rightarrow> 'd" and Q :: "'r \<Rightarrow> bool"
  assumes api: "I d \<Longrightarrow> guaranteed I R Q d (api q)"
    and world: "I d \<Longrightarrow> I (world w d) \<and> R d (world w d)"
begin

definition sound :: "'d \<times> ('d, 'r) session list \<Rightarrow> bool" where
  "sound p \<longleftrightarrow> I (fst p) \<and> (\<forall>s \<in> set (snd p). guaranteed I R Q (fst p) s)"

lemma step_sound:
  assumes "sound p"
  shows "sound (pool_step api world e p) \<and> R (fst p) (fst (pool_step api world e p))"
proof -
  obtain d ss where p: "p = (d, ss)" by (cases p)
  have I: "I d" and ss: "\<And>s. s \<in> set ss \<Longrightarrow> guaranteed I R Q d s" using assms by (auto simp: sound_def p)
  show ?thesis
  proof (cases e)
    case (Call q)
    then show ?thesis using I ss api by (auto simp: p sound_def refl)
  next
    case (World w)
    then show ?thesis using I ss world [OF I, of w] by (auto simp: p sound_def intro: later)
  next
    case (Turn i)
    show ?thesis
    proof (cases "i < length ss")
      case i: True
      show ?thesis
      proof (cases "ss ! i")
        case (Reply r)
        then show ?thesis using I ss i Turn by (simp add: p sound_def refl)
      next
        case (Sql g)
        have "guaranteed I R Q d (Sql g)" using ss [OF nth_mem [OF i]] Sql by simp
        then have g: "I (snd (g d))" "R d (snd (g d))" "guaranteed I R Q (snd (g d)) (fst (g d))"
          using I refl by (auto elim: guaranteed_Sql)
        obtain s d' where gd: "g d = (s, d')" by (cases "g d")
        have step: "pool_step api world e p = (d', ss[i := s])" using i by (simp add: p Turn Sql gd)
        have "guaranteed I R Q d' s'" if "s' \<in> set (ss[i := s])" for s'
          using that g gd ss later [OF ss] set_update_subset_insert [of ss i s] by auto
        then show ?thesis unfolding step sound_def using g gd by (auto simp: p)
      qed
    qed (use I ss Turn in \<open>simp add: p sound_def refl\<close>)
  qed
qed

lemma run_sound:
  "sound p \<Longrightarrow> sound (run_pool api world es p) \<and> R (fst p) (fst (run_pool api world es p))"
proof (induction es arbitrary: p)
  case Nil
  then show ?case by (simp add: run_pool_def refl)
next
  case (Cons e es)
  note step = step_sound [OF Cons.prems, of e]
  have "run_pool api world (e # es) p = run_pool api world es (pool_step api world e p)"
    by (simp add: run_pool_def)
  then show ?case using step Cons.IH [of "pool_step api world e p"] trans by auto
qed

lemma run_replies:
  assumes "I d" "i < length (snd (run_pool api world es (d, [])))" "snd (run_pool api world es (d, [])) ! i = Reply (Inr a)"
  shows "Q a"
proof -
  have "sound (run_pool api world es (d, []))" using run_sound [of "(d, [])" es] assms(1) by (simp add: sound_def)
  then have "guaranteed I R Q (fst (run_pool api world es (d, []))) (Reply (Inr a))"
    using assms(2,3) by (metis nth_mem sound_def)
  then show ?thesis by (auto elim: guaranteed_Reply)
qed

lemma run_invariant: "I d \<Longrightarrow> I (fst (run_pool api world es (d, []))) \<and> R d (fst (run_pool api world es (d, [])))"
  using run_sound [of "(d, [])" es] by (simp add: sound_def)

lemma run_later:
  assumes "I d"
  shows "R (fst (run_pool api world es (d, []))) (fst (run_pool api world (es @ fs) (d, [])))"
  using run_sound [of "(d, [])" es] run_sound [of "run_pool api world es (d, [])" fs] assms
  by (simp add: sound_def run_pool_def)

end

end
