(* ===== verification/PlatformTasks.thy ===== *)
theory PlatformTasks
  imports Sessions TaskModel IsoDate "HOL-Library.Product_Lexorder"
begin

text \<open>
  The platform's task service, \<open>src/src/lib/platform/tasks.ts\<close>, over the table
  \<open>platform_tasks\<close> of \<open>src/db/migrations/017_general_tasks.sql\<close> with its constraints
  and its trigger. Every function is a \<open>session\<close>: its statements interleave with those of all
  other requests. The owner creates, approves, cancels and retries; a runner claims, submits a
  plan, reports progress, completes or blocks.

  Times are milliseconds. A uuid column compares without regard to case and prints in lower case.
  The other tables, the published services and the two clocks are the rest of the database record;
  they change as they please between statements. Fresh identifiers and tokens are arguments.
\<close>

section \<open>Tables\<close>

datatype claim_phase = PlanPhase | ExecutePhase

record task_row =
  tk_id :: string
  tk_user :: string
  tk_agent :: string
  tk_instruction :: string
  tk_budget :: string
  tk_key :: string
  tk_requestHash :: string
  tk_status :: TaskStatus
  tk_plan :: "task_plan option"
  tk_planHash :: "string option"
  tk_approved :: "string option"
  tk_approvalExpires :: "int option"
  tk_results :: "task_result list"
  tk_error :: "string option"
  tk_claimToken :: "string option"
  tk_claimWorker :: "string option"
  tk_claimPhase :: "claim_phase option"
  tk_claimUntil :: "int option"
  tk_host :: "string option"
  tk_revision :: int
  tk_created :: int
  tk_updated :: int

record order_row =
  or_orderId :: string
  or_user :: string
  or_agent :: string
  or_state :: string
  or_request :: json
  or_definition :: json
  or_serviceHash :: string
  or_requestHash :: string
  or_transaction :: string
  or_receipt :: service_receipt
  or_output :: json
  or_outputHash :: string

record task_db =
  td_tasks :: "task_row list"
  td_now :: int
  td_clock :: int
  td_users :: "(string \<times> string) list"
  td_agents :: "(string \<times> string) list"
  td_orders :: "order_row list"
  td_catalog :: "service_definition list res"

definition same_uuid :: "string \<Rightarrow> string \<Rightarrow> bool" where
  "same_uuid a b \<longleftrightarrow> to_lower a = to_lower b"

section \<open>Constraints and trigger\<close>

text \<open>The \<open>CHECK\<close> clauses; one that evaluates to \<open>NULL\<close> passes.\<close>

definition row_checks :: "task_row \<Rightarrow> bool" where
  "row_checks r \<longleftrightarrow>
     1 \<le> length (tk_instruction r) \<and> length (tk_instruction r) \<le> 12000 \<and>
     0 < dec_int (tk_budget r) \<and> dec_int (tk_budget r) < 2 ^ 256 \<and>
     (tk_plan r = None) = (tk_planHash r = None) \<and>
     (tk_approved r = None \<or> (tk_approved r = tk_planHash r \<and> tk_approvalExpires r \<noteq> None)) \<and>
     (tk_status r \<notin> {Approved, Running, Completed} \<or> tk_approved r \<noteq> None) \<and>
     (tk_status r \<notin> {Running, Completed} \<or> tk_host r \<noteq> None) \<and>
     (tk_status r \<noteq> Completed \<or>
       (case tk_plan r of None \<Rightarrow> True | Some p \<Rightarrow> length (tk_results r) = length (tp_steps p)))"

definition trigger_ok :: "task_row \<Rightarrow> task_row \<Rightarrow> bool" where
  "trigger_ok old new \<longleftrightarrow>
     (tk_user new, tk_agent new, tk_instruction new, tk_budget new, tk_key new, tk_requestHash new) =
       (tk_user old, tk_agent old, tk_instruction old, tk_budget old, tk_key old, tk_requestHash old) \<and>
     (tk_approved old = None \<or>
       (tk_plan new, tk_planHash new, tk_approved new, tk_approvalExpires new) =
         (tk_plan old, tk_planHash old, tk_approved old, tk_approvalExpires old)) \<and>
     (tk_host old = None \<or> tk_host new = tk_host old) \<and>
     take (length (tk_results old)) (tk_results new) = tk_results old"

text \<open>\<open>UPDATE ... SET f WHERE p RETURNING *\<close>.\<close>

definition update_tasks :: "(task_row \<Rightarrow> bool) \<Rightarrow> (task_row \<Rightarrow> task_row) \<Rightarrow> task_db \<Rightarrow> (task_row list \<times> task_db) res" where
  "update_tasks p f d =
     (let old = filter p (td_tasks d)
      in if list_all (\<lambda>r. trigger_ok r (f r) \<and> row_checks (f r)) old
         then Inr (map f old, d\<lparr>td_tasks := map (\<lambda>r. if p r then f r else r) (td_tasks d)\<rparr>)
         else Inl (Thrown ''constraint violation''))"

definition fresh_row :: "string \<Rightarrow> string \<Rightarrow> string \<Rightarrow> string \<Rightarrow> string \<Rightarrow> string \<Rightarrow> string \<Rightarrow> int \<Rightarrow> task_row" where
  "fresh_row i user agent instruction budget key h now =
     \<lparr>tk_id = i, tk_user = user, tk_agent = agent, tk_instruction = instruction, tk_budget = budget, tk_key = key,
      tk_requestHash = h, tk_status = Queued, tk_plan = None, tk_planHash = None, tk_approved = None,
      tk_approvalExpires = None, tk_results = [], tk_error = None, tk_claimToken = None, tk_claimWorker = None,
      tk_claimPhase = None, tk_claimUntil = None, tk_host = None, tk_revision = 0, tk_created = now, tk_updated = now\<rparr>"

section \<open>Replies\<close>

record general_task =
  gt_id :: string
  gt_agentId :: string
  gt_instruction :: string
  gt_budget :: string
  gt_status :: TaskStatus
  gt_plan :: "task_plan option"
  gt_planHash :: "string option"
  gt_approvedPlanHash :: "string option"
  gt_approvalExpiresAt :: "string option"
  gt_steps :: "task_result list"
  gt_error :: "string option"
  gt_createdAt :: string
  gt_updatedAt :: string

definition publicTask :: "task_row \<Rightarrow> general_task res" where
  "publicTask r =
     bindR (case tk_approvalExpires r of None \<Rightarrow> Inr None | Some t \<Rightarrow> bindR (to_iso t) (\<lambda>s. Inr (Some s))) (\<lambda>expires.
     bindR (to_iso (tk_created r)) (\<lambda>created.
     bindR (to_iso (tk_updated r)) (\<lambda>updated.
       Inr \<lparr>gt_id = tk_id r, gt_agentId = tk_agent r, gt_instruction = tk_instruction r, gt_budget = tk_budget r,
         gt_status = tk_status r, gt_plan = tk_plan r, gt_planHash = tk_planHash r, gt_approvedPlanHash = tk_approved r,
         gt_approvalExpiresAt = expires, gt_steps = tk_results r, gt_error = tk_error r, gt_createdAt = created,
         gt_updatedAt = updated\<rparr>)))"

datatype task_reply =
    OneTask general_task
  | CreatedTask general_task bool
  | Tasks "general_task list"
  | RunnerTasks string "general_task list"
  | Claimed "(general_task \<times> string \<times> claim_phase) option"

type_synonym task_session = "(task_db, task_reply) session"

definition one_task :: "task_row \<Rightarrow> task_session" where
  "one_task r = liftS (publicTask r) (\<lambda>t. Reply (Inr (OneTask t)))"

definition conflict :: "string \<Rightarrow> js_error" where
  "conflict s = Platform 409 ''TASK_CONFLICT'' s"

section \<open>Ownership\<close>

text \<open>\<open>/^[a-f\d]{8}-...-[a-f\d]{12}$/i\<close>: a uuid of any version.\<close>

definition uuid_shape :: "string \<Rightarrow> bool" where
  "uuid_shape s \<longleftrightarrow> length s = 36 \<and>
     list_all (\<lambda>i. if i \<in> {8, 13, 18, 23} then s ! i = CHR ''-'' else is_hex (s ! i)) [0..<36]"

definition assertUuid :: "string \<Rightarrow> unit res" where
  "assertUuid s = need (uuid_shape s) (Platform 404 ''NOT_FOUND'' ''Resource not found.'')"

definition requireOwnedAgent :: "string \<Rightarrow> string \<Rightarrow> (task_db, 'r) session \<Rightarrow> (task_db, 'r) session" where
  "requireOwnedAgent user agent k =
     liftS (assertUuid agent) (\<lambda>_.
     query (\<lambda>d. find (\<lambda>a. same_uuid (fst a) agent) (td_agents d)) (\<lambda>a.
     needS (case a of Some (_, u) \<Rightarrow> u = user | None \<Rightarrow> False) (Platform 404 ''AGENT_NOT_FOUND'' ''Agent not found.'') k))"

text \<open>\<open>JOIN platform_agents a ON a.id = t.agent_id AND a.user_id = t.user_id\<close>.\<close>

definition joined :: "task_db \<Rightarrow> task_row \<Rightarrow> bool" where
  "joined d r \<longleftrightarrow> list_ex (\<lambda>a. same_uuid (fst a) (tk_agent r) \<and> same_uuid (snd a) (tk_user r)) (td_agents d)"

definition ownedRow :: "string \<Rightarrow> string \<Rightarrow> (task_row \<Rightarrow> (task_db, 'r) session) \<Rightarrow> (task_db, 'r) session" where
  "ownedRow user i k =
     liftS (assertUuid i) (\<lambda>_.
     query (\<lambda>d. find (\<lambda>r. joined d r \<and> same_uuid (tk_id r) i \<and> same_uuid (tk_user r) user) (td_tasks d)) (\<lambda>row.
       liftS (of_opt (Platform 404 ''TASK_NOT_FOUND'' ''Task not found.'') row) k))"

definition newest_first :: "task_row list \<Rightarrow> task_row list" where
  "newest_first rs = sort_key (\<lambda>r. (- tk_created r, tk_id r)) rs"

definition listTasks :: "string \<Rightarrow> string option \<Rightarrow> task_session" where
  "listTasks user agent =
     (let rows = query (\<lambda>d. take 100 (newest_first (filter (\<lambda>r. joined d r \<and> same_uuid (tk_user r) user \<and>
            (case agent of None \<Rightarrow> True | Some a \<Rightarrow> same_uuid (tk_agent r) a)) (td_tasks d))))
          (\<lambda>rs. liftS (mapR publicTask rs) (\<lambda>ts. Reply (Inr (Tasks ts))))
      in case agent of
           None \<Rightarrow> rows
         | Some [] \<Rightarrow> Reply (Inl (Thrown ''invalid input syntax for type uuid''))
         | Some (c # cs) \<Rightarrow> requireOwnedAgent user (c # cs) rows)"

definition getTask :: "string \<Rightarrow> string \<Rightarrow> task_session" where
  "getTask user i = ownedRow user i one_task"

section \<open>Creating a task\<close>

definition p_create :: "json \<Rightarrow> (string \<times> string \<times> string) option" where
  "p_create v =
     (if \<not> strict [''agentId'', ''instruction'', ''budgetAtomic''] v then None
      else Option.bind (field v ''agentId'' (\<lambda>a. check is_uuid (as_str a))) (\<lambda>agent.
        Option.bind (check (\<lambda>s. 1 \<le> length s \<and> length s \<le> 12000) (map_option trim (fstr v ''instruction''))) (\<lambda>instruction.
        Option.bind (check atomic_ok (fstr v ''budgetAtomic'')) (\<lambda>budget. Some (agent, instruction, budget)))))"

definition is_key :: "string option \<Rightarrow> bool" where
  "is_key k = (case k of Some s \<Rightarrow> s \<noteq> [] \<and> length s \<le> 128 \<and> list_all (char_between 33 126) s | None \<Rightarrow> False)"

definition is_open :: "task_row \<Rightarrow> bool" where
  "is_open r \<longleftrightarrow> tk_status r \<notin> {Completed, Cancelled}"

definition open_tasks :: "string \<Rightarrow> task_row list \<Rightarrow> nat" where
  "open_tasks agent rs = length (filter (\<lambda>r. same_uuid (tk_agent r) agent \<and> is_open r) rs)"

definition same_request :: "string \<Rightarrow> string \<Rightarrow> string \<Rightarrow> task_row \<Rightarrow> bool" where
  "same_request user agent key r \<longleftrightarrow> same_uuid (tk_user r) user \<and> same_uuid (tk_agent r) agent \<and> tk_key r = key"

text \<open>The insert under the agent's lock: at most 25 open tasks, one task per key.\<close>

definition insert_task ::
    "string \<Rightarrow> string \<Rightarrow> string \<Rightarrow> string \<Rightarrow> string \<Rightarrow> string \<Rightarrow> string \<Rightarrow> task_db \<Rightarrow> (task_row option \<times> task_db) res" where
  "insert_task i user agent instruction budget key h d =
     (let r = fresh_row (to_lower i) (to_lower user) (to_lower agent) instruction budget key h (td_now d)
      in if 25 \<le> open_tasks agent (td_tasks d) then Inr (None, d)
         else if \<not> row_checks r then Inl (Thrown ''constraint violation'')
         else if list_ex (same_request user agent key) (td_tasks d) then Inr (None, d)
         else if list_ex (\<lambda>q. tk_id q = tk_id r) (td_tasks d) \<or> \<not> joined d r then Inl (Thrown ''constraint violation'')
         else Inr (Some r, d\<lparr>td_tasks := td_tasks d @ [r]\<rparr>))"

definition createTask :: "ext \<Rightarrow> string \<Rightarrow> string \<Rightarrow> json \<Rightarrow> string option \<Rightarrow> task_session" where
  "createTask x fresh user v key =
     liftS (of_opt Zod (p_create v)) (\<lambda>(agent, instruction, budget).
     needS (is_key key) (Platform 400 ''IDEMPOTENCY_REQUIRED'' ''Provide a stable Idempotency-Key for this task.'')
     (requireOwnedAgent user agent
     (liftS (canonicalJsonHash x (JObj [(''agentId'', JStr agent), (''instruction'', JStr instruction), (''budgetAtomic'', JStr budget)])) (\<lambda>h.
     let k = (case key of Some s \<Rightarrow> s | None \<Rightarrow> [])
     in transact (insert_task fresh user agent instruction budget k h) (\<lambda>created.
        case created of
          Some r \<Rightarrow> liftS (publicTask r) (\<lambda>t. Reply (Inr (CreatedTask t False)))
        | None \<Rightarrow>
            query (\<lambda>d. find (same_request user agent k) (td_tasks d)) (\<lambda>row.
            liftS (of_opt (Platform 409 ''TASK_LIMIT'' ''This agent has 25 open tasks. Finish or cancel an existing task first.'') row) (\<lambda>r.
            needS (tk_requestHash r = h) (conflict ''This Idempotency-Key already belongs to a different request.'')
            (liftS (publicTask r) (\<lambda>t. Reply (Inr (CreatedTask t True)))))))))))"

section \<open>The owner's actions\<close>

datatype owner_action = Approve string | Cancel | Retry

definition p_owner_action :: "json \<Rightarrow> owner_action option" where
  "p_owner_action v =
     (if fstr v ''action'' = Some ''approve'' \<and> strict [''action'', ''planHash''] v
      then map_option Approve (check (lower_hex_n 64) (fstr v ''planHash''))
      else if fstr v ''action'' = Some ''cancel'' \<and> strict [''action''] v then Some Cancel
      else if fstr v ''action'' = Some ''retry'' \<and> strict [''action''] v then Some Retry
      else None)"

text \<open>Every update names the row it was computed from by its revision.\<close>

definition this_row :: "task_row \<Rightarrow> task_row \<Rightarrow> bool" where
  "this_row row r \<longleftrightarrow> same_uuid (tk_id r) (tk_id row) \<and> tk_revision r = tk_revision row"

definition touched :: "int \<Rightarrow> task_row \<Rightarrow> task_row" where
  "touched now r = r\<lparr>tk_revision := tk_revision r + 1, tk_updated := now\<rparr>"

definition approve_row :: "int \<Rightarrow> task_row \<Rightarrow> task_row" where
  "approve_row now r = touched now (r\<lparr>tk_status := Approved, tk_approved := tk_planHash r,
     tk_approvalExpires := Some (now + 3600000), tk_claimUntil := None, tk_error := None\<rparr>)"

definition cancel_row :: "int \<Rightarrow> task_row \<Rightarrow> task_row" where
  "cancel_row now r = touched now (r\<lparr>tk_status := Cancelled, tk_claimToken := None, tk_claimUntil := None\<rparr>)"

definition retry_row :: "int \<Rightarrow> task_row \<Rightarrow> task_row" where
  "retry_row now r = touched now (r\<lparr>tk_status := (if tk_approved r \<noteq> None then Approved else Queued),
     tk_error := None, tk_claimUntil := None\<rparr>)"

text \<open>One conditional update; the first returned row, if any.\<close>

definition update_one ::
    "(task_row \<Rightarrow> bool) \<Rightarrow> (int \<Rightarrow> task_row \<Rightarrow> task_row) \<Rightarrow> (task_row option \<Rightarrow> (task_db, 'r) session) \<Rightarrow> (task_db, 'r) session" where
  "update_one p f k =
     transact (\<lambda>d. update_tasks p (f (td_now d)) d) (\<lambda>rs. k (case rs of [] \<Rightarrow> None | r # _ \<Rightarrow> Some r))"

definition approve_task :: "ext \<Rightarrow> string \<Rightarrow> string \<Rightarrow> task_row \<Rightarrow> task_session" where
  "approve_task x user h row =
     (let stale = Platform 409 ''STALE_PLAN'' ''The plan changed. Review the current plan before approving.''
      in liftS (case tk_plan row of
           Some p \<Rightarrow> (if tk_planHash row = Some h then bindR (taskPlanHash x p) (\<lambda>g. need (g = h) stale) else Inl stale)
         | None \<Rightarrow> Inl stale) (\<lambda>_.
         if tk_approved row = Some h then one_task row
         else update_one (\<lambda>r. this_row row r \<and> same_uuid (tk_user r) user \<and> tk_status r = NeedsApproval \<and>
             tk_planHash r = Some h) approve_row (\<lambda>updated.
           liftS (of_opt (conflict ''This task is no longer waiting for approval.'') updated) one_task)))"

definition cancel_task :: "string \<Rightarrow> task_row \<Rightarrow> task_session" where
  "cancel_task user row =
     (if tk_status row = Cancelled then one_task row
      else update_one (\<lambda>r. this_row row r \<and> same_uuid (tk_user r) user \<and> tk_host r = None \<and> is_open r) cancel_row (\<lambda>updated.
        liftS (of_opt (conflict ''Execution has started. Preserve this task to recover its existing payments.'') updated) one_task))"

definition retry_task :: "string \<Rightarrow> task_row \<Rightarrow> task_session" where
  "retry_task user row =
     update_one (\<lambda>r. this_row row r \<and> same_uuid (tk_user r) user \<and> tk_status r = Blocked) retry_row (\<lambda>updated.
       case updated of
         Some r \<Rightarrow> one_task r
       | None \<Rightarrow> if tk_status row \<in> {Queued, Approved, Running} then one_task row
                 else Reply (Inl (conflict ''Only a blocked task can be retried.'')))"

definition updateTask :: "ext \<Rightarrow> string \<Rightarrow> string \<Rightarrow> json \<Rightarrow> task_session" where
  "updateTask x user i v =
     liftS (of_opt Zod (p_owner_action v)) (\<lambda>a.
     ownedRow user i (\<lambda>row. case a of
         Approve h \<Rightarrow> approve_task x user h row
       | Cancel \<Rightarrow> cancel_task user row
       | Retry \<Rightarrow> retry_task user row))"

section \<open>The runner's view\<close>

definition active_first :: "task_row list \<Rightarrow> task_row list" where
  "active_first rs =
     sort_key (\<lambda>r. (if tk_status r \<in> {Queued, Planning, Approved, Running} then 0 else 1 :: int, - tk_created r, tk_id r)) rs"

definition owner_of :: "task_db \<Rightarrow> string \<Rightarrow> (string \<times> string) option" where
  "owner_of d agent =
     Option.bind (find (\<lambda>a. same_uuid (fst a) agent \<and> list_ex (\<lambda>u. same_uuid (fst u) (snd a)) (td_users d)) (td_agents d)) (\<lambda>a.
     map_option (\<lambda>u. (snd u, snd a)) (find (\<lambda>u. same_uuid (fst u) (snd a)) (td_users d)))"

definition listRunnerTasks :: "string \<Rightarrow> string option \<Rightarrow> bool \<Rightarrow> task_session" where
  "listRunnerTasks agent task identityOnly =
     liftS (assertUuid agent) (\<lambda>_.
     query (\<lambda>d. owner_of d agent) (\<lambda>w.
     liftS (of_opt (Platform 404 ''AGENT_NOT_FOUND'' ''Agent not found.'') w) (\<lambda>(address, user).
     if identityOnly then Reply (Inr (RunnerTasks address []))
     else case task of
       Some (c # cs) \<Rightarrow>
         liftS (assertUuid (c # cs)) (\<lambda>_.
         query (\<lambda>d. filter (\<lambda>r. same_uuid (tk_id r) (c # cs) \<and> same_uuid (tk_agent r) agent \<and> same_uuid (tk_user r) user) (td_tasks d)) (\<lambda>rs.
         needS (rs \<noteq> []) (Platform 404 ''TASK_NOT_FOUND'' ''Task not found.'')
         (liftS (mapR publicTask rs) (\<lambda>ts. Reply (Inr (RunnerTasks address ts))))))
     | _ \<Rightarrow>
         query (\<lambda>d. take 100 (active_first (filter (\<lambda>r. same_uuid (tk_agent r) agent \<and> same_uuid (tk_user r) user) (td_tasks d)))) (\<lambda>rs.
         liftS (mapR publicTask rs) (\<lambda>ts. Reply (Inr (RunnerTasks address ts)))))))"

section \<open>Claims\<close>

definition is_worker :: "string \<Rightarrow> bool" where
  "is_worker s \<longleftrightarrow> s \<noteq> [] \<and> length s \<le> 128 \<and> list_all (\<lambda>c. is_alnum c \<or> c \<in> set ''._:-'') s"

definition p_claim :: "json \<Rightarrow> string option" where
  "p_claim v =
     (if strict [''action'', ''workerId''] v \<and> fstr v ''action'' = Some ''claim''
      then check is_worker (fstr v ''workerId'') else None)"

text \<open>A free claim: none, expired, or the worker's own.\<close>

definition claim_free :: "int \<Rightarrow> string \<Rightarrow> task_row \<Rightarrow> bool" where
  "claim_free now w r \<longleftrightarrow>
     (case tk_claimUntil r of None \<Rightarrow> True | Some t \<Rightarrow> t < now) \<or> tk_claimWorker r = Some w"

definition claimable :: "int \<Rightarrow> string \<Rightarrow> task_row \<Rightarrow> bool" where
  "claimable now w r \<longleftrightarrow>
     tk_status r \<in> {Queued, Planning} \<and> claim_free now w r \<or>
     tk_status r \<in> {Approved, Running} \<and> (tk_host r = None \<or> tk_host r = Some w) \<and>
       (tk_host r \<noteq> None \<or> (case tk_approvalExpires r of None \<Rightarrow> False | Some t \<Rightarrow> now < t)) \<and> claim_free now w r"

definition candidate :: "string \<Rightarrow> string \<Rightarrow> task_db \<Rightarrow> task_row option" where
  "candidate agent w d =
     (case sort_key (\<lambda>r. (if tk_claimWorker r = Some w then 0 else 1 :: int, tk_created r, tk_id r))
        (filter (\<lambda>r. joined d r \<and> same_uuid (tk_agent r) agent \<and> claimable (td_now d) w r) (td_tasks d)) of
        [] \<Rightarrow> None | r # _ \<Rightarrow> Some r)"

definition claim_row :: "string \<Rightarrow> string \<Rightarrow> int \<Rightarrow> task_row \<Rightarrow> task_row" where
  "claim_row w token now r = touched now (r\<lparr>
     tk_status := (if tk_approved r = None then Planning else Running),
     tk_claimPhase := Some (if tk_approved r = None then PlanPhase else ExecutePhase),
     tk_claimToken := (if tk_claimWorker r = Some w \<and> tk_claimToken r \<noteq> None then tk_claimToken r else Some token),
     tk_claimWorker := Some w, tk_claimUntil := Some (now + 120000),
     tk_host := (if tk_approved r \<noteq> None then (if tk_host r = None then Some w else tk_host r) else tk_host r)\<rparr>)"

definition claimTask :: "string \<Rightarrow> string \<Rightarrow> json \<Rightarrow> task_session" where
  "claimTask token agent v =
     liftS (assertUuid agent) (\<lambda>_.
     liftS (of_opt Zod (p_claim v)) (\<lambda>w.
     transact (\<lambda>d. case candidate agent w d of
         None \<Rightarrow> Inr ([], d)
       | Some c \<Rightarrow> update_tasks (\<lambda>r. tk_id r = tk_id c) (claim_row w token (td_now d)) d) (\<lambda>rs.
     case rs of
       [] \<Rightarrow> Reply (Inr (Claimed None))
     | r # _ \<Rightarrow> liftS (publicTask r) (\<lambda>t. Reply (Inr (Claimed (Some (t, (case tk_claimToken r of Some s \<Rightarrow> s | None \<Rightarrow> ''null''),
         (case tk_claimPhase r of Some p \<Rightarrow> p | None \<Rightarrow> PlanPhase)))))))))"

section \<open>Paid steps\<close>

definition result_json :: "task_result \<Rightarrow> json" where
  "result_json r = JObj [(''index'', JNum (num_of_int (tr_index r))), (''orderId'', JStr (tr_orderId r)),
     (''transactionHash'', JStr (tr_transaction r)), (''outputHash'', JStr (tr_outputHash r)), (''output'', tr_output r)]"

record deployment =
  dm_settlement :: string
  dm_ledger :: string

text \<open>What a paid order must say for a step of the approved plan: the step, the order's name and
  the resolved input.\<close>

definition paid_terms :: "ext \<Rightarrow> deployment option \<Rightarrow> task_row \<Rightarrow> nat \<Rightarrow> (task_step \<times> string \<times> json) res" where
  "paid_terms x dep row i =
     bindR (publicTask row) (\<lambda>task.
     bindR (case (gt_plan task, gt_planHash task) of
         (Some p, Some h) \<Rightarrow>
           if gt_approvedPlanHash task = Some h then bindR (taskPlanHash x p) (\<lambda>g.
             if g = h then Inr (p, h) else Inl (conflict ''An owner-approved plan is required.''))
           else Inl (conflict ''An owner-approved plan is required.'')
       | _ \<Rightarrow> Inl (conflict ''An owner-approved plan is required.'')) (\<lambda>(p, h).
     bindR (of_opt (conflict ''Invalid task step.'') (if i < length (tp_steps p) then Some (tp_steps p ! i) else None)) (\<lambda>s.
     bindR (need (case dep of None \<Rightarrow> False | Some e \<Rightarrow> st_settlement (ts_definition s) = dm_settlement e \<and>
         st_ledger (ts_definition s) = dm_ledger e) (conflict ''The approved service belongs to another economy deployment.'')) (\<lambda>_.
     bindR (taskStepOrderId x (gt_id task) h (int i)) (\<lambda>order_id.
     bindR (resolveTaskInput x (ts_input s) (map tr_output (take i (gt_steps task)))) (\<lambda>input.
     bindR (validateSchemaValue input (st_input (ts_definition s)) (64 * 1024)) (\<lambda>_.
       Inr (s, order_id, input))))))))"

definition find_order :: "task_db \<Rightarrow> task_row \<Rightarrow> string \<Rightarrow> order_row option" where
  "find_order d row order_id =
     find (\<lambda>q. or_orderId q = order_id \<and> same_uuid (or_user q) (tk_user row) \<and> same_uuid (or_agent q) (tk_agent row) \<and>
       list_ex (\<lambda>a. same_uuid (fst a) (or_agent q) \<and> same_uuid (snd a) (or_user q)) (td_agents d)) (td_orders d)"

definition check_paid :: "ext \<Rightarrow> task_row \<Rightarrow> nat \<Rightarrow> task_step \<times> string \<times> json \<Rightarrow> order_row option \<Rightarrow> task_result res" where
  "check_paid x row i terms found =
     (let (s, order_id, input) = terms
      in bindR (of_opt (Platform 409 ''TASK_ORDER_PENDING'' ''The approved service order has not delivered a paid result.'')
           (check (\<lambda>q. or_state q = ''fulfilled'') found)) (\<lambda>q.
         bindR (validateServiceRequest x (ts_definition s) (or_request q)) (\<lambda>request.
         bindR (canonicalJsonHash x (or_definition q)) (\<lambda>dh.
         bindR (canonicalJsonHash x (definition_json (ts_definition s))) (\<lambda>sh.
         bindR (canonicalJsonHash x input) (\<lambda>ih.
         bindR (canonicalJsonHash x (request_json request)) (\<lambda>rh.
         bindR (need (dh = sh \<and> or_serviceHash q = ts_serviceHash s \<and> rq_orderId request = order_id \<and>
             rq_agentId request = text_hash x (tk_agent row) \<and> rq_inputHash request = ih \<and> or_requestHash q = rh \<and>
             or_transaction q = rq_transaction request)
           (conflict ''Paid order does not match the approved owner, agent, input and service.'')) (\<lambda>_.
         bindR (verifyServiceSettlement x (ts_definition s) request (or_receipt q)) (\<lambda>_.
         bindR (validateSchemaValue (or_output q) (st_output (ts_definition s)) (128 * 1024)) (\<lambda>_.
         bindR (canonicalJsonHash x (or_output q)) (\<lambda>oh.
         bindR (need (or_outputHash q = oh) (conflict ''Delivered output hash does not match its body.'')) (\<lambda>_.
           Inr \<lparr>tr_index = int i, tr_orderId = order_id, tr_transaction = or_transaction q,
             tr_outputHash = or_outputHash q, tr_output = or_output q\<rparr>))))))))))))"

definition verifyPaidStep :: "ext \<Rightarrow> deployment option \<Rightarrow> task_row \<Rightarrow> nat \<Rightarrow> (task_db, task_result) session" where
  "verifyPaidStep x dep row i =
     liftS (paid_terms x dep row i) (\<lambda>terms.
     query (\<lambda>d. find_order d row (fst (snd terms))) (\<lambda>found. Reply (check_paid x row i terms found)))"

definition platform_error :: "js_error \<Rightarrow> bool" where
  "platform_error e = (case e of Platform _ _ _ \<Rightarrow> True | _ \<Rightarrow> False)"

definition verifiedStep :: "ext \<Rightarrow> deployment option \<Rightarrow> task_row \<Rightarrow> nat \<Rightarrow> (task_db, task_result) session" where
  "verifiedStep x dep row i =
     bindS (verifyPaidStep x dep row i) (\<lambda>r. Reply (case r of
         Inr v \<Rightarrow> Inr v
       | Inl e \<Rightarrow> Inl (if platform_error e then e
           else Platform 409 ''TASK_ORDER_MISMATCH'' ''The order does not contain valid paid delivery evidence for this approved step.'')))"

text \<open>The recorded results, each verified again.\<close>

primrec confirm_results :: "ext \<Rightarrow> deployment option \<Rightarrow> task_row \<Rightarrow> task_result list \<Rightarrow> nat \<Rightarrow> (task_db, unit) session" where
  "confirm_results x dep row [] i = Reply (Inr ())"
| "confirm_results x dep row (r # rs) i =
     bindS (verifiedStep x dep row i) (\<lambda>v. liftS v (\<lambda>a.
       if canonicalJson (result_json a) = canonicalJson (result_json r) then confirm_results x dep row rs (Suc i)
       else Reply (Inl (conflict ''Recorded task result does not match its paid order.''))))"

section \<open>The runner's updates\<close>

datatype runner_action = SubmitPlan json | Progress int string | Complete | Block string

definition is_token :: "string \<Rightarrow> bool" where
  "is_token s \<longleftrightarrow> length s = 64 \<and> list_all is_lower_hex s"

definition p_runner_action :: "json \<Rightarrow> (string \<times> runner_action) option" where
  "p_runner_action v =
     Option.bind (check is_token (fstr v ''claimToken'')) (\<lambda>token.
     Option.bind (fstr v ''action'') (\<lambda>a.
     map_option (Pair token)
       (if a = ''plan'' \<and> strict [''action'', ''claimToken'', ''plan''] v
        then Some (SubmitPlan (case fld v ''plan'' of Some p \<Rightarrow> p | None \<Rightarrow> JNull))
        else if a = ''progress'' \<and> strict [''action'', ''claimToken'', ''index'', ''orderId''] v
        then Option.bind (check (\<lambda>i. 0 \<le> i \<and> i \<le> 4) (fint v ''index'')) (\<lambda>i.
          map_option (Progress i) (check (lower_hex_n 64) (fstr v ''orderId'')))
        else if a = ''complete'' \<and> strict [''action'', ''claimToken''] v then Some Complete
        else if a = ''blocked'' \<and> strict [''action'', ''claimToken'', ''error''] v
        then map_option Block (check (\<lambda>s. 1 \<le> length s \<and> length s \<le> 2000) (map_option trim (fstr v ''error'')))
        else None)))"

text \<open>The update all actions end with; the values were computed from \<open>row\<close>.\<close>

definition runner_row ::
    "TaskStatus \<Rightarrow> task_plan option \<Rightarrow> string option \<Rightarrow> task_result list \<Rightarrow> string option \<Rightarrow> int \<Rightarrow> task_row \<Rightarrow> task_row" where
  "runner_row st p h rs e now r = touched now (r\<lparr>tk_status := st, tk_plan := p, tk_planHash := h, tk_results := rs,
     tk_error := e, tk_claimUntil := Some (now + 120000)\<rparr>)"

definition finish_update ::
    "string \<Rightarrow> string \<Rightarrow> task_row \<Rightarrow> TaskStatus \<Rightarrow> task_plan option \<Rightarrow> string option \<Rightarrow> task_result list \<Rightarrow> string option \<Rightarrow> task_session" where
  "finish_update agent token row st p h rs e =
     update_one (\<lambda>r. this_row row r \<and> same_uuid (tk_agent r) agent \<and> tk_claimToken r = Some token)
       (runner_row st p h rs e) (\<lambda>updated.
       liftS (of_opt (conflict ''The task changed concurrently. Read it and retry the same update.'') updated) one_task)"

definition deployed :: "deployment option \<Rightarrow> service_definition \<Rightarrow> bool" where
  "deployed dep s = (case dep of None \<Rightarrow> False
     | Some e \<Rightarrow> st_settlement s = dm_settlement e \<and> st_ledger s = dm_ledger e)"

definition submit_plan :: "ext \<Rightarrow> deployment option \<Rightarrow> string \<Rightarrow> string \<Rightarrow> task_row \<Rightarrow> json \<Rightarrow> task_session" where
  "submit_plan x dep agent token row v =
     needS (tk_claimPhase row = Some PlanPhase \<and> tk_status row \<in> {Planning, NeedsApproval}) (conflict ''A planning claim is required.'')
     (query td_catalog (\<lambda>catalog.
      liftS (case bindR catalog (\<lambda>ss. createTaskPlan x v (filter (deployed dep) ss) (tk_budget row)) of
          Inr p \<Rightarrow> Inr p
        | Inl _ \<Rightarrow> Inl (Platform 400 ''INVALID_TASK_PLAN'' ''The plan must use available services, valid inputs, earlier outputs and the approved budget.'')) (\<lambda>p.
      liftS (taskPlanHash x p) (\<lambda>h.
      if tk_status row = NeedsApproval
      then (if tk_planHash row = Some h then one_task row else Reply (Inl (conflict ''A submitted plan cannot be replaced.'')))
      else query td_clock (\<lambda>now.
        needS (case tk_claimUntil row of None \<Rightarrow> True | Some t \<Rightarrow> now < t) (conflict ''The planning lease expired. Claim the task again.'')
        (finish_update agent token row NeedsApproval (Some p) (Some h) (tk_results row) None))))))"

definition report_progress ::
    "ext \<Rightarrow> deployment option \<Rightarrow> string \<Rightarrow> string \<Rightarrow> string \<Rightarrow> task_row \<Rightarrow> int \<Rightarrow> string \<Rightarrow> task_session" where
  "report_progress x dep agent task_id token row i order_id =
     (let wrong = conflict ''Progress must identify the next deterministic approved order.''
      in needS (i \<le> int (length (tk_results row))) wrong
         (liftS (taskStepOrderId x task_id (case tk_planHash row of Some h \<Rightarrow> h | None \<Rightarrow> ''null'') i) (\<lambda>expected.
          needS (order_id = expected) wrong
          (bindS (verifiedStep x dep row (nat i)) (\<lambda>v. liftS v (\<lambda>res.
           if nat i < length (tk_results row)
           then (if canonicalJson (result_json (tk_results row ! nat i)) = canonicalJson (result_json res) then one_task row
                 else Reply (Inl (conflict ''Recorded task results are immutable.'')))
           else finish_update agent token row (tk_status row) (tk_plan row) (tk_planHash row) (tk_results row @ [res]) None))))))"

definition complete_task :: "ext \<Rightarrow> deployment option \<Rightarrow> string \<Rightarrow> string \<Rightarrow> task_row \<Rightarrow> task_session" where
  "complete_task x dep agent token row =
     (case tk_plan row of
        None \<Rightarrow> Reply (Inl (Thrown ''TypeError''))
      | Some p \<Rightarrow>
          needS (length (tk_results row) = length (tp_steps p)) (conflict ''Every approved step must have a verified paid result.'')
          (bindS (confirm_results x dep row (tk_results row) 0) (\<lambda>v. liftS v (\<lambda>_.
             finish_update agent token row Completed (tk_plan row) (tk_planHash row) (tk_results row) None))))"

definition block_task :: "string \<Rightarrow> string \<Rightarrow> task_row \<Rightarrow> string \<Rightarrow> task_session" where
  "block_task agent token row message =
     needS (tk_status row \<in> {Planning, Running, Blocked}) (conflict ''This task cannot be blocked by this claim.'')
     (finish_update agent token row Blocked (tk_plan row) (tk_planHash row) (tk_results row) (Some message))"

definition updateRunnerTask :: "ext \<Rightarrow> deployment option \<Rightarrow> string \<Rightarrow> string \<Rightarrow> json \<Rightarrow> task_session" where
  "updateRunnerTask x dep agent i v =
     liftS (assertUuid agent) (\<lambda>_. liftS (assertUuid i) (\<lambda>_.
     liftS (of_opt Zod (p_runner_action v)) (\<lambda>(token, a).
     query (\<lambda>d. find (\<lambda>r. joined d r \<and> same_uuid (tk_id r) i \<and> same_uuid (tk_agent r) agent \<and> tk_claimToken r = Some token) (td_tasks d)) (\<lambda>found.
     liftS (of_opt (Platform 409 ''INVALID_TASK_CLAIM'' ''The task claim is invalid.'') found) (\<lambda>row.
     case a of
       SubmitPlan p \<Rightarrow> submit_plan x dep agent token row p
     | Block e \<Rightarrow> block_task agent token row e
     | Progress k order_id \<Rightarrow>
         needS (tk_claimPhase row = Some ExecutePhase \<and> tk_status row \<in> {Running, Completed}) (conflict ''An execution claim is required.'')
         (report_progress x dep agent i token row k order_id)
     | Complete \<Rightarrow>
         needS (tk_claimPhase row = Some ExecutePhase \<and> tk_status row \<in> {Running, Completed}) (conflict ''An execution claim is required.'')
         (complete_task x dep agent token row))))))"

end
