(* ===== verification/TaskSafety.thy ===== *)
theory TaskSafety
  imports PlatformTasks
begin

text \<open>
  What the task service guarantees about its table, whatever requests are made and however their
  statements interleave: what an approved plan and a recorded result mean, that at most 25 tasks of
  an agent are open, and what never changes once it is written.
\<close>

section \<open>Requests and histories\<close>

datatype task_request =
    ListTasks string "string option"
  | GetTask string string
  | CreateTask string string json "string option"
  | UpdateTask string string json
  | ListRunnerTasks string "string option" bool
  | ClaimTask string string json
  | UpdateRunnerTask string string json

fun task_api :: "ext \<Rightarrow> deployment option \<Rightarrow> task_request \<Rightarrow> task_session" where
  "task_api x dep (ListTasks user agent) = listTasks user agent"
| "task_api x dep (GetTask user i) = getTask user i"
| "task_api x dep (CreateTask fresh user v key) = createTask x fresh user v key"
| "task_api x dep (UpdateTask user i v) = updateTask x user i v"
| "task_api x dep (ListRunnerTasks agent i b) = listRunnerTasks agent i b"
| "task_api x dep (ClaimTask token agent v) = claimTask token agent v"
| "task_api x dep (UpdateRunnerTask agent i v) = updateRunnerTask x dep agent i v"

text \<open>Everything but the task table may change between statements.\<close>

definition task_world :: "task_db \<Rightarrow> task_db \<Rightarrow> task_db" where
  "task_world w d = w\<lparr>td_tasks := td_tasks d\<rparr>"

definition task_history :: "ext \<Rightarrow> deployment option \<Rightarrow> (task_request, task_db) event list \<Rightarrow> task_db \<Rightarrow> task_db" where
  "task_history x dep es d = fst (run_pool (task_api x dep) task_world es (d\<lparr>td_tasks := []\<rparr>, []))"

section \<open>Sound rows\<close>

definition plan_cost :: "task_plan \<Rightarrow> int" where
  "plan_cost p = (\<Sum>s \<leftarrow> tp_steps p. step_cost (ts_definition s))"

text \<open>Result \<open>i\<close> of a task: its order is the one the approved plan names, the order's request
  is for the resolved input, a receipt settles it, and the output fits its schema and its hash.\<close>

definition step_proof :: "ext \<Rightarrow> task_row \<Rightarrow> nat \<Rightarrow> task_result \<Rightarrow> bool" where
  "step_proof x r i res \<longleftrightarrow>
     (\<exists>p h. tk_plan r = Some p \<and> tk_planHash r = Some h \<and> tk_approved r = Some h \<and> i < length (tp_steps p) \<and>
       (let s = tp_steps p ! i in
         tr_index res = int i \<and> taskStepOrderId x (tk_id r) h (int i) = Inr (tr_orderId res) \<and>
         canonicalJsonHash x (tr_output res) = Inr (tr_outputHash res) \<and>
         validateSchemaValue (tr_output res) (st_output (ts_definition s)) (128 * 1024) = Inr () \<and>
         (\<exists>v request receipt proof input.
           validateServiceRequest x (ts_definition s) v = Inr request \<and>
           verifyServiceSettlement x (ts_definition s) request receipt = Inr proof \<and>
           rq_orderId request = tr_orderId res \<and> rq_transaction request = tr_transaction res \<and>
           resolveTaskInput x (ts_input s) (map tr_output (take i (tk_results r))) = Inr input \<and>
           canonicalJsonHash x input = Inr (rq_inputHash request))))"

definition plan_ok :: "ext \<Rightarrow> task_row \<Rightarrow> bool" where
  "plan_ok x r \<longleftrightarrow>
     (case tk_plan r of None \<Rightarrow> tk_planHash r = None
      | Some p \<Rightarrow> (\<exists>h. tk_planHash r = Some h \<and> taskPlanHash x p = Inr h) \<and> plan_cost p \<le> dec_int (tk_budget r))"

definition results_ok :: "ext \<Rightarrow> task_row \<Rightarrow> bool" where
  "results_ok x r \<longleftrightarrow> (\<forall>i < length (tk_results r). step_proof x r i (tk_results r ! i))"

definition row_ok :: "ext \<Rightarrow> task_row \<Rightarrow> bool" where
  "row_ok x r \<longleftrightarrow> row_checks r \<and> plan_ok x r \<and> results_ok x r \<and>
     (tk_results r \<noteq> [] \<longrightarrow> tk_approved r \<noteq> None) \<and> (tk_host r \<noteq> None \<longrightarrow> tk_approved r \<noteq> None) \<and>
     (tk_status r \<in> {Queued, Planning, NeedsApproval} \<longrightarrow> tk_approved r = None) \<and>
     (tk_status r = Cancelled \<longrightarrow> tk_host r = None) \<and>
     to_lower (tk_id r) = tk_id r"

definition request_key :: "task_row \<Rightarrow> string \<times> string \<times> string" where
  "request_key r = (to_lower (tk_user r), to_lower (tk_agent r), tk_key r)"

definition table_ok :: "ext \<Rightarrow> task_db \<Rightarrow> bool" where
  "table_ok x d \<longleftrightarrow> (\<forall>r \<in> set (td_tasks d). row_ok x r) \<and> distinct (map tk_id (td_tasks d)) \<and>
     distinct (map request_key (td_tasks d)) \<and> (\<forall>agent. open_tasks agent (td_tasks d) \<le> 25)"

section \<open>Evolution\<close>

definition row_evolves :: "task_row \<Rightarrow> task_row \<Rightarrow> bool" where
  "row_evolves old new \<longleftrightarrow> tk_id new = tk_id old \<and> trigger_ok old new \<and> tk_revision old \<le> tk_revision new \<and>
     (tk_revision new = tk_revision old \<longrightarrow> new = old) \<and> (is_open old \<or> tk_status new = tk_status old)"

definition table_evolves :: "task_db \<Rightarrow> task_db \<Rightarrow> bool" where
  "table_evolves d d' \<longleftrightarrow> (\<forall>r \<in> set (td_tasks d). \<exists>r' \<in> set (td_tasks d'). row_evolves r r')"

lemma row_evolves_refl: "row_evolves r r"
  by (simp add: row_evolves_def trigger_ok_def)

lemma take_prefix_trans: "take (length a) b = a \<Longrightarrow> take (length b) c = b \<Longrightarrow> take (length a) c = a"
  by (metis length_take min.absorb_iff2 min_def take_take)

lemma trigger_trans: "trigger_ok a b \<Longrightarrow> trigger_ok b c \<Longrightarrow> trigger_ok a c"
  unfolding trigger_ok_def by (elim conjE, intro conjI) (auto dest: take_prefix_trans)

lemma row_evolves_trans: "row_evolves a b \<Longrightarrow> row_evolves b c \<Longrightarrow> row_evolves a c"
  unfolding row_evolves_def by (auto dest: trigger_trans simp: is_open_def)

interpretation task_evolution: evolution "table_ok x" table_evolves for x
proof
  fix a b c :: task_db
  show "table_evolves a a" by (auto simp: table_evolves_def intro: row_evolves_refl)
  assume "table_evolves a b" "table_evolves b c"
  then show "table_evolves a c" unfolding table_evolves_def by (meson row_evolves_trans)
qed

section \<open>Updates\<close>

lemma filter_map_le: "(\<And>a. a \<in> set xs \<Longrightarrow> P (g a) \<Longrightarrow> Q a) \<Longrightarrow> length (filter P (map g xs)) \<le> length (filter Q xs)"
  by (induction xs) (auto simp: le_SucI)

text \<open>An update that touches revision and keeps terminal states keeps the table sound.\<close>

lemma update_tasks_sound:
  assumes ok: "table_ok x d" and up: "update_tasks p f d = Inr (rs, d')"
    and f: "\<And>r. r \<in> set (td_tasks d) \<Longrightarrow> p r \<Longrightarrow> trigger_ok r (f r) \<Longrightarrow> row_checks (f r) \<Longrightarrow>
      row_ok x (f r) \<and> tk_id (f r) = tk_id r \<and> tk_revision (f r) = tk_revision r + 1 \<and>
      (is_open r \<or> tk_status (f r) = tk_status r)"
  shows "table_ok x d' \<and> table_evolves d d' \<and> (\<forall>r \<in> set rs. row_ok x r)"
proof -
  let ?g = "\<lambda>r. if p r then f r else r"
  have all: "trigger_ok r (f r) \<and> row_checks (f r)" if "r \<in> set (td_tasks d)" "p r" for r
    using up that by (auto simp: update_tasks_def Let_def list_all_iff split: if_splits)
  have rs: "rs = map f (filter p (td_tasks d))" and d': "td_tasks d' = map ?g (td_tasks d)"
    using up by (auto simp: update_tasks_def Let_def split: if_splits)
  have f': "row_ok x (f r) \<and> tk_id (f r) = tk_id r \<and> tk_revision (f r) = tk_revision r + 1 \<and>
      (is_open r \<or> tk_status (f r) = tk_status r)" if "r \<in> set (td_tasks d)" "p r" for r
    using f [OF that] all [OF that] by blast
  have ev: "row_evolves r (?g r)" if "r \<in> set (td_tasks d)" for r
    using f' [OF that] all [OF that] row_evolves_refl [of r] by (cases "p r") (simp_all add: row_evolves_def)
  have "row_ok x (?g r)" if "r \<in> set (td_tasks d)" for r
    using f' [OF that] ok that by (auto simp: table_ok_def)
  moreover have "distinct (map tk_id (map ?g (td_tasks d)))"
  proof -
    have "map tk_id (map ?g (td_tasks d)) = map tk_id (td_tasks d)"
      using ev by (auto simp: row_evolves_def)
    then show ?thesis using ok by (simp only: table_ok_def)
  qed
  moreover have "distinct (map request_key (map ?g (td_tasks d)))"
  proof -
    have "map request_key (map ?g (td_tasks d)) = map request_key (td_tasks d)"
      using ev by (auto simp: row_evolves_def trigger_ok_def request_key_def)
    then show ?thesis using ok by (simp only: table_ok_def)
  qed
  moreover have "open_tasks agent (map ?g (td_tasks d)) \<le> 25" for agent
  proof -
    have "open_tasks agent (map ?g (td_tasks d)) \<le> open_tasks agent (td_tasks d)"
      unfolding open_tasks_def
    proof (rule filter_map_le)
      fix r assume "r \<in> set (td_tasks d)" "same_uuid (tk_agent (?g r)) agent \<and> is_open (?g r)"
      moreover from ev [OF this(1)] have "tk_agent (?g r) = tk_agent r" "is_open r \<or> tk_status (?g r) = tk_status r"
        by (simp_all add: row_evolves_def trigger_ok_def)
      ultimately show "same_uuid (tk_agent r) agent \<and> is_open r"
        unfolding is_open_def by auto
    qed
    also have "\<dots> \<le> 25" using ok by (simp add: table_ok_def)
    finally show ?thesis .
  qed
  moreover have "\<forall>r \<in> set (map ?g (td_tasks d)). row_ok x r" using calculation(1) by (simp only: set_map) blast
  ultimately have "table_ok x d'" unfolding table_ok_def d' by blast
  moreover have "table_evolves d d'"
    unfolding table_evolves_def d' set_map using ev by blast
  moreover have "\<forall>r \<in> set rs. row_ok x r" using f' by (auto simp: rs)
  ultimately show ?thesis by blast
qed

text \<open>Optimistic concurrency: the row an update finds by its revision is the row it was computed
  from.\<close>

lemma this_row_eq:
  assumes "table_ok x d'" "table_evolves d d'" "row \<in> set (td_tasks d)" "r \<in> set (td_tasks d')" "this_row row r"
    "to_lower (tk_id row) = tk_id row"
  shows "r = row"
proof -
  obtain r' where r': "r' \<in> set (td_tasks d')" "row_evolves row r'"
    using assms(2,3) by (auto simp: table_evolves_def)
  have "tk_id r = tk_id r'"
    using assms(1,4,5,6) r' by (auto simp: this_row_def same_uuid_def row_evolves_def table_ok_def row_ok_def)
  moreover have "inj_on tk_id (set (td_tasks d'))" using assms(1) by (simp add: table_ok_def distinct_map)
  ultimately have "r = r'" using assms(4) r'(1) by (auto dest: inj_onD)
  with r'(2) assms(5) show ?thesis by (auto simp: row_evolves_def this_row_def)
qed

text \<open>A row a session has read from a sound table, some time ago.\<close>

definition seen :: "ext \<Rightarrow> task_row \<Rightarrow> task_db \<Rightarrow> bool" where
  "seen x row d \<longleftrightarrow> (\<exists>d0. table_ok x d0 \<and> row \<in> set (td_tasks d0) \<and> table_evolves d0 d)"

lemma seen_now: "table_ok x d \<Longrightarrow> row \<in> set (td_tasks d) \<Longrightarrow> seen x row d"
  unfolding seen_def using task_evolution.refl by blast

lemma seen_later: "seen x row d \<Longrightarrow> table_evolves d d' \<Longrightarrow> seen x row d'"
  unfolding seen_def using task_evolution.trans by blast

lemma seen_ok: "seen x row d \<Longrightarrow> row_ok x row"
  by (auto simp: seen_def table_ok_def)

lemma seen_this_row: "seen x row d \<Longrightarrow> table_ok x d \<Longrightarrow> r \<in> set (td_tasks d) \<Longrightarrow> this_row row r \<Longrightarrow> r = row"
  by (auto simp: seen_def table_ok_def row_ok_def intro: this_row_eq)

section \<open>Sessions\<close>

text \<open>A reply shows only tasks as a sound row has them.\<close>

definition view_ok :: "ext \<Rightarrow> general_task \<Rightarrow> bool" where
  "view_ok x t \<longleftrightarrow> (\<exists>r. row_ok x r \<and> publicTask r = Inr t)"

fun reply_ok :: "ext \<Rightarrow> task_reply \<Rightarrow> bool" where
  "reply_ok x (OneTask t) = view_ok x t"
| "reply_ok x (CreatedTask t _) = view_ok x t"
| "reply_ok x (Tasks ts) = list_all (view_ok x) ts"
| "reply_ok x (RunnerTasks _ ts) = list_all (view_ok x) ts"
| "reply_ok x (Claimed None) = True"
| "reply_ok x (Claimed (Some (t, _, _))) = view_ok x t"

abbreviation task_safe :: "ext \<Rightarrow> task_db \<Rightarrow> task_session \<Rightarrow> bool" where
  "task_safe x d s \<equiv> guaranteed (table_ok x) table_evolves (reply_ok x) d s"

lemmas safe_rules = task_evolution.failed task_evolution.ret task_evolution.lifted task_evolution.needed

lemma find_in: "find P xs = Some a \<Longrightarrow> a \<in> set xs"
  by (auto simp: find_Some_iff)

lemma one_task_safe: "row_ok x r \<Longrightarrow> task_safe x d (one_task r)"
  unfolding one_task_def by (auto intro!: safe_rules simp: view_ok_def)

lemma views_ok: "mapR publicTask rs = Inr ts \<Longrightarrow> (\<And>r. r \<in> set rs \<Longrightarrow> row_ok x r) \<Longrightarrow> list_all (view_ok x) ts"
  by (auto simp: mapR_eq_Inr list_all2_conv_all_nth list_all_length view_ok_def) (metis nth_mem)

lemma requireOwnedAgent_safe:
  "(\<And>d'. table_evolves d d' \<Longrightarrow> task_safe x d' k) \<Longrightarrow> task_safe x d (requireOwnedAgent user agent k)"
  unfolding requireOwnedAgent_def by (auto intro!: safe_rules task_evolution.queried)

lemma ownedRow_safe:
  "(\<And>d' row. seen x row d' \<Longrightarrow> task_safe x d' (k row)) \<Longrightarrow> task_safe x d (ownedRow user i k)"
  unfolding ownedRow_def
  by (intro safe_rules task_evolution.queried) (auto dest: find_in intro: seen_now)

text \<open>An update of the row seen, then an answer from the updated row.\<close>

lemma update_one_safe:
  assumes "seen x row d"
    and p: "\<And>r. p r \<Longrightarrow> this_row row r"
    and f: "\<And>now. p row \<Longrightarrow> trigger_ok row (f now row) \<Longrightarrow> row_checks (f now row) \<Longrightarrow>
      row_ok x (f now row) \<and> tk_id (f now row) = tk_id row \<and> tk_revision (f now row) = tk_revision row + 1 \<and>
      (is_open row \<or> tk_status (f now row) = tk_status row)"
    and k: "\<And>d' updated. (\<And>r. updated = Some r \<Longrightarrow> row_ok x r) \<Longrightarrow> task_safe x d' (k updated)"
  shows "task_safe x d (update_one p f k)"
  unfolding update_one_def
proof (rule task_evolution.transacted)
  fix d' rs d''
  assume d': "table_ok x d'" "table_evolves d d'" and up: "update_tasks p (f (td_now d')) d' = Inr (rs, d'')"
  have row: "r = row" if "r \<in> set (td_tasks d')" "p r" for r
    using seen_this_row [OF seen_later [OF assms(1) d'(2)] d'(1) that(1) p [OF that(2)]] .
  have "table_ok x d'' \<and> table_evolves d' d'' \<and> (\<forall>r \<in> set rs. row_ok x r)"
    by (rule update_tasks_sound [OF d'(1) up]) (use row f in blast)
  then show "table_ok x d'' \<and> table_evolves d' d'' \<and> task_safe x d'' (k (case rs of [] \<Rightarrow> None | r # _ \<Rightarrow> Some r))"
    by (auto intro!: k split: list.splits)
qed

lemma step_proof_cong:
  "tk_plan r' = tk_plan r \<Longrightarrow> tk_planHash r' = tk_planHash r \<Longrightarrow> tk_approved r' = tk_approved r \<Longrightarrow> tk_id r' = tk_id r \<Longrightarrow>
    take i (tk_results r') = take i (tk_results r) \<Longrightarrow> step_proof x r' i res = step_proof x r i res"
  by (simp add: step_proof_def)

lemma results_ok_cong:
  "tk_plan r' = tk_plan r \<Longrightarrow> tk_planHash r' = tk_planHash r \<Longrightarrow> tk_approved r' = tk_approved r \<Longrightarrow> tk_id r' = tk_id r \<Longrightarrow>
    tk_results r' = tk_results r \<Longrightarrow> results_ok x r' = results_ok x r"
  by (simp add: results_ok_def step_proof_def)

lemma plan_ok_cong:
  "tk_plan r' = tk_plan r \<Longrightarrow> tk_planHash r' = tk_planHash r \<Longrightarrow> tk_budget r' = tk_budget r \<Longrightarrow> plan_ok x r' = plan_ok x r"
  by (auto simp: plan_ok_def split: option.splits)

lemma approve_fields [simp]:
  "tk_status (approve_row now r) = Approved" "tk_approved (approve_row now r) = tk_planHash r"
  "tk_results (approve_row now r) = tk_results r" "tk_host (approve_row now r) = tk_host r"
  "tk_id (approve_row now r) = tk_id r" "tk_revision (approve_row now r) = tk_revision r + 1"
  by (simp_all add: approve_row_def touched_def)

lemma cancel_fields [simp]:
  "tk_status (cancel_row now r) = Cancelled" "tk_approved (cancel_row now r) = tk_approved r"
  "tk_results (cancel_row now r) = tk_results r" "tk_host (cancel_row now r) = tk_host r"
  "tk_id (cancel_row now r) = tk_id r" "tk_revision (cancel_row now r) = tk_revision r + 1"
  by (simp_all add: cancel_row_def touched_def)

lemma retry_fields [simp]:
  "tk_status (retry_row now r) = (if tk_approved r \<noteq> None then Approved else Queued)" "tk_approved (retry_row now r) = tk_approved r"
  "tk_results (retry_row now r) = tk_results r" "tk_host (retry_row now r) = tk_host r"
  "tk_id (retry_row now r) = tk_id r" "tk_revision (retry_row now r) = tk_revision r + 1"
  by (simp_all add: retry_row_def touched_def)

lemma updateTask_safe: "task_safe x d (updateTask x' user i v)" if "x' = x"
proof -
  have approve: "task_safe x d (approve_task x user h row)" if row: "seen x row d" for d row h
  proof -
    note ok = seen_ok [OF row]
    have p: "plan_ok x (approve_row now row) = plan_ok x row" for now
      by (rule plan_ok_cong) (simp_all add: approve_row_def touched_def)
    have "task_safe x d (update_one (\<lambda>r. this_row row r \<and> same_uuid (tk_user r) user \<and> tk_status r = NeedsApproval \<and>
        tk_planHash r = Some h) approve_row (\<lambda>updated.
        liftS (of_opt (conflict ''This task is no longer waiting for approval.'') updated) one_task))"
      using ok p by (intro update_one_safe [OF row])
        (auto simp: row_ok_def is_open_def results_ok_def intro!: safe_rules one_task_safe)
    then show ?thesis
      unfolding approve_task_def Let_def by (auto intro!: safe_rules one_task_safe ok)
  qed
  have cancel: "task_safe x d (cancel_task user row)" if row: "seen x row d" for d row
  proof -
    note ok = seen_ok [OF row]
    have r: "results_ok x (cancel_row now row) = results_ok x row" for now
      by (rule results_ok_cong) (simp_all add: cancel_row_def touched_def)
    have p: "plan_ok x (cancel_row now row) = plan_ok x row" for now
      by (rule plan_ok_cong) (simp_all add: cancel_row_def touched_def)
    have c: "row_checks (cancel_row now row) \<Longrightarrow> tk_host row = None \<Longrightarrow> row_ok x (cancel_row now row)" for now
      using ok r p by (simp add: row_ok_def)
    show ?thesis
      unfolding cancel_task_def
      by (intro impI conjI task_evolution.queried update_one_safe [OF row] safe_rules one_task_safe
          if_split [where P = "task_safe x d", THEN iffD2])
        (auto intro!: safe_rules one_task_safe ok c)
  qed
  have retry: "task_safe x d (retry_task user row)" if row: "seen x row d" for d row
  proof -
    note ok = seen_ok [OF row]
    have r: "results_ok x (retry_row now row) = results_ok x row" for now
      by (rule results_ok_cong) (simp_all add: retry_row_def touched_def)
    have p: "plan_ok x (retry_row now row) = plan_ok x row" for now
      by (rule plan_ok_cong) (simp_all add: retry_row_def touched_def)
    show ?thesis
      unfolding retry_task_def
    proof (rule update_one_safe [OF row])
      fix now
      assume "this_row row row \<and> same_uuid (tk_user row) user \<and> tk_status row = Blocked" "row_checks (retry_row now row)"
      then show "row_ok x (retry_row now row) \<and> tk_id (retry_row now row) = tk_id row \<and>
          tk_revision (retry_row now row) = tk_revision row + 1 \<and>
          (is_open row \<or> tk_status (retry_row now row) = tk_status row)"
        using ok r p by (auto simp: row_ok_def is_open_def)
    qed (use ok in \<open>auto intro!: safe_rules one_task_safe split: option.split\<close>)
  qed
  show ?thesis
    unfolding updateTask_def that
    by (auto intro!: safe_rules ownedRow_safe approve cancel retry split: owner_action.split)
qed

text \<open>A new row, under the agent's lock.\<close>

lemma fresh_row_ok:
  assumes "row_checks (fresh_row (to_lower i) u a instruction budget k h now)"
  shows "row_ok x (fresh_row (to_lower i) u a instruction budget k h now)"
  using assms by (simp add: row_ok_def plan_ok_def results_ok_def fresh_row_def)

lemma insert_task_sound:
  assumes ok: "table_ok x d" and ins: "insert_task i user agent instruction budget key h d = Inr (created, d')"
  shows "table_ok x d' \<and> table_evolves d d' \<and> (\<forall>r. created = Some r \<longrightarrow> row_ok x r)"
proof (cases created)
  case None
  with ins have "d' = d" by (auto simp: insert_task_def Let_def split: if_splits)
  then show ?thesis using ok None task_evolution.refl by simp
next
  case (Some r)
  have r: "row_ok x r" "r = fresh_row (to_lower i) (to_lower user) (to_lower agent) instruction budget key h (td_now d)"
    and d': "td_tasks d' = td_tasks d @ [r]" and lim: "open_tasks agent (td_tasks d) < 25"
    and new: "\<forall>q \<in> set (td_tasks d). tk_id q \<noteq> tk_id r"
    and key: "\<forall>q \<in> set (td_tasks d). \<not> same_request user agent key q"
    using ins fresh_row_ok by (auto simp: Some insert_task_def Let_def list_ex_iff split: if_splits)
  have "open_tasks b (td_tasks d') \<le> 25" for b
  proof (cases "same_uuid (tk_agent r) b")
    case True
    then have "open_tasks b (td_tasks d) = open_tasks agent (td_tasks d)"
      by (simp add: open_tasks_def same_uuid_def r(2) fresh_row_def)
    then show ?thesis using lim by (simp add: d' open_tasks_def)
  next
    case False
    then show ?thesis using ok by (simp add: d' open_tasks_def table_ok_def)
  qed
  moreover have "distinct (map tk_id (td_tasks d'))" using ok new by (auto simp: d' table_ok_def)
  moreover have "request_key r \<notin> set (map request_key (td_tasks d))"
    using key by (auto simp: r(2) request_key_def same_request_def same_uuid_def fresh_row_def)
  ultimately have "table_ok x d'" using ok r(1) by (auto simp: table_ok_def d')
  then show ?thesis using r(1) row_evolves_refl by (auto simp: table_evolves_def d' Some)
qed

lemma found_row_ok: "table_ok x d \<Longrightarrow> find P (td_tasks d) = Some r \<Longrightarrow> row_ok x r"
  by (auto simp: table_ok_def dest: find_in)

lemma createTask_safe: "task_safe x d (createTask x fresh user v key)"
proof -
  have created: "task_safe x d (transact (insert_task fresh user agent instruction budget k h) (\<lambda>created.
        case created of
          Some r \<Rightarrow> liftS (publicTask r) (\<lambda>t. Reply (Inr (CreatedTask t False)))
        | None \<Rightarrow>
            query (\<lambda>d. find (same_request user agent k) (td_tasks d)) (\<lambda>row.
            liftS (of_opt e row) (\<lambda>r. needS (tk_requestHash r = h) e'
            (liftS (publicTask r) (\<lambda>t. Reply (Inr (CreatedTask t True))))))))" for d agent instruction budget k h e e'
  proof (rule task_evolution.transacted)
    fix d' created d''
    assume "table_ok x d'" "insert_task fresh user agent instruction budget k h d' = Inr (created, d'')"
    from insert_task_sound [OF this] show "table_ok x d'' \<and> table_evolves d' d'' \<and> task_safe x d'' (case created of
          Some r \<Rightarrow> liftS (publicTask r) (\<lambda>t. Reply (Inr (CreatedTask t False)))
        | None \<Rightarrow>
            query (\<lambda>d. find (same_request user agent k) (td_tasks d)) (\<lambda>row.
            liftS (of_opt e row) (\<lambda>r. needS (tk_requestHash r = h) e'
            (liftS (publicTask r) (\<lambda>t. Reply (Inr (CreatedTask t True)))))))"
      by (auto intro!: safe_rules task_evolution.queried simp: view_ok_def split: option.split)
        (blast dest: found_row_ok)
  qed
  show ?thesis
    unfolding createTask_def Let_def
    by (auto intro!: safe_rules requireOwnedAgent_safe created split: prod.split)
qed

lemma list_rows_ok: "table_ok x d \<Longrightarrow> set rs \<subseteq> set (td_tasks d) \<Longrightarrow> mapR publicTask rs = Inr ts \<Longrightarrow> list_all (view_ok x) ts"
  by (rule views_ok) (auto simp: table_ok_def)

lemma sorted_subset: "set (take n (sort_key k (filter P rs))) \<subseteq> set rs"
  using set_take_subset [of n "sort_key k (filter P rs)"] by auto

lemma list_query_safe:
  assumes "\<And>d. set (f d) \<subseteq> set (td_tasks d)" "\<And>ts. list_all (view_ok x) ts \<Longrightarrow> reply_ok x (g ts)"
  shows "task_safe x d (query f (\<lambda>rs. liftS (mapR publicTask rs) (\<lambda>ts. Reply (Inr (g ts)))))"
  by (intro task_evolution.queried safe_rules assms(2) list_rows_ok [OF _ assms(1)])

lemma list_some_safe:
  assumes "\<And>d. set (f d) \<subseteq> set (td_tasks d)" "\<And>ts. list_all (view_ok x) ts \<Longrightarrow> reply_ok x (g ts)"
  shows "task_safe x d (query f (\<lambda>rs. needS (rs \<noteq> []) e (liftS (mapR publicTask rs) (\<lambda>ts. Reply (Inr (g ts))))))"
  by (intro task_evolution.queried safe_rules assms(2) list_rows_ok [OF _ assms(1)])

lemma listTasks_safe: "task_safe x d (listTasks user agent)"
proof -
  have "task_safe x d (query (\<lambda>d. take 100 (newest_first (filter (P d) (td_tasks d))))
      (\<lambda>rs. liftS (mapR publicTask rs) (\<lambda>ts. Reply (Inr (Tasks ts)))))" for P d
    by (rule list_query_safe) (unfold newest_first_def, rule sorted_subset, simp)
  then show ?thesis
    unfolding listTasks_def Let_def by (auto intro!: requireOwnedAgent_safe safe_rules split: option.split list.split)
qed

lemma listRunnerTasks_safe: "task_safe x d (listRunnerTasks agent task b)"
proof -
  have a: "task_safe x d (query (\<lambda>d. take 100 (active_first (filter P (td_tasks d))))
      (\<lambda>rs. liftS (mapR publicTask rs) (\<lambda>ts. Reply (Inr (RunnerTasks w ts)))))" for P d w
    by (rule list_query_safe) (unfold active_first_def, rule sorted_subset, simp)
  have b: "task_safe x d (query (\<lambda>d. filter P (td_tasks d)) (\<lambda>rs. needS (rs \<noteq> []) e
      (liftS (mapR publicTask rs) (\<lambda>ts. Reply (Inr (RunnerTasks w ts))))))" for P d w e
    by (rule list_some_safe) auto
  have c: "task_safe x d (if b then Reply (Inr (RunnerTasks address [])) else case task of
       Some (c # cs) \<Rightarrow>
         liftS (assertUuid (c # cs)) (\<lambda>_.
         query (\<lambda>d. filter (\<lambda>r. same_uuid (tk_id r) (c # cs) \<and> same_uuid (tk_agent r) agent \<and> same_uuid (tk_user r) user) (td_tasks d)) (\<lambda>rs.
         needS (rs \<noteq> []) e (liftS (mapR publicTask rs) (\<lambda>ts. Reply (Inr (RunnerTasks address ts))))))
     | _ \<Rightarrow>
         query (\<lambda>d. take 100 (active_first (filter (\<lambda>r. same_uuid (tk_agent r) agent \<and> same_uuid (tk_user r) user) (td_tasks d)))) (\<lambda>rs.
         liftS (mapR publicTask rs) (\<lambda>ts. Reply (Inr (RunnerTasks address ts)))))" for d address user e
  proof (cases task)
    case None
    then show ?thesis using a by (simp add: task_evolution.ret)
  next
    case (Some t)
    then show ?thesis using a b by (cases t) (auto intro!: safe_rules)
  qed
  show ?thesis
    unfolding listRunnerTasks_def
    by (intro safe_rules task_evolution.queried, clarify, rule c)
qed

section \<open>Claiming\<close>

lemma claim_fields [simp]:
  "tk_status (claim_row w t now r) = (if tk_approved r = None then Planning else Running)"
  "tk_approved (claim_row w t now r) = tk_approved r" "tk_results (claim_row w t now r) = tk_results r"
  "tk_host (claim_row w t now r) = (if tk_approved r \<noteq> None then (if tk_host r = None then Some w else tk_host r) else tk_host r)"
  "tk_id (claim_row w t now r) = tk_id r" "tk_revision (claim_row w t now r) = tk_revision r + 1"
  by (simp_all add: claim_row_def touched_def)

lemma first_of_sorted:
  assumes "(case sort_key k (filter P xs) of [] \<Rightarrow> None | r # _ \<Rightarrow> Some r) = Some c"
  shows "c \<in> set xs \<and> P c"
proof -
  obtain rest where "sort_key k (filter P xs) = c # rest"
    using assms by (auto split: list.splits)
  then have "c \<in> set (sort_key k (filter P xs))" by (simp del: set_sort)
  then show ?thesis by simp
qed

lemma candidate_in: "candidate agent w d = Some r \<Longrightarrow> r \<in> set (td_tasks d) \<and> claimable (td_now d) w r"
  unfolding candidate_def by (drule first_of_sorted) blast

lemma claim_row_ok:
  assumes "row_ok x r" "row_checks (claim_row w t now r)" "tk_status r \<in> {Queued, Planning, Approved, Running}"
  shows "row_ok x (claim_row w t now r)"
proof -
  have p: "plan_ok x (claim_row w t now r) = plan_ok x r"
    by (rule plan_ok_cong) (simp_all add: claim_row_def touched_def)
  have q: "results_ok x (claim_row w t now r) = results_ok x r"
    by (rule results_ok_cong) (simp_all add: claim_row_def touched_def)
  show ?thesis
    using assms(1,2) unfolding row_ok_def p q by (cases "tk_approved r") simp_all
qed

lemma claimTask_safe: "task_safe x d (claimTask token agent v)"
proof -
  have claim: "task_safe x d (transact (\<lambda>d. case candidate agent w d of None \<Rightarrow> Inr ([], d)
       | Some c \<Rightarrow> update_tasks (\<lambda>r. tk_id r = tk_id c) (claim_row w token (td_now d)) d) (\<lambda>rs. case rs of
       [] \<Rightarrow> Reply (Inr (Claimed None))
     | r # _ \<Rightarrow> liftS (publicTask r) (\<lambda>t. Reply (Inr (Claimed (Some (t, f r, g r)))))))" for d w f g
  proof (rule task_evolution.transacted)
    fix d' rs d''
    assume d': "table_ok x d'" and up: "(case candidate agent w d' of None \<Rightarrow> Inr ([], d')
       | Some c \<Rightarrow> update_tasks (\<lambda>r. tk_id r = tk_id c) (claim_row w token (td_now d')) d') = Inr (rs, d'')"
    have "table_ok x d'' \<and> table_evolves d' d'' \<and> (\<forall>r \<in> set rs. row_ok x r)"
    proof (cases "candidate agent w d'")
      case None
      then show ?thesis using up d' task_evolution.refl by auto
    next
      case (Some c)
      note c = candidate_in [OF Some]
      have inj: "inj_on tk_id (set (td_tasks d'))" using d' by (simp add: table_ok_def distinct_map)
      show ?thesis
      proof (rule update_tasks_sound [OF d'])
        show "update_tasks (\<lambda>r. tk_id r = tk_id c) (claim_row w token (td_now d')) d' = Inr (rs, d'')"
          using up Some by simp
      next
        fix r assume r: "r \<in> set (td_tasks d')" "tk_id r = tk_id c" "row_checks (claim_row w token (td_now d') r)"
        then have "r = c" using inj c by (auto dest: inj_onD)
        with c have "claimable (td_now d') w r" by simp
        then have st: "tk_status r \<in> {Queued, Planning, Approved, Running}" by (auto simp: claimable_def)
        have "row_ok x r" using d' r(1) by (simp add: table_ok_def)
        then show "row_ok x (claim_row w token (td_now d') r) \<and> tk_id (claim_row w token (td_now d') r) = tk_id r \<and>
            tk_revision (claim_row w token (td_now d') r) = tk_revision r + 1 \<and>
            (is_open r \<or> tk_status (claim_row w token (td_now d') r) = tk_status r)"
          using claim_row_ok [OF _ r(3) st] st by (auto simp: is_open_def)
      qed
    qed
    then show "table_ok x d'' \<and> table_evolves d' d'' \<and> task_safe x d'' (case rs of
       [] \<Rightarrow> Reply (Inr (Claimed None))
     | r # _ \<Rightarrow> liftS (publicTask r) (\<lambda>t. Reply (Inr (Claimed (Some (t, f r, g r))))))"
      by (auto intro!: safe_rules simp: view_ok_def split: list.split)
  qed
  show ?thesis
    unfolding claimTask_def
    by (rule task_evolution.lifted, rule task_evolution.lifted, rule claim)
qed

section \<open>Paid steps\<close>

lemma publicTask_fields:
  "publicTask r = Inr t \<Longrightarrow> gt_id t = tk_id r \<and> gt_plan t = tk_plan r \<and> gt_planHash t = tk_planHash r \<and>
    gt_approvedPlanHash t = tk_approved r \<and> gt_steps t = tk_results r"
  by (auto simp: publicTask_def bindR_eq_Inr)

lemma paid_terms_Inr:
  assumes "paid_terms x dep row i = Inr (s, order_id, input)"
  shows "\<exists>p h. tk_plan row = Some p \<and> tk_planHash row = Some h \<and> tk_approved row = Some h \<and> i < length (tp_steps p) \<and>
    s = tp_steps p ! i \<and> taskStepOrderId x (tk_id row) h (int i) = Inr order_id \<and>
    resolveTaskInput x (ts_input s) (map tr_output (take i (tk_results row))) = Inr input"
proof -
  obtain task where task: "publicTask row = Inr task" using assms by (auto simp: paid_terms_def bindR_eq_Inr)
  note f = publicTask_fields [OF task]
  obtain p where p: "tk_plan row = Some p"
    using assms task f by (cases "tk_plan row") (simp_all add: paid_terms_def)
  obtain h where h: "tk_planHash row = Some h"
    using assms task f p by (cases "tk_planHash row") (simp_all add: paid_terms_def)
  have a: "tk_approved row = Some h"
    using assms task f p h by (cases "tk_approved row = Some h") (simp_all add: paid_terms_def)
  have "taskPlanHash x p = Inr h"
    using assms task f p h a by (auto simp: paid_terms_def bindR_eq_Inr split: if_splits)
  then have "i < length (tp_steps p) \<and> s = tp_steps p ! i \<and> taskStepOrderId x (tk_id row) h (int i) = Inr order_id \<and>
      resolveTaskInput x (ts_input s) (map tr_output (take i (tk_results row))) = Inr input"
    using assms task f p h a by (auto simp: paid_terms_def bindR_eq_Inr split: if_splits)
  then show ?thesis using p h a by blast
qed

lemma check_paid_Inr:
  assumes "check_paid x row i (s, order_id, input) found = Inr res"
  shows "\<exists>v request receipt proof. validateServiceRequest x (ts_definition s) v = Inr request \<and>
    verifyServiceSettlement x (ts_definition s) request receipt = Inr proof \<and>
    rq_orderId request = order_id \<and> rq_transaction request = tr_transaction res \<and>
    canonicalJsonHash x input = Inr (rq_inputHash request) \<and> tr_orderId res = order_id \<and> tr_index res = int i \<and>
    canonicalJsonHash x (tr_output res) = Inr (tr_outputHash res) \<and>
    validateSchemaValue (tr_output res) (st_output (ts_definition s)) (128 * 1024) = Inr ()"
  using assms by (fastforce simp: check_paid_def bindR_eq_Inr)

lemma paid_step_proof:
  assumes "paid_terms x dep row i = Inr terms" "check_paid x row i terms found = Inr res"
  shows "step_proof x row i res"
proof -
  obtain s order_id input where t: "terms = (s, order_id, input)" by (cases terms)
  from paid_terms_Inr [OF assms(1) [unfolded t]] check_paid_Inr [OF assms(2) [unfolded t]]
  show ?thesis unfolding step_proof_def Let_def by metis
qed

lemma verifiedStep_proved:
  "guaranteed (table_ok x) table_evolves (step_proof x row i) d (verifiedStep x dep row i)"
  unfolding verifiedStep_def
proof (rule task_evolution.bound)
  show "guaranteed (table_ok x) table_evolves (step_proof x row i) d (verifyPaidStep x dep row i)"
    unfolding verifyPaidStep_def
    by (intro safe_rules task_evolution.queried guaranteed.reply) (rule paid_step_proof)
qed (auto intro!: guaranteed.reply split: sum.splits if_splits)

lemma confirm_results_proved:
  "guaranteed (table_ok x) table_evolves (\<lambda>_. True) d (confirm_results x dep row rs i)"
proof (induction rs arbitrary: d i)
  case Nil
  then show ?case by (auto intro: guaranteed.reply)
next
  case (Cons r rs)
  then show ?case
    unfolding confirm_results.simps
    by (intro task_evolution.bound [OF verifiedStep_proved] safe_rules) (auto intro: safe_rules)
qed

section \<open>The runner's updates\<close>

lemma runner_fields [simp]:
  "tk_status (runner_row st p h rs e now r) = st" "tk_approved (runner_row st p h rs e now r) = tk_approved r"
  "tk_results (runner_row st p h rs e now r) = rs" "tk_host (runner_row st p h rs e now r) = tk_host r"
  "tk_plan (runner_row st p h rs e now r) = p" "tk_planHash (runner_row st p h rs e now r) = h"
  "tk_budget (runner_row st p h rs e now r) = tk_budget r"
  "tk_id (runner_row st p h rs e now r) = tk_id r" "tk_revision (runner_row st p h rs e now r) = tk_revision r + 1"
  by (simp_all add: runner_row_def touched_def)

lemma finish_update_safe:
  assumes "seen x row d"
    and "\<And>now. row_checks (runner_row st p h rs e now row) \<Longrightarrow> row_ok x (runner_row st p h rs e now row)"
    and "is_open row \<or> st = tk_status row"
  shows "task_safe x d (finish_update agent token row st p h rs e)"
  unfolding finish_update_def
  by (rule update_one_safe [OF assms(1)]) (use assms(2,3) in \<open>auto intro!: safe_rules one_task_safe\<close>)

text \<open>Updates that keep plan and results.\<close>

lemma same_plan_ok: "plan_ok x (runner_row st (tk_plan r) (tk_planHash r) rs e now r) = plan_ok x r"
  by (rule plan_ok_cong) simp_all

lemma same_results_ok: "results_ok x (runner_row st (tk_plan r) (tk_planHash r) (tk_results r) e now r) = results_ok x r"
  by (rule results_ok_cong) simp_all

lemma more_results_ok:
  assumes "results_ok x r" "step_proof x r (length (tk_results r)) res"
  shows "results_ok x (runner_row st (tk_plan r) (tk_planHash r) (tk_results r @ [res]) e now r)"
proof -
  have "step_proof x (runner_row st (tk_plan r) (tk_planHash r) (tk_results r @ [res]) e now r) i q = step_proof x r i q"
    if "i \<le> length (tk_results r)" for i q
    by (rule step_proof_cong) (use that in simp_all)
  then show ?thesis using assms by (auto simp: results_ok_def nth_append less_Suc_eq)
qed

lemma submit_plan_safe:
  assumes row: "seen x row d"
  shows "task_safe x d (submit_plan x dep agent token row v)"
proof -
  note ok = seen_ok [OF row]
  have fin: "task_safe x d' (finish_update agent token row NeedsApproval (Some p) (Some h) (tk_results row) None)"
    if d': "table_evolves d d'" and st: "tk_status row \<in> {Planning, NeedsApproval}"
      and p: "createTaskPlan x v services (tk_budget row) = Inr p" and h: "taskPlanHash x p = Inr h" for d' services p h
  proof (rule finish_update_safe [OF seen_later [OF row d']])
    have "plan_cost p \<le> dec_int (tk_budget row)"
      using createTaskPlan_Inr [OF p] plan_steps_ok by (fastforce simp: plan_cost_def dec_int_def)
    then have "plan_ok x (runner_row NeedsApproval (Some p) (Some h) (tk_results row) None now row)" for now
      using h by (simp add: plan_ok_def)
    moreover have "tk_results row = []" "tk_approved row = None" "tk_host row = None"
      using ok st by (auto simp: row_ok_def)
    ultimately show "row_checks (runner_row NeedsApproval (Some p) (Some h) (tk_results row) None now row) \<Longrightarrow>
        row_ok x (runner_row NeedsApproval (Some p) (Some h) (tk_results row) None now row)" for now
      using ok by (simp add: row_ok_def results_ok_def)
    show "is_open row \<or> NeedsApproval = tk_status row" using st by (auto simp: is_open_def)
  qed
  have cat: "\<exists>services. createTaskPlan x v services b = Inr p"
    if "(case bindR c (\<lambda>ss. createTaskPlan x v (filter P ss) b) of Inr p \<Rightarrow> Inr p | Inl _ \<Rightarrow> Inl e) = Inr p" for c P b p e
    using that by (auto simp: bindR_eq_Inr split: sum.splits)
  show ?thesis
    unfolding submit_plan_def
  proof (intro safe_rules task_evolution.queried, goal_cases)
    case (1 d' p h)
    from cat [OF 1(4)] obtain services where p: "createTaskPlan x v services (tk_budget row) = Inr p" by blast
    show ?case
      using 1 p by (auto intro!: safe_rules task_evolution.queried one_task_safe [OF ok] fin dest: task_evolution.trans)
  qed
qed

lemma report_progress_safe:
  assumes row: "seen x row d" and st: "tk_status row \<in> {Running, Completed}"
  shows "task_safe x d (report_progress x dep agent i token row k order_id)"
proof -
  note ok = seen_ok [OF row]
  have fin: "task_safe x d' (finish_update agent token row (tk_status row) (tk_plan row) (tk_planHash row) (tk_results row @ [res]) None)"
    if d': "table_evolves d d'" and res: "step_proof x row (length (tk_results row)) res" for d' res
  proof (rule finish_update_safe [OF seen_later [OF row d']])
    show "row_checks (runner_row (tk_status row) (tk_plan row) (tk_planHash row) (tk_results row @ [res]) None now row) \<Longrightarrow>
        row_ok x (runner_row (tk_status row) (tk_plan row) (tk_planHash row) (tk_results row @ [res]) None now row)" for now
      using ok st more_results_ok [OF _ res] res by (auto simp: row_ok_def same_plan_ok step_proof_def)
  qed simp
  have k: "nat k = length (tk_results row)" if "k \<le> int (length (tk_results row))" "\<not> nat k < length (tk_results row)"
    using that by linarith
  show ?thesis
    unfolding report_progress_def Let_def
    by (intro safe_rules task_evolution.bound [OF verifiedStep_proved])
      (auto intro!: safe_rules one_task_safe [OF ok] fin simp: k)
qed

lemma complete_task_safe:
  assumes row: "seen x row d" and st: "tk_status row \<in> {Running, Completed}"
  shows "task_safe x d (complete_task x dep agent token row)"
proof -
  note ok = seen_ok [OF row]
  have fin: "task_safe x d' (finish_update agent token row Completed (tk_plan row) (tk_planHash row) (tk_results row) None)"
    if d': "table_evolves d d'" for d'
    by (rule finish_update_safe [OF seen_later [OF row d']])
      (use ok st in \<open>auto simp: row_ok_def same_plan_ok same_results_ok is_open_def\<close>)
  show ?thesis
    unfolding complete_task_def
    by (auto intro!: safe_rules task_evolution.bound [OF confirm_results_proved] split: option.split) (metis fin)
qed

lemma block_task_safe:
  assumes row: "seen x row d"
  shows "task_safe x d (block_task agent token row message)"
proof -
  note ok = seen_ok [OF row]
  have fin: "task_safe x d (finish_update agent token row Blocked (tk_plan row) (tk_planHash row) (tk_results row) (Some message))"
    if st: "tk_status row \<in> {Planning, Running, Blocked}"
    by (rule finish_update_safe [OF row])
      (use ok st in \<open>auto simp: row_ok_def same_plan_ok same_results_ok is_open_def\<close>)
  show ?thesis
    unfolding block_task_def by (auto intro!: safe_rules fin)
qed

lemma updateRunnerTask_safe: "task_safe x d (updateRunnerTask x dep agent i v)"
proof -
  have act: "task_safe x d' (case a of
       SubmitPlan p \<Rightarrow> submit_plan x dep agent token row p
     | Block e \<Rightarrow> block_task agent token row e
     | Progress k order_id \<Rightarrow>
         needS (tk_claimPhase row = Some ExecutePhase \<and> tk_status row \<in> {Running, Completed}) e1
         (report_progress x dep agent i token row k order_id)
     | Complete \<Rightarrow>
         needS (tk_claimPhase row = Some ExecutePhase \<and> tk_status row \<in> {Running, Completed}) e1
         (complete_task x dep agent token row))" if "seen x row d'" for d' row a token e1
    using that submit_plan_safe block_task_safe report_progress_safe complete_task_safe
    by (cases a) (auto intro!: safe_rules)
  show ?thesis
    unfolding updateRunnerTask_def
    by (intro safe_rules task_evolution.queried; clarify; intro safe_rules task_evolution.queried)
      (auto intro!: act dest: find_in seen_now)
qed

section \<open>All requests\<close>

lemma task_api_safe: "task_safe x d (task_api x dep q)"
proof (cases q)
  case (GetTask user i)
  then show ?thesis by (auto simp: getTask_def intro: ownedRow_safe one_task_safe seen_ok)
qed (auto intro: listTasks_safe createTask_safe updateTask_safe listRunnerTasks_safe claimTask_safe updateRunnerTask_safe)

interpretation task_platform: platform "table_ok x" table_evolves "task_api x dep" task_world "reply_ok x" for x dep
proof
  fix d q w
  show "task_safe x d (task_api x dep q)" by (rule task_api_safe)
  show "table_ok x (task_world w d) \<and> table_evolves d (task_world w d)" if "table_ok x d"
    using that row_evolves_refl by (auto simp: task_world_def table_ok_def table_evolves_def)
qed

lemma empty_table_ok: "table_ok x (d\<lparr>td_tasks := []\<rparr>)"
  by (simp add: table_ok_def open_tasks_def)

lemma history_ok: "table_ok x (task_history x dep es d)"
  using task_platform.run_invariant [OF empty_table_ok] by (simp add: task_history_def)

lemma history_evolves: "table_evolves (task_history x dep es d) (task_history x dep (es @ fs) d)"
  using task_platform.run_later [OF empty_table_ok] by (simp add: task_history_def)

lemma approval_sound:
  "row_ok x r \<Longrightarrow> (case tk_approved r of None \<Rightarrow> tk_results r = [] | Some h \<Rightarrow>
     (case tk_plan r of None \<Rightarrow> False | Some p \<Rightarrow> taskPlanHash x p = Inr h \<and> plan_cost p \<le> dec_int (tk_budget r)))"
  by (cases "tk_approved r") (auto simp: row_ok_def row_checks_def plan_ok_def split: option.splits)

lemma completed_sound:
  "row_ok x r \<Longrightarrow> (if tk_status r = Completed
      then (case tk_plan r of None \<Rightarrow> False | Some p \<Rightarrow> length (tk_results r) = length (tp_steps p)) else True)"
  by (cases "tk_plan r"; cases "tk_planHash r"; simp add: row_ok_def row_checks_def plan_ok_def; auto)

lemma results_sound: "row_ok x r \<Longrightarrow> \<forall>i \<in> set [0..<length (tk_results r)]. step_proof x r i (tk_results r ! i)"
  by (simp add: row_ok_def results_ok_def)

lemma row_evolves_commitments:
  "row_evolves r r' \<Longrightarrow> tk_id r' = tk_id r \<and>
     (tk_user r', tk_agent r', tk_instruction r', tk_budget r') = (tk_user r, tk_agent r, tk_instruction r, tk_budget r) \<and>
     (if tk_approved r = None then True else
        (tk_plan r', tk_planHash r', tk_approved r', tk_approvalExpires r') =
          (tk_plan r, tk_planHash r, tk_approved r, tk_approvalExpires r)) \<and>
     (if tk_host r = None then True else tk_host r' = tk_host r) \<and>
     take (length (tk_results r)) (tk_results r') = tk_results r \<and>
     (if tk_status r \<in> {Completed, Cancelled} then tk_status r' = tk_status r else True) \<and>
     tk_revision r \<le> tk_revision r' \<and> (if tk_revision r' = tk_revision r then r' = r else True)"
  by (simp add: row_evolves_def trigger_ok_def is_open_def del: prod.inject) auto

text \<open>
  C28. Starting from an empty table, after any requests, their statements interleaved in any
  order with each other and with changes to services, orders and agents: a task that carries an
  approval carries the plan whose hash was approved, and that plan costs at most the task's budget;
  every recorded result is proved by a paid and delivered order for its step of that plan; and a
  completed task has such a result for every step.
\<close>

theorem tasks_pay_only_approved_plans:
  "list_all (\<lambda>r.
     (case tk_approved r of None \<Rightarrow> tk_results r = [] | Some h \<Rightarrow>
        (case tk_plan r of None \<Rightarrow> False | Some p \<Rightarrow> taskPlanHash x p = Inr h \<and> plan_cost p \<le> dec_int (tk_budget r))) \<and>
     list_all (\<lambda>i. step_proof x r i (tk_results r ! i)) [0..<length (tk_results r)] \<and>
     (if tk_status r = Completed
      then (case tk_plan r of None \<Rightarrow> False | Some p \<Rightarrow> length (tk_results r) = length (tp_steps p))
      else True))
   (td_tasks (task_history x dep es d))"
proof -
  have ok: "row_ok x r" if "r \<in> set (td_tasks (task_history x dep es d))" for r
    using history_ok that by (auto simp: table_ok_def)
  show ?thesis
    unfolding list_all_iff using approval_sound completed_sound results_sound ok by blast
qed

text \<open>
  C29. After any history an agent has at most 25 tasks that are neither completed nor cancelled,
  and no two tasks of one owner and agent share an idempotency key.
\<close>

theorem tasks_bounded_and_unique:
  "length (filter (\<lambda>r. same_uuid (tk_agent r) agent \<and> tk_status r \<notin> {Completed, Cancelled})
      (td_tasks (task_history x dep es d))) \<le> 25 \<and>
   distinct (map (\<lambda>r. (to_lower (tk_user r), to_lower (tk_agent r), tk_key r)) (td_tasks (task_history x dep es d)))"
proof -
  have "(\<lambda>r. (to_lower (tk_user r), to_lower (tk_agent r), tk_key r)) = request_key"
    by (simp add: request_key_def fun_eq_iff)
  moreover have "open_tasks agent (td_tasks (task_history x dep es d)) \<le> 25"
    using history_ok [of x dep es d] by (simp add: table_ok_def)
  ultimately show ?thesis
    using history_ok [of x dep es d] by (simp add: table_ok_def open_tasks_def is_open_def)
qed

text \<open>
  C30. What a task has promised stays: however a history goes on, every task is still there with
  its owner, agent, instruction and budget; an approved plan, its hash and its expiry never change;
  the host that started paying is never replaced; recorded results are only appended to; a
  completed or cancelled task stays so; the revision never falls, and while it stands the row is
  unchanged.
\<close>

theorem task_commitments_stay:
  "list_all (\<lambda>r. list_ex (\<lambda>r'.
     tk_id r' = tk_id r \<and>
     (tk_user r', tk_agent r', tk_instruction r', tk_budget r') = (tk_user r, tk_agent r, tk_instruction r, tk_budget r) \<and>
     (if tk_approved r = None then True else
        (tk_plan r', tk_planHash r', tk_approved r', tk_approvalExpires r') =
          (tk_plan r, tk_planHash r, tk_approved r, tk_approvalExpires r)) \<and>
     (if tk_host r = None then True else tk_host r' = tk_host r) \<and>
     take (length (tk_results r)) (tk_results r') = tk_results r \<and>
     (if tk_status r \<in> {Completed, Cancelled} then tk_status r' = tk_status r else True) \<and>
     tk_revision r \<le> tk_revision r' \<and> (if tk_revision r' = tk_revision r then r' = r else True))
       (td_tasks (task_history x dep (es @ fs) d)))
     (td_tasks (task_history x dep es d))"
  unfolding list_all_iff list_ex_iff
proof
  fix r assume "r \<in> set (td_tasks (task_history x dep es d))"
  then obtain r' where r': "r' \<in> set (td_tasks (task_history x dep (es @ fs) d))" "row_evolves r r'"
    using history_evolves [of x dep es d fs] by (auto simp: table_evolves_def)
  from row_evolves_commitments [OF r'(2)] r'(1) show "\<exists>r' \<in> set (td_tasks (task_history x dep (es @ fs) d)).
      tk_id r' = tk_id r \<and>
     (tk_user r', tk_agent r', tk_instruction r', tk_budget r') = (tk_user r, tk_agent r, tk_instruction r, tk_budget r) \<and>
     (if tk_approved r = None then True else
        (tk_plan r', tk_planHash r', tk_approved r', tk_approvalExpires r') =
          (tk_plan r, tk_planHash r, tk_approved r, tk_approvalExpires r)) \<and>
     (if tk_host r = None then True else tk_host r' = tk_host r) \<and>
     take (length (tk_results r)) (tk_results r') = tk_results r \<and>
     (if tk_status r \<in> {Completed, Cancelled} then tk_status r' = tk_status r else True) \<and>
     tk_revision r \<le> tk_revision r' \<and> (if tk_revision r' = tk_revision r then r' = r else True)"
    by (rule bexI)
qed

text \<open>The tasks a reply shows, and the columns a shown task stands for.\<close>

fun shown_tasks :: "task_reply \<Rightarrow> general_task list" where
  "shown_tasks (OneTask t) = [t]"
| "shown_tasks (CreatedTask t _) = [t]"
| "shown_tasks (Tasks ts) = ts"
| "shown_tasks (RunnerTasks _ ts) = ts"
| "shown_tasks (Claimed None) = []"
| "shown_tasks (Claimed (Some (t, _, _))) = [t]"

definition shown_row :: "general_task \<Rightarrow> task_row" where
  "shown_row t = (fresh_row (gt_id t) [] (gt_agentId t) (gt_instruction t) (gt_budget t) [] [] 0)
     \<lparr>tk_status := gt_status t, tk_plan := gt_plan t, tk_planHash := gt_planHash t, tk_approved := gt_approvedPlanHash t,
      tk_results := gt_steps t\<rparr>"

definition shown_ok :: "ext \<Rightarrow> general_task \<Rightarrow> bool" where
  "shown_ok x t \<longleftrightarrow>
     (case gt_plan t of None \<Rightarrow> gt_planHash t = None \<and> gt_approvedPlanHash t = None
      | Some p \<Rightarrow> plan_cost p \<le> dec_int (gt_budget t) \<and>
          (case gt_planHash t of None \<Rightarrow> False | Some h \<Rightarrow> taskPlanHash x p = Inr h \<and> gt_approvedPlanHash t \<in> {None, Some h})) \<and>
     (if gt_approvedPlanHash t = None then gt_steps t = [] \<and> gt_status t \<notin> {Approved, Running, Completed}
      else gt_status t \<notin> {Queued, Planning, NeedsApproval} \<and> gt_approvalExpiresAt t \<noteq> None) \<and>
     list_all (\<lambda>i. step_proof x (shown_row t) i (gt_steps t ! i)) [0..<length (gt_steps t)] \<and>
     (if gt_status t = Completed
      then (case gt_plan t of None \<Rightarrow> False | Some p \<Rightarrow> length (gt_steps t) = length (tp_steps p))
      else True)"

lemma shown_fields:
  assumes "publicTask r = Inr t"
  shows "gt_id t = tk_id r" "gt_budget t = tk_budget r" "gt_status t = tk_status r" "gt_plan t = tk_plan r"
    "gt_planHash t = tk_planHash r" "gt_approvedPlanHash t = tk_approved r" "gt_steps t = tk_results r"
    "(gt_approvalExpiresAt t = None) = (tk_approvalExpires r = None)"
  using assms by (auto simp: publicTask_def bindR_eq_Inr split: option.splits)

lemma shown_sound:
  assumes "row_ok x r" "publicTask r = Inr t"
  shows "shown_ok x t"
proof -
  note f = shown_fields [OF assms(2)]
  have checks: "(tk_plan r = None) = (tk_planHash r = None)"
    "tk_approved r = None \<or> (tk_approved r = tk_planHash r \<and> tk_approvalExpires r \<noteq> None)"
    "tk_status r \<notin> {Approved, Running, Completed} \<or> tk_approved r \<noteq> None"
    using assms(1) by (simp_all add: row_ok_def row_checks_def)
  have "step_proof x (shown_row t) i res = step_proof x r i res" for i res
    by (rule step_proof_cong) (simp_all add: shown_row_def f fresh_row_def)
  then have "list_all (\<lambda>i. step_proof x (shown_row t) i (gt_steps t ! i)) [0..<length (gt_steps t)]"
    using results_sound [OF assms(1)] by (simp add: list_all_iff f)
  moreover have "case tk_plan r of None \<Rightarrow> tk_planHash r = None \<and> tk_approved r = None
      | Some p \<Rightarrow> plan_cost p \<le> dec_int (tk_budget r) \<and>
          (case tk_planHash r of None \<Rightarrow> False | Some h \<Rightarrow> taskPlanHash x p = Inr h \<and> tk_approved r \<in> {None, Some h})"
  proof (cases "tk_plan r")
    case None
    then show ?thesis using checks(1,2) by auto
  next
    case (Some p)
    then obtain h where "tk_planHash r = Some h" "taskPlanHash x p = Inr h" "plan_cost p \<le> dec_int (tk_budget r)"
      using assms(1) by (auto simp: row_ok_def plan_ok_def)
    then show ?thesis using checks(2) Some by auto
  qed
  moreover have "if tk_approved r = None then tk_results r = [] \<and> tk_status r \<notin> {Approved, Running, Completed}
      else tk_status r \<notin> {Queued, Planning, NeedsApproval} \<and> tk_approvalExpires r \<noteq> None"
    using assms(1) checks by (cases "tk_approved r") (auto simp: row_ok_def)
  ultimately show ?thesis
    using completed_sound [OF assms(1)] unfolding shown_ok_def f by blast
qed

lemma reply_shows: "reply_ok x a \<Longrightarrow> list_all (shown_ok x) (shown_tasks a)"
  by (cases "(x, a)" rule: reply_ok.cases) (auto simp: view_ok_def list_all_iff intro: shown_sound)

text \<open>
  C31. Whatever a request answers, whenever it answers, each task it shows is sound as it is
  shown: an approval is of the plan shown, by its hash, within the budget shown; the status is one
  the approval allows; every step shown is proved by a paid order for that step of that plan, under
  its order id, with its output; and a task is shown as completed only with such a result for every
  step of its plan.
\<close>

theorem task_replies_sound:
  "list_all (\<lambda>s. case s of Reply (Inr a) \<Rightarrow> list_all (shown_ok x) (shown_tasks a) | _ \<Rightarrow> True)
     (snd (run_pool (task_api x dep) task_world es (d\<lparr>td_tasks := []\<rparr>, [])))"
proof -
  have "case s of Reply (Inr a) \<Rightarrow> list_all (shown_ok x) (shown_tasks a) | _ \<Rightarrow> True"
    if s: "s \<in> set (snd (run_pool (task_api x dep) task_world es (d\<lparr>td_tasks := []\<rparr>, [])))" for s
  proof (cases "\<exists>a. s = Reply (Inr a)")
    case True
    then obtain a i where "s = Reply (Inr a)" "i < length (snd (run_pool (task_api x dep) task_world es (d\<lparr>td_tasks := []\<rparr>, [])))"
      "snd (run_pool (task_api x dep) task_world es (d\<lparr>td_tasks := []\<rparr>, [])) ! i = Reply (Inr a)"
      using s by (auto simp: in_set_conv_nth)
    then show ?thesis using reply_shows [OF task_platform.run_replies [OF empty_table_ok]] by simp
  qed (auto split: session.split sum.split)
  then show ?thesis unfolding list_all_iff by blast
qed

end
