(* ===== verification/Executor.thy ===== *)
theory Executor
  imports CircleOps
begin

text \<open>
  The purchaser of the economy, \<open>src/src/lib/economy/executor.ts\<close>: one order per journal,
  one unpaid order per directory, everything external behind \<open>executor_deps\<close>. A run parses
  the order, takes the directory's lock, and moves the journalled order along
  \<open>prepared, approving, approved, paying, paid, delivered, acknowledging, completed\<close>, or to
  \<open>aborting, aborted\<close>; it may die between any two effects.

  \<open>executor_interface\<close> is what the order's promises rely on: which Circle operations a
  dependency may create, and what its return says about them.
\<close>

section \<open>Orders\<close>

record executor_input =
  ei_origin :: string
  ei_agent :: string
  ei_orderId :: string
  ei_owner :: string
  ei_payer :: string
  ei_definition :: service_definition
  ei_serviceHash :: string
  ei_input :: "json option"
  ei_max :: string
  ei_expiry :: string

record versions =
  ve_policy :: string
  ve_agent :: string
  ve_fee :: string

datatype phase = Prepared | Approving | Approved | Paying | Paid | Delivered | Acknowledging | Completed
  | Aborting | Aborted | OtherPhase string

record executor_state =
  es_version :: int
  es_intent :: executor_input
  es_intentHash :: string
  es_versions :: versions
  es_phase :: phase
  es_abortHash :: "string option"
  es_revoke :: bool
  es_request :: "service_request option"
  es_payment :: "string option"
  es_output :: "json option"
  es_outputHash :: "string option"
  es_ack :: "string option"

record delivery =
  de_orderId :: string
  de_serviceHash :: string
  de_transaction :: string
  de_state :: string
  de_output :: "json option"
  de_outputHash :: "string option"

datatype executor_action = ApproveOp | PayOp | AckOp | AbortOp

fun action_str :: "executor_action \<Rightarrow> string" where
  "action_str ApproveOp = ''approve''"
| "action_str PayOp = ''pay''"
| "action_str AckOp = ''ack''"
| "action_str AbortOp = ''abort''"

type_synonym ('c, 'a) exec = "(executor_state, 'c, 'a) prog"

record 'c executor_deps =
  prepareApproval :: "executor_state \<Rightarrow> ('c, unit) exec"
  preparePayment :: "executor_state \<Rightarrow> ('c, unit) exec"
  assertActiveService :: "executor_input \<Rightarrow> ('c, unit) exec"
  hasOperation :: "executor_state \<Rightarrow> executor_action \<Rightarrow> ('c, bool) exec"
  prepareAbort :: "executor_state \<Rightarrow> ('c, bool) exec"
  abort :: "executor_state \<Rightarrow> ('c, string) exec"
  verifyAborted :: "executor_state \<Rightarrow> ('c, unit) exec"
  authenticate :: "executor_input \<Rightarrow> ('c, unit) exec"
  preflight :: "executor_input \<Rightarrow> versions option \<Rightarrow> ('c, versions) exec"
  approve :: "executor_state \<Rightarrow> ('c, unit) exec"
  pay :: "executor_state \<Rightarrow> ('c, string) exec"
  recover :: "executor_state \<Rightarrow> executor_action \<Rightarrow> ('c, string) exec"
  verifyPayment :: "executor_state \<Rightarrow> ('c, unit) exec"
  deliver :: "service_request \<Rightarrow> ('c, delivery) exec"
  verifyDelivery :: "executor_state \<Rightarrow> ('c, bool) exec"
  acknowledge :: "executor_state \<Rightarrow> ('c, string) exec"

text \<open>\<open>executorInputSchema.parse\<close>.\<close>

definition p_executor_input :: "ext \<Rightarrow> json \<Rightarrow> executor_input option" where
  "p_executor_input x v =
     (if \<not> strict [''version'', ''origin'', ''platformAgentId'', ''orderId'', ''owner'', ''payer'', ''definition'',
          ''serviceHash'', ''input'', ''maxAmountAtomic'', ''expiry''] v \<or> fint v ''version'' \<noteq> Some 1 then None
      else
     Option.bind (field v ''origin'' (\<lambda>u. Option.bind (as_str u) (\<lambda>s.
        Option.bind (z_url x s) (\<lambda>z. Option.bind (new_URL x z) (\<lambda>w.
          if protocol w = ''https:'' \<and> origin w = z then Some z else None))))) (\<lambda>og.
     Option.bind (field v ''platformAgentId'' (\<lambda>u. check is_uuid (as_str u))) (\<lambda>ag.
     Option.bind (check (\<lambda>s. \<not> list_all (\<lambda>c. c = CHR ''0'') (drop 2 s)) (field v ''orderId'' p_hex32)) (\<lambda>oi.
     Option.bind (field v ''owner'' (p_address x)) (\<lambda>ow.
     Option.bind (field v ''payer'' (p_address x)) (\<lambda>pa.
     Option.bind (field v ''definition'' (parse_definition x)) (\<lambda>df.
     Option.bind (field v ''serviceHash'' p_hex32) (\<lambda>sh.
     Option.bind (field v ''maxAmountAtomic'' p_positive) (\<lambda>mx.
     Option.bind (field v ''expiry'' p_positive) (\<lambda>ex.
       Some \<lparr>ei_origin = og, ei_agent = ag, ei_orderId = oi, ei_owner = ow, ei_payer = pa, ei_definition = df,
         ei_serviceHash = sh, ei_input = fld v ''input'', ei_max = mx, ei_expiry = ex\<rparr>))))))))))"

definition executor_input_json :: "executor_input \<Rightarrow> json" where
  "executor_input_json i = JObj (
     [(''version'', JNum (num_of_int 1)), (''origin'', JStr (ei_origin i)), (''platformAgentId'', JStr (ei_agent i)),
      (''orderId'', JStr (ei_orderId i)), (''owner'', JStr (ei_owner i)), (''payer'', JStr (ei_payer i)),
      (''definition'', definition_json (ei_definition i)), (''serviceHash'', JStr (ei_serviceHash i))] @
     (case ei_input i of None \<Rightarrow> [] | Some v \<Rightarrow> [(''input'', v)]) @
     [(''maxAmountAtomic'', JStr (ei_max i)), (''expiry'', JStr (ei_expiry i))])"

definition versions_json :: "versions \<Rightarrow> json" where
  "versions_json v = JObj [(''policyVersion'', JStr (ve_policy v)), (''agentVersion'', JStr (ve_agent v)),
     (''feeVersion'', JStr (ve_fee v))]"

definition total_price :: "service_definition \<Rightarrow> int" where
  "total_price d = dec_int (st_quantity d) * dec_int (st_unitPrice d)"

definition executor_intent :: "ext \<Rightarrow> json \<Rightarrow> executor_input res" where
  "executor_intent x v =
     bindR (of_opt Zod (p_executor_input x v)) (\<lambda>i.
     bindR (validateServiceDefinition x (definition_json (ei_definition i))) (\<lambda>_.
     bindR (of_opt (Err ''Value is not JSON'') (ei_input i)) (\<lambda>input.
     bindR (validateSchemaValue input (st_input (ei_definition i)) (64 * 1024)) (\<lambda>_.
     bindR (need (ei_serviceHash i = sd_hash (ei_definition i) \<and> total_price (ei_definition i) \<le> dec_int (ei_max i))
       (Err ''Service or maximum amount mismatch.'')) (\<lambda>_. Inr i)))))"

definition action_name :: "string \<Rightarrow> executor_action \<Rightarrow> string" where
  "action_name orderId k = ''executor-'' @ drop 2 orderId @ ''-'' @ action_str k"

definition operationName :: "executor_state \<Rightarrow> executor_action \<Rightarrow> string" where
  "operationName s k = action_name (ei_orderId (es_intent s)) k"

text \<open>\<open>BigInt(s)\<close> of a decimal string, which versions, quantities and expiries are.\<close>

definition bigint_of :: "string \<Rightarrow> int res" where
  "bigint_of s = (if numeral_str s then Inr (dec_int s) else Inl (Thrown ''SyntaxError''))"

definition settlementOrder :: "ext \<Rightarrow> executor_state \<Rightarrow> settlement_order res" where
  "settlementOrder x s =
     (let i = es_intent s; d = ei_definition i
      in bindR (hash_opt x (ei_input i)) (\<lambda>ih.
         bindR (bigint_of (ve_policy (es_versions s))) (\<lambda>pv.
         bindR (bigint_of (ve_agent (es_versions s))) (\<lambda>av.
         bindR (bigint_of (ve_fee (es_versions s))) (\<lambda>fv.
           Inr \<lparr>so_orderId = ei_orderId i, so_agentId = text_hash x (ei_agent i),
             so_category = category_index (st_category d), so_seller = st_seller d, so_serviceHash = sd_hash d,
             so_unitHash = text_hash x (st_unit d), so_quantity = dec_int (st_quantity d),
             so_unitPrice = dec_int (st_unitPrice d), so_amount = total_price d, so_inputHash = ih,
             so_deadline = dec_int (ei_expiry i), so_policyVersion = pv, so_agentVersion = av, so_feeVersion = fv\<rparr>)))))"

definition requestFor :: "ext \<Rightarrow> executor_state \<Rightarrow> service_request res" where
  "requestFor x s =
     (let i = es_intent s; d = ei_definition i
      in bindR (settlementOrder x s) (\<lambda>so.
         bindR (of_opt (Err ''Missing payment proof.'') (es_payment s)) (\<lambda>h.
           validateServiceRequest x d (request_json
             \<lparr>rq_orderId = ei_orderId i, rq_agentId = so_agentId so, rq_payer = ei_payer i, rq_serviceHash = sd_hash d,
              rq_inputHash = so_inputHash so, rq_category = st_category d, rq_unit = st_unit d,
              rq_quantity = st_quantity d, rq_unitPrice = st_unitPrice d, rq_amount = int_dec (so_amount so),
              rq_settlement = st_settlement d, rq_ledger = st_ledger d, rq_transaction = h, rq_input = ei_input i\<rparr>))))"

section \<open>The run\<close>

definition persist :: "string \<Rightarrow> executor_state \<Rightarrow> ('c, unit) exec" where
  "persist k s = saveJournal k s"

definition bad_journal :: js_error where
  "bad_journal = Err ''Invalid executor journal; preserve it for inspection.''"

text \<open>The stored order must be the order of the input.\<close>

definition check_stored :: "ext \<Rightarrow> string \<Rightarrow> executor_state option \<Rightarrow> unit res" where
  "check_stored x h stored =
     (case stored of None \<Rightarrow> Inr () | Some s \<Rightarrow>
        bindR (if es_version s \<noteq> 1 \<or> es_intentHash s \<noteq> h then Inr False
          else bindR (canonicalJsonHash x (executor_input_json (es_intent s))) (\<lambda>g. Inr (g = h))) (\<lambda>same.
        bindR (need same (Err ''Order intent is immutable; preserve the original input and journal.'')) (\<lambda>_.
        need (case es_phase s of OtherPhase _ \<Rightarrow> False | _ \<Rightarrow> True) (Err ''Invalid executor phase.''))))"

definition fresh_state :: "executor_input \<Rightarrow> string \<Rightarrow> versions \<Rightarrow> executor_state" where
  "fresh_state i h v = \<lparr>es_version = 1, es_intent = i, es_intentHash = h, es_versions = v, es_phase = Prepared,
     es_abortHash = None, es_revoke = False, es_request = None, es_payment = None, es_output = None,
     es_outputHash = None, es_ack = None\<rparr>"

definition abort_order :: "'c executor_deps \<Rightarrow> string \<Rightarrow> executor_state \<Rightarrow> ('c, executor_state) exec" where
  "abort_order D k s =
     bindP (needP (es_phase s \<in> {Prepared, Approving, Approved, Paying, Aborting}) (Err ''A paid order cannot be aborted.'')) (\<lambda>_.
     bindP (if es_phase s \<noteq> Aborting
            then bindP (prepareAbort D s) (\<lambda>r.
              let s' = s\<lparr>es_revoke := r, es_phase := Aborting\<rparr> in bindP (persist k s') (\<lambda>_. retP s'))
            else retP s) (\<lambda>s.
     bindP (if es_revoke s
            then bindP (hasOperation D s AbortOp) (\<lambda>b.
                 bindP (if b then recover D s AbortOp else abort D s) (\<lambda>h. retP (s\<lparr>es_abortHash := Some h\<rparr>)))
            else retP s) (\<lambda>s.
     bindP (verifyAborted D s) (\<lambda>_.
     let s' = s\<lparr>es_phase := Aborted\<rparr> in
     bindP (persist k s') (\<lambda>_. bindP removeReservation (\<lambda>_. retP s'))))))"

text \<open>A crash before Circle's journal was written is undone; the order goes one phase back.\<close>

definition undo_unsubmitted :: "'c executor_deps \<Rightarrow> string \<Rightarrow> executor_state \<Rightarrow> ('c, executor_state) exec" where
  "undo_unsubmitted D k s =
     bindP (if es_phase s = Approving
            then bindP (hasOperation D s ApproveOp) (\<lambda>b. if b then retP s
              else let s' = s\<lparr>es_phase := Prepared\<rparr> in bindP (persist k s') (\<lambda>_. bindP removeReservation (\<lambda>_. retP s')))
            else retP s) (\<lambda>s.
     if es_phase s = Paying
     then bindP (hasOperation D s PayOp) (\<lambda>b. if b then retP s
       else let s' = s\<lparr>es_phase := Approved\<rparr> in bindP (persist k s') (\<lambda>_. retP s'))
     else retP s)"

definition approve_order :: "'c executor_deps \<Rightarrow> string \<Rightarrow> executor_state \<Rightarrow> ('c, executor_state) exec" where
  "approve_order D k s =
     bindP (prepareApproval D s) (\<lambda>_.
     bindP (saveReservation (ei_orderId (es_intent s)) (ei_payer (es_intent s))) (\<lambda>_.
     let s' = s\<lparr>es_phase := Approving\<rparr> in
     bindP (persist k s') (\<lambda>_.
     bindP (catchP (approve D s') (\<lambda>e. bindP (hasOperation D s' ApproveOp) (\<lambda>b.
         if b then throwP e
         else bindP (persist k (s'\<lparr>es_phase := Prepared\<rparr>)) (\<lambda>_. bindP removeReservation (\<lambda>_. throwP e))))) (\<lambda>_.
     let s'' = s'\<lparr>es_phase := Approved\<rparr> in bindP (persist k s'') (\<lambda>_. retP s'')))))"

definition mark_paid :: "ext \<Rightarrow> string \<Rightarrow> executor_state \<Rightarrow> ('c, executor_state) exec" where
  "mark_paid x k s =
     bindP (liftP (requestFor x s)) (\<lambda>r.
     let s' = s\<lparr>es_request := Some r, es_phase := Paid\<rparr> in bindP (persist k s') (\<lambda>_. retP s'))"

definition pay_order :: "ext \<Rightarrow> 'c executor_deps \<Rightarrow> string \<Rightarrow> executor_input \<Rightarrow> executor_state \<Rightarrow> ('c, executor_state) exec" where
  "pay_order x D k i s =
     bindP (preparePayment D s) (\<lambda>_. bindP (authenticate D i) (\<lambda>_. bindP (assertActiveService D i) (\<lambda>_.
     let s' = s\<lparr>es_phase := Paying\<rparr> in
     bindP (persist k s') (\<lambda>_.
     bindP (catchP (pay D s') (\<lambda>e. bindP (hasOperation D s' PayOp) (\<lambda>b.
         if b then throwP e else bindP (persist k (s'\<lparr>es_phase := Approved\<rparr>)) (\<lambda>_. throwP e)))) (\<lambda>h.
     mark_paid x k (s'\<lparr>es_payment := Some h\<rparr>))))))"

definition same_versions :: "ext \<Rightarrow> versions \<Rightarrow> versions \<Rightarrow> bool res" where
  "same_versions x v w =
     bindR (canonicalJsonHash x (versions_json v)) (\<lambda>a. bindR (canonicalJsonHash x (versions_json w)) (\<lambda>b. Inr (a = b)))"

definition settle_unpaid :: "ext \<Rightarrow> 'c executor_deps \<Rightarrow> string \<Rightarrow> executor_input \<Rightarrow> executor_state \<Rightarrow> ('c, executor_state) exec" where
  "settle_unpaid x D k i s =
     (if es_phase s \<in> {Prepared, Approving, Approved}
      then bindP (preflight D i (Some (es_versions s))) (\<lambda>v.
           bindP (liftP (same_versions x v (es_versions s))) (\<lambda>same.
           bindP (needP same (Err ''Stored policy versions are immutable.'')) (\<lambda>_.
           bindP (if es_phase s = Approving
                  then bindP (recover D s ApproveOp) (\<lambda>_.
                    let s' = s\<lparr>es_phase := Approved\<rparr> in bindP (persist k s') (\<lambda>_. retP s'))
                  else if es_phase s = Prepared then approve_order D k s else retP s) (\<lambda>s.
           pay_order x D k i s))))
      else if es_phase s = Paying
      then bindP (recover D s PayOp) (\<lambda>h. mark_paid x k (s\<lparr>es_payment := Some h\<rparr>))
      else retP s)"

definition check_request :: "ext \<Rightarrow> executor_state \<Rightarrow> service_request res" where
  "check_request x s =
     (let bad = Err ''Stored request is missing or differs from immutable terms.''
      in bindR (of_opt bad (es_request s)) (\<lambda>r.
         bindR (canonicalJsonHash x (request_json r)) (\<lambda>a.
         bindR (requestFor x s) (\<lambda>q.
         bindR (canonicalJsonHash x (request_json q)) (\<lambda>b.
         bindR (need (a = b) bad) (\<lambda>_. Inr r))))))"

definition accept_delivery :: "ext \<Rightarrow> executor_input \<Rightarrow> executor_state \<Rightarrow> delivery \<Rightarrow> executor_state res" where
  "accept_delivery x i s d =
     bindR (need (de_state d = ''fulfilled'') (Err ''Paid delivery remains pending; retry the same input.'')) (\<lambda>_.
     bindR (need (de_orderId d = ei_orderId i \<and> de_serviceHash d = ei_serviceHash i \<and> Some (de_transaction d) = es_payment s)
       (Err ''Unbound provider output.'')) (\<lambda>_.
     bindR (hash_opt x (de_output d)) (\<lambda>h.
     bindR (need (de_outputHash d = Some h) (Err ''Unbound provider output.'')) (\<lambda>_.
     bindR (of_opt (Err ''Value is not JSON'') (de_output d)) (\<lambda>out.
     bindR (validateSchemaValue out (st_output (ei_definition i)) (128 * 1024)) (\<lambda>_.
       Inr (s\<lparr>es_output := Some out, es_outputHash := Some h, es_phase := Delivered\<rparr>)))))))"

definition acknowledge_order :: "'c executor_deps \<Rightarrow> string \<Rightarrow> executor_state \<Rightarrow> ('c, executor_state) exec" where
  "acknowledge_order D k s =
     (let unfinal = Err ''Acknowledgment not finalized.''; fin = (\<lambda>s. let s' = s\<lparr>es_phase := Completed\<rparr> in bindP (persist k s') (\<lambda>_. retP s'))
      in bindP (verifyDelivery D s) (\<lambda>acked.
         if es_phase s = Completed then bindP (needP acked unfinal) (\<lambda>_. retP s)
         else if es_phase s = Acknowledging
         then bindP (recover D s AckOp) (\<lambda>h.
              let s' = s\<lparr>es_ack := Some h\<rparr> in
              bindP (verifyDelivery D s') (\<lambda>b. bindP (needP b unfinal) (\<lambda>_. fin s')))
         else if acked then fin s
         else let s' = s\<lparr>es_phase := Acknowledging\<rparr> in
              bindP (persist k s') (\<lambda>_. bindP (acknowledge D s') (\<lambda>h. fin (s'\<lparr>es_ack := Some h\<rparr>)))))"

definition finish_order ::
    "ext \<Rightarrow> 'c executor_deps \<Rightarrow> string \<Rightarrow> executor_input \<Rightarrow> bool \<Rightarrow> executor_state \<Rightarrow> ('c, executor_state) exec" where
  "finish_order x D k i reserved s =
     bindP (liftP (check_request x s)) (\<lambda>r.
     bindP (verifyPayment D s) (\<lambda>_.
     bindP (if reserved \<or> es_phase s = Paid then removeReservation else retP ()) (\<lambda>_.
     bindP (if es_phase s = Paid
            then bindP (deliver D r) (\<lambda>d. bindP (liftP (accept_delivery x i s d)) (\<lambda>s'. bindP (persist k s') (\<lambda>_. retP s')))
            else retP s) (\<lambda>s.
     bindP (liftP (hash_opt x (es_output s))) (\<lambda>h.
     bindP (needP (es_outputHash s = Some h) (Err ''Stored output hash mismatch.'')) (\<lambda>_.
       acknowledge_order D k s))))))"

definition run_order :: "ext \<Rightarrow> 'c executor_deps \<Rightarrow> executor_input \<Rightarrow> bool \<Rightarrow> ('c, executor_state) exec" where
  "run_order x D i abortUnpaid =
     (let k = ei_orderId i
      in bindP (liftP (canonicalJsonHash x (executor_input_json i))) (\<lambda>h.
         bindP (readJournal bad_journal k) (\<lambda>stored.
         bindP (liftP (check_stored x h stored)) (\<lambda>_.
         bindP (if abortUnpaid then retP () else authenticate D i) (\<lambda>_.
         bindP (readReservation bad_journal) (\<lambda>reserved.
         bindP (needP (case reserved of None \<Rightarrow> True | Some (other, _) \<Rightarrow> other = k)
           (Err ''Another order holds the allowance reservation; reconcile that order first.'')) (\<lambda>_.
         bindP (needP (stored \<noteq> None \<or> \<not> abortUnpaid) (Err ''No stored unpaid order to abort.'')) (\<lambda>_.
         bindP (case stored of
             Some s \<Rightarrow> retP s
           | None \<Rightarrow> bindP (preflight D i None) (\<lambda>v. let s = fresh_state i h v in bindP (persist k s) (\<lambda>_. retP s))) (\<lambda>s.
         if es_phase s = Aborted
         then bindP (verifyAborted D s) (\<lambda>_. bindP removeReservation (\<lambda>_. retP s))
         else if abortUnpaid \<or> es_phase s = Aborting then abort_order D k s
         else bindP (undo_unsubmitted D k s) (\<lambda>s.
              bindP (settle_unpaid x D k i s) (\<lambda>s.
              finish_order x D k i (reserved \<noteq> None) s)))))))))))"

definition runEconomyExecutor :: "ext \<Rightarrow> 'c executor_deps \<Rightarrow> json \<Rightarrow> bool \<Rightarrow> ('c, executor_state) exec" where
  "runEconomyExecutor x D v abortUnpaid =
     bindP (liftP (executor_intent x v)) (\<lambda>i.
     bindP (takeLock (Err ''Executor locked; inspect the owning process before removing a stale lock.'')) (\<lambda>_.
     finallyP (run_order x D i abortUnpaid) dropLock))"

section \<open>Invariants of the directory\<close>

abbreviation pay_name :: "string \<Rightarrow> string" where
  "pay_name k \<equiv> action_name k PayOp"

definition unpaid_phases :: "phase set" where
  "unpaid_phases = {Prepared, Approving, Approved, Aborting, Aborted}"

definition holding_phases :: "phase set" where
  "holding_phases = {Approving, Approved, Paying}"

definition paid_phases :: "phase set" where
  "paid_phases = {Paid, Delivered, Acknowledging, Completed}"

definition delivered_phases :: "phase set" where
  "delivered_phases = {Delivered, Acknowledging, Completed}"

lemmas phase_sets = unpaid_phases_def holding_phases_def paid_phases_def delivered_phases_def

fun paid_rank :: "phase \<Rightarrow> nat" where
  "paid_rank Paid = 1" | "paid_rank Delivered = 2" | "paid_rank Acknowledging = 3" | "paid_rank Completed = 4"
| "paid_rank _ = 0"

text \<open>What a journalled order says: a paid one holds the request of its payment, a delivered one
  an output that fits its hash and the output schema of the order's service.\<close>

definition state_sound :: "ext \<Rightarrow> executor_state \<Rightarrow> bool" where
  "state_sound x s \<longleftrightarrow> (\<forall>e. es_phase s \<noteq> OtherPhase e) \<and>
     (es_phase s \<in> paid_phases \<longrightarrow> (\<exists>r. es_request s = Some r \<and> requestFor x s = Inr r)) \<and>
     (es_phase s \<in> delivered_phases \<longrightarrow> (\<exists>out h i. es_output s = Some out \<and> es_outputHash s = Some h \<and>
        canonicalJsonHash x out = Inr h \<and> canonicalJsonHash x (executor_input_json i) = Inr (es_intentHash s) \<and>
        validateSchemaValue out (st_output (ei_definition i)) (128 * 1024) = Inr ()))"

text \<open>The order under key \<open>k\<close>: what its phase says about Circle's journal of the payment and about
  the reservation.\<close>

definition order_ok :: "ext \<Rightarrow> (executor_state, 'c) machine \<Rightarrow> string \<Rightarrow> bool" where
  "order_ok x m k \<longleftrightarrow> (case journal m k of
       Absent \<Rightarrow> ops m (pay_name k) = Absent
     | Corrupt \<Rightarrow> False
     | Stored s \<Rightarrow> ei_orderId (es_intent s) = k \<and> state_sound x s \<and>
         (es_phase s \<in> unpaid_phases \<longrightarrow> ops m (pay_name k) = Absent) \<and>
         (es_phase s \<in> paid_phases \<longrightarrow> ops m (pay_name k) \<noteq> Absent) \<and>
         (es_phase s \<in> holding_phases \<longrightarrow> (\<exists>p. reservation m = Stored (k, p))))"

definition executor_ok :: "ext \<Rightarrow> (executor_state, 'c) machine \<Rightarrow> bool" where
  "executor_ok x m \<longleftrightarrow> once_ok m \<and> (\<forall>k. hex_n 64 k \<longrightarrow> order_ok x m k)"

text \<open>What a journalled order keeps.\<close>

definition state_evolves :: "executor_state \<Rightarrow> executor_state \<Rightarrow> bool" where
  "state_evolves s s' \<longleftrightarrow>
     es_intent s' = es_intent s \<and> es_intentHash s' = es_intentHash s \<and> es_versions s' = es_versions s \<and>
     (es_phase s \<in> paid_phases \<longrightarrow> paid_rank (es_phase s) \<le> paid_rank (es_phase s') \<and>
        es_request s' = es_request s \<and> es_payment s' = es_payment s) \<and>
     (es_phase s \<in> delivered_phases \<longrightarrow> es_output s' = es_output s \<and> es_outputHash s' = es_outputHash s) \<and>
     (es_phase s = Aborting \<longrightarrow> es_phase s' \<in> {Aborting, Aborted}) \<and>
     (es_phase s \<in> {Aborted, Completed} \<longrightarrow> s' = s)"

definition directory_evolves :: "(executor_state, 'c) machine \<Rightarrow> (executor_state, 'c) machine \<Rightarrow> bool" where
  "directory_evolves m0 m \<longleftrightarrow>
     (\<forall>k s. hex_n 64 k \<longrightarrow> journal m0 k = Stored s \<longrightarrow> (\<exists>s'. journal m k = Stored s' \<and> state_evolves s s')) \<and>
     (\<forall>n. ops m0 n \<noteq> Absent \<longrightarrow> ops m n \<noteq> Absent)"

lemma paid_rank_pos: "es_phase s \<in> paid_phases \<longleftrightarrow> 1 \<le> paid_rank (es_phase s)"
  by (cases "es_phase s") (auto simp: paid_phases_def)

lemma delivered_rank: "es_phase s \<in> delivered_phases \<longleftrightarrow> 2 \<le> paid_rank (es_phase s)"
  by (cases "es_phase s") (auto simp: delivered_phases_def)

lemma state_evolves_refl: "state_evolves s s"
  by (simp add: state_evolves_def)

lemma state_evolves_trans: "state_evolves a b \<Longrightarrow> state_evolves b c \<Longrightarrow> state_evolves a c"
  unfolding state_evolves_def paid_rank_pos delivered_rank
  by (elim conjE, intro conjI impI) (auto dest: order_trans)

lemma directory_evolves_refl: "directory_evolves m m"
  by (auto simp: directory_evolves_def intro: state_evolves_refl)

lemma directory_evolves_trans: "directory_evolves a b \<Longrightarrow> directory_evolves b c \<Longrightarrow> directory_evolves a c"
  unfolding directory_evolves_def by (meson state_evolves_trans)

lemma action_name_eq [simp]: "action_name a k = action_name b l \<longleftrightarrow> drop 2 a = drop 2 b \<and> k = l"
proof -
  have r: "rev (action_name a k) = rev (action_str k) @ ''-'' @ rev (drop 2 a) @ rev ''executor-''" for a k
    by (simp add: action_name_def)
  have "action_name a k = action_name b l \<longleftrightarrow> rev (action_name a k) = rev (action_name b l)" by simp
  also have "\<dots> \<longleftrightarrow> drop 2 a = drop 2 b \<and> k = l" unfolding r by (cases k; cases l) simp_all
  finally show ?thesis .
qed

lemma hex_key_inj: "hex_n 64 a \<Longrightarrow> hex_n 64 b \<Longrightarrow> drop 2 a = drop 2 b \<longleftrightarrow> a = b"
  unfolding hex_n_def by (metis append_take_drop_id)

section \<open>The contract of the dependencies\<close>

text \<open>A quiet program creates no payment; a payer creates only the payment of its order.\<close>

definition quiet_frame :: "(executor_state, 'c) machine \<Rightarrow> (executor_state, 'c) machine \<Rightarrow> bool" where
  "quiet_frame m m' \<longleftrightarrow> op_frame m m' \<and> (\<forall>k. ops m (pay_name k) = Absent \<longrightarrow> ops m' (pay_name k) = Absent)"

definition payer_frame :: "string \<Rightarrow> (executor_state, 'c) machine \<Rightarrow> (executor_state, 'c) machine \<Rightarrow> bool" where
  "payer_frame n m m' \<longleftrightarrow>
     op_frame m m' \<and> (\<forall>k. pay_name k \<noteq> n \<longrightarrow> ops m (pay_name k) = Absent \<longrightarrow> ops m' (pay_name k) = Absent)"

locale executor_interface =
  fixes x :: ext and D :: "'c executor_deps" and settled :: "service_request \<Rightarrow> bool"
  assumes quiet:
      "within quiet_frame (prepareApproval D s)" "within quiet_frame (preparePayment D s)"
      "within quiet_frame (assertActiveService D i)" "within quiet_frame (hasOperation D s a)"
      "within quiet_frame (prepareAbort D s)" "within quiet_frame (abort D s)"
      "within quiet_frame (verifyAborted D s)" "within quiet_frame (authenticate D i)"
      "within quiet_frame (preflight D i v)" "within quiet_frame (approve D s)"
      "within quiet_frame (recover D s a)" "within quiet_frame (verifyPayment D s)"
      "within quiet_frame (deliver D r)" "within quiet_frame (verifyDelivery D s)"
      "within quiet_frame (acknowledge D s)"
    and payer: "within (payer_frame (operationName s PayOp)) (pay D s)"
    and pay_made: "pay D s m = (Ret h, m') \<Longrightarrow> ops m' (operationName s PayOp) \<noteq> Absent"
    and recover_made: "recover D s PayOp m = (Ret h, m') \<Longrightarrow> ops m' (operationName s PayOp) \<noteq> Absent"
    and has_operation: "hasOperation D s a m = (Ret b, m') \<Longrightarrow> b = (ops m' (operationName s a) \<noteq> Absent)"
    and abort_prepared: "prepareAbort D s m = (Ret b, m') \<Longrightarrow> ops m' (operationName s PayOp) = Absent"
    and abort_verified: "verifyAborted D s m = (Ret u, m') \<Longrightarrow> ops m' (operationName s PayOp) = Absent"
    and payment_verified: "verifyPayment D s m = (Ret u, m') \<Longrightarrow> es_request s = Some r \<Longrightarrow> settled r"
begin

text \<open>During the run of order \<open>k\<close> that began at \<open>m0\<close>, with \<open>s\<close> on disk.\<close>

definition run_ok :: "(executor_state, 'c) machine \<Rightarrow> (executor_state, 'c) machine \<Rightarrow> bool" where
  "run_ok m0 m \<longleftrightarrow> executor_ok x m \<and> directory_evolves m0 m"

definition at :: "(executor_state, 'c) machine \<Rightarrow> string \<Rightarrow> executor_state \<Rightarrow> (executor_state, 'c) machine \<Rightarrow> bool" where
  "at m0 k s m \<longleftrightarrow> run_ok m0 m \<and> hex_n 64 k \<and> journal m k = Stored s \<and>
     (reservation m = Absent \<or> (\<exists>p. reservation m = Stored (k, p)))"

lemma quiet_order_ok: "order_ok x m k \<Longrightarrow> quiet_frame m m' \<Longrightarrow> order_ok x m' k"
  by (auto simp: order_ok_def quiet_frame_def op_frame_def split: disk_file.splits)

lemma quiet_run_ok: "run_ok m0 m \<Longrightarrow> quiet_frame m m' \<Longrightarrow> run_ok m0 m'"
proof -
  assume ok: "run_ok m0 m" and q: "quiet_frame m m'"
  have "once_ok m'" "journal m' = journal m" "\<forall>n. ops m n \<noteq> Absent \<longrightarrow> ops m' n \<noteq> Absent"
    using ok q by (simp_all add: run_ok_def executor_ok_def quiet_frame_def op_frame_def)
  moreover have "order_ok x m' k" if "hex_n 64 k" for k
    using ok that q by (intro quiet_order_ok [OF _ q]) (simp add: run_ok_def executor_ok_def)
  ultimately show ?thesis using ok by (simp add: run_ok_def executor_ok_def directory_evolves_def)
qed

lemma quiet_at: "at m0 k s m \<Longrightarrow> quiet_frame m m' \<Longrightarrow> at m0 k s m'"
  using quiet_run_ok [of m0 m m'] unfolding at_def by (simp add: quiet_frame_def op_frame_def)

lemma at_run_ok: "at m0 k s m \<Longrightarrow> run_ok m0 m"
  by (simp add: at_def)

lemma at_order: "at m0 k s m \<Longrightarrow> order_ok x m k"
  by (simp add: at_def run_ok_def executor_ok_def)

lemma at_facts:
  assumes "at m0 k s m"
  shows "ei_orderId (es_intent s) = k" "state_sound x s" "operationName s a = action_name k a"
    "es_phase s \<in> unpaid_phases \<Longrightarrow> ops m (pay_name k) = Absent"
    "es_phase s \<in> paid_phases \<Longrightarrow> ops m (pay_name k) \<noteq> Absent"
    "es_phase s \<in> holding_phases \<Longrightarrow> \<exists>p. reservation m = Stored (k, p)"
  using at_order [OF assms] assms by (auto simp: order_ok_def at_def operationName_def)

text \<open>A quiet step keeps \<open>at\<close>; what its return says is kept too.\<close>

lemma quiet_step:
  assumes "within quiet_frame p" "\<And>m a m'. at m0 k s m \<Longrightarrow> p m = (Ret a, m') \<Longrightarrow> Q a m'"
  shows "triple (run_ok m0) (at m0 k s) (at m0 k s) p (\<lambda>a m. at m0 k s m \<and> Q a m)"
  unfolding triple_def
proof (intro allI impI)
  fix m assume at: "at m0 k s m"
  obtain r m' where p: "p m = (r, m')" by (cases "p m")
  have "at m0 k s m'" by (rule quiet_at [OF at withinD [OF assms(1) p]])
  then show "case p m of (Ret a, m') \<Rightarrow> at m0 k s m' \<and> Q a m' | (Throw e, m') \<Rightarrow> at m0 k s m' | (Died, m') \<Rightarrow> run_ok m0 m'"
    using assms(2) [OF at] p at_run_ok by (auto split: outcome.split)
qed

lemma quiet_then_know:
  assumes "within quiet_frame p" "\<And>m a m'. at m0 k s m \<Longrightarrow> p m = (Ret a, m') \<Longrightarrow> Q a m'"
    "\<And>a. triple (run_ok m0) (run_ok m0) (\<lambda>m. at m0 k s m \<and> Q a m) (f a) R"
  shows "triple (run_ok m0) (run_ok m0) (at m0 k s) (bindP p f) R"
  by (rule triple_bind [where R = "\<lambda>a m. at m0 k s m \<and> Q a m"], rule triple_conseq [OF quiet_step])
    (use assms at_run_ok in auto)

lemma quiet_keep:
  assumes "within quiet_frame p"
  shows "triple (run_ok m0) (at m0 k s) (at m0 k s) p (\<lambda>_. at m0 k s)"
  using quiet_step [OF assms, of m0 k s "\<lambda>_ _. True"] by simp

lemma quiet_then:
  assumes "within quiet_frame p" "\<And>a. triple (run_ok m0) (run_ok m0) (at m0 k s) (f a) Q"
  shows "triple (run_ok m0) (run_ok m0) (at m0 k s) (bindP p f) Q"
  by (rule quiet_then_know [where Q = "\<lambda>_ _. True"]) (use assms in simp_all)

text \<open>A quiet step from any predicate that quiet steps keep.\<close>

lemma quiet_from:
  assumes "within quiet_frame p" "\<And>m m'. P m \<Longrightarrow> quiet_frame m m' \<Longrightarrow> P m'" "\<And>m. P m \<Longrightarrow> run_ok m0 m"
  shows "triple (run_ok m0) (run_ok m0) P p (\<lambda>_. P)"
  unfolding triple_def
proof (intro allI impI)
  fix m assume P: "P m"
  obtain r m' where p: "p m = (r, m')" by (cases "p m")
  have "P m'" by (rule assms(2) [OF P withinD [OF assms(1) p]])
  then show "case p m of (Ret a, m') \<Rightarrow> P m' | (Throw e, m') \<Rightarrow> run_ok m0 m' | (Died, m') \<Rightarrow> run_ok m0 m'"
    using assms(3) p by (auto split: outcome.split)
qed

text \<open>The payment itself, with the order in phase \<open>paying\<close> on disk.\<close>

lemma pay_step:
  assumes "es_phase s = Paying"
  shows "triple (run_ok m0) (at m0 k s) (at m0 k s) (pay D s) (\<lambda>h m. at m0 k s m \<and> ops m (pay_name k) \<noteq> Absent)"
  unfolding triple_def
proof (intro allI impI)
  fix m assume at: "at m0 k s m"
  obtain r m' where p: "pay D s m = (r, m')" by (cases "pay D s m")
  note name = at_facts(3) [OF at, of PayOp]
  have fr: "payer_frame (pay_name k) m m'" using withinD [OF payer p] name by simp
  have fr': "journal m' = journal m" "reservation m' = reservation m" "once_ok m \<Longrightarrow> once_ok m'"
      "\<And>n. ops m n \<noteq> Absent \<Longrightarrow> ops m' n \<noteq> Absent"
    using fr by (auto simp: payer_frame_def op_frame_def)
  have "order_ok x m' j" if j: "hex_n 64 j" for j
  proof (cases "j = k")
    case True
    then show ?thesis using at_order [OF at] at assms fr'
      by (simp add: order_ok_def at_def phase_sets)
  next
    case False
    have "drop 2 j \<noteq> drop 2 k" using False j at hex_key_inj by (auto simp: at_def)
    then have "ops m (pay_name j) = Absent \<longleftrightarrow> ops m' (pay_name j) = Absent"
      using fr fr'(4) by (auto simp: payer_frame_def)
    moreover have "order_ok x m j" using at j by (simp add: at_def run_ok_def executor_ok_def)
    ultimately show ?thesis using fr'(1,2) by (auto simp: order_ok_def split: disk_file.splits)
  qed
  then have "at m0 k s m'"
    using at fr' by (simp add: at_def run_ok_def executor_ok_def directory_evolves_def)
  then show "case pay D s m of (Ret a, m') \<Rightarrow> at m0 k s m' \<and> ops m' (pay_name k) \<noteq> Absent
      | (Throw e, m') \<Rightarrow> at m0 k s m' | (Died, m') \<Rightarrow> run_ok m0 m'"
    using pay_made [of s m] name p at_run_ok by (auto split: outcome.split)
qed

text \<open>Saving the next state of the order.\<close>

lemma save_step:
  assumes "state_evolves s s'" "state_sound x s'"
  shows "triple (run_ok m0) (run_ok m0)
    (\<lambda>m. at m0 k s m \<and> (es_phase s' \<in> unpaid_phases \<longrightarrow> ops m (pay_name k) = Absent) \<and>
       (es_phase s' \<in> paid_phases \<longrightarrow> ops m (pay_name k) \<noteq> Absent) \<and>
       (es_phase s' \<in> holding_phases \<longrightarrow> (\<exists>p. reservation m = Stored (k, p))))
    (persist k s') (\<lambda>_. at m0 k s')"
  unfolding persist_def
proof (rule triple_saveJournal)
  fix m n
  assume m: "at m0 k s m \<and> (es_phase s' \<in> unpaid_phases \<longrightarrow> ops m (pay_name k) = Absent) \<and>
       (es_phase s' \<in> paid_phases \<longrightarrow> ops m (pay_name k) \<noteq> Absent) \<and>
       (es_phase s' \<in> holding_phases \<longrightarrow> (\<exists>p. reservation m = Stored (k, p)))"
  let ?m = "m\<lparr>budget := n, journal := (journal m)(k := Stored s')\<rparr>"
  have id: "ei_orderId (es_intent s') = k" using at_facts(1) m assms(1) by (auto simp: state_evolves_def)
  have "order_ok x ?m j" if "hex_n 64 j" for j
  proof (cases "j = k")
    case True
    then show ?thesis using m id assms(2) by (simp add: order_ok_def)
  next
    case False
    have "order_ok x m j" using m that by (simp add: at_def run_ok_def executor_ok_def)
    then show ?thesis using False by (simp add: order_ok_def split: disk_file.splits)
  qed
  moreover have "once_ok ?m" using m by (simp add: at_def run_ok_def executor_ok_def once_ok_def submits_of_def)
  moreover have "directory_evolves m0 ?m"
  proof -
    have "directory_evolves m0 m" using m by (simp add: at_def run_ok_def)
    moreover have "directory_evolves m ?m"
      using m assms(1) state_evolves_refl by (auto simp: directory_evolves_def at_def)
    ultimately show ?thesis by (rule directory_evolves_trans)
  qed
  ultimately show "at m0 k s' ?m" using m by (simp add: at_def run_ok_def executor_ok_def)
qed (simp add: at_def)

lemma release_step:
  assumes "es_phase s \<notin> holding_phases"
  shows "triple (run_ok m0) (run_ok m0) (at m0 k s) removeReservation (\<lambda>_. at m0 k s)"
  unfolding removeReservation_def
proof (rule triple_effect)
  fix m n a m'
  assume m: "at m0 k s m" and m': "((), (m\<lparr>budget := n\<rparr>)\<lparr>reservation := Absent\<rparr>) = (a, m')"
  have "order_ok x m' j" if "hex_n 64 j" for j
  proof -
    have j: "order_ok x m j" using m that by (simp add: at_def run_ok_def executor_ok_def)
    have "es_phase s' \<notin> holding_phases" if "journal m j = Stored s'" for s'
      using j that m assms by (cases "j = k") (auto simp: order_ok_def at_def)
    with j m' show ?thesis by (auto simp: order_ok_def split: disk_file.splits)
  qed
  then show "at m0 k s m'"
    using m m' by (auto simp: at_def run_ok_def executor_ok_def directory_evolves_def once_ok_def submits_of_def)
qed (rule at_run_ok)

lemma reserve_step:
  "triple (run_ok m0) (run_ok m0) (at m0 k s) (saveReservation k p) (\<lambda>_ m. at m0 k s m \<and> reservation m = Stored (k, p))"
  unfolding saveReservation_def
proof (rule triple_effect)
  fix m n a m'
  assume m: "at m0 k s m" and m': "((), (m\<lparr>budget := n\<rparr>)\<lparr>reservation := Stored (k, p)\<rparr>) = (a, m')"
  have "order_ok x m' j" if "hex_n 64 j" for j
  proof -
    have j: "order_ok x m j" using m that by (simp add: at_def run_ok_def executor_ok_def)
    have "j = k" if "journal m j = Stored s'" "es_phase s' \<in> holding_phases" for s'
      using j that m by (auto simp: order_ok_def at_def)
    with j m' show ?thesis by (auto simp: order_ok_def split: disk_file.splits)
  qed
  then show "at m0 k s m' \<and> reservation m' = Stored (k, p)"
    using m m' by (auto simp: at_def run_ok_def executor_ok_def directory_evolves_def once_ok_def submits_of_def)
qed (rule at_run_ok)

end


section \<open>Runs keep the invariants\<close>

lemma triple_given: "(\<And>m. P m \<Longrightarrow> b) \<Longrightarrow> (b \<Longrightarrow> triple I E P p Q) \<Longrightarrow> triple I E P p Q"
  by (auto simp: triple_def)

lemma requestFor_cong [simp]:
  "requestFor x (s\<lparr>es_phase := p\<rparr>) = requestFor x s" "requestFor x (s\<lparr>es_request := q\<rparr>) = requestFor x s"
  "requestFor x (s\<lparr>es_output := o'\<rparr>) = requestFor x s" "requestFor x (s\<lparr>es_outputHash := oh\<rparr>) = requestFor x s"
  "requestFor x (s\<lparr>es_ack := a\<rparr>) = requestFor x s"
  by (simp_all add: requestFor_def settlementOrder_def)

lemma sound_early: "es_phase s \<in> unpaid_phases \<union> {Paying} \<Longrightarrow> state_sound x s"
  by (auto simp: state_sound_def phase_sets)

context executor_interface
begin

abbreviation steps where
  "steps m0 P p Q \<equiv> triple (run_ok m0) (run_ok m0) P p Q"

lemma save_from:
  assumes "state_evolves s s'" "state_sound x s'" "es_phase s' \<in> unpaid_phases \<longrightarrow> es_phase s \<in> unpaid_phases"
    "es_phase s' \<in> paid_phases \<longrightarrow> es_phase s \<in> paid_phases" "es_phase s' \<in> holding_phases \<longrightarrow> es_phase s \<in> holding_phases"
  shows "steps m0 (at m0 k s) (persist k s') (\<lambda>_. at m0 k s')"
proof (rule triple_pre [OF save_step [OF assms(1,2)]])
  fix m assume "at m0 k s m"
  then show "at m0 k s m \<and> (es_phase s' \<in> unpaid_phases \<longrightarrow> ops m (pay_name k) = Absent) \<and>
       (es_phase s' \<in> paid_phases \<longrightarrow> ops m (pay_name k) \<noteq> Absent) \<and>
       (es_phase s' \<in> holding_phases \<longrightarrow> (\<exists>p. reservation m = Stored (k, p)))"
    using assms(3-5) at_facts(4-6) [of m0 k s m] by blast
qed

lemma throw_at: "steps m0 (at m0 k s) (throwP e) Q"
  by (rule triple_throw) (rule at_run_ok)

text \<open>The orders that are neither aborted nor being aborted.\<close>

lemma undo_approval:
  assumes "es_phase s \<notin> {Aborting, Aborted}"
  shows "steps m0 (at m0 k s) (if es_phase s = Approving
            then bindP (hasOperation D s ApproveOp) (\<lambda>b. if b then retP s
              else let s' = s\<lparr>es_phase := Prepared\<rparr> in bindP (persist k s') (\<lambda>_. bindP removeReservation (\<lambda>_. retP s')))
            else retP s)
     (\<lambda>s' m. (es_phase s' \<notin> {Aborting, Aborted} \<and> es_intentHash s' = es_intentHash s) \<and> at m0 k s' m)"
proof (cases "es_phase s = Approving")
  case True
  let ?s = "s\<lparr>es_phase := Prepared\<rparr>"
  have "steps m0 (at m0 k s) (bindP (persist k ?s) (\<lambda>_. bindP removeReservation (\<lambda>_. retP ?s)))
     (\<lambda>s' m. (es_phase s' \<notin> {Aborting, Aborted} \<and> es_intentHash s' = es_intentHash s) \<and> at m0 k s' m)"
    by (rule triple_bind [OF save_from], unfold state_evolves_def)
      (use True in \<open>auto simp: phase_sets intro!: sound_early triple_then [OF release_step] triple_ret\<close>)
  then show ?thesis
    using True by (auto simp: Let_def intro!: quiet_then quiet triple_if triple_ret)
qed (use assms in \<open>auto intro!: triple_ret\<close>)

lemma undo_payment:
  assumes "es_phase s \<notin> {Aborting, Aborted}"
  shows "steps m0 (at m0 k s) (if es_phase s = Paying
     then bindP (hasOperation D s PayOp) (\<lambda>b. if b then retP s
       else let s' = s\<lparr>es_phase := Approved\<rparr> in bindP (persist k s') (\<lambda>_. retP s'))
     else retP s)
     (\<lambda>s' m. (es_phase s' \<notin> {Aborting, Aborted} \<and> es_intentHash s' = es_intentHash s) \<and> at m0 k s' m)"
proof (cases "es_phase s = Paying")
  case True
  let ?s = "s\<lparr>es_phase := Approved\<rparr>"
  have save: "steps m0 (\<lambda>m. at m0 k s m \<and> (b = (ops m (pay_name k) \<noteq> Absent))) (if b then retP s
       else let s' = ?s in bindP (persist k s') (\<lambda>_. retP s'))
     (\<lambda>s' m. (es_phase s' \<notin> {Aborting, Aborted} \<and> es_intentHash s' = es_intentHash s) \<and> at m0 k s' m)" for b
  proof (cases b)
    case False
    then show ?thesis
      unfolding Let_def
      by (simp, intro triple_bind [OF triple_pre [OF save_step [of s ?s]]] triple_ret)
        (use True at_facts(6) in \<open>auto simp: state_evolves_def phase_sets intro!: sound_early\<close>)
  qed (use True in \<open>auto intro: triple_ret\<close>)
  show ?thesis
    unfolding if_P [OF True]
    by (rule quiet_then_know [OF quiet(4) _ save]) (use has_operation at_facts(3) in metis)
qed (use assms in \<open>auto intro!: triple_ret\<close>)

lemma undo_step:
  assumes "es_phase s \<notin> {Aborting, Aborted}"
  shows "steps m0 (at m0 k s) (undo_unsubmitted D k s)
     (\<lambda>s' m. (es_phase s' \<notin> {Aborting, Aborted} \<and> es_intentHash s' = es_intentHash s) \<and> at m0 k s' m)"
  unfolding undo_unsubmitted_def
  by (rule triple_bind [OF undo_approval [OF assms]], rule triple_pure)
    (rule triple_post [OF undo_payment], auto)

lemma approve_step:
  assumes "es_phase s = Prepared"
  shows "steps m0 (at m0 k s) (approve_order D k s)
     (\<lambda>s' m. (es_phase s' = Approved \<and> es_intentHash s' = es_intentHash s) \<and> at m0 k s' m)"
proof -
  let ?a = "s\<lparr>es_phase := Approving\<rparr>"
  let ?h = "\<lambda>e. bindP (hasOperation D ?a ApproveOp) (\<lambda>b. if b then throwP e
      else bindP (persist k (?a\<lparr>es_phase := Prepared\<rparr>)) (\<lambda>_. bindP removeReservation (\<lambda>_. throwP e)))"
  have undo_it: "steps m0 (at m0 k ?a) (bindP (persist k (?a\<lparr>es_phase := Prepared\<rparr>)) (\<lambda>_. bindP removeReservation (\<lambda>_. throwP e)))
      (\<lambda>_. at m0 k ?a)" for e :: js_error
    by (rule triple_bind [OF save_from], unfold state_evolves_def)
      (auto simp: phase_sets intro!: sound_early triple_then [OF release_step] throw_at)
  have "steps m0 (at m0 k ?a) (catchP (approve D ?a) ?h) (\<lambda>_. at m0 k ?a)"
    by (rule triple_catch [OF quiet_keep [OF quiet(10)]]) (auto intro!: quiet_then quiet triple_if throw_at undo_it)
  then have tail: "steps m0 (at m0 k ?a) (bindP (catchP (approve D ?a) ?h) (\<lambda>_.
      let s'' = ?a\<lparr>es_phase := Approved\<rparr> in bindP (persist k s'') (\<lambda>_. retP s'')))
     (\<lambda>s' m. (es_phase s' = Approved \<and> es_intentHash s' = es_intentHash s) \<and> at m0 k s' m)"
    unfolding Let_def
    by (rule triple_bind) (rule triple_bind [OF save_from], unfold state_evolves_def,
        auto simp: phase_sets intro!: sound_early triple_ret)
  have save: "steps m0 (\<lambda>m. at m0 k s m \<and> reservation m = Stored (k, p)) (persist k ?a) (\<lambda>_. at m0 k ?a)" for p
    by (rule triple_pre [OF save_step]) (use assms at_facts(4) in \<open>auto simp: state_evolves_def phase_sets intro!: sound_early\<close>)
  show ?thesis
  proof (rule triple_given [of _ "ei_orderId (es_intent s) = k"])
    assume k: "ei_orderId (es_intent s) = k"
    show ?thesis
      unfolding approve_order_def Let_def k
      by (rule quiet_then [OF quiet(1)], rule triple_bind [OF reserve_step], rule triple_bind [OF save])
        (rule tail [unfolded Let_def])
  qed (rule at_facts(1))
qed

lemma mark_step:
  assumes "es_phase s0 = Paying" "s = s0\<lparr>es_payment := Some h\<rparr>"
  shows "steps m0 (\<lambda>m. at m0 k s0 m \<and> ops m (pay_name k) \<noteq> Absent) (mark_paid x k s)
     (\<lambda>s' m. (es_phase s' = Paid \<and> es_intentHash s' = es_intentHash s0) \<and> at m0 k s' m)"
  unfolding mark_paid_def Let_def
proof (rule triple_lift_then)
  fix r assume r: "requestFor x s = Inr r"
  let ?s = "s\<lparr>es_request := Some r, es_phase := Paid\<rparr>"
  have "steps m0 (\<lambda>m. at m0 k s0 m \<and> ops m (pay_name k) \<noteq> Absent) (persist k ?s) (\<lambda>_. at m0 k ?s)"
    by (rule triple_pre [OF save_step])
      (use assms r in \<open>auto simp: state_evolves_def state_sound_def phase_sets\<close>)
  then show "steps m0 (\<lambda>m. at m0 k s0 m \<and> ops m (pay_name k) \<noteq> Absent) (bindP (persist k ?s) (\<lambda>_. retP ?s))
     (\<lambda>s' m. (es_phase s' = Paid \<and> es_intentHash s' = es_intentHash s0) \<and> at m0 k s' m)"
    by (rule triple_bind) (use assms in \<open>auto intro: triple_ret\<close>)
qed (auto dest: at_run_ok)

lemma pay_order_step:
  assumes "es_phase s = Approved"
  shows "steps m0 (at m0 k s) (pay_order x D k i s)
     (\<lambda>s' m. (es_phase s' = Paid \<and> es_intentHash s' = es_intentHash s) \<and> at m0 k s' m)"
proof -
  let ?p = "s\<lparr>es_phase := Paying\<rparr>"
  have save: "steps m0 (at m0 k s) (persist k ?p) (\<lambda>_. at m0 k ?p)"
    by (rule save_from) (use assms in \<open>auto simp: state_evolves_def phase_sets intro!: sound_early\<close>)
  have revert: "steps m0 (\<lambda>m. at m0 k ?p m \<and> (b = (ops m (pay_name k) \<noteq> Absent)))
      (if b then throwP e else bindP (persist k (?p\<lparr>es_phase := Approved\<rparr>)) (\<lambda>_. throwP e))
      (\<lambda>h m. at m0 k ?p m \<and> ops m (pay_name k) \<noteq> Absent)" for b and e :: js_error
  proof (cases b)
    case False
    show ?thesis
      unfolding if_not_P [OF False]
      by (rule triple_bind [OF triple_pre [OF save_step [of ?p "?p\<lparr>es_phase := Approved\<rparr>"]]])
        (use False at_facts(6) in \<open>auto simp: state_evolves_def phase_sets intro!: sound_early throw_at\<close>)
  qed (auto intro!: triple_throw dest: at_run_ok)
  have caught: "steps m0 (at m0 k ?p) (catchP (pay D ?p) (\<lambda>e. bindP (hasOperation D ?p PayOp) (\<lambda>b.
      if b then throwP e else bindP (persist k (?p\<lparr>es_phase := Approved\<rparr>)) (\<lambda>_. throwP e))))
      (\<lambda>h m. at m0 k ?p m \<and> ops m (pay_name k) \<noteq> Absent)"
    by (rule triple_catch [OF pay_step], simp, rule quiet_then_know [OF quiet(4) _ revert])
      (use has_operation at_facts(3) in metis)
  show ?thesis
    unfolding pay_order_def Let_def
    by (intro quiet_then quiet triple_bind [OF save] triple_bind [OF caught] triple_post [OF mark_step]) simp_all
qed

lemma settle_step:
  assumes "es_phase s \<notin> {Aborting, Aborted}"
  shows "steps m0 (at m0 k s) (settle_unpaid x D k i s)
     (\<lambda>s' m. (es_phase s' \<in> paid_phases \<and> es_intentHash s' = es_intentHash s) \<and> at m0 k s' m)"
proof -
  let ?Q = "\<lambda>s' m. (es_phase s' \<in> paid_phases \<and> es_intentHash s' = es_intentHash s) \<and> at m0 k s' m"
  have approved: "steps m0 (at m0 k s) (if es_phase s = Approving
        then bindP (recover D s ApproveOp) (\<lambda>_. let s' = s\<lparr>es_phase := Approved\<rparr> in bindP (persist k s') (\<lambda>_. retP s'))
        else if es_phase s = Prepared then approve_order D k s else retP s)
     (\<lambda>s' m. (es_phase s' = Approved \<and> es_intentHash s' = es_intentHash s) \<and> at m0 k s' m)"
    if "es_phase s \<in> {Prepared, Approving, Approved}"
  proof (cases "es_phase s = Approving")
    case True
    have "steps m0 (at m0 k s) (bindP (persist k (s\<lparr>es_phase := Approved\<rparr>)) (\<lambda>_. retP (s\<lparr>es_phase := Approved\<rparr>)))
     (\<lambda>s' m. (es_phase s' = Approved \<and> es_intentHash s' = es_intentHash s) \<and> at m0 k s' m)"
      by (rule triple_bind [OF save_from])
        (use True in \<open>auto simp: state_evolves_def phase_sets intro!: sound_early triple_ret\<close>)
    then show ?thesis using True by (auto simp: Let_def intro!: quiet_then quiet)
  next
    case False
    then show ?thesis using that by (auto intro!: triple_post [OF approve_step] triple_ret)
  qed
  have pay: "steps m0 (\<lambda>m. (es_phase s' = Approved \<and> es_intentHash s' = es_intentHash s) \<and> at m0 k s' m) (pay_order x D k i s') ?Q" for s'
    by (rule triple_pure, rule triple_post [OF pay_order_step]) (auto simp: phase_sets)
  have made: "at m0 k s m \<Longrightarrow> recover D s PayOp m = (Ret h, m') \<Longrightarrow> ops m' (pay_name k) \<noteq> Absent" for m h m'
    using recover_made [of s m h m'] at_facts(3) [of m0 k s m PayOp] by simp
  have mark: "steps m0 (\<lambda>m. at m0 k s m \<and> ops m (pay_name k) \<noteq> Absent) (mark_paid x k (s\<lparr>es_payment := Some h\<rparr>)) ?Q"
    if "es_phase s = Paying" for h
    by (rule triple_post [OF mark_step [OF that refl]]) (auto simp: phase_sets)
  have paying: "steps m0 (at m0 k s) (bindP (recover D s PayOp) (\<lambda>h. mark_paid x k (s\<lparr>es_payment := Some h\<rparr>))) ?Q"
    if "es_phase s = Paying"
    by (rule quiet_then_know [OF quiet(11) _ mark]) (use that made in auto)
  have rest: "steps m0 (at m0 k s) (retP s) ?Q" if "es_phase s \<notin> {Prepared, Approving, Approved, Paying}"
  proof (rule triple_ret)
    fix m assume "at m0 k s m"
    then have "state_sound x s" by (rule at_facts(2))
    then have "es_phase s \<in> paid_phases" using that assms by (cases "es_phase s") (auto simp: state_sound_def paid_phases_def)
    then show "(es_phase s \<in> paid_phases \<and> es_intentHash s = es_intentHash s) \<and> at m0 k s m" using \<open>at m0 k s m\<close> by simp
  qed
  show ?thesis
    unfolding settle_unpaid_def
  proof (rule triple_if)
    assume ph: "es_phase s \<in> {Prepared, Approving, Approved}"
    show "steps m0 (at m0 k s) (bindP (preflight D i (Some (es_versions s))) (\<lambda>v.
           bindP (liftP (same_versions x v (es_versions s))) (\<lambda>same.
           bindP (needP same (Err ''Stored policy versions are immutable.'')) (\<lambda>_.
           bindP (if es_phase s = Approving
                  then bindP (recover D s ApproveOp) (\<lambda>_.
                    let s' = s\<lparr>es_phase := Approved\<rparr> in bindP (persist k s') (\<lambda>_. retP s'))
                  else if es_phase s = Prepared then approve_order D k s else retP s) (\<lambda>s.
           pay_order x D k i s))))) ?Q"
      by (rule quiet_then [OF quiet(9)], rule triple_lift_then, erule at_run_ok, rule triple_need_then, erule at_run_ok,
          rule triple_bind [OF approved [OF ph]], rule pay)
  qed (use paying rest in \<open>auto split del: if_split intro: triple_if\<close>)
qed

text \<open>An order that is aborted has no payment at Circle, before and after.\<close>

lemma abort_step:
  "steps m0 (at m0 k s) (abort_order D k s) (\<lambda>s' m. es_phase s' = Aborted \<and> at m0 k s' m)"
proof -
  let ?Q = "\<lambda>s' m. es_phase s' = Aborted \<and> at m0 k s' m"
  have enter: "steps m0 (at m0 k s) (if es_phase s \<noteq> Aborting
            then bindP (prepareAbort D s) (\<lambda>r.
              let s' = s\<lparr>es_revoke := r, es_phase := Aborting\<rparr> in bindP (persist k s') (\<lambda>_. retP s'))
            else retP s) (\<lambda>s' m. es_phase s' = Aborting \<and> at m0 k s' m)"
    if ph: "es_phase s \<in> {Prepared, Approving, Approved, Paying, Aborting}"
  proof (cases "es_phase s = Aborting")
    case False
    have save: "steps m0 (\<lambda>m. at m0 k s m \<and> ops m (pay_name k) = Absent) (persist k (s\<lparr>es_revoke := r, es_phase := Aborting\<rparr>))
        (\<lambda>_. at m0 k (s\<lparr>es_revoke := r, es_phase := Aborting\<rparr>))" for r
      by (rule triple_pre [OF save_step])
        (use ph False in \<open>auto simp: state_evolves_def phase_sets intro!: sound_early\<close>)
    have "steps m0 (at m0 k s) (bindP (prepareAbort D s) (\<lambda>r.
        let s' = s\<lparr>es_revoke := r, es_phase := Aborting\<rparr> in bindP (persist k s') (\<lambda>_. retP s')))
        (\<lambda>s' m. es_phase s' = Aborting \<and> at m0 k s' m)"
      unfolding Let_def
    proof (rule quiet_then_know [OF quiet(5) _ triple_bind [OF save]])
      show "ops m' (pay_name k) = Absent" if "at m0 k s m" "prepareAbort D s m = (Ret r, m')" for m r m'
        using abort_prepared [OF that(2)] at_facts(3) [OF that(1)] by metis
    qed (auto intro: triple_ret)
    then show ?thesis using False by simp
  qed (auto intro: triple_ret)
  have close: "steps m0 (at m0 k s0) (bindP (verifyAborted D s1) (\<lambda>_. let s' = s1\<lparr>es_phase := Aborted\<rparr> in
      bindP (persist k s') (\<lambda>_. bindP removeReservation (\<lambda>_. retP s')))) ?Q"
    if "es_phase s0 = Aborting" "s1 = s0 \<or> (\<exists>h. s1 = s0\<lparr>es_abortHash := h\<rparr>)" for s0 s1
  proof -
    have save: "steps m0 (at m0 k s0) (persist k (s1\<lparr>es_phase := Aborted\<rparr>)) (\<lambda>_. at m0 k (s1\<lparr>es_phase := Aborted\<rparr>))"
      by (rule save_from) (use that in \<open>auto simp: state_evolves_def phase_sets intro!: sound_early\<close>)
    show ?thesis
      unfolding Let_def
      by (rule quiet_then [OF quiet(7)], rule triple_bind [OF save], rule triple_then [OF release_step])
        (auto intro!: triple_ret simp: phase_sets)
  qed
  have revoke: "steps m0 (at m0 k s0) (bindP (if es_revoke s0
            then bindP (hasOperation D s0 AbortOp) (\<lambda>b.
                 bindP (if b then recover D s0 AbortOp else abort D s0) (\<lambda>h. retP (s0\<lparr>es_abortHash := Some h\<rparr>)))
            else retP s0) (\<lambda>s. bindP (verifyAborted D s) (\<lambda>_. let s' = s\<lparr>es_phase := Aborted\<rparr> in
      bindP (persist k s') (\<lambda>_. bindP removeReservation (\<lambda>_. retP s'))))) ?Q"
    if "es_phase s0 = Aborting" for s0
  proof (rule triple_bind [where R = "\<lambda>s1 m. (s1 = s0 \<or> (\<exists>h. s1 = s0\<lparr>es_abortHash := h\<rparr>)) \<and> at m0 k s0 m"])
    have q: "within quiet_frame (if b then recover D s0 AbortOp else abort D s0)" for b by (simp add: quiet)
    show "steps m0 (at m0 k s0) (if es_revoke s0
            then bindP (hasOperation D s0 AbortOp) (\<lambda>b.
                 bindP (if b then recover D s0 AbortOp else abort D s0) (\<lambda>h. retP (s0\<lparr>es_abortHash := Some h\<rparr>)))
            else retP s0) (\<lambda>s1 m. (s1 = s0 \<or> (\<exists>h. s1 = s0\<lparr>es_abortHash := h\<rparr>)) \<and> at m0 k s0 m)"
      by (intro triple_if quiet_then quiet q triple_ret) auto
    fix s1
    show "steps m0 (\<lambda>m. (s1 = s0 \<or> (\<exists>h. s1 = s0\<lparr>es_abortHash := h\<rparr>)) \<and> at m0 k s0 m) (bindP (verifyAborted D s1) (\<lambda>_.
      let s' = s1\<lparr>es_phase := Aborted\<rparr> in bindP (persist k s') (\<lambda>_. bindP removeReservation (\<lambda>_. retP s')))) ?Q"
      by (rule triple_pure, rule close [OF that])
  qed
  show ?thesis
    unfolding abort_order_def
    by (rule triple_need_then, erule at_run_ok, rule triple_bind [OF enter], assumption, rule triple_pure, rule revoke)
qed

lemma ack_step:
  assumes "es_phase s \<in> delivered_phases"
  shows "steps m0 (at m0 k s) (acknowledge_order D k s)
     (\<lambda>s' m. (es_phase s' = Completed \<and> es_request s' = es_request s) \<and> at m0 k s' m)"
proof -
  let ?Q = "\<lambda>s' m. (es_phase s' = Completed \<and> es_request s' = es_request s) \<and> at m0 k s' m"
  have fin: "steps m0 (at m0 k s0) (let s' = s1\<lparr>es_phase := Completed\<rparr> in bindP (persist k s') (\<lambda>_. retP s')) ?Q"
    if s0: "es_phase s0 \<in> {Delivered, Acknowledging}" "es_request s0 = es_request s" "s1 = s0 \<or> (\<exists>h. s1 = s0\<lparr>es_ack := h\<rparr>)" for s0 s1
  proof (rule triple_given)
    show "at m0 k s0 m \<Longrightarrow> state_sound x s0" for m by (rule at_facts(2))
    assume "state_sound x s0"
    then have "state_sound x (s1\<lparr>es_phase := Completed\<rparr>)"
      using s0 by (elim disjE exE) (auto simp: state_sound_def phase_sets)
    then show "steps m0 (at m0 k s0) (let s' = s1\<lparr>es_phase := Completed\<rparr> in bindP (persist k s') (\<lambda>_. retP s')) ?Q"
      unfolding Let_def
      by (intro triple_bind [OF save_from] triple_ret) (use s0 in \<open>auto simp: state_evolves_def phase_sets\<close>)
  qed
  have late: "steps m0 (at m0 k s) (bindP (recover D s AckOp) (\<lambda>h. let s' = s\<lparr>es_ack := Some h\<rparr> in
      bindP (verifyDelivery D s') (\<lambda>b. bindP (needP b e) (\<lambda>_.
        let s' = s'\<lparr>es_phase := Completed\<rparr> in bindP (persist k s') (\<lambda>_. retP s'))))) ?Q"
    if "es_phase s = Acknowledging" for e
    unfolding Let_def
    by (rule quiet_then [OF quiet(11)], rule quiet_then [OF quiet(14)], rule triple_need_then, erule at_run_ok,
        rule fin [unfolded Let_def]) (use that in auto)
  have first: "steps m0 (at m0 k s) (let s' = s\<lparr>es_phase := Acknowledging\<rparr> in
      bindP (persist k s') (\<lambda>_. bindP (acknowledge D s') (\<lambda>h.
        let s' = s'\<lparr>es_ack := Some h, es_phase := Completed\<rparr> in bindP (persist k s') (\<lambda>_. retP s')))) ?Q"
    if "es_phase s = Delivered"
  proof (rule triple_given)
    show "at m0 k s m \<Longrightarrow> state_sound x s" for m by (rule at_facts(2))
    assume "state_sound x s"
    then have "state_sound x (s\<lparr>es_phase := Acknowledging\<rparr>)" using that by (auto simp: state_sound_def phase_sets)
    then have save: "steps m0 (at m0 k s) (persist k (s\<lparr>es_phase := Acknowledging\<rparr>)) (\<lambda>_. at m0 k (s\<lparr>es_phase := Acknowledging\<rparr>))"
      by (intro save_from) (use that in \<open>auto simp: state_evolves_def phase_sets\<close>)
    show "steps m0 (at m0 k s) (let s' = s\<lparr>es_phase := Acknowledging\<rparr> in
      bindP (persist k s') (\<lambda>_. bindP (acknowledge D s') (\<lambda>h.
        let s' = s'\<lparr>es_ack := Some h, es_phase := Completed\<rparr> in bindP (persist k s') (\<lambda>_. retP s')))) ?Q"
      unfolding Let_def
      by (rule triple_bind [OF save], rule quiet_then [OF quiet(15)], rule fin [unfolded Let_def]) auto
  qed
  show ?thesis
    unfolding acknowledge_order_def Let_def
  proof (rule quiet_then [OF quiet(14)], intro triple_if)
    fix acked e
    show "steps m0 (at m0 k s) (bindP (needP acked e) (\<lambda>_. retP s)) ?Q" if "es_phase s = Completed"
      by (rule triple_need_then, erule at_run_ok, rule triple_ret) (simp add: that)
    show "steps m0 (at m0 k s) (bindP (persist k (s\<lparr>es_phase := Completed\<rparr>)) (\<lambda>_. retP (s\<lparr>es_phase := Completed\<rparr>))) ?Q"
      if "es_phase s \<noteq> Completed" "es_phase s \<noteq> Acknowledging"
      using fin [unfolded Let_def, of s s] that assms by (auto simp: delivered_phases_def)
  next
    assume "es_phase s \<noteq> Completed" "es_phase s \<noteq> Acknowledging"
    then have "es_phase s = Delivered" using assms by (auto simp: delivered_phases_def)
    from first [OF this, unfolded Let_def]
    show "steps m0 (at m0 k s) (bindP (persist k (s\<lparr>es_phase := Acknowledging\<rparr>)) (\<lambda>_.
        bindP (acknowledge D (s\<lparr>es_phase := Acknowledging\<rparr>)) (\<lambda>h.
        bindP (persist k (s\<lparr>es_phase := Acknowledging, es_ack := Some h, es_phase := Completed\<rparr>)) (\<lambda>_.
          retP (s\<lparr>es_phase := Acknowledging, es_ack := Some h, es_phase := Completed\<rparr>))))) ?Q" .
  next
    assume "es_phase s = Acknowledging"
    from late [OF this, unfolded Let_def]
    show "steps m0 (at m0 k s) (bindP (recover D s AckOp) (\<lambda>h. bindP (verifyDelivery D (s\<lparr>es_ack := Some h\<rparr>)) (\<lambda>b.
        bindP (needP b (Err ''Acknowledgment not finalized.'')) (\<lambda>_.
        bindP (persist k (s\<lparr>es_ack := Some h, es_phase := Completed\<rparr>)) (\<lambda>_.
          retP (s\<lparr>es_ack := Some h, es_phase := Completed\<rparr>)))))) ?Q" .
  qed
qed

lemma deliver_step:
  assumes "es_phase s \<in> paid_phases" "canonicalJsonHash x (executor_input_json i) = Inr (es_intentHash s)"
  shows "steps m0 (at m0 k s) (if es_phase s = Paid
      then bindP (deliver D r) (\<lambda>d. bindP (liftP (accept_delivery x i s d)) (\<lambda>s'. bindP (persist k s') (\<lambda>_. retP s')))
      else retP s)
    (\<lambda>s' m. (es_phase s' \<in> delivered_phases \<and> es_request s' = es_request s) \<and> at m0 k s' m)"
proof (cases "es_phase s = Paid")
  case True
  have save: "steps m0 (at m0 k s) (bindP (persist k s') (\<lambda>_. retP s'))
      (\<lambda>s' m. (es_phase s' \<in> delivered_phases \<and> es_request s' = es_request s) \<and> at m0 k s' m)"
    if acc: "accept_delivery x i s d = Inr s'" for d s'
  proof (rule triple_given)
    show "at m0 k s m \<Longrightarrow> state_sound x s" for m by (rule at_facts(2))
    assume sound: "state_sound x s"
    obtain out h where s': "s' = s\<lparr>es_output := Some out, es_outputHash := Some h, es_phase := Delivered\<rparr>"
        "canonicalJsonHash x out = Inr h" "validateSchemaValue out (st_output (ei_definition i)) (128 * 1024) = Inr ()"
      using acc by (auto simp: accept_delivery_def bindR_eq_Inr hash_opt_def)
    have "state_sound x s'" using sound True assms(2) s'(2,3) by (auto simp: state_sound_def phase_sets s'(1))
    then show "steps m0 (at m0 k s) (bindP (persist k s') (\<lambda>_. retP s'))
        (\<lambda>s' m. (es_phase s' \<in> delivered_phases \<and> es_request s' = es_request s) \<and> at m0 k s' m)"
      by (intro triple_bind [OF save_from] triple_ret) (use True in \<open>auto simp: s'(1) state_evolves_def phase_sets\<close>)
  qed
  show ?thesis
    unfolding if_P [OF True]
    by (rule quiet_then [OF quiet(13)], rule triple_lift_then, erule at_run_ok, rule save)
qed (use assms in \<open>auto intro!: triple_ret simp: phase_sets\<close>)

text \<open>A run that returns.\<close>

definition closed :: "executor_state \<Rightarrow> bool" where
  "closed s \<longleftrightarrow> state_sound x s \<and>
     (es_phase s = Aborted \<or> es_phase s = Completed \<and> (\<exists>r. es_request s = Some r \<and> settled r))"

lemma finish_step:
  assumes "es_phase s \<in> paid_phases" "canonicalJsonHash x (executor_input_json i) = Inr (es_intentHash s)"
  shows "steps m0 (at m0 k s) (finish_order x D k i reserved s) (\<lambda>s' m. closed s' \<and> at m0 k s' m)"
proof -
  have ack: "steps m0 (\<lambda>m. (es_phase s' \<in> delivered_phases \<and> es_request s' = es_request s) \<and> at m0 k s' m)
      (bindP (liftP (hash_opt x (es_output s'))) (\<lambda>h. bindP (needP (es_outputHash s' = Some h) e) (\<lambda>_. acknowledge_order D k s')))
      (\<lambda>s' m. closed s' \<and> at m0 k s' m)" if "es_request s = Some r" "settled r" for s' r e
    by (rule triple_pure, rule triple_lift_then, erule at_run_ok, rule triple_need_then, erule at_run_ok,
        rule triple_post [OF ack_step]) (use that at_facts(2) in \<open>auto simp: closed_def\<close>)
  have release: "steps m0 (at m0 k s) (if b then removeReservation else retP ()) (\<lambda>_. at m0 k s)" for b
    by (intro triple_if release_step triple_ret) (use assms in \<open>auto simp: phase_sets\<close>)
  have rest: "steps m0 (\<lambda>m. at m0 k s m \<and> settled r) (bindP (if b then removeReservation else retP ()) (\<lambda>_.
     bindP (if es_phase s = Paid
            then bindP (deliver D r) (\<lambda>d. bindP (liftP (accept_delivery x i s d)) (\<lambda>s'. bindP (persist k s') (\<lambda>_. retP s')))
            else retP s) (\<lambda>s.
     bindP (liftP (hash_opt x (es_output s))) (\<lambda>h.
     bindP (needP (es_outputHash s = Some h) e) (\<lambda>_. acknowledge_order D k s)))))
     (\<lambda>s' m. closed s' \<and> at m0 k s' m)" if r: "es_request s = Some r" for r b e
    by (rule triple_given [of _ "settled r"], simp, rule triple_pre [of _ _ "at m0 k s"],
        rule triple_bind [OF release], rule triple_bind [OF deliver_step [OF assms]], rule ack [OF r]) simp_all
  have request: "es_request s = Some r" if "check_request x s = Inr r" for r
    using that by (auto simp: check_request_def Let_def bindR_eq_Inr)
  show ?thesis
    unfolding finish_order_def
    by (rule triple_lift_then, erule at_run_ok, rule quiet_then_know [OF quiet(12) _ rest])
      (use payment_verified request in blast)+
qed

lemma stable_run_ok: "stable (run_ok m0)"
  by (simp add: stable_def run_ok_def executor_ok_def order_ok_def once_ok_def submits_of_def directory_evolves_def
      cong: disk_file.case_cong)

text \<open>The directory as a run finds it, before it has the order.\<close>

definition found :: "(executor_state, 'c) machine \<Rightarrow> string \<Rightarrow> executor_state option \<Rightarrow> (executor_state, 'c) machine \<Rightarrow> bool" where
  "found m0 k stored m \<longleftrightarrow> run_ok m0 m \<and> (case stored of None \<Rightarrow> journal m k = Absent | Some s \<Rightarrow> journal m k = Stored s)"

definition free :: "string \<Rightarrow> (executor_state, 'c) machine \<Rightarrow> bool" where
  "free k m \<longleftrightarrow> reservation m = Absent \<or> (\<exists>p. reservation m = Stored (k, p))"

lemma quiet_found: "found m0 k stored m \<Longrightarrow> quiet_frame m m' \<Longrightarrow> found m0 k stored m'"
  using quiet_run_ok [of m0 m m'] by (cases stored) (simp_all add: found_def quiet_frame_def op_frame_def)

lemma quiet_free: "free k m \<Longrightarrow> quiet_frame m m' \<Longrightarrow> free k m'"
  by (simp add: free_def quiet_frame_def op_frame_def)

lemma found_run_ok: "found m0 k stored m \<Longrightarrow> run_ok m0 m"
  by (simp add: found_def)

lemma stable_found: "stable (found m0 k stored)"
  using stable_run_ok [of m0] by (cases stored) (simp_all add: stable_def found_def)

lemma read_reservation_step:
  "steps m0 (found m0 k stored) (readReservation e)
     (\<lambda>r m. found m0 k stored m \<and> (case r of None \<Rightarrow> reservation m = Absent | Some p \<Rightarrow> reservation m = Stored p))"
  unfolding readReservation_def
  by (rule triple_bind [where R = "\<lambda>f m. found m0 k stored m \<and> reservation m = f"], rule triple_effect)
    (auto simp: stableD [OF stable_found] found_run_ok file_opt_def intro!: triple_lift split: disk_file.splits)

lemma fresh_step:
  assumes "hex_n 64 k" "ei_orderId i = k"
  shows "steps m0 (\<lambda>m. found m0 k None m \<and> free k m) (persist k (fresh_state i h v)) (\<lambda>_. at m0 k (fresh_state i h v))"
  unfolding persist_def
proof (rule triple_saveJournal)
  fix m n assume m: "found m0 k None m \<and> free k m"
  let ?s = "fresh_state i h v"
  let ?m = "m\<lparr>budget := n, journal := (journal m)(k := Stored ?s)\<rparr>"
  have j: "order_ok x m j" if "hex_n 64 j" for j using m that by (simp add: found_def run_ok_def executor_ok_def)
  have "order_ok x ?m j" if "hex_n 64 j" for j
  proof (cases "j = k")
    case True
    then show ?thesis
      using j [OF assms(1)] m assms(2)
      by (auto simp: order_ok_def found_def fresh_state_def phase_sets intro!: sound_early)
  next
    case False
    then show ?thesis using j [OF that] by (simp add: order_ok_def split: disk_file.splits)
  qed
  moreover have "directory_evolves m0 ?m"
  proof -
    have "directory_evolves m0 m" "journal m k = Absent" using m by (simp_all add: found_def run_ok_def)
    then show ?thesis by (auto simp: directory_evolves_def)
  qed
  moreover have "once_ok ?m" using m by (simp add: found_def run_ok_def executor_ok_def once_ok_def submits_of_def)
  ultimately show "at m0 k ?s ?m" using m assms(1) by (simp add: at_def run_ok_def executor_ok_def free_def)
qed (simp add: found_def)

lemma check_stored_hash: "check_stored x h (Some s) = Inr u \<Longrightarrow> es_intentHash s = h"
  by (auto simp: check_stored_def bindR_eq_Inr split: if_splits)

lemma run_tail:
  assumes "canonicalJsonHash x (executor_input_json i) = Inr (es_intentHash s)"
  shows "steps m0 (at m0 k s)
    (if es_phase s = Aborted then bindP (verifyAborted D s) (\<lambda>_. bindP removeReservation (\<lambda>_. retP s))
     else if b \<or> es_phase s = Aborting then abort_order D k s
     else bindP (undo_unsubmitted D k s) (\<lambda>s. bindP (settle_unpaid x D k i s) (\<lambda>s. finish_order x D k i reserved s)))
    (\<lambda>s m. closed s \<and> run_ok m0 m)"
proof (intro triple_if)
  assume "es_phase s = Aborted"
  then show "steps m0 (at m0 k s) (bindP (verifyAborted D s) (\<lambda>_. bindP removeReservation (\<lambda>_. retP s)))
      (\<lambda>s m. closed s \<and> run_ok m0 m)"
    by (intro quiet_then [OF quiet(7)] triple_then [OF release_step] triple_ret)
      (auto simp: phase_sets closed_def at_run_ok at_facts(2))
next
  show "steps m0 (at m0 k s) (abort_order D k s) (\<lambda>s m. closed s \<and> run_ok m0 m)"
    by (rule triple_post [OF abort_step]) (auto simp: closed_def at_run_ok at_facts(2))
next
  assume "es_phase s \<noteq> Aborted" "\<not> (b \<or> es_phase s = Aborting)"
  then have ph: "es_phase s \<notin> {Aborting, Aborted}" by simp
  have fin: "steps m0 (\<lambda>m. (es_phase s2 \<in> paid_phases \<and> es_intentHash s2 = es_intentHash s1) \<and> at m0 k s2 m)
      (finish_order x D k i reserved s2) (\<lambda>s m. closed s \<and> run_ok m0 m)" if "es_intentHash s1 = es_intentHash s" for s1 s2
    by (rule triple_pure, rule triple_post [OF finish_step]) (use assms that in \<open>auto simp: at_run_ok\<close>)
  have settle: "steps m0 (\<lambda>m. (es_phase s1 \<notin> {Aborting, Aborted} \<and> es_intentHash s1 = es_intentHash s) \<and> at m0 k s1 m)
      (bindP (settle_unpaid x D k i s1) (\<lambda>s. finish_order x D k i reserved s)) (\<lambda>s m. closed s \<and> run_ok m0 m)" for s1
  proof (rule triple_pure)
    assume "es_phase s1 \<notin> {Aborting, Aborted} \<and> es_intentHash s1 = es_intentHash s"
    then show "steps m0 (at m0 k s1) (bindP (settle_unpaid x D k i s1) (\<lambda>s. finish_order x D k i reserved s)) (\<lambda>s m. closed s \<and> run_ok m0 m)"
      by (intro triple_bind [OF settle_step] fin) simp_all
  qed
  show "steps m0 (at m0 k s) (bindP (undo_unsubmitted D k s) (\<lambda>s. bindP (settle_unpaid x D k i s) (\<lambda>s.
      finish_order x D k i reserved s))) (\<lambda>s m. closed s \<and> run_ok m0 m)"
    by (rule triple_bind [OF undo_step [OF ph] settle])
qed

lemma own_reservation:
  assumes "case r of None \<Rightarrow> True | Some (other, _) \<Rightarrow> other = k"
    "case r of None \<Rightarrow> reservation m = Absent | Some p \<Rightarrow> reservation m = Stored p"
  shows "free k m"
  using assms by (auto simp: free_def split: option.splits prod.splits)

lemma load_step:
  assumes "hex_n 64 (ei_orderId i)" "ei_orderId i = k" "check_stored x h stored = Inr u"
  shows "steps m0 (\<lambda>m. found m0 k stored m \<and> free k m)
    (case stored of Some s \<Rightarrow> retP s
     | None \<Rightarrow> bindP (preflight D i None) (\<lambda>v. let s = fresh_state i h v in bindP (persist k s) (\<lambda>_. retP s)))
    (\<lambda>s m. es_intentHash s = h \<and> at m0 k s m)"
proof (cases stored)
  case None
  have q: "steps m0 (\<lambda>m. found m0 k None m \<and> free k m) (preflight D i None) (\<lambda>_ m. found m0 k None m \<and> free k m)"
    by (rule quiet_from [OF quiet(9)]) (auto intro: quiet_found quiet_free dest: found_run_ok)
  have k: "hex_n 64 k" using assms(1,2) by simp
  show ?thesis
    unfolding None option.case Let_def
    by (rule triple_bind [OF q], rule triple_bind [OF fresh_step [OF k assms(2)]], rule triple_ret) (simp add: fresh_state_def)
next
  case (Some s)
  then show ?thesis
    using check_stored_hash [of h s u] assms
    by (auto intro!: triple_ret simp: at_def found_def free_def)
qed

lemma run_order_step:
  assumes hex: "hex_n 64 (ei_orderId i)"
  shows "steps m0 (run_ok m0) (run_order x D i b) (\<lambda>s m. closed s \<and> run_ok m0 m)"
  unfolding run_order_def Let_def
proof (rule triple_lift_then, assumption)
  fix h assume h: "canonicalJsonHash x (executor_input_json i) = Inr h"
  let ?k = "ei_orderId i"
  let ?load = "\<lambda>stored. case stored of Some s \<Rightarrow> retP s
     | None \<Rightarrow> bindP (preflight D i None) (\<lambda>v. bindP (persist ?k (fresh_state i h v)) (\<lambda>_. retP (fresh_state i h v)))"
  let ?tail = "\<lambda>reserved s. if es_phase s = Aborted then bindP (verifyAborted D s) (\<lambda>_. bindP removeReservation (\<lambda>_. retP s))
     else if b \<or> es_phase s = Aborting then abort_order D ?k s
     else bindP (undo_unsubmitted D ?k s) (\<lambda>s. bindP (settle_unpaid x D ?k i s) (\<lambda>s. finish_order x D ?k i reserved s))"
  have tail: "steps m0 (\<lambda>m. es_intentHash s = h \<and> at m0 ?k s m) (?tail rv s) (\<lambda>s m. closed s \<and> run_ok m0 m)" for rv s
    by (rule triple_pure, rule run_tail) (simp add: h)
  have rest: "steps m0 (\<lambda>m. found m0 ?k stored m \<and> (case r of None \<Rightarrow> reservation m = Absent | Some p \<Rightarrow> reservation m = Stored p))
      (bindP (needP (case r of None \<Rightarrow> True | Some (other, _) \<Rightarrow> other = ?k) e1) (\<lambda>_.
       bindP (needP (stored \<noteq> None \<or> \<not> b) e2) (\<lambda>_. bindP (?load stored) (?tail (r \<noteq> None)))))
      (\<lambda>s m. closed s \<and> run_ok m0 m)" if chk: "check_stored x h stored = Inr u" for stored r e1 e2 u
    by (rule triple_need_then, blast dest: found_run_ok, rule triple_need_then, blast dest: found_run_ok,
        rule triple_bind [OF triple_pre [OF load_step [OF hex refl chk, unfolded Let_def]] tail])
      (blast intro: own_reservation)
  have auth: "steps m0 (found m0 ?k stored) (if b then retP () else authenticate D i) (\<lambda>_. found m0 ?k stored)" for stored
    by (intro triple_if triple_ret quiet_from [OF quiet(8)]) (auto intro: quiet_found found_run_ok)
  have body: "steps m0 (found m0 ?k stored) (bindP (liftP (check_stored x h stored)) (\<lambda>_.
         bindP (if b then retP () else authenticate D i) (\<lambda>_.
         bindP (readReservation bad_journal) (\<lambda>r.
         bindP (needP (case r of None \<Rightarrow> True | Some (other, _) \<Rightarrow> other = ?k)
           (Err ''Another order holds the allowance reservation; reconcile that order first.'')) (\<lambda>_.
         bindP (needP (stored \<noteq> None \<or> \<not> b) (Err ''No stored unpaid order to abort.'')) (\<lambda>_.
         bindP (?load stored) (?tail (r \<noteq> None))))))))
      (\<lambda>s m. closed s \<and> run_ok m0 m)" for stored
    by (rule triple_lift_then, erule found_run_ok, rule triple_bind [OF auth], rule triple_bind [OF read_reservation_step], rule rest)
  show "steps m0 (run_ok m0) (bindP (readJournal bad_journal ?k) (\<lambda>stored. bindP (liftP (check_stored x h stored)) (\<lambda>_.
         bindP (if b then retP () else authenticate D i) (\<lambda>_.
         bindP (readReservation bad_journal) (\<lambda>r.
         bindP (needP (case r of None \<Rightarrow> True | Some (other, _) \<Rightarrow> other = ?k)
           (Err ''Another order holds the allowance reservation; reconcile that order first.'')) (\<lambda>_.
         bindP (needP (stored \<noteq> None \<or> \<not> b) (Err ''No stored unpaid order to abort.'')) (\<lambda>_.
         bindP (?load stored) (?tail (r \<noteq> None)))))))))
      (\<lambda>s m. closed s \<and> run_ok m0 m)"
    by (rule triple_bind [OF triple_post [OF triple_readJournal [OF stable_run_ok]] body])
      (auto simp: found_def split: option.splits)
qed

lemma run_ok_lock: "run_ok m0 (m\<lparr>locked := l\<rparr>) = run_ok m0 m"
  by (simp add: run_ok_def executor_ok_def order_ok_def once_ok_def submits_of_def directory_evolves_def cong: disk_file.case_cong)

lemma run_ok_budget: "run_ok m0 m \<Longrightarrow> run_ok m0 (m\<lparr>budget := n\<rparr>)"
  by (rule stableD(1) [OF stable_run_ok])

lemma input_hex:
  assumes "p_executor_input x v = Some i"
  shows "hex_n 64 (ei_orderId i)"
proof -
  obtain s where "p_hex32 s = Some (ei_orderId i)"
    using assms by (clarsimp simp: p_executor_input_def bind_eq_Some_conv split: if_split_asm)
  then show ?thesis by (auto simp: p_hex32_def) (metis hex_lower)
qed

lemma intent_hex: "executor_intent x v = Inr i \<Longrightarrow> hex_n 64 (ei_orderId i)"
  by (auto simp: executor_intent_def bindR_eq_Inr intro: input_hex)

lemma executor_steps: "steps m0 (run_ok m0) (runEconomyExecutor x D v b) (\<lambda>s m. closed s \<and> run_ok m0 m)"
proof -
  have take: "steps m0 (run_ok m0) (takeLock e) (\<lambda>_. run_ok m0)" for e
    unfolding takeLock_def
    by (rule triple_bind [where R = "\<lambda>_. run_ok m0"], rule triple_effect)
      (auto simp: run_ok_lock run_ok_budget intro!: triple_throw triple_ret)
  have drop: "steps m0 (\<lambda>m. c \<and> run_ok m0 m) dropLock (\<lambda>_ m. c \<and> run_ok m0 m)" for c
    unfolding dropLock_def by (rule triple_effect) (auto simp: run_ok_lock run_ok_budget)
  have drop': "steps m0 (run_ok m0) dropLock (\<lambda>_. run_ok m0)" using drop [of True] by simp
  show ?thesis
    unfolding runEconomyExecutor_def
    by (rule triple_lift_then, assumption, rule triple_bind [OF take], rule triple_finally [OF run_order_step drop drop'])
      (rule intent_hex)
qed

text \<open>One run, however it ends.\<close>

lemma executor_run:
  assumes "executor_ok x m" "runEconomyExecutor x D v b m = (r, m')"
  shows "executor_ok x m' \<and> directory_evolves m m' \<and> (case r of Ret s \<Rightarrow> closed s | _ \<Rightarrow> True)"
proof -
  have "run_ok m m" using assms(1) directory_evolves_refl by (simp add: run_ok_def)
  note end_ = tripleD [OF executor_steps [of m v b] this]
  show ?thesis
  proof (cases r)
    case (Ret s)
    then show ?thesis using end_(1) [of s m'] assms(2) by (simp add: run_ok_def)
  next
    case (Throw e)
    then show ?thesis using end_(2) [of e m'] assms(2) by (simp add: run_ok_def)
  next
    case Died
    then show ?thesis using end_(3) [of m'] assms(2) by (simp add: run_ok_def)
  qed
qed

end

lemma restart_ok: "executor_ok x m \<Longrightarrow> executor_ok x (restart n m)"
  by (simp add: executor_ok_def order_ok_def once_ok_def submits_of_def restart_def cong: disk_file.case_cong)

lemma restart_evolves: "directory_evolves m (restart n m)"
  by (auto simp: directory_evolves_def restart_def intro: state_evolves_refl)

lemma empty_executor_ok: "executor_ok x (empty_machine w)"
  by (simp add: executor_ok_def order_ok_def once_ok_def submits_of_def empty_machine_def)

end
