(* ===== verification/ExecutorLive.thy ===== *)
theory ExecutorLive
  imports Executor Bytes JsonParse
begin

text \<open>
  The executor's dependencies on Circle, Arc and the platform,
  \<open>src/src/lib/economy/executor-live.ts\<close>: every Circle action under the order's own
  operation name, absence concluded only under the operation's lock and from the chain, evidence
  required at finality. They satisfy the contract the executor relies on, so its promises hold of
  the purchaser that runs.

  The chain client's reads, the platform's HTTP responses and the compiled artifacts are the
  functions of \<open>live_ext\<close>. The ten views of the policy snapshot are one read, as
  \<open>Promise.all\<close> makes them at one block.
\<close>

section \<open>The boundary\<close>

record live_deployment =
  ld_settlement :: string
  ld_ledger :: string
  ld_policy :: string
  ld_reserve :: string
  ld_reviewPool :: string
  ld_controller :: string
  ld_approver :: string

record agent_policy =
  ap_owner :: string
  ap_executor :: string
  ap_active :: bool
  ap_total :: int
  ap_spent :: int
  ap_perOrder :: int

record service_view =
  sv_seller :: string
  sv_category :: int
  sv_unitHash :: string
  sv_quantity :: int
  sv_unitPrice :: int
  sv_endpointHash :: string

record policy_snapshot =
  ps_agent :: agent_policy
  ps_boundOwner :: string
  ps_allowed :: bool
  ps_categoryActive :: bool
  ps_categoryPerOrder :: int
  ps_categoryWindow :: int
  ps_enabled :: bool
  ps_service :: service_view
  ps_marker :: string

record ledger_view =
  lv_payer :: string
  lv_seller :: string
  lv_serviceHash :: string
  lv_inputHash :: string
  lv_outputHash :: string
  lv_acknowledged :: bool

record platform_response =
  pr_status :: int
  pr_type :: "string option"
  pr_body :: "nat list list res option"

record 'c live_ext =
  read_num :: "jsnum \<Rightarrow> jsnum"
  platform_fetch :: "string \<Rightarrow> json option \<Rightarrow> bool \<Rightarrow> 'c \<Rightarrow> platform_response res \<times> 'c"
  head_block :: "'c \<Rightarrow> (int \<times> int) res \<times> 'c"
  final_block :: "'c \<Rightarrow> (int \<times> int) res \<times> 'c"
  order_marker :: "string \<Rightarrow> int \<Rightarrow> 'c \<Rightarrow> string res \<times> 'c"
  ledger_order :: "string \<Rightarrow> int \<Rightarrow> 'c \<Rightarrow> ledger_view res \<times> 'c"
  wiring :: "string \<Rightarrow> string \<Rightarrow> int \<Rightarrow> 'c \<Rightarrow> string res \<times> 'c"
  policy_views :: "executor_input \<Rightarrow> int \<Rightarrow> 'c \<Rightarrow> (policy_snapshot \<times> int \<times> int \<times> int) res \<times> 'c"
  code_at :: "string \<Rightarrow> int \<Rightarrow> 'c \<Rightarrow> string option res \<times> 'c"
  built_runtime :: "string \<Rightarrow> 'c \<Rightarrow> (string \<times> (nat \<times> nat) list) res \<times> 'c"
  allowance :: "string \<Rightarrow> string \<Rightarrow> bool \<Rightarrow> 'c \<Rightarrow> int res \<times> 'c"
  usdc_balance :: "string \<Rightarrow> 'c \<Rightarrow> int res \<times> 'c"
  simulate_consume :: "executor_input \<Rightarrow> int \<Rightarrow> int \<Rightarrow> 'c \<Rightarrow> unit res \<times> 'c"
  simulate_settle :: "string \<Rightarrow> settlement_order \<Rightarrow> 'c \<Rightarrow> unit res \<times> 'c"

definition same :: "string \<Rightarrow> string \<Rightarrow> bool" where
  "same a b \<longleftrightarrow> to_lower a = to_lower b"

definition zeroHash :: string where
  "zeroHash = ''0x'' @ replicate 64 (CHR ''0'')"

definition zeroAddress :: string where
  "zeroAddress = ''0x'' @ replicate 40 (CHR ''0'')"

section \<open>Policy\<close>

definition assertExecutorPolicy :: "ext \<Rightarrow> executor_input \<Rightarrow> policy_snapshot \<Rightarrow> unit res" where
  "assertExecutorPolicy x i q =
     (let a = ps_agent q; s = ps_service q; d = ei_definition i; amount = total_price d
      in bindR (need (same (ap_owner a) (ei_owner i) \<and> same (ap_executor a) (ei_payer i) \<and>
             same (ps_boundOwner q) (ei_owner i) \<and> ap_active a \<and> ps_allowed q)
           (Err ''Owner, executor, active mandate or seller allowlist rejected.'')) (\<lambda>_.
         bindR (need (ps_enabled q \<and> ps_categoryActive q \<and> amount \<le> ps_categoryPerOrder q \<and>
             ap_spent a + amount \<le> ap_total a \<and> amount \<le> ap_perOrder a \<and> amount \<le> ps_categoryWindow q \<and>
             amount \<le> dec_int (ei_max i)) (Err ''Policy spending limits rejected.'')) (\<lambda>_.
         bindR (need (same (sv_seller s) (st_seller d) \<and> sv_category s = category_index (st_category d) \<and>
             sv_unitHash s = text_hash x (st_unit d) \<and> sv_quantity s = dec_int (st_quantity d) \<and>
             sv_unitPrice s = dec_int (st_unitPrice d) \<and> sv_endpointHash s = text_hash x (st_endpoint d))
           (Err ''Onchain service mismatch.'')) (\<lambda>_.
         need (ps_marker q = zeroHash) (Err ''Order already consumed; recover its original payment journal.'')))))"

section \<open>Operations under their lock\<close>

definition withExecutorOperationLock :: "string \<Rightarrow> ('c, 'a) exec \<Rightarrow> ('c, 'a) exec" where
  "withExecutorOperationLock name work =
     bindP (needP (validName name) (Err ''Invalid operation name.'')) (\<lambda>_.
     bindP (takeOpLock (Err ''Circle operation locked; no absence or recovery conclusion is safe.'') name) (\<lambda>_.
     finallyP work (dropOpLock name)))"

definition correct_chain :: "'c circle_ext \<Rightarrow> ('c, unit) exec" where
  "correct_chain y = bindP (callP (chain_id y)) (\<lambda>c. needP (c = 5042002) (Err ''Wrong chain.''))"

primrec await_final :: "'c circle_ext \<Rightarrow> 'c live_ext \<Rightarrow> string \<Rightarrow> nat \<Rightarrow> ('c, chain_receipt) exec" where
  "await_final y l h 0 = throwP (Err ''Transaction is not finalized; reconcile the same operation.'')"
| "await_final y l h (Suc n) =
     bindP (catchP (bindP (callP (get_receipt y h)) (\<lambda>r. retP (Some r))) (\<lambda>_. retP None)) (\<lambda>r.
     case r of
       None \<Rightarrow> await_final y l h n
     | Some c \<Rightarrow>
         bindP (needP (cr_success c) (Err ''Transaction reverted; retain immutable journal.'')) (\<lambda>_.
         bindP (callP (final_block l)) (\<lambda>(number, _).
         if cr_block c \<le> number then retP c else await_final y l h n)))"

definition finalizedReceipt :: "'c circle_ext \<Rightarrow> 'c live_ext \<Rightarrow> string \<Rightarrow> ('c, chain_receipt) exec" where
  "finalizedReceipt y l h = bindP (correct_chain y) (\<lambda>_. await_final y l h 10)"

definition unpaid_at :: "'c live_ext \<Rightarrow> string \<Rightarrow> int \<Rightarrow> ('c, unit) exec" where
  "unpaid_at l k b =
     bindP (callP (order_marker l k b)) (\<lambda>marker.
     bindP (callP (ledger_order l k b)) (\<lambda>paid.
     needP (marker = zeroHash \<and> same (lv_payer paid) zeroAddress)
       (Err ''Onchain order may be paid; preserve its reservation and reconcile.'')))"

definition assertUnpaid :: "'c circle_ext \<Rightarrow> 'c live_ext \<Rightarrow> string \<Rightarrow> ('c, unit) exec" where
  "assertUnpaid y l k =
     bindP (correct_chain y) (\<lambda>_.
     bindP (callP (head_block l)) (\<lambda>(latest, _).
     bindP (callP (final_block l)) (\<lambda>(final, _).
     bindP (unpaid_at l k latest) (\<lambda>_. unpaid_at l k final))))"

definition operation_ok :: "string \<Rightarrow> operation \<Rightarrow> bool" where
  "operation_ok name op \<longleftrightarrow> op_version op = 1 \<and> op_name op = name \<and> (case op_status op of OtherStatus _ \<Rightarrow> False | _ \<Rightarrow> True)"

definition live_hasOperation ::
    "'c circle_ext \<Rightarrow> 'c live_ext \<Rightarrow> executor_input \<Rightarrow> executor_state \<Rightarrow> executor_action \<Rightarrow> ('c, bool) exec" where
  "live_hasOperation y l i s a =
     withExecutorOperationLock (operationName s a)
       (bindP (readOp (operationName s a)) (\<lambda>stored. case stored of
          Some op \<Rightarrow> bindP (needP (operation_ok (operationName s a) op) (Err ''Invalid operation journal.'')) (\<lambda>_. retP True)
        | None \<Rightarrow> bindP (assertUnpaid y l (ei_orderId i)) (\<lambda>_. retP False)))"

definition reconcileLocked ::
    "'c circle_ext \<Rightarrow> circle_config \<Rightarrow> executor_state \<Rightarrow> executor_action \<Rightarrow> ('c, operation) exec" where
  "reconcileLocked y cfg s a = withExecutorOperationLock (operationName s a) (reconcile y cfg (operationName s a))"

text \<open>The transaction of an operation, reconciled when Circle did not name it, at finality.\<close>

definition circleReceipt ::
    "'c circle_ext \<Rightarrow> 'c live_ext \<Rightarrow> circle_config \<Rightarrow> operation \<Rightarrow> executor_state \<Rightarrow> executor_action \<Rightarrow> ('c, string) exec" where
  "circleReceipt y l cfg op s a =
     bindP (if truthy (result_field op ''txHash'') then retP op else reconcileLocked y cfg s a) (\<lambda>op.
     bindP (liftP (of_opt (Err ''Circle transaction evidence is incomplete; reconcile this operation.'')
       (if op_status op = Submitted then map_option to_lower (tx_evidence cfg op) else None))) (\<lambda>h.
     bindP (finalizedReceipt y l h) (\<lambda>_. retP h)))"

section \<open>The platform\<close>

text \<open>\<open>api\<close>: an error that carries an HTTP status, or one that does not.\<close>

definition read_api :: "'c live_ext \<Rightarrow> platform_response \<Rightarrow> (js_error \<times> int option) + json" where
  "read_api l r =
     (if \<not> (200 \<le> pr_status r \<and> pr_status r \<le> 299)
      then Inl (Err ''Platform request failed; preserve this order.'', Some (pr_status r))
      else if \<not> (case pr_type r of None \<Rightarrow> False | Some t \<Rightarrow> starts_with ''application/json'' t)
      then Inl (Err ''Platform returned non-JSON data.'', None)
      else case pr_body r of
        None \<Rightarrow> Inl (Err ''Missing platform response.'', None)
      | Some (Inl e) \<Rightarrow> Inl (e, None)
      | Some (Inr chunks) \<Rightarrow>
          if 512 * 1024 < sum_list (map length chunks) then Inl (Err ''Platform response too large.'', None)
          else (case json_parse (read_num l) (of_utf8 (concat chunks)) of
              None \<Rightarrow> Inl (Err ''Invalid platform JSON.'', None)
            | Some v \<Rightarrow> Inr v))"

definition api_result ::
    "'c live_ext \<Rightarrow> string \<Rightarrow> json option \<Rightarrow> bool \<Rightarrow> ('c, (js_error \<times> int option) + json) exec" where
  "api_result l path body authenticated =
     bindP (catchP (bindP (callP (platform_fetch l path body authenticated)) (\<lambda>r. retP (Some r))) (\<lambda>_. retP None)) (\<lambda>r.
     retP (case r of None \<Rightarrow> Inl (Err ''Platform request unavailable; retain this order for retry.'', None)
       | Some p \<Rightarrow> read_api l p))"

definition api :: "'c live_ext \<Rightarrow> string \<Rightarrow> json option \<Rightarrow> bool \<Rightarrow> ('c, json) exec" where
  "api l path body authenticated =
     bindP (api_result l path body authenticated) (\<lambda>r. case r of Inl (e, _) \<Rightarrow> throwP e | Inr v \<Rightarrow> retP v)"

definition orders_path :: "executor_input \<Rightarrow> string" where
  "orders_path i = ''/api/v1/agents/'' @ ei_agent i @ ''/economy/orders''"

definition live_assertActiveService :: "ext \<Rightarrow> 'c live_ext \<Rightarrow> executor_input \<Rightarrow> ('c, unit) exec" where
  "live_assertActiveService x l i =
     bindP (api l ''/api/economy/services'' None False) (\<lambda>catalog.
     let unavailable = Err ''Exact active service definition unavailable.'' in
     case (case fld catalog ''services'' of Some (JArr vs) \<Rightarrow> filter (\<lambda>v. fstr v ''serviceHash'' = Some (ei_serviceHash i)) vs | _ \<Rightarrow> []) of
       [v] \<Rightarrow>
         bindP (liftP (validateServiceDefinition x v)) (\<lambda>d.
         bindP (liftP (canonicalJsonHash x (definition_json d))) (\<lambda>a.
         bindP (liftP (canonicalJsonHash x (definition_json (ei_definition i)))) (\<lambda>b.
         needP (a = b) unavailable)))
     | _ \<Rightarrow> throwP unavailable)"

definition live_authenticate :: "'c live_ext \<Rightarrow> executor_input \<Rightarrow> ('c, unit) exec" where
  "live_authenticate l i =
     bindP (api l (orders_path i) None True) (\<lambda>v.
     needP (fstr v ''platformAgentId'' = Some (ei_agent i) \<and> lower_text (fld v ''ownerAddress'') = to_lower (ei_owner i))
       (Err ''Authenticated platform agent owner differs from pinned owner.''))"

text \<open>The order of a delivery response; a property that is no string equals no expected text.\<close>

definition p_delivery :: "json \<Rightarrow> delivery" where
  "p_delivery v =
     (let s = (\<lambda>k. case fstr v k of Some t \<Rightarrow> t | None \<Rightarrow> [])
      in \<lparr>de_orderId = s ''orderId'', de_serviceHash = s ''serviceHash'', de_transaction = s ''transactionHash'',
          de_state = s ''state'', de_output = fld v ''output'', de_outputHash = fstr v ''outputHash''\<rparr>)"

primrec live_deliver :: "'c live_ext \<Rightarrow> executor_input \<Rightarrow> service_request \<Rightarrow> nat \<Rightarrow> ('c, delivery) exec" where
  "live_deliver l i r 0 = throwP (Err ''Delivery polling exhausted. Payment is preserved; rerun the identical private input file.'')"
| "live_deliver l i r (Suc n) =
     bindP (api_result l (orders_path i) (Some (JObj [(''request'', request_json r)])) True) (\<lambda>v.
     case v of
       Inr j \<Rightarrow>
         (case fld j ''order'' of
            Some q \<Rightarrow> if fstr q ''state'' = Some ''fulfilled'' then retP (p_delivery q) else live_deliver l i r n
          | None \<Rightarrow> live_deliver l i r n)
     | Inl (e, status) \<Rightarrow>
         (case status of
            Some c \<Rightarrow> if c \<in> {409, 429, 502, 503, 504} then live_deliver l i r n else throwP e
          | None \<Rightarrow> live_deliver l i r n))"

section \<open>The dependencies\<close>

definition live_prepareAbort ::
    "ext \<Rightarrow> 'c circle_ext \<Rightarrow> 'c live_ext \<Rightarrow> circle_config \<Rightarrow> live_deployment \<Rightarrow> executor_input \<Rightarrow> executor_state \<Rightarrow> ('c, bool) exec" where
  "live_prepareAbort x y l cfg dep i s =
     bindP (live_hasOperation y l i s PayOp) (\<lambda>paid.
     bindP (needP (\<not> paid) (Err ''Payment journal exists; abort cannot exclude an in-flight payment.'')) (\<lambda>_.
     bindP (assertUnpaid y l (ei_orderId i)) (\<lambda>_.
     bindP (live_hasOperation y l i s ApproveOp) (\<lambda>approved.
     if \<not> approved then retP False
     else bindP (reconcileLocked y cfg s ApproveOp) (\<lambda>op.
          bindP (circleReceipt y l cfg op s ApproveOp) (\<lambda>_.
          bindP (callP (allowance l (ei_payer i) (ld_settlement dep) False)) (\<lambda>a.
          bindP (liftP (if a = 0 then Inr True else bindR (settlementOrder x s) (\<lambda>so. Inr (a = so_amount so)))) (\<lambda>ours.
          bindP (needP ours (Err ''Allowance differs from this order; manual reconciliation required.'')) (\<lambda>_.
            retP (a \<noteq> 0))))))))))"

definition live_abort ::
    "ext \<Rightarrow> 'c circle_ext \<Rightarrow> 'c live_ext \<Rightarrow> circle_config \<Rightarrow> live_deployment \<Rightarrow> executor_input \<Rightarrow> executor_state \<Rightarrow> ('c, string) exec" where
  "live_abort x y l cfg dep i s =
     bindP (live_prepareAbort x y l cfg dep i s) (\<lambda>_.
     bindP (approveCircleUsdc x y cfg (operationName s AbortOp) (ld_settlement dep) 0) (\<lambda>op.
       circleReceipt y l cfg op s AbortOp))"

definition live_verifyAborted ::
    "'c circle_ext \<Rightarrow> 'c live_ext \<Rightarrow> live_deployment \<Rightarrow> executor_input \<Rightarrow> executor_state \<Rightarrow> ('c, unit) exec" where
  "live_verifyAborted y l dep i s =
     bindP (live_hasOperation y l i s PayOp) (\<lambda>paid.
     bindP (needP (\<not> paid) (Err ''Payment journal exists; reservation retained.'')) (\<lambda>_.
     bindP (assertUnpaid y l (ei_orderId i)) (\<lambda>_.
     if es_revoke s
     then bindP (callP (allowance l (ei_payer i) (ld_settlement dep) True)) (\<lambda>a.
          needP (a = 0) (Err ''Allowance revocation is not finalized.''))
     else retP ())))"

primrec check_runtimes :: "'c live_ext \<Rightarrow> int \<Rightarrow> (string \<times> string) list \<Rightarrow> ('c, unit) exec" where
  "check_runtimes l b [] = retP ()"
| "check_runtimes l b (p # ps) =
     bindP (callP (built_runtime l (snd p))) (\<lambda>(expected, immutable).
     bindP (callP (code_at l (fst p) b)) (\<lambda>deployed.
     bindP (needP (case deployed of None \<Rightarrow> False | Some c \<Rightarrow> c \<noteq> [] \<and> runtimeMatches c expected immutable)
       (Err ''Deployment runtime mismatch.'')) (\<lambda>_. check_runtimes l b ps)))"

primrec check_wiring :: "'c live_ext \<Rightarrow> int \<Rightarrow> (string \<times> string \<times> string) list \<Rightarrow> ('c, unit) exec" where
  "check_wiring l b [] = retP ()"
| "check_wiring l b (p # ps) =
     bindP (callP (wiring l (fst p) (fst (snd p)) b)) (\<lambda>actual.
     bindP (needP (same actual (snd (snd p))) (Err ''Deployment wiring mismatch.'')) (\<lambda>_. check_wiring l b ps))"

definition expected_wiring :: "live_deployment \<Rightarrow> (string \<times> string \<times> string) list" where
  "expected_wiring dep = [(ld_settlement dep, ''policy'', ld_policy dep), (ld_settlement dep, ''ledger'', ld_ledger dep),
     (ld_settlement dep, ''token'', usdc), (ld_settlement dep, ''reserve'', ld_reserve dep),
     (ld_settlement dep, ''reviewPool'', ld_reviewPool dep), (ld_policy dep, ''controller'', ld_controller dep),
     (ld_policy dep, ''approver'', ld_approver dep), (ld_policy dep, ''settlement'', ld_settlement dep),
     (ld_ledger dep, ''settlement'', ld_settlement dep)]"

definition live_preflight ::
    "ext \<Rightarrow> 'c circle_ext \<Rightarrow> 'c live_ext \<Rightarrow> circle_config \<Rightarrow> live_deployment \<Rightarrow> executor_input \<Rightarrow> versions option \<Rightarrow> ('c, versions) exec" where
  "live_preflight x y l cfg dep i previous =
     (let d = ei_definition i
      in bindP (correct_chain y) (\<lambda>_.
         bindP (needP (same (st_settlement d) (ld_settlement dep) \<and> same (st_ledger d) (ld_ledger dep) \<and>
             same (cc_approver cfg) (ld_approver dep)) (Err ''Pinned deployment mismatch.'')) (\<lambda>_.
         bindP (callP (final_block l)) (\<lambda>(block, _).
         bindP (callP (head_block l)) (\<lambda>(_, now).
         bindP (needP (now < dec_int (ei_expiry i)) (Err ''Unpaid intent expired; preserve the original journal.'')) (\<lambda>_.
         bindP (live_assertActiveService x l i) (\<lambda>_.
         bindP (check_runtimes l block [(ld_policy dep, ''ObolosPolicyEnvelope''), (ld_settlement dep, ''ObolosMarketSettlement''),
           (ld_ledger dep, ''ObolosEconomicLedger'')]) (\<lambda>_.
         bindP (check_wiring l block (expected_wiring dep)) (\<lambda>_.
         bindP (callP (policy_views l i block)) (\<lambda>(snapshot, pv, av, fv).
         bindP (liftP (assertExecutorPolicy x i snapshot)) (\<lambda>_.
         let current = \<lparr>ve_policy = int_dec pv, ve_agent = int_dec av, ve_fee = int_dec fv\<rparr> in
         bindP (liftP (case previous of None \<Rightarrow> Inr True | Some v \<Rightarrow> same_versions x v current)) (\<lambda>same.
         bindP (needP same (Err ''Stored policy versions changed; no replacement order is permitted.'')) (\<lambda>_.
         bindP (callP (simulate_consume l i pv av)) (\<lambda>_. retP current))))))))))))))"

definition live_prepareApproval ::
    "ext \<Rightarrow> 'c live_ext \<Rightarrow> live_deployment \<Rightarrow> executor_input \<Rightarrow> executor_state \<Rightarrow> ('c, unit) exec" where
  "live_prepareApproval x l dep i s =
     bindP (liftP (settlementOrder x s)) (\<lambda>so.
     bindP (callP (allowance l (ei_payer i) (ld_settlement dep) False)) (\<lambda>a.
     bindP (callP (usdc_balance l (ei_payer i))) (\<lambda>b.
     bindP (needP (a = 0) (Err ''Preexisting allowance requires explicit reconciliation before this order.'')) (\<lambda>_.
     needP (so_amount so \<le> b) (Err ''Insufficient existing USDC; executor does not fund wallets.'')))))"

definition live_verifyDelivery :: "'c live_ext \<Rightarrow> executor_input \<Rightarrow> executor_state \<Rightarrow> ('c, bool) exec" where
  "live_verifyDelivery l i s =
     bindP (callP (final_block l)) (\<lambda>(block, _).
     bindP (callP (ledger_order l (ei_orderId (es_intent s)) block)) (\<lambda>p.
     bindP (needP (same (lv_payer p) (ei_payer i) \<and> same (lv_seller p) (st_seller (ei_definition i)) \<and>
         lv_serviceHash p = ei_serviceHash i \<and> Some (lv_inputHash p) = map_option rq_inputHash (es_request s) \<and>
         Some (lv_outputHash p) = es_outputHash s)
       (Err ''Matching seller delivery is not finalized; retry this same order later.'')) (\<lambda>_.
       retP (lv_acknowledged p))))"

definition live_acknowledge ::
    "ext \<Rightarrow> 'c circle_ext \<Rightarrow> 'c live_ext \<Rightarrow> circle_config \<Rightarrow> live_deployment \<Rightarrow> executor_input \<Rightarrow> executor_state \<Rightarrow> ('c, string) exec" where
  "live_acknowledge x y l cfg dep i s =
     bindP (executeCircle x y cfg (operationName s AckOp) (ld_ledger dep) ''acknowledgeDelivery(bytes32,bytes32)''
       [ei_orderId i, (case es_outputHash s of Some h \<Rightarrow> h | None \<Rightarrow> ''undefined'')]) (\<lambda>op.
     bindP (circleReceipt y l cfg op s AckOp) (\<lambda>h.
     bindP (live_verifyDelivery l i s) (\<lambda>b.
     bindP (needP b (Err ''Acknowledgment is not finalized.'')) (\<lambda>_. retP h))))"

definition live_verifyPayment ::
    "ext \<Rightarrow> 'c circle_ext \<Rightarrow> 'c live_ext \<Rightarrow> executor_input \<Rightarrow> executor_state \<Rightarrow> ('c, unit) exec" where
  "live_verifyPayment x y l i s =
     bindP (liftP (of_opt (Thrown ''TypeError'') (es_payment s))) (\<lambda>h.
     bindP (finalizedReceipt y l h) (\<lambda>c.
     bindP (liftP (of_opt (Thrown ''TypeError'') (es_request s))) (\<lambda>r.
     bindP (liftP (verifyServiceSettlement x (ei_definition i) r
       \<lparr>rc_chainId = 5042002, rc_success = cr_success c, rc_transaction = cr_transaction c, rc_logs = cr_logs c\<rparr>)) (\<lambda>_.
       retP ()))))"

definition live_deps ::
    "ext \<Rightarrow> 'c circle_ext \<Rightarrow> 'c live_ext \<Rightarrow> circle_config \<Rightarrow> live_deployment \<Rightarrow> executor_input \<Rightarrow> nat \<Rightarrow> 'c executor_deps" where
  "live_deps x y l cfg dep i attempts =
     \<lparr>prepareApproval = live_prepareApproval x l dep i,
      preparePayment = (\<lambda>s. bindP (liftP (settlementOrder x s)) (\<lambda>so. callP (simulate_settle l (ei_payer i) so))),
      assertActiveService = live_assertActiveService x l,
      hasOperation = live_hasOperation y l i,
      prepareAbort = live_prepareAbort x y l cfg dep i,
      abort = live_abort x y l cfg dep i,
      verifyAborted = live_verifyAborted y l dep i,
      authenticate = (\<lambda>_. live_authenticate l i),
      preflight = live_preflight x y l cfg dep,
      approve = (\<lambda>s. bindP (liftP (settlementOrder x s)) (\<lambda>so.
        bindP (approveCircleUsdc x y cfg (operationName s ApproveOp) (ld_settlement dep) (so_amount so)) (\<lambda>op.
        bindP (circleReceipt y l cfg op s ApproveOp) (\<lambda>_. retP ())))),
      pay = (\<lambda>s. bindP (liftP (settlementOrder x s)) (\<lambda>so.
        bindP (settleCircleOrder x y cfg (operationName s PayOp) (ld_settlement dep) so) (\<lambda>op.
          circleReceipt y l cfg op s PayOp))),
      recover = (\<lambda>s a. bindP (reconcileLocked y cfg s a) (\<lambda>op. circleReceipt y l cfg op s a)),
      verifyPayment = live_verifyPayment x y l i,
      deliver = (\<lambda>r. live_deliver l i r attempts),
      verifyDelivery = live_verifyDelivery l i,
      acknowledge = live_acknowledge x y l cfg dep i\<rparr>"

text \<open>\<open>liveExecutorDependencies\<close>: the configuration must fit the order.\<close>

definition is_agent_key :: "string \<Rightarrow> bool" where
  "is_agent_key s \<longleftrightarrow> take 8 s = ''ob_test_'' \<and> length s = 51 \<and>
     list_all (\<lambda>c. is_alnum c \<or> c = CHR ''_'' \<or> c = CHR ''-'') (drop 8 s)"

definition liveExecutorDependencies ::
    "ext \<Rightarrow> 'c circle_ext \<Rightarrow> 'c live_ext \<Rightarrow> circle_config \<Rightarrow> live_deployment option \<Rightarrow> executor_input \<Rightarrow> string \<Rightarrow> nat \<Rightarrow> int \<Rightarrow>
      'c executor_deps res" where
  "liveExecutorDependencies x y l cfg dep i key attempts pollMs =
     bindR (need (is_agent_key key) (Err ''Existing scoped ECONOMY_AGENT_KEY is required.'')) (\<lambda>_.
     bindR (need (same (ei_payer i) (cc_wallet cfg)) (Err ''Pinned payer differs from Circle wallet.'')) (\<lambda>_.
     bindR (of_opt (Err ''Economy is not deployed.'') dep) (\<lambda>d.
     bindR (need (1 \<le> attempts \<and> attempts \<le> 20 \<and> 1000 \<le> pollMs \<and> pollMs \<le> 30000)
       (Err ''Invalid bounded delivery polling options.'')) (\<lambda>_.
       Inr (live_deps x y l cfg d i attempts)))))"

section \<open>The contract\<close>

interpretation qf: machine_relation quiet_frame
  by unfold_locales (auto simp: quiet_frame_def intro: fr.refl fr.trans fr.budget fr.outside)

text \<open>An operation under any other name than a payment's is quiet.\<close>

lemma quiet_of:
  assumes "within op_frame p" "within (op_others n) p" "\<And>k. pay_name k \<noteq> n"
  shows "within quiet_frame p"
  using assms unfolding within_def quiet_frame_def op_others_def by metis

lemma payer_of:
  assumes "within op_frame p" "within (op_others n) p"
  shows "within (payer_frame n) p"
  using assms unfolding within_def payer_frame_def op_others_def by metis

lemma lock_quiet: "within quiet_frame (takeOpLock e n)" "within quiet_frame (dropOpLock n)"
proof -
  show "within quiet_frame (dropOpLock n)"
    unfolding dropOpLock_def
    by (rule qf.effect) (simp add: quiet_frame_def op_frame_def once_ok_def submits_of_def)
  show "within quiet_frame (takeOpLock e n)"
    unfolding takeOpLock_def
    by (rule qf.bind, rule qf.effect, simp add: quiet_frame_def op_frame_def once_ok_def submits_of_def,
        rule qf.cond, rule qf.throw, rule qf.ret)
qed

lemmas qf_rules = qf.bind qf.catch qf.cleanup qf.basics qf.cond lock_quiet

lemma locked_quiet: "within quiet_frame w \<Longrightarrow> within quiet_frame (withExecutorOperationLock n w)"
  unfolding withExecutorOperationLock_def by (intro qf_rules)

lemma chain_quiet: "within quiet_frame (correct_chain y)"
  unfolding correct_chain_def by (intro qf_rules)

lemma await_quiet: "within quiet_frame (await_final y l h n)"
proof (induction n)
  case (Suc n)
  then show ?case by (auto intro!: qf_rules split: option.split prod.split)
qed (simp add: qf.throw)

lemma finalized_quiet: "within quiet_frame (finalizedReceipt y l h)"
  unfolding finalizedReceipt_def by (intro qf.bind chain_quiet await_quiet)

lemma unpaid_quiet: "within quiet_frame (assertUnpaid y l k)"
  unfolding assertUnpaid_def unpaid_at_def
  by (intro qf.bind chain_quiet qf.basics) (auto intro!: qf_rules split: prod.split)

lemma has_quiet: "within quiet_frame (live_hasOperation y l i s a)"
  unfolding live_hasOperation_def
  by (intro locked_quiet qf.bind qf.basics) (auto intro!: qf_rules unpaid_quiet split: option.split)

text \<open>Reconciliation of an operation that has no journal changes nothing and does not return.\<close>

abbreviation no_journal :: "string \<Rightarrow> (executor_state, 'c) machine \<Rightarrow> bool" where
  "no_journal n m \<equiv> ops m n = Absent"

lemma stable_no_journal: "stable (no_journal n)"
  by (simp add: stable_def)

lemma read_no_journal:
  "triple (no_journal n) (no_journal n) (no_journal n) (readOp n) (\<lambda>r m. r = None \<and> no_journal n m)"
  unfolding readOp_def
  by (rule triple_bind [where R = "\<lambda>f m. f = Absent \<and> no_journal n m"], rule triple_effect)
    (auto simp: file_opt_def intro!: triple_lift split: disk_file.splits)

lemma reconcile_no_journal:
  "triple (no_journal n) (no_journal n) (no_journal n) (reconcile y cfg n) (\<lambda>_ _. False)"
proof -
  have chain: "triple (no_journal n) (no_journal n) (no_journal n) (assertTestnet y) (\<lambda>_. no_journal n)"
    unfolding assertTestnet_def
    by (rule triple_call_then [OF stable_no_journal]) (auto intro: triple_need)
  show ?thesis
    unfolding reconcile_def
    by (rule triple_need_then, assumption, rule triple_then [OF chain], rule triple_bind [OF read_no_journal])
      (auto simp: triple_def throwP_def)
qed

lemma reconcile_quiet:
  fixes y :: "'c circle_ext"
  shows "within quiet_frame (reconcile y cfg n)"
  unfolding within_def quiet_frame_def
proof (intro allI conjI impI)
  fix m :: "(executor_state, 'c) machine" and k
  obtain r m' where p: "reconcile y cfg n m = (r, m')" by (cases "reconcile y cfg n m")
  show "op_frame m (snd (reconcile y cfg n m))" using reconcile_frame unfolding within_def by blast
  assume abs: "ops m (pay_name k) = Absent"
  show "ops (snd (reconcile y cfg n m)) (pay_name k) = Absent"
  proof (cases "pay_name k = n")
    case True
    then have n: "no_journal n m" using abs by simp
    note end_ = tripleD [OF reconcile_no_journal [of n y cfg] n]
    have "no_journal n m'"
    proof (cases r)
      case (Ret a)
      then show ?thesis using end_(1) [of a m'] p by simp
    next
      case (Throw e)
      then show ?thesis using end_(2) [of e m'] p by simp
    next
      case Died
      then show ?thesis using end_(3) [of m'] p by simp
    qed
    then show ?thesis using p by (simp add: True)
  next
    case False
    then show ?thesis
      using ot.reconcile [of n n y cfg] op_file_others(1) abs unfolding within_def op_others_def by metis
  qed
qed

lemma reconciled_has_journal:
  fixes m m' :: "(executor_state, 'c) machine"
  assumes "reconcile y cfg n m = (Ret op, m')"
  shows "ops m' n \<noteq> Absent"
proof -
  have "ops m n \<noteq> Absent" using tripleD(1) [OF reconcile_no_journal] assms by blast
  then show ?thesis using withinD [OF reconcile_frame assms] by (simp add: op_frame_def)
qed

lemma reconcileLocked_quiet: "within quiet_frame (reconcileLocked y cfg s a)"
  unfolding reconcileLocked_def by (intro locked_quiet reconcile_quiet)

lemma receipt_quiet: "within quiet_frame (circleReceipt y l cfg op s a)"
  unfolding circleReceipt_def
  by (intro qf_rules reconcileLocked_quiet finalized_quiet)

lemma api_quiet: "within quiet_frame (api_result l path body au)" "within quiet_frame (api l path body au)"
proof -
  show "within quiet_frame (api_result l path body au)"
    unfolding api_result_def by (intro qf_rules)
  then show "within quiet_frame (api l path body au)"
    unfolding api_def by (auto intro!: qf_rules split: sum.split)
qed

lemma active_quiet: "within quiet_frame (live_assertActiveService x l i)"
  unfolding live_assertActiveService_def Let_def
  by (rule qf.bind [OF api_quiet(2)]) (auto intro!: qf_rules split: list.split)

lemma deliver_quiet: "within quiet_frame (live_deliver l i r n)"
proof (induction n)
  case (Suc n)
  then show ?case by (auto intro!: qf_rules api_quiet split: sum.split option.split)
qed (simp add: qf.throw)

lemma prepareAbort_quiet: "within quiet_frame (live_prepareAbort x y l cfg dep i s)"
  unfolding live_prepareAbort_def
  by (intro qf_rules has_quiet unpaid_quiet reconcileLocked_quiet receipt_quiet)

lemma verifyDelivery_quiet: "within quiet_frame (live_verifyDelivery l i s)"
  unfolding live_verifyDelivery_def by (intro qf.bind qf.basics) (auto intro!: qf_rules split: prod.split)

text \<open>Circle calls under the order's own names.\<close>

lemma execute_quiet:
  assumes "a \<noteq> PayOp"
  shows "within quiet_frame (executeCircle x y cfg (operationName s a) c sig ps)"
proof (rule quiet_of [where n = "operationName s a", OF executeCircle_frame])
  show "within (op_others (operationName s a)) (executeCircle x y cfg (operationName s a) c sig ps)"
    unfolding executeCircle_def
    by (intro ot.bind ot.need ot.assertTestnet ot.lift ot.durableOperation op_file_others note_submit_others ot.circle)
  show "pay_name k \<noteq> operationName s a" for k using assms by (simp add: operationName_def)
qed

lemma approveUsdc_quiet:
  "a \<noteq> PayOp \<Longrightarrow> within quiet_frame (approveCircleUsdc x y cfg (operationName s a) c amount)"
  unfolding approveCircleUsdc_def by (intro qf_rules execute_quiet)

lemma settle_payer: "within (payer_frame n) (settleCircleOrder x y cfg n c so)"
proof (rule payer_of [OF settleCircleOrder_frame])
  show "within (op_others n) (settleCircleOrder x y cfg n c so)"
    unfolding settleCircleOrder_def executeCircle_def
    by (intro ot.bind ot.need ot.assertTestnet ot.lift ot.durableOperation op_file_others note_submit_others ot.circle)
qed

interpretation pf: machine_relation "payer_frame n" for n
  by unfold_locales (auto simp: payer_frame_def intro: fr.refl fr.trans fr.budget fr.outside)

lemma quiet_payer: "within quiet_frame p \<Longrightarrow> within (payer_frame n) p"
  unfolding within_def quiet_frame_def payer_frame_def by blast

text \<open>What a return says: triples that ask nothing of the other ends.\<close>

abbreviation returns where
  "returns P p Q \<equiv> triple (\<lambda>_. True) (\<lambda>_. True) P p Q"

definition same_ops :: "(executor_state, 'c) machine \<Rightarrow> (executor_state, 'c) machine \<Rightarrow> bool" where
  "same_ops m m' \<longleftrightarrow> ops m' = ops m"

interpretation so: machine_relation same_ops
  by unfold_locales (auto simp: same_ops_def)

lemma returns_within:
  assumes "within R p" "\<And>m m'. P m \<Longrightarrow> R m m' \<Longrightarrow> P m'"
  shows "returns P p (\<lambda>_. P)"
  using assms withinD [OF assms(1)] by (auto simp: triple_def split: prod.split outcome.split)

lemma keep_journal: "within op_frame p \<Longrightarrow> returns (\<lambda>m. ops m n \<noteq> Absent) p (\<lambda>_ m. ops m n \<noteq> Absent)"
  by (erule returns_within) (auto simp: op_frame_def)

lemma keep_unpaid: "within quiet_frame p \<Longrightarrow> returns (\<lambda>m. ops m (pay_name k) = Absent) p (\<lambda>_ m. ops m (pay_name k) = Absent)"
  by (erule returns_within) (auto simp: quiet_frame_def)

lemma quiet_frames: "within quiet_frame p \<Longrightarrow> within op_frame p"
  by (simp add: within_def quiet_frame_def)

lemma returns_anything: "returns P p (\<lambda>_ _. True)"
  by (auto simp: triple_def split: prod.split outcome.split)

lemma read_returns: "returns P (readOp n) (\<lambda>r m. (r \<noteq> None) = (ops m n \<noteq> Absent))"
  unfolding readOp_def
  by (rule triple_bind [where R = "\<lambda>f m. ops m n = f"], rule triple_effect)
    (auto simp: file_opt_def intro!: triple_lift split: disk_file.splits)

lemma returns_anyway: "returns (\<lambda>_. True) p Q \<Longrightarrow> returns P p Q"
  by (rule triple_pre) simp_all

text \<open>A durable operation that returns has a journal.\<close>

lemma durable_has_journal:
  assumes sub: "\<And>key. within op_frame (submit key)"
  shows "returns (\<lambda>_. True) (durableOperation x y n intent submit) (\<lambda>_ m. ops m n \<noteq> Absent)"
proof -
  have save: "returns (\<lambda>_. True) (saveOp n op) (\<lambda>_ m. ops m n \<noteq> Absent)" for op
    unfolding saveOp_def by (rule triple_effect) auto
  have submitted: "returns (\<lambda>m. ops m n \<noteq> Absent) (bindP (noteSubmit n intent) (\<lambda>_. submit_operation n op submit))
      (\<lambda>_ m. ops m n \<noteq> Absent)" for op
    by (rule triple_then [OF triple_noteSubmit]) (auto intro!: keep_journal fr.submit_operation op_file_frames sub)
  have new: "returns P (bindP (callP (random_uuid y)) (\<lambda>key. bindP (callP (now_iso y)) (\<lambda>created.
      let op = f key created in bindP (saveOp n op) (\<lambda>_. bindP (noteSubmit n intent) (\<lambda>_. submit_operation n op submit)))))
      (\<lambda>_ m. ops m n \<noteq> Absent)" for P f
    unfolding Let_def
    by (rule triple_bind [OF returns_anything], rule triple_bind [OF returns_anything], rule triple_bind [OF save submitted])
  have body: "returns (\<lambda>_. True) (bindP (readOp n) (\<lambda>previous. case previous of
      Some prev \<Rightarrow> liftP (earlier_operation prev (intent_hash x intent))
    | None \<Rightarrow> bindP (callP (random_uuid y)) (\<lambda>key. bindP (callP (now_iso y)) (\<lambda>created.
      let op = f key created in bindP (saveOp n op) (\<lambda>_. bindP (noteSubmit n intent) (\<lambda>_. submit_operation n op submit))))))
      (\<lambda>_ m. ops m n \<noteq> Absent)" for f
    by (rule triple_bind [OF read_returns]) (auto intro!: new triple_lift split: option.split)
  show ?thesis
    unfolding durableOperation_def
    by (rule triple_bind [OF returns_anything], rule triple_bind [OF returns_anything],
        rule triple_finally [OF returns_anyway [OF body] keep_journal [OF op_file_frames(3)]], rule returns_anything)
qed

lemma settle_has_journal: "returns P (settleCircleOrder x y cfg n c so) (\<lambda>_ m. ops m n \<noteq> Absent)"
  unfolding settleCircleOrder_def executeCircle_def
  by (rule returns_anyway, rule triple_bind [OF returns_anything], rule triple_bind [OF returns_anything],
      rule triple_bind [OF returns_anything], rule triple_bind [OF returns_anything],
      rule returns_anyway [OF durable_has_journal]) (intro fr.bind fr.circle fr.lift)

lemma locked_returns:
  assumes "returns (\<lambda>_. True) w Q" "\<And>a m m'. Q a m \<Longrightarrow> ops m' = ops m \<Longrightarrow> Q a m'"
  shows "returns P (withExecutorOperationLock n w) Q"
proof -
  have drop: "within same_ops (dropOpLock n)"
    unfolding dropOpLock_def by (rule so.effect) (simp add: same_ops_def)
  show ?thesis
    unfolding withExecutorOperationLock_def
    by (rule triple_bind [OF returns_anything], rule triple_bind [OF returns_anything],
        rule triple_finally [OF assms(1) returns_within [OF drop]], erule assms(2), simp add: same_ops_def, rule returns_anything)
qed

lemma unpaid_same_ops: "within same_ops (assertUnpaid y l k)"
  unfolding assertUnpaid_def unpaid_at_def correct_chain_def
  by (intro so.bind so.basics) (auto intro!: so.bind so.basics split: prod.split)

lemma has_returns:
  "returns P (live_hasOperation y l i s a) (\<lambda>b m. b = (ops m (operationName s a) \<noteq> Absent))"
proof -
  let ?n = "operationName s a"
  have none: "returns (\<lambda>m. ops m ?n = Absent) (bindP (assertUnpaid y l k) (\<lambda>_. retP False)) (\<lambda>b m. b = (ops m ?n \<noteq> Absent))" for k
    by (rule triple_then [OF returns_within [OF unpaid_same_ops]]) (auto simp: same_ops_def intro: triple_ret)
  have some: "returns (\<lambda>m. ops m ?n \<noteq> Absent) (bindP (needP c e) (\<lambda>_. retP True)) (\<lambda>b m. b = (ops m ?n \<noteq> Absent))" for c e
    by (rule triple_need_then, simp, rule triple_ret) simp
  show ?thesis
    unfolding live_hasOperation_def
    by (rule locked_returns, rule triple_bind [OF read_returns]) (auto intro!: none some split: option.split)
qed

lemma prepareAbort_returns:
  "returns P (live_prepareAbort x y l cfg dep i s) (\<lambda>_ m. ops m (operationName s PayOp) = Absent)"
  unfolding live_prepareAbort_def operationName_def
  by (rule triple_bind [OF has_returns [unfolded operationName_def]], rule triple_need_then, simp,
      rule triple_pre [OF keep_unpaid])
    (auto intro!: qf_rules has_quiet unpaid_quiet reconcileLocked_quiet receipt_quiet)

lemma verifyAborted_returns:
  "returns P (live_verifyAborted y l dep i s) (\<lambda>_ m. ops m (operationName s PayOp) = Absent)"
  unfolding live_verifyAborted_def operationName_def
  by (rule triple_bind [OF has_returns [unfolded operationName_def]], rule triple_need_then, simp,
      rule triple_pre [OF keep_unpaid])
    (auto intro!: qf_rules unpaid_quiet)

lemma recover_returns:
  fixes y :: "'c circle_ext"
  shows "returns P (bindP (reconcileLocked y cfg s a) (\<lambda>op. circleReceipt y l cfg op s b)) (\<lambda>_ m. ops m (operationName s a) \<noteq> Absent)"
proof -
  have r: "returns (\<lambda>_. True) (reconcile y cfg n :: ('c, operation) exec) (\<lambda>_ m. ops m n \<noteq> Absent)" for n
    by (auto simp: triple_def dest: reconciled_has_journal split: prod.split outcome.split)
  have l: "returns P (reconcileLocked y cfg s a) (\<lambda>_ m. ops m (operationName s a) \<noteq> Absent)"
    unfolding reconcileLocked_def by (rule locked_returns [OF r]) simp
  show ?thesis
    by (rule triple_bind [OF l], rule keep_journal, rule quiet_frames, rule receipt_quiet)
qed

lemma pay_returns:
  "returns P (bindP (liftP z) (\<lambda>so. bindP (settleCircleOrder x y cfg n c so) (\<lambda>op. circleReceipt y l cfg op s PayOp)))
     (\<lambda>_ m. ops m n \<noteq> Absent)"
  by (rule triple_bind [OF returns_anything], rule triple_bind [OF settle_has_journal], rule keep_journal, rule quiet_frames,
      rule receipt_quiet)

text \<open>A request is settled when a successful receipt proves it.\<close>

definition request_settled :: "ext \<Rightarrow> service_definition \<Rightarrow> service_request \<Rightarrow> bool" where
  "request_settled x d r \<longleftrightarrow> (\<exists>c p. verifyServiceSettlement x d r c = Inr p)"

lemma verifyPayment_returns:
  assumes "es_request s = Some r"
  shows "returns P (live_verifyPayment x y l i s) (\<lambda>_ _. request_settled x (ei_definition i) r)"
  unfolding live_verifyPayment_def
  by (rule triple_bind [OF returns_anything], rule triple_bind [OF returns_anything], rule triple_lift_then, simp,
      rule triple_lift_then, simp, rule triple_ret)
    (use assms in \<open>auto simp: request_settled_def\<close>)

lemma verifyPayment_quiet: "within quiet_frame (live_verifyPayment x y l i s)"
  unfolding live_verifyPayment_def by (intro qf_rules finalized_quiet)

lemma preflight_quiet: "within quiet_frame (live_preflight x y l cfg dep i v)"
proof -
  have r: "within quiet_frame (check_runtimes l b ps)" for b ps
    by (induction ps) (auto intro!: qf_rules split: prod.split)
  have w: "within quiet_frame (check_wiring l b ps)" for b ps
    by (induction ps) (auto intro!: qf_rules)
  show ?thesis
    unfolding live_preflight_def Let_def
    by (rule qf.bind [OF chain_quiet], rule qf.bind [OF qf.need])
      (auto intro!: qf_rules active_quiet r w split: prod.split)
qed

lemma live_sel:
  "prepareApproval (live_deps x y l cfg dep i n) = live_prepareApproval x l dep i"
  "preparePayment (live_deps x y l cfg dep i n) = (\<lambda>s. bindP (liftP (settlementOrder x s)) (\<lambda>so. callP (simulate_settle l (ei_payer i) so)))"
  "assertActiveService (live_deps x y l cfg dep i n) = live_assertActiveService x l"
  "hasOperation (live_deps x y l cfg dep i n) = live_hasOperation y l i"
  "prepareAbort (live_deps x y l cfg dep i n) = live_prepareAbort x y l cfg dep i"
  "abort (live_deps x y l cfg dep i n) = live_abort x y l cfg dep i"
  "verifyAborted (live_deps x y l cfg dep i n) = live_verifyAborted y l dep i"
  "authenticate (live_deps x y l cfg dep i n) = (\<lambda>_. live_authenticate l i)"
  "preflight (live_deps x y l cfg dep i n) = live_preflight x y l cfg dep"
  "recover (live_deps x y l cfg dep i n) = (\<lambda>s a. bindP (reconcileLocked y cfg s a) (\<lambda>op. circleReceipt y l cfg op s a))"
  "verifyPayment (live_deps x y l cfg dep i n) = live_verifyPayment x y l i"
  "deliver (live_deps x y l cfg dep i n) = (\<lambda>r. live_deliver l i r n)"
  "verifyDelivery (live_deps x y l cfg dep i n) = live_verifyDelivery l i"
  "acknowledge (live_deps x y l cfg dep i n) = live_acknowledge x y l cfg dep i"
  "approve (live_deps x y l cfg dep i n) = (\<lambda>s. bindP (liftP (settlementOrder x s)) (\<lambda>so.
        bindP (approveCircleUsdc x y cfg (operationName s ApproveOp) (ld_settlement dep) (so_amount so)) (\<lambda>op.
        bindP (circleReceipt y l cfg op s ApproveOp) (\<lambda>_. retP ()))))"
  "pay (live_deps x y l cfg dep i n) = (\<lambda>s. bindP (liftP (settlementOrder x s)) (\<lambda>so.
        bindP (settleCircleOrder x y cfg (operationName s PayOp) (ld_settlement dep) so) (\<lambda>op.
          circleReceipt y l cfg op s PayOp)))"
  by (simp_all add: live_deps_def)

interpretation live: executor_interface x "live_deps x y l cfg dep i n" "request_settled x (ei_definition i)"
  for x y l cfg dep i n
proof (unfold_locales, unfold live_sel, goal_cases)
  case (1 s) show ?case unfolding live_prepareApproval_def by (intro qf_rules)
next
  case (2 s) show ?case by (intro qf_rules)
next
  case (3 i) show ?case by (rule active_quiet)
next
  case (4 s a) show ?case by (rule has_quiet)
next
  case (5 s) show ?case by (rule prepareAbort_quiet)
next
  case (6 s) show ?case unfolding live_abort_def by (intro qf.bind prepareAbort_quiet approveUsdc_quiet receipt_quiet) simp
next
  case (7 s) show ?case unfolding live_verifyAborted_def by (intro qf_rules has_quiet unpaid_quiet)
next
  case (8 i) show ?case unfolding live_authenticate_def by (intro qf_rules api_quiet)
next
  case (9 i v) show ?case by (rule preflight_quiet)
next
  case (10 s) show ?case by (intro qf.bind qf.basics approveUsdc_quiet receipt_quiet) simp
next
  case (11 s a) show ?case by (intro qf.bind reconcileLocked_quiet receipt_quiet)
next
  case (12 s) show ?case by (rule verifyPayment_quiet)
next
  case (13 r) show ?case by (rule deliver_quiet)
next
  case (14 s) show ?case by (rule verifyDelivery_quiet)
next
  case (15 s)
  show ?case
    unfolding live_acknowledge_def
    by (intro qf.bind execute_quiet receipt_quiet verifyDelivery_quiet qf.basics) simp
next
  case (16 s) show ?case by (intro pf.bind pf.lift settle_payer quiet_payer [OF receipt_quiet])
next
  case (17 s m h m') then show ?case using tripleD(1) [OF pay_returns [of "\<lambda>_. True"]] by blast
next
  case (18 s m h m') then show ?case using tripleD(1) [OF recover_returns [of "\<lambda>_. True"]] by blast
next
  case (19 s a m b m') then show ?case using tripleD(1) [OF has_returns [of "\<lambda>_. True"]] by blast
next
  case (20 s m b m') then show ?case using tripleD(1) [OF prepareAbort_returns [of "\<lambda>_. True"]] by blast
next
  case (21 s m u m') then show ?case using tripleD(1) [OF verifyAborted_returns [of "\<lambda>_. True"]] by blast
next
  case (22 s m u m' r) then show ?case using tripleD(1) [OF verifyPayment_returns [of s r "\<lambda>_. True"]] by blast
qed

section \<open>The purchaser\<close>

text \<open>\<open>economy-execute.ts\<close> on a parsed input file: the executor with its live dependencies and their
  default polling. A history is any number of such runs on one directory, each with its own order,
  key and effect budget; after a death the stale locks are removed by hand.\<close>

definition execute_order ::
    "ext \<Rightarrow> 'c circle_ext \<Rightarrow> 'c live_ext \<Rightarrow> circle_config \<Rightarrow> live_deployment option \<Rightarrow> string \<Rightarrow> json \<Rightarrow> bool \<Rightarrow>
      ('c, executor_state) exec" where
  "execute_order x y l cfg dep key v abortUnpaid =
     bindP (liftP (of_opt Zod (p_executor_input x v))) (\<lambda>i.
     bindP (liftP (liveExecutorDependencies x y l cfg dep i key 6 10000)) (\<lambda>D.
       runEconomyExecutor x D (executor_input_json i) abortUnpaid))"

definition executor_history ::
    "ext \<Rightarrow> 'c circle_ext \<Rightarrow> 'c live_ext \<Rightarrow> circle_config \<Rightarrow> live_deployment option \<Rightarrow>
      (nat \<times> string \<times> json \<times> bool) list \<Rightarrow> 'c \<Rightarrow> (executor_state, 'c) machine" where
  "executor_history x y l cfg dep cmds w =
     run_all (map (\<lambda>(n, key, v, b). (n, execute_order x y l cfg dep key v b)) cmds) (empty_machine w)"

definition order_done :: "ext \<Rightarrow> json \<Rightarrow> executor_state \<Rightarrow> bool" where
  "order_done x v s \<longleftrightarrow> state_sound x s \<and> (es_phase s = Aborted \<or> es_phase s = Completed \<and>
     (\<exists>i r. p_executor_input x v = Some i \<and> es_request s = Some r \<and> request_settled x (ei_definition i) r))"

lemma execute_order_run:
  assumes ok: "executor_ok x m" and run: "execute_order x y l cfg dep key v b m = (r, m')"
  shows "executor_ok x m' \<and> directory_evolves m m' \<and> (case r of Ret s \<Rightarrow> order_done x v s | _ \<Rightarrow> True)"
proof (cases "p_executor_input x v")
  case None
  then show ?thesis
    using run ok directory_evolves_refl by (auto simp: execute_order_def bindP_def liftP_def throwP_def)
next
  case (Some i)
  show ?thesis
  proof (cases "liveExecutorDependencies x y l cfg dep i key 6 10000")
    case (Inl e)
    then show ?thesis
      using run ok directory_evolves_refl Some by (auto simp: execute_order_def bindP_def liftP_def throwP_def retP_def)
  next
    case (Inr D)
    then obtain d where D: "D = live_deps x y l cfg d i 6"
      by (auto simp: liveExecutorDependencies_def bindR_eq_Inr)
    have "runEconomyExecutor x (live_deps x y l cfg d i 6) (executor_input_json i) b m = (r, m')"
      using run Some Inr by (simp add: execute_order_def bindP_def liftP_def retP_def D)
    from live.executor_run [OF ok this] show ?thesis
      using Some by (auto simp: live.closed_def order_done_def split: outcome.splits)
  qed
qed

lemma run_orders:
  "executor_ok x m \<Longrightarrow>
    executor_ok x (run_all (map (\<lambda>(n, key, v, b). (n, execute_order x y l cfg dep key v b)) cmds) m) \<and>
    directory_evolves m (run_all (map (\<lambda>(n, key, v, b). (n, execute_order x y l cfg dep key v b)) cmds) m)"
proof (induction cmds arbitrary: m)
  case Nil
  then show ?case by (simp add: directory_evolves_refl)
next
  case (Cons c cmds)
  obtain n key v b where c: "c = (n, key, v, b)" by (cases c)
  obtain r m' where r: "execute_order x y l cfg dep key v b (restart n m) = (r, m')"
    by (cases "execute_order x y l cfg dep key v b (restart n m)")
  note one = execute_order_run [OF restart_ok [OF Cons.prems] r]
  note rest = Cons.IH [of m']
  have "directory_evolves m m'" using directory_evolves_trans [OF restart_evolves] one by blast
  then show ?case using one rest directory_evolves_trans by (auto simp: c r)
qed

lemma orders_ok: "executor_ok x (executor_history x y l cfg dep cmds w)"
  unfolding executor_history_def by (rule run_orders [OF empty_executor_ok, THEN conjunct1])

lemma run_all_append: "run_all (ps @ qs) m = run_all qs (run_all ps m)"
  by (induction ps arbitrary: m) auto

lemma orders_evolve:
  "directory_evolves (executor_history x y l cfg dep cmds w) (executor_history x y l cfg dep (cmds @ later) w)"
  unfolding executor_history_def map_append run_all_append
  by (rule run_orders [OF orders_ok [unfolded executor_history_def], THEN conjunct2])

lemma done_settled:
  assumes "order_done x v s"
  shows "es_phase s = Aborted \<or> es_phase s = Completed \<and>
    (\<exists>i r c p out h. p_executor_input x v = Some i \<and> es_request s = Some r \<and> requestFor x s = Inr r \<and>
       verifyServiceSettlement x (ei_definition i) r c = Inr p \<and>
       es_output s = Some out \<and> es_outputHash s = Some h \<and> canonicalJsonHash x out = Inr h \<and>
       (\<exists>j. canonicalJsonHash x (executor_input_json j) = Inr (es_intentHash s) \<and>
            validateSchemaValue out (st_output (ei_definition j)) (128 * 1024) = Inr ()))"
proof (cases "es_phase s = Aborted")
  case False
  with assms obtain i r c p where r: "es_phase s = Completed" "p_executor_input x v = Some i" "es_request s = Some r"
    "verifyServiceSettlement x (ei_definition i) r c = Inr p"
    by (auto simp: order_done_def request_settled_def)
  have "state_sound x s" using assms by (simp add: order_done_def)
  with r obtain out h j where out: "requestFor x s = Inr r" "es_output s = Some out" "es_outputHash s = Some h"
    "canonicalJsonHash x out = Inr h" "canonicalJsonHash x (executor_input_json j) = Inr (es_intentHash s)"
    "validateSchemaValue out (st_output (ei_definition j)) (128 * 1024) = Inr ()"
    by (auto simp: state_sound_def phase_sets)
  show ?thesis using r out by (intro disjI2 conjI exI)
qed simp

section \<open>Properties\<close>

lemma aborted_stays:
  assumes "directory_evolves m m'" "hex_n 64 k" "journal m k = Stored s" "es_phase s = Aborted"
  shows "journal m' k = Stored s"
  using assms by (fastforce simp: directory_evolves_def state_evolves_def)

lemma aborted_unpaid:
  assumes "executor_ok x m" "hex_n 64 k" "journal m k = Stored s" "es_phase s = Aborted"
  shows "submits_of (pay_name k) m = []"
proof -
  have "order_ok x m k" "once_ok m" using assms by (simp_all add: executor_ok_def)
  then show ?thesis using assms(3,4) by (simp add: order_ok_def once_ok_def phase_sets)
qed

lemma holding_reserved:
  assumes "executor_ok x m" "hex_n 64 k" "journal m k = Stored s" "es_phase s \<in> {Approving, Approved, Paying}"
  shows "case reservation m of Stored (r, _) \<Rightarrow> r = k | _ \<Rightarrow> False"
proof -
  have "order_ok x m k" using assms by (simp add: executor_ok_def)
  then show ?thesis using assms(3,4) by (auto simp: order_ok_def phase_sets)
qed

text \<open>
  C32. The payment of an order is handed to Circle at most once, whatever runs are made on the
  directory and wherever they die; and an order whose journal says aborted has never been handed
  to Circle for payment and never will be, its journal standing as it is.
\<close>

theorem aborted_order_never_paid:
  "if hex_n 64 k then
     length (submits_of (pay_name k) (executor_history x y l cfg dep (cmds @ later) w)) \<le> 1 \<and>
     (case journal (executor_history x y l cfg dep cmds w) k of
        Stored s \<Rightarrow>
          if es_phase s = Aborted
          then submits_of (pay_name k) (executor_history x y l cfg dep (cmds @ later) w) = [] \<and>
               journal (executor_history x y l cfg dep (cmds @ later) w) k = Stored s
          else True
      | _ \<Rightarrow> True)
   else True"
proof -
  let ?m = "executor_history x y l cfg dep cmds w"
  let ?m' = "executor_history x y l cfg dep (cmds @ later) w"
  have "once_ok ?m'" using orders_ok [of x y l cfg dep "cmds @ later" w] by (simp add: executor_ok_def)
  then have once: "length (submits_of (pay_name k) ?m') \<le> 1" by (simp add: once_ok_def)
  have stays: "journal ?m' k = Stored s \<and> submits_of (pay_name k) ?m' = []"
    if "hex_n 64 k" "journal ?m k = Stored s" "es_phase s = Aborted" for s
  proof -
    have "journal ?m' k = Stored s" by (rule aborted_stays [OF orders_evolve that])
    then show ?thesis
      using aborted_unpaid [OF orders_ok [of x y l cfg dep "cmds @ later" w] that(1) _ that(3)] by simp
  qed
  show ?thesis
  proof (cases "journal ?m k")
    case (Stored s)
    then show ?thesis using once stays [OF _ Stored] by simp
  qed (use once in simp_all)
qed

text \<open>
  C33. One unpaid order at a time: whenever a journal is between the first approval and the proof
  of payment, the directory's reservation names that order, so two orders are never in those
  phases together and only one allowance is outstanding.
\<close>

theorem one_unpaid_order:
  "case (journal (executor_history x y l cfg dep cmds w) j, journal (executor_history x y l cfg dep cmds w) k) of
     (Stored s, Stored t) \<Rightarrow>
       if hex_n 64 j \<and> hex_n 64 k \<and> es_phase s \<in> {Approving, Approved, Paying} \<and> es_phase t \<in> {Approving, Approved, Paying}
       then j = k \<and> (case reservation (executor_history x y l cfg dep cmds w) of Stored (r, _) \<Rightarrow> r = k | _ \<Rightarrow> False)
       else True
   | _ \<Rightarrow> True"
proof -
  let ?m = "executor_history x y l cfg dep cmds w"
  have holds: "case reservation ?m of Stored (r, _) \<Rightarrow> r = i | _ \<Rightarrow> False"
    if "hex_n 64 i" "journal ?m i = Stored u" "es_phase u \<in> {Approving, Approved, Paying}" for i u
    by (rule holding_reserved [OF orders_ok that])
  show ?thesis
  proof (cases "journal ?m j")
    case (Stored s)
    show ?thesis
    proof (cases "journal ?m k")
      case stored: (Stored t)
      show ?thesis
        unfolding Stored stored prod.case disk_file.case
        using holds [OF _ Stored] holds [OF _ stored] by (cases "reservation ?m") auto
    qed (simp_all add: Stored)
  qed simp_all
qed

text \<open>
  C34. What a successful run returns, from any state the directory can be in: an aborted order, or
  a completed one whose request was built from the stored terms and settled by a receipt holding
  its two events, and whose output matches its hash and the output schema of an input with the
  journal's intent hash.
\<close>

theorem returned_order_settled:
  "case execute_order x y l cfg dep key v b (restart n (executor_history x y l cfg dep cmds w)) of
     (Ret s, _) \<Rightarrow> es_phase s = Aborted \<or> es_phase s = Completed \<and>
       (\<exists>i r c p out h. p_executor_input x v = Some i \<and> es_request s = Some r \<and> requestFor x s = Inr r \<and>
          verifyServiceSettlement x (ei_definition i) r c = Inr p \<and>
          es_output s = Some out \<and> es_outputHash s = Some h \<and> canonicalJsonHash x out = Inr h \<and>
          (\<exists>j. canonicalJsonHash x (executor_input_json j) = Inr (es_intentHash s) \<and>
               validateSchemaValue out (st_output (ei_definition j)) (128 * 1024) = Inr ()))
   | _ \<Rightarrow> True"
proof -
  let ?m = "restart n (executor_history x y l cfg dep cmds w)"
  obtain r m' where run: "execute_order x y l cfg dep key v b ?m = (r, m')"
    by (cases "execute_order x y l cfg dep key v b ?m")
  have "case r of Ret s \<Rightarrow> order_done x v s | _ \<Rightarrow> True"
    using execute_order_run [OF restart_ok [OF orders_ok] run] by blast
  then show ?thesis
    unfolding run
  proof (cases r)
    case (Ret s)
    then have "order_done x v s" using \<open>case r of Ret s \<Rightarrow> order_done x v s | _ \<Rightarrow> True\<close> by simp
    then show "case (r, m') of (Ret s, _) \<Rightarrow> es_phase s = Aborted \<or> es_phase s = Completed \<and>
       (\<exists>i r c p out h. p_executor_input x v = Some i \<and> es_request s = Some r \<and> requestFor x s = Inr r \<and>
          verifyServiceSettlement x (ei_definition i) r c = Inr p \<and>
          es_output s = Some out \<and> es_outputHash s = Some h \<and> canonicalJsonHash x out = Inr h \<and>
          (\<exists>j. canonicalJsonHash x (executor_input_json j) = Inr (es_intentHash s) \<and>
               validateSchemaValue out (st_output (ei_definition j)) (128 * 1024) = Inr ()))
     | _ \<Rightarrow> True"
      unfolding Ret prod.case outcome.case by (rule done_settled)
  qed auto
qed

text \<open>The order as its owner sees it, and how it may change.\<close>

datatype order_view = Open | InFlight | Settled | Cancelled

definition view_order :: "string \<Rightarrow> (executor_state, 'c) machine \<Rightarrow> order_view" where
  "view_order k m = (case journal m k of
       Stored s \<Rightarrow> if es_phase s = Aborted then Cancelled
         else if es_phase s \<in> paid_phases then Settled
         else if ops m (pay_name k) \<noteq> Absent then InFlight else Open
     | _ \<Rightarrow> Open)"

fun may_become :: "order_view \<Rightarrow> order_view \<Rightarrow> bool" where
  "may_become Open _ = True"
| "may_become InFlight v = (v = InFlight \<or> v = Settled)"
| "may_become Settled v = (v = Settled)"
| "may_become Cancelled v = (v = Cancelled)"

lemma view_evolves:
  assumes "executor_ok x m" "executor_ok x m'" "directory_evolves m m'" "hex_n 64 k"
  shows "may_become (view_order k m) (view_order k m')"
proof (cases "journal m k")
  case (Stored s)
  obtain s' where s': "journal m' k = Stored s'" "state_evolves s s'"
    using assms(3,4) Stored unfolding directory_evolves_def by blast
  have ok: "order_ok x m k" "order_ok x m' k" using assms by (simp_all add: executor_ok_def)
  have ops: "ops m (pay_name k) \<noteq> Absent \<Longrightarrow> ops m' (pay_name k) \<noteq> Absent"
    using assms(3) by (simp add: directory_evolves_def)
  have rank: "es_phase s \<in> paid_phases \<Longrightarrow> paid_rank (es_phase s) \<le> paid_rank (es_phase s')"
    and fixed: "es_phase s = Aborted \<Longrightarrow> s' = s"
    using s'(2) by (simp_all add: state_evolves_def)
  have paid: "es_phase s' \<in> paid_phases" if "es_phase s \<in> paid_phases"
    using rank [OF that] that by (simp add: paid_rank_pos)
  have fly: "ops m' (pay_name k) \<noteq> Absent \<Longrightarrow> es_phase s' \<noteq> Aborted"
    using ok(2) s'(1) by (auto simp: order_ok_def phase_sets)
  have apart: "es_phase s \<in> paid_phases \<Longrightarrow> es_phase s \<noteq> Aborted" "es_phase s' \<in> paid_phases \<Longrightarrow> es_phase s' \<noteq> Aborted"
    by (auto simp: phase_sets)
  show ?thesis
  proof (cases "es_phase s = Aborted \<or> es_phase s \<in> paid_phases")
    case True
    then show ?thesis using fixed paid apart s'(1) Stored by (auto simp: view_order_def)
  next
    case False
    show ?thesis
    proof (cases "ops m (pay_name k) = Absent")
      case True
      then show ?thesis using False Stored by (simp add: view_order_def)
    next
      case op: False
      then show ?thesis using False ops fly s'(1) Stored by (simp add: view_order_def)
    qed
  qed
qed (simp_all add: view_order_def)

text \<open>
  C35. The executor and Circle's journal together refine a four-state order: open, in flight,
  settled or cancelled. However a history goes on, an order in flight can only settle, a settled
  or a cancelled order stays so; only an open order can be cancelled.
\<close>

theorem executor_refines_order:
  "if hex_n 64 k
   then may_become (view_order k (executor_history x y l cfg dep cmds w))
          (view_order k (executor_history x y l cfg dep (cmds @ later) w))
   else True"
  using view_evolves [OF orders_ok orders_ok orders_evolve, of k x y l cfg dep cmds w later] by simp

end
