(* ===== verification/Workspace.thy ===== *)
theory Workspace
  imports Contracts
begin

text \<open>
  The data of a workspace run and the pure decisions about it: \<open>src/src/lib/contracts.ts\<close>,
  the spending policy and the audit trail of \<open>policy.ts\<close>, the report checks and answer schemas
  of \<open>gateway.ts\<close>, the verification service of \<open>market/contracts.ts\<close> and the input schema
  and messages of \<open>engine.ts\<close>. Prices are integers, as the schema of the quotes requires;
  evidence and a verifier's checks stay the JSON values they arrive as.
\<close>

section \<open>The records\<close>

datatype run_mode = Rehearsal | Live
datatype run_status = StReady | StRunning | StAwaiting | StPaused | StCompleted | StFailed
datatype run_stage = AtMandate | AtDiscovery | AtPurchase | AtReport | AtVerification | AtComplete
datatype audit_actor = Supervisor | Planner | Broker | Worker | Verifier
datatype audit_kind = InfoEvent | SuccessEvent | WarningEvent | BlockedEvent

fun mode_str :: "run_mode \<Rightarrow> string" where
  "mode_str Rehearsal = ''rehearsal''"
| "mode_str Live = ''live''"

fun stage_str :: "run_stage \<Rightarrow> string" where
  "stage_str AtMandate = ''mandate''"
| "stage_str AtDiscovery = ''discovery''"
| "stage_str AtPurchase = ''purchase''"
| "stage_str AtReport = ''report''"
| "stage_str AtVerification = ''verification''"
| "stage_str AtComplete = ''complete''"

fun actor_str :: "audit_actor \<Rightarrow> string" where
  "actor_str Supervisor = ''supervisor''"
| "actor_str Planner = ''planner''"
| "actor_str Broker = ''broker''"
| "actor_str Worker = ''worker''"
| "actor_str Verifier = ''verifier''"

fun kind_str :: "audit_kind \<Rightarrow> string" where
  "kind_str InfoEvent = ''info''"
| "kind_str SuccessEvent = ''success''"
| "kind_str WarningEvent = ''warning''"
| "kind_str BlockedEvent = ''blocked''"

record verification_service =
  vs_id :: string
  vs_revision :: int
  vs_name :: string
  vs_recipient :: string
  vs_price :: int
  vs_endpoint :: string
  vs_provider :: "string option"

record mandate =
  md_dataBudget :: int
  md_unitPrice :: int
  md_verificationBudget :: int
  md_providers :: "string list"
  md_expires :: string
  md_version :: int
  md_service :: "verification_service option"

record provider =
  pv_id :: string
  pv_name :: string
  pv_description :: string
  pv_network :: string
  pv_asset :: string
  pv_unit :: string
  pv_price :: int
  pv_endpoint :: "string option"

record report =
  rp_title :: string
  rp_summary :: string
  rp_recommendation :: string
  rp_evidence :: "json list"
  rp_generatedBy :: string
  rp_created :: string
  rp_checks :: "json list"
  rp_verified :: bool

record audit_event =
  ev_id :: string
  ev_timestamp :: string
  ev_actor :: audit_actor
  ev_kind :: audit_kind
  ev_title :: string
  ev_detail :: string
  ev_previous :: string
  ev_hash :: string

record approval_request =
  ap_signerMode :: "string option"
  ap_nonce :: string
  ap_message :: string
  ap_expires :: string
  ap_proposed :: mandate
  ap_reason :: string

record authorization_proof =
  au_mode :: run_mode
  au_nonce :: string
  au_message :: string
  au_verifiedAt :: string
  au_previous :: mandate
  au_approved :: mandate
  au_signer :: "string option"
  au_signature :: "string option"
  au_signerMode :: "string option"

record run =
  run_id :: string
  run_mode :: run_mode
  run_title :: string
  run_repos :: "string list"
  run_status :: run_status
  run_stage :: run_stage
  run_created :: string
  run_updated :: string
  run_mandate :: mandate
  run_providers :: "provider list"
  run_selected :: "string option"
  run_dataSpent :: int
  run_verificationSpent :: int
  run_evidence :: "json list"
  run_receipts :: "payment_receipt list"
  run_events :: "audit_event list"
  run_report :: "report option"
  run_approval :: "approval_request option"
  run_shock :: bool
  run_error :: "string option"
  run_auths :: "authorization_proof list"

record verification_purchase =
  vp_runId :: string
  vp_requestId :: string
  vp_max :: int
  vp_report :: report
  vp_mandateExpires :: string

record verification_result =
  vr_receipt :: payment_receipt
  vr_checks :: "json option"

section \<open>The spending policy\<close>

record verdict =
  vd_allowed :: bool
  vd_code :: string
  vd_reason :: string

definition deny :: "string \<Rightarrow> string \<Rightarrow> verdict" where
  "deny c r = \<lparr>vd_allowed = False, vd_code = c, vd_reason = r\<rparr>"

definition assessQuote :: "web \<Rightarrow> int \<Rightarrow> mandate \<Rightarrow> provider \<Rightarrow> int \<Rightarrow> int \<Rightarrow> verdict" where
  "assessQuote w now m p units spent =
     (if \<not> safe_int units \<or> units < 1 \<or> 3 < units \<or> \<not> safe_int (pv_price p) \<or> pv_price p \<le> 0 \<or>
         \<not> safe_int spent \<or> spent < 0 \<or> \<not> safe_int (pv_price p * units + spent)
      then deny ''invalid'' ''Invalid quote units or amount.''
      else if (case parse_date w (md_expires m) of None \<Rightarrow> True | Some t \<Rightarrow> t \<le> now)
      then deny ''expired'' ''The spending mandate has expired.''
      else if pv_network p \<noteq> HEDERA_NETWORK \<or> pv_asset p \<noteq> ''HBAR''
      then deny ''network'' ''Only HBAR on Hedera testnet is approved.''
      else if pv_id p \<notin> set (md_providers m)
      then deny ''provider'' ''This provider is outside the approved mandate.''
      else if md_unitPrice m < pv_price p
      then deny ''price'' ''The provider quote exceeds the approved price per repository.''
      else if md_dataBudget m < spent + pv_price p * units
      then deny ''budget'' ''The purchase would exceed the remaining HBAR allowance.''
      else \<lparr>vd_allowed = True, vd_code = ''approved'',
            vd_reason = ''Provider, unit price, expiry and total budget are within mandate.''\<rparr>)"

lemma assess_allowed:
  "vd_allowed (assessQuote w now m p units spent) \<Longrightarrow>
    1 \<le> units \<and> 0 < pv_price p \<and> 0 \<le> spent \<and> pv_id p \<in> set (md_providers m) \<and> pv_price p \<le> md_unitPrice m \<and>
    spent + pv_price p * units \<le> md_dataBudget m"
  by (auto simp: assessQuote_def deny_def split: if_splits)

section \<open>Verification services\<close>

definition service_json :: "verification_service \<Rightarrow> json" where
  "service_json v = JObj
     ([(''id'', JStr (vs_id v)), (''revision'', JNum (num_of_int (vs_revision v))), (''name'', JStr (vs_name v)),
       (''recipient'', JStr (vs_recipient v)), (''priceAtomic'', JNum (num_of_int (vs_price v))),
       (''endpoint'', JStr (vs_endpoint v))] @
      (case vs_provider v of None \<Rightarrow> []
       | Some u \<Rightarrow> [(''execution'', JStr ''external-repo-verifier''), (''providerEndpoint'', JStr u)]))"

definition public_https :: "ext \<Rightarrow> string \<Rightarrow> bool" where
  "public_https x s = (case new_URL x s of None \<Rightarrow> False
     | Some u \<Rightarrow> protocol u = ''https:'' \<and> username u = [] \<and> password u = [] \<and> hash_part u = [])"

definition p_provider_endpoint :: "ext \<Rightarrow> json \<Rightarrow> string option" where
  "p_provider_endpoint x v = check (public_https x) (Option.bind (as_str v) (z_url x))"

text \<open>The two alternatives of the union: a hosted service, or one that names its own endpoint.\<close>

definition p_service_with :: "ext \<Rightarrow> string option \<Rightarrow> json \<Rightarrow> verification_service option" where
  "p_service_with x provider v =
     Option.bind (check is_uuid (fstr v ''id'')) (\<lambda>i.
     Option.bind (check (\<lambda>r. 0 < r) (fint v ''revision'')) (\<lambda>r.
     Option.bind (check (\<lambda>n. 1 \<le> length n \<and> length n \<le> 80) (map_option trim (fstr v ''name''))) (\<lambda>n.
     Option.bind (check (hex_n 40) (fstr v ''recipient'')) (\<lambda>a.
     Option.bind (check (\<lambda>p. 1000 \<le> p \<and> p \<le> 1000000) (fint v ''priceAtomic'')) (\<lambda>p.
     Option.bind (field v ''endpoint'' (\<lambda>e. Option.bind (as_str e) (z_url x))) (\<lambda>e.
       Some \<lparr>vs_id = i, vs_revision = r, vs_name = n, vs_recipient = a, vs_price = p, vs_endpoint = e,
             vs_provider = provider\<rparr>))))))"

definition hosted_keys :: "string list" where
  "hosted_keys = [''id'', ''revision'', ''name'', ''recipient'', ''priceAtomic'', ''endpoint'']"

definition p_verification_service :: "ext \<Rightarrow> json \<Rightarrow> verification_service option" where
  "p_verification_service x v =
     (if strict hosted_keys v then p_service_with x None v
      else if strict (hosted_keys @ [''execution'', ''providerEndpoint'']) v \<and>
              fstr v ''execution'' = Some ''external-repo-verifier''
      then Option.bind (field v ''providerEndpoint'' (p_provider_endpoint x)) (\<lambda>u. p_service_with x (Some u) v)
      else None)"

section \<open>Job requests\<close>

record mandate_input =
  mi_dataBudget :: "int option"
  mi_unitPrice :: "int option"
  mi_verificationBudget :: "int option"
  mi_providers :: "string list option"
  mi_expires :: "string option"
  mi_service :: "verification_service option"

record run_input =
  ri_repos :: "string list"
  ri_mandate :: mandate_input

definition no_mandate :: mandate_input where
  "no_mandate = \<lparr>mi_dataBudget = None, mi_unitPrice = None, mi_verificationBudget = None,
     mi_providers = None, mi_expires = None, mi_service = None\<rparr>"

definition p_spend :: "json \<Rightarrow> int option" where
  "p_spend v = check (\<lambda>n. 0 < n \<and> n \<le> 100000000) (as_int v)"

definition p_allowed :: "json \<Rightarrow> string list option" where
  "p_allowed v = check (\<lambda>ps. ps \<noteq> [] \<and> set ps \<subseteq> {''repo-standard'', ''repo-economy''})
     (if is_arr v then those (map as_str (elems v)) else None)"

definition p_mandate_input :: "ext \<Rightarrow> json \<Rightarrow> mandate_input option" where
  "p_mandate_input x v =
     (if \<not> is_obj v then None
      else Option.bind (fopt v ''dataBudgetAtomic'' p_spend) (\<lambda>d.
           Option.bind (fopt v ''maxDataUnitPriceAtomic'' p_spend) (\<lambda>u.
           Option.bind (fopt v ''verificationBudgetAtomic'' p_spend) (\<lambda>b.
           Option.bind (fopt v ''allowedProviders'' p_allowed) (\<lambda>a.
           Option.bind (fopt v ''expiresAt'' (\<lambda>e. check (\<lambda>s. iso_datetime False s \<noteq> None) (as_str e))) (\<lambda>e.
           Option.bind (fopt v ''verificationService'' (p_verification_service x)) (\<lambda>s.
             Some \<lparr>mi_dataBudget = d, mi_unitPrice = u, mi_verificationBudget = b, mi_providers = a, mi_expires = e,
                   mi_service = s\<rparr>)))))))"

definition is_run_repo :: "string \<Rightarrow> bool" where
  "is_run_repo s = (case split_on (CHR ''/'') s of
     [a, b] \<Rightarrow> a \<noteq> [] \<and> length a \<le> 100 \<and> list_all is_repo_char a \<and> b \<noteq> [] \<and> length b \<le> 100 \<and> list_all is_repo_char b
   | _ \<Rightarrow> False)"

definition p_run_repos :: "json \<Rightarrow> string list option" where
  "p_run_repos v = check (\<lambda>rs. 1 \<le> length rs \<and> length rs \<le> 3 \<and> distinct (map to_lower rs))
     (if is_arr v then those (map (\<lambda>r. check is_run_repo (map_option trim (as_str r))) (elems v)) else None)"

definition p_run_input :: "ext \<Rightarrow> json \<Rightarrow> run_input option" where
  "p_run_input x v =
     Option.bind (field v ''repos'' p_run_repos) (\<lambda>rs.
     if fstr v ''mode'' \<noteq> Some ''live'' then None
     else Option.bind (fopt v ''mandate'' (p_mandate_input x)) (\<lambda>m.
       Some \<lparr>ri_repos = rs, ri_mandate = (case m of None \<Rightarrow> no_mandate | Some i \<Rightarrow> i)\<rparr>))"

definition given :: "'a option \<Rightarrow> 'a \<Rightarrow> 'a" where
  "given v d = (case v of None \<Rightarrow> d | Some a \<Rightarrow> a)"

definition first_mandate :: "mandate_input \<Rightarrow> string \<Rightarrow> mandate" where
  "first_mandate i expires =
     \<lparr>md_dataBudget = given (mi_dataBudget i) 2000000, md_unitPrice = given (mi_unitPrice i) 150000,
      md_verificationBudget = given (mi_verificationBudget i) 100000,
      md_providers = given (mi_providers i) [''repo-standard'', ''repo-economy''],
      md_expires = given (mi_expires i) expires, md_version = 1, md_service = mi_service i\<rparr>"

definition mandate_json :: "mandate \<Rightarrow> json" where
  "mandate_json m = JObj
     ([(''dataBudgetAtomic'', JNum (num_of_int (md_dataBudget m))),
       (''maxDataUnitPriceAtomic'', JNum (num_of_int (md_unitPrice m))),
       (''verificationBudgetAtomic'', JNum (num_of_int (md_verificationBudget m))),
       (''allowedProviders'', JArr (map JStr (md_providers m))), (''expiresAt'', JStr (md_expires m))] @
      (case md_service m of None \<Rightarrow> [] | Some v \<Rightarrow> [(''verificationService'', service_json v)]) @
      [(''version'', JNum (num_of_int (md_version m)))])"

text \<open>An amount divided by a power of ten, as the messages print it.\<close>

definition scaled :: "int \<Rightarrow> int \<Rightarrow> string" where
  "scaled n digits = num_str (mk_dec n (- digits))"

section \<open>Report checks and service answers\<close>

definition check_json :: "string \<Rightarrow> bool \<Rightarrow> string \<Rightarrow> json" where
  "check_json label passed detail =
     JObj [(''label'', JStr label), (''passed'', JBool passed), (''detail'', JStr detail)]"

definition passes :: "json \<Rightarrow> bool" where
  "passes c = truthy (fld c ''passed'')"

definition interpolated :: "json option \<Rightarrow> string" where
  "interpolated v = (case v of None \<Rightarrow> ''undefined'' | Some j \<Rightarrow> js_String j)"

definition safe_count :: "json option \<Rightarrow> bool" where
  "safe_count v = (case v of Some (JNum n) \<Rightarrow> is_safe_integer n \<and> 0 \<le> num_int n | _ \<Rightarrow> False)"

definition checkReport :: "web \<Rightarrow> report \<Rightarrow> json list" where
  "checkReport w r =
     (let es = rp_evidence r in
      [check_json ''Source coverage'' (es \<noteq> [] \<and> distinct (map (\<lambda>e. fld e ''repo'') es))
         (nat_dec (length es) @ '' distinct repository records are attached.''),
       check_json ''Source attribution''
         (list_all (\<lambda>e. fstr e ''sourceUrl'' = Some (source_url (interpolated (fld e ''repo'')))) es)
         ''Every record points to its exact GitHub API source.'',
       check_json ''Valid observed counts''
         (list_all (\<lambda>e. safe_count (fld e ''stars'') \<and> safe_count (fld e ''forks'') \<and> safe_count (fld e ''openIssues'')) es)
         ''Stars, forks and issue counts are non-negative integers.'',
       check_json ''Observation timestamps''
         (list_all (\<lambda>e. parse_date_of w (fld e ''fetchedAt'') \<noteq> None \<and> parse_date_of w (fld e ''pushedAt'') \<noteq> None) es)
         ''Each observation includes fetch and last-push timestamps.''])"

definition p_run_provider :: "json \<Rightarrow> provider option" where
  "p_run_provider v =
     Option.bind (check (\<lambda>s. s \<in> {''repo-standard'', ''repo-economy''}) (fstr v ''id'')) (\<lambda>i.
     Option.bind (check (\<lambda>s. length s \<le> 100) (fstr v ''name'')) (\<lambda>n.
     Option.bind (check (\<lambda>s. length s \<le> 500) (fstr v ''description'')) (\<lambda>d.
     Option.bind (check (\<lambda>s. s = HEDERA_NETWORK) (fstr v ''network'')) (\<lambda>nw.
     Option.bind (check (\<lambda>s. s = ''HBAR'') (fstr v ''asset'')) (\<lambda>a.
     Option.bind (check (\<lambda>s. length s \<le> 40) (fstr v ''unit'')) (\<lambda>u.
     Option.bind (field v ''unitPriceAtomic'' p_spend) (\<lambda>p.
     Option.bind (fopt v ''endpoint'' as_str) (\<lambda>e.
       Some \<lparr>pv_id = i, pv_name = n, pv_description = d, pv_network = nw, pv_asset = a, pv_unit = u,
             pv_price = p, pv_endpoint = e\<rparr>))))))))"

definition p_providers :: "json \<Rightarrow> provider list option" where
  "p_providers v = check (\<lambda>ps. 1 \<le> length ps \<and> length ps \<le> 10)
     (if is_arr v then those (map p_run_provider (elems v)) else None)"

definition p_summary :: "json \<Rightarrow> string option" where
  "p_summary v = check (\<lambda>s. 1 \<le> length s \<and> length s \<le> 12000) (fstr v ''summary'')"

section \<open>The audit trail\<close>

definition event_json :: "audit_event \<Rightarrow> json" where
  "event_json e = JObj
     [(''id'', JStr (ev_id e)), (''timestamp'', JStr (ev_timestamp e)), (''actor'', JStr (actor_str (ev_actor e))),
      (''kind'', JStr (kind_str (ev_kind e))), (''title'', JStr (ev_title e)), (''detail'', JStr (ev_detail e)),
      (''previousHash'', JStr (ev_previous e))]"

definition eventHash :: "web \<Rightarrow> audit_event \<Rightarrow> string" where
  "eventHash w e = sha256 w (stringify (event_json e))"

definition last_hash :: "audit_event list \<Rightarrow> string" where
  "last_hash es = (if es = [] then ''genesis'' else ev_hash (last es))"

definition appendAudit ::
    "web \<Rightarrow> string \<Rightarrow> string \<Rightarrow> audit_event list \<Rightarrow> audit_actor \<Rightarrow> audit_kind \<Rightarrow> string \<Rightarrow> string \<Rightarrow> audit_event list" where
  "appendAudit w uuid stamp es actor kind title detail =
     (let e = \<lparr>ev_id = uuid, ev_timestamp = stamp, ev_actor = actor, ev_kind = kind, ev_title = title,
                ev_detail = detail, ev_previous = last_hash es, ev_hash = []\<rparr>
      in es @ [e\<lparr>ev_hash := eventHash w e\<rparr>])"

fun verify_from :: "web \<Rightarrow> string \<Rightarrow> audit_event list \<Rightarrow> bool" where
  "verify_from w previous [] = True"
| "verify_from w previous (e # es) =
     (ev_previous e = previous \<and> eventHash w e = ev_hash e \<and> verify_from w (ev_hash e) es)"

definition verifyAudit :: "web \<Rightarrow> audit_event list \<Rightarrow> bool" where
  "verifyAudit w es = verify_from w ''genesis'' es"

lemma eventHash_hash [simp]: "eventHash w (e\<lparr>ev_hash := h\<rparr>) = eventHash w e"
  by (simp add: eventHash_def event_json_def)

lemma last_hash_simps [simp]: "last_hash [] = ''genesis''" "last_hash (es @ [e]) = ev_hash e"
  by (simp_all add: last_hash_def)

lemma verify_from_snoc:
  "verify_from w p (es @ [e]) \<longleftrightarrow>
    verify_from w p es \<and> ev_previous e = (if es = [] then p else ev_hash (last es)) \<and> eventHash w e = ev_hash e"
  by (induction es arbitrary: p) auto

lemma verifyAudit_snoc:
  "verifyAudit w (es @ [e]) \<longleftrightarrow> verifyAudit w es \<and> ev_previous e = last_hash es \<and> eventHash w e = ev_hash e"
  by (simp add: verifyAudit_def verify_from_snoc last_hash_def)

lemma verifyAudit_Nil [simp]: "verifyAudit w []"
  by (simp add: verifyAudit_def)

lemma appendAudit_verifies [simp]: "verifyAudit w (appendAudit w u s es a k t d) \<longleftrightarrow> verifyAudit w es"
  by (simp add: appendAudit_def verifyAudit_snoc Let_def eventHash_def event_json_def)

text \<open>An event is what its printed form says, apart from the hash it carries.\<close>

lemma actor_str_inject [simp]: "actor_str a = actor_str b \<longleftrightarrow> a = b"
  by (cases a; cases b) simp_all

lemma kind_str_inject [simp]: "kind_str a = kind_str b \<longleftrightarrow> a = b"
  by (cases a; cases b) simp_all

lemma event_json_norm: "js_norm (event_json e) = event_json e"
  by (simp add: event_json_def js_order_def is_index_def numeral_str_def pos_numeral_def is_digit_def
      char_between_def code_def)

lemma wf_event_json: "wf_json rd (event_json e)"
  by (simp add: event_json_def)

lemma event_text_inj: "stringify (event_json e) = stringify (event_json f) \<Longrightarrow> event_json e = event_json f"
  using stringify_inj [OF wf_event_json wf_event_json, of e f] by (simp add: event_json_norm)

lemma event_json_eq: "event_json e = event_json f \<Longrightarrow> ev_hash e = ev_hash f \<Longrightarrow> e = f"
  by (cases e; cases f) (simp add: event_json_def)

lemma appendAudit_last: "last_hash (appendAudit w u s es a k t d) = eventHash w (last (appendAudit w u s es a k t d))"
  by (simp add: appendAudit_def Let_def eventHash_def event_json_def)

lemma genesis_not_hex: "\<not> list_all is_lower_hex ''genesis''"
  by (simp add: is_lower_hex_def is_digit_def char_between_def code_def)

definition audit_texts :: "audit_event list \<Rightarrow> string list" where
  "audit_texts es = map (\<lambda>e. stringify (event_json e)) es"

text \<open>Two texts, one of each trail, that differ and have the same hash.\<close>

definition audit_collision :: "web \<Rightarrow> audit_event list \<Rightarrow> audit_event list \<Rightarrow> bool" where
  "audit_collision w es fs = list_ex (\<lambda>s. list_ex (\<lambda>t. s \<noteq> t \<and> sha256 w s = sha256 w t) (audit_texts fs)) (audit_texts es)"

lemma genesis_no_hash: "hex_hash w \<Longrightarrow> eventHash w e = ev_hash e \<Longrightarrow> ev_hash e \<noteq> ''genesis''"
  using genesis_not_hex unfolding hex_hash_def eventHash_def by metis

lemma same_trail:
  assumes "hex_hash w" "verifyAudit w es" "verifyAudit w fs" "last_hash es = last_hash fs" "\<not> audit_collision w es fs"
  shows "es = fs"
  using assms(2-)
proof (induction es arbitrary: fs rule: rev_induct)
  case Nil
  then show ?case
    by (cases fs rule: rev_cases) (auto simp: verifyAudit_snoc dest: genesis_no_hash [OF assms(1)])
next
  case (snoc e es)
  show ?case
  proof (cases fs rule: rev_cases)
    case Nil
    then show ?thesis using snoc.prems genesis_no_hash [OF assms(1), of e] by (auto simp: verifyAudit_snoc)
  next
    case last: (snoc gs f)
    have hashes: "eventHash w e = ev_hash e" "eventHash w f = ev_hash f" "ev_hash e = ev_hash f"
      using snoc.prems by (simp_all add: last verifyAudit_snoc)
    then have "sha256 w (stringify (event_json e)) = sha256 w (stringify (event_json f))"
      by (simp only: eventHash_def)
    then have "stringify (event_json e) = stringify (event_json f)"
      using snoc.prems(4) by (auto simp: last audit_collision_def audit_texts_def list_ex_iff)
    then have "e = f" by (rule event_json_eq [OF event_text_inj hashes(3)])
    moreover have "es = gs"
      using snoc.prems \<open>e = f\<close> by (intro snoc.IH) (auto simp: last verifyAudit_snoc audit_collision_def audit_texts_def list_ex_iff)
    ultimately show ?thesis by (simp add: last)
  qed
qed

text \<open>
  C36. The audit trail commits to its history: two different trails that verify and end in the
  same hash exhibit a collision of the hash, among the texts of their own events. So whoever changes,
  drops, inserts or reorders events of a trail and keeps its last hash has to find one.
\<close>

theorem audit_trail_binds:
  assumes "hex_hash w" "verifyAudit w es" "verifyAudit w fs" "last_hash es = last_hash fs" "es \<noteq> fs"
  shows "list_ex (\<lambda>s. list_ex (\<lambda>t. s \<noteq> t \<and> sha256 w s = sha256 w t) (audit_texts fs)) (audit_texts es)"
  using same_trail [OF assms(1-4)] assms(5) unfolding audit_collision_def by blast

definition sample_trail :: "web \<Rightarrow> string \<Rightarrow> audit_event list" where
  "sample_trail w detail = appendAudit w ''b'' ''2026-01-01T00:00:01.000Z''
     (appendAudit w ''a'' ''2026-01-01T00:00:00.000Z'' [] Broker InfoEvent ''Payment authorized'' detail)
     Broker SuccessEvent ''Hedera payment settled'' ''0.0.1''"

text \<open>A hash of 64 digits that only depends on the length: a forged trail shows its collision.\<close>

definition weak_web :: web where
  "weak_web = \<lparr>sha256 = (\<lambda>s. replicate 64 (if even (length s) then CHR ''0'' else CHR ''1'')), hmac = (\<lambda>_ _. []),
     legacy_date = (\<lambda>_. None), read_number = (\<lambda>n. n), add_double = (\<lambda>_ _. NaN), parse_url = (\<lambda>_. None),
     resolve_url = (\<lambda>_ _. None), set_pathname = (\<lambda>u p. u)\<rparr>"

lemma audit_trail_binds_witness:
  "list_ex (\<lambda>s. list_ex (\<lambda>t. s \<noteq> t \<and> sha256 weak_web s = sha256 weak_web t) (audit_texts (sample_trail weak_web ''9 tinybar'')))
     (audit_texts (sample_trail weak_web ''1 tinybar''))"
proof (rule audit_trail_binds)
  show "hex_hash weak_web"
    by (simp add: hex_hash_def weak_web_def is_lower_hex_def is_digit_def char_between_def code_def list_all_iff)
  show "last_hash (sample_trail weak_web ''1 tinybar'') = last_hash (sample_trail weak_web ''9 tinybar'')" by code_simp
  show "sample_trail weak_web ''1 tinybar'' \<noteq> sample_trail weak_web ''9 tinybar''"
    by (simp add: sample_trail_def appendAudit_def Let_def)
qed (simp_all add: sample_trail_def)

end
