(* ===== verification/Engine.thy ===== *)
theory Engine
  imports Workspace Machine
begin

text \<open>
  Workspace runs, \<open>src/src/lib/engine.ts\<close>: creating a run, advancing it by one stage through a
  gateway that buys data, writes the report and buys its verification, approving a raised mandate
  with the controller's signature, pausing. A run is a value; an operation is a program of
  \<open>Machine\<close> that returns the changed run. A stage that fails returns the run as far as it was
  changed with the error, which \<open>advanceRun\<close> turns into a failed run.

  The gateway, the clock, random identifiers, the environment and \<open>verifyMessage\<close> are the
  functions of \<open>engine_ext\<close>. A gateway call is an effect a process can die in; reading the
  clock or drawing an identifier is not. A purchase leaves its request in the machine's trace.
\<close>

section \<open>The boundary\<close>

record 'c engine_ext =
  en_now :: "'c \<Rightarrow> int \<times> 'c"
  en_uuid :: "'c \<Rightarrow> string \<times> 'c"
  en_env :: "string \<Rightarrow> string option"
  en_verifies :: "string \<Rightarrow> string \<Rightarrow> string \<Rightarrow> bool res"
  en_zodText :: string
  gw_discover :: "'c \<Rightarrow> provider list res \<times> 'c"
  gw_purchaseData :: "data_purchase \<Rightarrow> 'c \<Rightarrow> data_result res \<times> 'c"
  gw_generateReport :: "json list \<Rightarrow> string \<Rightarrow> 'c \<Rightarrow> string res \<times> 'c"
  gw_verify :: "verification_purchase \<Rightarrow> 'c \<Rightarrow> verification_result res \<times> 'c"

definition askP :: "('c \<Rightarrow> 'a \<times> 'c) \<Rightarrow> ('s, 'c, 'a) prog" where
  "askP g m = (case g (outside m) of (a, u) \<Rightarrow> (Ret a, m\<lparr>outside := u\<rparr>))"

text \<open>\<open>toISOString\<close> of a clock reading or of one hour or day later, which is always in range.\<close>

definition stamp :: "int \<Rightarrow> string" where
  "stamp t = (case to_iso t of Inr s \<Rightarrow> s | Inl _ \<Rightarrow> [])"

fun error_text :: "'c engine_ext \<Rightarrow> js_error \<Rightarrow> string" where
  "error_text y (Err t) = t"
| "error_text y (Platform _ _ t) = t"
| "error_text y (Thrown t) = t"
| "error_text y Zod = en_zodText y"

section \<open>Runs\<close>

definition log_run ::
    "web \<Rightarrow> 'c engine_ext \<Rightarrow> run \<Rightarrow> audit_actor \<Rightarrow> audit_kind \<Rightarrow> string \<Rightarrow> string \<Rightarrow> ('s, 'c, run) prog" where
  "log_run w y r actor kind title detail =
     bindP (askP (en_uuid y)) (\<lambda>u. bindP (askP (en_now y)) (\<lambda>t. bindP (askP (en_now y)) (\<lambda>t'.
       retP (r\<lparr>run_events := appendAudit w u (stamp t) (run_events r) actor kind title detail, run_updated := stamp t'\<rparr>))))"

definition repo_name :: "string \<Rightarrow> string" where
  "repo_name s = (case split_on (CHR ''/'') s of _ # b # _ \<Rightarrow> b | _ \<Rightarrow> ''undefined'')"

definition fresh_run :: "run_input \<Rightarrow> string \<Rightarrow> string \<Rightarrow> mandate \<Rightarrow> run" where
  "fresh_run i uuid now m =
     \<lparr>run_id = uuid, run_mode = Live, run_title = ''Compare '' @ join '', '' (map repo_name (ri_repos i)),
      run_repos = ri_repos i, run_status = StReady, run_stage = AtMandate, run_created = now, run_updated = now,
      run_mandate = m, run_providers = [], run_selected = None, run_dataSpent = 0, run_verificationSpent = 0,
      run_evidence = [], run_receipts = [], run_events = [], run_report = None, run_approval = None, run_shock = False,
      run_error = None, run_auths = []\<rparr>"

definition createRun :: "ext \<Rightarrow> web \<Rightarrow> 'c engine_ext \<Rightarrow> json \<Rightarrow> ('s, 'c, run) prog" where
  "createRun x w y raw =
     bindP (liftP (of_opt Zod (p_run_input x raw))) (\<lambda>i.
     bindP (askP (en_now y)) (\<lambda>now. bindP (askP (en_now y)) (\<lambda>t1.
     let m = first_mandate (ri_mandate i) (stamp (t1 + 3600000)) in
     bindP (askP (en_now y)) (\<lambda>t2. bindP (askP (en_now y)) (\<lambda>t3.
     bindP (needP (case parse_date w (md_expires m) of None \<Rightarrow> True | Some t \<Rightarrow> t2 < t \<and> t \<le> t3 + 86400000)
       (Err ''Mandate expiry must be within the next 24 hours.'')) (\<lambda>_.
     bindP (askP (en_uuid y)) (\<lambda>u.
       log_run w y (fresh_run i u (stamp now) m) Supervisor InfoEvent ''Mandate created''
         (''Up to '' @ scaled (md_dataBudget m) 8 @ '' HBAR for evidence and '' @ scaled (md_verificationBudget m) 6 @
          '' USDC for verification. Expires '' @ md_expires m @ ''.''))))))))"

definition requireLiveRun :: "run \<Rightarrow> ('s, 'c, unit) prog" where
  "requireLiveRun r = needP (run_mode r = Live)
     (Err ''Historical rehearsal records are read-only. Create a live workspace job.'')"

section \<open>Approval requests\<close>

definition approval_message ::
    "string \<Rightarrow> run_mode \<Rightarrow> string \<Rightarrow> string \<Rightarrow> string \<Rightarrow> int \<Rightarrow> mandate \<Rightarrow> string" where
  "approval_message run mode signer nonce expires version proposed = join [char_of (10::nat)]
     ([''Obolos mandate authorization'',
       ''Purpose: approve spending limits only; this does not sign a token transfer.'',
       ''Run: '' @ run, ''Mode: '' @ mode_str mode] @
      (if mode = Live \<and> signer = ''speculos''
       then [''Signer: Speculos emulator (development only; not physical hardware)''] else []) @
      [''Nonce: '' @ nonce, ''Approval expires: '' @ expires, ''Previous mandate version: '' @ int_dec version,
       ''New mandate: '' @ stringify (mandate_json proposed)])"

definition proposed_mandate :: "run \<Rightarrow> provider \<Rightarrow> string \<Rightarrow> mandate" where
  "proposed_mandate r p expires = (let m = run_mandate r in
     m\<lparr>md_version := md_version m + 1, md_unitPrice := max (md_unitPrice m) (pv_price p),
       md_dataBudget := max (md_dataBudget m) (run_dataSpent r + pv_price p * int (length (run_repos r))),
       md_expires := expires\<rparr>)"

definition signer_mode :: "'c engine_ext \<Rightarrow> string" where
  "signer_mode y = (if en_env y ''LEDGER_SIGNER_MODE'' = Some ''speculos'' then ''speculos'' else ''usb'')"

definition requestApproval :: "web \<Rightarrow> 'c engine_ext \<Rightarrow> run \<Rightarrow> provider \<Rightarrow> string \<Rightarrow> ('s, 'c, run) prog" where
  "requestApproval w y r p reason =
     bindP (askP (en_now y)) (\<lambda>t. bindP (askP (en_uuid y)) (\<lambda>nonce. bindP (askP (en_now y)) (\<lambda>t'.
     let proposed = proposed_mandate r p (stamp (t + 3600000)); expires = stamp (t' + 300000);
         a = \<lparr>ap_signerMode = (if run_mode r = Live then Some (signer_mode y) else None), ap_nonce = nonce,
              ap_message = approval_message (run_id r) (run_mode r) (signer_mode y) nonce expires
                (md_version (run_mandate r)) proposed,
              ap_expires = expires, ap_proposed = proposed, ap_reason = reason\<rparr>
     in log_run w y (r\<lparr>run_approval := Some a, run_status := StAwaiting\<rparr>) Planner BlockedEvent
          ''Human approval required'' reason)))"

section \<open>Stages\<close>

definition validateReceipt :: "run \<Rightarrow> payment_receipt \<Rightarrow> string \<Rightarrow> string \<Rightarrow> int \<Rightarrow> unit res" where
  "validateReceipt r c requestId network amount =
     bindR (need (pr_mode c = mode_str (run_mode r) \<and> pr_requestId c = requestId \<and> pr_network c = network \<and>
         pr_asset c = (if network = ''hedera:testnet'' then ''HBAR'' else ''USDC'') \<and> pr_amount c = amount)
       (Err ''Receipt does not match the authorized payment.'')) (\<lambda>_.
     need (run_mode r \<noteq> Live \<or> pr_status c = ''settled'' \<and> pr_transaction c \<notin> {None, Some []})
       (Err ''No confirmed live settlement was returned.''))"

text \<open>A stage's end: the run so far, and the error that stopped it.\<close>

definition go :: "run \<Rightarrow> ('s, 'c, run \<times> js_error option) prog" where
  "go r = retP (r, None)"

definition stop :: "run \<Rightarrow> js_error \<Rightarrow> ('s, 'c, run \<times> js_error option) prog" where
  "stop r e = retP (r, Some e)"

definition attempt ::
    "run \<Rightarrow> ('s, 'c, 'a) prog \<Rightarrow> ('a \<Rightarrow> ('s, 'c, run \<times> js_error option) prog) \<Rightarrow> ('s, 'c, run \<times> js_error option) prog" where
  "attempt r p k = bindP (catchP (bindP p (\<lambda>a. retP (Inr a))) (\<lambda>e. retP (Inl e)))
     (\<lambda>s. case s of Inl e \<Rightarrow> stop r e | Inr a \<Rightarrow> k a)"

definition eligible :: "run \<Rightarrow> provider list" where
  "eligible r = sort_key pv_price (filter (\<lambda>p. pv_id p \<in> set (md_providers (run_mandate r))) (run_providers r))"

definition assess :: "web \<Rightarrow> 'c engine_ext \<Rightarrow> run \<Rightarrow> provider \<Rightarrow> ('s, 'c, verdict) prog" where
  "assess w y r p = bindP (askP (en_now y)) (\<lambda>t.
     retP (assessQuote w t (run_mandate r) p (int (length (run_repos r))) (run_dataSpent r)))"

primrec first_allowed :: "web \<Rightarrow> 'c engine_ext \<Rightarrow> run \<Rightarrow> provider list \<Rightarrow> ('s, 'c, provider option) prog" where
  "first_allowed w y r [] = retP None"
| "first_allowed w y r (p # ps) =
     bindP (assess w y r p) (\<lambda>v. if vd_allowed v then retP (Some p) else first_allowed w y r ps)"

definition accept_mandate :: "web \<Rightarrow> 'c engine_ext \<Rightarrow> run \<Rightarrow> ('s, 'c, run \<times> js_error option) prog" where
  "accept_mandate w y r =
     bindP (log_run w y r Broker SuccessEvent ''Mandate accepted''
       ''Only named services can receive requests. Wallet and provider credentials remain outside the agent.'')
       (\<lambda>r. go (r\<lparr>run_stage := AtDiscovery\<rparr>))"

definition discover_services :: "web \<Rightarrow> 'c engine_ext \<Rightarrow> run \<Rightarrow> ('s, 'c, run \<times> js_error option) prog" where
  "discover_services w y r =
     attempt r (callP (gw_discover y)) (\<lambda>ps.
     let r = r\<lparr>run_providers := ps\<rparr> in
     case eligible r of
       [] \<Rightarrow> stop r (Err ''No discoverable provider is on the allowlist.'')
     | p # qs \<Rightarrow>
         bindP (log_run w y (r\<lparr>run_selected := Some (pv_id p), run_stage := AtPurchase\<rparr>) Planner SuccessEvent
           ''Services discovered''
           (''Selected '' @ pv_name p @ '' at '' @ scaled (pv_price p) 8 @ '' HBAR per repository from '' @
            nat_dec (length (p # qs)) @ '' approved quotes.'')) go)"

definition evidence_repo :: "run \<Rightarrow> json \<Rightarrow> string res" where
  "evidence_repo r e = (if e = JNull then Inl (Thrown ''TypeError'')
     else of_opt (Err ''Purchased evidence does not cover the requested repositories.'')
       (check (\<lambda>s. s \<in> set (run_repos r)) (fstr e ''repo'')))"

definition covers_repos :: "run \<Rightarrow> json list \<Rightarrow> unit res" where
  "covers_repos r es =
     (let bad = Err ''Purchased evidence does not cover the requested repositories.''
      in bindR (need (length es = length (run_repos r)) bad) (\<lambda>_.
         bindR (mapR (evidence_repo r) es) (\<lambda>names. need (length (remdups names) = length (run_repos r)) bad)))"

definition data_request :: "run \<Rightarrow> string" where
  "data_request r = run_id r @ '':data''"

definition verify_request :: "run \<Rightarrow> string" where
  "verify_request r = run_id r @ '':verify''"

definition settle_data :: "web \<Rightarrow> 'c engine_ext \<Rightarrow> run \<Rightarrow> int \<Rightarrow> data_result \<Rightarrow> ('s, 'c, run \<times> js_error option) prog" where
  "settle_data w y r amount res =
     attempt r (liftP (bindR (validateReceipt r (dr_receipt res) (data_request r) ''hedera:testnet'' amount) (\<lambda>_.
       covers_repos r (dr_evidence res)))) (\<lambda>_.
     bindP (log_run w y (r\<lparr>run_evidence := dr_evidence res, run_receipts := run_receipts r @ [dr_receipt res],
         run_dataSpent := run_dataSpent r + amount, run_stage := AtReport\<rparr>) Broker SuccessEvent ''Hedera payment settled''
       (scaled amount 8 @ '' HBAR purchased '' @ nat_dec (length (dr_evidence res)) @ '' source records. '' @
        given (pr_transaction (dr_receipt res)) ''undefined'')) go)"

definition buy_data :: "web \<Rightarrow> 'c engine_ext \<Rightarrow> run \<Rightarrow> provider \<Rightarrow> ('s, 'c, run \<times> js_error option) prog" where
  "buy_data w y r p =
     bindP (if run_selected r \<noteq> Some (pv_id p)
       then log_run w y r Planner WarningEvent ''Provider rerouted''
         (''Selected '' @ pv_name p @ '' because its current quote fits the mandate.'')
       else retP r) (\<lambda>r.
     let r = r\<lparr>run_selected := Some (pv_id p)\<rparr>; amount = pv_price p * int (length (run_repos r)) in
     bindP (log_run w y r Broker InfoEvent ''Payment authorized''
       (''Request '' @ data_request r @ '': '' @ int_dec amount @ '' tinybar for '' @ nat_dec (length (run_repos r)) @
        '' repository units. A failed or uncertain transfer is never automatically repeated.'')) (\<lambda>r.
     bindP (noteSubmit (data_request r) \<lparr>oi_kind = ''data'', oi_args = [int_dec amount]\<rparr>) (\<lambda>_.
     attempt r (callP (gw_purchaseData y \<lparr>dp_runId = run_id r, dp_requestId = data_request r,
       dp_repos = run_repos r, dp_provider = pv_id p, dp_max = amount, dp_unitPrice = pv_price p,
       dp_mandateExpires = md_expires (run_mandate r), dp_offerToken = None\<rparr>)) (settle_data w y r amount))))"

definition choose_and_buy :: "web \<Rightarrow> 'c engine_ext \<Rightarrow> run \<Rightarrow> ('s, 'c, run \<times> js_error option) prog" where
  "choose_and_buy w y r =
     bindP (first_allowed w y r (eligible r)) (\<lambda>approved.
     case approved of
       Some p \<Rightarrow> buy_data w y r p
     | None \<Rightarrow> (case eligible r of
           [] \<Rightarrow> stop r (Err ''No approved provider is available.'')
         | p # _ \<Rightarrow> bindP (assess w y r p) (\<lambda>v. bindP (requestApproval w y r p (vd_reason v)) go)))"

definition purchase_data :: "web \<Rightarrow> 'c engine_ext \<Rightarrow> run \<Rightarrow> ('s, 'c, run \<times> js_error option) prog" where
  "purchase_data w y r =
     (if run_mode r = Live
      then attempt r (callP (gw_discover y)) (\<lambda>ps. choose_and_buy w y (r\<lparr>run_providers := ps\<rparr>))
      else choose_and_buy w y r)"

definition draft_report :: "web \<Rightarrow> 'c engine_ext \<Rightarrow> run \<Rightarrow> ('s, 'c, run \<times> js_error option) prog" where
  "draft_report w y r =
     attempt r (callP (gw_generateReport y (run_evidence r) (run_id r))) (\<lambda>summary.
     bindP (askP (en_now y)) (\<lambda>t.
     bindP (log_run w y (r\<lparr>run_report := Some \<lparr>rp_title = run_title r, rp_summary = summary,
         rp_recommendation = ''Use these observations as a starting point. Validate framework suitability against your project requirements; popularity is not a quality guarantee.'',
         rp_evidence = run_evidence r, rp_generatedBy = ''model'', rp_created = stamp t, rp_checks = [], rp_verified = False\<rparr>,
         run_stage := AtVerification\<rparr>) Worker SuccessEvent ''Report drafted''
       (''Model-generated analysis grounded in '' @ nat_dec (length (run_evidence r)) @
        '' purchased records. Source-integrity and structural checks are still pending.'')) go))"

fun all_pass :: "json list \<Rightarrow> bool res" where
  "all_pass [] = Inr True"
| "all_pass (c # cs) = (if c = JNull then Inl (Thrown ''TypeError'') else if passes c then all_pass cs else Inr False)"

definition close_report :: "web \<Rightarrow> 'c engine_ext \<Rightarrow> run \<Rightarrow> report \<Rightarrow> json list \<Rightarrow> ('s, 'c, run \<times> js_error option) prog" where
  "close_report w y r rep checks =
     (let rep = rep\<lparr>rp_checks := checkReport w rep @ checks\<rparr>; r = r\<lparr>run_report := Some rep\<rparr> in
      attempt r (liftP (all_pass (rp_checks rep))) (\<lambda>ok.
      let r = r\<lparr>run_report := Some (rep\<lparr>rp_verified := ok\<rparr>)\<rparr> in
      if \<not> ok then stop r (Err ''The paid verification found invalid evidence. Review the recorded receipt and failed checks.'')
      else bindP (log_run w y (r\<lparr>run_stage := AtComplete, run_status := StCompleted\<rparr>) Verifier SuccessEvent
             (''Evidence checked '' @ [char_of (183::nat)] @ '' job complete'')
             (nat_dec (length (rp_checks rep)) @ '' structural/source checks passed. Narrative judgment is not independently certified. Arc USDC settlement confirmed.'')) go))"

definition settle_verification ::
    "web \<Rightarrow> 'c engine_ext \<Rightarrow> run \<Rightarrow> report \<Rightarrow> int \<Rightarrow> verification_result \<Rightarrow> ('s, 'c, run \<times> js_error option) prog" where
  "settle_verification w y r rep amount res =
     attempt r (liftP (validateReceipt r (vr_receipt res) (verify_request r) ''arc:testnet'' amount)) (\<lambda>_.
     let r = r\<lparr>run_receipts := run_receipts r @ [vr_receipt res], run_verificationSpent := run_verificationSpent r + amount\<rparr> in
     case vr_checks res of
       Some (JArr (c # cs)) \<Rightarrow> close_report w y r rep (c # cs)
     | v \<Rightarrow> if run_mode r = Live then stop r (Err ''The paid verifier did not return its evidence checks.'')
            else close_report w y r rep (case v of Some j \<Rightarrow> elems j | None \<Rightarrow> []))"

definition verify_report :: "web \<Rightarrow> 'c engine_ext \<Rightarrow> run \<Rightarrow> ('s, 'c, run \<times> js_error option) prog" where
  "verify_report w y r =
     (let amount = (case md_service (run_mandate r) of Some v \<Rightarrow> vs_price v | None \<Rightarrow> 50000) in
      if md_verificationBudget (run_mandate r) < run_verificationSpent r + amount
      then stop r (Err ''Verification would exceed the USDC allowance. No payment was made.'')
      else case run_report r of
        None \<Rightarrow> stop r (Err ''No report is ready to verify.'')
      | Some rep \<Rightarrow>
          bindP (noteSubmit (verify_request r) \<lparr>oi_kind = ''verify'', oi_args = [int_dec amount]\<rparr>) (\<lambda>_.
          attempt r (callP (gw_verify y \<lparr>vp_runId = run_id r, vp_requestId = verify_request r, vp_max = amount,
            vp_report = rep, vp_mandateExpires = md_expires (run_mandate r)\<rparr>)) (settle_verification w y r rep amount)))"

definition advance_stage :: "web \<Rightarrow> 'c engine_ext \<Rightarrow> run \<Rightarrow> ('s, 'c, run \<times> js_error option) prog" where
  "advance_stage w y r = (case run_stage r of
       AtMandate \<Rightarrow> accept_mandate w y r
     | AtDiscovery \<Rightarrow> discover_services w y r
     | AtPurchase \<Rightarrow> purchase_data w y r
     | AtReport \<Rightarrow> draft_report w y r
     | AtVerification \<Rightarrow> verify_report w y r
     | AtComplete \<Rightarrow> go r)"

definition fail_run :: "web \<Rightarrow> 'c engine_ext \<Rightarrow> run \<Rightarrow> js_error \<Rightarrow> ('s, 'c, run) prog" where
  "fail_run w y r e = log_run w y (r\<lparr>run_status := StFailed, run_error := Some (error_text y e)\<rparr>) Broker BlockedEvent
     ''Run stopped'' (error_text y e)"

definition advanceRun :: "web \<Rightarrow> 'c engine_ext \<Rightarrow> run \<Rightarrow> ('s, 'c, run) prog" where
  "advanceRun w y r =
     bindP (requireLiveRun r) (\<lambda>_.
     if run_status r \<in> {StCompleted, StFailed, StPaused, StAwaiting} then retP r
     else let r = r\<lparr>run_status := StRunning\<rparr> in
       bindP (askP (en_now y)) (\<lambda>now.
       bindP (if (case parse_date w (md_expires (run_mandate r)) of None \<Rightarrow> False | Some t \<Rightarrow> t \<le> now)
              then stop r (Err ''Mandate expired. Start a new job with a fresh allowance.'')
              else advance_stage w y r) (\<lambda>(r, e).
       case e of None \<Rightarrow> retP r | Some e \<Rightarrow> fail_run w y r e)))"

section \<open>The owner's operations\<close>

definition applyShock :: "web \<Rightarrow> 'c engine_ext \<Rightarrow> run \<Rightarrow> provider list option \<Rightarrow> ('s, 'c, run) prog" where
  "applyShock w y r quotes =
     bindP (requireLiveRun r) (\<lambda>_.
     bindP (needP (run_stage r \<in> {AtMandate, AtDiscovery, AtPurchase} \<and> run_status r \<notin> {StCompleted, StFailed, StAwaiting})
       (Err ''Apply the price change before the data purchase.'')) (\<lambda>_.
     bindP (needP (run_mode r \<noteq> Live \<or> quotes \<notin> {None, Some []})
       (Err ''Live price changes require refreshed provider quotes.'')) (\<lambda>_.
       let ps = given quotes [] in
       log_run w y (r\<lparr>run_providers := ps, run_shock := True\<rparr>) Supervisor WarningEvent ''Provider price increased''
         (''Quotes increased to '' @ join '' and '' (map (\<lambda>p. scaled (pv_price p) 8 @ '' HBAR/repository'') ps) @
          ''. The planner must evaluate the new prices before paying.''))))"

definition check_signature :: "'c engine_ext \<Rightarrow> approval_request \<Rightarrow> string option \<Rightarrow> unit res" where
  "check_signature y a signature =
     (let mode = (case en_env y ''LEDGER_SIGNER_MODE'' of Some (c # cs) \<Rightarrow> c # cs | _ \<Rightarrow> ''usb'');
          asked = (case ap_signerMode a of Some (c # cs) \<Rightarrow> c # cs | _ \<Rightarrow> ''usb'');
          bad = Err ''A valid Ledger controller signature is required.'' in
      bindR (need (mode \<in> {''usb'', ''speculos''} \<and> asked = mode)
        (Err ''Controller signer mode changed; request a new approval.'')) (\<lambda>_.
      bindR (of_opt bad (check (hex_n 40) (en_env y ''LEDGER_CONTROLLER_ADDRESS''))) (\<lambda>addr.
      bindR (of_opt bad (check (hex_n 130) signature)) (\<lambda>s.
      bindR (en_verifies y addr (ap_message a) s) (\<lambda>ok.
        need ok (Err ''Signature does not match the configured Ledger controller.''))))))"

definition authorization :: "'c engine_ext \<Rightarrow> run \<Rightarrow> approval_request \<Rightarrow> string option \<Rightarrow> string \<Rightarrow> authorization_proof" where
  "authorization y r a signature now =
     \<lparr>au_mode = run_mode r, au_nonce = ap_nonce a, au_message = ap_message a, au_verifiedAt = now,
      au_previous = run_mandate r, au_approved = ap_proposed a,
      au_signer = (if run_mode r = Live then en_env y ''LEDGER_CONTROLLER_ADDRESS'' else None),
      au_signature = (if run_mode r = Live then signature else None),
      au_signerMode = (if run_mode r = Live
        then Some (case ap_signerMode a of Some (c # cs) \<Rightarrow> c # cs | _ \<Rightarrow> ''usb'') else None)\<rparr>"

definition approveRun :: "web \<Rightarrow> 'c engine_ext \<Rightarrow> run \<Rightarrow> string option \<Rightarrow> ('s, 'c, run) prog" where
  "approveRun w y r signature =
     bindP (requireLiveRun r) (\<lambda>_.
     bindP (liftP (of_opt (Err ''There is no pending approval.'')
       (if run_status r = StAwaiting then run_approval r else None))) (\<lambda>a.
     bindP (askP (en_now y)) (\<lambda>now.
     bindP (needP (case parse_date w (ap_expires a) of None \<Rightarrow> True | Some t \<Rightarrow> now < t)
       (Err ''Approval expired. Reject this request and start a new job.'')) (\<lambda>_.
     bindP (needP (md_version (ap_proposed a) = md_version (run_mandate r) + 1)
       (Err ''The approval does not match the current mandate.'')) (\<lambda>_.
     bindP (if run_mode r = Live then liftP (check_signature y a signature) else retP ()) (\<lambda>_.
     bindP (askP (en_now y)) (\<lambda>t.
       log_run w y (r\<lparr>run_auths := run_auths r @ [authorization y r a signature (stamp t)],
           run_mandate := ap_proposed a, run_approval := None, run_status := StRunning\<rparr>)
         Supervisor SuccessEvent ''Controller signature verified''
         (''Mandate version '' @ int_dec (md_version (ap_proposed a)) @ ''; nonce '' @ ap_nonce a @ '' consumed. '' @
          (if ap_signerMode a = Some ''speculos''
           then ''Speculos emulator signature verified; not physical hardware evidence.''
           else ''Hardware provenance depends on provisioning the pinned address from the Ledger device.'')))))))))"

definition pauseRun :: "web \<Rightarrow> 'c engine_ext \<Rightarrow> run \<Rightarrow> ('s, 'c, run) prog" where
  "pauseRun w y r =
     bindP (requireLiveRun r) (\<lambda>_.
     bindP (needP (run_status r \<notin> {StFailed, StCompleted, StAwaiting})
       (Err ''This run cannot be paused or resumed in its current state.'')) (\<lambda>_.
       let s = (if run_status r = StPaused then StRunning else StPaused) in
       log_run w y (r\<lparr>run_status := s\<rparr>) Supervisor WarningEvent (if s = StPaused then ''Run paused'' else ''Run resumed'')
         ''The next payment step follows the updated run state. Settled transfers are not reversed.''))"

end
