(* ===== verification/PlatformHttp.thy ===== *)
theory PlatformHttp
  imports Commerce PlatformTasks
begin

text \<open>
  The HTTP side of the hosted platform, \<open>src/src/lib/platform/http.ts\<close>: the configured origin,
  the origin check of browser requests, bounded reading of a JSON body, and the reply an error
  becomes. A lookup in the headers is by lower-case name.
\<close>

definition appOrigin :: "ext \<Rightarrow> (string \<Rightarrow> string option) \<Rightarrow> string res" where
  "appOrigin x env =
     (let production = (env ''NODE_ENV'' = Some ''production'');
          value = (case env ''APP_ORIGIN'' of None \<Rightarrow> [] | Some v \<Rightarrow> v);
          bad = (\<lambda>s. Platform 503 ''CONFIGURATION_REQUIRED'' s)
      in bindR (need (value \<noteq> [] \<or> \<not> production) (bad ''The public application origin is not configured.'')) (\<lambda>_.
         bindR (of_opt (Thrown ''TypeError'') (new_URL x (if value = [] then ''http://localhost:3000'' else value))) (\<lambda>u.
         bindR (need (pathname u = ''/'' \<and> search u = [] \<and> hash_part u = [] \<and> username u = [] \<and> password u = [] \<and>
             protocol u \<in> {''http:'', ''https:''}) (bad ''The public application origin is invalid.'')) (\<lambda>_.
         bindR (need (\<not> production \<or> protocol u = ''https:'') (bad ''Production wallet login requires HTTPS.'')) (\<lambda>_.
           Inr (origin u))))))"

record http_request =
  hq_header :: "string \<Rightarrow> string option"
  hq_body :: "nat list res list option"

definition requireOrigin :: "ext \<Rightarrow> (string \<Rightarrow> string option) \<Rightarrow> http_request \<Rightarrow> unit res" where
  "requireOrigin x env q =
     bindR (appOrigin x env) (\<lambda>og.
     need (hq_header q ''origin'' = Some og \<and> hq_header q ''sec-fetch-site'' \<noteq> Some ''cross-site'')
       (Platform 403 ''INVALID_ORIGIN'' ''This action must start from your Obolos workspace.''))"

definition too_large :: js_error where
  "too_large = Platform 413 ''REQUEST_TOO_LARGE'' ''The request is too large.''"

text \<open>The body arrives in chunks; reading one may fail, and reading stops at the limit.\<close>

fun read_limited :: "nat \<Rightarrow> nat \<Rightarrow> nat list res list \<Rightarrow> nat list res" where
  "read_limited limit seen [] = Inr []"
| "read_limited limit seen (c # cs) = bindR c (\<lambda>bs.
     if limit < seen + length bs then Inl too_large
     else bindR (read_limited limit (seen + length bs) cs) (\<lambda>rest. Inr (bs @ rest)))"

definition announced :: "web \<Rightarrow> http_request \<Rightarrow> jsnum" where
  "announced w q = text_number w (case hq_header q ''content-length'' of None \<Rightarrow> ''0'' | Some [] \<Rightarrow> ''0'' | Some s \<Rightarrow> s)"

definition read_request_json :: "web \<Rightarrow> nat \<Rightarrow> http_request \<Rightarrow> json res" where
  "read_request_json w limit q =
     bindR (need (case hq_header q ''content-type'' of None \<Rightarrow> False
         | Some t \<Rightarrow> starts_with ''application/json'' (to_lower t))
       (Platform 415 ''JSON_REQUIRED'' ''Send application/json.'')) (\<lambda>_.
     bindR (need (announced w q = NaN \<or> num_le (announced w q) (num_of_int (int limit))) too_large) (\<lambda>_.
     bindR (of_opt (Platform 400 ''INVALID_REQUEST'' ''A JSON body is required.'') (hq_body q)) (\<lambda>chunks.
     bindR (read_limited limit 0 chunks) (\<lambda>bytes.
     of_opt (Thrown ''SyntaxError'') (json_parse (read_number w) (of_utf8 bytes))))))"

definition error_reply :: "string \<Rightarrow> string \<Rightarrow> json" where
  "error_reply t c = JObj [(''error'', JStr t), (''code'', JStr c)]"

fun platformError :: "js_error \<Rightarrow> int \<times> json" where
  "platformError (Platform status c t) = (status, error_reply t c)"
| "platformError Zod = (400, error_reply ''Check the request fields and try again.'' ''INVALID_REQUEST'')"
| "platformError (Thrown t) =
     (if t = ''SyntaxError'' then (400, error_reply ''Check the request fields and try again.'' ''INVALID_REQUEST'')
      else (503, error_reply ''The workspace service is unavailable. Please try again shortly.'' ''SERVICE_UNAVAILABLE''))"
| "platformError (Err t) = (503, error_reply ''The workspace service is unavailable. Please try again shortly.'' ''SERVICE_UNAVAILABLE'')"

end
