(* ===== verification/RunnerScope.thy ===== *)
theory RunnerScope
  imports Workspace HederaPurchase PlatformHttp
begin

text \<open>
  What an owner signs for the isolated runner: \<open>src/src/lib/platform/execution-contracts.ts\<close>,
  and the request bodies of \<open>agents.ts\<close>. Typographic characters of messages are written in
  ASCII. \<open>host\<close> holds what the platform's requests take from their surroundings: the environment,
  \<open>verifyMessage\<close> of \<open>viem\<close> (a throw counts as false) and the product of a double and 1000.
\<close>

section \<open>The host\<close>

record host =
  hs_ext :: ext
  hs_web :: web
  hs_env :: "string \<Rightarrow> string option"
  hs_verifies :: "string \<Rightarrow> string \<Rightarrow> string \<Rightarrow> bool"
  hs_millis :: "jsnum \<Rightarrow> jsnum"

definition hs_origin :: "host \<Rightarrow> string res" where
  "hs_origin h = appOrigin (hs_ext h) (hs_env h)"

definition hs_payTo :: "host \<Rightarrow> string" where
  "hs_payTo h = (case hs_env h ''HEDERA_PAY_TO'' of None \<Rightarrow> [] | Some s \<Rightarrow> s)"

section \<open>Mandate fields\<close>

record mandate_fields =
  mf_id :: string
  mf_agentId :: string
  mf_owner :: string
  mf_origin :: string
  mf_repos :: "string list"
  mf_providers :: "string list"
  mf_data :: int
  mf_verification :: int
  mf_unitPrice :: int
  mf_maxRuns :: int
  mf_expires :: string
  mf_service :: "verification_service option"

record signed_mandate = mandate_fields +
  sm_message :: string
  sm_signature :: string

definition p_scope :: "json \<Rightarrow> string list option" where
  "p_scope v = check (\<lambda>rs. 1 \<le> length rs \<and> length rs \<le> 3 \<and> distinct (map to_lower rs))
     (if is_arr v then those (map (\<lambda>r. check is_repo (as_str r)) (elems v)) else None)"

definition p_bounded :: "int \<Rightarrow> int \<Rightarrow> json \<Rightarrow> int option" where
  "p_bounded a b v = check (\<lambda>i. a \<le> i \<and> i \<le> b) (as_int v)"

definition plain_origin :: "ext \<Rightarrow> string \<Rightarrow> bool" where
  "plain_origin x s = (case new_URL x s of None \<Rightarrow> False
     | Some u \<Rightarrow> origin u = s \<and> protocol u \<in> {''http:'', ''https:''})"

definition p_mandate_fields :: "ext \<Rightarrow> json \<Rightarrow> mandate_fields option" where
  "p_mandate_fields x v =
     Option.bind (check is_uuid (fstr v ''id'')) (\<lambda>i.
     Option.bind (check is_uuid (fstr v ''agentId'')) (\<lambda>a.
     Option.bind (check (hex_n 40) (fstr v ''owner'')) (\<lambda>ow.
     Option.bind (check (plain_origin x) (Option.bind (fstr v ''origin'') (z_url x))) (\<lambda>og.
     Option.bind (field v ''repos'' p_scope) (\<lambda>rs.
     Option.bind (check (\<lambda>ps. length ps \<le> 2 \<and> distinct ps) (field v ''allowedProviders'' p_allowed)) (\<lambda>ps.
     Option.bind (field v ''dataBudgetAtomic'' (p_bounded 1 100000000)) (\<lambda>d.
     Option.bind (field v ''verificationBudgetAtomic'' (p_bounded 1 1000000)) (\<lambda>b.
     Option.bind (field v ''maxDataUnitPriceAtomic'' (p_bounded 1 100000000)) (\<lambda>u.
     Option.bind (field v ''maxRuns'' (p_bounded 1 10)) (\<lambda>n.
     Option.bind (check (\<lambda>s. iso_datetime False s \<noteq> None) (fstr v ''expiresAt'')) (\<lambda>e.
     Option.bind (fopt v ''verificationService'' (p_verification_service x)) (\<lambda>s.
       Some \<lparr>mf_id = i, mf_agentId = a, mf_owner = ow, mf_origin = og, mf_repos = rs, mf_providers = ps, mf_data = d,
             mf_verification = b, mf_unitPrice = u, mf_maxRuns = n, mf_expires = e, mf_service = s\<rparr>))))))))))))"

definition mandate_keys :: "string list" where
  "mandate_keys = [''id'', ''agentId'', ''owner'', ''origin'', ''repos'', ''allowedProviders'', ''dataBudgetAtomic'',
     ''verificationBudgetAtomic'', ''maxDataUnitPriceAtomic'', ''maxRuns'', ''expiresAt'', ''verificationService'']"

definition sign_fields :: "('a mandate_fields_scheme) \<Rightarrow> string \<Rightarrow> string \<Rightarrow> signed_mandate" where
  "sign_fields f msg signature = mandate_fields.extend (mandate_fields.truncate f)
     \<lparr>sm_message = msg, sm_signature = signature\<rparr>"

definition p_signed_mandate :: "ext \<Rightarrow> json \<Rightarrow> signed_mandate option" where
  "p_signed_mandate x v =
     (if \<not> strict (mandate_keys @ [''message'', ''signature'']) v then None
      else Option.bind (p_mandate_fields x v) (\<lambda>f.
        Option.bind (check (\<lambda>s. length s \<le> 5000) (fstr v ''message'')) (\<lambda>t.
        Option.bind (check (hex_n 130) (fstr v ''signature'')) (\<lambda>g. Some (sign_fields f t g)))))"

definition nat_json :: "int \<Rightarrow> json" where
  "nat_json i = JNum (num_of_int i)"

definition signed_json :: "signed_mandate \<Rightarrow> json" where
  "signed_json m = JObj
     ([(''id'', JStr (mf_id m)), (''agentId'', JStr (mf_agentId m)), (''owner'', JStr (mf_owner m)),
       (''origin'', JStr (mf_origin m)), (''repos'', repos_json (mf_repos m)),
       (''allowedProviders'', repos_json (mf_providers m)), (''dataBudgetAtomic'', nat_json (mf_data m)),
       (''verificationBudgetAtomic'', nat_json (mf_verification m)),
       (''maxDataUnitPriceAtomic'', nat_json (mf_unitPrice m)), (''maxRuns'', nat_json (mf_maxRuns m)),
       (''expiresAt'', JStr (mf_expires m))] @
      (case mf_service m of None \<Rightarrow> [] | Some v \<Rightarrow> [(''verificationService'', service_json v)]) @
      [(''message'', JStr (sm_message m)), (''signature'', JStr (sm_signature m))])"

section \<open>The message\<close>

definition mandate_version :: "('a mandate_fields_scheme) \<Rightarrow> string" where
  "mandate_version m = (case mf_service m of None \<Rightarrow> ''v1''
     | Some v \<Rightarrow> if vs_provider v \<noteq> None then ''v3'' else ''v2'')"

definition mandateMessage :: "('a mandate_fields_scheme) \<Rightarrow> string" where
  "mandateMessage m = join [CHR 0x0A]
     ([''Obolos isolated runner spending mandate '' @ mandate_version m,
       ''Origin: '' @ mf_origin m, ''Mandate: '' @ mf_id m, ''Agent: '' @ mf_agentId m,
       ''Owner: '' @ to_lower (mf_owner m), ''Signing provenance: wallet'',
       ''Repositories: '' @ stringify (repos_json (mf_repos m)),
       ''Allowed providers: '' @ stringify (repos_json (mf_providers m)),
       ''Maximum HBAR atomic units per repository: '' @ int_dec (mf_unitPrice m),
       ''HBAR atomic units per run: '' @ int_dec (mf_data m),
       ''USDC atomic units per run: '' @ int_dec (mf_verification m),
       ''Maximum runs: '' @ int_dec (mf_maxRuns m),
       ''Total HBAR atomic units: '' @ int_dec (mf_data m * mf_maxRuns m),
       ''Total USDC atomic units: '' @ int_dec (mf_verification m * mf_maxRuns m)] @
      (case mf_service m of None \<Rightarrow> [] | Some v \<Rightarrow> [''Verification service: '' @ stringify (service_json v)]) @
      [''Expires: '' @ mf_expires m, ''Network scope: Hedera testnet and Arc testnet only.'',
       ''I authorize my paired runner to execute only this scope. This is spending approval, not an identity login.''])"

record mandate_pin =
  pin_owner :: string
  pin_agentId :: string
  pin_origin :: string
  pin_now :: int

definition own_service :: "('a mandate_fields_scheme) \<Rightarrow> bool" where
  "own_service m = (case mf_service m of None \<Rightarrow> True
     | Some v \<Rightarrow> vs_endpoint v = mf_origin m @ ''/api/market/services/'' @ vs_id v \<and> vs_price v \<le> mf_verification m)"

definition validateSignedMandate :: "host \<Rightarrow> json \<Rightarrow> mandate_pin \<Rightarrow> bool" where
  "validateSignedMandate h v pin =
     (case p_signed_mandate (hs_ext h) v of
        None \<Rightarrow> False
      | Some m \<Rightarrow>
          to_lower (mf_owner m) = to_lower (pin_owner pin) \<and> mf_agentId m = pin_agentId pin \<and>
          mf_origin m = pin_origin pin \<and>
          (case iso_datetime False (mf_expires m) of None \<Rightarrow> False
           | Some t \<Rightarrow> pin_now pin < t \<and> t \<le> pin_now pin + 86400000) \<and>
          sm_message m = mandateMessage m \<and> own_service m \<and>
          hs_verifies h (mf_owner m) (sm_message m) (sm_signature m))"

section \<open>Request bodies\<close>

record agent_input =
  ai_name :: string
  ai_description :: string
  ai_data :: int
  ai_verification :: int

definition parseAgentInput :: "json \<Rightarrow> agent_input res" where
  "parseAgentInput v =
     of_opt (Platform 400 ''INVALID_AGENT'' ''Provide a name (1-80 characters), description (up to 1000 characters), and integer budgets from 0 to 100000000 tinybars and 0 to 1000000 USDC atomic units.'')
       (if \<not> strict [''name'', ''description'', ''dataBudgetAtomic'', ''verificationBudgetAtomic''] v then None
        else Option.bind (check (\<lambda>s. 1 \<le> length s \<and> length s \<le> 80) (map_option trim (fstr v ''name''))) (\<lambda>n.
             Option.bind (fopt v ''description'' (\<lambda>d. check (\<lambda>s. length s \<le> 1000) (map_option trim (as_str d)))) (\<lambda>d.
             Option.bind (field v ''dataBudgetAtomic'' (p_bounded 0 100000000)) (\<lambda>b.
             Option.bind (field v ''verificationBudgetAtomic'' (p_bounded 0 1000000)) (\<lambda>c.
               Some \<lparr>ai_name = n, ai_description = (case d of None \<Rightarrow> [] | Some s \<Rightarrow> s), ai_data = b,
                     ai_verification = c\<rparr>)))))"

text \<open>\<open>owner/repository\<close> as a run names it; the scope of a mandate also refuses the
  names \<open>.\<close> and \<open>..\<close>.\<close>

definition is_run_scope :: "string \<Rightarrow> bool" where
  "is_run_scope s = (case split_on (CHR ''/'') s of
     [a, b] \<Rightarrow> a \<noteq> [] \<and> is_alnum (hd a) \<and> length a \<le> 39 \<and> list_all is_owner_char a \<and>
       b \<noteq> [] \<and> length b \<le> 100 \<and> list_all is_repo_char b
   | _ \<Rightarrow> False)"

definition is_run_key :: "string \<Rightarrow> bool" where
  "is_run_key s \<longleftrightarrow> s \<noteq> [] \<and> length s \<le> 128 \<and>
     list_all (\<lambda>c. is_alnum c \<or> c \<in> {CHR ''.'', CHR ''_'', CHR '':'', CHR ''-''}) s"

definition validateRunInput :: "json \<Rightarrow> string option \<Rightarrow> (string list \<times> string) res" where
  "validateRunInput v key =
     bindR (of_opt (Platform 400 ''INVALID_RUN'' ''Provide 1-3 unique GitHub repositories in owner/repo format.'')
       (if \<not> strict [''repos''] v then None
        else check (\<lambda>rs. 1 \<le> length rs \<and> length rs \<le> 3 \<and> distinct (map to_lower rs))
          (farr v ''repos'' (\<lambda>r. check is_run_scope (as_str r))))) (\<lambda>rs.
     bindR (of_opt (Platform 400 ''INVALID_IDEMPOTENCY_KEY'' ''Provide an Idempotency-Key of 1-128 letters, digits, periods, underscores, colons or hyphens.'')
       (check is_run_key key)) (\<lambda>k. Inr (rs, k)))"

lemma sign_fields_simps [simp]:
  "mf_id (sign_fields f t g) = mf_id f" "mf_agentId (sign_fields f t g) = mf_agentId f"
  "mf_owner (sign_fields f t g) = mf_owner f" "mf_origin (sign_fields f t g) = mf_origin f"
  "mf_repos (sign_fields f t g) = mf_repos f" "mf_providers (sign_fields f t g) = mf_providers f"
  "mf_data (sign_fields f t g) = mf_data f" "mf_verification (sign_fields f t g) = mf_verification f"
  "mf_unitPrice (sign_fields f t g) = mf_unitPrice f" "mf_maxRuns (sign_fields f t g) = mf_maxRuns f"
  "mf_expires (sign_fields f t g) = mf_expires f" "mf_service (sign_fields f t g) = mf_service f"
  "sm_message (sign_fields f t g) = t" "sm_signature (sign_fields f t g) = g"
  by (simp_all add: sign_fields_def mandate_fields.defs)

end
