(* ===== verification/RunnerJournal.thy ===== *)
theory RunnerJournal
  imports Engine RunnerScope
begin

text \<open>
  The private runner's journal, \<open>src/src/lib/runner/journal.ts\<close>: the one file by which the
  runner remembers, across its own deaths, which jobs of the platform it has begun. A process opens
  it under a lock, holds its content in memory, and writes the whole of it after every change; a
  write that fails poisons the instance, and a poisoned one refuses everything.

  The disk is the machine's (\<open>journal\<close> under one name, \<open>locked\<close>); what the process holds in
  memory is the part \<open>rw_data\<close> to \<open>rw_closed\<close> of its \<open>outside\<close>, which a restart leaves behind
  and \<open>open\<close> overwrites. Jobs are the JSON the platform sent; runs are those of the engine. The
  content of the lock file and file modes are not modelled.
\<close>

section \<open>State\<close>

datatype entry_state = EntryStarted | EntryFinished | EntryAcknowledged

record job_entry =
  je_job :: json
  je_print :: string
  je_state :: entry_state
  je_run :: run

record job_journal =
  jj_version :: int
  jj_agent :: string
  jj_jobs :: "job_entry list"

text \<open>Calls that left the runner for its base gateway, with the job they were made for.\<close>

datatype base_call =
    DiscoverCall json
  | DataCall json data_purchase
  | ReportCall json "json list" string
  | VerifyCall json verification_purchase

record gateway_guard =
  gg_data :: bool
  gg_report :: bool
  gg_verification :: bool
  gg_purchased :: "json list option"

record 'c rworld =
  rw_ext :: 'c
  rw_data :: job_journal
  rw_poisoned :: bool
  rw_closed :: bool
  rw_polling :: bool
  rw_guard :: gateway_guard
  rw_calls :: "base_call list"

text \<open>A write of the journal is renamed into place, fails before that, or fails after it.\<close>

datatype write_fate = Written | LostBefore js_error | LostAfter js_error

record wire_request =
  wq_method :: string
  wq_url :: string
  wq_bearer :: "string option"
  wq_body :: "json option"
  wq_timeout :: int

record 'c runner_ext =
  rn_host :: host
  rn_now :: "'c \<Rightarrow> int \<times> 'c"
  rn_uuid :: "'c \<Rightarrow> string \<times> 'c"
  rn_write :: "'c \<Rightarrow> write_fate \<times> 'c"
  rn_aborted :: "'c \<Rightarrow> bool \<times> 'c"
  rn_fetch :: "wire_request \<Rightarrow> 'c \<Rightarrow> http_response res \<times> 'c"
  rn_as_data :: "json \<Rightarrow> data_result res"
  rn_as_verification :: "json \<Rightarrow> verification_result res"
  rn_zodText :: string

type_synonym ('c, 'a) runner_prog = "(job_journal, 'c rworld, 'a) prog"

definition rn_web :: "'c runner_ext \<Rightarrow> web" where
  "rn_web R = hs_web (rn_host R)"

definition on_ext :: "('c \<Rightarrow> 'a \<times> 'c) \<Rightarrow> 'c rworld \<Rightarrow> 'a \<times> 'c rworld" where
  "on_ext g w = (case g (rw_ext w) of (a, u) \<Rightarrow> (a, w\<lparr>rw_ext := u\<rparr>))"

definition getP :: "('c rworld \<Rightarrow> 'a) \<Rightarrow> ('s, 'c rworld, 'a) prog" where
  "getP f = askP (\<lambda>w. (f w, w))"

definition setP :: "('c rworld \<Rightarrow> 'c rworld) \<Rightarrow> ('s, 'c rworld, unit) prog" where
  "setP f = askP (\<lambda>w. ((), f w))"

abbreviation journal_file :: string where
  "journal_file \<equiv> ''journal.json''"

section \<open>Writing\<close>

definition job_fingerprint :: "web \<Rightarrow> json \<Rightarrow> string" where
  "job_fingerprint w v = sha256 w (stringify v)"

definition interrupted_job :: string where
  "interrupted_job = ''Execution interrupted; settlement may be uncertain. Reconcile the local broker journal manually. This job will never execute again.''"

definition stopUncertain :: "'c runner_ext \<Rightarrow> run \<Rightarrow> ('s, 'c rworld, run) prog" where
  "stopUncertain R r =
     bindP (askP (on_ext (rn_now R))) (\<lambda>t. bindP (askP (on_ext (rn_uuid R))) (\<lambda>u. bindP (askP (on_ext (rn_now R))) (\<lambda>t'.
       retP (r\<lparr>run_status := StFailed, run_updated := stamp t, run_error := Some interrupted_job,
         run_events := appendAudit (rn_web R) u (stamp t') (run_events r) Broker BlockedEvent
           ''Runner execution interrupted'' interrupted_job\<rparr>))))"

definition assertHealthy :: "('s, 'c rworld, unit) prog" where
  "assertHealthy = bindP (getP (\<lambda>w. rw_closed w \<or> rw_poisoned w)) (\<lambda>b.
     needP (\<not> b) (Err ''Runner journal is closed or requires recovery.''))"

definition poison :: "js_error \<Rightarrow> ('s, 'c rworld, unit) prog" where
  "poison e = bindP (setP (\<lambda>w. w\<lparr>rw_poisoned := True\<rparr>)) (\<lambda>_. throwP e)"

definition persist_jobs :: "'c runner_ext \<Rightarrow> ('c, unit) runner_prog" where
  "persist_jobs R =
     bindP assertHealthy (\<lambda>_. bindP (getP rw_data) (\<lambda>d.
     bindP (askP (on_ext (rn_write R))) (\<lambda>fate. case fate of
         Written \<Rightarrow> saveJournal journal_file d
       | LostBefore e \<Rightarrow> poison e
       | LostAfter e \<Rightarrow> bindP (saveJournal journal_file d) (\<lambda>_. poison e))))"

definition set_jobs :: "(job_entry list \<Rightarrow> job_entry list) \<Rightarrow> 'c rworld \<Rightarrow> 'c rworld" where
  "set_jobs f w = w\<lparr>rw_data := rw_data w\<lparr>jj_jobs := f (jj_jobs (rw_data w))\<rparr>\<rparr>"

section \<open>Opening\<close>

definition entry_ok :: "web \<Rightarrow> string \<Rightarrow> job_entry \<Rightarrow> bool" where
  "entry_ok w agent e \<longleftrightarrow> run_id (je_run e) \<noteq> [] \<and> fstr (je_job e) ''id'' = Some (run_id (je_run e)) \<and>
     fstr (je_job e) ''agentId'' = Some agent \<and> je_print e = job_fingerprint w (je_job e)"

definition journal_intact :: "web \<Rightarrow> string \<Rightarrow> job_journal \<Rightarrow> bool" where
  "journal_intact w agent d \<longleftrightarrow> distinct (map (\<lambda>e. fld (je_job e) ''id'') (jj_jobs d)) \<and>
     list_all (entry_ok w agent) (jj_jobs d)"

text \<open>Jobs that were running when the process died end in a failure that is never retried.\<close>

primrec stop_started :: "'c runner_ext \<Rightarrow> job_entry list \<Rightarrow> ('s, 'c rworld, job_entry list) prog" where
  "stop_started R [] = retP []"
| "stop_started R (e # es) =
     bindP (if je_state e = EntryStarted
       then bindP (stopUncertain R (je_run e)) (\<lambda>r. retP (e\<lparr>je_run := r, je_state := EntryFinished\<rparr>)) else retP e) (\<lambda>e.
     bindP (stop_started R es) (\<lambda>es. retP (e # es)))"

definition open_locked :: "'c runner_ext \<Rightarrow> string \<Rightarrow> ('c, unit) runner_prog" where
  "open_locked R agent =
     bindP (readJournal (Err ''Runner journal is corrupt or unreadable. Manual reconciliation required.'') journal_file) (\<lambda>f.
     let d = given f \<lparr>jj_version = 1, jj_agent = agent, jj_jobs = []\<rparr> in
     bindP (needP (jj_version d = 1 \<and> jj_agent d = agent)
       (Err ''Runner journal does not match the pinned agent or journal version.'')) (\<lambda>_.
     bindP (needP (journal_intact (rn_web R) agent d)
       (Err ''Runner journal integrity check failed. Manual reconciliation required.'')) (\<lambda>_.
     bindP (stop_started R (jj_jobs d)) (\<lambda>es.
     bindP (setP (\<lambda>w. w\<lparr>rw_data := d\<lparr>jj_jobs := es\<rparr>, rw_poisoned := False, rw_closed := False\<rparr>)) (\<lambda>_.
       persist_jobs R)))))"

definition openJournal :: "'c runner_ext \<Rightarrow> string \<Rightarrow> ('c, unit) runner_prog" where
  "openJournal R agent =
     bindP (takeLock (Err ''Runner lock exists or cannot be created. Stop other writers and reconcile any stale lock manually.'')) (\<lambda>_.
       catchP (open_locked R agent) (\<lambda>e. bindP dropLock (\<lambda>_. throwP e)))"

definition closeJournal :: "('c, unit) runner_prog" where
  "closeJournal = bindP (getP (\<lambda>w. (rw_closed w, rw_poisoned w))) (\<lambda>(closed, poisoned).
     if closed then retP ()
     else bindP (setP (\<lambda>w. w\<lparr>rw_closed := True\<rparr>)) (\<lambda>_. if poisoned then retP () else dropLock))"

section \<open>Jobs\<close>

definition pending :: "('s, 'c rworld, job_entry list) prog" where
  "pending = bindP assertHealthy (\<lambda>_. getP (\<lambda>w. filter (\<lambda>e. je_state e = EntryFinished) (jj_jobs (rw_data w))))"

definition entry_for :: "json option \<Rightarrow> job_entry list \<Rightarrow> job_entry option" where
  "entry_for i es = find (\<lambda>e. strict_eq (fld (je_job e) ''id'') i) es"

definition existing :: "'c runner_ext \<Rightarrow> json \<Rightarrow> ('s, 'c rworld, bool) prog" where
  "existing R j =
     bindP assertHealthy (\<lambda>_. bindP (getP (\<lambda>w. jj_jobs (rw_data w))) (\<lambda>es.
     case entry_for (fld j ''id'') es of
       None \<Rightarrow> retP False
     | Some e \<Rightarrow> bindP (needP (je_print e = job_fingerprint (rn_web R) j) (Err ''Existing job parameters changed.'')) (\<lambda>_. retP True)))"

definition mandate_in :: "json \<Rightarrow> json res" where
  "mandate_in j = (case fld j ''mandate'' of None \<Rightarrow> Inl (Thrown ''TypeError'') | Some JNull \<Rightarrow> Inl (Thrown ''TypeError'')
     | Some m \<Rightarrow> Inr m)"

text \<open>The mandates of earlier jobs that carry the same identifier.\<close>

definition previous_mandates :: "job_entry list \<Rightarrow> json \<Rightarrow> json list res" where
  "previous_mandates es m = bindR (mapR (\<lambda>e. mandate_in (je_job e)) es) (\<lambda>ms.
     Inr (filter (\<lambda>n. strict_eq (fld n ''id'') (fld m ''id'')) ms))"

definition run_limit_ok :: "json \<Rightarrow> nat \<Rightarrow> bool" where
  "run_limit_ok m used = (case fint m ''maxRuns'' of None \<Rightarrow> False | Some n \<Rightarrow> 1 \<le> n \<and> n \<le> 10 \<and> int used < n)"

definition may_start :: "web \<Rightarrow> job_journal \<Rightarrow> json \<Rightarrow> unit res" where
  "may_start w d j =
     bindR (mandate_in j) (\<lambda>m.
     bindR (previous_mandates (jj_jobs d) m) (\<lambda>ms.
     bindR (need (list_all (\<lambda>n. job_fingerprint w n = job_fingerprint w m) ms) (Err ''Mandate nonce parameters changed.'')) (\<lambda>_.
     need (run_limit_ok m (length ms)) (Err ''Signed mandate run limit exhausted.''))))"

definition start_job :: "'c runner_ext \<Rightarrow> json \<Rightarrow> run \<Rightarrow> ('c, unit) runner_prog" where
  "start_job R j r =
     bindP (getP rw_data) (\<lambda>d.
     bindP (needP (fstr j ''agentId'' = Some (jj_agent d) \<and> fstr j ''id'' = Some (run_id r))
       (Err ''Job does not match the pinned agent or run.'')) (\<lambda>_.
     bindP (existing R j) (\<lambda>known.
     bindP (needP (\<not> known) (Err ''Job already started; it cannot execute again.'')) (\<lambda>_.
     bindP (liftP (may_start (rn_web R) d j)) (\<lambda>_.
     bindP (setP (set_jobs (\<lambda>es. es @ [\<lparr>je_job = j, je_print = job_fingerprint (rn_web R) j, je_state = EntryStarted, je_run = r\<rparr>]))) (\<lambda>_.
       persist_jobs R))))))"

text \<open>The entry of an identifier, in a state, becomes another; identifiers are unique.\<close>

definition change_entry ::
    "'c runner_ext \<Rightarrow> js_error \<Rightarrow> string \<Rightarrow> entry_state \<Rightarrow> bool \<Rightarrow> (job_entry \<Rightarrow> job_entry) \<Rightarrow> ('c, unit) runner_prog" where
  "change_entry R e i s ok f =
     bindP (getP (\<lambda>w. entry_for (Some (JStr i)) (jj_jobs (rw_data w)))) (\<lambda>found.
     bindP (needP (ok \<and> (case found of None \<Rightarrow> False | Some c \<Rightarrow> je_state c = s)) e) (\<lambda>_.
     bindP (setP (set_jobs (map (\<lambda>c. if fld (je_job c) ''id'' = Some (JStr i) then f c else c)))) (\<lambda>_.
       persist_jobs R)))"

definition checkpoint_job :: "'c runner_ext \<Rightarrow> string \<Rightarrow> run \<Rightarrow> ('c, unit) runner_prog" where
  "checkpoint_job R i r = change_entry R (Err ''Invalid runner checkpoint.'') i EntryStarted (run_id r = i)
     (\<lambda>c. c\<lparr>je_run := r\<rparr>)"

definition finish_job :: "'c runner_ext \<Rightarrow> string \<Rightarrow> run \<Rightarrow> ('c, unit) runner_prog" where
  "finish_job R i r = change_entry R (Err ''Invalid terminal runner result.'') i EntryStarted
     (run_id r = i \<and> run_status r \<in> {StCompleted, StFailed, StAwaiting}) (\<lambda>c. c\<lparr>je_run := r, je_state := EntryFinished\<rparr>)"

definition acknowledge_job :: "'c runner_ext \<Rightarrow> string \<Rightarrow> ('c, unit) runner_prog" where
  "acknowledge_job R i = change_entry R (Err ''Invalid runner acknowledgment.'') i EntryFinished True
     (\<lambda>c. c\<lparr>je_state := EntryAcknowledged\<rparr>)"

end
