(* ===== verification/RunnerResult.thy ===== *)
theory RunnerResult
  imports RunnerScope
begin

text \<open>
  The results a runner uploads, from \<open>src/src/lib/platform/execution.ts\<close>: the schema, the
  match with the job and its signed mandate, and the status a result gives the job. A result is a
  workspace run; of the authorizations only the empty list may be sent. Evidence, checks and
  providers keep the keys their schemas name, in that order.
\<close>

section \<open>The schema\<close>

record runner_result = run +
  rr_authorizations :: bool

definition p_max :: "nat \<Rightarrow> json \<Rightarrow> string option" where
  "p_max n v = check (\<lambda>s. length s \<le> n) (as_str v)"

abbreviation p_long :: "json \<Rightarrow> string option" where
  "p_long \<equiv> p_max 20000"

abbreviation p_short :: "json \<Rightarrow> string option" where
  "p_short \<equiv> p_max 1000"

abbreviation p_amount :: "json \<Rightarrow> int option" where
  "p_amount \<equiv> p_bounded 0 100000000"

text \<open>\<open>z.array(...).max(n)\<close>, and \<open>z.enum\<close> of values with their names.\<close>

definition p_list :: "nat \<Rightarrow> (json \<Rightarrow> 'a option) \<Rightarrow> json \<Rightarrow> 'a list option" where
  "p_list n p v = (if is_arr v then check (\<lambda>xs. length xs \<le> n) (those (map p (elems v))) else None)"

definition p_enum :: "('a \<Rightarrow> string) \<Rightarrow> 'a list \<Rightarrow> json \<Rightarrow> 'a option" where
  "p_enum name vs v = Option.bind (as_str v) (\<lambda>s. find (\<lambda>a. name a = s) vs)"

definition p_evidence :: "json \<Rightarrow> json option" where
  "p_evidence v =
     Option.bind (field v ''repo'' p_short) (\<lambda>r. Option.bind (field v ''description'' p_long) (\<lambda>d.
     Option.bind (field v ''stars'' p_amount) (\<lambda>s. Option.bind (field v ''forks'' p_amount) (\<lambda>f.
     Option.bind (field v ''openIssues'' p_amount) (\<lambda>i. Option.bind (field v ''pushedAt'' p_short) (\<lambda>p.
     Option.bind (field v ''language'' p_short) (\<lambda>l. Option.bind (field v ''license'' p_short) (\<lambda>c.
     Option.bind (field v ''sourceUrl'' p_short) (\<lambda>u. Option.bind (field v ''fetchedAt'' (p_datetime False)) (\<lambda>t.
       Some (JObj [(''repo'', JStr r), (''description'', JStr d), (''stars'', nat_json s), (''forks'', nat_json f),
         (''openIssues'', nat_json i), (''pushedAt'', JStr p), (''language'', JStr l), (''license'', JStr c),
         (''sourceUrl'', JStr u), (''fetchedAt'', JStr t)])))))))))))"

definition p_engine_mandate :: "ext \<Rightarrow> json \<Rightarrow> mandate option" where
  "p_engine_mandate x v =
     (if \<not> strict [''dataBudgetAtomic'', ''verificationBudgetAtomic'', ''maxDataUnitPriceAtomic'',
        ''allowedProviders'', ''expiresAt'', ''version'', ''verificationService''] v then None
      else Option.bind (field v ''dataBudgetAtomic'' p_amount) (\<lambda>d.
           Option.bind (field v ''verificationBudgetAtomic'' p_amount) (\<lambda>b.
           Option.bind (field v ''maxDataUnitPriceAtomic'' p_amount) (\<lambda>u.
           Option.bind (field v ''allowedProviders'' (p_list 2 p_short)) (\<lambda>ps.
           Option.bind (field v ''expiresAt'' (p_datetime False)) (\<lambda>e.
           Option.bind (check (\<lambda>n. 0 < n) (fint v ''version'')) (\<lambda>n.
           Option.bind (fopt v ''verificationService'' (p_verification_service x)) (\<lambda>s.
             Some \<lparr>md_dataBudget = d, md_unitPrice = u, md_verificationBudget = b, md_providers = ps,
                   md_expires = e, md_version = n, md_service = s\<rparr>))))))))"

definition p_asset :: "json \<Rightarrow> string option" where
  "p_asset v = check (\<lambda>s. s \<in> {''HBAR'', ''USDC''}) (as_str v)"

definition p_listed_provider :: "json \<Rightarrow> provider option" where
  "p_listed_provider v =
     Option.bind (field v ''id'' p_short) (\<lambda>i. Option.bind (field v ''name'' p_short) (\<lambda>n.
     Option.bind (field v ''description'' p_short) (\<lambda>d. Option.bind (field v ''network'' p_short) (\<lambda>nw.
     Option.bind (field v ''asset'' p_asset) (\<lambda>a. Option.bind (field v ''unit'' p_short) (\<lambda>u.
     Option.bind (field v ''unitPriceAtomic'' p_amount) (\<lambda>p.
       Some \<lparr>pv_id = i, pv_name = n, pv_description = d, pv_network = nw, pv_asset = a, pv_unit = u,
             pv_price = p, pv_endpoint = None\<rparr>)))))))"

definition ARC_NETWORK :: string where
  "ARC_NETWORK = ''arc:testnet''"

definition p_receipt :: "json \<Rightarrow> payment_receipt option" where
  "p_receipt v =
     Option.bind (field v ''id'' p_short) (\<lambda>i. Option.bind (field v ''requestId'' p_short) (\<lambda>r.
     Option.bind (field v ''mode'' (p_literal (JStr ''live''))) (\<lambda>_.
     Option.bind (check (\<lambda>s. s \<in> {HEDERA_NETWORK, ARC_NETWORK}) (fstr v ''network'')) (\<lambda>nw.
     Option.bind (field v ''asset'' p_asset) (\<lambda>a.
     Option.bind (field v ''amountAtomic'' (p_bounded 1 100000000)) (\<lambda>m.
     Option.bind (field v ''units'' (p_bounded 1 3)) (\<lambda>u. Option.bind (field v ''provider'' p_short) (\<lambda>p.
     Option.bind (field v ''status'' (p_literal (JStr ''settled''))) (\<lambda>_.
     Option.bind (field v ''timestamp'' (p_datetime False)) (\<lambda>t.
     Option.bind (field v ''transactionId'' p_short) (\<lambda>tx. Option.bind (fopt v ''explorerUrl'' p_short) (\<lambda>ex.
     Option.bind (fopt v ''orderId'' (\<lambda>q. check is_uuid (as_str q))) (\<lambda>q.
     Option.bind (fopt v ''recipient'' (\<lambda>c. check (hex_n 40) (as_str c))) (\<lambda>c.
       Some \<lparr>pr_id = i, pr_requestId = r, pr_mode = ''live'', pr_network = nw, pr_asset = a, pr_amount = m,
             pr_units = u, pr_provider = p, pr_status = ''settled'', pr_timestamp = t, pr_transaction = Some tx,
             pr_explorer = ex, pr_order = q, pr_recipient = c\<rparr>))))))))))))))"

definition p_event :: "json \<Rightarrow> audit_event option" where
  "p_event v =
     Option.bind (field v ''id'' p_short) (\<lambda>i. Option.bind (field v ''timestamp'' (p_datetime False)) (\<lambda>t.
     Option.bind (field v ''actor'' (p_enum actor_str [Supervisor, Planner, Broker, Worker, Verifier])) (\<lambda>a.
     Option.bind (field v ''kind'' (p_enum kind_str [InfoEvent, SuccessEvent, WarningEvent, BlockedEvent])) (\<lambda>k.
     Option.bind (field v ''title'' p_short) (\<lambda>ti. Option.bind (field v ''detail'' p_long) (\<lambda>d.
     Option.bind (field v ''previousHash'' p_short) (\<lambda>p. Option.bind (field v ''hash'' p_short) (\<lambda>g.
       Some \<lparr>ev_id = i, ev_timestamp = t, ev_actor = a, ev_kind = k, ev_title = ti, ev_detail = d,
             ev_previous = p, ev_hash = g\<rparr>))))))))"

definition p_check :: "nat \<Rightarrow> json \<Rightarrow> json option" where
  "p_check n v =
     Option.bind (field v ''label'' (p_max n)) (\<lambda>l. Option.bind (fbool v ''passed'') (\<lambda>p.
     Option.bind (field v ''detail'' p_long) (\<lambda>d. Some (check_json l p d))))"

definition p_result_report :: "json \<Rightarrow> report option" where
  "p_result_report v =
     Option.bind (field v ''title'' p_short) (\<lambda>t. Option.bind (field v ''summary'' p_long) (\<lambda>s.
     Option.bind (field v ''recommendation'' p_long) (\<lambda>r.
     Option.bind (field v ''evidence'' (p_list 3 p_evidence)) (\<lambda>es.
     Option.bind (field v ''generatedBy'' (p_literal (JStr ''model''))) (\<lambda>_.
     Option.bind (field v ''createdAt'' (p_datetime False)) (\<lambda>c.
     Option.bind (field v ''checks'' (p_list 54 (p_check 1000))) (\<lambda>cs.
     Option.bind (fbool v ''verified'') (\<lambda>b.
       Some \<lparr>rp_title = t, rp_summary = s, rp_recommendation = r, rp_evidence = es, rp_generatedBy = ''model'',
             rp_created = c, rp_checks = cs, rp_verified = b\<rparr>))))))))"

definition p_approval :: "ext \<Rightarrow> json \<Rightarrow> approval_request option" where
  "p_approval x v =
     Option.bind (fopt v ''signerMode'' (\<lambda>m. check (\<lambda>s. s \<in> {''usb'', ''speculos''}) (as_str m))) (\<lambda>sm.
     Option.bind (field v ''nonce'' p_short) (\<lambda>n. Option.bind (field v ''message'' p_long) (\<lambda>t.
     Option.bind (field v ''expiresAt'' (p_datetime False)) (\<lambda>e.
     Option.bind (field v ''proposedMandate'' (p_engine_mandate x)) (\<lambda>p.
     Option.bind (field v ''reason'' p_long) (\<lambda>r.
       Some \<lparr>ap_signerMode = sm, ap_nonce = n, ap_message = t, ap_expires = e, ap_proposed = p, ap_reason = r\<rparr>))))))"

fun status_str :: "run_status \<Rightarrow> string" where
  "status_str StReady = ''ready''"
| "status_str StRunning = ''running''"
| "status_str StAwaiting = ''awaiting_approval''"
| "status_str StPaused = ''paused''"
| "status_str StCompleted = ''completed''"
| "status_str StFailed = ''failed''"

definition result_keys :: "string list" where
  "result_keys = [''id'', ''mode'', ''title'', ''repos'', ''status'', ''stage'', ''createdAt'', ''updatedAt'', ''mandate'',
     ''providers'', ''selectedProvider'', ''dataSpentAtomic'', ''verificationSpentAtomic'', ''evidence'', ''receipts'',
     ''events'', ''report'', ''approval'', ''shockApplied'', ''error'', ''authorizations'']"

definition p_result :: "ext \<Rightarrow> json \<Rightarrow> runner_result option" where
  "p_result x v =
     (if \<not> strict result_keys v then None
      else Option.bind (check is_uuid (fstr v ''id'')) (\<lambda>i.
           Option.bind (field v ''mode'' (p_literal (JStr ''live''))) (\<lambda>_.
           Option.bind (field v ''title'' p_short) (\<lambda>ti.
           Option.bind (field v ''repos'' p_scope) (\<lambda>rs.
           Option.bind (field v ''status'' (p_enum status_str [StCompleted, StFailed, StAwaiting, StPaused])) (\<lambda>st.
           Option.bind (field v ''stage'' (p_enum stage_str
             [AtMandate, AtDiscovery, AtPurchase, AtReport, AtVerification, AtComplete])) (\<lambda>sg.
           Option.bind (field v ''createdAt'' (p_datetime False)) (\<lambda>c.
           Option.bind (field v ''updatedAt'' (p_datetime False)) (\<lambda>u.
           Option.bind (field v ''mandate'' (p_engine_mandate x)) (\<lambda>m.
           Option.bind (field v ''providers'' (p_list 20 p_listed_provider)) (\<lambda>ps.
           Option.bind (fopt v ''selectedProvider'' p_short) (\<lambda>sel.
           Option.bind (field v ''dataSpentAtomic'' p_amount) (\<lambda>d.
           Option.bind (field v ''verificationSpentAtomic'' p_amount) (\<lambda>b.
           Option.bind (field v ''evidence'' (p_list 3 p_evidence)) (\<lambda>es.
           Option.bind (field v ''receipts'' (p_list 2 p_receipt)) (\<lambda>pr.
           Option.bind (field v ''events'' (p_list 100 p_event)) (\<lambda>ev.
           Option.bind (fopt v ''report'' p_result_report) (\<lambda>rp.
           Option.bind (fopt v ''approval'' (p_approval x)) (\<lambda>ap.
           Option.bind (fbool v ''shockApplied'') (\<lambda>sh.
           Option.bind (fopt v ''error'' p_long) (\<lambda>er.
           Option.bind (fopt v ''authorizations'' (p_list 0 (\<lambda>_. None :: unit option))) (\<lambda>au.
             Some \<lparr>run_id = i, run_mode = Live, run_title = ti, run_repos = rs, run_status = st, run_stage = sg,
                   run_created = c, run_updated = u, run_mandate = m, run_providers = ps, run_selected = sel,
                   run_dataSpent = d, run_verificationSpent = b, run_evidence = es, run_receipts = pr,
                   run_events = ev, run_report = rp, run_approval = ap, run_shock = sh, run_error = er,
                   run_auths = [], rr_authorizations = (au \<noteq> None)\<rparr>))))))))))))))))))))))"

section \<open>Printing\<close>

definition opt_entry :: "string \<Rightarrow> ('a \<Rightarrow> json) \<Rightarrow> 'a option \<Rightarrow> (string \<times> json) list" where
  "opt_entry k f v = (case v of None \<Rightarrow> [] | Some a \<Rightarrow> [(k, f a)])"

definition engine_mandate_json :: "mandate \<Rightarrow> json" where
  "engine_mandate_json m = JObj
     ([(''dataBudgetAtomic'', nat_json (md_dataBudget m)),
       (''verificationBudgetAtomic'', nat_json (md_verificationBudget m)),
       (''maxDataUnitPriceAtomic'', nat_json (md_unitPrice m)), (''allowedProviders'', repos_json (md_providers m)),
       (''expiresAt'', JStr (md_expires m)), (''version'', nat_json (md_version m))] @
      opt_entry ''verificationService'' service_json (md_service m))"

definition provider_json :: "provider \<Rightarrow> json" where
  "provider_json p = JObj
     [(''id'', JStr (pv_id p)), (''name'', JStr (pv_name p)), (''description'', JStr (pv_description p)),
      (''network'', JStr (pv_network p)), (''asset'', JStr (pv_asset p)), (''unit'', JStr (pv_unit p)),
      (''unitPriceAtomic'', nat_json (pv_price p))]"

definition receipt_json :: "payment_receipt \<Rightarrow> json" where
  "receipt_json r = JObj
     ([(''id'', JStr (pr_id r)), (''requestId'', JStr (pr_requestId r)), (''mode'', JStr (pr_mode r)),
       (''network'', JStr (pr_network r)), (''asset'', JStr (pr_asset r)), (''amountAtomic'', nat_json (pr_amount r)),
       (''units'', nat_json (pr_units r)), (''provider'', JStr (pr_provider r)), (''status'', JStr (pr_status r)),
       (''timestamp'', JStr (pr_timestamp r))] @
      opt_entry ''transactionId'' JStr (pr_transaction r) @ opt_entry ''explorerUrl'' JStr (pr_explorer r) @
      opt_entry ''orderId'' JStr (pr_order r) @ opt_entry ''recipient'' JStr (pr_recipient r))"

definition full_event_json :: "audit_event \<Rightarrow> json" where
  "full_event_json e = JObj (entries (event_json e) @ [(''hash'', JStr (ev_hash e))])"

definition report_json :: "report \<Rightarrow> json" where
  "report_json r = JObj
     [(''title'', JStr (rp_title r)), (''summary'', JStr (rp_summary r)), (''recommendation'', JStr (rp_recommendation r)),
      (''evidence'', JArr (rp_evidence r)), (''generatedBy'', JStr (rp_generatedBy r)),
      (''createdAt'', JStr (rp_created r)), (''checks'', JArr (rp_checks r)), (''verified'', JBool (rp_verified r))]"

definition approval_json :: "approval_request \<Rightarrow> json" where
  "approval_json a = JObj
     (opt_entry ''signerMode'' JStr (ap_signerMode a) @
      [(''nonce'', JStr (ap_nonce a)), (''message'', JStr (ap_message a)), (''expiresAt'', JStr (ap_expires a)),
       (''proposedMandate'', engine_mandate_json (ap_proposed a)), (''reason'', JStr (ap_reason a))])"

definition runner_result_json :: "runner_result \<Rightarrow> json" where
  "runner_result_json r = JObj
     ([(''id'', JStr (run_id r)), (''mode'', JStr (mode_str (run_mode r))), (''title'', JStr (run_title r)),
       (''repos'', repos_json (run_repos r)), (''status'', JStr (status_str (run_status r))),
       (''stage'', JStr (stage_str (run_stage r))), (''createdAt'', JStr (run_created r)),
       (''updatedAt'', JStr (run_updated r)), (''mandate'', engine_mandate_json (run_mandate r)),
       (''providers'', JArr (map provider_json (run_providers r)))] @
      opt_entry ''selectedProvider'' JStr (run_selected r) @
      [(''dataSpentAtomic'', nat_json (run_dataSpent r)),
       (''verificationSpentAtomic'', nat_json (run_verificationSpent r)), (''evidence'', JArr (run_evidence r)),
       (''receipts'', JArr (map receipt_json (run_receipts r))),
       (''events'', JArr (map full_event_json (run_events r)))] @
      opt_entry ''report'' report_json (run_report r) @ opt_entry ''approval'' approval_json (run_approval r) @
      [(''shockApplied'', JBool (run_shock r))] @ opt_entry ''error'' JStr (run_error r) @
      (if rr_authorizations r then [(''authorizations'', JArr [])] else []))"

section \<open>The status of a job\<close>

datatype job_status = JobQueued | JobRunning | JobSucceeded | JobFailed | JobBlocked | JobUncertain

text \<open>\<open>/uncertain|pending|reconcil|timeout|unknown|in.flight/i\<close>.\<close>

definition matches_at :: "(char \<Rightarrow> bool) list \<Rightarrow> string \<Rightarrow> bool" where
  "matches_at ps s \<longleftrightarrow> length ps \<le> length s \<and> list_all2 (\<lambda>p c. p c) ps (take (length ps) s)"

definition literally :: "string \<Rightarrow> (char \<Rightarrow> bool) list" where
  "literally p = map (=) p"

definition unsure_words :: "(char \<Rightarrow> bool) list list" where
  "unsure_words = map literally [''uncertain'', ''pending'', ''reconcil'', ''timeout'', ''unknown''] @
     [literally ''in'' @ (\<lambda>c. c \<noteq> CHR 0x0A \<and> c \<noteq> CHR 0x0D) # literally ''flight'']"

definition sounds_unsure :: "string \<Rightarrow> bool" where
  "sounds_unsure s = list_ex (\<lambda>ps. list_ex (\<lambda>i. matches_at ps (drop i (to_lower s))) [0..<Suc (length s)]) unsure_words"

definition settled_on :: "string \<Rightarrow> payment_receipt \<Rightarrow> bool" where
  "settled_on network p \<longleftrightarrow> pr_network p = network \<and> pr_status p = ''settled'' \<and> pr_transaction p \<notin> {None, Some []}"

definition confirmed_negative :: "'a run_scheme \<Rightarrow> json list option \<Rightarrow> bool" where
  "confirmed_negative r proofs \<longleftrightarrow>
     run_status r = StFailed \<and> run_stage r = AtVerification \<and>
     (case run_report r of None \<Rightarrow> False
      | Some p \<Rightarrow> \<not> rp_verified p \<and> list_ex (\<lambda>c. \<not> passes c) (rp_checks p)) \<and>
     list_all (\<lambda>network. list_ex (settled_on network) (run_receipts r) \<and>
       (case proofs of None \<Rightarrow> False | Some ps \<Rightarrow> list_ex (\<lambda>q. fld q ''network'' = Some (JStr network)) ps))
       [HEDERA_NETWORK, ARC_NETWORK]"

definition classifyRunnerStatus :: "'a run_scheme \<Rightarrow> json list option \<Rightarrow> job_status" where
  "classifyRunnerStatus r proofs =
     (if run_status r = StCompleted then JobSucceeded
      else if run_status r \<in> {StAwaiting, StPaused} then JobBlocked
      else if sounds_unsure (case run_error r of None \<Rightarrow> [] | Some e \<Rightarrow> e) then JobUncertain
      else if confirmed_negative r proofs then JobFailed
      else if run_stage r \<in> {AtPurchase, AtVerification} then JobUncertain else JobFailed)"

section \<open>The match with the job\<close>

record runner_job =
  rj_id :: string
  rj_repos :: "string list"
  rj_mandate :: signed_mandate

definition invalid_result :: js_error where
  "invalid_result = Platform 400 ''INVALID_RESULT'' ''Runner result does not match this job and its signed payment scope.''"

definition same_job_terms :: "runner_job \<Rightarrow> runner_result \<Rightarrow> bool" where
  "same_job_terms j r \<longleftrightarrow>
     (let m = rj_mandate j; n = run_mandate r in
       run_id r = rj_id j \<and> run_repos r = rj_repos j \<and> md_version n = 1 \<and> md_dataBudget n = mf_data m \<and>
       md_verificationBudget n = mf_verification m \<and> md_unitPrice n = mf_unitPrice m \<and> md_expires n = mf_expires m \<and>
       md_providers n = mf_providers m \<and> \<not> run_shock r)"

text \<open>\<open>/^0\.0\.\d+@\d+\.\d+$/\<close>.\<close>

definition is_transfer_id :: "string \<Rightarrow> bool" where
  "is_transfer_id s = (case split_on (CHR ''@'') s of
     [a, b] \<Rightarrow> take 4 a = ''0.0.'' \<and> 4 < length a \<and> list_all is_digit (drop 4 a) \<and>
       (case split_on (CHR ''.'') b of [c, d] \<Rightarrow> c \<noteq> [] \<and> list_all is_digit c \<and> d \<noteq> [] \<and> list_all is_digit d | _ \<Rightarrow> False)
   | _ \<Rightarrow> False)"

definition receipt_tx :: "payment_receipt \<Rightarrow> string" where
  "receipt_tx p = (case pr_transaction p of None \<Rightarrow> [] | Some t \<Rightarrow> t)"

definition data_receipt_ok :: "runner_job \<Rightarrow> runner_result \<Rightarrow> payment_receipt \<Rightarrow> bool" where
  "data_receipt_ok j r p \<longleftrightarrow>
     pr_asset p = ''HBAR'' \<and> pr_requestId p = rj_id j @ '':data'' \<and>
     pr_provider p \<in> set (mf_providers (rj_mandate j)) \<and> Some (pr_provider p) = run_selected r \<and>
     pr_units p = int (length (rj_repos j)) \<and> pr_amount p mod pr_units p = 0 \<and>
     pr_amount p \<le> mf_unitPrice (rj_mandate j) * int (length (rj_repos j)) \<and> is_transfer_id (receipt_tx p)"

definition verification_receipt_ok :: "runner_job \<Rightarrow> payment_receipt \<Rightarrow> bool" where
  "verification_receipt_ok j p \<longleftrightarrow>
     pr_amount p = (case mf_service (rj_mandate j) of None \<Rightarrow> 50000 | Some v \<Rightarrow> vs_price v) \<and>
     pr_asset p = ''USDC'' \<and> pr_requestId p = rj_id j @ '':verify'' \<and> pr_provider p = ''arc-verifier'' \<and>
     pr_units p = 1 \<and> hex_n 64 (receipt_tx p) \<and>
     (case mf_service (rj_mandate j) of None \<Rightarrow> True
      | Some v \<Rightarrow> pr_order p \<noteq> None \<and> map_option to_lower (pr_recipient p) = Some (to_lower (vs_recipient v)))"

text \<open>The loop over the receipts: each is checked and gets its explorer link; the request ids differ.\<close>

definition linked :: "payment_receipt \<Rightarrow> payment_receipt" where
  "linked p =
     (if pr_network p = HEDERA_NETWORK
      then p\<lparr>pr_explorer := Some (''https://hashscan.io/testnet/transaction/'' @ encodeURIComponent (receipt_tx p))\<rparr>
      else (let t = to_lower (receipt_tx p)
            in p\<lparr>pr_transaction := Some t, pr_explorer := Some (''https://testnet.arcscan.app/tx/'' @ t)\<rparr>))"

fun check_receipts :: "runner_job \<Rightarrow> runner_result \<Rightarrow> string list \<Rightarrow> payment_receipt list \<Rightarrow> bool" where
  "check_receipts j r seen [] = True"
| "check_receipts j r seen (p # ps) =
     (pr_requestId p \<notin> set seen \<and>
      (if pr_network p = HEDERA_NETWORK then data_receipt_ok j r p else verification_receipt_ok j p) \<and>
      check_receipts j r (pr_requestId p # seen) ps)"

definition paid_on :: "bool \<Rightarrow> payment_receipt list \<Rightarrow> int" where
  "paid_on hedera ps = (\<Sum>p \<leftarrow> filter (\<lambda>p. (pr_network p = HEDERA_NETWORK) = hedera) ps. pr_amount p)"

definition same_service :: "ext \<Rightarrow> runner_job \<Rightarrow> runner_result \<Rightarrow> unit res" where
  "same_service x j r =
     bindR (case mf_service (rj_mandate j) of None \<Rightarrow> Inr None
       | Some v \<Rightarrow> bindR (of_opt Zod (p_verification_service x (service_json v))) (\<lambda>u. Inr (Some u))) (\<lambda>s.
     need (md_service (run_mandate r) = s) invalid_result)"

definition evidence_of :: "runner_job \<Rightarrow> json list \<Rightarrow> bool" where
  "evidence_of j es \<longleftrightarrow>
     list_all (\<lambda>e. case fstr e ''repo'' of None \<Rightarrow> False
       | Some n \<Rightarrow> n \<in> set (rj_repos j) \<and> fstr e ''sourceUrl'' = Some (''https://api.github.com/repos/'' @ n)) es \<and>
     distinct (map (\<lambda>e. fstr e ''repo'') es)"

definition result_consistent :: "runner_job \<Rightarrow> runner_result \<Rightarrow> bool" where
  "result_consistent j r \<longleftrightarrow>
     (let m = rj_mandate j; bought = rj_id j @ '':data'' \<in> set (map pr_requestId (run_receipts r));
          data = paid_on True (run_receipts r); verification = paid_on False (run_receipts r) in
       (if bought then length (run_evidence r) = length (rj_repos j) else run_evidence r = []) \<and>
       (0 < verification \<longrightarrow> bought \<and> run_report r \<noteq> None) \<and>
       data = run_dataSpent r \<and> verification = run_verificationSpent r \<and> data \<le> mf_data m \<and>
       verification \<le> mf_verification m \<and>
       (case run_report r of None \<Rightarrow> True
        | Some p \<Rightarrow> stringify (JArr (rp_evidence p)) = stringify (JArr (run_evidence r)) \<and> bought) \<and>
       (run_status r = StCompleted \<longrightarrow>
         run_stage r = AtComplete \<and> length (run_receipts r) = 2 \<and>
         (case run_report r of None \<Rightarrow> False
          | Some p \<Rightarrow> rp_verified p \<and> rp_checks p \<noteq> [] \<and> list_all passes (rp_checks p)) \<and>
         length (run_evidence r) = length (rj_repos j)))"

definition validateRunnerResult :: "host \<Rightarrow> json \<Rightarrow> runner_job \<Rightarrow> runner_result res" where
  "validateRunnerResult h v j =
     bindR (of_opt Zod (p_result (hs_ext h) v)) (\<lambda>r.
     bindR (need (same_job_terms j r) invalid_result) (\<lambda>_.
     bindR (same_service (hs_ext h) j r) (\<lambda>_.
     bindR (need (verifyAudit (hs_web h) (run_events r)) invalid_result) (\<lambda>_.
     bindR (need (case run_selected r of None \<Rightarrow> True
         | Some s \<Rightarrow> s = [] \<or> s \<in> set (mf_providers (rj_mandate j))) invalid_result) (\<lambda>_.
     bindR (need (evidence_of j (run_evidence r)) invalid_result) (\<lambda>_.
     bindR (need (check_receipts j r [] (run_receipts r)) invalid_result) (\<lambda>_.
     bindR (need (result_consistent j r) invalid_result) (\<lambda>_.
       Inr (r\<lparr>run_receipts := map linked (run_receipts r)\<rparr>)))))))))"

end
