(* ===== verification/PrivateRunner.thy ===== *)
theory PrivateRunner
  imports RunnerJournal RunnerResult
begin

text \<open>
  The private runner: the gateway that checks every capability against the signed job, the
  execution of one job (\<open>src/src/lib/runner/execution.ts\<close>), the local broker and the hosted
  platform behind HTTP with the polling cycle (\<open>transport.ts\<close>), the configuration
  (\<open>config.ts\<close>) and the process of \<open>src/services/agent-runner.ts\<close>.

  A capability is one effect of the machine: a process dies before or after it. The platform, which
  answers every fetch, is not trusted: a job is whatever JSON it sent. \<open>fetch\<close>, the clock, random
  identifiers, the abort signal and the reading of a broker's reply as its declared type are the
  functions of \<open>runner_ext\<close>. Timers and console output are not modelled.
\<close>

section \<open>The gateway of a job\<close>

record runner_pins =
  rp_origin :: string
  rp_agentId :: string
  rp_owner :: string

type_synonym ('c, 'a) capability = "'c rworld \<Rightarrow> 'a res \<times> 'c rworld"

definition retC :: "'a res \<Rightarrow> ('c, 'a) capability" where
  "retC r w = (r, w)"

definition bindC :: "('c, 'a) capability \<Rightarrow> ('a \<Rightarrow> ('c, 'b) capability) \<Rightarrow> ('c, 'b) capability" where
  "bindC g f w = (case g w of (Inl e, w') \<Rightarrow> (Inl e, w') | (Inr a, w') \<Rightarrow> f a w')"

definition outC :: "('c \<Rightarrow> 'a res \<times> 'c) \<Rightarrow> ('c, 'a) capability" where
  "outC g = on_ext g"

text \<open>The claimed job: its repositories and its mandate, as the schemas read them.\<close>

definition pin_at :: "runner_pins \<Rightarrow> int \<Rightarrow> mandate_pin" where
  "pin_at p t = \<lparr>pin_owner = rp_owner p, pin_agentId = rp_agentId p, pin_origin = rp_origin p, pin_now = t\<rparr>"

definition job_scope :: "host \<Rightarrow> runner_pins \<Rightarrow> int \<Rightarrow> json \<Rightarrow> (string list \<times> signed_mandate) option" where
  "job_scope h p t j =
     Option.bind (check is_uuid (fstr j ''id'')) (\<lambda>_.
     Option.bind (check (\<lambda>a. a = rp_agentId p) (fstr j ''agentId'')) (\<lambda>_.
     Option.bind (field j ''repos'' p_scope) (\<lambda>rs.
     Option.bind (check (\<lambda>v. validateSignedMandate h v (pin_at p t)) (fld j ''mandate'')) (\<lambda>v.
     Option.bind (p_signed_mandate (hs_ext h) v) (\<lambda>m. Some (rs, m))))))"

definition validateJob :: "host \<Rightarrow> runner_pins \<Rightarrow> int \<Rightarrow> json \<Rightarrow> (string list \<times> signed_mandate) res" where
  "validateJob h p t j =
     bindR (of_opt (Err ''Runner rejected the job identity or signed mandate.'') (job_scope h p t j)) (\<lambda>(rs, m).
     bindR (need (set rs \<subseteq> set (mf_repos m)) (Err ''Job repositories are outside the signed mandate.'')) (\<lambda>_. Inr (rs, m)))"

record 'c base_gateway =
  bg_discover :: "'c \<Rightarrow> provider list res \<times> 'c"
  bg_purchaseData :: "data_purchase \<Rightarrow> 'c \<Rightarrow> data_result res \<times> 'c"
  bg_generateReport :: "json list \<Rightarrow> string \<Rightarrow> 'c \<Rightarrow> string res \<times> 'c"
  bg_verify :: "verification_purchase \<Rightarrow> signed_mandate option \<Rightarrow> 'c \<Rightarrow> verification_result res \<times> 'c"

definition validated :: "'c runner_ext \<Rightarrow> runner_pins \<Rightarrow> json \<Rightarrow> ('c, string list \<times> signed_mandate) capability" where
  "validated R p j w = (case on_ext (rn_now R) w of (t, w') \<Rightarrow> (validateJob (rn_host R) p t j, w'))"

definition allowed_call ::
    "'c runner_ext \<Rightarrow> runner_pins \<Rightarrow> json \<Rightarrow> ('c \<Rightarrow> unit res \<times> 'c) option \<Rightarrow> bool \<Rightarrow> ('c, string list \<times> signed_mandate) capability" where
  "allowed_call R p j authorize paid =
     bindC (validated R p j) (\<lambda>v. case (paid, authorize) of
         (True, Some a) \<Rightarrow> bindC (outC a) (\<lambda>_. validated R p j)
       | _ \<Rightarrow> retC (Inr v))"

definition job_id :: "json \<Rightarrow> string" where
  "job_id j = given (fstr j ''id'') []"

definition identity_ok :: "json \<Rightarrow> signed_mandate \<Rightarrow> string \<Rightarrow> string \<Rightarrow> string \<Rightarrow> string \<Rightarrow> bool" where
  "identity_ok j m runId requestId kind expires \<longleftrightarrow>
     runId = job_id j \<and> requestId = job_id j @ '':'' @ kind \<and> expires = mf_expires m"

text \<open>A call of the base gateway, and the flags set before and after it.\<close>

definition note_call :: "base_call \<Rightarrow> (gateway_guard \<Rightarrow> gateway_guard) \<Rightarrow> ('c, unit) capability" where
  "note_call c f w = (Inr (), w\<lparr>rw_guard := f (rw_guard w), rw_calls := rw_calls w @ [c]\<rparr>)"

definition set_guard :: "(gateway_guard \<Rightarrow> gateway_guard) \<Rightarrow> ('c, unit) capability" where
  "set_guard f w = (Inr (), w\<lparr>rw_guard := f (rw_guard w)\<rparr>)"

definition get_guard :: "('c, gateway_guard) capability" where
  "get_guard w = (Inr (rw_guard w), w)"

definition needC :: "bool \<Rightarrow> js_error \<Rightarrow> ('c, unit) capability" where
  "needC b e = retC (need b e)"

definition identity_error :: js_error where
  "identity_error = Err ''Capability identity does not match the signed job.''"

definition md_discover ::
    "'c runner_ext \<Rightarrow> runner_pins \<Rightarrow> json \<Rightarrow> 'c base_gateway \<Rightarrow> ('c \<Rightarrow> unit res \<times> 'c) option \<Rightarrow> ('c, provider list) capability" where
  "md_discover R p j b authorize =
     bindC (allowed_call R p j authorize False) (\<lambda>_. bindC (note_call (DiscoverCall j) id) (\<lambda>_. outC (bg_discover b)))"

definition data_allowed :: "gateway_guard \<Rightarrow> string list \<Rightarrow> signed_mandate \<Rightarrow> data_purchase \<Rightarrow> bool" where
  "data_allowed g rs m q \<longleftrightarrow> \<not> gg_data g \<and> stringify (repos_json (dp_repos q)) = stringify (repos_json rs) \<and>
     dp_provider q \<in> set (mf_providers m) \<and> safe_int (dp_unitPrice q) \<and> 0 < dp_unitPrice q \<and>
     dp_unitPrice q \<le> mf_unitPrice m \<and> dp_max q = dp_unitPrice q * int (length rs) \<and> dp_max q \<le> mf_data m"

definition md_purchase ::
    "'c runner_ext \<Rightarrow> runner_pins \<Rightarrow> json \<Rightarrow> 'c base_gateway \<Rightarrow> ('c \<Rightarrow> unit res \<times> 'c) option \<Rightarrow> data_purchase \<Rightarrow> ('c, data_result) capability" where
  "md_purchase R p j b authorize q =
     bindC (allowed_call R p j authorize True) (\<lambda>(rs, m).
     bindC (needC (identity_ok j m (dp_runId q) (dp_requestId q) ''data'' (dp_mandateExpires q)) identity_error) (\<lambda>_.
     bindC get_guard (\<lambda>g.
     bindC (needC (data_allowed g rs m q)
       (Err ''Data purchase exceeds or differs from the signed scope, or was already attempted.'')) (\<lambda>_.
     bindC (note_call (DataCall j q) (\<lambda>g. g\<lparr>gg_data := True\<rparr>)) (\<lambda>_.
     bindC (outC (bg_purchaseData b q)) (\<lambda>r.
     bindC (set_guard (\<lambda>g. g\<lparr>gg_purchased := Some (dr_evidence r)\<rparr>)) (\<lambda>_. retC (Inr r))))))))"

definition same_evidence :: "json list option \<Rightarrow> json list \<Rightarrow> bool" where
  "same_evidence bought es \<longleftrightarrow> (case bought of None \<Rightarrow> False | Some bs \<Rightarrow> stringify (JArr bs) = stringify (JArr es))"

definition md_report ::
    "'c runner_ext \<Rightarrow> runner_pins \<Rightarrow> json \<Rightarrow> 'c base_gateway \<Rightarrow> ('c \<Rightarrow> unit res \<times> 'c) option \<Rightarrow> json list \<Rightarrow> string \<Rightarrow> ('c, string) capability" where
  "md_report R p j b authorize es runId =
     bindC (allowed_call R p j authorize True) (\<lambda>_.
     bindC get_guard (\<lambda>g.
     bindC (needC (runId = job_id j \<and> same_evidence (gg_purchased g) es \<and> \<not> gg_report g)
       (Err ''Report capability does not match the purchased evidence or was already attempted.'')) (\<lambda>_.
     bindC (note_call (ReportCall j es runId) (\<lambda>g. g\<lparr>gg_report := True\<rparr>)) (\<lambda>_. outC (bg_generateReport b es runId)))))"

definition verify_allowed :: "gateway_guard \<Rightarrow> signed_mandate \<Rightarrow> verification_purchase \<Rightarrow> bool" where
  "verify_allowed g m q \<longleftrightarrow> \<not> gg_verification g \<and> gg_report g \<and> same_evidence (gg_purchased g) (rp_evidence (vp_report q)) \<and>
     vp_max q = (case mf_service m of None \<Rightarrow> 50000 | Some v \<Rightarrow> vs_price v) \<and> vp_max q \<le> mf_verification m"

definition md_verify ::
    "'c runner_ext \<Rightarrow> runner_pins \<Rightarrow> json \<Rightarrow> 'c base_gateway \<Rightarrow> ('c \<Rightarrow> unit res \<times> 'c) option \<Rightarrow> verification_purchase \<Rightarrow> ('c, verification_result) capability" where
  "md_verify R p j b authorize q =
     bindC (allowed_call R p j authorize True) (\<lambda>(_, m).
     bindC (needC (identity_ok j m (vp_runId q) (vp_requestId q) ''verify'' (vp_mandateExpires q)) identity_error) (\<lambda>_.
     bindC get_guard (\<lambda>g.
     bindC (needC (verify_allowed g m q)
       (Err ''Verification exceeds or differs from the signed scope, or was already attempted.'')) (\<lambda>_.
     bindC (note_call (VerifyCall j q) (\<lambda>g. g\<lparr>gg_verification := True\<rparr>)) (\<lambda>_.
       outC (bg_verify b q (if mf_service m = None then None else Some m)))))))"

definition createMandatedGateway ::
    "'c runner_ext \<Rightarrow> runner_pins \<Rightarrow> json \<Rightarrow> 'c base_gateway \<Rightarrow> ('c \<Rightarrow> unit res \<times> 'c) option \<Rightarrow> 'c rworld engine_ext" where
  "createMandatedGateway R p j b authorize =
     \<lparr>en_now = on_ext (rn_now R), en_uuid = on_ext (rn_uuid R), en_env = hs_env (rn_host R),
      en_verifies = (\<lambda>a m s. Inr (hs_verifies (rn_host R) a m s)), en_zodText = rn_zodText R,
      gw_discover = md_discover R p j b authorize, gw_purchaseData = md_purchase R p j b authorize,
      gw_generateReport = md_report R p j b authorize, gw_verify = md_verify R p j b authorize\<rparr>"

section \<open>Executing a job\<close>

definition no_guard :: gateway_guard where
  "no_guard = \<lparr>gg_data = False, gg_report = False, gg_verification = False, gg_purchased = None\<rparr>"

definition run_request_of :: "json \<Rightarrow> json \<Rightarrow> json" where
  "run_request_of j m = JObj
     (copied ''repos'' (fld j ''repos'') @ [(''mode'', JStr ''live''),
      (''mandate'', JObj (copied ''dataBudgetAtomic'' (fld m ''dataBudgetAtomic'') @
        copied ''verificationBudgetAtomic'' (fld m ''verificationBudgetAtomic'') @
        copied ''maxDataUnitPriceAtomic'' (fld m ''maxDataUnitPriceAtomic'') @
        copied ''allowedProviders'' (fld m ''allowedProviders'') @ copied ''expiresAt'' (fld m ''expiresAt'') @
        copied ''verificationService'' (fld m ''verificationService'')))])"

text \<open>
  The loop, with fuel: \<open>False\<close> means that the fuel ran out with the run still going, which five
  advances exclude.
\<close>

primrec job_loop :: "'c runner_ext \<Rightarrow> 'c rworld engine_ext \<Rightarrow> string \<Rightarrow> nat \<Rightarrow> run \<Rightarrow> ('c, bool) runner_prog" where
  "job_loop R y i 0 r = retP False"
| "job_loop R y i (Suc n) r =
     (if run_status r \<in> {StCompleted, StFailed, StAwaiting} then bindP (finish_job R i r) (\<lambda>_. retP True)
      else bindP (askP (on_ext (rn_aborted R))) (\<lambda>aborted.
        if aborted then bindP (stopUncertain R r) (\<lambda>r. bindP (finish_job R i r) (\<lambda>_. retP True))
        else bindP (advanceRun (rn_web R) y r) (\<lambda>r.
          bindP (checkpoint_job R i r) (\<lambda>_. job_loop R y i n r))))"

definition begin_job :: "'c runner_ext \<Rightarrow> runner_pins \<Rightarrow> 'c rworld engine_ext \<Rightarrow> json \<Rightarrow> ('c, run) runner_prog" where
  "begin_job R p y j =
     bindP (askP (on_ext (rn_now R))) (\<lambda>t.
     bindP (liftP (validateJob (rn_host R) p t j)) (\<lambda>_.
     bindP (liftP (mandate_in j)) (\<lambda>m.
     bindP (createRun (hs_ext (rn_host R)) (rn_web R) y (run_request_of j m)) (\<lambda>r.
     let r = r\<lparr>run_id := job_id j\<rparr> in
     bindP (start_job R j r) (\<lambda>_. bindP (setP (\<lambda>w. w\<lparr>rw_guard := no_guard\<rparr>)) (\<lambda>_. retP r))))))"

definition executeJob ::
    "'c runner_ext \<Rightarrow> runner_pins \<Rightarrow> 'c base_gateway \<Rightarrow> ('c \<Rightarrow> unit res \<times> 'c) option \<Rightarrow> nat \<Rightarrow> json \<Rightarrow> ('c, bool) runner_prog" where
  "executeJob R p b authorize fuel j =
     bindP (existing R j) (\<lambda>known.
     if known then retP True
     else (let y = createMandatedGateway R p j b authorize in
       bindP (begin_job R p y j) (job_loop R y (job_id j) fuel)))"

end
