(* ===== verification/RunnerProcess.thy ===== *)
theory RunnerProcess
  imports PrivateRunner
begin

text \<open>
  Around the execution of one job: the configuration a runner pins (\<open>config.ts\<close>), the local
  broker and the data service behind HTTP, the polling cycle against the hosted platform
  (\<open>transport.ts\<close>) and the process (\<open>src/services/agent-runner.ts\<close>), with its history over
  restarts and deaths.
\<close>

section \<open>Configuration\<close>

record runner_config =
  rc_pins :: runner_pins
  rc_token :: string
  rc_dataDir :: string
  rc_brokerUrl :: string
  rc_brokerToken :: string
  rc_dataServiceUrl :: string

record token_file =
  tf_regular :: bool
  tf_mode :: nat
  tf_mine :: bool
  tf_size :: nat
  tf_text :: "string res"

text \<open>What \<open>node:fs\<close> and \<open>node:path\<close> answer: \<open>resolve\<close>, \<open>realpath\<close>, and the opened token file.\<close>

record runner_files =
  fs_resolve :: "string \<Rightarrow> string"
  fs_mkdir :: "string \<Rightarrow> unit res"
  fs_realpath :: "string \<Rightarrow> string res"
  fs_token :: "string \<Rightarrow> token_file res"

definition is_loopback :: "url \<Rightarrow> bool" where
  "is_loopback u \<longleftrightarrow> hostname u \<in> {''127.0.0.1'', ''localhost'', ''[::1]''}"

definition parseUrl :: "ext \<Rightarrow> string option \<Rightarrow> string \<Rightarrow> url res" where
  "parseUrl x v label =
     bindR (of_opt (Err (label @ '' must be configured as an absolute URL.'')) (new_URL x (given v []))) (\<lambda>u.
     bindR (need (username u = [] \<and> password u = [] \<and> search u = [] \<and> hash_part u = [])
       (Err (label @ '' cannot contain credentials, query parameters or fragments.''))) (\<lambda>_. Inr u))"

definition https_or_local :: "url \<Rightarrow> bool" where
  "https_or_local u \<longleftrightarrow> protocol u = ''https:'' \<or> protocol u = ''http:'' \<and> is_loopback u"

definition is_raw_token :: "string \<Rightarrow> bool" where
  "is_raw_token s \<longleftrightarrow> 32 \<le> length s \<and> length s \<le> 512 \<and>
     list_all (\<lambda>c. is_alnum c \<or> c = CHR ''_'' \<or> c = CHR ''-'') s"

definition drop_slash :: "string \<Rightarrow> string" where
  "drop_slash s = (if s \<noteq> [] \<and> last s = CHR ''/'' then butlast s else s)"

definition filled :: "string option \<Rightarrow> bool" where
  "filled v \<longleftrightarrow> v \<noteq> None \<and> v \<noteq> Some []"

definition read_token_file :: "token_file \<Rightarrow> string res" where
  "read_token_file f =
     bindR (need (tf_regular f \<and> tf_mode f = 384 \<and> tf_mine f \<and> tf_size f \<le> 4096)
       (Err ''Runner token file must be a private regular file owned by this user with mode 0600.'')) (\<lambda>_.
     bindR (tf_text f) (\<lambda>t. Inr (trim t)))"

definition pinned_urls :: "ext \<Rightarrow> (string \<Rightarrow> string option) \<Rightarrow> (url \<times> url \<times> url) res" where
  "pinned_urls x env =
     bindR (parseUrl x (env ''RUNNER_PLATFORM_URL'') ''RUNNER_PLATFORM_URL'') (\<lambda>platform.
     bindR (need (pathname platform = ''/'' \<and> https_or_local platform)
       (Err ''RUNNER_PLATFORM_URL must be an HTTPS origin (HTTP is allowed only for loopback development).'')) (\<lambda>_.
     bindR (parseUrl x (env ''BROKER_URL'') ''BROKER_URL'') (\<lambda>broker.
     bindR (need (protocol broker = ''http:'' \<and> is_loopback broker \<and> pathname broker = ''/'')
       (Err ''BROKER_URL must be a loopback HTTP origin.'')) (\<lambda>_.
     bindR (parseUrl x (env ''DATA_SERVICE_URL'') ''DATA_SERVICE_URL'') (\<lambda>data.
     bindR (need (https_or_local data) (Err ''DATA_SERVICE_URL must be HTTPS or loopback HTTP.'')) (\<lambda>_.
       Inr (platform, broker, data)))))))"

definition runner_directory :: "runner_files \<Rightarrow> (string \<Rightarrow> string option) \<Rightarrow> string res" where
  "runner_directory fs env =
     (let dataDir = fs_resolve fs (given (env ''RUNNER_DATA_DIR'') []);
          brokerDir = fs_resolve fs (if filled (env ''BROKER_DATA_DIR'') then given (env ''BROKER_DATA_DIR'') [] else ''data/broker'')
      in bindR (fs_mkdir fs dataDir) (\<lambda>_. bindR (fs_realpath fs dataDir) (\<lambda>canonical.
         bindR (need (canonical \<noteq> (case fs_realpath fs brokerDir of Inl _ \<Rightarrow> brokerDir | Inr d \<Rightarrow> d))
           (Err ''Runner and broker must have distinct journal directories.'')) (\<lambda>_. Inr canonical))))"

definition loadRunnerConfig :: "ext \<Rightarrow> runner_files \<Rightarrow> (string \<Rightarrow> string option) \<Rightarrow> runner_config res" where
  "loadRunnerConfig x fs env =
     bindR (pinned_urls x env) (\<lambda>(platform, broker, data).
     bindR (need (check is_uuid (env ''RUNNER_AGENT_ID'') \<noteq> None \<and> check (hex_n 40) (env ''RUNNER_OWNER_ADDRESS'') \<noteq> None)
       (Err ''Pin RUNNER_AGENT_ID and RUNNER_OWNER_ADDRESS from your agent and owner wallet.'')) (\<lambda>_.
     bindR (need (filled (env ''BROKER_TOKEN'') \<and> CHR 0x0D \<notin> set (given (env ''BROKER_TOKEN'') []) \<and>
         CHR 0x0A \<notin> set (given (env ''BROKER_TOKEN'') []))
       (Err ''The local broker credential is missing or invalid.'')) (\<lambda>_.
     bindR (need (filled (env ''RUNNER_DATA_DIR'') \<and> filled (env ''RUNNER_TOKEN_FILE''))
       (Err ''RUNNER_DATA_DIR and RUNNER_TOKEN_FILE are required.'')) (\<lambda>_.
     bindR (runner_directory fs env) (\<lambda>dir.
     bindR (fs_token fs (fs_resolve fs (given (env ''RUNNER_TOKEN_FILE'') []))) (\<lambda>file.
     bindR (read_token_file file) (\<lambda>token.
     bindR (need (is_raw_token token) (Err ''Runner token file does not contain a valid raw pairing token.'')) (\<lambda>_.
       Inr \<lparr>rc_pins = \<lparr>rp_origin = origin platform, rp_agentId = given (env ''RUNNER_AGENT_ID'') [],
              rp_owner = given (env ''RUNNER_OWNER_ADDRESS'') []\<rparr>,
            rc_token = token, rc_dataDir = dir, rc_brokerUrl = origin broker,
            rc_brokerToken = given (env ''BROKER_TOKEN'') [], rc_dataServiceUrl = drop_slash (href data)\<rparr>))))))))"

section \<open>The local gateway\<close>

definition reply_json :: "http_response \<Rightarrow> js_error \<Rightarrow> json res" where
  "reply_json a e = bindR (need (hr_ok a) e) (\<lambda>_. hr_body a)"

text \<open>A request with a body is a POST; every failure is reported as the one error of its kind.\<close>

definition broker_call :: "'c runner_ext \<Rightarrow> runner_config \<Rightarrow> string \<Rightarrow> json option \<Rightarrow> 'c \<Rightarrow> json res \<times> 'c" where
  "broker_call R cfg path body u =
     (case rn_fetch R \<lparr>wq_method = (if body = None then ''GET'' else ''POST''), wq_url = rc_brokerUrl cfg @ path,
         wq_bearer = Some (rc_brokerToken cfg), wq_body = body,
         wq_timeout = (if path = ''/health'' then 45000 else 300000)\<rparr> u of
       (a, u') \<Rightarrow> (case bindR a (\<lambda>a. reply_json a (Err ''Broker request failed.'')) of
           Inr v \<Rightarrow> Inr v
         | Inl _ \<Rightarrow> Inl (Err (if body = None then ''Local broker is unavailable or its credential was rejected.''
             else ''Local broker operation failed; payment may be uncertain. Reconcile locally; no retry was made.'')), u'))"

definition broker_health :: "'c runner_ext \<Rightarrow> runner_config \<Rightarrow> 'c \<Rightarrow> unit res \<times> 'c" where
  "broker_health R cfg u = (case broker_call R cfg ''/health'' None u of (a, u') \<Rightarrow>
     (bindR a (\<lambda>v. if v = JNull then Inl (Thrown ''TypeError'')
        else need (fld v ''ready'' = Some (JBool True)) (Err ''Local broker is not ready. No job was claimed.'')), u'))"

definition p_local_provider :: "json \<Rightarrow> provider option" where
  "p_local_provider v = p_run_provider (JObj (filter (\<lambda>kv. fst kv \<noteq> ''endpoint'') (entries v)))"

definition p_local_providers :: "json \<Rightarrow> provider list option" where
  "p_local_providers v = check (\<lambda>ps. 1 \<le> length ps \<and> length ps \<le> 10)
     (if is_arr v then those (map p_local_provider (elems v)) else None)"

definition local_discover :: "'c runner_ext \<Rightarrow> runner_config \<Rightarrow> 'c \<Rightarrow> provider list res \<times> 'c" where
  "local_discover R cfg u =
     (case rn_fetch R \<lparr>wq_method = ''GET'', wq_url = rc_dataServiceUrl cfg @ ''/discovery'', wq_bearer = None, wq_body = None,
         wq_timeout = 10000\<rparr> u of
       (a, u') \<Rightarrow> (bindR a (\<lambda>a. bindR (reply_json a (Err ''Pinned service discovery is unavailable.'')) (\<lambda>v.
         of_opt Zod (p_local_providers v))), u'))"

definition verification_body :: "runner_config \<Rightarrow> verification_purchase \<Rightarrow> signed_mandate option \<Rightarrow> json" where
  "verification_body cfg q market = JObj
     ([(''runId'', JStr (vp_runId q)), (''requestId'', JStr (vp_requestId q)), (''maxAmountAtomic'', nat_json (vp_max q)),
       (''report'', report_json (vp_report q)), (''mandateExpiresAt'', JStr (vp_mandateExpires q))] @
      (case market of None \<Rightarrow> [] | Some m \<Rightarrow>
         [(''market'', JObj [(''mandate'', signed_json m), (''runnerToken'', JStr (rc_token cfg))])]))"

definition createLocalGateway :: "'c runner_ext \<Rightarrow> runner_config \<Rightarrow> 'c base_gateway" where
  "createLocalGateway R cfg =
     \<lparr>bg_discover = local_discover R cfg,
      bg_purchaseData = (\<lambda>q u. case broker_call R cfg ''/data'' (Some (purchase_json q)) u of
        (a, u') \<Rightarrow> (bindR a (rn_as_data R), u')),
      bg_generateReport = (\<lambda>es i u. case broker_call R cfg ''/report'' (Some (JObj [(''evidence'', JArr es), (''runId'', JStr i)])) u of
        (a, u') \<Rightarrow> (bindR a (\<lambda>v. if v = JNull then Inl (Thrown ''TypeError'') else of_opt Zod (p_summary v)), u')),
      bg_verify = (\<lambda>q market u. case broker_call R cfg ''/verify'' (Some (verification_body cfg q market)) u of
        (a, u') \<Rightarrow> (bindR a (rn_as_verification R), u'))\<rparr>"

section \<open>The polling cycle\<close>

definition platform_call :: "'c runner_ext \<Rightarrow> runner_config \<Rightarrow> string \<Rightarrow> json option \<Rightarrow> 'c \<Rightarrow> http_response res \<times> 'c" where
  "platform_call R cfg path body u =
     (case rn_fetch R \<lparr>wq_method = (if body = None then ''GET'' else ''POST''),
         wq_url = rp_origin (rc_pins cfg) @ path, wq_bearer = Some (rc_token cfg), wq_body = body, wq_timeout = 30000\<rparr> u of
       (a, u') \<Rightarrow> (bindR a (\<lambda>a. bindR (need (hr_ok a) (Err ''Platform request failed. Check connectivity and runner pairing.'')) (\<lambda>_. Inr a)), u'))"

definition job_path :: "string \<Rightarrow> string \<Rightarrow> string" where
  "job_path i what = ''/api/runner/jobs/'' @ encodeURIComponent i @ ''/'' @ what"

definition result_body :: "run \<Rightarrow> json" where
  "result_body r = JObj [(''result'', runner_result_json (run.extend r \<lparr>rr_authorizations = False\<rparr>))]"

primrec flush_entries :: "'c runner_ext \<Rightarrow> runner_config \<Rightarrow> job_entry list \<Rightarrow> ('c, unit) runner_prog" where
  "flush_entries R cfg [] = retP ()"
| "flush_entries R cfg (e # es) =
     bindP (callP (outC (platform_call R cfg (job_path (job_id (je_job e)) ''result'') (Some (result_body (je_run e)))))) (\<lambda>_.
     bindP (acknowledge_job R (job_id (je_job e))) (\<lambda>_. flush_entries R cfg es))"

definition flushResults :: "'c runner_ext \<Rightarrow> runner_config \<Rightarrow> ('c, unit) runner_prog" where
  "flushResults R cfg = bindP pending (flush_entries R cfg)"

definition authorize_job :: "'c runner_ext \<Rightarrow> runner_config \<Rightarrow> json \<Rightarrow> 'c \<Rightarrow> unit res \<times> 'c" where
  "authorize_job R cfg j u =
     (case platform_call R cfg (job_path (job_id j) ''authorization'') None u of
       (a, u') \<Rightarrow> (case bindR a hr_body of
           Inr v \<Rightarrow> need (fld v ''authorized'' = Some (JBool True))
             (Err ''Current runner authorization could not be confirmed. The next capability was blocked before submission.'')
         | Inl _ \<Rightarrow> Inl (Err ''Current runner authorization could not be confirmed. The next capability was blocked before submission.''), u'))"

definition claim_reply :: "http_response \<Rightarrow> json res" where
  "claim_reply a = bindR (hr_body a) (\<lambda>v. of_opt (Err ''Platform claim response is invalid.'') (fld v ''job''))"

text \<open>Six rounds of the loop are enough for the five advances of a run.\<close>

definition poll_cycle :: "'c runner_ext \<Rightarrow> runner_config \<Rightarrow> ('c, unit) runner_prog" where
  "poll_cycle R cfg =
     bindP (flushResults R cfg) (\<lambda>_.
     bindP (callP (outC (broker_health R cfg))) (\<lambda>_.
     bindP (callP (outC (platform_call R cfg ''/api/runner/claim'' (Some (JObj []))))) (\<lambda>a.
     bindP (liftP (claim_reply a)) (\<lambda>j.
     if j = JNull then retP ()
     else bindP (executeJob R (rc_pins cfg) (createLocalGateway R cfg) (Some (authorize_job R cfg j)) 6 j) (\<lambda>_.
       flushResults R cfg)))))"

definition pollOnce :: "'c runner_ext \<Rightarrow> runner_config \<Rightarrow> ('c, unit) runner_prog" where
  "pollOnce R cfg =
     bindP (getP rw_polling) (\<lambda>busy. bindP (needP (\<not> busy) (Err ''Runner already has an active polling cycle.'')) (\<lambda>_.
     bindP (setP (\<lambda>w. w\<lparr>rw_polling := True\<rparr>)) (\<lambda>_.
       finallyP (poll_cycle R cfg) (setP (\<lambda>w. w\<lparr>rw_polling := False\<rparr>)))))"

section \<open>The process\<close>

text \<open>The process polls until it is told to stop; \<open>k\<close> bounds the polls of one life.\<close>

primrec poll_loop :: "'c runner_ext \<Rightarrow> runner_config \<Rightarrow> nat \<Rightarrow> ('c, unit) runner_prog" where
  "poll_loop R cfg 0 = retP ()"
| "poll_loop R cfg (Suc k) =
     bindP (askP (on_ext (rn_aborted R))) (\<lambda>aborted. if aborted then retP ()
       else bindP (catchP (pollOnce R cfg) (\<lambda>_. retP ())) (\<lambda>_. poll_loop R cfg k))"

definition agent_runner :: "'c runner_ext \<Rightarrow> runner_config \<Rightarrow> nat \<Rightarrow> ('c, unit) runner_prog" where
  "agent_runner R cfg k =
     bindP (openJournal R (rp_agentId (rc_pins cfg))) (\<lambda>_.
     bindP (setP (\<lambda>w. w\<lparr>rw_polling := False\<rparr>)) (\<lambda>_. finallyP (poll_loop R cfg k) closeJournal))"

text \<open>The lives of a runner in one directory, from an empty one: the effects each may spend, and
  its polls. A stale lock is removed by hand between them.\<close>

definition new_runner :: "'c \<Rightarrow> 'c rworld" where
  "new_runner u = \<lparr>rw_ext = u, rw_data = \<lparr>jj_version = 1, jj_agent = [], jj_jobs = []\<rparr>, rw_poisoned = False,
     rw_closed = True, rw_polling = False, rw_guard = no_guard, rw_calls = []\<rparr>"

definition runner_lives ::
    "'c runner_ext \<Rightarrow> runner_config \<Rightarrow> (nat \<times> nat) list \<Rightarrow> 'c \<Rightarrow> (job_journal, 'c rworld) machine" where
  "runner_lives R cfg lives u = run_all (map (\<lambda>(n, k). (n, agent_runner R cfg k)) lives) (empty_machine (new_runner u))"

end
