(* ===== verification/RunStore.thy ===== *)
theory RunStore
  imports Engine
begin

text \<open>
  The run store, \<open>RunStore\<close> of \<open>src/src/lib/store.ts\<close>, and the requests of
  \<open>src/src/app/api/runs/\<close> that use it: one file holds every run; before an operation runs, the
  file says it is in flight, so that a process which dies in it finds the run interrupted and never
  repeats the operation. One process owns the file and serves its operations one after the other;
  a history is a list of requests, each with the number of effects the process lives for.

  The session, origin and operator checks of the requests and the HTTP envelopes are not modelled.
\<close>

section \<open>The store\<close>

record stored_run =
  sr_owner :: string
  sr_run :: run
  sr_inFlight :: "(run_stage \<times> string) option"

type_synonym ('c, 'a) store_prog = "(stored_run list, 'c, 'a) prog"

abbreviation runs_file :: string where
  "runs_file \<equiv> ''runs.json''"

definition read_store :: "('c, stored_run list) store_prog" where
  "read_store = bindP (readJournal (Err ''Run storage could not be read. No actions were executed.'') runs_file)
     (\<lambda>f. retP (given f []))"

definition write_store :: "stored_run list \<Rightarrow> ('c, unit) store_prog" where
  "write_store s = saveJournal runs_file s"

definition interrupted :: string where
  "interrupted = ''The server restarted during an operation. Reconcile the broker payment journal before starting another job; this operation will not be retried.''"

definition recover_run :: "web \<Rightarrow> 'c engine_ext \<Rightarrow> stored_run \<Rightarrow> ('s, 'c, stored_run) prog" where
  "recover_run w y s = (case sr_inFlight s of
       None \<Rightarrow> retP s
     | Some (stage, started) \<Rightarrow>
         bindP (askP (en_uuid y)) (\<lambda>u. bindP (askP (en_now y)) (\<lambda>t.
         let r = sr_run s in
         retP (s\<lparr>sr_run := r\<lparr>run_status := StFailed, run_error := Some interrupted,
             run_events := appendAudit w u (stamp t) (run_events r) Broker BlockedEvent ''Interrupted operation''
               (stage_str stage @ '' started at '' @ started @ ''. '' @ interrupted)\<rparr>,
           sr_inFlight := None\<rparr>))))"

definition owns :: "string \<Rightarrow> string \<Rightarrow> stored_run \<Rightarrow> bool" where
  "owns owner i s \<longleftrightarrow> sr_owner s = owner \<and> run_id (sr_run s) = i"

text \<open>The index of the first record that matches; the length of the list when none does.\<close>

definition position :: "('a \<Rightarrow> bool) \<Rightarrow> 'a list \<Rightarrow> nat" where
  "position P xs = length (takeWhile (\<lambda>x. \<not> P x) xs)"

definition find_run :: "string \<Rightarrow> string \<Rightarrow> ('c, stored_run list \<times> nat) store_prog" where
  "find_run owner i =
     bindP read_store (\<lambda>data.
     let n = position (owns owner i) data in
     bindP (needP (n < length data) (Err ''Run not found.'')) (\<lambda>_. retP (data, n)))"

definition store_get :: "web \<Rightarrow> 'c engine_ext \<Rightarrow> string \<Rightarrow> string \<Rightarrow> ('c, run) store_prog" where
  "store_get w y owner i =
     bindP (find_run owner i) (\<lambda>(data, n). bindP (recover_run w y (data ! n)) (\<lambda>s. retP (sr_run s)))"

primrec recover_all :: "web \<Rightarrow> 'c engine_ext \<Rightarrow> stored_run list \<Rightarrow> ('s, 'c, run list) prog" where
  "recover_all w y [] = retP []"
| "recover_all w y (s # ss) =
     bindP (recover_run w y s) (\<lambda>s. bindP (recover_all w y ss) (\<lambda>rs. retP (sr_run s # rs)))"

definition store_list :: "web \<Rightarrow> 'c engine_ext \<Rightarrow> string \<Rightarrow> ('c, run list) store_prog" where
  "store_list w y owner =
     bindP read_store (\<lambda>data.
     bindP (recover_all w y (filter (\<lambda>s. sr_owner s = owner) data)) (\<lambda>rs. retP (rev rs)))"

definition store_insert :: "string \<Rightarrow> run \<Rightarrow> ('c, run) store_prog" where
  "store_insert owner r =
     bindP read_store (\<lambda>data.
     bindP (needP (length (filter (\<lambda>s. sr_owner s = owner) data) < 50)
       (Err ''This session has reached 50 jobs. Export your records and start a new browser session.'')) (\<lambda>_.
     bindP (needP (length data < 500)
       (Err ''This demo server has reached its run capacity. Ask the operator to archive the data.'')) (\<lambda>_.
     bindP (write_store (data @ [\<lparr>sr_owner = owner, sr_run = r, sr_inFlight = None\<rparr>])) (\<lambda>_. retP r))))"

definition store_mutate ::
    "web \<Rightarrow> 'c engine_ext \<Rightarrow> string \<Rightarrow> string \<Rightarrow> (run \<Rightarrow> ('c, run) store_prog) \<Rightarrow> ('c, run) store_prog" where
  "store_mutate w y owner i action =
     bindP (find_run owner i) (\<lambda>(data, n).
     bindP (recover_run w y (data ! n)) (\<lambda>s.
     bindP (askP (en_now y)) (\<lambda>t.
     bindP (write_store (data[n := s\<lparr>sr_inFlight := Some (run_stage (sr_run s), stamp t)\<rparr>])) (\<lambda>_.
       catchP
         (bindP (action (sr_run s)) (\<lambda>r.
          bindP (write_store (data[n := s\<lparr>sr_run := r, sr_inFlight := None\<rparr>])) (\<lambda>_. retP r)))
         (\<lambda>e. bindP (write_store (data[n := s\<lparr>sr_inFlight := None\<rparr>])) (\<lambda>_. throwP e))))))"

section \<open>Requests\<close>

datatype run_action = Advance | Pause | Approve "string option"

datatype run_request =
    NewRun string json
  | ActOn string string run_action
  | ShowRun string string
  | ListRuns string

fun run_action_prog :: "web \<Rightarrow> 'c engine_ext \<Rightarrow> run_action \<Rightarrow> run \<Rightarrow> ('s, 'c, run) prog" where
  "run_action_prog w y Advance r = advanceRun w y r"
| "run_action_prog w y Pause r = pauseRun w y r"
| "run_action_prog w y (Approve sig) r = approveRun w y r sig"

definition act_on_run :: "web \<Rightarrow> 'c engine_ext \<Rightarrow> string \<Rightarrow> string \<Rightarrow> run_action \<Rightarrow> ('c, run) store_prog" where
  "act_on_run w y owner i a =
     bindP (store_get w y owner i) (\<lambda>existing. bindP (requireLiveRun existing) (\<lambda>_.
       store_mutate w y owner i (run_action_prog w y a)))"

fun run_api :: "ext \<Rightarrow> web \<Rightarrow> 'c engine_ext \<Rightarrow> run_request \<Rightarrow> ('c, run list) store_prog" where
  "run_api x w y (NewRun owner body) =
     bindP (createRun x w y body) (\<lambda>r. bindP (store_insert owner r) (\<lambda>r. retP [r]))"
| "run_api x w y (ActOn owner i a) = bindP (act_on_run w y owner i a) (\<lambda>r. retP [r])"
| "run_api x w y (ShowRun owner i) = bindP (store_get w y owner i) (\<lambda>r. retP [r])"
| "run_api x w y (ListRuns owner) = store_list w y owner"

definition runs_history ::
    "ext \<Rightarrow> web \<Rightarrow> 'c engine_ext \<Rightarrow> (nat \<times> run_request) list \<Rightarrow> 'c \<Rightarrow> (stored_run list, 'c) machine" where
  "runs_history x w y reqs u = run_all (map (\<lambda>(n, q). (n, run_api x w y q)) reqs) (empty_machine u)"

definition stored_runs :: "(stored_run list, 'c) machine \<Rightarrow> stored_run list" where
  "stored_runs m = (case journal m runs_file of Stored s \<Rightarrow> s | _ \<Rightarrow> [])"

section \<open>What holds of a run\<close>

datatype purchase_kind = DataKind | VerifyKind

fun request_name :: "purchase_kind \<Rightarrow> string \<Rightarrow> string" where
  "request_name DataKind i = i @ '':data''"
| "request_name VerifyKind i = i @ '':verify''"

text \<open>The purchase may have been sent, and an intent is within the run's mandate.\<close>

definition late :: "purchase_kind \<Rightarrow> run_stage set" where
  "late k = (case k of DataKind \<Rightarrow> {AtReport, AtVerification, AtComplete} | VerifyKind \<Rightarrow> {AtComplete})"

definition sent :: "purchase_kind \<Rightarrow> run \<Rightarrow> bool" where
  "sent k r \<longleftrightarrow> run_status r = StFailed \<or> run_stage r \<in> late k"

definition within_mandate :: "purchase_kind \<Rightarrow> run \<Rightarrow> op_intent \<Rightarrow> bool" where
  "within_mandate k r i \<longleftrightarrow> (case k of
     DataKind \<Rightarrow> (\<exists>a p. oi_args i = [int_dec a] \<and> a = p * int (length (run_repos r)) \<and>
        p \<le> md_unitPrice (run_mandate r) \<and> a \<le> md_dataBudget (run_mandate r))
   | VerifyKind \<Rightarrow> (\<exists>a. oi_args i = [int_dec a] \<and> a \<le> md_verificationBudget (run_mandate r)))"

text \<open>The controller signed this authorization, for this run.\<close>

definition controller_signed :: "'c engine_ext \<Rightarrow> run \<Rightarrow> authorization_proof \<Rightarrow> bool" where
  "controller_signed y r a \<longleftrightarrow> (\<exists>addr s mode nonce expires.
     en_env y ''LEDGER_CONTROLLER_ADDRESS'' = Some addr \<and> au_signature a = Some s \<and>
     au_message a = approval_message (run_id r) Live mode nonce expires (md_version (au_previous a)) (au_approved a) \<and>
     en_verifies y addr (au_message a) s = Inr True)"

text \<open>From a mandate to another by signed authorizations: each follows the one before, raises the
  version by one and at most the data budget.\<close>

fun raised_to :: "mandate \<Rightarrow> authorization_proof list \<Rightarrow> mandate \<Rightarrow> bool" where
  "raised_to m [] n = (n = m)"
| "raised_to m (a # as) n =
     (au_previous a = m \<and> md_version (au_approved a) = md_version m + 1 \<and>
      md_dataBudget m \<le> md_dataBudget (au_approved a) \<and>
      md_verificationBudget (au_approved a) = md_verificationBudget m \<and> md_service (au_approved a) = md_service m \<and>
      raised_to (au_approved a) as n)"

definition mandate_authorized :: "(string list \<Rightarrow> mandate \<Rightarrow> bool) \<Rightarrow> 'c engine_ext \<Rightarrow> run \<Rightarrow> bool" where
  "mandate_authorized B y r \<longleftrightarrow>
     (\<exists>m. B (run_repos r) m \<and> md_version m = 1 \<and> raised_to m (run_auths r) (run_mandate r)) \<and>
     (\<forall>a \<in> set (run_auths r). controller_signed y r a)"

text \<open>The mandates the requests of an owner asked for: not signed, the application is trusted with them.\<close>

definition asked_for :: "ext \<Rightarrow> (nat \<times> run_request) list \<Rightarrow> string \<Rightarrow> string list \<Rightarrow> mandate \<Rightarrow> bool" where
  "asked_for x reqs owner repos m \<longleftrightarrow>
     (\<exists>n body i t. (n, NewRun owner body) \<in> set reqs \<and> p_run_input x body = Some i \<and> ri_repos i = repos \<and>
        m = first_mandate (ri_mandate i) (stamp t))"

definition approval_ok :: "'c engine_ext \<Rightarrow> run \<Rightarrow> bool" where
  "approval_ok y r \<longleftrightarrow> (run_status r = StAwaiting \<longrightarrow> run_stage r = AtPurchase \<and>
     (\<exists>a. run_approval r = Some a \<and>
        (\<exists>mode. ap_message a = approval_message (run_id r) (run_mode r) mode (ap_nonce a) (ap_expires a)
           (md_version (run_mandate r)) (ap_proposed a)) \<and>
        md_dataBudget (run_mandate r) \<le> md_dataBudget (ap_proposed a) \<and>
        md_verificationBudget (ap_proposed a) = md_verificationBudget (run_mandate r) \<and>
        md_service (ap_proposed a) = md_service (run_mandate r)))"

definition spending_ok :: "run \<Rightarrow> bool" where
  "spending_ok r \<longleftrightarrow>
     0 \<le> run_dataSpent r \<and> run_dataSpent r \<le> md_dataBudget (run_mandate r) \<and>
     0 \<le> run_verificationSpent r \<and> run_verificationSpent r \<le> md_verificationBudget (run_mandate r) \<and>
     (\<forall>v. md_service (run_mandate r) = Some v \<longrightarrow> 0 \<le> vs_price v) \<and>
     (\<not> sent DataKind r \<longrightarrow> run_dataSpent r = 0) \<and> (\<not> sent VerifyKind r \<longrightarrow> run_verificationSpent r = 0)"

definition run_ok :: "(string list \<Rightarrow> mandate \<Rightarrow> bool) \<Rightarrow> web \<Rightarrow> 'c engine_ext \<Rightarrow> run \<Rightarrow> bool" where
  "run_ok B w y r \<longleftrightarrow> verifyAudit w (run_events r) \<and> mandate_authorized B y r \<and> approval_ok y r \<and> spending_ok r"

definition same_terms :: "run \<Rightarrow> run \<Rightarrow> bool" where
  "same_terms r r' \<longleftrightarrow> run_id r' = run_id r \<and> run_mode r' = run_mode r \<and> run_repos r' = run_repos r \<and>
     run_mandate r' = run_mandate r \<and> run_auths r' = run_auths r"

text \<open>What an operation may leave behind: the purchases it sent, and the changed run.\<close>

definition may_send :: "run \<Rightarrow> (string \<times> op_intent) list \<Rightarrow> bool" where
  "may_send r d \<longleftrightarrow> d = [] \<or>
     (\<exists>k i. d = [(request_name k (run_id r), i)] \<and> \<not> sent k r \<and> within_mandate k r i)"

definition acted :: "(string list \<Rightarrow> mandate \<Rightarrow> bool) \<Rightarrow> web \<Rightarrow> 'c engine_ext \<Rightarrow> run \<Rightarrow> (string \<times> op_intent) list \<Rightarrow> run \<Rightarrow> bool" where
  "acted B w y r d r' \<longleftrightarrow> run_ok B w y r' \<and> run_id r' = run_id r \<and> run_repos r' = run_repos r \<and> may_send r d \<and>
     (d = [] \<or> (\<exists>k i. d = [(request_name k (run_id r), i)] \<and> \<not> sent k r \<and> sent k r' \<and> within_mandate k r' i)) \<and>
     (\<forall>k. sent k r \<longrightarrow> sent k r' \<and> run_mandate r' = run_mandate r)"

end
