(* ===== verification/RunSafety.thy ===== *)
theory RunSafety
  imports RunStore
begin

text \<open>
  Why the run store keeps its promises. \<open>disk D S\<close> is the store holding the records \<open>D\<close> after
  the purchases \<open>S\<close> were sent. Each stage, and each operation of an owner, is a triple over it:
  the records stay as they are while the operation runs, and the purchases it adds are ones the run
  was still due. The store's marker turns that into a bound over every history of requests and
  process deaths.
\<close>

section \<open>Stages and operations\<close>

definition disk :: "stored_run list \<Rightarrow> (string \<times> op_intent) list \<Rightarrow> (stored_run list, 'c) machine \<Rightarrow> bool" where
  "disk D S m \<longleftrightarrow> journal m runs_file = Stored D \<and> submits m = S"

lemma stable_disk [simp]: "stable (disk D S)"
  by (simp add: stable_def disk_def)

definition logged :: "web \<Rightarrow> run \<Rightarrow> run \<Rightarrow> bool" where
  "logged w r r' \<longleftrightarrow> (\<exists>es t. r' = r\<lparr>run_events := es, run_updated := t\<rparr> \<and> verifyAudit w es = verifyAudit w (run_events r))"

lemma triple_ask_then:
  "stable P \<Longrightarrow> (\<And>a. triple I E P (f a) Q) \<Longrightarrow> triple I E P (bindP (askP g) f) Q"
  by (fastforce simp: triple_def bindP_def askP_def stable_def split: prod.splits)

lemma triple_log_then:
  assumes "stable P" "\<And>r'. logged w r r' \<Longrightarrow> triple I E P (f r') Q"
  shows "triple I E P (bindP (log_run w y r a k t d) f) Q"
proof -
  have "triple I E P (log_run w y r a k t d) (\<lambda>r' m. logged w r r' \<and> P m)"
    unfolding log_run_def
    by (intro triple_ask_then assms(1) triple_ret) (auto simp: logged_def)
  then show ?thesis
    by (rule triple_bind) (rule triple_pure, rule assms(2))
qed

lemma triple_log:
  assumes "stable P" "\<And>r' m. logged w r r' \<Longrightarrow> P m \<Longrightarrow> Q r' m"
  shows "triple I E P (log_run w y r a k t d) Q"
  unfolding log_run_def
  by (intro triple_ask_then assms(1) triple_ret assms(2)) (auto simp: logged_def)

lemma triple_attempt_call:
  assumes "stable P" "\<And>m. P m \<Longrightarrow> I m" "\<And>e. triple I E P (stop r e) Q" "\<And>a. triple I E P (k a) Q"
  shows "triple I E P (attempt r (callP g) k) Q"
  unfolding attempt_def
proof (rule triple_bind [where R = "\<lambda>_. P"])
  show "triple I E P (catchP (bindP (callP g) (\<lambda>a. retP (Inr a))) (\<lambda>e. retP (Inl e))) (\<lambda>_. P)"
    by (rule triple_catch [where E' = P], rule triple_call_then) (auto intro: triple_ret assms)
qed (auto simp: assms split: sum.split)

lemma triple_attempt_lift:
  assumes "\<And>e. triple I E P (stop r e) Q" "\<And>a. x = Inr a \<Longrightarrow> triple I E P (k a) Q"
  shows "triple I E P (attempt r (liftP x) k) Q"
  using assms by (cases x) (auto simp: attempt_def bindP_def catchP_def liftP_def retP_def throwP_def triple_def)

lemma triple_stop: "(\<And>m. P m \<Longrightarrow> Q (r, Some e) m) \<Longrightarrow> triple I E P (stop r e) Q"
  by (simp add: stop_def triple_ret)

lemma triple_go: "(\<And>m. P m \<Longrightarrow> Q (r, None) m) \<Longrightarrow> triple I E P (go r) Q"
  by (simp add: go_def triple_ret)

lemma triple_first_allowed:
  assumes "stable P"
  shows "triple I E P (first_allowed w y r ps) (\<lambda>a m. P m \<and> (case a of None \<Rightarrow> True
    | Some p \<Rightarrow> p \<in> set ps \<and> (\<exists>t. vd_allowed (assessQuote w t (run_mandate r) p (int (length (run_repos r))) (run_dataSpent r)))))"
proof (induction ps)
  case (Cons p ps)
  have "triple I E P (assess w y r p) (\<lambda>v m. (\<exists>t. v = assessQuote w t (run_mandate r) p (int (length (run_repos r))) (run_dataSpent r)) \<and> P m)"
    unfolding assess_def by (intro triple_ask_then assms triple_ret) auto
  then show ?case
    unfolding first_allowed.simps
    by (rule triple_bind) (rule triple_pure, rule triple_if, auto intro!: triple_ret triple_post [OF Cons.IH] split: option.splits)
qed (simp add: triple_ret)

text \<open>Fields that only the log writes do not matter to what an operation owes.\<close>

lemma parts_logged [simp]:
  "mandate_authorized B y (r\<lparr>run_events := es, run_updated := t\<rparr>) = mandate_authorized B y r"
  "approval_ok y (r\<lparr>run_events := es, run_updated := t\<rparr>) = approval_ok y r"
  "spending_ok (r\<lparr>run_events := es, run_updated := t\<rparr>) = spending_ok r"
  "sent k (r\<lparr>run_events := es, run_updated := t\<rparr>) = sent k r"
  "within_mandate k (r\<lparr>run_events := es, run_updated := t\<rparr>) i = within_mandate k r i"
  by (simp_all add: mandate_authorized_def approval_ok_def spending_ok_def controller_signed_def sent_def)
    (cases k; simp add: within_mandate_def)

lemma acted_logged:
  assumes "acted B w y r d r1" "logged w r1 r2"
  shows "acted B w y r d r2"
proof -
  obtain es t where r2: "r2 = r1\<lparr>run_events := es, run_updated := t\<rparr>" and es: "verifyAudit w es = verifyAudit w (run_events r1)"
    using assms(2) by (auto simp: logged_def)
  show ?thesis using assms(1) by (simp add: acted_def run_ok_def r2 es)
qed

lemma acted_error: "acted B w y r d (r1\<lparr>run_error := e\<rparr>) = acted B w y r d r1"
  by (auto simp: acted_def run_ok_def mandate_authorized_def approval_ok_def spending_ok_def controller_signed_def
      sent_def within_mandate_def split: purchase_kind.splits)

text \<open>What a stage returns: a run that is fine, or fine once it is marked failed.\<close>

definition staged :: "(string list \<Rightarrow> mandate \<Rightarrow> bool) \<Rightarrow> web \<Rightarrow> 'c engine_ext \<Rightarrow> run \<Rightarrow> (string \<times> op_intent) list \<Rightarrow> run \<times> js_error option \<Rightarrow> bool" where
  "staged B w y r d res = acted B w y r d (case res of (r', None) \<Rightarrow> r' | (r', Some e) \<Rightarrow> r'\<lparr>run_status := StFailed\<rparr>)"

definition stage_triple :: "(string list \<Rightarrow> mandate \<Rightarrow> bool) \<Rightarrow> web \<Rightarrow> 'c engine_ext \<Rightarrow> run \<Rightarrow>
    (string \<times> op_intent) list \<Rightarrow> ((stored_run list, 'c, run \<times> js_error option) prog) \<Rightarrow> bool" where
  "stage_triple B w y r d p \<longleftrightarrow> (\<forall>D S. triple (\<lambda>m. \<exists>d. may_send r d \<and> disk D (S @ d) m) (\<lambda>_. False) (disk D (S @ d)) p
     (\<lambda>res m. \<exists>d. staged B w y r d res \<and> disk D (S @ d) m))"

lemma may_send_Nil [simp]: "may_send r []"
  by (simp add: may_send_def)

lemma may_send_one: "\<not> sent k r \<Longrightarrow> within_mandate k r i \<Longrightarrow> may_send r [(request_name k (run_id r), i)]"
  unfolding may_send_def by blast

lemma stage_stop: "acted B w y r d (r'\<lparr>run_status := StFailed\<rparr>) \<Longrightarrow> stage_triple B w y r d (stop r' e)"
  by (auto simp: stage_triple_def staged_def intro!: triple_stop)

lemma stage_go: "acted B w y r d r' \<Longrightarrow> stage_triple B w y r d (go r')"
  by (auto simp: stage_triple_def staged_def intro!: triple_go)

lemma stage_log:
  assumes "\<And>es t. verifyAudit w es = verifyAudit w (run_events r1) \<Longrightarrow>
    stage_triple B w y r d (f (r1\<lparr>run_events := es, run_updated := t\<rparr>))"
  shows "stage_triple B w y r d (bindP (log_run w y r1 a k t x) f)"
proof -
  have "stage_triple B w y r d (f r2)" if "logged w r1 r2" for r2 using assms that by (auto simp: logged_def)
  then show ?thesis by (auto simp: stage_triple_def intro!: triple_log_then)
qed

lemma stage_ask: "(\<And>a. stage_triple B w y r d (f a)) \<Longrightarrow> stage_triple B w y r d (bindP (askP g) f)"
  by (auto simp: stage_triple_def intro!: triple_ask_then)

lemma stage_call:
  "may_send r d \<Longrightarrow> acted B w y r d (r1\<lparr>run_status := StFailed\<rparr>) \<Longrightarrow> (\<And>a. stage_triple B w y r d (k a)) \<Longrightarrow>
    stage_triple B w y r d (attempt r1 (callP g) k)"
  using stage_stop [of B w y r d r1] unfolding stage_triple_def
  by (intro allI triple_attempt_call stable_disk) blast+

lemma stage_lift:
  "acted B w y r d (r1\<lparr>run_status := StFailed\<rparr>) \<Longrightarrow> (\<And>a. v = Inr a \<Longrightarrow> stage_triple B w y r d (k a)) \<Longrightarrow>
    stage_triple B w y r d (attempt r1 (liftP v) k)"
  using stage_stop [of B w y r d r1] unfolding stage_triple_def
  by (intro allI triple_attempt_lift) blast+

lemma stage_note: "stage_triple B w y r [(n, i)] (f ()) \<Longrightarrow> stage_triple B w y r [] (bindP (noteSubmit n i) f)"
  unfolding stage_triple_def
  by (intro allI, rule triple_bind [where R = "\<lambda>_. disk _ (_ @ [(n, i)])"], rule triple_noteSubmit)
    (auto simp: disk_def)

text \<open>Changes that cost nothing keep a run fine; so does failing.\<close>

definition drafted :: "web \<Rightarrow> run \<Rightarrow> run \<Rightarrow> bool" where
  "drafted w r r1 \<longleftrightarrow> same_terms r r1 \<and> run_dataSpent r1 = run_dataSpent r \<and>
     run_verificationSpent r1 = run_verificationSpent r \<and> verifyAudit w (run_events r1)"

lemma within_same_terms: "same_terms r r1 \<Longrightarrow> within_mandate k r i \<Longrightarrow> within_mandate k r1 i"
  by (cases k) (auto simp: within_mandate_def same_terms_def)

lemma authorized_same_terms: "same_terms r r1 \<Longrightarrow> mandate_authorized B y r \<Longrightarrow> mandate_authorized B y r1"
  by (simp add: mandate_authorized_def same_terms_def controller_signed_def)

lemma acted_fail:
  assumes "run_ok B w y r" "drafted w r r1" "may_send r d"
  shows "acted B w y r d (r1\<lparr>run_status := StFailed\<rparr>)"
proof -
  let ?r = "r1\<lparr>run_status := StFailed\<rparr>"
  have same: "same_terms r ?r" using assms(2) by (simp add: drafted_def same_terms_def)
  have "run_ok B w y ?r"
    using assms(1,2) authorized_same_terms [OF same, of B y]
    by (simp add: run_ok_def drafted_def approval_ok_def spending_ok_def sent_def same_terms_def)
  then show ?thesis
    using assms(3) same within_same_terms [OF same] by (auto simp: acted_def may_send_def sent_def same_terms_def)
qed

lemma acted_move:
  assumes "run_ok B w y r" "drafted w r r1" "run_status r1 \<noteq> StAwaiting" "\<And>k. sent k r1 = sent k r"
  shows "acted B w y r [] r1"
proof -
  have same: "same_terms r r1" using assms(2) by (simp add: drafted_def)
  have "run_ok B w y r1"
    using assms(1,2,3) authorized_same_terms [OF same, of B y] assms(4) [of DataKind] assms(4) [of VerifyKind]
    by (simp add: run_ok_def drafted_def approval_ok_def [of y r1] spending_ok_def same_terms_def)
  then show ?thesis using same assms(4) by (simp add: acted_def same_terms_def)
qed

lemma acted_paid:
  assumes "run_ok B w y r" "same_terms r r1" "verifyAudit w (run_events r1)" "run_status r1 \<noteq> StAwaiting" "spending_ok r1"
    and "\<not> sent k r" "sent k r1" "within_mandate k r i" "\<And>j. sent j r \<Longrightarrow> sent j r1"
  shows "acted B w y r [(request_name k (run_id r), i)] r1"
proof -
  have "run_ok B w y r1"
    using assms(1,3-5) authorized_same_terms [OF assms(2), of B y] by (simp add: run_ok_def approval_ok_def)
  then show ?thesis
    using assms(2,6-9) within_same_terms [OF assms(2)] may_send_one [OF assms(6,8)] by (auto simp: acted_def same_terms_def)
qed

lemma drafted_refl: "run_ok B w y r \<Longrightarrow> drafted w r r"
  by (simp add: drafted_def same_terms_def run_ok_def)

lemma accept_mandate_stage:
  assumes ok: "run_ok B w y r" and status: "run_status r = StRunning" "run_stage r = AtMandate"
  shows "stage_triple B w y r [] (accept_mandate w y r)"
  unfolding accept_mandate_def
  by (rule stage_log, rule stage_go, rule acted_move [OF ok])
    (use ok status in \<open>auto simp: drafted_def same_terms_def run_ok_def sent_def late_def split: purchase_kind.splits\<close>)

lemma discover_services_stage:
  assumes ok: "run_ok B w y r" and status: "run_status r = StRunning" "run_stage r = AtDiscovery"
  shows "stage_triple B w y r [] (discover_services w y r)"
  unfolding discover_services_def Let_def
proof (rule stage_call)
  show "acted B w y r [] (r\<lparr>run_status := StFailed\<rparr>)" by (rule acted_fail [OF ok drafted_refl [OF ok]]) simp
  fix ps
  let ?r = "r\<lparr>run_providers := ps\<rparr>"
  have d: "drafted w r ?r" using drafted_refl [OF ok] by (simp add: drafted_def same_terms_def)
  show "stage_triple B w y r [] (case eligible ?r of [] \<Rightarrow> stop ?r (Err ''No discoverable provider is on the allowlist.'')
      | p # qs \<Rightarrow> bindP (log_run w y (?r\<lparr>run_selected := Some (pv_id p), run_stage := AtPurchase\<rparr>) Planner SuccessEvent
           ''Services discovered''
           (''Selected '' @ pv_name p @ '' at '' @ scaled (pv_price p) 8 @ '' HBAR per repository from '' @
            nat_dec (length (p # qs)) @ '' approved quotes.'')) go)"
  proof (cases "eligible ?r")
    case Nil
    then show ?thesis using acted_fail [OF ok d] by (auto intro: stage_stop)
  next
    case (Cons p qs)
    show ?thesis unfolding Cons list.case
      by (rule stage_log, rule stage_go, rule acted_move [OF ok])
        (use d status in \<open>auto simp: drafted_def same_terms_def sent_def late_def split: purchase_kind.splits\<close>)
  qed
qed simp

lemma draft_report_stage:
  assumes ok: "run_ok B w y r" and status: "run_status r = StRunning" "run_stage r = AtReport"
  shows "stage_triple B w y r [] (draft_report w y r)"
  unfolding draft_report_def
proof (rule stage_call)
  show "acted B w y r [] (r\<lparr>run_status := StFailed\<rparr>)" by (rule acted_fail [OF ok drafted_refl [OF ok]]) simp
  show "stage_triple B w y r [] (bindP (askP (en_now y)) (\<lambda>t.
     bindP (log_run w y (r\<lparr>run_report := Some \<lparr>rp_title = run_title r, rp_summary = summary,
         rp_recommendation = ''Use these observations as a starting point. Validate framework suitability against your project requirements; popularity is not a quality guarantee.'',
         rp_evidence = run_evidence r, rp_generatedBy = ''model'', rp_created = stamp t, rp_checks = [], rp_verified = False\<rparr>,
         run_stage := AtVerification\<rparr>) Worker SuccessEvent ''Report drafted''
       (''Model-generated analysis grounded in '' @ nat_dec (length (run_evidence r)) @
        '' purchased records. Source-integrity and structural checks are still pending.'')) go))" for summary
    by (rule stage_ask, rule stage_log, rule stage_go, rule acted_move [OF ok])
      (use drafted_refl [OF ok] status in
        \<open>auto simp: drafted_def same_terms_def sent_def late_def split: purchase_kind.splits\<close>)
qed simp

lemma acted_awaits:
  assumes ok: "run_ok B w y r" and d: "drafted w r r1" and r: "run_stage r = AtPurchase" "run_stage r1 = AtPurchase"
    "run_status r = StRunning"
    and a: "ap_message a = approval_message (run_id r) (run_mode r) mode (ap_nonce a) (ap_expires a)
      (md_version (run_mandate r)) (ap_proposed a)" "md_dataBudget (run_mandate r) \<le> md_dataBudget (ap_proposed a)"
      "md_verificationBudget (ap_proposed a) = md_verificationBudget (run_mandate r)"
      "md_service (ap_proposed a) = md_service (run_mandate r)"
  shows "acted B w y r [] (r1\<lparr>run_approval := Some a, run_status := StAwaiting, run_events := es, run_updated := t\<rparr>) =
    verifyAudit w es"
proof -
  let ?r = "r1\<lparr>run_approval := Some a, run_status := StAwaiting, run_events := es, run_updated := t\<rparr>"
  have same: "same_terms r ?r" using d by (simp add: drafted_def same_terms_def)
  have "approval_ok y ?r"
    using d a by (auto simp: approval_ok_def r drafted_def same_terms_def)
  moreover have "spending_ok ?r"
    using ok d by (simp add: run_ok_def spending_ok_def sent_def late_def drafted_def same_terms_def r)
  ultimately show ?thesis
    using ok authorized_same_terms [OF same, of B y] same
    by (simp add: acted_def run_ok_def same_terms_def sent_def r split: purchase_kind.split)
qed

lemma bindP_ret: "bindP (retP a) f = f a"
  by (rule ext) (simp add: bindP_def retP_def)

lemma bindP_assoc: "bindP (bindP p f) g = bindP p (\<lambda>a. bindP (f a) g)"
  by (rule ext) (simp add: bindP_def split: prod.split outcome.split)

lemma requestApproval_stage:
  assumes ok: "run_ok B w y r" and d: "drafted w r r1" and r: "run_stage r = AtPurchase" "run_stage r1 = AtPurchase"
    "run_status r = StRunning"
  shows "stage_triple B w y r [] (bindP (requestApproval w y r1 p reason) go)"
proof -
  have audit: "verifyAudit w (run_events r1)" and same: "same_terms r r1" using d by (simp_all add: drafted_def)
  show ?thesis
    unfolding requestApproval_def Let_def bindP_assoc
    by (rule stage_ask, rule stage_ask, rule stage_ask, rule stage_log, rule stage_go)
      (simp add: acted_awaits [OF ok d r, where mode = "signer_mode y"] audit proposed_mandate_def Let_def
        same [unfolded same_terms_def])
qed

lemma settle_data_stage:
  assumes ok: "run_ok B w y r" and d: "drafted w r r1" and r: "run_stage r = AtPurchase" "run_status r = StRunning"
    "run_status r1 = StRunning"
    and i: "within_mandate DataKind r i" "0 \<le> amount" "amount \<le> md_dataBudget (run_mandate r)"
  shows "stage_triple B w y r [(request_name DataKind (run_id r), i)] (settle_data w y r1 amount res)"
  unfolding settle_data_def
proof (rule stage_lift)
  have unsent: "\<not> sent DataKind r" "\<not> sent VerifyKind r" by (simp_all add: sent_def late_def r)
  show "acted B w y r [(request_name DataKind (run_id r), i)] (r1\<lparr>run_status := StFailed\<rparr>)"
    using unsent i by (intro acted_fail [OF ok d] may_send_one)
  have spent: "run_dataSpent r1 = 0" "run_verificationSpent r1 = 0"
    using ok d unsent by (simp_all add: run_ok_def spending_ok_def drafted_def)
  show "stage_triple B w y r [(request_name DataKind (run_id r), i)] (bindP (log_run w y (r1\<lparr>run_evidence := dr_evidence res,
        run_receipts := run_receipts r1 @ [dr_receipt res],
        run_dataSpent := run_dataSpent r1 + amount, run_stage := AtReport\<rparr>) Broker SuccessEvent ''Hedera payment settled''
       (scaled amount 8 @ '' HBAR purchased '' @ nat_dec (length (dr_evidence res)) @ '' source records. '' @
        given (pr_transaction (dr_receipt res)) ''undefined'')) go)"
  proof (rule stage_log, rule stage_go, rule acted_paid [OF ok])
    show "\<not> sent DataKind r" "within_mandate DataKind r i" by (fact unsent i)+
  qed (use ok d i spent unsent in \<open>auto simp: run_ok_def spending_ok_def drafted_def same_terms_def sent_def late_def r
      split: purchase_kind.splits\<close>)
qed

lemma buy_data_stage:
  assumes ok: "run_ok B w y r" and d: "drafted w r r1" and r: "run_stage r = AtPurchase" "run_status r = StRunning"
    "run_status r1 = StRunning"
    and p: "vd_allowed (assessQuote w t (run_mandate r) p (int (length (run_repos r))) (run_dataSpent r1))"
  shows "stage_triple B w y r [] (buy_data w y r1 p)"
proof -
  let ?amount = "pv_price p * int (length (run_repos r))" and ?i = "\<lparr>oi_kind = ''data'', oi_args = [int_dec (pv_price p * int (length (run_repos r)))]\<rparr>"
  have unsent: "\<not> sent DataKind r" by (simp add: sent_def late_def r)
  have spent: "run_dataSpent r1 = 0" using ok d unsent by (simp add: run_ok_def spending_ok_def drafted_def)
  have "0 < pv_price p" "pv_price p \<le> md_unitPrice (run_mandate r)" and amount: "?amount \<le> md_dataBudget (run_mandate r)"
    using assess_allowed [OF p] by (simp_all add: spent)
  then have within: "within_mandate DataKind r ?i" "0 \<le> ?amount" by (auto simp: within_mandate_def)
  have pay: "stage_triple B w y r [] (bindP (log_run w y (r2\<lparr>run_selected := Some (pv_id p)\<rparr>) Broker InfoEvent ''Payment authorized'' msg)
      (\<lambda>r. bindP (noteSubmit (data_request r) \<lparr>oi_kind = ''data'', oi_args = [int_dec (pv_price p * int (length (run_repos r2)))]\<rparr>) (\<lambda>_.
        attempt r (callP (gw_purchaseData y \<lparr>dp_runId = run_id r, dp_requestId = data_request r,
          dp_repos = run_repos r, dp_provider = pv_id p, dp_max = pv_price p * int (length (run_repos r2)), dp_unitPrice = pv_price p,
          dp_mandateExpires = md_expires (run_mandate r), dp_offerToken = None\<rparr>))
          (settle_data w y r (pv_price p * int (length (run_repos r2)))))))"
    if r2: "drafted w r r2" "run_status r2 = StRunning" for r2 msg
  proof (rule stage_log)
    fix es t
    assume es: "verifyAudit w es = verifyAudit w (run_events (r2\<lparr>run_selected := Some (pv_id p)\<rparr>))"
    let ?r = "r2\<lparr>run_selected := Some (pv_id p), run_events := es, run_updated := t\<rparr>"
    have d: "drafted w r ?r" using r2 es by (simp add: drafted_def same_terms_def)
    have names: "data_request ?r = request_name DataKind (run_id r)" "run_repos r2 = run_repos r"
      using r2 by (simp_all add: drafted_def same_terms_def data_request_def)
    show "stage_triple B w y r [] (bindP (noteSubmit (data_request ?r) \<lparr>oi_kind = ''data'', oi_args = [int_dec (pv_price p * int (length (run_repos r2)))]\<rparr>) (\<lambda>_.
        attempt ?r (callP (gw_purchaseData y \<lparr>dp_runId = run_id ?r, dp_requestId = data_request ?r,
          dp_repos = run_repos ?r, dp_provider = pv_id p, dp_max = pv_price p * int (length (run_repos r2)), dp_unitPrice = pv_price p,
          dp_mandateExpires = md_expires (run_mandate ?r), dp_offerToken = None\<rparr>))
          (settle_data w y ?r (pv_price p * int (length (run_repos r2))))))"
      unfolding names
      by (rule stage_note, rule stage_call)
        (use unsent within amount r2 in \<open>auto intro!: may_send_one acted_fail [OF ok d] settle_data_stage [OF ok d r(1,2)] simp del: request_name.simps\<close>)
  qed
  show ?thesis
  proof (cases "run_selected r1 = Some (pv_id p)")
    case True
    then show ?thesis using pay [OF d r(3)] by (simp add: buy_data_def bindP_ret Let_def)
  next
    case False
    show ?thesis
      unfolding buy_data_def Let_def if_P [OF False]
      by (rule stage_log) (use pay d r(3) in \<open>simp add: drafted_def same_terms_def\<close>)
  qed
qed

lemma stage_bind:
  assumes "\<And>D S. triple (\<lambda>m. \<exists>d. may_send r d \<and> disk D (S @ d) m) (\<lambda>_. False) (disk D S) p (\<lambda>a m. R a \<and> disk D S m)"
    and "\<And>a. R a \<Longrightarrow> stage_triple B w y r [] (f a)"
  shows "stage_triple B w y r [] (bindP p f)"
  unfolding stage_triple_def append_Nil2
proof (intro allI)
  fix D S
  show "triple (\<lambda>m. \<exists>d. may_send r d \<and> disk D (S @ d) m) (\<lambda>_. False) (disk D S) (bindP p f)
      (\<lambda>res m. \<exists>d. staged B w y r d res \<and> disk D (S @ d) m)"
    by (rule triple_bind [OF assms(1)], rule triple_pure)
      (use assms(2) in \<open>simp add: stage_triple_def\<close>)
qed

lemma choose_and_buy_stage:
  assumes ok: "run_ok B w y r" and d: "drafted w r r1" and r: "run_stage r = AtPurchase" "run_stage r1 = AtPurchase"
    "run_status r = StRunning" "run_status r1 = StRunning"
  shows "stage_triple B w y r [] (choose_and_buy w y r1)"
proof -
  have same: "run_mandate r1 = run_mandate r" "run_repos r1 = run_repos r" using d by (simp_all add: drafted_def same_terms_def)
  show ?thesis
    unfolding choose_and_buy_def
  proof (rule stage_bind, rule triple_post [OF triple_first_allowed])
    fix approved
    assume *: "case approved of None \<Rightarrow> True | Some p \<Rightarrow> p \<in> set (eligible r1) \<and>
      (\<exists>t. vd_allowed (assessQuote w t (run_mandate r1) p (int (length (run_repos r1))) (run_dataSpent r1)))"
    show "stage_triple B w y r [] (case approved of
       Some p \<Rightarrow> buy_data w y r1 p
     | None \<Rightarrow> (case eligible r1 of
           [] \<Rightarrow> stop r1 (Err ''No approved provider is available.'')
         | p # _ \<Rightarrow> bindP (assess w y r1 p) (\<lambda>v. bindP (requestApproval w y r1 p (vd_reason v)) go)))"
    proof (cases approved)
      case (Some p)
      then show ?thesis using * by (auto simp: same intro: buy_data_stage [OF ok d r(1,3,4)])
    next
      case None
      show ?thesis
      proof (cases "eligible r1")
        case Nil
        then show ?thesis by (simp add: None stage_stop acted_fail [OF ok d])
      next
        case (Cons p qs)
        show ?thesis
          unfolding None Cons list.case option.case assess_def bindP_assoc
          by (rule stage_ask) (simp add: bindP_ret requestApproval_stage [OF ok d r(1-3)])
      qed
    qed
  qed simp_all
qed

lemma purchase_data_stage:
  assumes ok: "run_ok B w y r" and r: "run_status r = StRunning" "run_stage r = AtPurchase" "run_mode r = Live"
  shows "stage_triple B w y r [] (purchase_data w y r)"
proof -
  have "drafted w r (r\<lparr>run_providers := ps\<rparr>)" for ps using drafted_refl [OF ok] by (simp add: drafted_def same_terms_def)
  then have "stage_triple B w y r [] (choose_and_buy w y (r\<lparr>run_providers := ps\<rparr>))" for ps
    by (rule choose_and_buy_stage [OF ok]) (simp_all add: r)
  then show ?thesis
    unfolding purchase_data_def if_P [OF r(3)] by (intro stage_call acted_fail [OF ok drafted_refl [OF ok]] may_send_Nil)
qed

lemma close_report_stage:
  assumes ok: "run_ok B w y r" and r: "run_stage r = AtVerification" "run_status r = StRunning"
    and r1: "same_terms r r1" "verifyAudit w (run_events r1)" "run_status r1 = StRunning"
      "run_dataSpent r1 = run_dataSpent r" "0 \<le> run_verificationSpent r1"
      "run_verificationSpent r1 \<le> md_verificationBudget (run_mandate r)"
    and i: "within_mandate VerifyKind r i"
  shows "stage_triple B w y r [(request_name VerifyKind (run_id r), i)] (close_report w y r1 rep checks)"
proof -
  have unsent: "\<not> sent VerifyKind r" "sent DataKind r" by (simp_all add: sent_def late_def r)
  have paid: "acted B w y r [(request_name VerifyKind (run_id r), i)] r2"
    if "same_terms r r2" "verifyAudit w (run_events r2)" "run_status r2 = StFailed \<or> run_status r2 = StCompleted \<and> run_stage r2 = AtComplete"
      "run_dataSpent r2 = run_dataSpent r" "run_verificationSpent r2 = run_verificationSpent r1" for r2
    by (rule acted_paid [OF ok that(1,2) _ _ unsent(1) _ i])
      (use ok that r1 in \<open>auto simp: run_ok_def spending_ok_def same_terms_def sent_def late_def split: purchase_kind.splits\<close>)
  show ?thesis
    unfolding close_report_def Let_def
    by (rule stage_lift) (use r1 in \<open>auto intro!: stage_log stage_go stage_stop paid simp: same_terms_def simp del: request_name.simps\<close>)
qed

lemma settle_verification_stage:
  assumes ok: "run_ok B w y r" and r: "run_stage r = AtVerification" "run_status r = StRunning" "run_mode r = Live"
    and amount: "0 \<le> amount" "run_verificationSpent r + amount \<le> md_verificationBudget (run_mandate r)"
    and i: "within_mandate VerifyKind r i"
  shows "stage_triple B w y r [(request_name VerifyKind (run_id r), i)] (settle_verification w y r rep amount res)"
  unfolding settle_verification_def Let_def
proof (rule stage_lift)
  have unsent: "\<not> sent VerifyKind r" by (simp add: sent_def late_def r)
  show "acted B w y r [(request_name VerifyKind (run_id r), i)] (r\<lparr>run_status := StFailed\<rparr>)"
    by (intro acted_fail [OF ok drafted_refl [OF ok]] may_send_one unsent i)
  let ?r = "r\<lparr>run_receipts := run_receipts r @ [vr_receipt res], run_verificationSpent := run_verificationSpent r + amount\<rparr>"
  have ends: "stage_triple B w y r [(request_name VerifyKind (run_id r), i)] (close_report w y ?r rep checks)" for checks
    by (rule close_report_stage [OF ok r(1,2)])
      (use ok amount i r(2) in \<open>simp_all add: same_terms_def run_ok_def spending_ok_def\<close>)
  have stops: "stage_triple B w y r [(request_name VerifyKind (run_id r), i)] (stop ?r e)" for e
    by (rule stage_stop, rule acted_paid [OF ok _ _ _ _ unsent _ i])
      (use ok amount in \<open>auto simp: same_terms_def run_ok_def spending_ok_def sent_def\<close>)
  show "stage_triple B w y r [(request_name VerifyKind (run_id r), i)] (case vr_checks res of
       Some (JArr (c # cs)) \<Rightarrow> close_report w y ?r rep (c # cs)
     | v \<Rightarrow> if run_mode ?r = Live then stop ?r (Err ''The paid verifier did not return its evidence checks.'')
            else close_report w y ?r rep (case v of Some j \<Rightarrow> elems j | None \<Rightarrow> []))"
    using ends stops r(3) by (auto split: option.split json.split list.split)
qed

lemma verify_report_stage:
  assumes ok: "run_ok B w y r" and r: "run_status r = StRunning" "run_stage r = AtVerification" "run_mode r = Live"
  shows "stage_triple B w y r [] (verify_report w y r)"
proof -
  define amount where "amount = (case md_service (run_mandate r) of Some v \<Rightarrow> vs_price v | None \<Rightarrow> 50000)"
  have unsent: "\<not> sent VerifyKind r" by (simp add: sent_def late_def r)
  have spent: "run_verificationSpent r = 0" and amount: "0 \<le> amount"
    using ok unsent by (auto simp: run_ok_def spending_ok_def amount_def split: option.splits)
  have stops: "stage_triple B w y r [] (stop r e)" for e
    by (intro stage_stop acted_fail [OF ok drafted_refl [OF ok]] may_send_Nil)
  show ?thesis
  proof (cases "md_verificationBudget (run_mandate r) < run_verificationSpent r + amount")
    case True
    then show ?thesis unfolding verify_report_def Let_def amount_def [symmetric] by (simp add: stops)
  next
    case False
    then have within: "within_mandate VerifyKind r \<lparr>oi_kind = ''verify'', oi_args = [int_dec amount]\<rparr>"
      by (auto simp: within_mandate_def spent)
    have name: "verify_request r = request_name VerifyKind (run_id r)" by (simp add: verify_request_def)
    have pays: "stage_triple B w y r [] (bindP (noteSubmit (request_name VerifyKind (run_id r)) \<lparr>oi_kind = ''verify'', oi_args = [int_dec amount]\<rparr>)
        (\<lambda>_. attempt r (callP (gw_verify y v)) (settle_verification w y r rep amount)))" for v rep
      by (rule stage_note, rule stage_call)
        (use False in \<open>auto intro!: may_send_one unsent within acted_fail [OF ok drafted_refl [OF ok]]
          settle_verification_stage [OF ok r(2,1,3) amount] simp del: request_name.simps\<close>)
    show ?thesis
      unfolding verify_report_def Let_def amount_def [symmetric] name
      using False stops pays by (simp split: option.split del: request_name.simps)
  qed
qed

lemma advance_stage_ok:
  assumes ok: "run_ok B w y r" and r: "run_status r = StRunning" "run_mode r = Live"
  shows "stage_triple B w y r [] (advance_stage w y r)"
  unfolding advance_stage_def
  using r accept_mandate_stage [OF ok] discover_services_stage [OF ok] purchase_data_stage [OF ok]
    draft_report_stage [OF ok] verify_report_stage [OF ok] stage_go [OF acted_move [OF ok drafted_refl [OF ok]]]
  by (auto split: run_stage.split)

text \<open>An operation returns what it acted, or throws before it changed anything.\<close>

definition action_triple :: "(string list \<Rightarrow> mandate \<Rightarrow> bool) \<Rightarrow> web \<Rightarrow> 'c engine_ext \<Rightarrow> run \<Rightarrow> ((stored_run list, 'c, run) prog) \<Rightarrow> bool" where
  "action_triple B w y r p \<longleftrightarrow> (\<forall>D S. triple (\<lambda>m. \<exists>d. may_send r d \<and> disk D (S @ d) m) (disk D S) (disk D S) p
     (\<lambda>r' m. \<exists>d. acted B w y r d r' \<and> disk D (S @ d) m))"

lemma acted_refl: "run_ok B w y r \<Longrightarrow> acted B w y r [] r"
  by (simp add: acted_def)

lemma action_ret: "acted B w y r [] r' \<Longrightarrow> action_triple B w y r (retP r')"
  by (auto simp: action_triple_def intro!: triple_ret exI [of _ "[]"])

lemma action_need: "(b \<Longrightarrow> action_triple B w y r (f ())) \<Longrightarrow> action_triple B w y r (bindP (needP b e) f)"
  by (auto simp: action_triple_def intro!: triple_need_then)

lemma action_lift: "(\<And>a. v = Inr a \<Longrightarrow> action_triple B w y r (f a)) \<Longrightarrow> action_triple B w y r (bindP (liftP v) f)"
  by (auto simp: action_triple_def intro!: triple_lift_then)

lemma action_ask: "(\<And>a. action_triple B w y r (f a)) \<Longrightarrow> action_triple B w y r (bindP (askP g) f)"
  by (auto simp: action_triple_def intro!: triple_ask_then)

lemma action_log:
  "acted B w y r [] (r1\<lparr>run_events := run_events r\<rparr>) \<Longrightarrow> verifyAudit w (run_events r1) = verifyAudit w (run_events r) \<Longrightarrow>
    action_triple B w y r (log_run w y r1 a k t x)"
  unfolding action_triple_def
proof (intro allI, rule triple_log)
  fix D S r' m
  assume *: "acted B w y r [] (r1\<lparr>run_events := run_events r\<rparr>)" "verifyAudit w (run_events r1) = verifyAudit w (run_events r)"
    "logged w r1 r'" "disk D S m"
  then have "logged w (r1\<lparr>run_events := run_events r\<rparr>) r'" by (auto simp: logged_def)
  then show "\<exists>d. acted B w y r d r' \<and> disk D (S @ d) m"
    using * acted_logged by (intro exI [of _ "[]"]) auto
qed simp

lemma triple_pointI: "(\<And>m. P m \<Longrightarrow> triple I E ((=) m) p Q) \<Longrightarrow> triple I E P p Q"
  by (simp add: triple_def)

lemma triple_pointD: "triple I E P p Q \<Longrightarrow> P m \<Longrightarrow> triple I E ((=) m) p Q"
  by (simp add: triple_def)

lemma triple_ex:
  assumes "\<And>d. triple I E (P d) p Q"
  shows "triple I E (\<lambda>m. \<exists>d. P d m) p Q"
  by (rule triple_pointI, erule exE, rule triple_pointD [OF assms])

lemma action_stage:
  assumes stage: "stage_triple B w y r0 [] p"
    and fits: "\<And>d. may_send r0 d \<Longrightarrow> may_send r d" "\<And>d r'. acted B w y r0 d r' \<Longrightarrow> acted B w y r d r'"
  shows "action_triple B w y r (bindP p (\<lambda>(r, e). case e of None \<Rightarrow> retP r | Some e \<Rightarrow> fail_run w y r e))"
  unfolding action_triple_def
proof (intro allI)
  fix D :: "stored_run list" and S
  show "triple (\<lambda>m. \<exists>d. may_send r d \<and> disk D (S @ d) m) (disk D S) (disk D S)
      (bindP p (\<lambda>(r, e). case e of None \<Rightarrow> retP r | Some e \<Rightarrow> fail_run w y r e))
      (\<lambda>r' m. \<exists>d. acted B w y r d r' \<and> disk D (S @ d) m)"
  proof (rule triple_bind)
    show "triple (\<lambda>m. \<exists>d. may_send r d \<and> disk D (S @ d) m) (disk D S) (disk D S) p
        (\<lambda>res m. \<exists>d. staged B w y r0 d res \<and> disk D (S @ d) m)"
      by (rule triple_conseq [OF stage [unfolded stage_triple_def, rule_format, of D S]]) (use fits(1) in auto)
    fix res :: "run \<times> js_error option"
    obtain r' e where res: "res = (r', e)" by (cases res)
    have "triple (\<lambda>m. \<exists>d. may_send r d \<and> disk D (S @ d) m) (disk D S) (disk D (S @ d))
        (case e of None \<Rightarrow> retP r' | Some e \<Rightarrow> fail_run w y r' e)
        (\<lambda>r' m. \<exists>d. acted B w y r d r' \<and> disk D (S @ d) m)" if st: "staged B w y r0 d res" for d
    proof (cases e)
      case None
      then have "acted B w y r d r'" using st fits(2) by (simp add: staged_def res)
      then show ?thesis by (auto simp: None intro!: triple_ret)
    next
      case (Some err)
      then have "acted B w y r d (r'\<lparr>run_status := StFailed, run_error := Some (error_text y err)\<rparr>)"
        using st fits(2) acted_error [of B w y r d "Some (error_text y err)" "r'\<lparr>run_status := StFailed\<rparr>"]
        by (simp add: staged_def res)
      then show ?thesis
        by (auto simp: Some fail_run_def intro!: triple_log dest: acted_logged)
    qed
    then have each: "triple (\<lambda>m. \<exists>d. may_send r d \<and> disk D (S @ d) m) (disk D S) (\<lambda>m. staged B w y r0 d (r', e) \<and> disk D (S @ d) m)
        (case e of None \<Rightarrow> retP r' | Some e \<Rightarrow> fail_run w y r' e)
        (\<lambda>r' m. \<exists>d. acted B w y r d r' \<and> disk D (S @ d) m)" for d
      unfolding res [symmetric] by (intro triple_pure)
    show "triple (\<lambda>m. \<exists>d. may_send r d \<and> disk D (S @ d) m) (disk D S) (\<lambda>m. \<exists>d. staged B w y r0 d res \<and> disk D (S @ d) m)
        (case res of (r, e) \<Rightarrow> case e of None \<Rightarrow> retP r | Some e \<Rightarrow> fail_run w y r e)
        (\<lambda>r' m. \<exists>d. acted B w y r d r' \<and> disk D (S @ d) m)"
      unfolding res prod.case by (rule triple_ex, rule each)
  qed
qed

lemma advanceRun_ok:
  assumes ok: "run_ok B w y r"
  shows "action_triple B w y r (advanceRun w y r)"
  unfolding advanceRun_def requireLiveRun_def
proof (rule action_need)
  assume live: "run_mode r = Live"
  show "action_triple B w y r (if run_status r \<in> {StCompleted, StFailed, StPaused, StAwaiting} then retP r
     else let r = r\<lparr>run_status := StRunning\<rparr> in
       bindP (askP (en_now y)) (\<lambda>now.
       bindP (if (case parse_date w (md_expires (run_mandate r)) of None \<Rightarrow> False | Some t \<Rightarrow> t \<le> now)
              then stop r (Err ''Mandate expired. Start a new job with a fresh allowance.'')
              else advance_stage w y r) (\<lambda>(r, e).
       case e of None \<Rightarrow> retP r | Some e \<Rightarrow> fail_run w y r e)))"
  proof (cases "run_status r \<in> {StCompleted, StFailed, StPaused, StAwaiting}")
    case True
    then show ?thesis using action_ret [OF acted_refl [OF ok]] by (simp only: if_True)
  next
    case False
    let ?r = "r\<lparr>run_status := StRunning\<rparr>"
    have sents: "sent k ?r = sent k r" for k using False by (auto simp: sent_def)
    have ok': "run_ok B w y ?r"
      using ok sents by (simp add: run_ok_def mandate_authorized_def controller_signed_def approval_ok_def spending_ok_def)
    have within: "within_mandate k ?r i = within_mandate k r i" for k i by (cases k) (simp_all add: within_mandate_def)
    have fits: "may_send ?r d \<Longrightarrow> may_send r d" "acted B w y ?r d r' \<Longrightarrow> acted B w y r d r'" for d r'
      by (simp_all add: may_send_def acted_def sents within del: request_name.simps)
    have stage: "stage_triple B w y ?r [] (if b then stop ?r e else advance_stage w y ?r)" for b e
      using advance_stage_ok [OF ok'] live
      by (auto intro!: stage_stop acted_fail [OF ok' drafted_refl [OF ok']])
    show ?thesis
      unfolding if_not_P [OF False] Let_def
      by (rule action_ask, rule action_stage [OF stage fits])
  qed
qed

lemma pauseRun_ok:
  assumes ok: "run_ok B w y r"
  shows "action_triple B w y r (pauseRun w y r)"
  unfolding pauseRun_def requireLiveRun_def Let_def
proof (rule action_need, rule action_need, rule action_log)
  let ?s = "if run_status r = StPaused then StRunning else StPaused"
  assume status: "run_status r \<notin> {StFailed, StCompleted, StAwaiting}"
  have "drafted w r (r\<lparr>run_status := ?s\<rparr>)" using drafted_refl [OF ok] by (simp add: drafted_def same_terms_def)
  then have "acted B w y r [] (r\<lparr>run_status := ?s\<rparr>)"
    by (rule acted_move [OF ok]) (use status in \<open>auto simp: sent_def\<close>)
  then show "acted B w y r [] (r\<lparr>run_status := ?s, run_events := run_events r\<rparr>)" by simp
qed simp

lemma check_signature_Inr:
  assumes "check_signature y a sig = Inr u"
  shows "\<exists>addr s. en_env y ''LEDGER_CONTROLLER_ADDRESS'' = Some addr \<and> sig = Some s \<and> en_verifies y addr (ap_message a) s = Inr True"
  using assms by (auto simp: check_signature_def Let_def bindR_eq_Inr)

lemma authorization_approved [simp]:
  "au_approved (authorization y r a sig now) = ap_proposed a" "au_previous (authorization y r a sig now) = run_mandate r"
  by (simp_all add: authorization_def)

lemma raised_to_snoc: "raised_to m (as @ [a]) n \<longleftrightarrow> n = au_approved a \<and> raised_to m as (au_previous a) \<and>
    md_version (au_approved a) = md_version (au_previous a) + 1 \<and>
    md_dataBudget (au_previous a) \<le> md_dataBudget (au_approved a) \<and>
    md_verificationBudget (au_approved a) = md_verificationBudget (au_previous a) \<and>
    md_service (au_approved a) = md_service (au_previous a)"
  by (induction as arbitrary: m) auto

lemma approveRun_ok:
  assumes ok: "run_ok B w y r"
  shows "action_triple B w y r (approveRun w y r sig)"
  unfolding approveRun_def requireLiveRun_def
proof (rule action_need, rule action_lift, rule action_ask, rule action_need, rule action_need, goal_cases)
  case (1 a now)
  then have live: "run_mode r = Live" and status: "run_status r = StAwaiting" and a: "run_approval r = Some a"
    and version: "md_version (ap_proposed a) = md_version (run_mandate r) + 1"
    by (auto split: if_splits)
  have pending: "run_stage r = AtPurchase"
    "\<exists>mode. ap_message a = approval_message (run_id r) (run_mode r) mode (ap_nonce a) (ap_expires a)
       (md_version (run_mandate r)) (ap_proposed a)"
    "md_dataBudget (run_mandate r) \<le> md_dataBudget (ap_proposed a)"
    "md_verificationBudget (ap_proposed a) = md_verificationBudget (run_mandate r)"
    "md_service (ap_proposed a) = md_service (run_mandate r)"
    using ok status a by (auto simp: run_ok_def approval_ok_def)
  have unsent: "\<not> sent k r" for k by (cases k) (simp_all add: sent_def late_def pending status)
  have acts: "acted B w y r [] (r\<lparr>run_auths := run_auths r @ [authorization y r a sig now], run_mandate := ap_proposed a,
      run_approval := None, run_status := StRunning\<rparr>)"
    if sig: "check_signature y a sig = Inr u" for u now
  proof -
    let ?r = "r\<lparr>run_auths := run_auths r @ [authorization y r a sig now], run_mandate := ap_proposed a,
      run_approval := None, run_status := StRunning\<rparr>"
    have signed: "controller_signed y ?r (authorization y r a sig now)"
      using check_signature_Inr [OF sig] pending(2) unfolding controller_signed_def authorization_def live
      by simp blast
    have old: "controller_signed y ?r b = controller_signed y r b" for b by (simp add: controller_signed_def)
    have "mandate_authorized B y ?r"
      using ok version pending(3-5) signed old
      by (auto simp: run_ok_def mandate_authorized_def raised_to_snoc authorization_approved)
    moreover have "spending_ok ?r"
      using ok pending unsent [of DataKind] unsent [of VerifyKind] by (auto simp: run_ok_def spending_ok_def sent_def late_def)
    ultimately show ?thesis using ok unsent by (simp add: acted_def run_ok_def approval_ok_def)
  qed
  show ?case
    unfolding if_P [OF live]
    by (rule action_lift, rule action_ask, rule action_log) (use acts in auto)
qed

lemma run_action_ok: "run_ok B w y r \<Longrightarrow> action_triple B w y r (run_action_prog w y a r)"
  by (cases a) (simp_all add: advanceRun_ok pauseRun_ok approveRun_ok)

section \<open>The store\<close>

definition may_have_sent :: "purchase_kind \<Rightarrow> stored_run \<Rightarrow> bool" where
  "may_have_sent k s \<longleftrightarrow> sr_inFlight s \<noteq> None \<or> sent k (sr_run s)"

definition due :: "purchase_kind \<Rightarrow> string \<Rightarrow> stored_run \<Rightarrow> bool" where
  "due k i s \<longleftrightarrow> run_id (sr_run s) = i \<and> may_have_sent k s"

definition named :: "string \<Rightarrow> (string \<times> op_intent) list \<Rightarrow> op_intent list" where
  "named n S = map snd (filter (\<lambda>s. fst s = n) S)"

text \<open>Every purchase sent is accounted for by a record of its run, one record for each.\<close>

definition accounted :: "stored_run list \<Rightarrow> (string \<times> op_intent) list \<Rightarrow> bool" where
  "accounted D S \<longleftrightarrow> (\<forall>k i. length (named (request_name k i) S) \<le> length (filter (due k i) D) \<and>
     (\<forall>t \<in> set (named (request_name k i) S). \<exists>s \<in> set D. due k i s \<and> within_mandate k (sr_run s) t))"

definition store_ok :: "(string \<Rightarrow> string list \<Rightarrow> mandate \<Rightarrow> bool) \<Rightarrow> web \<Rightarrow> 'c engine_ext \<Rightarrow> (stored_run list, 'c) machine \<Rightarrow> bool" where
  "store_ok B w y m \<longleftrightarrow> journal m runs_file \<noteq> Corrupt \<and> accounted (stored_runs m) (submits m) \<and>
     (\<forall>s \<in> set (stored_runs m). run_ok (B (sr_owner s)) w y (sr_run s))"

lemma request_name_eq: "request_name k i = request_name l j \<longleftrightarrow> k = l \<and> i = j"
proof -
  have "k = l" if e: "request_name k i = request_name l j"
    using arg_cong [OF e, of last] by (cases k; cases l) simp_all
  then show ?thesis by (cases k) auto
qed

lemma filter_update: "n < length xs \<Longrightarrow>
    length (filter P (xs[n := x])) + (if P (xs ! n) then 1 else 0) = length (filter P xs) + (if P x then 1 else 0)"
proof (induction xs arbitrary: n)
  case (Cons a xs)
  then show ?case using Cons.IH [of "n - 1"] by (cases n) (simp_all split: if_splits)
qed simp

text \<open>A record changed as its purchases went out keeps the account.\<close>

lemma accounted_update:
  assumes acc: "accounted D S" and n: "n < length D" and id: "run_id (sr_run s) = run_id (sr_run (D ! n))"
    and d: "d = [] \<or> (\<exists>k t. d = [(request_name k (run_id (sr_run s)), t)] \<and> \<not> may_have_sent k (D ! n) \<and>
      may_have_sent k s \<and> within_mandate k (sr_run s) t)"
    and old: "\<And>k t. may_have_sent k (D ! n) \<Longrightarrow> may_have_sent k s \<and>
      (within_mandate k (sr_run (D ! n)) t \<longrightarrow> within_mandate k (sr_run s) t)"
  shows "accounted (D[n := s]) (S @ d)"
  unfolding accounted_def
proof (intro allI conjI ballI)
  fix k i
  let ?new = "named (request_name k i) d"
  have new: "?new = [] \<or> (\<exists>t. ?new = [t] \<and> i = run_id (sr_run s) \<and> \<not> due k i (D ! n) \<and> due k i s \<and> within_mandate k (sr_run s) t)"
    using d id by (auto simp: named_def request_name_eq due_def simp del: request_name.simps)
  have split: "named (request_name k i) (S @ d) = named (request_name k i) S @ ?new" by (simp add: named_def)
  have keep: "due k i (D ! n) \<Longrightarrow> due k i s" using old id by (auto simp: due_def)
  have "length (named (request_name k i) S) \<le> length (filter (due k i) D)" using acc by (simp add: accounted_def)
  then show "length (named (request_name k i) (S @ d)) \<le> length (filter (due k i) (D[n := s]))"
    using filter_update [OF n, of "due k i" s] new keep by (auto simp: split split: if_splits)
  fix t
  assume "t \<in> set (named (request_name k i) (S @ d))"
  then consider "t \<in> set (named (request_name k i) S)" | "t \<in> set ?new" by (auto simp: split)
  then show "\<exists>s \<in> set (D[n := s]). due k i s \<and> within_mandate k (sr_run s) t"
  proof cases
    case 1
    then obtain b where b: "b \<in> set D" "due k i b" "within_mandate k (sr_run b) t"
      using acc unfolding accounted_def by blast
    then obtain j where j: "j < length D" "b = D ! j" by (auto simp: in_set_conv_nth)
    show ?thesis
    proof (cases "j = n")
      case True
      then have "due k i s \<and> within_mandate k (sr_run s) t" using b j keep old by (auto simp: due_def)
      then show ?thesis using n by (auto intro!: bexI [of _ s] set_update_memI)
    next
      case False
      then have "b \<in> set (D[n := s])" using j by (auto simp: in_set_conv_nth intro!: exI [of _ j])
      then show ?thesis using b by blast
    qed
  next
    case 2
    then have "due k i s \<and> within_mandate k (sr_run s) t" using new by auto
    then show ?thesis using n by (auto intro!: bexI [of _ s] set_update_memI)
  qed
qed

definition shelf :: "stored_run list \<Rightarrow> (string \<times> op_intent) list \<Rightarrow> (stored_run list, 'c) machine \<Rightarrow> bool" where
  "shelf D S m \<longleftrightarrow> stored_runs m = D \<and> journal m runs_file \<noteq> Corrupt \<and> submits m = S"

definition fine :: "(string \<Rightarrow> string list \<Rightarrow> mandate \<Rightarrow> bool) \<Rightarrow> web \<Rightarrow> 'c engine_ext \<Rightarrow> stored_run list \<Rightarrow> (string \<times> op_intent) list \<Rightarrow> bool" where
  "fine B w y D S \<longleftrightarrow> accounted D S \<and> (\<forall>s \<in> set D. run_ok (B (sr_owner s)) w y (sr_run s))"

lemma stable_shelf [simp]: "stable (shelf D S)"
  by (simp add: stable_def shelf_def stored_runs_def)

lemma store_ok_iff: "store_ok B w y m \<longleftrightarrow> (\<exists>D S. fine B w y D S \<and> shelf D S m)"
  by (auto simp: store_ok_def fine_def shelf_def)

lemma disk_shelf: "disk D S m \<Longrightarrow> shelf D S m"
  by (simp add: disk_def shelf_def stored_runs_def)

lemma disk_store_ok: "fine B w y D S \<Longrightarrow> disk D S m \<Longrightarrow> store_ok B w y m"
  using store_ok_iff disk_shelf by blast

lemma shelf_store_ok: "fine B w y D S \<Longrightarrow> shelf D S m \<Longrightarrow> store_ok B w y m"
  using store_ok_iff by blast

definition keeps_store :: "(string \<Rightarrow> string list \<Rightarrow> mandate \<Rightarrow> bool) \<Rightarrow> web \<Rightarrow> 'c engine_ext \<Rightarrow> ((stored_run list, 'c, 'a) prog) \<Rightarrow> bool" where
  "keeps_store B w y p \<longleftrightarrow> triple (store_ok B w y) (store_ok B w y) (store_ok B w y) p (\<lambda>_. store_ok B w y)"

abbreviation from_shelf where
  "from_shelf B w y D S p \<equiv> triple (store_ok B w y) (store_ok B w y) (shelf D S) p (\<lambda>_. store_ok B w y)"

lemma keeps_storeI: "(\<And>D S. fine B w y D S \<Longrightarrow> from_shelf B w y D S p) \<Longrightarrow> keeps_store B w y p"
  unfolding keeps_store_def
  by (rule triple_pointI) (auto simp only: store_ok_iff [of B w y] intro: triple_pointD)

lemma shelf_read:
  assumes "fine B w (y :: 'c engine_ext) D S" "from_shelf B w y D S (f D)"
  shows "from_shelf B w y D S (bindP read_store f)"
  unfolding read_store_def bindP_assoc
proof (rule triple_bind)
  show "triple (store_ok B w y) (store_ok B w y) (shelf D S) (readJournal e runs_file)
      (\<lambda>a m. shelf D S m \<and> (case a of None \<Rightarrow> journal m runs_file = Absent | Some s \<Rightarrow> journal m runs_file = Stored s))" for e
    by (rule triple_readJournal) (auto intro: shelf_store_ok [OF assms(1)])
  fix a
  have read: "given a [] = D" if "shelf D S m" "case a of None \<Rightarrow> journal m runs_file = Absent | Some s \<Rightarrow> journal m runs_file = Stored s" for m
    using that by (cases a) (auto simp: shelf_def stored_runs_def given_def)
  show "triple (store_ok B w y) (store_ok B w y)
      (\<lambda>m. shelf D S m \<and> (case a of None \<Rightarrow> journal m runs_file = Absent | Some s \<Rightarrow> journal m runs_file = Stored s))
      (bindP (retP (given a [])) f) (\<lambda>_. store_ok B w y)"
    unfolding bindP_ret
  proof (rule triple_pointI)
    fix m :: "(stored_run list, 'c) machine"
    assume "shelf D S m \<and> (case a of None \<Rightarrow> journal m runs_file = Absent | Some s \<Rightarrow> journal m runs_file = Stored s)"
    then have "given a [] = D" "shelf D S m" using read by blast+
    then show "triple (store_ok B w y) (store_ok B w y) ((=) m) (f (given a [])) (\<lambda>_. store_ok B w y)"
      using triple_pointD [OF assms(2)] by simp
  qed
qed

lemma shelf_need: "fine B w y D S \<Longrightarrow> (b \<Longrightarrow> from_shelf B w y D S (f ())) \<Longrightarrow> from_shelf B w y D S (bindP (needP b e) f)"
  by (intro triple_need_then) (auto intro: shelf_store_ok)

lemma shelf_ret: "fine B w y D S \<Longrightarrow> from_shelf B w y D S (retP a)"
  by (intro triple_ret) (auto intro: shelf_store_ok)

lemma shelf_find:
  assumes "fine B w y D S" "\<And>n. n < length D \<Longrightarrow> from_shelf B w y D S (f (D, n))"
  shows "from_shelf B w y D S (bindP (find_run owner i) f)"
  unfolding find_run_def bindP_assoc Let_def
  by (rule shelf_read [OF assms(1)], rule shelf_need [OF assms(1)]) (simp add: bindP_ret assms(2))

text \<open>What recovery makes of a record: nothing, or a failed run.\<close>

definition recovered :: "(string \<Rightarrow> string list \<Rightarrow> mandate \<Rightarrow> bool) \<Rightarrow> web \<Rightarrow> 'c engine_ext \<Rightarrow> stored_run \<Rightarrow> stored_run \<Rightarrow> bool" where
  "recovered B w y b s \<longleftrightarrow> run_ok (B (sr_owner s)) w y (sr_run s) \<and> sr_inFlight s = None \<and> same_terms (sr_run b) (sr_run s) \<and>
     (\<forall>k. may_have_sent k b = sent k (sr_run s))"

lemma failed_ok:
  "run_ok B w y r \<Longrightarrow> verifyAudit w es \<Longrightarrow> run_ok B w y (r\<lparr>run_status := StFailed, run_error := e, run_events := es\<rparr>)"
  by (simp add: run_ok_def mandate_authorized_def controller_signed_def approval_ok_def spending_ok_def sent_def)

lemma shelf_recover:
  assumes "fine B w y D S" "run_ok (B (sr_owner b)) w y (sr_run b)" "\<And>s. recovered B w y b s \<Longrightarrow> from_shelf B w y D S (f s)"
  shows "from_shelf B w y D S (bindP (recover_run w y b) f)"
proof (cases "sr_inFlight b")
  case None
  then have "recovered B w y b b" using assms(2) by (simp add: recovered_def same_terms_def may_have_sent_def)
  then show ?thesis using assms(3) by (simp add: recover_run_def None bindP_ret)
next
  case (Some st)
  obtain stage started where st: "st = (stage, started)" by (cases st)
  have "recovered B w y b (b\<lparr>sr_run := sr_run b\<lparr>run_status := StFailed, run_error := Some interrupted,
      run_events := appendAudit w u t (run_events (sr_run b)) Broker BlockedEvent ''Interrupted operation'' d\<rparr>, sr_inFlight := None\<rparr>)" for u t d
  proof -
    have "verifyAudit w (run_events (sr_run b))" using assms(2) by (simp add: run_ok_def)
    then have "run_ok (B (sr_owner b)) w y (sr_run b\<lparr>run_status := StFailed, run_error := Some interrupted,
      run_events := appendAudit w u t (run_events (sr_run b)) Broker BlockedEvent ''Interrupted operation'' d\<rparr>)"
      by (intro failed_ok [OF assms(2)]) simp
    then show ?thesis by (simp add: recovered_def same_terms_def may_have_sent_def Some sent_def)
  qed
  then show ?thesis
    unfolding recover_run_def Some st option.case prod.case Let_def bindP_assoc
    by (intro triple_ask_then stable_shelf) (simp add: bindP_ret assms(3))
qed

text \<open>Putting a record back: in flight, as the operation left it, or as it was.\<close>

lemma fine_update:
  assumes D: "fine B w y D S" "n < length D" and s: "recovered B w y (D ! n) s" and new: "run_ok (B (sr_owner new)) w y (sr_run new)"
    "run_id (sr_run new) = run_id (sr_run s)" "run_repos (sr_run new) = run_repos (sr_run s)"
    and d: "d = [] \<or> (\<exists>k t. d = [(request_name k (run_id (sr_run s)), t)] \<and> \<not> sent k (sr_run s) \<and>
      may_have_sent k new \<and> within_mandate k (sr_run new) t)"
    and old: "\<And>k. sent k (sr_run s) \<Longrightarrow> may_have_sent k new \<and> run_mandate (sr_run new) = run_mandate (sr_run s)"
  shows "fine B w y (D[n := new]) (S @ d)"
proof -
  have same: "same_terms (sr_run (D ! n)) (sr_run s)" and sents: "may_have_sent k (D ! n) = sent k (sr_run s)" for k
    using s by (simp_all add: recovered_def)
  have within: "within_mandate k (sr_run (D ! n)) t \<Longrightarrow> within_mandate k (sr_run new) t" if "sent k (sr_run s)" for k t
    using same new(3) old [OF that] by (cases k) (auto simp: within_mandate_def same_terms_def)
  have "accounted (D[n := new]) (S @ d)"
    by (rule accounted_update)
      (use D new d old within in \<open>auto simp: fine_def sents same [unfolded same_terms_def] simp del: request_name.simps\<close>)
  moreover have "\<forall>b \<in> set (D[n := new]). run_ok (B (sr_owner b)) w y (sr_run b)"
    using D new(1) by (auto simp: fine_def dest!: subsetD [OF set_update_subset_insert])
  ultimately show ?thesis by (simp add: fine_def)
qed

lemma shelf_write:
  "fine B w y D S \<Longrightarrow> fine B w y D' S \<Longrightarrow> triple (store_ok B w y) E (disk D' S) p (\<lambda>_. Q) \<Longrightarrow>
    triple (store_ok B w y) E (shelf D S) (bindP (write_store D') (\<lambda>_. p)) (\<lambda>_. Q)"
  unfolding write_store_def
  by (rule triple_bind [where R = "\<lambda>_. disk D' S"], rule triple_saveJournal)
    (auto intro: shelf_store_ok simp: disk_def shelf_def)

lemma write_back:
  "fine B w y D S \<Longrightarrow> fine B w y D' S' \<Longrightarrow> S' = S \<Longrightarrow>
    triple (store_ok B w y) E (disk D S) (write_store D') (\<lambda>_. store_ok B w y)"
  unfolding write_store_def
  by (rule triple_saveJournal) (auto intro: disk_store_ok simp: disk_def)

lemma mutate_keeps:
  assumes action: "\<And>A r. run_ok A w y r \<Longrightarrow> action_triple A w y r (action r)"
  shows "keeps_store B w y (store_mutate w y owner i action)"
proof (rule keeps_storeI)
  fix D S
  assume D: "fine B w y D S"
  show "from_shelf B w y D S (store_mutate w y owner i action)"
    unfolding store_mutate_def
  proof (rule shelf_find [OF D], unfold prod.case)
    fix n
    assume n: "n < length D"
    have "run_ok (B (sr_owner (D ! n))) w y (sr_run (D ! n))" using D n by (simp add: fine_def)
    then show "from_shelf B w y D S (bindP (recover_run w y (D ! n)) (\<lambda>s. bindP (askP (en_now y)) (\<lambda>t.
        bindP (write_store (D[n := s\<lparr>sr_inFlight := Some (run_stage (sr_run s), stamp t)\<rparr>])) (\<lambda>_.
        catchP
          (bindP (action (sr_run s)) (\<lambda>r. bindP (write_store (D[n := s\<lparr>sr_run := r, sr_inFlight := None\<rparr>])) (\<lambda>_. retP r)))
          (\<lambda>e. bindP (write_store (D[n := s\<lparr>sr_inFlight := None\<rparr>])) (\<lambda>_. throwP e))))))"
    proof (rule shelf_recover [OF D])
      fix s
      assume s: "recovered B w y (D ! n) s"
      then have ok: "run_ok (B (sr_owner s)) w y (sr_run s)" by (simp add: recovered_def)
      have marked: "fine B w y (D[n := s\<lparr>sr_inFlight := Some v\<rparr>]) (S @ d)" if "may_send (sr_run s) d" for v d
        by (rule fine_update [OF D n s]) (use ok that in \<open>auto simp: may_have_sent_def may_send_def simp del: request_name.simps\<close>)
      have acted: "fine B w y (D[n := s\<lparr>sr_run := r, sr_inFlight := None\<rparr>]) (S @ d)" if "acted (B (sr_owner s)) w y (sr_run s) d r" for r d
        by (rule fine_update [OF D n s]) (use that in \<open>auto simp: may_have_sent_def acted_def simp del: request_name.simps\<close>)
      have restored: "fine B w y (D[n := s\<lparr>sr_inFlight := None\<rparr>]) (S @ [])"
        by (rule fine_update [OF D n s]) (use ok in \<open>auto simp: may_have_sent_def\<close>)
      note run = action [OF ok, unfolded action_triple_def, rule_format]
      show "from_shelf B w y D S (bindP (askP (en_now y)) (\<lambda>t.
        bindP (write_store (D[n := s\<lparr>sr_inFlight := Some (run_stage (sr_run s), stamp t)\<rparr>])) (\<lambda>_.
        catchP
          (bindP (action (sr_run s)) (\<lambda>r. bindP (write_store (D[n := s\<lparr>sr_run := r, sr_inFlight := None\<rparr>])) (\<lambda>_. retP r)))
          (\<lambda>e. bindP (write_store (D[n := s\<lparr>sr_inFlight := None\<rparr>])) (\<lambda>_. throwP e)))))"
      proof (rule triple_ask_then [OF stable_shelf], rule shelf_write [OF D])
        fix t
        let ?D = "D[n := s\<lparr>sr_inFlight := Some (run_stage (sr_run s), stamp t)\<rparr>]"
        show "fine B w y ?D S" using marked [of "[]"] by simp
        show "triple (store_ok B w y) (store_ok B w y) (disk ?D S) (catchP
          (bindP (action (sr_run s)) (\<lambda>r. bindP (write_store (D[n := s\<lparr>sr_run := r, sr_inFlight := None\<rparr>])) (\<lambda>_. retP r)))
          (\<lambda>e. bindP (write_store (D[n := s\<lparr>sr_inFlight := None\<rparr>])) (\<lambda>_. throwP e))) (\<lambda>_. store_ok B w y)"
        proof (rule triple_catch [where E' = "disk ?D S"], rule triple_bind)
          show "triple (store_ok B w y) (disk ?D S) (disk ?D S) (action (sr_run s))
              (\<lambda>r m. \<exists>d. acted (B (sr_owner s)) w y (sr_run s) d r \<and> disk ?D (S @ d) m)"
            by (rule triple_conseq [OF run]) (auto dest: disk_store_ok [OF marked])
          show "triple (store_ok B w y) (disk ?D S) (\<lambda>m. \<exists>d. acted (B (sr_owner s)) w y (sr_run s) d r \<and> disk ?D (S @ d) m)
              (bindP (write_store (D[n := s\<lparr>sr_run := r, sr_inFlight := None\<rparr>])) (\<lambda>_. retP r)) (\<lambda>_. store_ok B w y)" for r
          proof (rule triple_bind, rule triple_ex, rule triple_pure)
            fix d
            assume a: "acted (B (sr_owner s)) w y (sr_run s) d r"
            then have send: "may_send (sr_run s) d" by (simp add: acted_def)
            show "triple (store_ok B w y) (disk ?D S) (disk ?D (S @ d)) (write_store (D[n := s\<lparr>sr_run := r, sr_inFlight := None\<rparr>]))
                (\<lambda>_. store_ok B w y)"
              unfolding write_store_def
              by (rule triple_saveJournal, erule disk_store_ok [OF marked [OF send]], rule disk_store_ok [OF acted [OF a]])
                (simp add: disk_def)
          qed (rule triple_ret)
        qed (rule triple_bind [OF write_back [OF _ restored]], use marked [of "[]"] in \<open>auto intro: triple_throw\<close>)
      qed
    qed
  qed
qed

text \<open>A new run.\<close>

lemma accounted_append: "accounted D S \<Longrightarrow> accounted (D @ [s]) S"
  by (fastforce simp: accounted_def intro: le_trans)

lemma insert_keeps:
  assumes "run_ok (B owner) w y r"
  shows "keeps_store B w y (store_insert owner r)"
proof (rule keeps_storeI)
  fix D S
  assume D: "fine B w y D S"
  then have "fine B w y (D @ [\<lparr>sr_owner = owner, sr_run = r, sr_inFlight = None\<rparr>]) S"
    using assms by (auto simp: fine_def intro: accounted_append)
  then show "from_shelf B w y D S (store_insert owner r)"
    unfolding store_insert_def
    by (intro shelf_read [OF D] shelf_need [OF D] shelf_write [OF D] triple_ret) (auto intro: disk_store_ok)
qed

lemma get_keeps:
  assumes "\<And>r. keeps_store B w y (f r)"
  shows "keeps_store B w y (bindP (store_get w y owner i) f)"
proof (rule keeps_storeI)
  fix D S
  assume D: "fine B w y D S"
  have rest: "from_shelf B w y D S (f r)" for r
    using assms [of r] unfolding keeps_store_def by (rule triple_pre) (rule shelf_store_ok [OF D])
  show "from_shelf B w y D S (bindP (store_get w y owner i) f)"
    unfolding store_get_def bindP_assoc
    by (rule shelf_find [OF D], unfold prod.case bindP_assoc, rule shelf_recover [OF D])
      (use D rest in \<open>simp_all add: fine_def bindP_ret\<close>)
qed

lemma recover_all_keeps: "stable P \<Longrightarrow> triple I E P (recover_all w y ss) (\<lambda>_. P)"
proof (induction ss)
  case (Cons s ss)
  have one: "triple I E P (recover_run w y s) (\<lambda>_. P)"
    unfolding recover_run_def Let_def
    by (auto intro!: triple_ask_then Cons.prems triple_ret split: option.split)
  show ?case
    unfolding recover_all.simps
    by (rule triple_then [OF one], rule triple_then [OF Cons.IH [OF Cons.prems]], rule triple_ret)
qed (simp add: triple_ret)

lemma list_keeps: "keeps_store B w y (store_list w y owner)"
proof (rule keeps_storeI)
  fix D S
  assume D: "fine B w y D S"
  show "from_shelf B w y D S (store_list w y owner)"
    unfolding store_list_def
    by (rule shelf_read [OF D], rule triple_then [OF recover_all_keeps [OF stable_shelf]], rule shelf_ret [OF D])
qed

lemma keeps_need: "(b \<Longrightarrow> keeps_store B w y (f ())) \<Longrightarrow> keeps_store B w y (bindP (needP b e) f)"
  unfolding keeps_store_def by (intro triple_need_then) auto

lemma keeps_ret: "keeps_store B w y p \<Longrightarrow> keeps_store B w y (bindP p (\<lambda>a. retP (g a)))"
  unfolding keeps_store_def by (rule triple_bind) (auto intro: triple_ret)

section \<open>New runs\<close>

lemma p_spend_pos: "p_spend v = Some n \<Longrightarrow> 0 < n"
  by (simp add: p_spend_def)

lemma p_service_price: "p_verification_service x v = Some s \<Longrightarrow> 0 \<le> vs_price s"
  by (auto simp: p_verification_service_def p_service_with_def bind_eq_Some_conv split: if_splits)

lemma mandate_input_ok:
  assumes "p_mandate_input x v = Some i"
  shows "0 \<le> md_dataBudget (first_mandate i e) \<and> 0 \<le> md_verificationBudget (first_mandate i e) \<and>
    (\<forall>s. md_service (first_mandate i e) = Some s \<longrightarrow> 0 \<le> vs_price s)"
proof -
  have positive: "fopt v k p_spend = Some d \<Longrightarrow> 0 < n \<Longrightarrow> 0 < given d n" for k d n
    by (auto simp: fopt_def given_def dest: p_spend_pos split: option.splits)
  have priced: "fopt v k (p_verification_service x) = Some (Some s) \<Longrightarrow> 0 \<le> vs_price s" for k s
    by (auto simp: fopt_def dest: p_service_price split: option.splits)
  obtain d b s where i: "fopt v ''dataBudgetAtomic'' p_spend = Some d" "fopt v ''verificationBudgetAtomic'' p_spend = Some b"
    "fopt v ''verificationService'' (p_verification_service x) = Some s"
    "mi_dataBudget i = d" "mi_verificationBudget i = b" "mi_service i = s"
    using assms by (auto simp: p_mandate_input_def bind_eq_Some_conv split: if_splits)
  have "\<forall>t. s = Some t \<longrightarrow> 0 \<le> vs_price t" using priced i(3) by blast
  then show ?thesis
    using positive [OF i(1), of 2000000] positive [OF i(2), of 100000] i
    by (simp add: first_mandate_def)
qed

lemma fresh_mandate_ok:
  assumes "p_run_input x v = Some i"
  shows "0 \<le> md_dataBudget (first_mandate (ri_mandate i) e) \<and> 0 \<le> md_verificationBudget (first_mandate (ri_mandate i) e) \<and>
    (\<forall>s. md_service (first_mandate (ri_mandate i) e) = Some s \<longrightarrow> 0 \<le> vs_price s)"
proof -
  obtain m where m: "fopt v ''mandate'' (p_mandate_input x) = Some m" "i = \<lparr>ri_repos = ri_repos i, ri_mandate = (case m of None \<Rightarrow> no_mandate | Some j \<Rightarrow> j)\<rparr>"
    using assms by (auto simp: p_run_input_def bind_eq_Some_conv split: if_splits)
  have i: "ri_mandate i = (case m of None \<Rightarrow> no_mandate | Some j \<Rightarrow> j)" by (subst m(2)) simp
  show ?thesis
  proof (cases m)
    case None
    then show ?thesis by (simp add: i first_mandate_def no_mandate_def given_def)
  next
    case (Some j)
    then obtain u where "p_mandate_input x u = Some j" using m(1) by (auto simp: fopt_def split: option.splits)
    then show ?thesis using mandate_input_ok [of x u j e] by (simp add: i Some)
  qed
qed

lemma fresh_run_ok:
  assumes "p_run_input x v = Some i" "verifyAudit w es" "B (ri_repos i) (first_mandate (ri_mandate i) e)"
  shows "run_ok B w y (fresh_run i u now (first_mandate (ri_mandate i) e)\<lparr>run_events := es, run_updated := t\<rparr>)"
  using fresh_mandate_ok [OF assms(1), of e] assms(2,3)
  by (simp add: run_ok_def mandate_authorized_def approval_ok_def spending_ok_def fresh_run_def)
    (auto simp: first_mandate_def)

lemma createRun_keeps:
  assumes "\<And>r. run_ok (B owner) w y r \<Longrightarrow> keeps_store B w y (f r)"
    and asked: "\<And>i t. p_run_input x body = Some i \<Longrightarrow> B owner (ri_repos i) (first_mandate (ri_mandate i) (stamp t))"
  shows "keeps_store B w y (bindP (createRun x w y body) f)"
  unfolding createRun_def keeps_store_def bindP_assoc Let_def
proof (rule triple_lift_then, simp, unfold of_opt_eq_Inr)
  have stable: "stable (store_ok B w y)" by (simp add: stable_def store_ok_def stored_runs_def)
  fix i
  assume i: "p_run_input x body = Some i"
  have logs: "triple (store_ok B w y) (store_ok B w y) (store_ok B w y)
      (bindP (log_run w y (fresh_run i u now (first_mandate (ri_mandate i) (stamp e))) a k t d) f) (\<lambda>_. store_ok B w y)" for u now e a k t d
  proof (rule triple_log_then [OF stable])
    fix r'
    assume "logged w (fresh_run i u now (first_mandate (ri_mandate i) (stamp e))) r'"
    moreover have "run_events (fresh_run i u now (first_mandate (ri_mandate i) (stamp e))) = []" by (simp add: fresh_run_def)
    ultimately have "run_ok (B owner) w y r'"
      using fresh_run_ok [where B = "B owner", OF i _ asked [OF i]] by (auto simp: logged_def)
    then show "triple (store_ok B w y) (store_ok B w y) (store_ok B w y) (f r') (\<lambda>_. store_ok B w y)"
      using assms(1) by (simp add: keeps_store_def)
  qed
  show "triple (store_ok B w y) (store_ok B w y) (store_ok B w y)
     (bindP (askP (en_now y)) (\<lambda>now. bindP (askP (en_now y)) (\<lambda>t1.
      bindP (askP (en_now y)) (\<lambda>t2. bindP (askP (en_now y)) (\<lambda>t3.
      bindP (needP (case parse_date w (md_expires (first_mandate (ri_mandate i) (stamp (t1 + 3600000)))) of
          None \<Rightarrow> True | Some t \<Rightarrow> t2 < t \<and> t \<le> t3 + 86400000) (Err ''Mandate expiry must be within the next 24 hours.'')) (\<lambda>_.
      bindP (askP (en_uuid y)) (\<lambda>u.
      bindP (log_run w y (fresh_run i u (stamp now) (first_mandate (ri_mandate i) (stamp (t1 + 3600000)))) Supervisor InfoEvent
         ''Mandate created''
         (''Up to '' @ scaled (md_dataBudget (first_mandate (ri_mandate i) (stamp (t1 + 3600000)))) 8 @ '' HBAR for evidence and '' @
          scaled (md_verificationBudget (first_mandate (ri_mandate i) (stamp (t1 + 3600000)))) 6 @
          '' USDC for verification. Expires '' @ md_expires (first_mandate (ri_mandate i) (stamp (t1 + 3600000))) @ ''.'')) f)))))))
     (\<lambda>_. store_ok B w y)"
    by (intro triple_ask_then [OF stable] triple_need_then logs) simp
qed

lemma run_api_keeps:
  assumes "\<And>owner body i t. q = NewRun owner body \<Longrightarrow> p_run_input x body = Some i \<Longrightarrow>
    B owner (ri_repos i) (first_mandate (ri_mandate i) (stamp t))"
  shows "keeps_store B w y (run_api x w y q)"
proof (cases q)
  case (NewRun owner body)
  then show ?thesis using assms [OF NewRun] by (auto intro!: createRun_keeps [where owner = owner] keeps_ret insert_keeps)
next
  case (ActOn owner i a)
  then show ?thesis
    by (auto simp: act_on_run_def bindP_assoc requireLiveRun_def intro!: get_keeps keeps_need keeps_ret mutate_keeps run_action_ok)
next
  case (ShowRun owner i)
  then show ?thesis
    unfolding ShowRun run_api.simps
    by (intro get_keeps) (auto simp: keeps_store_def intro: triple_ret)
qed (simp add: list_keeps)

section \<open>Properties\<close>

lemma runs_ok: "store_ok (asked_for x reqs) w y (runs_history x w y reqs u)"
  unfolding runs_history_def
proof (rule run_all_invariant)
  let ?ok = "store_ok (asked_for x reqs) w y"
  fix n p m
  assume "(n, p) \<in> set (map (\<lambda>(n, q). (n, run_api x w y q)) reqs)" and m: "?ok (m :: (stored_run list, 'a) machine)"
  then obtain q where p: "p = run_api x w y q" and q: "(n, q) \<in> set reqs" by auto
  obtain r m' where r: "p m = (r, m')" by (cases "p m")
  have "keeps_store (asked_for x reqs) w y p"
    unfolding p by (rule run_api_keeps) (use q in \<open>auto simp: asked_for_def\<close>)
  then have "triple ?ok ?ok ?ok p (\<lambda>_. ?ok)" unfolding keeps_store_def .
  from tripleD [OF this m] r show "?ok (snd (p m))" by (cases r) auto
qed (auto simp: store_ok_def stored_runs_def restart_def empty_machine_def accounted_def named_def)

text \<open>
  C37. The engine pays at most once for each stage of a run, and never beyond its mandate: whatever
  requests are made of the store and wherever the process dies, the data purchases sent under a
  run's request id are at most the runs with that id, each within the unit price and data budget of
  such a run's mandate, and so are the verifications under the verification budget.
\<close>

theorem run_payments_authorized:
  "length (submits_of (request_name k i) (runs_history x w y reqs u))
     \<le> length (filter (\<lambda>s. run_id (sr_run s) = i) (stored_runs (runs_history x w y reqs u))) \<and>
   list_all (\<lambda>t. list_ex (\<lambda>s. run_id (sr_run s) = i \<and> within_mandate k (sr_run s) t)
       (stored_runs (runs_history x w y reqs u)))
     (submits_of (request_name k i) (runs_history x w y reqs u))"
proof -
  let ?m = "runs_history x w y reqs u"
  have acc: "accounted (stored_runs ?m) (submits ?m)" using runs_ok [of x reqs w y u] by (simp add: store_ok_def)
  have names: "submits_of n ?m = named n (submits ?m)" for n by (simp add: submits_of_def named_def)
  have "length (filter (due k i) D) \<le> length (filter (\<lambda>s. run_id (sr_run s) = i) D)" for D
    by (induction D) (auto simp: due_def)
  moreover have "length (named (request_name k i) (submits ?m)) \<le> length (filter (due k i) (stored_runs ?m))"
    "\<forall>t \<in> set (named (request_name k i) (submits ?m)). \<exists>s \<in> set (stored_runs ?m). due k i s \<and> within_mandate k (sr_run s) t"
    using acc by (simp_all add: accounted_def)
  ultimately show ?thesis
    unfolding names by (auto simp: list_all_iff list_ex_iff due_def intro: order_trans)
qed

text \<open>
  C38. What the store holds, after any history: each run's audit trail verifies, its spending is
  within its mandate, and its mandate comes from one that a request of its owner asked for, for the
  run's repositories (the first version carries no signature: the application is trusted with it), by
  the run's authorizations in order. Each of them starts from the mandate before, raises the version
  by one and at most the data budget, leaves the verification budget and service as they were, and
  carries the controller's valid signature over a message that names the run, the version and the
  new mandate.
\<close>

theorem run_records_sound:
  "list_all (\<lambda>s. verifyAudit w (run_events (sr_run s)) \<and>
       mandate_authorized (asked_for x reqs (sr_owner s)) y (sr_run s) \<and>
       0 \<le> run_dataSpent (sr_run s) \<and> run_dataSpent (sr_run s) \<le> md_dataBudget (run_mandate (sr_run s)) \<and>
       0 \<le> run_verificationSpent (sr_run s) \<and>
       run_verificationSpent (sr_run s) \<le> md_verificationBudget (run_mandate (sr_run s)))
     (stored_runs (runs_history x w y reqs u))"
  using runs_ok [of x reqs w y u] by (simp add: store_ok_def list_all_iff run_ok_def spending_ok_def)

end
