(* ===== verification/RunProgress.thy ===== *)
theory RunProgress
  imports RunSafety
begin

text \<open>
  Runs come to a stop. \<open>spends c p Q\<close>: \<open>p\<close> never throws, spends at most \<open>c\<close> effects and dies
  only with fewer to live, and what it returns satisfies \<open>Q\<close>. A stage spends one effect for each call of
  the gateway, the stages of a run five in all.
\<close>

section \<open>What a program spends\<close>

definition spends :: "nat \<Rightarrow> ('s, 'c, 'a) prog \<Rightarrow> ('a \<Rightarrow> bool) \<Rightarrow> bool" where
  "spends c p Q \<longleftrightarrow> (\<forall>m. case p m of
     (Ret a, m') \<Rightarrow> budget m \<le> budget m' + c \<and> Q a | (Throw _, _) \<Rightarrow> False | (Died, _) \<Rightarrow> budget m < c)"

lemma spends_ret: "Q a \<Longrightarrow> spends c (retP a) Q"
  by (simp add: spends_def retP_def)

lemma spendsD:
  assumes "spends c p Q"
  shows "p m = (Ret a, m') \<Longrightarrow> budget m \<le> budget m' + c \<and> Q a" "p m = (Throw e, m') \<Longrightarrow> False"
    "p m = (Died, m') \<Longrightarrow> budget m < c"
  using assms by (auto simp: spends_def dest: spec [of _ m])

lemma spendsI:
  assumes "\<And>m a m'. p m = (Ret a, m') \<Longrightarrow> budget m \<le> budget m' + c \<and> Q a" "\<And>m e m'. p m \<noteq> (Throw e, m')"
    "\<And>m m'. p m = (Died, m') \<Longrightarrow> budget m < c"
  shows "spends c p Q"
  unfolding spends_def
proof
  fix m
  obtain r m' where "p m = (r, m')" by (cases "p m")
  then show "case p m of (Ret a, m') \<Rightarrow> budget m \<le> budget m' + c \<and> Q a | (Throw _, _) \<Rightarrow> False | (Died, _) \<Rightarrow> budget m < c"
    using assms [of m] by (cases r) auto
qed

lemma spends_bind:
  assumes p: "spends c p R" and f: "\<And>a. R a \<Longrightarrow> spends d (f a) Q"
  shows "spends (c + d) (bindP p f) Q"
proof (rule spendsI)
  fix m b m''
  assume "bindP p f m = (Ret b, m'')"
  then obtain a m' where a: "p m = (Ret a, m')" "f a m' = (Ret b, m'')"
    by (auto simp: bindP_def split: prod.splits outcome.splits)
  then show "budget m \<le> budget m'' + (c + d) \<and> Q b"
    using spendsD(1) [OF p a(1)] spendsD(1) [OF f a(2)] by auto
next
  fix m e m''
  show "bindP p f m \<noteq> (Throw e, m'')"
    using spendsD(2) [OF p, of m] spendsD(1) [OF p, of m] spendsD(2) [OF f]
    by (auto simp: bindP_def split: prod.splits outcome.splits)
next
  fix m m''
  assume "bindP p f m = (Died, m'')"
  then consider "p m = (Died, m'')" | a m' where "p m = (Ret a, m')" "f a m' = (Died, m'')"
    by (auto simp: bindP_def split: prod.splits outcome.splits)
  then show "budget m < c + d"
  proof cases
    case 1
    then show ?thesis using spendsD(3) [OF p] by fastforce
  next
    case 2
    then show ?thesis using spendsD(1) [OF p 2(1)] spendsD(3) [OF f 2(2)] by linarith
  qed
qed

lemma spends_then: "spends 0 p R \<Longrightarrow> (\<And>a. R a \<Longrightarrow> spends c (f a) Q) \<Longrightarrow> spends c (bindP p f) Q"
  using spends_bind [of 0 p R c f Q] by simp

lemma spends_mono: "spends c p Q \<Longrightarrow> c \<le> d \<Longrightarrow> (\<And>a. Q a \<Longrightarrow> Q' a) \<Longrightarrow> spends d p Q'"
  by (rule spendsI) (use spendsD in fastforce)+

lemma spends_ask: "(\<And>a. spends c (f a) Q) \<Longrightarrow> spends c (bindP (askP g) f) Q"
  by (rule spends_then [where R = "\<lambda>_. True"]) (auto simp: spends_def askP_def split: prod.split)

lemma spends_log:
  "(\<And>es t. spends c (f (r\<lparr>run_events := es, run_updated := t\<rparr>)) Q) \<Longrightarrow> spends c (bindP (log_run w y r a k t d) f) Q"
  unfolding log_run_def bindP_assoc by (intro spends_ask) (simp add: bindP_ret)

lemma spends_log_ret: "(\<And>es t. Q (r\<lparr>run_events := es, run_updated := t\<rparr>)) \<Longrightarrow> spends c (log_run w y r a k x d) Q"
  unfolding log_run_def by (intro spends_ask spends_ret)

lemma spends_note: "spends c (f ()) Q \<Longrightarrow> spends c (bindP (noteSubmit n i) f) Q"
  by (rule spends_then [where R = "\<lambda>_. True"]) (auto simp: spends_def noteSubmit_def)

lemma spends_call: "spends 1 (catchP (bindP (callP g) (\<lambda>a. retP (Inr a))) (\<lambda>e. retP (Inl e))) (\<lambda>_. True)"
  by (auto simp: spends_def callP_def bindP_def effect_def catchP_def liftP_def retP_def throwP_def
      split: nat.split prod.split sum.split outcome.split)

lemma spends_attempt:
  "(\<And>e. Q (r, Some e)) \<Longrightarrow> (\<And>a. spends c (k a) Q) \<Longrightarrow> spends (Suc c) (attempt r (callP g) k) Q"
proof -
  assume *: "\<And>e. Q (r, Some e)" "\<And>a. spends c (k a) Q"
  have "spends c (case s of Inl e \<Rightarrow> stop r e | Inr a \<Rightarrow> k a) Q" for s
    using * by (cases s) (simp_all add: stop_def spends_ret)
  then show ?thesis
    unfolding attempt_def plus_1_eq_Suc [symmetric] by (intro spends_bind [OF spends_call])
qed

lemma attempt_lift_eq: "attempt r (liftP (Inl e)) k = stop r e" "attempt r (liftP (Inr a)) k = k a"
  by (rule ext, simp add: attempt_def liftP_def bindP_def catchP_def throwP_def retP_def)+

lemma spends_attempt_lift:
  "(\<And>e. Q (r, Some e)) \<Longrightarrow> (\<And>a. spends c (k a) Q) \<Longrightarrow> spends c (attempt r (liftP v) k) Q"
  by (cases v) (simp_all add: attempt_lift_eq stop_def spends_ret)

lemma spends_go: "Q (r, None) \<Longrightarrow> spends c (go r) Q"
  by (simp add: go_def spends_ret)

lemma spends_stop: "Q (r, Some e) \<Longrightarrow> spends c (stop r e) Q"
  by (simp add: stop_def spends_ret)

section \<open>Stages\<close>

fun rank :: "run_stage \<Rightarrow> nat" where
  "rank AtMandate = 0"
| "rank AtDiscovery = 1"
| "rank AtPurchase = 2"
| "rank AtReport = 3"
| "rank AtVerification = 4"
| "rank AtComplete = 5"

text \<open>The gateway calls of a stage, and of all stages from it on.\<close>

fun calls :: "run_stage \<Rightarrow> nat" where
  "calls AtMandate = 0"
| "calls AtDiscovery = 1"
| "calls AtPurchase = 2"
| "calls AtReport = 1"
| "calls AtVerification = 1"
| "calls AtComplete = 0"

fun calls_left :: "run_stage \<Rightarrow> nat" where
  "calls_left AtMandate = 5"
| "calls_left AtDiscovery = 5"
| "calls_left AtPurchase = 4"
| "calls_left AtReport = 2"
| "calls_left AtVerification = 1"
| "calls_left AtComplete = 0"

definition halted :: "run \<Rightarrow> bool" where
  "halted r \<longleftrightarrow> run_status r \<in> {StCompleted, StFailed, StAwaiting}"

definition ongoing :: "run \<Rightarrow> bool" where
  "ongoing r \<longleftrightarrow> run_mode r = Live \<and> run_status r \<in> {StReady, StRunning} \<and> run_stage r \<noteq> AtComplete"

definition moved_on :: "run \<Rightarrow> run \<times> js_error option \<Rightarrow> bool" where
  "moved_on r res \<longleftrightarrow> (case res of (r', Some _) \<Rightarrow> run_mode r' = Live
     | (r', None) \<Rightarrow> run_mode r' = Live \<and> (halted r' \<or> ongoing r' \<and> rank (run_stage r') = Suc (rank (run_stage r))))"

lemmas spends_rules = spends_ask spends_log spends_note spends_attempt spends_attempt_lift spends_go spends_stop

lemma accept_mandate_moves:
  "run_mode r = Live \<Longrightarrow> run_status r = StRunning \<Longrightarrow> run_stage r = AtMandate \<Longrightarrow> spends 0 (accept_mandate w y r) (moved_on r)"
  unfolding accept_mandate_def by (intro spends_rules) (simp add: moved_on_def ongoing_def)

lemma discover_services_moves:
  assumes "run_mode r = Live" "run_status r = StRunning" "run_stage r = AtDiscovery"
  shows "spends (Suc 0) (discover_services w y r) (moved_on r)"
  unfolding discover_services_def Let_def
  by (intro spends_rules) (use assms in \<open>auto simp: moved_on_def ongoing_def intro!: spends_rules split: list.split\<close>)

lemma draft_report_moves:
  "run_mode r = Live \<Longrightarrow> run_status r = StRunning \<Longrightarrow> run_stage r = AtReport \<Longrightarrow> spends (Suc 0) (draft_report w y r) (moved_on r)"
  unfolding draft_report_def by (intro spends_rules) (simp_all add: moved_on_def ongoing_def)

lemma first_allowed_spends: "spends 0 (first_allowed w y r ps) (\<lambda>_. True)"
  by (induction ps) (auto simp: assess_def bindP_assoc bindP_ret intro!: spends_ask spends_ret)

lemma buy_data_moves:
  assumes "run_mode r = Live" "run_status r = StRunning" "run_stage r = AtPurchase" "run_mode r1 = Live"
    "run_status r1 = StRunning"
  shows "spends (Suc 0) (buy_data w y r1 p) (moved_on r)"
proof -
  have settle: "spends 0 (settle_data w y r2 a res) (moved_on r)" if "run_mode r2 = Live" "run_status r2 = StRunning" for r2 a res
    unfolding settle_data_def by (intro spends_rules) (use that assms in \<open>simp_all add: moved_on_def ongoing_def\<close>)
  show ?thesis
    unfolding buy_data_def Let_def
    by (rule spends_then [where R = "\<lambda>r. run_mode r = Live \<and> run_status r = StRunning"])
      (use assms in \<open>auto simp: moved_on_def ongoing_def intro!: spends_rules settle spends_ret spends_log_ret\<close>)
qed

lemma choose_and_buy_moves:
  assumes "run_mode r = Live" "run_status r = StRunning" "run_stage r = AtPurchase" "run_mode r1 = Live"
    "run_status r1 = StRunning"
  shows "spends (Suc 0) (choose_and_buy w y r1) (moved_on r)"
  unfolding choose_and_buy_def
  by (rule spends_then [OF first_allowed_spends])
    (use assms in \<open>auto simp: assess_def requestApproval_def Let_def bindP_assoc bindP_ret moved_on_def ongoing_def halted_def
      intro!: buy_data_moves spends_rules split: option.split list.split\<close>)

lemma purchase_data_moves:
  assumes "run_mode r = Live" "run_status r = StRunning" "run_stage r = AtPurchase"
  shows "spends (Suc (Suc 0)) (purchase_data w y r) (moved_on r)"
  unfolding purchase_data_def if_P [OF assms(1)]
  by (rule spends_attempt) (use assms in \<open>auto simp: moved_on_def ongoing_def intro!: choose_and_buy_moves\<close>)

lemma verify_report_moves:
  assumes "run_mode r = Live" "run_status r = StRunning" "run_stage r = AtVerification"
  shows "spends (Suc 0) (verify_report w y r) (moved_on r)"
proof -
  have close: "spends 0 (close_report w y r1 rep cs) (moved_on r)" if "run_mode r1 = Live" for r1 rep cs
    unfolding close_report_def Let_def
    by (rule spends_attempt_lift) (use that in \<open>auto simp: moved_on_def ongoing_def halted_def intro!: spends_rules\<close>)
  have settle: "spends 0 (settle_verification w y r rep a res) (moved_on r)" for rep a res
    unfolding settle_verification_def Let_def
    by (rule spends_attempt_lift)
      (use assms in \<open>auto simp: moved_on_def ongoing_def intro!: close spends_stop split: option.split json.split list.split\<close>)
  show ?thesis
    unfolding verify_report_def Let_def
    using assms by (auto simp: moved_on_def ongoing_def intro!: spends_rules settle split: option.split)
qed

lemma advance_stage_moves:
  assumes "run_mode r = Live" "run_status r = StRunning" "run_stage r \<noteq> AtComplete"
  shows "spends (calls (run_stage r)) (advance_stage w y r) (moved_on r)"
  using assms accept_mandate_moves [OF assms(1,2)] discover_services_moves [OF assms(1,2)]
    purchase_data_moves [OF assms(1,2)] draft_report_moves [OF assms(1,2)] verify_report_moves [OF assms(1,2)]
  by (cases "run_stage r") (simp_all add: advance_stage_def numeral_2_eq_2)

section \<open>Advancing a run\<close>

lemma fail_run_spends: "run_mode r = Live \<Longrightarrow> spends 0 (fail_run w y r e) (\<lambda>r'. run_mode r' = Live \<and> halted r')"
  unfolding fail_run_def log_run_def by (intro spends_ask spends_ret) (simp add: halted_def)

lemma advanceRun_moves:
  assumes "ongoing r"
  shows "spends (calls (run_stage r)) (advanceRun w y r) (\<lambda>r'. run_mode r' = Live \<and>
    (halted r' \<or> ongoing r' \<and> rank (run_stage r') = Suc (rank (run_stage r))))"
proof -
  let ?r = "r\<lparr>run_status := StRunning\<rparr>"
  have r: "run_mode r = Live" "run_status r \<notin> {StCompleted, StFailed, StPaused, StAwaiting}" "run_stage r \<noteq> AtComplete"
    using assms by (auto simp: ongoing_def)
  have "spends (calls (run_stage r)) (advance_stage w y ?r) (moved_on ?r)"
    using advance_stage_moves [of ?r w y] r by simp
  then have stage: "spends (calls (run_stage r)) (if b then stop ?r e else advance_stage w y ?r) (moved_on ?r)" for b e
    using r by (auto simp: moved_on_def ongoing_def intro: spends_stop)
  have ends: "spends 0 (case res of (r, e) \<Rightarrow> case e of None \<Rightarrow> retP r | Some e \<Rightarrow> fail_run w y r e)
      (\<lambda>r'. run_mode r' = Live \<and> (halted r' \<or> ongoing r' \<and> rank (run_stage r') = Suc (rank (run_stage r))))"
    if res: "moved_on ?r res" for res
  proof -
    obtain r' e where "res = (r', e)" by (cases res)
    then show ?thesis
      using res by (cases e) (auto simp: moved_on_def intro!: spends_ret intro: spends_mono [OF fail_run_spends])
  qed
  show ?thesis
    unfolding advanceRun_def requireLiveRun_def needP_def if_P [OF r(1)] bindP_ret if_not_P [OF r(2)] Let_def
    by (rule spends_ask, rule spends_bind [OF stage ends, unfolded add_0_right])
qed

primrec advance_times :: "web \<Rightarrow> 'c engine_ext \<Rightarrow> nat \<Rightarrow> run \<Rightarrow> ('s, 'c, run) prog" where
  "advance_times w y 0 r = retP r"
| "advance_times w y (Suc n) r = bindP (advanceRun w y r) (advance_times w y n)"

lemma halted_stays: "run_mode r = Live \<Longrightarrow> halted r \<Longrightarrow> spends 0 (advance_times w y n r) halted"
proof (induction n)
  case (Suc n)
  then have "spends 0 (advanceRun w y r) (\<lambda>r'. r' = r)"
    by (auto simp: advanceRun_def requireLiveRun_def needP_def bindP_ret halted_def intro: spends_ret)
  then show ?case unfolding advance_times.simps by (rule spends_then) (use Suc in simp)
qed (simp add: spends_ret)

lemma calls_left_step: "s \<noteq> AtComplete \<Longrightarrow> rank t = Suc (rank s) \<Longrightarrow> calls_left s = calls s + calls_left t"
  by (cases s; cases t) simp_all

lemma advance_halts:
  "ongoing r \<Longrightarrow> 5 - rank (run_stage r) \<le> n \<Longrightarrow>
    spends (calls_left (run_stage r)) (advance_times w y n r :: ('s, 'c, run) prog) halted"
proof (induction n arbitrary: r)
  case 0
  then show ?case by (cases "run_stage r") (simp_all add: ongoing_def)
next
  case (Suc n)
  let ?s = "run_stage r"
  have stage: "?s \<noteq> AtComplete" using Suc.prems(1) by (simp add: ongoing_def)
  have rest: "spends (calls_left ?s - calls ?s) (advance_times w y n r' :: ('s, 'c, run) prog) halted"
    if r': "run_mode r' = Live \<and> (halted r' \<or> ongoing r' \<and> rank (run_stage r') = Suc (rank ?s))" for r'
  proof (cases "halted r'")
    case True
    then show ?thesis using r' by (auto intro: spends_mono [OF halted_stays])
  next
    case False
    with r' have run: "ongoing r'" "rank (run_stage r') = Suc (rank ?s)" by simp_all
    have "spends (calls_left (run_stage r')) (advance_times w y n r' :: ('s, 'c, run) prog) halted"
      by (rule Suc.IH [OF run(1)]) (use Suc.prems(2) run(2) in simp)
    then show ?thesis using calls_left_step [OF stage run(2)] by simp
  qed
  have "calls ?s \<le> calls_left ?s" by (cases ?s) simp_all
  then show ?case
    using spends_bind [OF advanceRun_moves [OF Suc.prems(1)] rest] by simp
qed

lemma triple_outside:
  "(\<And>m u. P m \<Longrightarrow> P (m\<lparr>outside := u\<rparr>)) \<Longrightarrow> (\<And>a. triple I E P (f a) Q) \<Longrightarrow> triple I E P (bindP (askP g) f) Q"
  by (fastforce simp: triple_def bindP_def askP_def split: prod.splits)

lemma createRun_ongoing:
  "case createRun x w y body m of
     (Ret r, m') \<Rightarrow> ongoing r \<and> run_stage r = AtMandate \<and> budget m' = budget m | (Throw _, _) \<Rightarrow> True | (Died, _) \<Rightarrow> False"
proof -
  have "triple (\<lambda>_. False) (\<lambda>_. True) (\<lambda>m'. budget m' = budget m) (createRun x w y body)
    (\<lambda>r m'. ongoing r \<and> run_stage r = AtMandate \<and> budget m' = budget m)"
    unfolding createRun_def Let_def log_run_def
    by (intro triple_lift_then triple_need_then triple_outside triple_ret) (simp_all add: ongoing_def fresh_run_def)
  then show ?thesis by (auto simp: triple_def split: outcome.splits prod.splits)
qed

text \<open>
  C39. A run stops: however the gateway answers, five advances of a new run leave it completed,
  failed or waiting for the controller, and they return as long as the process lives for the five
  gateway calls they make; the only error is the one that refused to create the run.
\<close>

theorem run_stops:
  "case bindP (createRun x w y body) (advance_times w y 5) m of
     (Ret r, _) \<Rightarrow> run_status r \<in> {StCompleted, StFailed, StAwaiting}
   | (Throw e, _) \<Rightarrow> fst (createRun x w y body m) = Throw e
   | (Died, _) \<Rightarrow> budget m < 5"
proof (cases "createRun x w y body m")
  case (Pair c m1)
  note created = createRun_ongoing [where m = m and x = x and w = w and y = y and body = body, unfolded Pair prod.case]
  show ?thesis
  proof (cases c)
    case (Ret r)
    then have r: "ongoing r" "run_stage r = AtMandate" "budget m1 = budget m" using created by simp_all
    then have "spends 5 (advance_times w y 5 r) halted" using advance_halts [of r 5 w y] by simp
    from spendsD [OF this, of m1] show ?thesis
      using r(3) by (auto simp: bindP_def Pair Ret halted_def split: prod.split outcome.split)
  qed (use created in \<open>simp_all add: bindP_def Pair\<close>)
qed

end
