(* ===== verification/RunnerSafety.thy ===== *)
theory RunnerSafety
  imports RunnerProcess RunProgress
begin

text \<open>
  Why a private runner stays within what its owner signed, whatever the platform answers and
  wherever it dies. \<open>ledger_ok\<close> holds of the machine between any two effects: the jobs in the
  journal respect the run limits of their mandates, and the calls made so far belong to jobs in the
  journal, one of each paid kind per job and each within the signed terms; what a healthy process
  remembers agrees with the file. A death may leave the memory ahead of it (\<open>book_ok\<close>). While a job is executed
  the guard of its gateway says which calls it has made (\<open>executing\<close>).
\<close>

section \<open>Programs that keep a predicate\<close>

text \<open>A program keeps \<open>I\<close>; where the process dies in it, \<open>W\<close> holds.\<close>

definition keeps ::
    "(('s, 'c) machine \<Rightarrow> bool) \<Rightarrow> (('s, 'c) machine \<Rightarrow> bool) \<Rightarrow> ('s, 'c, 'a) prog \<Rightarrow> bool" where
  "keeps W I p \<longleftrightarrow> triple W I I p (\<lambda>_. I)"

lemma keepsI:
  assumes "\<And>m r m'. I m \<Longrightarrow> p m = (r, m') \<Longrightarrow> (case r of Died \<Rightarrow> W m' | _ \<Rightarrow> I m')"
  shows "keeps W I p"
  using assms unfolding keeps_def triple_def by (fastforce split: outcome.split)

lemma keepsD:
  assumes "keeps W I p" "I m" "p m = (r, m')"
  shows "r = Died \<Longrightarrow> W m'" "r \<noteq> Died \<Longrightarrow> I m'"
  using tripleD [OF assms(1) [unfolded keeps_def] assms(2)] assms(3) by (cases r; auto)+

lemma keeps_bind: "keeps W I p \<Longrightarrow> (\<And>a. keeps W I (f a)) \<Longrightarrow> keeps W I (bindP p f)"
  unfolding keeps_def by (rule triple_bind)

lemma keeps_retP: "keeps W I (retP a)"
  unfolding keeps_def by (rule triple_ret)

lemma keeps_throw: "keeps W I (throwP e)"
  unfolding keeps_def by (rule triple_throw)

lemma keeps_lift: "keeps W I (liftP r)"
  by (cases r) (simp_all add: liftP_def keeps_retP keeps_throw)

lemma keeps_needP: "keeps W I (needP b e)"
  by (simp add: needP_def keeps_retP keeps_throw)

lemma keeps_catch: "keeps W I p \<Longrightarrow> (\<And>e. keeps W I (h e)) \<Longrightarrow> keeps W I (catchP p h)"
  unfolding keeps_def by (rule triple_catch)

lemma keeps_finally: "keeps W I p \<Longrightarrow> keeps W I c \<Longrightarrow> keeps W I (finallyP p c)"
  unfolding keeps_def by (rule triple_finally)

lemma keeps_if: "keeps W I p \<Longrightarrow> keeps W I q \<Longrightarrow> keeps W I (if b then p else q)"
  by simp

lemma keeps_option: "(x = None \<Longrightarrow> keeps W I p) \<Longrightarrow> (\<And>a. x = Some a \<Longrightarrow> keeps W I (f a)) \<Longrightarrow>
    keeps W I (case x of None \<Rightarrow> p | Some a \<Rightarrow> f a)"
  by (cases x) simp_all

lemma keeps_list: "keeps W I p \<Longrightarrow> (\<And>a as. keeps W I (f a as)) \<Longrightarrow> keeps W I (case x of [] \<Rightarrow> p | a # as \<Rightarrow> f a as)"
  by (cases x) simp_all

lemma keeps_pair: "(\<And>a b. keeps W I (f a b)) \<Longrightarrow> keeps W I (case x of (a, b) \<Rightarrow> f a b)"
  by (cases x) simp

lemma keeps_sum: "(\<And>e. keeps W I (f e)) \<Longrightarrow> (\<And>a. keeps W I (g a)) \<Longrightarrow> keeps W I (case x of Inl e \<Rightarrow> f e | Inr a \<Rightarrow> g a)"
  by (cases x) simp_all

lemmas keeps_rules = keeps_bind keeps_retP keeps_throw keeps_lift keeps_needP keeps_catch keeps_finally keeps_if
  keeps_option keeps_list keeps_pair keeps_sum

text \<open>Functions of the outside that keep it.\<close>

definition out_keeps :: "(('s, 'c) machine \<Rightarrow> bool) \<Rightarrow> ('c \<Rightarrow> 'a \<times> 'c) \<Rightarrow> bool" where
  "out_keeps I g \<longleftrightarrow> (\<forall>m. I m \<longrightarrow> I (m\<lparr>outside := snd (g (outside m))\<rparr>))"

definition gateway_keeps :: "(('s, 'c) machine \<Rightarrow> bool) \<Rightarrow> 'c engine_ext \<Rightarrow> bool" where
  "gateway_keeps I y \<longleftrightarrow> out_keeps I (en_now y) \<and> out_keeps I (en_uuid y) \<and> out_keeps I (gw_discover y) \<and>
     (\<forall>q. out_keeps I (gw_purchaseData y q)) \<and> (\<forall>es i. out_keeps I (gw_generateReport y es i)) \<and>
     (\<forall>q. out_keeps I (gw_verify y q))"

lemma gateway_parts:
  assumes "gateway_keeps I y"
  shows "out_keeps I (en_now y)" "out_keeps I (en_uuid y)" "out_keeps I (gw_discover y)"
    "out_keeps I (gw_purchaseData y q)" "out_keeps I (gw_generateReport y es i)" "out_keeps I (gw_verify y v)"
  using assms by (simp_all add: gateway_keeps_def)

lemma keeps_ask: "out_keeps I g \<Longrightarrow> keeps W I (askP g)"
  by (rule keepsI) (auto simp: askP_def out_keeps_def split: prod.splits dest!: spec)

text \<open>What the budget and the engine's trace of requests do not change.\<close>

locale outside_predicate =
  fixes W I :: "('s, 'c) machine \<Rightarrow> bool"
  assumes weaken: "I m \<Longrightarrow> W m"
    and budget: "I m \<Longrightarrow> I (m\<lparr>budget := n\<rparr>)"
    and trace: "I m \<Longrightarrow> I (m\<lparr>submits := s\<rparr>)"
begin

lemma effect:
  assumes "\<And>m. I m \<Longrightarrow> I (snd (f m))"
  shows "keeps W I (effect f)"
  unfolding keeps_def
proof (rule triple_effect [OF weaken])
  fix m n a m' assume "I m" "f (m\<lparr>budget := n\<rparr>) = (a, m')"
  then show "I m'" using assms [OF budget, of m n] by simp
qed

lemma call: "out_keeps I g \<Longrightarrow> keeps W I (callP g)"
  unfolding callP_def by (intro keeps_rules effect) (auto simp: out_keeps_def split: prod.split)

lemma noted: "keeps W I (noteSubmit n i)"
  unfolding keeps_def by (rule triple_noteSubmit) (rule trace)

lemma stops: "keeps W I (go r)" "keeps W I (stop r e)"
  by (simp_all add: go_def stop_def keeps_retP)

lemma attempt: "keeps W I p \<Longrightarrow> (\<And>a. keeps W I (k a)) \<Longrightarrow> keeps W I (attempt r p k)"
  unfolding attempt_def by (intro keeps_rules stops)

lemma logged: "gateway_keeps I y \<Longrightarrow> keeps W I (log_run w y r a k t d)"
  unfolding log_run_def by (intro keeps_rules keeps_ask) (simp_all add: gateway_keeps_def)

lemma asked:
  "gateway_keeps I y \<Longrightarrow> keeps W I (assess w y r p)" "gateway_keeps I y \<Longrightarrow> keeps W I (first_allowed w y r ps)"
  "gateway_keeps I y \<Longrightarrow> keeps W I (requestApproval w y r p s)"
proof -
  assume y: "gateway_keeps I y"
  show a: "keeps W I (assess w y r p)" for p
    unfolding assess_def using y by (intro keeps_rules keeps_ask) (simp_all add: gateway_keeps_def)
  show "keeps W I (first_allowed w y r ps)"
    by (induction ps) (simp_all, (intro keeps_rules a | simp)+)
  show "keeps W I (requestApproval w y r p s)"
    unfolding requestApproval_def Let_def using y
    by (intro keeps_rules keeps_ask logged) (simp_all add: gateway_keeps_def)
qed

lemma bought: "gateway_keeps I y \<Longrightarrow> keeps W I (buy_data w y r p)"
  unfolding buy_data_def settle_data_def Let_def
  by (intro keeps_rules attempt call noted logged stops) (simp_all add: gateway_keeps_def)

lemma chosen: "gateway_keeps I y \<Longrightarrow> keeps W I (choose_and_buy w y r)"
  unfolding choose_and_buy_def
  by (intro keeps_rules asked bought stops)

lemma closed: "gateway_keeps I y \<Longrightarrow> keeps W I (close_report w y r rep checks)"
  unfolding close_report_def Let_def by (intro keeps_rules attempt stops logged)

lemma settled: "gateway_keeps I y \<Longrightarrow> keeps W I (settle_verification w y r rep amount res)"
  unfolding settle_verification_def Let_def
  by (intro keeps_rules attempt) (auto split: json.split list.split option.split intro!: closed stops)

lemma staged: "gateway_keeps I y \<Longrightarrow> keeps W I (advance_stage w y r)"
  unfolding advance_stage_def accept_mandate_def discover_services_def purchase_data_def draft_report_def
    verify_report_def Let_def
  by (cases "run_stage r"; simp only: run_stage.case)
    (intro keeps_rules keeps_ask attempt call noted logged stops chosen settled gateway_parts; assumption)+

lemma advanced: "gateway_keeps I y \<Longrightarrow> keeps W I (advanceRun w y r)"
  unfolding advanceRun_def requireLiveRun_def fail_run_def Let_def
  by (intro keeps_rules keeps_ask stops staged logged) (simp_all add: gateway_keeps_def)

lemma created: "out_keeps I (en_now y) \<Longrightarrow> out_keeps I (en_uuid y) \<Longrightarrow> keeps W I (createRun x w y v)"
  unfolding createRun_def log_run_def Let_def by (intro keeps_rules keeps_ask)

end

section \<open>What holds between effects\<close>

fun call_job :: "base_call \<Rightarrow> json" where
  "call_job (DiscoverCall j) = j"
| "call_job (DataCall j q) = j"
| "call_job (ReportCall j es i) = j"
| "call_job (VerifyCall j q) = j"

text \<open>The paid calls, by kind and job.\<close>

datatype paid_kind = PaidData | PaidReport | PaidVerify

lemma all_kinds [simp]: "(\<forall>k. P k) \<longleftrightarrow> P PaidData \<and> P PaidReport \<and> P PaidVerify"
  by (metis paid_kind.exhaust)

fun call_key :: "base_call \<Rightarrow> (paid_kind \<times> string) list" where
  "call_key (DiscoverCall j) = []"
| "call_key (DataCall j q) = [(PaidData, job_id j)]"
| "call_key (ReportCall j es i) = [(PaidReport, job_id j)]"
| "call_key (VerifyCall j q) = [(PaidVerify, job_id j)]"

text \<open>The mandate of a job that the pinned owner signed for the pinned agent and origin.\<close>

definition owner_signed :: "host \<Rightarrow> runner_pins \<Rightarrow> signed_mandate \<Rightarrow> bool" where
  "owner_signed h p m \<longleftrightarrow> to_lower (mf_owner m) = to_lower (rp_owner p) \<and> mf_agentId m = rp_agentId p \<and>
     mf_origin m = rp_origin p \<and> sm_message m = mandateMessage m \<and>
     hs_verifies h (mf_owner m) (sm_message m) (sm_signature m)"

definition job_mandate :: "host \<Rightarrow> runner_pins \<Rightarrow> json \<Rightarrow> signed_mandate option" where
  "job_mandate h p j = check (owner_signed h p) (Option.bind (fld j ''mandate'') (p_signed_mandate (hs_ext h)))"

fun within_terms :: "signed_mandate \<Rightarrow> base_call \<Rightarrow> bool" where
  "within_terms m (DiscoverCall j) = True"
| "within_terms m (DataCall j q) = (dp_runId q = job_id j \<and> dp_requestId q = job_id j @ '':data'' \<and>
     dp_mandateExpires q = mf_expires m \<and> set (dp_repos q) \<subseteq> set (mf_repos m) \<and> dp_provider q \<in> set (mf_providers m) \<and>
     0 < dp_unitPrice q \<and> dp_unitPrice q \<le> mf_unitPrice m \<and> dp_max q = dp_unitPrice q * int (length (dp_repos q)) \<and>
     dp_max q \<le> mf_data m)"
| "within_terms m (ReportCall j es i) = (i = job_id j)"
| "within_terms m (VerifyCall j q) = (vp_runId q = job_id j \<and> vp_requestId q = job_id j @ '':verify'' \<and>
     vp_mandateExpires q = mf_expires m \<and>
     vp_max q = (case mf_service m of None \<Rightarrow> 50000 | Some v \<Rightarrow> vs_price v) \<and> vp_max q \<le> mf_verification m)"

definition call_good :: "host \<Rightarrow> runner_pins \<Rightarrow> base_call \<Rightarrow> bool" where
  "call_good h p c = (case job_mandate h p (call_job c) of None \<Rightarrow> False | Some m \<Rightarrow> within_terms m c)"

text \<open>A job may follow earlier ones: its identifier is new, and its mandate has a run left.\<close>

definition mandate_id :: "json \<Rightarrow> json option" where
  "mandate_id j = Option.bind (fld j ''mandate'') (\<lambda>m. fld m ''id'')"

definition may_follow :: "ext \<Rightarrow> json list \<Rightarrow> json \<Rightarrow> bool" where
  "may_follow x js j \<longleftrightarrow> job_id j \<notin> set (map job_id js) \<and>
     (case Option.bind (fld j ''mandate'') (p_signed_mandate x) of None \<Rightarrow> False
      | Some m \<Rightarrow> int (length (filter (\<lambda>k. mandate_id k = Some (JStr (mf_id m))) js)) < mf_maxRuns m)"

primrec jobs_ok :: "ext \<Rightarrow> json list \<Rightarrow> bool" where
  "jobs_ok x [] = True"
| "jobs_ok x (j # js) = (may_follow x js j \<and> jobs_ok x js)"

definition disk_jobs :: "(job_journal, 'c) machine \<Rightarrow> json list" where
  "disk_jobs m = (case journal m journal_file of Stored d \<Rightarrow> map je_job (jj_jobs d) | _ \<Rightarrow> [])"

definition calls_ok :: "host \<Rightarrow> runner_pins \<Rightarrow> json list \<Rightarrow> base_call list \<Rightarrow> bool" where
  "calls_ok h p js cs \<longleftrightarrow> list_all (call_good h p) cs \<and> list_all (\<lambda>c. call_job c \<in> set js) cs \<and>
     distinct (concat (map call_key cs))"

definition in_step :: "json list \<Rightarrow> 'c rworld \<Rightarrow> bool" where
  "in_step js w \<longleftrightarrow> rw_poisoned w \<or> rw_closed w \<or> map je_job (jj_jobs (rw_data w)) = js"

definition book_ok :: "host \<Rightarrow> runner_pins \<Rightarrow> (job_journal, 'c rworld) machine \<Rightarrow> bool" where
  "book_ok h p m \<longleftrightarrow> jobs_ok (hs_ext h) (rev (disk_jobs m)) \<and> calls_ok h p (disk_jobs m) (rw_calls (outside m))"

definition ledger_ok :: "host \<Rightarrow> runner_pins \<Rightarrow> (job_journal, 'c rworld) machine \<Rightarrow> bool" where
  "ledger_ok h p m \<longleftrightarrow> book_ok h p m \<and> in_step (disk_jobs m) (outside m)"

text \<open>While \<open>j\<close> is executed the guard knows which of its calls were made.\<close>

fun guard_flag :: "paid_kind \<Rightarrow> gateway_guard \<Rightarrow> bool" where
  "guard_flag PaidData g = gg_data g"
| "guard_flag PaidReport g = gg_report g"
| "guard_flag PaidVerify g = gg_verification g"

definition guard_knows :: "json \<Rightarrow> gateway_guard \<Rightarrow> base_call list \<Rightarrow> bool" where
  "guard_knows j g cs \<longleftrightarrow> (\<forall>k. (k, job_id j) \<in> set (concat (map call_key cs)) \<longrightarrow> guard_flag k g)"

definition executing :: "host \<Rightarrow> runner_pins \<Rightarrow> json \<Rightarrow> (job_journal, 'c rworld) machine \<Rightarrow> bool" where
  "executing h p j m \<longleftrightarrow> ledger_ok h p m \<and> j \<in> set (disk_jobs m) \<and> guard_knows j (rw_guard (outside m)) (rw_calls (outside m))"

lemma disk_jobs_simps [simp]:
  "disk_jobs (m\<lparr>budget := n\<rparr>) = disk_jobs m" "disk_jobs (m\<lparr>outside := w\<rparr>) = disk_jobs m"
  "disk_jobs (m\<lparr>submits := s\<rparr>) = disk_jobs m" "disk_jobs (m\<lparr>locked := b\<rparr>) = disk_jobs m"
  "disk_jobs (m\<lparr>journal := f\<rparr>) = (case f journal_file of Stored d \<Rightarrow> map je_job (jj_jobs d) | _ \<Rightarrow> [])"
  by (simp_all add: disk_jobs_def)

interpretation ledger: outside_predicate "book_ok h p" "ledger_ok h p" for h p
  by unfold_locales (simp_all add: ledger_ok_def book_ok_def)

interpretation work: outside_predicate "book_ok h p" "executing h p j" for h p j
  by unfold_locales (simp_all add: executing_def ledger_ok_def book_ok_def)

text \<open>What moves only the part of the outside no promise is about.\<close>

definition far :: "'c rworld \<Rightarrow> 'c rworld \<Rightarrow> bool" where
  "far w w' \<longleftrightarrow> rw_calls w' = rw_calls w \<and> rw_guard w' = rw_guard w \<and> rw_data w' = rw_data w \<and>
     rw_poisoned w' = rw_poisoned w \<and> rw_closed w' = rw_closed w"

lemma far_keeps:
  assumes "\<And>w. far w (snd (g w))"
  shows "out_keeps (ledger_ok h p) g" "out_keeps (executing h p j) g"
  using assms by (auto simp: out_keeps_def ledger_ok_def book_ok_def executing_def in_step_def far_def)

lemma on_ext_far: "far w (snd (on_ext g w))"
  by (simp add: on_ext_def far_def split: prod.split)

lemmas ext_keeps [simp] = far_keeps [OF on_ext_far]

section \<open>Capabilities\<close>

lemma repos_text: "stringify (repos_json a) = stringify (repos_json b) \<longleftrightarrow> a = b"
  using stringify_inj [of id "repos_json a" "repos_json b"] by (auto simp: repos_json_def comp_def)

lemma validateJob_Inr:
  assumes "validateJob h p t j = Inr (rs, m)"
  shows "job_mandate h p j = Some m" "set rs \<subseteq> set (mf_repos m)"
    "fstr j ''agentId'' = Some (rp_agentId p)" "\<exists>i. fstr j ''id'' = Some i \<and> is_uuid i"
    "Option.bind (fld j ''mandate'') (p_signed_mandate (hs_ext h)) = Some m" "fld j ''mandate'' \<noteq> None"
proof -
  have s: "job_scope h p t j = Some (rs, m)" "set rs \<subseteq> set (mf_repos m)"
    using assms by (auto simp: validateJob_def bindR_def of_opt_def need_def split: sum.splits option.splits if_splits)
  obtain v where v: "fld j ''mandate'' = Some v" "validateSignedMandate h v (pin_at p t)"
      "p_signed_mandate (hs_ext h) v = Some m" "fstr j ''agentId'' = Some (rp_agentId p)" "\<exists>i. fstr j ''id'' = Some i \<and> is_uuid i"
    using s(1) by (auto simp: job_scope_def bind_eq_Some_conv)
  have "owner_signed h p m"
    using v(2,3) by (auto simp: validateSignedMandate_def owner_signed_def pin_at_def)
  then show "job_mandate h p j = Some m" by (simp add: job_mandate_def v)
qed (use assms in \<open>auto simp: validateJob_def job_scope_def bindR_def of_opt_def need_def bind_eq_Some_conv
       split: sum.splits option.splits if_splits\<close>)

lemma far_refl [simp]: "far w w"
  by (simp add: far_def)

lemma far_trans: "far a b \<Longrightarrow> far b c \<Longrightarrow> far a c"
  by (simp add: far_def)

lemma on_ext_pair: "on_ext g w = (a, w') \<Longrightarrow> far w w'"
  using on_ext_far [of w g] by simp

lemma validated_call:
  "validated R p j w = (r, w') \<Longrightarrow> far w w' \<and> (\<forall>v. r = Inr v \<longrightarrow> (\<exists>t. validateJob (rn_host R) p t j = Inr v))"
  by (auto simp: validated_def split: prod.splits dest: on_ext_pair)

lemma allowed_call:
  assumes "allowed_call R p j authorize paid w = (r, w')"
  shows "far w w' \<and> (\<forall>v. r = Inr v \<longrightarrow> (\<exists>t. validateJob (rn_host R) p t j = Inr v))"
  using assms unfolding allowed_call_def bindC_def retC_def outC_def
  by (auto split: prod.splits sum.splits bool.splits option.splits
      dest!: validated_call on_ext_pair intro: far_trans)

text \<open>A capability leaves all promises alone, or makes its one call within the terms.\<close>

definition made_call :: "host \<Rightarrow> runner_pins \<Rightarrow> base_call \<Rightarrow> 'c rworld \<Rightarrow> 'c rworld \<Rightarrow> bool" where
  "made_call h p c w w' \<longleftrightarrow> rw_data w' = rw_data w \<and> rw_poisoned w' = rw_poisoned w \<and>
     rw_closed w' = rw_closed w \<and> rw_calls w' = rw_calls w @ [c] \<and> call_good h p c \<and>
     (\<forall>k. guard_flag k (rw_guard w') = (guard_flag k (rw_guard w) \<or> k \<in> fst ` set (call_key c))) \<and>
     (\<forall>k \<in> fst ` set (call_key c). \<not> guard_flag k (rw_guard w))"

lemma discover_call:
  "far w (snd (md_discover R p j b a w)) \<or>
   made_call (rn_host R) p (DiscoverCall j) w (snd (md_discover R p j b a w))"
proof (cases "allowed_call R p j a False w")
  case (Pair r w1)
  note ok = allowed_call [OF Pair]
  show ?thesis
  proof (cases r)
    case (Inr v)
    then obtain t where "validateJob (rn_host R) p t j = Inr v" using ok by blast
    then have "call_good (rn_host R) p (DiscoverCall j)"
      by (cases v) (auto simp: call_good_def dest!: validateJob_Inr(1))
    then show ?thesis
      using ok Inr on_ext_far [of _ "bg_discover b"]
      by (auto simp: md_discover_def bindC_def Pair note_call_def outC_def made_call_def far_def)
  qed (use ok in \<open>simp add: md_discover_def bindC_def Pair\<close>)
qed

lemma purchase_call:
  "far w (snd (md_purchase R p j b a q w)) \<or>
   made_call (rn_host R) p (DataCall j q) w (snd (md_purchase R p j b a q w))"
proof (cases "allowed_call R p j a True w")
  case (Pair r w1)
  note ok = allowed_call [OF Pair]
  show ?thesis
  proof (cases "\<exists>rs m. r = Inr (rs, m) \<and> identity_ok j m (dp_runId q) (dp_requestId q) ''data'' (dp_mandateExpires q) \<and>
      data_allowed (rw_guard w1) rs m q")
    case True
    then obtain rs m where r: "r = Inr (rs, m)" "identity_ok j m (dp_runId q) (dp_requestId q) ''data'' (dp_mandateExpires q)"
      "data_allowed (rw_guard w1) rs m q" by blast
    then obtain t where t: "validateJob (rn_host R) p t j = Inr (rs, m)" using ok by blast
    have "call_good (rn_host R) p (DataCall j q)"
      using r(2,3) validateJob_Inr(1,2) [OF t] by (auto simp: call_good_def identity_ok_def data_allowed_def repos_text)
    moreover define w2 where "w2 = w1\<lparr>rw_guard := (rw_guard w1)\<lparr>gg_data := True\<rparr>, rw_calls := rw_calls w1 @ [DataCall j q]\<rparr>"
    moreover obtain x w3 where x: "on_ext (bg_purchaseData b q) w2 = (x, w3)" by (cases "on_ext (bg_purchaseData b q) w2")
    moreover have "snd (md_purchase R p j b a q w) = (case x of Inl e \<Rightarrow> w3
        | Inr d \<Rightarrow> w3\<lparr>rw_guard := (rw_guard w3)\<lparr>gg_purchased := Some (dr_evidence d)\<rparr>\<rparr>)"
      using r x by (cases x) (simp_all add: md_purchase_def bindC_def Pair needC_def retC_def get_guard_def note_call_def
        outC_def set_guard_def need_def w2_def)
    ultimately show ?thesis
      using ok r(3) on_ext_pair [OF x] by (cases x) (simp_all add: made_call_def far_def data_allowed_def)
  qed (use ok in \<open>auto simp: md_purchase_def bindC_def Pair needC_def retC_def get_guard_def need_def split: sum.splits\<close>)
qed

lemma report_call:
  "far w (snd (md_report R p j b a es i w)) \<or>
   made_call (rn_host R) p (ReportCall j es i) w (snd (md_report R p j b a es i w))"
proof (cases "allowed_call R p j a True w")
  case (Pair r w1)
  note ok = allowed_call [OF Pair]
  show ?thesis
  proof (cases "\<exists>v. r = Inr v \<and> i = job_id j \<and> same_evidence (gg_purchased (rw_guard w1)) es \<and> \<not> gg_report (rw_guard w1)")
    case True
    then obtain v t where t: "r = Inr v" "validateJob (rn_host R) p t j = Inr v" "i = job_id j"
      "same_evidence (gg_purchased (rw_guard w1)) es" "\<not> gg_report (rw_guard w1)" using ok by blast
    have good: "call_good (rn_host R) p (ReportCall j es i)"
      using t(2,3) by (cases v) (auto simp: call_good_def dest!: validateJob_Inr(1))
    define w2 where "w2 = w1\<lparr>rw_guard := (rw_guard w1)\<lparr>gg_report := True\<rparr>, rw_calls := rw_calls w1 @ [ReportCall j es i]\<rparr>"
    have "snd (md_report R p j b a es i w) = snd (on_ext (bg_generateReport b es i) w2)"
      by (simp add: md_report_def bindC_def Pair t needC_def retC_def get_guard_def note_call_def outC_def need_def w2_def)
    then show ?thesis
      using ok good t(3,5) on_ext_far [of w2 "bg_generateReport b es i"] by (simp add: made_call_def far_def w2_def)
  qed (use ok in \<open>auto simp: md_report_def bindC_def Pair needC_def retC_def get_guard_def need_def split: sum.splits\<close>)
qed

lemma verify_call:
  "far w (snd (md_verify R p j b a q w)) \<or>
   made_call (rn_host R) p (VerifyCall j q) w (snd (md_verify R p j b a q w))"
proof (cases "allowed_call R p j a True w")
  case (Pair r w1)
  note ok = allowed_call [OF Pair]
  show ?thesis
  proof (cases "\<exists>rs m. r = Inr (rs, m) \<and> identity_ok j m (vp_runId q) (vp_requestId q) ''verify'' (vp_mandateExpires q) \<and>
      verify_allowed (rw_guard w1) m q")
    case True
    then obtain rs m where r: "r = Inr (rs, m)" "identity_ok j m (vp_runId q) (vp_requestId q) ''verify'' (vp_mandateExpires q)"
      "verify_allowed (rw_guard w1) m q" by blast
    then obtain t where t: "validateJob (rn_host R) p t j = Inr (rs, m)" using ok by blast
    have "call_good (rn_host R) p (VerifyCall j q)"
      using r(2,3) validateJob_Inr(1) [OF t] by (auto simp: call_good_def identity_ok_def verify_allowed_def)
    then show ?thesis
      using ok r on_ext_far [of _ "bg_verify b q x" for x]
      by (auto simp: md_verify_def bindC_def Pair needC_def retC_def get_guard_def note_call_def outC_def
          made_call_def far_def verify_allowed_def need_def)
  qed (use ok in \<open>auto simp: md_verify_def bindC_def Pair needC_def retC_def get_guard_def need_def split: sum.splits\<close>)
qed

text \<open>A call the guard had not seen keeps the promises of the job being executed.\<close>

lemma fst_image_pair: "(a, b) \<in> S \<Longrightarrow> a \<in> fst ` S"
  by (simp add: rev_image_eqI)

lemma made_call_keeps:
  assumes w: "executing h p j m" and c: "made_call h p c (outside m) w'" and job: "call_job c = j"
    and keys: "\<And>k i. (k, i) \<in> set (call_key c) \<Longrightarrow> i = job_id j" "distinct (call_key c)"
  shows "executing h p j (m\<lparr>outside := w'\<rparr>)"
proof -
  have "(k, i) \<notin> set (concat (map call_key (rw_calls (outside m))))" if k: "(k, i) \<in> set (call_key c)" for k i
  proof
    assume "(k, i) \<in> set (concat (map call_key (rw_calls (outside m))))"
    then have "guard_flag k (rw_guard (outside m))"
      using w keys(1) [OF k] unfolding executing_def guard_knows_def by blast
    moreover have "k \<in> fst ` set (call_key c)" using k by (rule fst_image_pair)
    then have "\<not> guard_flag k (rw_guard (outside m))" using c unfolding made_call_def by blast
    ultimately show False by contradiction
  qed
  then have new: "set (concat (map call_key (rw_calls (outside m)))) \<inter> set (call_key c) = {}" by auto
  have m: "jobs_ok (hs_ext h) (rev (disk_jobs m))" "calls_ok h p (disk_jobs m) (rw_calls (outside m))"
    "in_step (disk_jobs m) (outside m)" "j \<in> set (disk_jobs m)" "guard_knows j (rw_guard (outside m)) (rw_calls (outside m))"
    using w by (simp_all add: executing_def ledger_ok_def book_ok_def)
  have calls: "rw_calls w' = rw_calls (outside m) @ [c]" using c by (simp add: made_call_def)
  have "calls_ok h p (disk_jobs m) (rw_calls w')"
    using m(2,4) c new job keys(2) by (simp add: calls_ok_def calls made_call_def)
  moreover have "in_step (disk_jobs m) w'" using m(3) c by (simp add: in_step_def made_call_def)
  moreover have "guard_flag k (rw_guard w')" if "(k, job_id j) \<in> set (concat (map call_key (rw_calls w')))" for k
    proof (cases "(k, job_id j) \<in> set (call_key c)")
    case True
    then have "k \<in> fst ` set (call_key c)" by (rule fst_image_pair)
    then show ?thesis using c unfolding made_call_def by blast
  next
    case False
    then have "guard_flag k (rw_guard (outside m))" using that m(5) unfolding guard_knows_def by (auto simp: calls simp del: all_kinds)
    then show ?thesis using c unfolding made_call_def by blast
  qed
  ultimately show ?thesis
    using m by (simp add: executing_def ledger_ok_def book_ok_def guard_knows_def del: all_kinds)
qed

lemma gateway_call_keeps:
  fixes g :: "'c rworld \<Rightarrow> 'a \<times> 'c rworld"
  assumes "\<And>w. far w (snd (g w)) \<or> made_call h p c w (snd (g w))" "call_job c = j"
    "\<And>k i. (k, i) \<in> set (call_key c) \<Longrightarrow> i = job_id j" "distinct (call_key c)"
  shows "out_keeps (executing h p j) g"
  unfolding out_keeps_def
proof (intro allI impI)
  fix m :: "(job_journal, 'c rworld) machine" assume w: "executing h p j m"
  show "executing h p j (m\<lparr>outside := snd (g (outside m))\<rparr>)"
    using assms(1) [of "outside m"]
  proof
    assume "far (outside m) (snd (g (outside m)))"
    then show ?thesis using w by (simp add: executing_def ledger_ok_def book_ok_def in_step_def far_def)
  qed (rule made_call_keeps [OF w _ assms(2-4)])
qed

lemma mandated_keeps: "gateway_keeps (executing (rn_host R) p j) (createMandatedGateway R p j b a)"
  unfolding gateway_keeps_def createMandatedGateway_def engine_ext.simps
proof (intro conjI allI)
  show "out_keeps (executing (rn_host R) p j) (md_discover R p j b a)"
    by (rule gateway_call_keeps [OF discover_call]) simp_all
  show "out_keeps (executing (rn_host R) p j) (md_purchase R p j b a q)" for q
    by (rule gateway_call_keeps [OF purchase_call]) simp_all
  show "out_keeps (executing (rn_host R) p j) (md_report R p j b a es i)" for es i
    by (rule gateway_call_keeps [OF report_call]) simp_all
  show "out_keeps (executing (rn_host R) p j) (md_verify R p j b a q)" for q
    by (rule gateway_call_keeps [OF verify_call]) simp_all
qed simp_all

section \<open>The journal\<close>

lemma set_keeps: "(\<And>m. I m \<Longrightarrow> I (m\<lparr>outside := f (outside m)\<rparr>)) \<Longrightarrow> keeps W I (setP f)"
  unfolding setP_def by (rule keeps_ask) (simp add: out_keeps_def)

lemma get_keeps_I: "keeps W I (getP f)"
  unfolding getP_def by (rule keeps_ask) (simp add: out_keeps_def)

lemma healthy_keeps: "keeps W I assertHealthy"
  unfolding assertHealthy_def by (intro keeps_rules get_keeps_I)

text \<open>What writing the journal does: only the file, the unknown outside and the poison change, and
  whoever goes on sees the file as the memory was.\<close>

definition memory_jobs :: "(job_journal, 'c rworld) machine \<Rightarrow> json list" where
  "memory_jobs m = map je_job (jj_jobs (rw_data (outside m)))"

definition written :: "(job_journal, 'c rworld) machine \<Rightarrow> (job_journal, 'c rworld) machine \<Rightarrow> bool" where
  "written m m' \<longleftrightarrow> rw_calls (outside m') = rw_calls (outside m) \<and> rw_guard (outside m') = rw_guard (outside m) \<and>
     rw_data (outside m') = rw_data (outside m) \<and> rw_closed (outside m') = rw_closed (outside m) \<and>
     (disk_jobs m' = disk_jobs m \<or> disk_jobs m' = memory_jobs m)"

lemma persist_writes:
  assumes "persist_jobs R m = (r, m')"
  shows "written m m'" "r = Ret () \<Longrightarrow> disk_jobs m' = memory_jobs m" "r = Throw e \<Longrightarrow> rw_closed (outside m') \<or> rw_poisoned (outside m')"
proof -
  have "written m m' \<and> (r = Ret () \<longrightarrow> disk_jobs m' = memory_jobs m) \<and>
      ((\<exists>e. r = Throw e) \<longrightarrow> rw_closed (outside m') \<or> rw_poisoned (outside m'))"
    using assms unfolding persist_jobs_def assertHealthy_def getP_def askP_def needP_def bindP_def on_ext_def
    by (auto simp: retP_def throwP_def poison_def setP_def askP_def bindP_def saveJournal_def effect_def written_def memory_jobs_def
        split: if_splits prod.splits write_fate.splits nat.splits)
  then show "written m m'" "r = Ret () \<Longrightarrow> disk_jobs m' = memory_jobs m"
    "r = Throw e \<Longrightarrow> rw_closed (outside m') \<or> rw_poisoned (outside m')" by simp_all
qed

lemma persist_unhealthy: "rw_closed (outside m) \<or> rw_poisoned (outside m) \<Longrightarrow> \<exists>e. persist_jobs R m = (Throw e, m)"
  by (auto simp: persist_jobs_def assertHealthy_def getP_def askP_def needP_def bindP_def throwP_def)

lemma in_step_memory: "in_step js (outside m) \<longleftrightarrow> rw_poisoned (outside m) \<or> rw_closed (outside m) \<or> memory_jobs m = js"
  by (simp add: in_step_def memory_jobs_def)

lemma book_disk: "book_ok h p m \<Longrightarrow> disk_jobs m' = disk_jobs m \<Longrightarrow> rw_calls (outside m') = rw_calls (outside m) \<Longrightarrow> book_ok h p m'"
  by (simp add: book_ok_def)

lemma persist_same:
  assumes "ledger_ok h p m" "persist_jobs R m = (r, m')"
  shows "ledger_ok h p m'" "disk_jobs m' = disk_jobs m" "rw_guard (outside m') = rw_guard (outside m)"
    "rw_calls (outside m') = rw_calls (outside m)"
proof -
  note w = persist_writes [OF assms(2)]
  have u: "\<not> rw_closed (outside m) \<and> \<not> rw_poisoned (outside m)" if "m' \<noteq> m"
    using that persist_unhealthy [of m R] assms(2) by auto
  have same: "disk_jobs m' = disk_jobs m"
    using u w(1) assms(1) by (cases "m' = m") (auto simp: ledger_ok_def in_step_memory written_def)
  then show "disk_jobs m' = disk_jobs m" "rw_guard (outside m') = rw_guard (outside m)"
    "rw_calls (outside m') = rw_calls (outside m)" using w(1) by (simp_all add: written_def)
  have "in_step (disk_jobs m) (outside m')"
    using u w(1) assms(1) by (cases "m' = m") (auto simp: ledger_ok_def in_step_memory written_def memory_jobs_def)
  then show "ledger_ok h p m'" using assms(1) w(1) same by (auto simp: ledger_ok_def written_def intro: book_disk)
qed

lemma persist_keeps: "keeps (book_ok h p) (ledger_ok h p) (persist_jobs R)" "keeps (book_ok h p) (executing h p j) (persist_jobs R)"
proof (rule keepsI)
  fix m r m' assume "ledger_ok h p m" "persist_jobs R m = (r, m')"
  then have "ledger_ok h p m'" by (rule persist_same)
  then show "case r of Died \<Rightarrow> book_ok h p m' | _ \<Rightarrow> ledger_ok h p m'" by (cases r) (simp_all add: ledger.weaken)
next
  show "keeps (book_ok h p) (executing h p j) (persist_jobs R)"
  proof (rule keepsI)
    fix m r m' assume w: "executing h p j m" and m': "persist_jobs R m = (r, m')"
    have "ledger_ok h p m" using w by (simp add: executing_def)
    note same = persist_same [OF this m']
    have "executing h p j m'" using w same by (simp add: executing_def)
    then show "case r of Died \<Rightarrow> book_ok h p m' | _ \<Rightarrow> executing h p j m'" by (cases r) (simp_all add: work.weaken)
  qed
qed

text \<open>Operations on the entries leave the jobs of the list as they are.\<close>

lemma set_jobs_keeps:
  assumes "\<And>es. map je_job (f es) = map je_job es"
  shows "keeps (book_ok h p) (ledger_ok h p) (setP (set_jobs f))" "keeps (book_ok h p) (executing h p j) (setP (set_jobs f))"
  by (rule set_keeps, simp add: executing_def ledger_ok_def book_ok_def in_step_def set_jobs_def assms)+

lemma change_keeps:
  assumes "\<And>c. je_job (f c) = je_job c"
  shows "keeps (book_ok h p) (ledger_ok h p) (change_entry R e i s ok f)" "keeps (book_ok h p) (executing h p j) (change_entry R e i s ok f)"
proof -
  have "map je_job (map (\<lambda>c. if fld (je_job c) ''id'' = Some (JStr i) then f c else c) es) = map je_job es" for es
    by (simp add: comp_def if_distrib assms)
  note k = set_jobs_keeps [OF this]
  show "keeps (book_ok h p) (ledger_ok h p) (change_entry R e i s ok f)" "keeps (book_ok h p) (executing h p j) (change_entry R e i s ok f)"
    unfolding change_entry_def by (intro keeps_rules get_keeps_I k persist_keeps)+
qed

lemma entry_keeps:
  "keeps (book_ok h p) (executing h p j) (checkpoint_job R i r)" "keeps (book_ok h p) (executing h p j) (finish_job R i r)"
  "keeps (book_ok h p) (ledger_ok h p) (acknowledge_job R i)"
  unfolding checkpoint_job_def finish_job_def acknowledge_job_def by (rule change_keeps; simp)+

lemma stop_keeps: "keeps (book_ok h p) (executing h p j) (stopUncertain R r)"
  unfolding stopUncertain_def by (intro keeps_rules keeps_ask ext_keeps)

lemma loop_keeps:
  assumes "gateway_keeps (executing h p j) y"
  shows "keeps (book_ok h p) (executing h p j) (job_loop R y i n r)"
proof (induction n arbitrary: r)
  case (Suc n)
  show ?case
    unfolding job_loop.simps
    by (intro keeps_rules keeps_ask ext_keeps entry_keeps stop_keeps work.advanced [OF assms] Suc)
qed (simp add: keeps_retP)

end
