(* ===== verification/RunnerHistory.thy ===== *)
theory RunnerHistory
  imports RunnerSafety
begin

text \<open>
  The lives of a private runner: opening the journal restores what holds between effects, a job is
  started only if it may follow the earlier ones, and so every history of polls, deaths and restarts
  stays within the mandates the owner signed. A job that was started comes to an end.
\<close>

section \<open>Opening\<close>

definition shelf_of :: "host \<Rightarrow> runner_pins \<Rightarrow> json list \<Rightarrow> (job_journal, 'c rworld) machine \<Rightarrow> bool" where
  "shelf_of h p js m \<longleftrightarrow> book_ok h p m \<and> disk_jobs m = js"

interpretation shelf: outside_predicate "book_ok h p" "shelf_of h p js" for h p js
  by unfold_locales (auto simp: shelf_of_def book_ok_def)

lemma shelf_ext: "out_keeps (shelf_of h p js) (on_ext g)"
  using on_ext_far [of _ g] by (auto simp: out_keeps_def shelf_of_def book_ok_def far_def)

abbreviation opens ::
    "host \<Rightarrow> runner_pins \<Rightarrow> json list \<Rightarrow> ('c, 'a) runner_prog \<Rightarrow> ('a \<Rightarrow> (job_journal, 'c rworld) machine \<Rightarrow> bool) \<Rightarrow> bool" where
  "opens h p js q Q \<equiv> triple (book_ok h p) (book_ok h p) (shelf_of h p js) q Q"

lemma opening_keeps: "keeps (book_ok h p) (shelf_of h p js) q \<Longrightarrow> opens h p js q (\<lambda>_. shelf_of h p js)"
  unfolding keeps_def by (erule triple_conseq) (simp_all add: shelf_of_def)

lemma opening_read:
  "opens h p js (readJournal e journal_file)
     (\<lambda>f m. (case f of None \<Rightarrow> js = [] | Some d \<Rightarrow> map je_job (jj_jobs d) = js) \<and> shelf_of h p js m)"
  unfolding readJournal_def
  by (rule triple_bind [where R = "\<lambda>f m. journal m journal_file = f \<and> shelf_of h p js m"], rule triple_effect)
    (auto simp: shelf_of_def book_ok_def file_opt_def disk_jobs_def intro!: triple_lift split: disk_file.splits option.splits)

lemma opening_stop:
  "opens h p js (stop_started R es) (\<lambda>es' m. map je_job es' = map je_job es \<and> shelf_of h p js m)"
proof (induction es)
  case (Cons e es)
  have one: "opens h p js (if je_state e = EntryStarted
       then bindP (stopUncertain R (je_run e)) (\<lambda>r. retP (e\<lparr>je_run := r, je_state := EntryFinished\<rparr>)) else retP e)
     (\<lambda>e' m. je_job e' = je_job e \<and> shelf_of h p js m)"
  proof (rule triple_if)
    show "opens h p js (bindP (stopUncertain R (je_run e)) (\<lambda>r. retP (e\<lparr>je_run := r, je_state := EntryFinished\<rparr>)))
        (\<lambda>e' m. je_job e' = je_job e \<and> shelf_of h p js m)"
      unfolding stopUncertain_def
      by (rule triple_bind [OF opening_keeps]) (intro keeps_rules keeps_ask shelf_ext triple_ret | simp)+
  qed (simp add: triple_ret)
  show ?case
    unfolding stop_started.simps
    by (rule triple_bind [OF one], rule triple_pure, rule triple_bind [OF Cons.IH], rule triple_pure, rule triple_ret) simp
qed (simp add: triple_ret)

lemma opening_set:
  "triple (book_ok h p) (book_ok h p) (shelf_of h p js)
     (setP (\<lambda>w. w\<lparr>rw_data := d, rw_poisoned := False, rw_closed := False\<rparr>))
     (\<lambda>_ m. map je_job (jj_jobs d) = js \<longrightarrow> ledger_ok h p m)"
  by (auto simp: triple_def setP_def askP_def shelf_of_def ledger_ok_def book_ok_def in_step_def)

lemma opening_persist:
  "triple (book_ok h p) (book_ok h p) (ledger_ok h p) (persist_jobs R) (\<lambda>_. ledger_ok h p)"
  by (rule triple_conseq [OF persist_keeps(1) [unfolded keeps_def]]) (auto dest: ledger.weaken)

lemma open_locked_ok: "opens h p js (open_locked R agent) (\<lambda>_. ledger_ok h p)"
  unfolding open_locked_def Let_def
proof (rule triple_bind [OF opening_read], rule triple_pure)
  fix f :: "job_journal option" assume f: "case f of None \<Rightarrow> js = [] | Some d \<Rightarrow> map je_job (jj_jobs d) = js"
  let ?d = "given f \<lparr>jj_version = 1, jj_agent = agent, jj_jobs = []\<rparr>"
  have d: "map je_job (jj_jobs ?d) = js" using f by (cases f) (simp_all add: given_def)
  have rest: "opens h p js (bindP (stop_started R (jj_jobs ?d)) (\<lambda>es.
     bindP (setP (\<lambda>w. w\<lparr>rw_data := ?d\<lparr>jj_jobs := es\<rparr>, rw_poisoned := False, rw_closed := False\<rparr>)) (\<lambda>_. persist_jobs R)))
       (\<lambda>_. ledger_ok h p)"
  proof (rule triple_bind [OF opening_stop], rule triple_pure)
    fix es :: "job_entry list" assume es: "map je_job es = map je_job (jj_jobs ?d)"
    show "opens h p js (bindP (setP (\<lambda>w. w\<lparr>rw_data := ?d\<lparr>jj_jobs := es\<rparr>, rw_poisoned := False, rw_closed := False\<rparr>))
        (\<lambda>_. persist_jobs R)) (\<lambda>_. ledger_ok h p)"
      by (rule triple_bind [OF opening_set], rule triple_pre [OF opening_persist]) (simp add: es d)
  qed
  show "opens h p js (bindP (needP (jj_version ?d = 1 \<and> jj_agent ?d = agent)
      (Err ''Runner journal does not match the pinned agent or journal version.'')) (\<lambda>_.
     bindP (needP (journal_intact (rn_web R) agent ?d)
       (Err ''Runner journal integrity check failed. Manual reconciliation required.'')) (\<lambda>_.
     bindP (stop_started R (jj_jobs ?d)) (\<lambda>es.
     bindP (setP (\<lambda>w. w\<lparr>rw_data := ?d\<lparr>jj_jobs := es\<rparr>, rw_poisoned := False, rw_closed := False\<rparr>)) (\<lambda>_. persist_jobs R)))))
     (\<lambda>_. ledger_ok h p)"
    by (intro triple_need_then rest) (simp_all add: shelf_of_def)
qed

interpretation book: outside_predicate "book_ok h p" "book_ok h p" for h p
  by unfold_locales (simp_all add: book_ok_def)

lemma lock_effects:
  "keeps (book_ok h p) (book_ok h p) (takeLock e)" "keeps (book_ok h p) (book_ok h p) dropLock"
  "keeps (book_ok h p) (ledger_ok h p) dropLock"
  unfolding takeLock_def dropLock_def
  by (intro keeps_rules book.effect ledger.effect; simp add: ledger_ok_def book_ok_def)+

lemma openJournal_ok: "triple (book_ok h p) (book_ok h p) (book_ok h p) (openJournal R agent) (\<lambda>_. ledger_ok h p)"
  unfolding openJournal_def
proof (rule triple_bind [OF lock_effects(1) [unfolded keeps_def]])
  have "triple (book_ok h p) (book_ok h p) (book_ok h p) (open_locked R agent) (\<lambda>_. ledger_ok h p)"
    by (rule triple_pointI, rule triple_pre [OF open_locked_ok]) (auto simp: shelf_of_def)
  then show "triple (book_ok h p) (book_ok h p) (book_ok h p)
      (catchP (open_locked R agent) (\<lambda>e. bindP dropLock (\<lambda>_. throwP e))) (\<lambda>_. ledger_ok h p)"
    by (rule triple_catch) (rule triple_bind [OF lock_effects(2) [unfolded keeps_def]], rule triple_throw)
qed

lemma closeJournal_keeps: "keeps (book_ok h p) (ledger_ok h p) closeJournal"
  unfolding closeJournal_def
  by (intro keeps_rules get_keeps_I lock_effects set_keeps) (simp add: ledger_ok_def book_ok_def in_step_def)

section \<open>Starting a job\<close>

lemma existing_same:
  assumes "existing R j m = (r, m')"
  shows "m' = m" "r = Ret False \<Longrightarrow> entry_for (fld j ''id'') (jj_jobs (rw_data (outside m))) = None"
    "r = Ret b \<Longrightarrow> \<not> rw_closed (outside m) \<and> \<not> rw_poisoned (outside m)" "r \<noteq> Died"
  using assms
  by (auto simp: existing_def assertHealthy_def getP_def askP_def needP_def bindP_def retP_def throwP_def
      split: option.splits if_splits)

lemma new_identifier:
  assumes "entry_for (fld j ''id'') es = None" "fstr j ''id'' = Some i" "i \<noteq> []"
  shows "job_id j \<notin> set (map job_id (map je_job es))"
proof
  assume "job_id j \<in> set (map job_id (map je_job es))"
  then obtain e where e: "e \<in> set es" "job_id (je_job e) = i" using assms(2) by (auto simp: job_id_def given_def)
  then have "fstr (je_job e) ''id'' = Some i" using assms(3) by (auto simp: job_id_def given_def split: option.splits)
  then have "strict_eq (fld (je_job e) ''id'') (fld j ''id'')"
    using assms(2) by (auto simp: fstr_def bind_eq_Some_conv strict_eq_def elim!: as_str.elims)
  then show False using assms(1) e(1) by (auto simp: entry_for_def find_None_iff)
qed

lemma earlier_runs:
  assumes "mapR (\<lambda>e. mandate_in (je_job e)) es = Inr ns"
  shows "length (filter (\<lambda>k. mandate_id k = Some (JStr i)) (map je_job es)) =
    length (filter (\<lambda>n. strict_eq (fld n ''id'') (Some (JStr i))) ns)"
  using assms
proof (induction es arbitrary: ns)
  case (Cons e es)
  then obtain n ms where "mandate_in (je_job e) = Inr n" "mapR (\<lambda>e. mandate_in (je_job e)) es = Inr ms" "ns = n # ms"
    by (auto simp: bindR_def split: sum.splits)
  moreover from this(1) have "fld (je_job e) ''mandate'' = Some n"
    by (auto simp: mandate_in_def split: option.splits json.splits)
  moreover have "strict_eq a (Some (JStr i)) \<longleftrightarrow> a = Some (JStr i)" for a by (auto simp: strict_eq_def)
  ultimately show ?case using Cons.IH by (simp add: mandate_id_def)
qed simp

lemma p_signed_fields:
  assumes "p_signed_mandate x v = Some m"
  shows "fld v ''id'' = Some (JStr (mf_id m))" "fint v ''maxRuns'' = Some (mf_maxRuns m)" "v \<noteq> JNull"
    "0 < mf_data m" "0 < mf_verification m" "1 \<le> mf_maxRuns m"
  using assms
  by (auto simp: p_signed_mandate_def p_mandate_fields_def bind_eq_Some_conv fstr_def fint_def p_bounded_def
      split: if_splits elim!: as_str.elims)

lemma may_start_follow:
  assumes "may_start w d j = Inr u" "entry_for (fld j ''id'') (jj_jobs d) = None" "fstr j ''id'' = Some i" "i \<noteq> []"
    "Option.bind (fld j ''mandate'') (p_signed_mandate x) = Some m"
  shows "may_follow x (rev (map je_job (jj_jobs d))) j"
proof -
  obtain v where v: "fld j ''mandate'' = Some v" "p_signed_mandate x v = Some m"
    using assms(5) by (auto simp: bind_eq_Some_conv)
  then have mandate: "mandate_in j = Inr v"
    using p_signed_fields(3) [OF v(2)] by (auto simp: mandate_in_def split: json.splits)
  obtain ns where ns: "mapR (\<lambda>e. mandate_in (je_job e)) (jj_jobs d) = Inr ns"
    and "run_limit_ok v (length (filter (\<lambda>n. strict_eq (fld n ''id'') (fld v ''id'')) ns))"
    using assms(1) by (auto simp: may_start_def mandate previous_mandates_def bindR_def need_def split: sum.splits if_splits)
  then have "int (length (filter (\<lambda>n. strict_eq (fld n ''id'') (Some (JStr (mf_id m)))) ns)) < mf_maxRuns m"
    by (simp add: run_limit_ok_def p_signed_fields [OF v(2)])
  then show ?thesis
    using new_identifier [OF assms(2-4)] earlier_runs [OF ns, of "mf_id m"]
    by (simp add: may_follow_def assms(5) image_image comp_def filter_map flip: rev_filter)
qed

lemma calls_ok_more: "calls_ok h p js cs \<Longrightarrow> calls_ok h p (js @ [j]) cs"
  by (auto simp: calls_ok_def list_all_iff)

lemma new_job_calls:
  assumes "calls_ok h p js cs" "job_id j \<notin> set (map job_id js)"
  shows "(k, job_id j) \<notin> set (concat (map call_key cs))"
proof
  assume "(k, job_id j) \<in> set (concat (map call_key cs))"
  then obtain c where c: "c \<in> set cs" "(k, job_id j) \<in> set (call_key c)" by auto
  from c(2) have "job_id j = job_id (call_job c)" by (cases c) simp_all
  then show False using c(1) assms by (auto simp: calls_ok_def list_all_iff)
qed

text \<open>Starting writes the job down, and only then does its execution begin.\<close>

lemma start_writes:
  assumes "ledger_ok h p m" "start_job R j r m = (s, m')" "fstr j ''id'' = Some i" "i \<noteq> []"
    "Option.bind (fld j ''mandate'') (p_signed_mandate (hs_ext h)) = Some t"
  shows "s = Died \<Longrightarrow> book_ok h p m'" "s = Throw e \<Longrightarrow> ledger_ok h p m'"
    "s = Ret u \<Longrightarrow> ledger_ok h p m' \<and> j \<in> set (disk_jobs m') \<and> (\<forall>k. (k, job_id j) \<notin> set (concat (map call_key (rw_calls (outside m')))))"
proof -
  let ?d = "rw_data (outside m)"
  let ?e = "\<lparr>je_job = j, je_print = job_fingerprint (rn_web R) j, je_state = EntryStarted, je_run = r\<rparr>"
  let ?m = "m\<lparr>outside := set_jobs (\<lambda>es. es @ [?e]) (outside m)\<rparr>"
  have all: "(s = Died \<longrightarrow> book_ok h p m') \<and> ((\<exists>e. s = Throw e) \<longrightarrow> ledger_ok h p m') \<and>
    ((\<exists>u. s = Ret u) \<longrightarrow> ledger_ok h p m' \<and> j \<in> set (disk_jobs m') \<and> (\<forall>k. (k, job_id j) \<notin> set (concat (map call_key (rw_calls (outside m'))))))"
  proof (cases "persist_jobs R ?m = (s, m') \<and> existing R j m = (Ret False, m) \<and> may_start (rn_web R) ?d j = Inr ()")
    case True
    note w = persist_writes [OF True [THEN conjunct1]]
    have new: "entry_for (fld j ''id'') (jj_jobs ?d) = None" "\<not> rw_closed (outside m)" "\<not> rw_poisoned (outside m)"
      using existing_same(2) [of R j m "Ret False" m] existing_same(3) [of R j m "Ret False" m False] True by simp_all
    have memory: "disk_jobs m = map je_job (jj_jobs ?d)"
      using assms(1) new(2,3) by (simp add: ledger_ok_def in_step_def)
    have follow: "may_follow (hs_ext h) (rev (disk_jobs m)) j"
      unfolding memory by (rule may_start_follow [where w = "rn_web R", OF _ new(1) assms(3-5)]) (use True in simp)
    have book: "jobs_ok (hs_ext h) (rev (disk_jobs m))" "calls_ok h p (disk_jobs m) (rw_calls (outside m))"
      using assms(1) by (simp_all add: ledger_ok_def book_ok_def)
    have disk: "disk_jobs m' = disk_jobs m \<or> disk_jobs m' = disk_jobs m @ [j]"
      "\<And>u. s = Ret u \<Longrightarrow> disk_jobs m' = disk_jobs m @ [j]" "rw_calls (outside m') = rw_calls (outside m)"
      "memory_jobs m' = disk_jobs m @ [j]"
      using w by (auto simp: written_def memory_jobs_def set_jobs_def memory)
    then have "book_ok h p m'"
      using book follow calls_ok_more [OF book(2)] by (auto simp: book_ok_def)
    moreover have "in_step (disk_jobs m') (outside m')" if "s \<noteq> Died"
      using that w(3) disk(2,4) by (cases s) (auto simp: in_step_memory)
    moreover have "job_id j \<notin> set (map job_id (disk_jobs m))" using follow by (simp add: may_follow_def)
    note new_job_calls [OF book(2) this]
    ultimately show ?thesis using disk(2,3) by (auto simp: ledger_ok_def simp del: all_kinds)
  next
    case False
    then have "m' = m \<and> (\<exists>e. s = Throw e)"
      using assms(2) existing_same(1,4) [of R j m]
      by (auto simp: start_job_def bindP_def getP_def askP_def needP_def retP_def throwP_def liftP_def setP_def
          split: if_splits prod.splits outcome.splits sum.splits)
    then show ?thesis using assms(1) by (elim conjE exE) simp
  qed
  then show "s = Died \<Longrightarrow> book_ok h p m'" "s = Throw e \<Longrightarrow> ledger_ok h p m'"
    "s = Ret u \<Longrightarrow> ledger_ok h p m' \<and> j \<in> set (disk_jobs m') \<and> (\<forall>k. (k, job_id j) \<notin> set (concat (map call_key (rw_calls (outside m')))))"
    by blast+
qed

section \<open>A life\<close>

text \<open>From and to \<open>ledger_ok\<close>; a death leaves \<open>book_ok\<close>.\<close>

lemma ledger_then:
  "keeps (book_ok h p) (ledger_ok h p) q \<Longrightarrow> (\<And>a. triple (book_ok h p) (ledger_ok h p) (ledger_ok h p) (f a) Q) \<Longrightarrow>
    triple (book_ok h p) (ledger_ok h p) (ledger_ok h p) (bindP q f) Q"
  unfolding keeps_def by (rule triple_bind)

lemma existing_keeps: "keeps W I (existing R j)"
  unfolding existing_def by (intro keeps_rules healthy_keeps get_keeps_I)

lemma start_triple:
  assumes "validateJob h p t j = Inr v"
  shows "triple (book_ok h p) (ledger_ok h p) (ledger_ok h p) (start_job R j r)
    (\<lambda>_ m. ledger_ok h p m \<and> j \<in> set (disk_jobs m) \<and> (\<forall>k. (k, job_id j) \<notin> set (concat (map call_key (rw_calls (outside m))))))"
proof -
  obtain rs m where v: "v = (rs, m)" by (cases v)
  note valid = validateJob_Inr [OF assms [unfolded v]]
  obtain i where i: "fstr j ''id'' = Some i" "is_uuid i" using valid(4) by blast
  then have "i \<noteq> []" by (cases "i = []") (simp_all add: is_uuid_def)
  note i = i(1) this
  show ?thesis
    unfolding triple_def
  proof (intro allI impI)
    fix m0 :: "(job_journal, 'a rworld) machine"
    assume m0: "ledger_ok h p m0"
    obtain s m' where s: "start_job R j r m0 = (s, m')" by (cases "start_job R j r m0")
    note w = start_writes [OF m0 s i valid(5)]
    show "case start_job R j r m0 of
        (Ret a, m) \<Rightarrow> ledger_ok h p m \<and> j \<in> set (disk_jobs m) \<and> (\<forall>k. (k, job_id j) \<notin> set (concat (map call_key (rw_calls (outside m)))))
      | (Throw e, m) \<Rightarrow> ledger_ok h p m | (Died, m) \<Rightarrow> book_ok h p m"
      using w unfolding s by (cases s) simp_all
  qed
qed

lemma begin_triple:
  assumes "out_keeps (ledger_ok (rn_host R) p) (en_now y)" "out_keeps (ledger_ok (rn_host R) p) (en_uuid y)"
  shows "triple (book_ok (rn_host R) p) (ledger_ok (rn_host R) p) (ledger_ok (rn_host R) p) (begin_job R p y j)
    (\<lambda>_. executing (rn_host R) p j)"
  unfolding begin_job_def Let_def
  apply (rule ledger_then [OF keeps_ask [OF ext_keeps(1)]])
  apply (rule triple_lift_then, assumption)
  apply (rule triple_lift_then, assumption)
  apply (rule ledger_then [OF ledger.created [OF assms]])
  apply (rule triple_bind [OF start_triple], assumption)
  apply (rule triple_bind [where R = "\<lambda>_. executing (rn_host R) p j"])
   apply (auto simp: triple_def setP_def askP_def executing_def ledger_ok_def book_ok_def in_step_def guard_knows_def simp del: all_kinds)[1]
  apply (rule triple_ret, assumption)
  done

lemma execute_keeps: "keeps (book_ok (rn_host R) p) (ledger_ok (rn_host R) p) (executeJob R p b a n j)"
proof -
  let ?y = "createMandatedGateway R p j b a"
  have now: "out_keeps (ledger_ok (rn_host R) p) (en_now ?y)" "out_keeps (ledger_ok (rn_host R) p) (en_uuid ?y)"
    by (simp_all add: createMandatedGateway_def)
  have loop: "triple (book_ok (rn_host R) p) (ledger_ok (rn_host R) p) (executing (rn_host R) p j)
      (job_loop R ?y (job_id j) n r) (\<lambda>_. ledger_ok (rn_host R) p)" for r
    by (rule triple_conseq [OF loop_keeps [OF mandated_keeps, unfolded keeps_def]]) (simp_all add: executing_def)
  have "keeps (book_ok (rn_host R) p) (ledger_ok (rn_host R) p) (bindP (begin_job R p ?y j) (job_loop R ?y (job_id j) n))"
    unfolding keeps_def by (rule triple_bind [OF begin_triple [OF now] loop])
  then show ?thesis
    unfolding executeJob_def Let_def by (intro keeps_bind [OF existing_keeps] keeps_if keeps_retP)
qed

lemma far_call: "keeps (book_ok h p) (ledger_ok h p) (callP (outC g))"
  unfolding outC_def by (rule ledger.call [OF ext_keeps(1)])

lemma flush_keeps: "keeps (book_ok h p) (ledger_ok h p) (flushResults R cfg)"
proof -
  have "keeps (book_ok h p) (ledger_ok h p) (flush_entries R cfg es)" for es
    by (induction es) (simp_all add: keeps_retP keeps_bind far_call entry_keeps)
  then show ?thesis
    unfolding flushResults_def pending_def by (intro keeps_rules healthy_keeps get_keeps_I)
qed

lemma poll_keeps: "keeps (book_ok (rn_host R) (rc_pins cfg)) (ledger_ok (rn_host R) (rc_pins cfg)) (pollOnce R cfg)"
  unfolding pollOnce_def poll_cycle_def
  by (intro keeps_rules get_keeps_I set_keeps flush_keeps far_call execute_keeps)
    (simp_all add: ledger_ok_def book_ok_def in_step_def)

lemma life_ok:
  "triple (book_ok (rn_host R) (rc_pins cfg)) (book_ok (rn_host R) (rc_pins cfg)) (book_ok (rn_host R) (rc_pins cfg))
     (agent_runner R cfg k) (\<lambda>_. book_ok (rn_host R) (rc_pins cfg))"
proof -
  let ?W = "book_ok (rn_host R) (rc_pins cfg)" and ?I = "ledger_ok (rn_host R) (rc_pins cfg)"
  have "keeps ?W ?I (poll_loop R cfg k)"
    by (induction k) (simp_all add: keeps_retP, intro keeps_rules keeps_ask ext_keeps poll_keeps, assumption)
  then have "keeps ?W ?I (bindP (setP (\<lambda>w. w\<lparr>rw_polling := False\<rparr>)) (\<lambda>_. finallyP (poll_loop R cfg k) closeJournal))"
    by (intro keeps_rules set_keeps closeJournal_keeps) (simp_all add: ledger_ok_def book_ok_def in_step_def)
  then have "triple ?W ?W ?I (bindP (setP (\<lambda>w. w\<lparr>rw_polling := False\<rparr>)) (\<lambda>_. finallyP (poll_loop R cfg k) closeJournal)) (\<lambda>_. ?W)"
    unfolding keeps_def by (rule triple_conseq) (auto dest: ledger.weaken)
  then show ?thesis unfolding agent_runner_def by (rule triple_bind [OF openJournal_ok])
qed

lemma lives_ok: "book_ok (rn_host R) (rc_pins cfg) (runner_lives R cfg lives u)"
  unfolding runner_lives_def
proof (rule run_all_invariant)
  fix n q and m :: "(job_journal, 'a rworld) machine"
  assume "(n, q) \<in> set (map (\<lambda>(n, k). (n, agent_runner R cfg k)) lives)" and m: "book_ok (rn_host R) (rc_pins cfg) m"
  then obtain k where q: "q = agent_runner R cfg k" by auto
  obtain r m' where r: "q m = (r, m')" by (cases "q m")
  have "book_ok (rn_host R) (rc_pins cfg) m'"
    using tripleD [OF life_ok m] r unfolding q by (cases r) auto
  then show "book_ok (rn_host R) (rc_pins cfg) (snd (q m))" by (simp add: r)
qed (simp_all add: book_ok_def restart_def disk_jobs_def empty_machine_def new_runner_def calls_ok_def)

section \<open>What an owner can rely on\<close>

definition calls_under :: "json \<Rightarrow> base_call list \<Rightarrow> base_call list" where
  "calls_under v cs = filter (\<lambda>c. fld (call_job c) ''mandate'' = Some v) cs"

fun data_cost :: "base_call \<Rightarrow> int" where
  "data_cost (DataCall j q) = dp_max q"
| "data_cost _ = 0"

fun verification_cost :: "base_call \<Rightarrow> int" where
  "verification_cost (VerifyCall j q) = vp_max q"
| "verification_cost _ = 0"

definition spent_on :: "(base_call \<Rightarrow> int) \<Rightarrow> json \<Rightarrow> base_call list \<Rightarrow> int" where
  "spent_on f v cs = sum_list (map f (calls_under v cs))"

lemma filter_length_le: "(\<And>x. P x \<Longrightarrow> Q x) \<Longrightarrow> length (filter P xs) \<le> length (filter Q xs)"
  by (induction xs) auto

lemma runs_counted:
  assumes "p_signed_mandate x v = Some t"
  shows "jobs_ok x js \<Longrightarrow> int (length (filter (\<lambda>j. fld j ''mandate'' = Some v) js)) \<le> mf_maxRuns t"
proof (induction js)
  case (Cons j js)
  have "length (filter (\<lambda>j. fld j ''mandate'' = Some v) js) \<le> length (filter (\<lambda>k. mandate_id k = Some (JStr (mf_id t))) js)"
    by (rule filter_length_le) (simp add: mandate_id_def p_signed_fields [OF assms])
  then show ?case using Cons assms by (auto simp: may_follow_def)
qed (use p_signed_fields(6) [OF assms] in simp)

abbreviation of_kind :: "paid_kind \<Rightarrow> base_call \<Rightarrow> bool" where
  "of_kind k c \<equiv> (k, job_id (call_job c)) \<in> set (call_key c)"

lemma kind_once:
  "distinct (concat (map call_key cs)) \<Longrightarrow> distinct (map (\<lambda>c. job_id (call_job c)) (filter (of_kind k) (calls_under v cs)))"
proof (induction cs)
  case (Cons c cs)
  have "job_id (call_job c) \<noteq> job_id (call_job d)" if "of_kind k c" "d \<in> set cs" "of_kind k d" for d
    using that Cons.prems by auto
  then show ?case using Cons by (auto simp: calls_under_def)
qed (simp add: calls_under_def)

lemma cost_bound:
  assumes ok: "calls_ok h p js cs" and B: "0 \<le> B"
    and f: "\<And>c. c \<in> set (calls_under v cs) \<Longrightarrow> f c \<le> (if of_kind k c then B else 0)"
  shows "spent_on f v cs \<le> B * int (length (filter (\<lambda>j. fld j ''mandate'' = Some v) js))"
proof -
  let ?F = "filter (of_kind k) (calls_under v cs)" and ?js = "filter (\<lambda>j. fld j ''mandate'' = Some v) js"
  have sum: "sum_list (map f xs) \<le> B * int (length (filter (of_kind k) xs))" if "set xs \<subseteq> set (calls_under v cs)" for xs
    using that
  proof (induction xs)
    case (Cons c xs)
    then show ?case using f [of c] by (auto simp: algebra_simps split: if_splits)
  qed simp
  have "set (map (\<lambda>c. job_id (call_job c)) ?F) \<subseteq> set (map job_id ?js)"
    using ok by (auto simp: calls_ok_def list_all_iff calls_under_def)
  then have "card (set (map (\<lambda>c. job_id (call_job c)) ?F)) \<le> card (set (map job_id ?js))"
    by (intro card_mono) simp_all
  also have "\<dots> \<le> length ?js" using card_length [of "map job_id ?js"] by simp
  finally have "length ?F \<le> length ?js"
    using distinct_card [OF kind_once, of cs k v] ok by (simp add: calls_ok_def)
  then have "B * int (length ?F) \<le> B * int (length ?js)" using B by (intro mult_left_mono) simp_all
  then show ?thesis using sum [of "calls_under v cs"] by (simp add: spent_on_def)
qed

lemma good_terms:
  assumes "call_good h p c" "fld (call_job c) ''mandate'' = Some v"
  shows "\<exists>t. p_signed_mandate (hs_ext h) v = Some t \<and> within_terms t c"
  using assms by (auto simp: call_good_def job_mandate_def split: option.splits)

text \<open>
  C10. Whatever the platform sends and wherever the runner dies, every call that left it was made for
  a job its journal holds, under a mandate the pinned owner signed for this agent and origin and
  within that mandate's terms, and no job made two data purchases, two reports or two verifications.
\<close>

theorem runner_calls_within_mandate:
  "let m = runner_lives R cfg lives u; cs = rw_calls (outside m) in
     list_all (call_good (rn_host R) (rc_pins cfg)) cs \<and> list_all (\<lambda>c. call_job c \<in> set (disk_jobs m)) cs \<and>
     distinct (concat (map call_key cs))"
  using lives_ok [of R cfg lives u] by (simp add: Let_def book_ok_def calls_ok_def)

text \<open>
  C11. Over all its lives a runner asks its broker to spend, under one signed mandate, at most the two
  totals that the mandate's message prints: budget per run times number of runs. Under a mandate
  nobody could have signed it makes no call.
\<close>

theorem runner_totals_bounded:
  "let cs = rw_calls (outside (runner_lives R cfg lives u)) in
     case p_signed_mandate (hs_ext (rn_host R)) v of
       None \<Rightarrow> calls_under v cs = []
     | Some t \<Rightarrow> spent_on data_cost v cs \<le> mf_data t * mf_maxRuns t \<and>
         spent_on verification_cost v cs \<le> mf_verification t * mf_maxRuns t"
proof -
  let ?h = "rn_host R" and ?p = "rc_pins cfg" and ?m = "runner_lives R cfg lives u"
  let ?js = "disk_jobs ?m" and ?cs = "rw_calls (outside ?m)"
  have ok: "calls_ok ?h ?p ?js ?cs" "jobs_ok (hs_ext ?h) (rev ?js)" using lives_ok [of R cfg lives u] by (simp_all add: book_ok_def)
  have good: "\<exists>t. p_signed_mandate (hs_ext ?h) v = Some t \<and> within_terms t c" if "c \<in> set (calls_under v ?cs)" for c
    using that ok(1) good_terms [of ?h ?p c v] by (auto simp: calls_under_def calls_ok_def list_all_iff)
  show ?thesis
  proof (cases "p_signed_mandate (hs_ext ?h) v")
    case None
    then have "c \<notin> set (calls_under v ?cs)" for c using good by auto
    then have "calls_under v ?cs = []" by (cases "calls_under v ?cs") auto
    then show ?thesis by (simp add: Let_def None)
  next
    case (Some t)
    note pos = p_signed_fields(4,5) [OF Some]
    have n: "int (length (filter (\<lambda>j. fld j ''mandate'' = Some v) ?js)) \<le> mf_maxRuns t"
      using runs_counted [OF Some ok(2)] by (simp flip: rev_filter)
    have terms: "within_terms t c" if "c \<in> set (calls_under v ?cs)" for c using good [OF that] Some by simp
    have "spent_on data_cost v ?cs \<le> mf_data t * int (length (filter (\<lambda>j. fld j ''mandate'' = Some v) ?js))"
    proof (rule cost_bound [OF ok(1), where k = PaidData])
      fix c assume "c \<in> set (calls_under v ?cs)"
      from terms [OF this] show "data_cost c \<le> (if of_kind PaidData c then mf_data t else 0)" by (cases c) simp_all
    qed (use pos in simp)
    moreover have "spent_on verification_cost v ?cs \<le> mf_verification t * int (length (filter (\<lambda>j. fld j ''mandate'' = Some v) ?js))"
    proof (rule cost_bound [OF ok(1), where k = PaidVerify])
      fix c assume "c \<in> set (calls_under v ?cs)"
      from terms [OF this] show "verification_cost c \<le> (if of_kind PaidVerify c then mf_verification t else 0)" by (cases c) simp_all
    qed (use pos in simp)
    moreover have "mf_data t * int (length (filter (\<lambda>j. fld j ''mandate'' = Some v) ?js)) \<le> mf_data t * mf_maxRuns t"
      "mf_verification t * int (length (filter (\<lambda>j. fld j ''mandate'' = Some v) ?js)) \<le> mf_verification t * mf_maxRuns t"
      using n pos by (simp_all add: mult_left_mono)
    ultimately show ?thesis by (simp add: Let_def Some)
  qed
qed

section \<open>Jobs end\<close>

abbreviation gives :: "('s, 'c, 'a) prog \<Rightarrow> ('a \<Rightarrow> bool) \<Rightarrow> bool" where
  "gives q Q \<equiv> triple (\<lambda>_. True) (\<lambda>_. True) (\<lambda>_. True) q (\<lambda>a _. Q a)"

lemma gives_any: "gives q (\<lambda>_. True)"
  by (simp add: triple_def split: prod.split outcome.split)

lemma gives_bind: "gives q R \<Longrightarrow> (\<And>a. R a \<Longrightarrow> gives (f a) Q) \<Longrightarrow> gives (bindP q f) Q"
  by (rule triple_bind [where R = "\<lambda>a _. R a"]) (auto simp: triple_def)

lemma gives_then: "(\<And>a. gives (f a) Q) \<Longrightarrow> gives (bindP q f) Q"
  by (rule gives_bind [OF gives_any])

lemma gives_spends: "spends c q Q \<Longrightarrow> gives q Q"
  by (auto simp: triple_def dest: spendsD split: prod.split outcome.split)

lemma loop_ends:
  "halted r \<and> 0 < n \<or> ongoing r \<and> 6 \<le> rank (run_stage r) + n \<Longrightarrow> gives (job_loop R y i n r) (\<lambda>b. b)"
proof (induction n arbitrary: r)
  case 0
  then show ?case by (cases "run_stage r") auto
next
  case (Suc n)
  show ?case
  proof (cases "halted r")
    case True
    then show ?thesis by (simp add: halted_def) (intro gives_then triple_ret TrueI)
  next
    case False
    then have r: "ongoing r" "6 \<le> rank (run_stage r) + Suc n" using Suc.prems by simp_all
    then have n: "0 < n" by (cases "run_stage r") (auto simp: ongoing_def)
    have "gives (advanceRun (rn_web R) y r) (\<lambda>r'. halted r' \<or> ongoing r' \<and> rank (run_stage r') = Suc (rank (run_stage r)))"
      by (rule gives_spends [OF spends_mono [OF advanceRun_moves [OF r(1)]]]) auto
    then have go: "gives (bindP (advanceRun (rn_web R) y r) (\<lambda>r. bindP (checkpoint_job R i r) (\<lambda>_. job_loop R y i n r))) (\<lambda>b. b)"
    proof (rule gives_bind)
      fix r' assume "halted r' \<or> ongoing r' \<and> rank (run_stage r') = Suc (rank (run_stage r))"
      then have "gives (job_loop R y i n r') (\<lambda>b. b)" by (intro Suc.IH) (use n r(2) in auto)
      then show "gives (bindP (checkpoint_job R i r') (\<lambda>_. job_loop R y i n r')) (\<lambda>b. b)" by (rule gives_then)
    qed
    have "run_status r \<notin> {StCompleted, StFailed, StAwaiting}" using False by (simp add: halted_def)
    then show ?thesis
      unfolding job_loop.simps by (simp only: if_False) (intro gives_then triple_if go triple_ret TrueI)
  qed
qed

text \<open>
  C40. The execution of a job comes to an end: the loop that advances its run is left after at most
  five advances, with the run completed, failed or waiting for approval, however broker and platform
  answer.
\<close>

theorem runner_job_ends:
  "case executeJob R p b a 6 j m of (Ret ended, _) \<Rightarrow> ended | _ \<Rightarrow> True"
proof -
  have created: "gives (createRun x w y v) (\<lambda>r. ongoing r \<and> run_stage r = AtMandate)" for x w y v
    unfolding triple_def
    by (intro allI impI, use createRun_ongoing [where x = x and w = w and y = y and body = v] in
        \<open>force split: prod.splits outcome.splits\<close>)
  have "gives (begin_job R p y j) (\<lambda>r. ongoing r \<and> run_stage r = AtMandate)" for y
    unfolding begin_job_def Let_def
    by (rule gives_then, rule gives_then, rule gives_then, rule gives_bind [OF created], intro gives_then triple_ret)
      (simp add: ongoing_def)
  then have run: "gives (bindP (begin_job R p y j) (job_loop R y i 6)) (\<lambda>b. b)" for y i
    by (rule gives_bind) (simp add: loop_ends)
  have "gives (executeJob R p b a 6 j) (\<lambda>b. b)"
    unfolding executeJob_def Let_def by (rule gives_then, rule triple_if, simp add: triple_ret, rule run)
  then show ?thesis by (auto simp: triple_def split: prod.split outcome.split)
qed

end
