(* ===== verification/Accounts.thy ===== *)
theory Accounts
  imports RunnerResult
begin

text \<open>
  The tables of the hosted platform that users, agents, their API keys, runners, mandates, jobs and
  the verification market share (\<open>src/db/migrations\<close>), and the operations on agents and keys:
  \<open>src/src/lib/platform/agents.ts\<close> and \<open>credentials.ts\<close>. A request is a
  \<open>session\<close>; times are milliseconds; a uuid column compares without regard to case and
  prints in lower case. Settled data purchases, the clocks and what the mirror node, the chain and
  remote verifiers answer are the rest of the record, which changes as it pleases between statements.
\<close>

section \<open>Tables\<close>

record agent_row =
  ag_id :: string
  ag_user :: string
  ag_name :: string
  ag_description :: string
  ag_status :: string
  ag_data :: int
  ag_verification :: int
  ag_created :: int

record key_row =
  ky_id :: string
  ky_agent :: string
  ky_name :: string
  ky_prefix :: string
  ky_hash :: string
  ky_created :: int
  ky_expires :: int
  ky_revoked :: "int option"

record paired_runner =
  rn_id :: string
  rn_agent :: string
  rn_hash :: string
  rn_prefix :: string
  rn_created :: int
  rn_seen :: "int option"
  rn_revoked :: "int option"

record mandate_row =
  mr_id :: string
  mr_agent :: string
  mr_fields :: mandate_fields
  mr_message :: string
  mr_signature :: "string option"
  mr_maxRuns :: int
  mr_reserved :: int
  mr_expires :: int
  mr_created :: int
  mr_approved :: "int option"
  mr_revoked :: "int option"

record job_row =
  jb_id :: string
  jb_agent :: string
  jb_key :: string
  jb_status :: job_status
  jb_repos :: "string list"
  jb_mandate :: string
  jb_runner :: "string option"
  jb_claimed :: "int option"
  jb_result :: "json option"
  jb_verification :: "string option"
  jb_proofs :: "json list option"
  jb_created :: int
  jb_updated :: int

record chain_claim =
  cr_network :: string
  cr_transaction :: string
  cr_job :: string

record listing_row =
  ls_id :: string
  ls_user :: string
  ls_name :: string
  ls_description :: string
  ls_recipient :: string
  ls_price :: int
  ls_revision :: int
  ls_active :: bool
  ls_agent :: "(string \<times> string) option"
  ls_external :: bool
  ls_provider :: "string option"
  ls_created :: int

datatype order_status = OrderQuoted | OrderPaidFor | OrderFulfilled

record market_order =
  mo_id :: string
  mo_job :: string
  mo_service :: string
  mo_revision :: int
  mo_runner :: string
  mo_payer :: string
  mo_recipient :: string
  mo_amount :: int
  mo_dataTx :: string
  mo_dataSource :: string
  mo_digest :: string
  mo_report :: report
  mo_snapshot :: verification_service
  mo_status :: order_status
  mo_hash :: "string option"
  mo_proof :: "json option"
  mo_checks :: "json list option"
  mo_created :: int
  mo_expires :: int
  mo_token :: "string option"
  mo_lease :: "int option"
  mo_attempts :: int
  mo_error :: "string option"

record payment_row =
  sp_transaction :: string
  sp_provider :: string
  sp_repos :: json
  sp_amount :: int
  sp_settled :: bool
  sp_settlementTx :: "string option"
  sp_evidence :: json

record transfer_event =
  te_address :: string
  te_from :: string
  te_to :: string
  te_value :: int

record chain_answer =
  ca_chainId :: int
  ca_status :: string
  ca_timestamp :: int
  ca_events :: "transfer_event list"
  ca_blockHash :: string
  ca_blockNumber :: int

record challenge_row =
  ch_hash :: string
  ch_address :: string
  ch_nonce :: string
  ch_message :: string
  ch_expires :: int
  ch_used :: "int option"

record session_row =
  se_hash :: string
  se_user :: string
  se_expires :: int

record limit_row =
  rl_bucket :: string
  rl_hits :: int
  rl_reset :: int

record exec_db =
  xd_users :: "(string \<times> string) list"
  xd_challenges :: "challenge_row list"
  xd_sessions :: "session_row list"
  xd_limits :: "limit_row list"
  xd_agents :: "agent_row list"
  xd_keys :: "key_row list"
  xd_runners :: "paired_runner list"
  xd_mandates :: "mandate_row list"
  xd_jobs :: "job_row list"
  xd_claims :: "chain_claim list"
  xd_listings :: "listing_row list"
  xd_orders :: "market_order list"
  xd_payments :: "payment_row list"
  xd_now :: int
  xd_clock :: int
  xd_mirror :: "string \<Rightarrow> (bool \<times> json) res"
  xd_chain :: "string \<Rightarrow> chain_answer res"
  xd_remote :: "string \<Rightarrow> string \<Rightarrow> json \<Rightarrow> json res"

text \<open>\<open>UPDATE ... SET f WHERE p\<close>, and the rows it returns.\<close>

definition update_where :: "('a \<Rightarrow> bool) \<Rightarrow> ('a \<Rightarrow> 'a) \<Rightarrow> 'a list \<Rightarrow> 'a list" where
  "update_where p f rows = map (\<lambda>r. if p r then f r else r) rows"

definition updated_rows :: "('a \<Rightarrow> bool) \<Rightarrow> ('a \<Rightarrow> 'a) \<Rightarrow> 'a list \<Rightarrow> 'a list" where
  "updated_rows p f rows = map f (filter p rows)"

definition violation :: js_error where
  "violation = Thrown ''constraint violation''"

definition first_of :: "'a list \<Rightarrow> 'a option" where
  "first_of rs = (case rs of [] \<Rightarrow> None | r # _ \<Rightarrow> Some r)"

text \<open>A \<open>jsonb\<close> column refuses a string with the character 0.\<close>

fun no_nul :: "json \<Rightarrow> bool" where
  "no_nul (JStr s) = (CHR 0x00 \<notin> set s)"
| "no_nul (JArr vs) = list_all no_nul vs"
| "no_nul (JObj kvs) = list_all (\<lambda>kv. CHR 0x00 \<notin> set (fst kv) \<and> no_nul (snd kv)) kvs"
| "no_nul _ = True"

text \<open>The answer of an operation, as a reply of the platform.\<close>

definition answer_with :: "('a \<Rightarrow> 'r) \<Rightarrow> ('d, 'a) session \<Rightarrow> ('d, 'r) session" where
  "answer_with f s = bindS s (\<lambda>r. liftS r (\<lambda>a. Reply (Inr (f a))))"

text \<open>A \<open>Date\<close> that passed through its text has whole seconds.\<close>

definition whole_second :: "int \<Rightarrow> int" where
  "whole_second t = 1000 * (t div 1000)"

section \<open>Agents\<close>

definition find_agent :: "exec_db \<Rightarrow> string \<Rightarrow> agent_row option" where
  "find_agent d agent = find (\<lambda>a. same_uuid (ag_id a) agent) (xd_agents d)"

definition assertAgentOwner :: "agent_row option \<Rightarrow> string \<Rightarrow> unit res" where
  "assertAgentOwner a user = need (case a of None \<Rightarrow> False | Some r \<Rightarrow> ag_user r = user)
     (Platform 404 ''AGENT_NOT_FOUND'' ''Agent not found.'')"

definition owned_agent :: "string \<Rightarrow> string \<Rightarrow> (exec_db, 'r) session \<Rightarrow> (exec_db, 'r) session" where
  "owned_agent user agent k =
     liftS (assertUuid agent) (\<lambda>_.
     query (\<lambda>d. find_agent d agent) (\<lambda>a. liftS (assertAgentOwner a user) (\<lambda>_. k)))"

definition listAgents :: "string \<Rightarrow> (exec_db, agent_row list) session" where
  "listAgents user =
     query (\<lambda>d. rev (sort_key (\<lambda>a. (ag_created a, ag_id a)) (filter (\<lambda>a. same_uuid (ag_user a) user) (xd_agents d))))
       (\<lambda>rs. Reply (Inr rs))"

text \<open>The insert under the owner's lock: at most 25 agents of a user.\<close>

definition owned_count :: "string \<Rightarrow> agent_row list \<Rightarrow> nat" where
  "owned_count user rows = length (filter (\<lambda>a. same_uuid (ag_user a) user) rows)"

definition insert_agent :: "string \<Rightarrow> string \<Rightarrow> agent_input \<Rightarrow> exec_db \<Rightarrow> (agent_row option \<times> exec_db) res" where
  "insert_agent i user v d =
     (let r = \<lparr>ag_id = to_lower i, ag_user = to_lower user, ag_name = ai_name v, ag_description = ai_description v,
            ag_status = ''setup_required'', ag_data = ai_data v, ag_verification = ai_verification v,
            ag_created = xd_now d\<rparr>
      in if 25 \<le> owned_count user (xd_agents d) then Inr (None, d)
         else if list_ex (\<lambda>a. ag_id a = ag_id r) (xd_agents d) \<or> \<not> list_ex (\<lambda>u. same_uuid (fst u) user) (xd_users d)
         then Inl violation
         else Inr (Some r, d\<lparr>xd_agents := xd_agents d @ [r]\<rparr>))"

definition createAgent :: "string \<Rightarrow> string \<Rightarrow> json \<Rightarrow> (exec_db, agent_row) session" where
  "createAgent fresh user body =
     liftS (parseAgentInput body) (\<lambda>v.
     transact (insert_agent fresh user v) (\<lambda>created.
     liftS (of_opt (Platform 409 ''AGENT_LIMIT'' ''You can create up to 25 agents.'') created) (\<lambda>r. Reply (Inr r))))"

text \<open>A job as the list and the single read show it.\<close>

definition shown_verification :: "job_row \<Rightarrow> string option" where
  "shown_verification r = (case jb_verification r of Some v \<Rightarrow> Some v
     | None \<Rightarrow> if jb_result r = None then None else Some ''runner-confirmed'')"

definition listAgentRuns :: "string \<Rightarrow> (exec_db, (job_row \<times> string option) list) session" where
  "listAgentRuns agent =
     query (\<lambda>d. take 100 (rev (sort_key (\<lambda>r. (jb_created r, jb_id r)) (filter (\<lambda>r. same_uuid (jb_agent r) agent) (xd_jobs d)))))
       (\<lambda>rs. Reply (Inr (map (\<lambda>r. (r, shown_verification r)) rs)))"

definition getAgentRun :: "string \<Rightarrow> string \<Rightarrow> (exec_db, job_row \<times> string option) session" where
  "getAgentRun agent i =
     liftS (assertUuid i) (\<lambda>_.
     query (\<lambda>d. find (\<lambda>r. same_uuid (jb_agent r) agent \<and> same_uuid (jb_id r) i) (xd_jobs d)) (\<lambda>row.
     liftS (of_opt (Platform 404 ''RUN_NOT_FOUND'' ''Run not found.'') row) (\<lambda>r. Reply (Inr (r, shown_verification r)))))"

section \<open>API keys\<close>

definition parseKeyName :: "json \<Rightarrow> string res" where
  "parseKeyName v =
     bindR (need (is_obj v \<and> set (keys v) \<subseteq> {''name''}) (Platform 400 ''INVALID_KEY'' ''Provide a key name.'')) (\<lambda>_.
     of_opt (Platform 400 ''INVALID_KEY'' ''Key name must contain 1-80 characters.'')
       (check (\<lambda>n. n \<noteq> [] \<and> length n \<le> 80) (map_option trim (fstr v ''name''))))"

text \<open>A credential: the secret is the \<open>base64url\<close> text of 32 random bytes.\<close>

definition test_token :: "string \<Rightarrow> string" where
  "test_token secret = ''ob_test_'' @ secret"

definition bearer_secret :: "(string \<Rightarrow> string) \<Rightarrow> string \<Rightarrow> string option \<Rightarrow> string option" where
  "bearer_secret norm prefix authorization =
     (case authorization of None \<Rightarrow> None
      | Some s \<Rightarrow>
          let start = ''Bearer '' @ prefix; secret = drop (length start) s
          in if norm (take (length start) s) = norm start \<and> length secret = 43 \<and> list_all is_ident_char secret
             then Some (drop 7 s) else None)"

definition bearerToken :: "string option \<Rightarrow> string res" where
  "bearerToken authorization = of_opt (Platform 401 ''INVALID_API_KEY'' ''A valid Bearer API key is required.'')
     (bearer_secret to_lower ''ob_test_'' authorization)"

definition assertCredentialScope :: "key_row option \<Rightarrow> string \<Rightarrow> int \<Rightarrow> unit res" where
  "assertCredentialScope row agent now =
     (let bad = Platform 401 ''INVALID_API_KEY'' ''The API key is invalid, expired or revoked.''
      in case row of None \<Rightarrow> Inl bad
         | Some r \<Rightarrow> bindR (need (ky_revoked r = None \<and> now < ky_expires r) bad) (\<lambda>_.
             need (ky_agent r = agent) (Platform 403 ''KEY_SCOPE_MISMATCH'' ''This API key is scoped to a different agent.'')))"

definition authenticateAgentKey :: "host \<Rightarrow> string option \<Rightarrow> string \<Rightarrow> (exec_db, string) session" where
  "authenticateAgentKey h authorization agent =
     liftS (bearerToken authorization) (\<lambda>token.
     query (\<lambda>d. (find (\<lambda>r. ky_hash r = sha256 (hs_web h) token) (xd_keys d), xd_now d)) (\<lambda>(row, now).
     liftS (assertCredentialScope row agent now) (\<lambda>_. Reply (Inr (case row of None \<Rightarrow> [] | Some r \<Rightarrow> ky_agent r)))))"

definition owned_by :: "exec_db \<Rightarrow> string \<Rightarrow> string \<Rightarrow> bool" where
  "owned_by d agent user \<longleftrightarrow> list_ex (\<lambda>a. same_uuid (ag_id a) agent \<and> same_uuid (ag_user a) user) (xd_agents d)"

definition listAgentKeys :: "string \<Rightarrow> string \<Rightarrow> (exec_db, key_row list) session" where
  "listAgentKeys user agent =
     owned_agent user agent
       (query (\<lambda>d. if owned_by d agent user
            then rev (sort_key (\<lambda>r. (ky_created r, ky_id r)) (filter (\<lambda>r. same_uuid (ky_agent r) agent) (xd_keys d))) else [])
         (\<lambda>rs. Reply (Inr rs)))"

definition active_keys :: "int \<Rightarrow> string \<Rightarrow> key_row list \<Rightarrow> nat" where
  "active_keys now agent rows =
     length (filter (\<lambda>r. same_uuid (ky_agent r) agent \<and> ky_revoked r = None \<and> now < ky_expires r) rows)"

definition insert_key ::
    "string \<Rightarrow> string \<Rightarrow> string \<Rightarrow> string \<Rightarrow> string \<Rightarrow> string \<Rightarrow> exec_db \<Rightarrow> ((bool \<times> key_row option) \<times> exec_db) res" where
  "insert_key i user agent name prefix digest d =
     (let r = \<lparr>ky_id = to_lower i, ky_agent = to_lower agent, ky_name = name, ky_prefix = prefix, ky_hash = digest,
            ky_created = xd_now d, ky_expires = xd_now d + 2592000000, ky_revoked = None\<rparr>
      in if \<not> owned_by d agent user then Inr ((False, None), d)
         else if 10 \<le> active_keys (xd_now d) agent (xd_keys d) then Inr ((True, None), d)
         else if list_ex (\<lambda>k. ky_id k = ky_id r \<or> ky_hash k = digest) (xd_keys d) then Inl violation
         else Inr ((True, Some r), d\<lparr>xd_keys := xd_keys d @ [r]\<rparr>))"

definition issueAgentKey ::
    "host \<Rightarrow> string \<Rightarrow> string \<Rightarrow> string \<Rightarrow> string \<Rightarrow> json \<Rightarrow> (exec_db, key_row \<times> string) session" where
  "issueAgentKey h fresh secret user agent body =
     liftS (parseKeyName body) (\<lambda>name.
     owned_agent user agent
     (let token = test_token secret
      in transact (insert_key fresh user agent name (take 15 token) (sha256 (hs_web h) token)) (\<lambda>(found, created).
         needS found (Platform 404 ''AGENT_NOT_FOUND'' ''Agent not found.'')
         (liftS (of_opt (Platform 409 ''KEY_LIMIT'' ''Each agent can have up to 10 active API keys. Revoke an existing key first.'')
            created) (\<lambda>r. Reply (Inr (r, token)))))))"

definition revoke_key :: "string \<Rightarrow> string \<Rightarrow> string \<Rightarrow> exec_db \<Rightarrow> (key_row list \<times> exec_db) res" where
  "revoke_key user agent i d =
     (let p = (\<lambda>r. same_uuid (ky_id r) i \<and> same_uuid (ky_agent r) agent \<and> owned_by d agent user);
          f = (\<lambda>r. r\<lparr>ky_revoked := Some (case ky_revoked r of None \<Rightarrow> xd_now d | Some t \<Rightarrow> t)\<rparr>)
      in Inr (updated_rows p f (xd_keys d), d\<lparr>xd_keys := update_where p f (xd_keys d)\<rparr>))"

definition revokeAgentKey :: "string \<Rightarrow> string \<Rightarrow> string \<Rightarrow> (exec_db, unit) session" where
  "revokeAgentKey user agent i =
     owned_agent user agent
     (liftS (assertUuid i) (\<lambda>_.
      transact (revoke_key user agent i) (\<lambda>rs.
      needS (rs \<noteq> []) (Platform 404 ''KEY_NOT_FOUND'' ''API key not found.'') (Reply (Inr ())))))"

end
