(* ===== verification/Marketplace.thy ===== *)
theory Marketplace
  imports Accounts
begin

text \<open>
  The verification market: \<open>src/src/lib/platform/marketplace.ts\<close> (listings, orders, delivery)
  with \<open>src/src/lib/market/\<close>: the report digest, the hosted metric verifier, the check of a
  transfer on Arc, and the request to a remote verifier. The chain client and the remote
  verifier's answer over its checked connection are fields of the database record, as they
  change; the revision history that a trigger writes is left out.
\<close>

section \<open>Reports\<close>

definition evidence_fields :: "string list" where
  "evidence_fields = [''repo'', ''description'', ''stars'', ''forks'', ''openIssues'', ''pushedAt'', ''language'',
     ''license'', ''sourceUrl'', ''fetchedAt'']"

definition pick :: "string list \<Rightarrow> json \<Rightarrow> json" where
  "pick ks e = JObj (concat (map (\<lambda>k. opt_entry k (\<lambda>v. v) (fld e k)) ks))"

definition reportDigest :: "web \<Rightarrow> report \<Rightarrow> string" where
  "reportDigest w r = sha256 w (stringify (JObj
     [(''title'', JStr (rp_title r)), (''summary'', JStr (rp_summary r)), (''recommendation'', JStr (rp_recommendation r)),
      (''evidence'', JArr (map (pick evidence_fields) (rp_evidence r))), (''generatedBy'', JStr (rp_generatedBy r)),
      (''createdAt'', JStr (rp_created r))]))"

definition p_market_report :: "json \<Rightarrow> report option" where
  "p_market_report v =
     (if strict [''title'', ''summary'', ''recommendation'', ''generatedBy'', ''createdAt'', ''checks'', ''verified'', ''evidence''] v
      then check (\<lambda>r. length (rp_checks r) \<le> 50 \<and> rp_evidence r \<noteq> [] \<and>
          list_all (\<lambda>e. is_run_scope (case fstr e ''repo'' of None \<Rightarrow> [] | Some s \<Rightarrow> s)) (rp_evidence r) \<and>
          list_all (strict evidence_fields) (case fld v ''evidence'' of Some (JArr es) \<Rightarrow> es | _ \<Rightarrow> []))
        (p_result_report v)
      else None)"

section \<open>The hosted metric verifier\<close>

text \<open>A line \<open>owner/repo | stars=1 | forks=2 | openIssues=3\<close>.\<close>

definition labelled :: "string \<Rightarrow> string \<Rightarrow> string option" where
  "labelled l s = (if take (length l) s = l then check (\<lambda>n. n \<noteq> [] \<and> list_all is_digit n) (Some (drop (length l) s)) else None)"

definition spaced :: "string \<Rightarrow> string option" where
  "spaced s = (if s \<noteq> [] \<and> last s = CHR '' '' then Some (butlast s) else None)"

definition metric_claim :: "string \<Rightarrow> (string \<times> string \<times> string \<times> string) option" where
  "metric_claim l = (case split_on (CHR ''|'') l of
     [a, b, c, d] \<Rightarrow>
       Option.bind (check is_run_scope (spaced a)) (\<lambda>repo.
       Option.bind (Option.bind (spaced b) (labelled '' stars='')) (\<lambda>s.
       Option.bind (Option.bind (spaced c) (labelled '' forks='')) (\<lambda>f.
       Option.bind (labelled '' openIssues='' d) (\<lambda>i. Some (repo, s, f, i)))))
   | _ \<Rightarrow> None)"

definition drop_return :: "string \<Rightarrow> string" where
  "drop_return s = (if s \<noteq> [] \<and> last s = CHR 0x0D then butlast s else s)"

definition lines_of :: "string \<Rightarrow> string list" where
  "lines_of s = (let ls = split_on (CHR 0x0A) s in map drop_return (butlast ls) @ [last ls])"

text \<open>\<open>[^\n]{0,40}\<close> and then \<open>P\<close>.\<close>

definition within_reach :: "(string \<Rightarrow> bool) \<Rightarrow> string \<Rightarrow> bool" where
  "within_reach P s = list_ex (\<lambda>k. k \<le> length s \<and> list_all (\<lambda>c. c \<noteq> CHR 0x0A) (take k s) \<and> P (drop k s)) [0..<41]"

definition metric_words :: "string list" where
  "metric_words = [''star'', ''stars'', ''fork'', ''forks'', ''issue'', ''issues'']"

definition numeric_claim :: "string \<Rightarrow> bool" where
  "numeric_claim t =
     (let s = to_lower t; word = (\<lambda>r. list_ex (\<lambda>w. take (length w) r = w) metric_words);
          digit = (\<lambda>r. r \<noteq> [] \<and> is_digit (hd r))
      in list_ex (\<lambda>i. (is_digit (s ! i) \<and> within_reach word (drop (Suc i) s)) \<or>
           list_ex (\<lambda>w. take (length w) (drop i s) = w \<and> within_reach digit (drop (i + length w) s)) metric_words)
         [0..<length s])"

definition metric_row_ok :: "web \<Rightarrow> (string \<times> string \<times> string \<times> string) list \<Rightarrow> json \<Rightarrow> bool" where
  "metric_row_ok w claims e =
     (case filter (\<lambda>c. Some (JStr (fst c)) = fld e ''repo'') claims of
        [(_, s, f, i)] \<Rightarrow> fld e ''stars'' = Some (JNum (text_number w s)) \<and>
          fld e ''forks'' = Some (JNum (text_number w f)) \<and> fld e ''openIssues'' = Some (JNum (text_number w i))
      | _ \<Rightarrow> False)"

definition fresh_evidence :: "web \<Rightarrow> int option \<Rightarrow> json \<Rightarrow> bool" where
  "fresh_evidence w now e =
     (fstr e ''sourceUrl'' = Some (''https://api.github.com/repos/'' @ interpolated (fld e ''repo'')) \<and>
      (case (parse_date_of w (fld e ''fetchedAt''), now) of
         (Some t, Some n) \<Rightarrow> t \<le> n + 60000 \<and> n - 3600000 \<le> t
       | _ \<Rightarrow> False))"

definition verifyMetricReport :: "web \<Rightarrow> int option \<Rightarrow> report \<Rightarrow> json list" where
  "verifyMetricReport w now r =
     (let ls = lines_of (rp_summary r); claims = List.map_filter (\<lambda>l. metric_claim (trim l)) ls; es = rp_evidence r;
          other = join [CHR 0x0A] ([rp_title r, rp_recommendation r] @ filter (\<lambda>l. metric_claim (trim l) = None) ls)
      in map (\<lambda>e. check_json (''Metrics: '' @ interpolated (fld e ''repo'')) (metric_row_ok w claims e)
           ''Exactly one stars, forks and openIssues row must match the submitted evidence.'') es @
         [check_json ''Evidence integrity and freshness''
            (distinct (map (\<lambda>e. fld e ''repo'') es) \<and> es \<noteq> [] \<and> list_all (fresh_evidence w now) es)
            ''Unique GitHub evidence must be at most one hour old; its provenance is checked separately by paid delivery.'',
          check_json ''Claim scope''
            (length claims = length es \<and> list_all (\<lambda>c. list_ex (\<lambda>e. Some (JStr (fst c)) = fld e ''repo'') es) claims \<and>
             \<not> numeric_claim other)
            ''Only canonical metric rows are certified against evidence. Free-text judgments are not certified; extra numeric metric claims are rejected.''])"

section \<open>Transfers on Arc\<close>

definition arc_usdc :: string where
  "arc_usdc = ''0x3600000000000000000000000000000000000000''"

definition unconfirmed :: js_error where
  "unconfirmed = Platform 409 ''PAYMENT_UNCONFIRMED'' ''Canonical Arc testnet USDC transfer does not match this order and its payment window.''"

definition assertMarketTransfer :: "chain_answer \<Rightarrow> market_order \<Rightarrow> unit res" where
  "assertMarketTransfer p q = need
     (ca_chainId p = 5042002 \<and> ca_status p = ''success'' \<and> mo_created q div 1000 \<le> ca_timestamp p \<and>
      ca_timestamp p \<le> mo_expires q div 1000 \<and>
      list_ex (\<lambda>e. to_lower (te_address e) = arc_usdc \<and> to_lower (te_from e) = to_lower (mo_payer q) \<and>
        to_lower (te_to e) = to_lower (mo_recipient q) \<and> te_value e = mo_amount q) (ca_events p)) unconfirmed"

definition transfer_proof :: "string \<Rightarrow> market_order \<Rightarrow> chain_answer \<Rightarrow> json" where
  "transfer_proof tx q p = JObj
     [(''chainId'', nat_json (ca_chainId p)), (''transactionHash'', JStr tx), (''blockHash'', JStr (ca_blockHash p)),
      (''blockNumber'', JStr (int_dec (ca_blockNumber p))), (''timestamp'', JStr (int_dec (ca_timestamp p))),
      (''token'', JStr arc_usdc), (''payer'', JStr (mo_payer q)), (''recipient'', JStr (mo_recipient q)),
      (''amountAtomic'', nat_json (mo_amount q))]"

definition verifyMarketTransfer :: "string \<Rightarrow> market_order \<Rightarrow> (json \<Rightarrow> (exec_db, 'r) session) \<Rightarrow> (exec_db, 'r) session" where
  "verifyMarketTransfer tx q k =
     query (\<lambda>d. xd_chain d tx) (\<lambda>answer. liftS answer (\<lambda>p.
     liftS (assertMarketTransfer p q) (\<lambda>_. k (transfer_proof tx q p))))"

section \<open>Remote verifiers\<close>

definition is_ipv4 :: "string \<Rightarrow> bool" where
  "is_ipv4 s = (let ps = split_on (CHR ''.'') s in length ps = 4 \<and>
     list_all (\<lambda>p. p \<noteq> [] \<and> list_all is_digit p \<and> (p = ''0'' \<or> hd p \<noteq> CHR ''0'') \<and> dec_val p \<le> 255) ps)"

definition is_host_label :: "string \<Rightarrow> bool" where
  "is_host_label p \<longleftrightarrow> p \<noteq> [] \<and> length p \<le> 63 \<and> is_alnum (hd p) \<and> is_alnum (last p) \<and> list_all is_owner_char p"

definition reserved_names :: "string list" where
  "reserved_names = [''localhost'', ''local'', ''internal'', ''invalid'', ''test'', ''example'', ''home'', ''lan'', ''onion'']"

text \<open>The port of an \<open>https:\<close> URL is empty exactly if its origin ends with the host name. An IPv6
  host name has no host label.\<close>

definition validateRemoteVerifierUrl :: "ext \<Rightarrow> string \<Rightarrow> url res" where
  "validateRemoteVerifierUrl x v =
     bindR (of_opt (Platform 400 ''INVALID_VERIFIER_URL'' ''Enter a public HTTPS verifier URL.'') (new_URL x v)) (\<lambda>u.
     let host = to_lower (hostname u); labels = split_on (CHR ''.'') host
     in bindR (need (trim v = v \<and> protocol u = ''https:'' \<and> username u = [] \<and> password u = [] \<and>
          CHR ''?'' \<notin> set v \<and> CHR ''#'' \<notin> set v \<and> origin u = ''https://'' @ hostname u \<and> \<not> is_ipv4 host \<and>
          length host \<le> 253 \<and> 2 \<le> length labels \<and> list_all is_host_label labels \<and> last labels \<notin> set reserved_names)
        (Platform 400 ''INVALID_VERIFIER_URL'' ''Verifier URLs must use a public DNS hostname over HTTPS on port 443, without credentials, query parameters or fragments.''))
        (\<lambda>_. Inr u))"

record paid_order =
  po_id :: string
  po_service :: string
  po_revision :: int
  po_recipient :: string
  po_amount :: int
  po_tx :: string
  po_digest :: string
  po_receiptUrl :: string

definition paid_order_ok :: "ext \<Rightarrow> paid_order \<Rightarrow> bool" where
  "paid_order_ok x o1 \<longleftrightarrow> is_uuid (po_id o1) \<and> is_uuid (po_service o1) \<and> 0 < po_revision o1 \<and>
     hex_n 40 (po_recipient o1) \<and> 1000 \<le> po_amount o1 \<and> po_amount o1 \<le> 1000000 \<and> hex_n 64 (po_tx o1) \<and>
     length (po_digest o1) = 64 \<and> list_all is_hex (po_digest o1) \<and>
     (case Option.bind (z_url x (po_receiptUrl o1)) (new_URL x) of None \<Rightarrow> False | Some u \<Rightarrow> protocol u = ''https:'')"

definition paid_order_json :: "ext \<Rightarrow> paid_order \<Rightarrow> json" where
  "paid_order_json x o1 = JObj
     [(''id'', JStr (po_id o1)), (''serviceId'', JStr (po_service o1)), (''revision'', nat_json (po_revision o1)),
      (''recipient'', JStr (po_recipient o1)), (''amountAtomic'', nat_json (po_amount o1)),
      (''transactionHash'', JStr (po_tx o1)), (''reportDigest'', JStr (po_digest o1)),
      (''receiptUrl'', JStr (case z_url x (po_receiptUrl o1) of None \<Rightarrow> [] | Some u \<Rightarrow> u))]"

definition p_response_check :: "json \<Rightarrow> json option" where
  "p_response_check v =
     (if \<not> strict [''label'', ''passed'', ''detail''] v then None
      else Option.bind (check (\<lambda>l. 1 \<le> length l \<and> length l \<le> 200) (map_option trim (fstr v ''label''))) (\<lambda>l.
           Option.bind (fbool v ''passed'') (\<lambda>p. Option.bind (field v ''detail'' (p_max 1000)) (\<lambda>d.
             Some (check_json l p d)))))"

definition p_response :: "json \<Rightarrow> json list option" where
  "p_response v = (if strict [''checks''] v then check (\<lambda>cs. cs \<noteq> []) (field v ''checks'' (p_list 50 p_response_check)) else None)"

definition requestRemoteVerification ::
    "ext \<Rightarrow> string \<Rightarrow> report \<Rightarrow> paid_order \<Rightarrow> string \<Rightarrow> (exec_db, json list) session" where
  "requestRemoteVerification x endpoint r o1 key =
     liftS (validateRemoteVerifierUrl x endpoint) (\<lambda>u.
     needS (paid_order_ok x o1) Zod
     (liftS (of_opt Zod (p_market_report (report_json r))) (\<lambda>r'.
      needS (is_run_key key) Zod
      (query (\<lambda>d. xd_remote d (href u) key (JObj [(''protocol'', JStr ''obolos.verifier.v1''),
          (''order'', paid_order_json x o1), (''report'', report_json r')])) (\<lambda>answer.
       liftS answer (\<lambda>v. liftS (of_opt (Platform 502 ''VERIFIER_INVALID_RESPONSE'' ''The verifier returned invalid checks.'')
         (p_response v)) (\<lambda>cs. Reply (Inr cs))))))))"

section \<open>Listings\<close>

record market_service =
  mv_id :: string
  mv_revision :: int
  mv_name :: string
  mv_description :: string
  mv_recipient :: string
  mv_price :: int
  mv_endpoint :: string
  mv_active :: bool
  mv_external :: bool
  mv_provider :: "string option"
  mv_created :: string
  mv_agent :: "(string \<times> string) option"

definition service_endpoint :: "string \<Rightarrow> string \<Rightarrow> string" where
  "service_endpoint og i = og @ ''/api/market/services/'' @ i"

definition market_view :: "host \<Rightarrow> listing_row \<Rightarrow> market_service res" where
  "market_view h r =
     bindR (hs_origin h) (\<lambda>og. bindR (to_iso (whole_second (ls_created r))) (\<lambda>c.
       Inr \<lparr>mv_id = ls_id r, mv_revision = ls_revision r, mv_name = ls_name r, mv_description = ls_description r,
         mv_recipient = ls_recipient r, mv_price = ls_price r, mv_endpoint = service_endpoint og (ls_id r),
         mv_active = ls_active r, mv_external = ls_external r, mv_provider = ls_provider r, mv_created = c,
         mv_agent = ls_agent r\<rparr>))"

definition listMarketServices :: "host \<Rightarrow> string option \<Rightarrow> (exec_db, market_service list) session" where
  "listMarketServices h user =
     query (\<lambda>d. take 100 (rev (sort_key ls_created (filter (\<lambda>r. case user of
         Some (c # cs) \<Rightarrow> same_uuid (ls_user r) (c # cs) | _ \<Rightarrow> ls_active r) (xd_listings d)))))
       (\<lambda>rs. liftS (mapR (market_view h) rs) (\<lambda>vs. Reply (Inr vs)))"

definition getVerificationService :: "host \<Rightarrow> string \<Rightarrow> (exec_db, verification_service) session" where
  "getVerificationService h i =
     needS (is_uuid i) Zod
     (query (\<lambda>d. find (\<lambda>r. same_uuid (ls_id r) i \<and> ls_active r) (xd_listings d)) (\<lambda>row.
      liftS (of_opt (Platform 404 ''SERVICE_NOT_FOUND'' ''This verification service is unavailable.'') row) (\<lambda>r.
      liftS (market_view h r) (\<lambda>s.
        Reply (Inr \<lparr>vs_id = mv_id s, vs_revision = mv_revision s, vs_name = mv_name s, vs_recipient = mv_recipient s,
          vs_price = mv_price s, vs_endpoint = mv_endpoint s,
          vs_provider = (if mv_external s then mv_provider s else None)\<rparr>)))))"

record listing_input =
  li_name :: string
  li_description :: string
  li_price :: int
  li_agent :: "string option"
  li_external :: bool
  li_provider :: "string option"

definition p_listing_name :: "json \<Rightarrow> string option" where
  "p_listing_name v = check (\<lambda>s. 1 \<le> length s \<and> length s \<le> 80) (map_option trim (as_str v))"

definition p_listing_text :: "json \<Rightarrow> string option" where
  "p_listing_text v = check (\<lambda>s. length s \<le> 1000) (map_option trim (as_str v))"

abbreviation p_listing_price :: "json \<Rightarrow> int option" where
  "p_listing_price \<equiv> p_bounded 1000 1000000"

definition execution_str :: "bool \<Rightarrow> string" where
  "execution_str b = (if b then ''external-repo-verifier'' else ''hosted-metric-verifier'')"

definition p_listing :: "json \<Rightarrow> listing_input option" where
  "p_listing v =
     (if \<not> strict [''name'', ''description'', ''priceAtomic'', ''agentId'', ''execution'', ''providerEndpoint''] v then None
      else Option.bind (field v ''name'' p_listing_name) (\<lambda>n. Option.bind (field v ''description'' p_listing_text) (\<lambda>t.
           Option.bind (field v ''priceAtomic'' p_listing_price) (\<lambda>p.
           Option.bind (fopt v ''agentId'' (\<lambda>a. check is_uuid (as_str a))) (\<lambda>a.
           Option.bind (fopt v ''execution'' (p_enum execution_str [False, True])) (\<lambda>e.
           Option.bind (fopt v ''providerEndpoint'' (p_max 2048)) (\<lambda>u.
             check (\<lambda>i. li_external i = (li_provider i \<notin> {None, Some []}))
               (Some \<lparr>li_name = n, li_description = t, li_price = p, li_agent = a, li_external = (e = Some True),
                  li_provider = u\<rparr>))))))))"

text \<open>The endpoint of an external verifier, checked and in its normal form.\<close>

definition provider_href :: "ext \<Rightarrow> string option \<Rightarrow> string option res" where
  "provider_href x u = (case u of
     Some (c # cs) \<Rightarrow> bindR (validateRemoteVerifierUrl x (c # cs)) (\<lambda>l. Inr (Some (href l))) | _ \<Rightarrow> Inr None)"

definition listing_checks :: "listing_row \<Rightarrow> bool" where
  "listing_checks r \<longleftrightarrow> ls_external r = (ls_provider r \<noteq> None) \<and>
     (case ls_provider r of None \<Rightarrow> True | Some u \<Rightarrow> take 8 u = ''https://'' \<and> length u \<le> 2048)"

definition insert_listing ::
    "string \<Rightarrow> string \<Rightarrow> string \<Rightarrow> listing_input \<Rightarrow> string option \<Rightarrow> exec_db \<Rightarrow> (listing_row option \<times> exec_db) res" where
  "insert_listing i user address v provider d =
     (let seller = Option.bind (li_agent v) (\<lambda>a. find (\<lambda>r. same_uuid (ag_id r) a \<and> same_uuid (ag_user r) user) (xd_agents d));
          r = \<lparr>ls_id = to_lower i, ls_user = to_lower user, ls_name = li_name v, ls_description = li_description v,
               ls_recipient = to_lower address, ls_price = li_price v, ls_revision = 1, ls_active = True,
               ls_agent = map_option (\<lambda>a. (ag_id a, ag_name a)) seller, ls_external = li_external v,
               ls_provider = provider, ls_created = xd_now d\<rparr>
      in if li_agent v \<noteq> None \<and> seller = None then Inr (None, d)
         else if \<not> listing_checks r \<or> list_ex (\<lambda>q. ls_id q = ls_id r) (xd_listings d) then Inl violation
         else Inr (Some r, d\<lparr>xd_listings := xd_listings d @ [r]\<rparr>))"

definition createMarketService :: "host \<Rightarrow> string \<Rightarrow> string \<Rightarrow> string \<Rightarrow> json \<Rightarrow> (exec_db, market_service) session" where
  "createMarketService h fresh user address body =
     liftS (of_opt Zod (p_listing body)) (\<lambda>v.
     liftS (provider_href (hs_ext h) (li_provider v)) (\<lambda>provider.
     transact (insert_listing fresh user address v provider) (\<lambda>created.
     liftS (of_opt (Platform 404 ''AGENT_NOT_FOUND'' ''Agent not found.'') created) (\<lambda>r.
     liftS (market_view h r) (\<lambda>s. Reply (Inr s))))))"

record listing_edit =
  le_name :: "string option"
  le_description :: "string option"
  le_price :: "int option"
  le_active :: "bool option"
  le_provider :: "string option"

definition p_listing_edit :: "json \<Rightarrow> listing_edit option" where
  "p_listing_edit v =
     (if \<not> strict [''name'', ''description'', ''priceAtomic'', ''active'', ''providerEndpoint''] v \<or> entries v = [] then None
      else Option.bind (fopt v ''name'' p_listing_name) (\<lambda>n. Option.bind (fopt v ''description'' p_listing_text) (\<lambda>t.
           Option.bind (fopt v ''priceAtomic'' p_listing_price) (\<lambda>p. Option.bind (fopt v ''active'' as_bool) (\<lambda>a.
           Option.bind (fopt v ''providerEndpoint'' (\<lambda>u. check (\<lambda>s. s \<noteq> []) (p_max 2048 u))) (\<lambda>u.
             Some \<lparr>le_name = n, le_description = t, le_price = p, le_active = a, le_provider = u\<rparr>))))))"

definition edited :: "listing_edit \<Rightarrow> string option \<Rightarrow> listing_row \<Rightarrow> listing_row" where
  "edited v provider r = r\<lparr>ls_name := given (le_name v) (ls_name r),
     ls_description := given (le_description v) (ls_description r), ls_price := given (le_price v) (ls_price r),
     ls_active := given (le_active v) (ls_active r),
     ls_provider := (case provider of None \<Rightarrow> ls_provider r | Some u \<Rightarrow> Some u), ls_revision := ls_revision r + 1\<rparr>"

definition edit_listing ::
    "string \<Rightarrow> string \<Rightarrow> listing_edit \<Rightarrow> string option \<Rightarrow> exec_db \<Rightarrow> (listing_row list \<times> exec_db) res" where
  "edit_listing user i v provider d =
     (let p = (\<lambda>r. same_uuid (ls_id r) i \<and> same_uuid (ls_user r) user \<and> (provider = None \<or> ls_external r));
          rs = updated_rows p (edited v provider) (xd_listings d)
      in if list_all listing_checks rs
         then Inr (rs, d\<lparr>xd_listings := update_where p (edited v provider) (xd_listings d)\<rparr>) else Inl violation)"

definition updateMarketService :: "host \<Rightarrow> string \<Rightarrow> string \<Rightarrow> json \<Rightarrow> (exec_db, market_service) session" where
  "updateMarketService h user i body =
     needS (is_uuid i) Zod
     (liftS (of_opt Zod (p_listing_edit body)) (\<lambda>v.
      liftS (provider_href (hs_ext h) (le_provider v)) (\<lambda>provider.
      transact (edit_listing user i v provider) (\<lambda>rs.
      liftS (of_opt (Platform 404 ''SERVICE_NOT_FOUND'' ''Service not found or this execution type does not accept a provider endpoint.'')
        (first_of rs)) (\<lambda>r.
      liftS (market_view h r) (\<lambda>s. Reply (Inr s)))))))"

section \<open>Orders\<close>

definition paid_status :: "order_status \<Rightarrow> bool" where
  "paid_status s \<longleftrightarrow> s \<in> {OrderPaidFor, OrderFulfilled}"

definition hasPaymentProof :: "market_order \<Rightarrow> bool" where
  "hasPaymentProof q = (case (mo_hash q, mo_proof q) of
     (Some t, Some p) \<Rightarrow> t \<noteq> [] \<and> truthy (Some p) \<and> fld p ''transactionHash'' = Some (JStr t) \<and>
       fld p ''chainId'' = Some (nat_json 5042002) \<and> paid_status (mo_status q)
   | _ \<Rightarrow> False)"

record market_order_view =
  ov_id :: string
  ov_job :: string
  ov_service :: string
  ov_revision :: int
  ov_payer :: string
  ov_recipient :: string
  ov_amount :: int
  ov_digest :: string
  ov_created :: string
  ov_expires :: string
  ov_status :: order_status
  ov_paid :: "(string \<times> bool) option"
  ov_checks :: "json list option"
  ov_error :: "string option"

definition publicMarketOrder :: "market_order \<Rightarrow> market_order_view res" where
  "publicMarketOrder q =
     bindR (to_iso (whole_second (mo_created q))) (\<lambda>c. bindR (to_iso (whole_second (mo_expires q))) (\<lambda>e.
       Inr \<lparr>ov_id = mo_id q, ov_job = mo_job q, ov_service = mo_service q, ov_revision = mo_revision q,
         ov_payer = mo_payer q, ov_recipient = mo_recipient q, ov_amount = mo_amount q, ov_digest = mo_digest q,
         ov_created = c, ov_expires = e, ov_status = mo_status q,
         ov_paid = map_option (\<lambda>t. (t, hasPaymentProof q)) (mo_hash q), ov_checks = mo_checks q,
         ov_error = mo_error q\<rparr>))"

definition show_order :: "market_order \<Rightarrow> (exec_db, market_order_view) session" where
  "show_order q = liftS (publicMarketOrder q) (\<lambda>v. Reply (Inr v))"

definition marketEarnings :: "string \<Rightarrow> (exec_db, market_order_view list \<times> string) session" where
  "marketEarnings user =
     query (\<lambda>d. let sold = filter (\<lambda>q. paid_status (mo_status q) \<and>
              list_ex (\<lambda>s. ls_id s = mo_service q \<and> same_uuid (ls_user s) user) (xd_listings d)) (xd_orders d)
            in (take 100 (rev (sort_key mo_created sold)), int_dec (\<Sum>q \<leftarrow> sold. mo_amount q)))
       (\<lambda>(rs, total). liftS (mapR publicMarketOrder rs) (\<lambda>vs. Reply (Inr (vs, total))))"

datatype order_scope = ByRunner (sc_runner: string) (sc_agent: string) | ByUser string

definition live_runner :: "exec_db \<Rightarrow> string \<Rightarrow> bool" where
  "live_runner d i \<longleftrightarrow> list_ex (\<lambda>r. same_uuid (rn_id r) i \<and> rn_revoked r = None) (xd_runners d)"

definition job_of :: "exec_db \<Rightarrow> string \<Rightarrow> job_row option" where
  "job_of d i = find (\<lambda>j. same_uuid (jb_id j) i) (xd_jobs d)"

definition order_visible :: "exec_db \<Rightarrow> order_scope \<Rightarrow> market_order \<Rightarrow> bool" where
  "order_visible d sc q = (case job_of d (mo_job q) of None \<Rightarrow> False
     | Some j \<Rightarrow> (case sc of
         ByRunner r a \<Rightarrow> same_uuid (mo_runner q) r \<and> same_uuid (jb_agent j) a \<and> live_runner d r
       | ByUser u \<Rightarrow> owned_by d (jb_agent j) u))"

definition getMarketOrder :: "string \<Rightarrow> order_scope \<Rightarrow> (market_order \<Rightarrow> (exec_db, 'r) session) \<Rightarrow> (exec_db, 'r) session" where
  "getMarketOrder i sc k =
     needS (is_uuid i) Zod
     (query (\<lambda>d. find (\<lambda>q. same_uuid (mo_id q) i \<and> order_visible d sc q) (xd_orders d)) (\<lambda>row.
      liftS (of_opt (Platform 404 ''ORDER_NOT_FOUND'' ''Order not found.'') row) k))"

definition getPublicMarketReceipt :: "web \<Rightarrow> string \<Rightarrow> (exec_db, json) session" where
  "getPublicMarketReceipt w i =
     needS (is_uuid i) Zod
     (query (\<lambda>d. find (\<lambda>q. same_uuid (mo_id q) i \<and> paid_status (mo_status q)) (xd_orders d)) (\<lambda>row.
      liftS (of_opt (Platform 404 ''RECEIPT_NOT_FOUND'' ''A chain-confirmed payment receipt is not available for this order.'')
        (check hasPaymentProof row)) (\<lambda>q.
      let p = (case mo_proof q of None \<Rightarrow> JNull | Some p \<Rightarrow> p) in
      Reply (Inr (JObj
        [(''protocol'', JStr ''obolos.verifier.v1''), (''id'', JStr (mo_id q)), (''serviceId'', JStr (mo_service q)),
         (''revision'', nat_json (mo_revision q)), (''recipient'', JStr (mo_recipient q)),
         (''amountAtomic'', nat_json (mo_amount q)), (''transactionHash'', JStr (given (mo_hash q) [])),
         (''reportDigest'', JStr (mo_digest q)),
         (''status'', JStr (if mo_status q = OrderPaidFor then ''paid'' else ''fulfilled'')),
         (''chainConfirmed'', JBool True), (''chainId'', nat_json 5042002),
         (''token'', JStr (interpolated (fld p ''token''))), (''timestamp'', JStr (interpolated (fld p ''timestamp''))),
         (''proofDigest'', JStr (sha256 w (stringify p)))])))))"

record order_input =
  oi_job :: string
  oi_payer :: string
  oi_dataTx :: string
  oi_report :: report

definition p_order_input :: "json \<Rightarrow> order_input option" where
  "p_order_input v =
     (if \<not> strict [''jobId'', ''payer'', ''dataTransactionId'', ''report''] v then None
      else Option.bind (check is_uuid (fstr v ''jobId'')) (\<lambda>j. Option.bind (check (hex_n 40) (fstr v ''payer'')) (\<lambda>p.
           Option.bind (check is_transfer_id (fstr v ''dataTransactionId'')) (\<lambda>t.
           Option.bind (field v ''report'' p_market_report) (\<lambda>r.
             Some \<lparr>oi_job = j, oi_payer = p, oi_dataTx = t, oi_report = r\<rparr>)))))"

definition same_purchase :: "string \<Rightarrow> order_input \<Rightarrow> market_order \<Rightarrow> bool" where
  "same_purchase digest v q \<longleftrightarrow>
     mo_digest q = digest \<and> mo_payer q = to_lower (oi_payer v) \<and> mo_dataTx q = oi_dataTx v"

definition active_mandate :: "exec_db \<Rightarrow> mandate_row \<Rightarrow> bool" where
  "active_mandate d m \<longleftrightarrow> mr_approved m \<noteq> None \<and> mr_revoked m = None \<and> xd_now d < mr_expires m"

definition signed :: "mandate_row \<Rightarrow> signed_mandate" where
  "signed m = sign_fields (mr_fields m) (mr_message m) (given (mr_signature m) [])"

definition mandate_of :: "exec_db \<Rightarrow> job_row \<Rightarrow> mandate_row option" where
  "mandate_of d j = find (\<lambda>m. mr_id m = jb_mandate j) (xd_mandates d)"

text \<open>The running job of this runner with its active mandate and its owner's address.\<close>

definition assigned_job :: "string \<Rightarrow> string \<Rightarrow> string \<Rightarrow> exec_db \<Rightarrow> (job_row \<times> mandate_row \<times> string) option" where
  "assigned_job runner agent i d =
     Option.bind (find (\<lambda>j. same_uuid (jb_id j) i \<and> same_uuid (jb_agent j) agent \<and>
       (case jb_runner j of None \<Rightarrow> False | Some r \<Rightarrow> same_uuid r runner) \<and> jb_status j = JobRunning \<and> live_runner d runner)
       (xd_jobs d)) (\<lambda>j.
     Option.bind (check (active_mandate d) (mandate_of d j)) (\<lambda>m.
     Option.bind (find_agent d (jb_agent j)) (\<lambda>a.
     map_option (\<lambda>u. (j, m, snd u)) (find (\<lambda>u. same_uuid (fst u) (ag_user a)) (xd_users d)))))"

definition evidence_required :: js_error where
  "evidence_required = Platform 409 ''PAID_EVIDENCE_REQUIRED'' ''This report must match an existing settled evidence purchase within its signed scope.''"

text \<open>The one settled purchase of evidence the report names must be of this scope and report.\<close>

definition paid_evidence ::
    "web \<Rightarrow> signed_mandate \<Rightarrow> string list \<Rightarrow> report \<Rightarrow> payment_row list \<Rightarrow> payment_row res" where
  "paid_evidence w m repos r ps =
     (case ps of
        [p] \<Rightarrow> bindR (need (truthy (Some (sp_evidence p)) \<and> sp_provider p \<in> set (mf_providers m) \<and>
             stringify (sp_repos p) = stringify (repos_json repos)) evidence_required) (\<lambda>_.
           bindR (need (is_arr (sp_evidence p)) (Thrown ''TypeError'')) (\<lambda>_.
           bindR (need (reportDigest w (r\<lparr>rp_evidence := elems (sp_evidence p)\<rparr>) = reportDigest w r \<and>
             sp_amount p \<le> mf_data m \<and> sp_amount p \<le> mf_unitPrice m * int (length (rp_evidence r))) evidence_required) (\<lambda>_.
             Inr p)))
      | _ \<Rightarrow> Inl evidence_required)"

definition service_differs :: "verification_service \<Rightarrow> verification_service \<Rightarrow> bool" where
  "service_differs s v \<longleftrightarrow>
     (vs_id s, vs_revision s, vs_name s, vs_recipient s, vs_price s, vs_endpoint s) \<noteq>
       (vs_id v, vs_revision v, vs_name v, vs_recipient v, vs_price v, vs_endpoint v) \<or>
     (vs_provider s \<noteq> None \<and> vs_provider s \<noteq> vs_provider v)"

text \<open>The insert, from the job, its mandate and the listing as they are now; one order per job.\<close>

definition insert_order ::
    "string \<Rightarrow> string \<Rightarrow> order_input \<Rightarrow> string \<Rightarrow> verification_service \<Rightarrow> string \<Rightarrow> int \<Rightarrow> exec_db \<Rightarrow>
      (market_order option \<times> exec_db) res" where
  "insert_order i runner v digest selected source expires d =
     (let job = find (\<lambda>j. same_uuid (jb_id j) (oi_job v) \<and> (case jb_runner j of None \<Rightarrow> False | Some r \<Rightarrow> same_uuid r runner) \<and>
            jb_status j = JobRunning \<and> live_runner d runner \<and>
            (case mandate_of d j of None \<Rightarrow> False | Some m \<Rightarrow> mr_revoked m = None \<and> xd_now d < mr_expires m)) (xd_jobs d);
          listing = find (\<lambda>s. same_uuid (ls_id s) (vs_id selected) \<and> ls_active s \<and> ls_revision s = vs_revision selected)
            (xd_listings d)
      in case (job, listing) of
           (Some j, Some s) \<Rightarrow>
             let q = \<lparr>mo_id = to_lower i, mo_job = jb_id j, mo_service = ls_id s, mo_revision = ls_revision s,
                      mo_runner = to_lower runner, mo_payer = to_lower (oi_payer v), mo_recipient = ls_recipient s,
                      mo_amount = ls_price s, mo_dataTx = oi_dataTx v, mo_dataSource = source, mo_digest = digest,
                      mo_report = oi_report v, mo_snapshot = selected, mo_status = OrderQuoted, mo_hash = None,
                      mo_proof = None, mo_checks = None, mo_created = xd_now d, mo_expires = expires, mo_token = None,
                      mo_lease = None, mo_attempts = 0, mo_error = None\<rparr>
             in if expires \<le> xd_now d \<or> \<not> no_nul (report_json (oi_report v)) then Inl violation
                else if list_ex (\<lambda>o1. mo_job o1 = jb_id j) (xd_orders d) then Inr (None, d)
                else if list_ex (\<lambda>o1. mo_id o1 = mo_id q \<or> mo_dataTx o1 = oi_dataTx v \<or> mo_dataSource o1 = source) (xd_orders d)
                then Inl (Platform 409 ''EVIDENCE_REUSED'' ''This evidence purchase already belongs to another verification order.'')
                else Inr (Some q, d\<lparr>xd_orders := xd_orders d @ [q]\<rparr>)
         | _ \<Rightarrow> Inr (None, d))"

definition job_order :: "exec_db \<Rightarrow> string \<Rightarrow> string \<Rightarrow> market_order option" where
  "job_order d i runner = find (\<lambda>q. same_uuid (mo_job q) i \<and> same_uuid (mo_runner q) runner) (xd_orders d)"

definition new_order ::
    "host \<Rightarrow> string \<Rightarrow> string \<Rightarrow> order_input \<Rightarrow> string \<Rightarrow> job_row \<Rightarrow> signed_mandate \<Rightarrow> verification_service \<Rightarrow>
      (exec_db, market_order_view) session" where
  "new_order h fresh runner v digest j m selected =
     needS (vs_price selected \<le> mf_verification m \<and>
         map (\<lambda>e. fstr e ''repo'') (rp_evidence (oi_report v)) = map Some (jb_repos j))
       (Platform 400 ''INVALID_REPORT'' ''Report scope or service price exceeds the signed job.'')
     (query (\<lambda>d. (xd_clock d, filter (\<lambda>p. sp_settled p \<and> (sp_transaction p = oi_dataTx v \<or> sp_settlementTx p = Some (oi_dataTx v)))
         (xd_payments d))) (\<lambda>(now, ps).
      liftS (paid_evidence (hs_web h) m (jb_repos j) (oi_report v) ps) (\<lambda>paid.
      liftS (of_opt (Thrown ''RangeError'') (parse_date (hs_web h) (mf_expires m))) (\<lambda>limit.
      transact (insert_order fresh runner v digest selected (sp_transaction paid) (min (now + 900000) limit)) (\<lambda>inserted.
      case inserted of
        Some q \<Rightarrow> show_order q
      | None \<Rightarrow>
          query (\<lambda>d. job_order d (oi_job v) runner) (\<lambda>replay.
          liftS (of_opt (Platform 409 ''ORDER_CONFLICT'' ''The order or service changed.'') (check (same_purchase digest v) replay))
            show_order))))))"

definition createMarketOrder ::
    "host \<Rightarrow> string \<Rightarrow> string \<Rightarrow> string \<Rightarrow> json \<Rightarrow> (exec_db, market_order_view) session" where
  "createMarketOrder h fresh runner agent body =
     liftS (of_opt Zod (p_order_input body)) (\<lambda>v.
     let digest = reportDigest (hs_web h) (oi_report v)
     in query (\<lambda>d. job_order d (oi_job v) runner) (\<lambda>old.
        case old of
          Some q \<Rightarrow>
            getMarketOrder (mo_id q) (ByRunner runner agent) (\<lambda>_.
            needS (same_purchase digest v q)
              (Platform 409 ''ORDER_CONFLICT'' ''This job already has an order for a different report or payer.'') (show_order q))
        | None \<Rightarrow>
            query (assigned_job runner agent (oi_job v)) (\<lambda>found.
            liftS (of_opt (Platform 409 ''JOB_UNAVAILABLE'' ''An assigned running job with an active signed mandate is required.'')
              found) (\<lambda>(j, m, address).
            query xd_clock (\<lambda>now. liftS (hs_origin h) (\<lambda>og.
            liftS (if validateSignedMandate h (signed_json (signed m))
                  \<lparr>pin_owner = address, pin_agentId = agent, pin_origin = og, pin_now = now\<rparr>
                then of_opt (Platform 409 ''MANDATE_REQUIRED'' ''An active signed marketplace mandate is required.'')
                  (mf_service (mr_fields m))
                else Inl (Platform 409 ''MANDATE_REQUIRED'' ''An active signed marketplace mandate is required.'')) (\<lambda>wanted.
            bindS (getVerificationService h (vs_id wanted)) (\<lambda>r. liftS r (\<lambda>selected.
            needS (\<not> service_differs selected wanted)
              (Platform 409 ''SERVICE_CHANGED'' ''Service changed; sign a new mandate before buying.'')
            (new_order h fresh runner v digest j (signed m) selected))))))))))"

section \<open>Delivery\<close>

text \<open>\<open>new Date(v)\<close> of a number: \<open>None\<close> is the invalid date.\<close>

definition date_of_num :: "jsnum \<Rightarrow> int option" where
  "date_of_num n = (case n of
     Dec m e \<Rightarrow> check (\<lambda>t. \<bar>t\<bar> \<le> 8640000000000000)
       (Some (if 0 \<le> e then m * 10 ^ nat e else sgn m * (\<bar>m\<bar> div 10 ^ nat (- e))))
   | _ \<Rightarrow> None)"

definition delivery_failed :: string where
  "delivery_failed = ''Payment confirmed, but provider delivery did not complete. Retry confirmation with this order and transaction to request delivery again; do not pay again.''"

definition lease_order :: "order_scope \<Rightarrow> string \<Rightarrow> string \<Rightarrow> exec_db \<Rightarrow> (market_order option \<times> exec_db) res" where
  "lease_order sc token i d =
     (let may = (\<lambda>q. case sc of ByRunner r _ \<Rightarrow> live_runner d r
            | ByUser u \<Rightarrow> (case job_of d (mo_job q) of None \<Rightarrow> False | Some j \<Rightarrow> owned_by d (jb_agent j) u));
          p = (\<lambda>q. same_uuid (mo_id q) i \<and> mo_status q = OrderPaidFor \<and>
            (case mo_lease q of None \<Rightarrow> True | Some t \<Rightarrow> t < xd_now d) \<and> may q);
          f = (\<lambda>q. q\<lparr>mo_token := Some token, mo_lease := Some (xd_now d + 90000), mo_attempts := mo_attempts q + 1,
            mo_error := None\<rparr>)
      in Inr (first_of (updated_rows p f (xd_orders d)), d\<lparr>xd_orders := update_where p f (xd_orders d)\<rparr>))"

definition leased :: "string \<Rightarrow> string \<Rightarrow> market_order \<Rightarrow> bool" where
  "leased i token q \<longleftrightarrow> same_uuid (mo_id q) i \<and> mo_status q = OrderPaidFor \<and> mo_token q = Some token"

text \<open>The completing update; the reply of a failing one is caught.\<close>

definition complete_order :: "string \<Rightarrow> string \<Rightarrow> json list \<Rightarrow> exec_db \<Rightarrow> (market_order option res \<times> exec_db) res" where
  "complete_order i token cs d =
     (let f = (\<lambda>q. q\<lparr>mo_checks := Some cs, mo_status := OrderFulfilled, mo_token := None, mo_lease := None, mo_error := None\<rparr>)
      in if \<not> list_all no_nul cs then Inr (Inl violation, d)
         else Inr (Inr (first_of (updated_rows (leased i token) f (xd_orders d))),
           d\<lparr>xd_orders := update_where (leased i token) f (xd_orders d)\<rparr>))"

definition record_failure :: "string \<Rightarrow> string \<Rightarrow> exec_db \<Rightarrow> (unit \<times> exec_db) res" where
  "record_failure i token d = Inr ((), d\<lparr>xd_orders := update_where (leased i token)
     (\<lambda>q. q\<lparr>mo_error := Some delivery_failed, mo_token := None, mo_lease := None\<rparr>) (xd_orders d)\<rparr>)"

definition verifier_answer :: "host \<Rightarrow> market_order \<Rightarrow> (exec_db, json list) session" where
  "verifier_answer h q =
     (case vs_provider (mo_snapshot q) of
        Some u \<Rightarrow>
          liftS (hs_origin h) (\<lambda>og.
          requestRemoteVerification (hs_ext h) u (mo_report q)
            \<lparr>po_id = mo_id q, po_service = mo_service q, po_revision = mo_revision q, po_recipient = mo_recipient q,
             po_amount = mo_amount q, po_tx = given (mo_hash q) ''null'', po_digest = mo_digest q,
             po_receiptUrl = og @ ''/api/market/orders/'' @ mo_id q @ ''/receipt''\<rparr>
            (''obolos-order:'' @ mo_id q))
      | None \<Rightarrow>
          liftS (of_opt (Thrown ''TypeError'') (check (\<lambda>p. p \<noteq> JNull) (mo_proof q))) (\<lambda>p.
          Reply (Inr (verifyMetricReport (hs_web h)
            (date_of_num (hs_millis h (js_Number (hs_web h) (fld p ''timestamp'')))) (mo_report q)))))"

definition deliverPaidMarketOrder ::
    "host \<Rightarrow> string \<Rightarrow> order_scope \<Rightarrow> market_order \<Rightarrow> (exec_db, market_order_view) session" where
  "deliverPaidMarketOrder h token sc row =
     (let again = (\<lambda>pending. getMarketOrder (mo_id row) sc (\<lambda>q.
            if mo_status q = OrderFulfilled \<and> mo_hash q = mo_hash row then show_order q
            else Reply (Inl (Platform 409 ''DELIVERY_PENDING'' pending))));
          failed = transact (record_failure (mo_id row) token) (\<lambda>_. Reply (Inl (Platform 502 ''DELIVERY_FAILED'' delivery_failed)))
      in transact (lease_order sc token (mo_id row)) (\<lambda>claimed.
         case claimed of
           None \<Rightarrow> again ''Payment is confirmed and delivery is already in progress. Retry confirmation for this same order and transaction; do not pay again.''
         | Some q \<Rightarrow>
             bindS (verifier_answer h q) (\<lambda>r. case r of
               Inl _ \<Rightarrow> failed
             | Inr cs \<Rightarrow>
                 transact (complete_order (mo_id row) token cs) (\<lambda>completed. case completed of
                   Inl _ \<Rightarrow> failed
                 | Inr (Some o1) \<Rightarrow> (case publicMarketOrder o1 of Inl _ \<Rightarrow> failed | Inr v \<Rightarrow> Reply (Inr v))
                 | Inr None \<Rightarrow> again ''Payment remains confirmed. Another delivery attempt owns this order; do not pay again.''))))"

definition pay_quoted :: "string \<Rightarrow> string \<Rightarrow> string \<Rightarrow> json \<Rightarrow> exec_db \<Rightarrow> (market_order option \<times> exec_db) res" where
  "pay_quoted runner i tx proof d =
     (let p = (\<lambda>q. same_uuid (mo_id q) i \<and> mo_status q = OrderQuoted \<and> live_runner d runner);
          f = (\<lambda>q. q\<lparr>mo_hash := Some tx, mo_proof := Some proof, mo_status := OrderPaidFor\<rparr>)
      in if list_ex p (xd_orders d) \<and> list_ex (\<lambda>q. mo_hash q = Some tx) (xd_orders d)
         then Inl (Platform 409 ''PAYMENT_REUSED'' ''This transaction already belongs to another order.'')
         else Inr (first_of (updated_rows p f (xd_orders d)), d\<lparr>xd_orders := update_where p f (xd_orders d)\<rparr>))"

definition p_transaction_hash :: "json \<Rightarrow> string option" where
  "p_transaction_hash v = (if strict [''transactionHash''] v
     then map_option to_lower (check (hex_n 64) (fstr v ''transactionHash'')) else None)"

definition paid_row ::
    "string \<Rightarrow> string \<Rightarrow> string \<Rightarrow> string \<Rightarrow> market_order \<Rightarrow> (market_order \<Rightarrow> (exec_db, 'r) session) \<Rightarrow> (exec_db, 'r) session" where
  "paid_row runner agent i tx row k =
     (if mo_status row \<noteq> OrderQuoted then k row
      else liftS (publicMarketOrder row) (\<lambda>_.
        verifyMarketTransfer tx row (\<lambda>proof.
        transact (pay_quoted runner i tx proof) (\<lambda>paid. case paid of
            Some q \<Rightarrow> k q
          | None \<Rightarrow> getMarketOrder i (ByRunner runner agent) k))))"

definition confirmMarketOrder ::
    "host \<Rightarrow> string \<Rightarrow> string \<Rightarrow> string \<Rightarrow> string \<Rightarrow> json \<Rightarrow> (exec_db, market_order_view) session" where
  "confirmMarketOrder h token runner agent i body =
     liftS (of_opt Zod (p_transaction_hash body)) (\<lambda>tx.
     getMarketOrder i (ByRunner runner agent) (\<lambda>row.
     needS (mo_hash row \<in> {None, Some tx})
       (Platform 409 ''ORDER_CONFLICT'' ''Order already paid by a different transaction.'')
     (if mo_status row = OrderFulfilled then show_order row
      else paid_row runner agent i tx row (\<lambda>q.
        needS (mo_hash q = Some tx) (Platform 409 ''ORDER_CONFLICT'' ''Order changed while confirming payment.'')
        (if mo_status q = OrderFulfilled then show_order q
         else deliverPaidMarketOrder h token (ByRunner runner agent) q)))))"

definition retryMarketDelivery :: "host \<Rightarrow> string \<Rightarrow> string \<Rightarrow> string \<Rightarrow> (exec_db, market_order_view) session" where
  "retryMarketDelivery h token user i =
     getMarketOrder i (ByUser user) (\<lambda>row.
     if mo_status row = OrderFulfilled then show_order row
     else needS (mo_status row = OrderPaidFor \<and> hasPaymentProof row)
       (Platform 409 ''PAID_ORDER_REQUIRED'' ''Only an already paid order can retry delivery. No payment was initiated.'')
       (deliverPaidMarketOrder h token (ByUser user) row))"

end
