(* ===== verification/RunnerJobs.thy ===== *)
theory RunnerJobs
  imports Marketplace
begin

text \<open>
  Isolated execution: \<open>src/src/lib/platform/execution.ts\<close> and \<open>settlement-proof.ts\<close>.
  An owner pairs one runner with an agent and signs a mandate; an API key queues runs within it;
  the runner claims a run, executes it elsewhere and uploads the result, whose payments are checked
  against the platform's own records and the chains before the job takes its final status.
\<close>

section \<open>Views\<close>

record job_view =
  jv_id :: string
  jv_agentId :: string
  jv_repos :: "string list"
  jv_status :: job_status
  jv_created :: int
  jv_updated :: int
  jv_mandateId :: string
  jv_runnerId :: "string option"
  jv_result :: "json option"
  jv_verification :: "string option"
  jv_proofs :: "json list option"

definition publicJob :: "job_row \<Rightarrow> job_view" where
  "publicJob r = \<lparr>jv_id = jb_id r, jv_agentId = jb_agent r, jv_repos = jb_repos r, jv_status = jb_status r,
     jv_created = jb_created r, jv_updated = jb_updated r, jv_mandateId = jb_mandate r, jv_runnerId = jb_runner r,
     jv_result = jb_result r, jv_verification = shown_verification r, jv_proofs = jb_proofs r\<rparr>"

record runner_view =
  rv_id :: string
  rv_agentId :: string
  rv_prefix :: string
  rv_created :: int
  rv_seen :: "int option"
  rv_revoked :: "int option"
  rv_online :: bool

definition publicRunner :: "int \<Rightarrow> paired_runner \<Rightarrow> runner_view" where
  "publicRunner now r = \<lparr>rv_id = rn_id r, rv_agentId = rn_agent r, rv_prefix = rn_prefix r, rv_created = rn_created r,
     rv_seen = rn_seen r, rv_revoked = rn_revoked r,
     rv_online = (rn_revoked r = None \<and> (case rn_seen r of None \<Rightarrow> False | Some t \<Rightarrow> now - 120000 < whole_second t))\<rparr>"

record mandate_view =
  wv_fields :: mandate_fields
  wv_message :: string
  wv_signature :: "string option"
  wv_approved :: "int option"
  wv_revoked :: "int option"
  wv_reserved :: int
  wv_created :: int

definition publicMandate :: "mandate_row \<Rightarrow> mandate_view" where
  "publicMandate m = \<lparr>wv_fields = mr_fields m, wv_message = mr_message m, wv_signature = mr_signature m,
     wv_approved = mr_approved m, wv_revoked = mr_revoked m, wv_reserved = mr_reserved m, wv_created = mr_created m\<rparr>"

section \<open>Runners\<close>

definition of_agent :: "string \<Rightarrow> paired_runner \<Rightarrow> bool" where
  "of_agent agent r \<longleftrightarrow> same_uuid (rn_agent r) agent"

definition getRunner :: "string \<Rightarrow> string \<Rightarrow> (exec_db, runner_view option) session" where
  "getRunner user agent =
     owned_agent user agent
       (query (\<lambda>d. (first_of (sort_key (\<lambda>r. - rn_created r) (filter (of_agent agent) (xd_runners d))), xd_clock d))
         (\<lambda>(r, now). Reply (Inr (map_option (publicRunner now) r))))"

definition revoke_runners :: "string \<Rightarrow> int \<Rightarrow> paired_runner list \<Rightarrow> paired_runner list" where
  "revoke_runners agent now = update_where (\<lambda>r. of_agent agent r \<and> rn_revoked r = None) (\<lambda>r. r\<lparr>rn_revoked := Some now\<rparr>)"

definition set_status :: "string \<Rightarrow> string \<Rightarrow> agent_row list \<Rightarrow> agent_row list" where
  "set_status agent st = update_where (\<lambda>a. same_uuid (ag_id a) agent) (\<lambda>a. a\<lparr>ag_status := st\<rparr>)"

text \<open>The new runner replaces the paired one; at most one runner of an agent is not revoked.\<close>

definition pair_tx :: "string \<Rightarrow> string \<Rightarrow> string \<Rightarrow> string \<Rightarrow> exec_db \<Rightarrow> (paired_runner \<times> exec_db) res" where
  "pair_tx i agent digest prefix d =
     (let rest = revoke_runners agent (xd_now d) (xd_runners d);
          r = \<lparr>rn_id = to_lower i, rn_agent = to_lower agent, rn_hash = digest, rn_prefix = prefix, rn_created = xd_now d,
               rn_seen = None, rn_revoked = None\<rparr>
      in if list_ex (\<lambda>q. rn_id q = rn_id r \<or> rn_hash q = digest \<or> (of_agent agent q \<and> rn_revoked q = None)) rest \<or>
            find_agent d agent = None
         then Inl violation else Inr (r, d\<lparr>xd_runners := rest @ [r]\<rparr>))"

definition pairRunner ::
    "host \<Rightarrow> string \<Rightarrow> string \<Rightarrow> string \<Rightarrow> string \<Rightarrow> (exec_db, runner_view \<times> string) session" where
  "pairRunner h fresh secret user agent =
     owned_agent user agent
       (let token = ''ob_runner_'' @ secret
        in transact (pair_tx fresh agent (sha256 (hs_web h) token) (take 18 token)) (\<lambda>r.
           query xd_clock (\<lambda>now. Reply (Inr (publicRunner now r, token)))))"

definition unpair_tx :: "string \<Rightarrow> exec_db \<Rightarrow> (unit \<times> exec_db) res" where
  "unpair_tx agent d = Inr ((), d\<lparr>xd_runners := revoke_runners agent (xd_now d) (xd_runners d),
     xd_agents := set_status agent ''setup_required'' (xd_agents d)\<rparr>)"

definition revokeRunner :: "string \<Rightarrow> string \<Rightarrow> (exec_db, unit) session" where
  "revokeRunner user agent = owned_agent user agent (transact (unpair_tx agent) (\<lambda>_. Reply (Inr ())))"

section \<open>Mandates\<close>

definition mandate_for :: "string \<Rightarrow> mandate_row \<Rightarrow> bool" where
  "mandate_for agent m \<longleftrightarrow> same_uuid (mr_agent m) agent"

definition getMandate :: "string \<Rightarrow> string \<Rightarrow> (exec_db, mandate_view option) session" where
  "getMandate user agent =
     owned_agent user agent
       (query (\<lambda>d. first_of (sort_key (\<lambda>m. (if mr_approved m = None then 1 :: int else 0, - mr_created m))
            (filter (\<lambda>m. mandate_for agent m \<and> mr_revoked m = None) (xd_mandates d))))
         (\<lambda>m. Reply (Inr (map_option publicMandate m))))"

record prepare_input =
  pi_repos :: "string list"
  pi_unitPrice :: int
  pi_maxRuns :: int
  pi_expires :: string
  pi_service :: "string option"

definition p_prepare :: "json \<Rightarrow> prepare_input option" where
  "p_prepare v =
     (if \<not> strict [''phase'', ''repos'', ''maxDataUnitPriceAtomic'', ''maxRuns'', ''expiresAt'', ''verificationServiceId''] v
      then None
      else Option.bind (field v ''phase'' (p_literal (JStr ''prepare''))) (\<lambda>_. Option.bind (field v ''repos'' p_scope) (\<lambda>rs.
           Option.bind (field v ''maxDataUnitPriceAtomic'' (p_bounded 1 100000000)) (\<lambda>u.
           Option.bind (field v ''maxRuns'' (p_bounded 1 10)) (\<lambda>n.
           Option.bind (field v ''expiresAt'' (p_datetime False)) (\<lambda>e.
           Option.bind (fopt v ''verificationServiceId'' (\<lambda>s. check is_uuid (as_str s))) (\<lambda>s.
             Some \<lparr>pi_repos = rs, pi_unitPrice = u, pi_maxRuns = n, pi_expires = e, pi_service = s\<rparr>)))))))"

definition expiry_ms :: "string \<Rightarrow> int" where
  "expiry_ms s = (case iso_datetime False s of None \<Rightarrow> 0 | Some t \<Rightarrow> t)"

definition insert_mandate :: "string \<Rightarrow> mandate_fields \<Rightarrow> exec_db \<Rightarrow> (unit \<times> exec_db) res" where
  "insert_mandate agent f d =
     (let rest = update_where (\<lambda>m. mandate_for agent m \<and> mr_approved m = None \<and> mr_revoked m = None)
            (\<lambda>m. m\<lparr>mr_revoked := Some (xd_now d)\<rparr>) (xd_mandates d);
          m = \<lparr>mr_id = to_lower (mf_id f), mr_agent = to_lower agent, mr_fields = f, mr_message = mandateMessage f,
               mr_signature = None, mr_maxRuns = mf_maxRuns f, mr_reserved = 0, mr_expires = expiry_ms (mf_expires f),
               mr_created = xd_now d, mr_approved = None, mr_revoked = None\<rparr>
      in if list_ex (\<lambda>q. mr_id q = mr_id m) rest \<or> find_agent d agent = None then Inl violation
         else Inr ((), d\<lparr>xd_mandates := rest @ [m]\<rparr>))"

definition selected_service :: "host \<Rightarrow> string option \<Rightarrow> (exec_db, verification_service option) session" where
  "selected_service h i = (case i of None \<Rightarrow> Reply (Inr None) | Some s \<Rightarrow> answer_with Some (getVerificationService h s))"

definition prepareMandate ::
    "host \<Rightarrow> string \<Rightarrow> string \<Rightarrow> string \<Rightarrow> string \<Rightarrow> json \<Rightarrow> (exec_db, mandate_fields \<times> string) session" where
  "prepareMandate h fresh user address agent body =
     owned_agent user agent
     (liftS (of_opt Zod (p_prepare body)) (\<lambda>v.
      query xd_clock (\<lambda>now.
      needS (now < expiry_ms (pi_expires v) \<and> expiry_ms (pi_expires v) \<le> now + 86400000)
        (Platform 400 ''INVALID_EXPIRY'' ''Mandates must expire within the next 24 hours.'')
      (query (\<lambda>d. find (\<lambda>a. same_uuid (ag_id a) agent \<and> same_uuid (ag_user a) user) (xd_agents d)) (\<lambda>found.
       needS (case found of None \<Rightarrow> True | Some a \<Rightarrow> ag_data a \<noteq> 0 \<and> ag_verification a \<noteq> 0)
         (Platform 400 ''INVALID_MANDATE'' ''Create an agent with positive HBAR and USDC budgets before authorizing execution.'')
       (liftS (of_opt (Platform 404 ''AGENT_NOT_FOUND'' ''Agent not found.'') found) (\<lambda>a.
        bindS (selected_service h (pi_service v)) (\<lambda>r. liftS r (\<lambda>service.
        needS (case service of None \<Rightarrow> True | Some s \<Rightarrow> vs_price s \<le> ag_verification a)
          (Platform 400 ''VERIFICATION_BUDGET'' ''The selected service exceeds this agent's USDC allowance.'')
        (liftS (hs_origin h) (\<lambda>og.
         let f = \<lparr>mf_id = fresh, mf_agentId = agent, mf_owner = address, mf_origin = og, mf_repos = pi_repos v,
                  mf_providers = [''repo-standard'', ''repo-economy''], mf_data = ag_data a,
                  mf_verification = ag_verification a, mf_unitPrice = pi_unitPrice v, mf_maxRuns = pi_maxRuns v,
                  mf_expires = pi_expires v, mf_service = service\<rparr>
         in transact (insert_mandate agent f) (\<lambda>_. Reply (Inr (f, mandateMessage f))))))))))))))"

definition p_approve :: "json \<Rightarrow> (string \<times> string) option" where
  "p_approve v =
     (if \<not> strict [''phase'', ''mandateId'', ''signature''] v then None
      else Option.bind (field v ''phase'' (p_literal (JStr ''approve''))) (\<lambda>_.
           Option.bind (check is_uuid (fstr v ''mandateId'')) (\<lambda>i.
           Option.bind (check (hex_n 130) (fstr v ''signature'')) (\<lambda>s. Some (i, s)))))"

definition unsigned_mandate :: "string \<Rightarrow> int \<Rightarrow> mandate_row \<Rightarrow> bool" where
  "unsigned_mandate i now m \<longleftrightarrow>
     same_uuid (mr_id m) i \<and> mr_signature m = None \<and> mr_revoked m = None \<and> now < mr_expires m"

text \<open>The approval revokes the mandate it replaces; one approved mandate of an agent is in force.\<close>

definition approve_tx :: "string \<Rightarrow> string \<Rightarrow> string \<Rightarrow> exec_db \<Rightarrow> (mandate_row option \<times> exec_db) res" where
  "approve_tx agent i signature d =
     (let replacing = list_ex (unsigned_mandate i (xd_now d)) (xd_mandates d);
          rest = update_where (\<lambda>m. mandate_for agent m \<and> mr_approved m \<noteq> None \<and> mr_revoked m = None \<and> replacing)
            (\<lambda>m. m\<lparr>mr_revoked := Some (xd_now d)\<rparr>) (xd_mandates d);
          p = (\<lambda>m. unsigned_mandate i (xd_now d) m \<and> mandate_for agent m);
          f = (\<lambda>m. m\<lparr>mr_signature := Some signature, mr_approved := Some (xd_now d)\<rparr>)
      in Inr (first_of (updated_rows p f rest), d\<lparr>xd_mandates := update_where p f rest\<rparr>))"

definition pending_mandate :: "string \<Rightarrow> string \<Rightarrow> mandate_row \<Rightarrow> bool" where
  "pending_mandate agent i m \<longleftrightarrow>
     same_uuid (mr_id m) i \<and> mandate_for agent m \<and> mr_approved m = None \<and> mr_revoked m = None"

definition approveMandate ::
    "host \<Rightarrow> string \<Rightarrow> string \<Rightarrow> string \<Rightarrow> json \<Rightarrow> (exec_db, mandate_view) session" where
  "approveMandate h user address agent body =
     (let bad = Platform 400 ''INVALID_MANDATE'' ''The mandate is expired, consumed or the wallet signature is invalid.''
      in owned_agent user agent
         (liftS (of_opt Zod (p_approve body)) (\<lambda>(i, signature).
          query (\<lambda>d. find (pending_mandate agent i) (xd_mandates d)) (\<lambda>row.
          liftS (of_opt bad row) (\<lambda>m.
          liftS (hs_origin h) (\<lambda>og.
          query xd_clock (\<lambda>now.
          needS (validateSignedMandate h (signed_json (sign_fields (mr_fields m) (mr_message m) signature))
              \<lparr>pin_owner = address, pin_agentId = agent, pin_origin = og, pin_now = now\<rparr>) bad
          (transact (approve_tx agent i signature) (\<lambda>approved.
           liftS (of_opt (Platform 409 ''MANDATE_CONSUMED'' ''This mandate is no longer available for approval.'') approved)
             (\<lambda>q. Reply (Inr (publicMandate q))))))))))))"

definition withdraw_tx :: "string \<Rightarrow> exec_db \<Rightarrow> (unit \<times> exec_db) res" where
  "withdraw_tx agent d = Inr ((), d\<lparr>
     xd_mandates := update_where (\<lambda>m. mandate_for agent m \<and> mr_revoked m = None) (\<lambda>m. m\<lparr>mr_revoked := Some (xd_now d)\<rparr>)
       (xd_mandates d),
     xd_jobs := update_where (\<lambda>j. same_uuid (jb_agent j) agent \<and> jb_status j = JobQueued)
       (\<lambda>j. j\<lparr>jb_status := JobBlocked, jb_updated := xd_now d\<rparr>) (xd_jobs d),
     xd_agents := set_status agent ''setup_required'' (xd_agents d)\<rparr>)"

definition revokeMandate :: "string \<Rightarrow> string \<Rightarrow> (exec_db, unit) session" where
  "revokeMandate user agent = owned_agent user agent (transact (withdraw_tx agent) (\<lambda>_. Reply (Inr ())))"

section \<open>Queueing\<close>

definition online_runner :: "string \<Rightarrow> exec_db \<Rightarrow> bool" where
  "online_runner agent d \<longleftrightarrow> list_ex (\<lambda>r. of_agent agent r \<and> rn_revoked r = None \<and>
     (case rn_seen r of None \<Rightarrow> False | Some t \<Rightarrow> xd_now d - 120000 < t)) (xd_runners d)"

text \<open>The service a mandate names is still listed with the terms it was signed for.\<close>

definition service_stands :: "exec_db \<Rightarrow> mandate_fields \<Rightarrow> bool" where
  "service_stands d f = (case mf_service f of None \<Rightarrow> True
     | Some v \<Rightarrow> list_ex (\<lambda>s. ls_id s = vs_id v \<and> ls_active s \<and> ls_revision s = vs_revision v \<and> ls_price s = vs_price v \<and>
         ls_recipient s = to_lower (vs_recipient v)) (xd_listings d))"

definition usable_mandate :: "string \<Rightarrow> string list \<Rightarrow> exec_db \<Rightarrow> mandate_row \<Rightarrow> bool" where
  "usable_mandate agent repos d m \<longleftrightarrow>
     mandate_for agent m \<and> active_mandate d m \<and> mr_reserved m < mr_maxRuns m \<and>
     set repos \<subseteq> set (mf_repos (mr_fields m)) \<and> service_stands d (mr_fields m) \<and> online_runner agent d"

definition agent_job :: "string \<Rightarrow> string \<Rightarrow> job_row \<Rightarrow> bool" where
  "agent_job agent key j \<longleftrightarrow> same_uuid (jb_agent j) agent \<and> jb_key j = key"

text \<open>A run takes one of the mandate's reservations when its job is inserted; a repeated key
  inserts nothing. At most one mandate is usable.\<close>

definition queue_tx :: "string \<Rightarrow> string \<Rightarrow> string list \<Rightarrow> string \<Rightarrow> exec_db \<Rightarrow> (job_row option \<times> exec_db) res" where
  "queue_tx i agent repos key d =
     (let found = find (agent_job agent key) (xd_jobs d)
      in case (found, find (usable_mandate agent repos d) (xd_mandates d)) of
           (None, Some m) \<Rightarrow>
             let j = \<lparr>jb_id = to_lower i, jb_agent = to_lower agent, jb_key = key, jb_status = JobQueued, jb_repos = repos,
                      jb_mandate = mr_id m, jb_runner = None, jb_claimed = None, jb_result = None, jb_verification = None,
                      jb_proofs = None, jb_created = xd_now d, jb_updated = xd_now d\<rparr>
             in if list_ex (\<lambda>q. jb_id q = jb_id j) (xd_jobs d) then Inl violation
                else Inr (Some j, d\<lparr>xd_jobs := xd_jobs d @ [j],
                  xd_mandates := update_where (\<lambda>q. mr_id q = mr_id m) (\<lambda>q. q\<lparr>mr_reserved := mr_reserved q + 1\<rparr>) (xd_mandates d)\<rparr>)
         | _ \<Rightarrow> Inr (found, d))"

definition queueRun :: "string \<Rightarrow> string \<Rightarrow> json \<Rightarrow> string option \<Rightarrow> (exec_db, job_view \<times> bool) session" where
  "queueRun fresh agent body key =
     liftS (validateRunInput body key) (\<lambda>(repos, k).
     transact (queue_tx fresh agent repos k) (\<lambda>job. case job of
       Some j \<Rightarrow>
         needS (jb_repos j = repos)
           (Platform 409 ''IDEMPOTENCY_CONFLICT'' ''This Idempotency-Key was already used with different repositories.'')
           (Reply (Inr (publicJob j, jb_id j \<noteq> fresh)))
     | None \<Rightarrow>
         query (online_runner agent) (\<lambda>online.
         needS online (Platform 409 ''RUNNER_REQUIRED'' ''Payment execution requires an isolated runner and verified payment authorization. Agent execution is not configured.'')
         (Reply (Inl (Platform 409 ''MANDATE_REQUIRED'' ''A current signed mandate with matching repositories, unchanged active service terms, and an available run allowance is required.''))))))"

end
