(* ===== verification/RunnerUploads.thy ===== *)
theory RunnerUploads
  imports RunnerJobs
begin

text \<open>
  The runner's side of \<open>src/src/lib/platform/execution.ts\<close>: authentication, the claim of the
  next job, the upload of a result, and the check before each payment; with
  \<open>settlement-proof.ts\<close>, which finds every paid receipt again in the platform's records and on
  the mirror node before a result is stored.
\<close>

section \<open>Settlement proofs\<close>

definition proof_required :: js_error where
  "proof_required = Platform 409 ''PAYMENT_PROOF_REQUIRED'' ''The payment or delivered report could not be independently matched. Preserve the job and reconcile its existing transaction.''"

text \<open>\<open>BigInt(v)\<close> of an amount the mirror node reports: integers, and what a text denotes.\<close>

definition based_int :: "nat \<Rightarrow> string \<Rightarrow> int option" where
  "based_int b ds = (if ds \<noteq> [] \<and> list_all (\<lambda>c. is_hex c \<and> hex_val c < b) ds
     then Some (int (foldl (\<lambda>v c. v * b + hex_val c) 0 ds)) else None)"

definition text_int :: "string \<Rightarrow> int option" where
  "text_int t =
     (if t = [] then Some 0
      else if to_lower (take 2 t) = ''0x'' then based_int 16 (drop 2 t)
      else if to_lower (take 2 t) = ''0o'' then based_int 8 (drop 2 t)
      else if to_lower (take 2 t) = ''0b'' then based_int 2 (drop 2 t)
      else if hd t = CHR ''-'' then map_option uminus (based_int 10 (tl t))
      else if hd t = CHR ''+'' then based_int 10 (tl t) else based_int 10 t)"

definition big_int :: "json option \<Rightarrow> int res" where
  "big_int v = (case v of
     Some (JNum n) \<Rightarrow> of_opt (Thrown ''RangeError'') (if is_integer n then Some (num_int n) else None)
   | Some (JBool b) \<Rightarrow> Inr (if b then 1 else 0)
   | Some (JStr s) \<Rightarrow> of_opt (Thrown ''SyntaxError'') (text_int (trim s))
   | _ \<Rightarrow> Inl (Thrown ''TypeError''))"

fun amount_received :: "string \<Rightarrow> json list \<Rightarrow> int res" where
  "amount_received who [] = Inr 0"
| "amount_received who (v # vs) =
     (if v = JNull then Inl (Thrown ''TypeError'')
      else if fld v ''account'' = Some (JStr who)
      then bindR (big_int (fld v ''amount'')) (\<lambda>a. bindR (amount_received who vs) (\<lambda>b. Inr (a + b)))
      else amount_received who vs)"

definition in_window :: "host \<Rightarrow> int \<Rightarrow> int option \<Rightarrow> json \<Rightarrow> bool" where
  "in_window h created expires t =
     (let ms = hs_millis h (js_Number (hs_web h) (fld t ''consensus_timestamp''))
      in num_le (num_of_int (created - 30000)) ms \<and>
         (case expires of None \<Rightarrow> False | Some e \<Rightarrow> num_le ms (num_of_int (e + 60000))))"

definition hedera_match :: "host \<Rightarrow> int \<Rightarrow> int \<Rightarrow> int option \<Rightarrow> json \<Rightarrow> bool res" where
  "hedera_match h amount created expires t =
     (if fstr t ''result'' = Some ''SUCCESS'' \<and> in_window h created expires t
      then (case fld t ''transfers'' of
          None \<Rightarrow> Inr False
        | Some JNull \<Rightarrow> Inr False
        | Some (JArr rows) \<Rightarrow> bindR (amount_received (hs_payTo h) rows) (\<lambda>s. Inr (s = amount))
        | Some _ \<Rightarrow> Inl (Thrown ''TypeError''))
      else Inr False)"

fun find_row :: "(json \<Rightarrow> bool res) \<Rightarrow> json list \<Rightarrow> json option res" where
  "find_row p [] = Inr None"
| "find_row p (v # vs) =
     (if v = JNull then Inl (Thrown ''TypeError'') else bindR (p v) (\<lambda>b. if b then Inr (Some v) else find_row p vs))"

definition assertHederaProof :: "host \<Rightarrow> json \<Rightarrow> int \<Rightarrow> int \<Rightarrow> int option \<Rightarrow> (string \<times> json) list res" where
  "assertHederaProof h body amount created expires =
     bindR (if body = JNull then Inl (Thrown ''TypeError'') else transactions_rows body) (\<lambda>ts.
     bindR (find_row (hedera_match h amount created expires) ts) (\<lambda>found.
     bindR (of_opt proof_required found) (\<lambda>t.
       Inr ([(''payTo'', JStr (hs_payTo h)), (''amountAtomic'', nat_json amount)] @
         opt_entry ''consensusTimestamp'' (\<lambda>v. v) (fld t ''consensus_timestamp'')))))"

text \<open>The two texts compared order their keys alike, so any fixed order will do.\<close>

definition same_value :: "json \<Rightarrow> json \<Rightarrow> bool" where
  "same_value a b \<longleftrightarrow> canonicalJson a = canonicalJson b"

definition data_payment :: "payment_receipt \<Rightarrow> runner_result \<Rightarrow> exec_db \<Rightarrow> unit res" where
  "data_payment p r d =
     (case filter (\<lambda>s. sp_settled s \<and> (sp_transaction s = receipt_tx p \<or> sp_settlementTx s = Some (receipt_tx p)))
         (xd_payments d) of
        [s] \<Rightarrow> need (sp_amount s = pr_amount p \<and> same_value (sp_repos s) (repos_json (run_repos r)) \<and>
          same_value (sp_evidence s) (JArr (run_evidence r))) proof_required
      | _ \<Rightarrow> Inl proof_required)"

definition hedera_proof ::
    "host \<Rightarrow> int \<Rightarrow> runner_result \<Rightarrow> signed_mandate \<Rightarrow> payment_receipt \<Rightarrow> (exec_db, json) session" where
  "hedera_proof h created r m p =
     query (data_payment p r) (\<lambda>checked. liftS checked (\<lambda>_.
     query (\<lambda>d. xd_mirror d (normalizeTransactionId (receipt_tx p))) (\<lambda>answer. liftS answer (\<lambda>(ok, body).
     needS ok proof_required
     (liftS (assertHederaProof h body (pr_amount p) (whole_second created) (parse_date (hs_web h) (mf_expires m))) (\<lambda>proof.
      Reply (Inr (JObj ([(''network'', JStr (pr_network p)), (''transactionId'', JStr (receipt_tx p))] @ proof)))))))))"

definition order_matches :: "web \<Rightarrow> runner_result \<Rightarrow> verification_service \<Rightarrow> payment_receipt \<Rightarrow> market_order \<Rightarrow> bool" where
  "order_matches w r v p q \<longleftrightarrow>
     (case run_report r of None \<Rightarrow> False
      | Some rep \<Rightarrow> Some (Some (mo_dataTx q)) = map_option pr_transaction (find (\<lambda>s. pr_network s = HEDERA_NETWORK) (run_receipts r)) \<and>
          Some (mo_id q) = pr_order p \<and>
          (case mo_hash q of None \<Rightarrow> ''null'' | Some t \<Rightarrow> to_lower t) = to_lower (receipt_tx p) \<and>
          mo_amount q = pr_amount p \<and> to_lower (mo_recipient q) = to_lower (vs_recipient v) \<and> mo_service q = vs_id v \<and>
          mo_revision q = vs_revision v \<and> mo_digest q = reportDigest w rep \<and> truthy (mo_proof q))"

definition arc_proof ::
    "host \<Rightarrow> string \<Rightarrow> runner_result \<Rightarrow> verification_service \<Rightarrow> payment_receipt \<Rightarrow> (exec_db, json) session" where
  "arc_proof h job r v p =
     query (\<lambda>d. find (\<lambda>q. same_uuid (mo_job q) job \<and> mo_status q = OrderFulfilled) (xd_orders d)) (\<lambda>found.
     liftS (of_opt proof_required (check (order_matches (hs_web h) r v p) found)) (\<lambda>q.
     liftS (of_opt proof_required (run_report r)) (\<lambda>rep.
     liftS (of_opt (Thrown ''TypeError'') (mo_checks q)) (\<lambda>cs.
     needS (same_value (JArr (checkReport (hs_web h) rep @ cs)) (JArr (rp_checks rep))) proof_required
     (Reply (Inr (JObj
       [(''network'', JStr (pr_network p)), (''transactionId'', JStr (receipt_tx p)), (''orderId'', JStr (mo_id q)),
        (''serviceId'', JStr (mo_service q)), (''recipient'', JStr (mo_recipient q)),
        (''amountAtomic'', nat_json (mo_amount q)), (''proof'', given (mo_proof q) JNull)])))))))"

primrec settlement_proofs ::
    "host \<Rightarrow> string \<Rightarrow> int \<Rightarrow> runner_result \<Rightarrow> signed_mandate \<Rightarrow> verification_service \<Rightarrow> payment_receipt list \<Rightarrow>
      (exec_db, json list) session" where
  "settlement_proofs h job created r m v [] = Reply (Inr [])"
| "settlement_proofs h job created r m v (p # ps) =
     bindS (if pr_network p = HEDERA_NETWORK then hedera_proof h created r m p else arc_proof h job r v p) (\<lambda>a. liftS a (\<lambda>q.
     answer_with (Cons q) (settlement_proofs h job created r m v ps)))"

definition verifyHostedSettlement ::
    "host \<Rightarrow> string \<Rightarrow> int \<Rightarrow> runner_result \<Rightarrow> signed_mandate \<Rightarrow> (exec_db, json list option) session" where
  "verifyHostedSettlement h job created r m =
     (case mf_service m of None \<Rightarrow> Reply (Inr None)
      | Some v \<Rightarrow> answer_with Some (settlement_proofs h job created r m v (run_receipts r)))"

section \<open>Runners at work\<close>

definition authenticateRunner :: "host \<Rightarrow> string option \<Rightarrow> (exec_db, string \<times> string) session" where
  "authenticateRunner h authorization =
     liftS (of_opt (Platform 401 ''INVALID_RUNNER'' ''A valid runner credential is required.'')
       (bearer_secret (\<lambda>s. s) ''ob_runner_'' authorization)) (\<lambda>token.
     query (\<lambda>d. find (\<lambda>r. rn_hash r = sha256 (hs_web h) token \<and> rn_revoked r = None) (xd_runners d)) (\<lambda>row.
     liftS (of_opt (Platform 401 ''INVALID_RUNNER'' ''Runner credential is invalid or revoked.'') row) (\<lambda>r.
       Reply (Inr (rn_id r, rn_agent r)))))"

definition working :: "string \<Rightarrow> string \<Rightarrow> paired_runner \<Rightarrow> bool" where
  "working runner agent r \<longleftrightarrow> same_uuid (rn_id r) runner \<and> of_agent agent r \<and> rn_revoked r = None"

definition stale_job :: "exec_db \<Rightarrow> string \<Rightarrow> job_row \<Rightarrow> bool" where
  "stale_job d agent j \<longleftrightarrow> same_uuid (jb_agent j) agent \<and> jb_status j = JobQueued \<and>
     (case mandate_of d j of None \<Rightarrow> False | Some m \<Rightarrow> mr_revoked m \<noteq> None \<or> mr_expires m \<le> xd_now d)"

definition next_job :: "exec_db \<Rightarrow> string \<Rightarrow> string \<Rightarrow> job_row list \<Rightarrow> job_row option" where
  "next_job d runner agent jobs =
     (if list_ex (working runner agent) (xd_runners d)
      then first_of (sort_key (\<lambda>j. (jb_created j, jb_id j)) (filter (\<lambda>j. same_uuid (jb_agent j) agent \<and>
          jb_status j = JobQueued \<and> (case mandate_of d j of None \<Rightarrow> False | Some m \<Rightarrow> active_mandate d m)) jobs))
      else None)"

definition claimed_by :: "string \<Rightarrow> int \<Rightarrow> job_row \<Rightarrow> job_row" where
  "claimed_by runner now j =
     j\<lparr>jb_status := JobRunning, jb_runner := Some (to_lower runner), jb_claimed := Some now, jb_updated := now\<rparr>"

text \<open>The transaction of a claim: the runner is seen, the stale jobs are blocked, the oldest job
  whose mandate is in force starts, and the mandates are read.\<close>

definition claim_tx ::
    "string \<Rightarrow> string \<Rightarrow> exec_db \<Rightarrow> ((bool \<times> job_row option \<times> mandate_row list) \<times> exec_db) res" where
  "claim_tx runner agent d =
     (let runners = update_where (working runner agent) (\<lambda>r. r\<lparr>rn_seen := Some (xd_now d)\<rparr>) (xd_runners d);
          jobs = update_where (stale_job d agent) (\<lambda>j. j\<lparr>jb_status := JobBlocked, jb_updated := xd_now d\<rparr>) (xd_jobs d);
          started = next_job d runner agent jobs
      in Inr ((list_ex (working runner agent) (xd_runners d), map_option (claimed_by runner (xd_now d)) started,
               filter (mandate_for agent) (xd_mandates d)),
           d\<lparr>xd_runners := runners,
             xd_jobs := (case started of None \<Rightarrow> jobs
               | Some s \<Rightarrow> update_where (\<lambda>j. jb_id j = jb_id s) (claimed_by runner (xd_now d)) jobs)\<rparr>))"

record claimed_job =
  cj_id :: string
  cj_agent :: string
  cj_repos :: "string list"
  cj_mandate :: signed_mandate

definition claimJob :: "string \<Rightarrow> string \<Rightarrow> (exec_db, claimed_job option) session" where
  "claimJob runner agent =
     transact (claim_tx runner agent) (\<lambda>(seen, job, mandates).
     needS seen (Platform 401 ''INVALID_RUNNER'' ''Runner credential was revoked.'')
     (case job of None \<Rightarrow> Reply (Inr None)
      | Some j \<Rightarrow>
          liftS (of_opt (Platform 409 ''MANDATE_REQUIRED'' ''The claimed job mandate is unavailable.'')
            (find (\<lambda>m. mr_id m = jb_mandate j) mandates)) (\<lambda>m.
          Reply (Inr (Some \<lparr>cj_id = jb_id j, cj_agent = jb_agent j, cj_repos = jb_repos j, cj_mandate = signed m\<rparr>)))))"

section \<open>Uploads\<close>

definition job_held :: "string \<Rightarrow> string \<Rightarrow> string \<Rightarrow> job_row \<Rightarrow> bool" where
  "job_held runner agent i j \<longleftrightarrow> same_uuid (jb_id j) i \<and> same_uuid (jb_agent j) agent \<and>
     (case jb_runner j of None \<Rightarrow> False | Some r \<Rightarrow> same_uuid r runner)"

definition accepts_result :: "string \<Rightarrow> string \<Rightarrow> string \<Rightarrow> exec_db \<Rightarrow> job_row \<Rightarrow> bool" where
  "accepts_result runner agent i d j \<longleftrightarrow> job_held runner agent i j \<and> jb_status j = JobRunning \<and>
     jb_result j = None \<and> list_ex (working runner agent) (xd_runners d)"

text \<open>The claims of a proven result: each transaction of a network belongs to one job for ever.\<close>

fun claim_receipts :: "string \<Rightarrow> payment_receipt list \<Rightarrow> chain_claim list \<Rightarrow> chain_claim list res" where
  "claim_receipts job [] cs = Inr cs"
| "claim_receipts job (p # ps) cs =
     (if list_ex (\<lambda>c. cr_network c = pr_network p \<and> cr_transaction c = receipt_tx p) cs
      then Inl (Platform 409 ''PAYMENT_REUSED'' ''A payment is already assigned to another result; all new claims were rolled back.'')
      else claim_receipts job ps (cs @ [\<lparr>cr_network = pr_network p, cr_transaction = receipt_tx p, cr_job = job\<rparr>]))"

definition save_tx ::
    "string \<Rightarrow> string \<Rightarrow> string \<Rightarrow> runner_result \<Rightarrow> json list option \<Rightarrow> exec_db \<Rightarrow> (job_row option \<times> exec_db) res" where
  "save_tx runner agent i r proofs d =
     (let value = runner_result_json r; held = accepts_result runner agent i d;
          claiming = (if proofs \<noteq> None \<and> list_ex held (xd_jobs d) then run_receipts r else [])
      in bindR (need (no_nul value) violation) (\<lambda>_.
         bindR (claim_receipts (to_lower i) claiming (xd_claims d)) (\<lambda>cs.
         let taken = list_ex (\<lambda>c. cr_transaction c \<in> receipt_tx ` set (run_receipts r) \<and> \<not> same_uuid (cr_job c) i) cs;
             jobs = update_where (\<lambda>j. held j \<and> \<not> taken)
               (\<lambda>j. j\<lparr>jb_verification := (case proofs of Some (_ # _) \<Rightarrow> Some ''chain-confirmed'' | _ \<Rightarrow> None), jb_proofs := proofs,
                   jb_result := Some value, jb_status := classifyRunnerStatus r proofs, jb_updated := xd_now d\<rparr>) (xd_jobs d)
         in Inr (find (job_held runner agent i) jobs, d\<lparr>xd_claims := cs, xd_jobs := jobs\<rparr>))))"

text \<open>A \<open>jsonb\<close> column prints its keys by length (\<open>repos\<close> comes before \<open>title\<close>), so the printed
  texts always differ and the comparison reads both results again.\<close>

definition same_result :: "ext \<Rightarrow> json \<Rightarrow> json \<Rightarrow> unit res" where
  "same_result x stored uploaded =
     bindR (of_opt Zod (p_result x stored)) (\<lambda>a. bindR (of_opt Zod (p_result x uploaded)) (\<lambda>b.
     need (stringify (runner_result_json a) = stringify (runner_result_json b))
       (Platform 409 ''RESULT_CONFLICT'' ''A different result is already recorded for this job.'')))"

definition run_not_found :: js_error where
  "run_not_found = Platform 404 ''RUN_NOT_FOUND'' ''Run not found.''"

definition held_job :: "string \<Rightarrow> string \<Rightarrow> string \<Rightarrow> exec_db \<Rightarrow> (job_row \<times> mandate_row) option" where
  "held_job runner agent i d = Option.bind (find (job_held runner agent i) (xd_jobs d)) (\<lambda>j.
     map_option (Pair j) (mandate_of d j))"

definition saveRunnerResult :: "host \<Rightarrow> string \<Rightarrow> string \<Rightarrow> string \<Rightarrow> json \<Rightarrow> (exec_db, job_view) session" where
  "saveRunnerResult h runner agent i body =
     needS (strict [''result''] body) Zod
     (needS (is_uuid i) run_not_found
     (query (held_job runner agent i) (\<lambda>found.
      liftS (of_opt run_not_found found) (\<lambda>(j, m).
      liftS (validateRunnerResult h (given (fld body ''result'') JNull)
        \<lparr>rj_id = i, rj_repos = jb_repos j, rj_mandate = signed m\<rparr>) (\<lambda>r.
      bindS (verifyHostedSettlement h i (jb_created j) r (signed m)) (\<lambda>answer. liftS answer (\<lambda>proofs.
      transact (save_tx runner agent i r proofs) (\<lambda>stored.
      liftS (of_opt (Platform 409 ''RESULT_CONFLICT'' ''The runner was revoked or the job no longer accepts a result.'')
        (Option.bind stored (\<lambda>q. map_option (Pair q) (jb_result q)))) (\<lambda>(q, kept).
      liftS (same_result (hs_ext h) kept (runner_result_json r)) (\<lambda>_.
        Reply (Inr (publicJob q))))))))))))"

definition authorized_job :: "string \<Rightarrow> string \<Rightarrow> string \<Rightarrow> exec_db \<Rightarrow> job_row \<Rightarrow> bool" where
  "authorized_job runner agent i d j \<longleftrightarrow> job_held runner agent i j \<and> jb_status j = JobRunning \<and>
     (case mandate_of d j of None \<Rightarrow> False
      | Some m \<Rightarrow> mr_agent m = jb_agent j \<and> active_mandate d m \<and> service_stands d (mr_fields m)) \<and>
     list_ex (\<lambda>r. Some (rn_id r) = jb_runner j \<and> rn_agent r = jb_agent j \<and> rn_revoked r = None) (xd_runners d)"

definition authorizeRunnerJob :: "string \<Rightarrow> string \<Rightarrow> string \<Rightarrow> (exec_db, unit) session" where
  "authorizeRunnerJob runner agent i =
     needS (is_uuid i) run_not_found
     (query (\<lambda>d. list_ex (authorized_job runner agent i d) (xd_jobs d)) (\<lambda>found.
      needS found (Platform 403 ''EXECUTION_NOT_AUTHORIZED'' ''This job is no longer authorized. Stop execution and reconcile any work already started.'')
      (Reply (Inr ()))))"

end
