(* ===== verification/Login.thy ===== *)
theory Login
  imports Accounts
begin

text \<open>
  Wallet sign-in: \<open>src/src/lib/platform/auth.ts\<close> and \<open>security.ts\<close>. A challenge is a
  message of the Sign-In with Ethereum form; its redemption, with a signature of the wallet, makes
  the session. \<open>siwe_ext\<close> holds the functions of \<open>viem\<close>; a throw is \<open>None\<close>.
  Fresh tokens and identifiers are arguments.
\<close>

section \<open>Challenges\<close>

record siwe =
  sw_address :: string
  sw_chainId :: int
  sw_domain :: string
  sw_uri :: string
  sw_nonce :: string
  sw_issued :: "int option"
  sw_expires :: "int option"
  sw_statement :: string

record siwe_ext =
  checksum_address :: "string \<Rightarrow> string option"
  create_siwe :: "siwe \<Rightarrow> string option"
  parse_siwe :: "string \<Rightarrow> siwe"
  validate_siwe :: "siwe \<Rightarrow> string \<Rightarrow> string \<Rightarrow> string \<Rightarrow> int \<Rightarrow> bool"
  url_host :: "url \<Rightarrow> string"

definition LOGIN_CHAIN_ID :: int where
  "LOGIN_CHAIN_ID = 5042002"

definition CHALLENGE_SECONDS :: int where
  "CHALLENGE_SECONDS = 300"

definition SESSION_SECONDS :: int where
  "SESSION_SECONDS = 7 * 86400"

definition login_statement :: string where
  "login_statement = ''Sign in to your Obolos testnet workspace. This does not authorize payments or grant spending permissions.''"

definition makeChallenge :: "host \<Rightarrow> siwe_ext \<Rightarrow> string \<Rightarrow> string \<Rightarrow> string \<Rightarrow> string \<Rightarrow> int \<Rightarrow> challenge_row res" where
  "makeChallenge h y digest nonce address og now =
     of_opt (Thrown ''Error'')
       (Option.bind (checksum_address y address) (\<lambda>wallet.
        Option.bind (new_URL (hs_ext h) og) (\<lambda>site.
        Option.bind (create_siwe y \<lparr>sw_address = wallet, sw_chainId = LOGIN_CHAIN_ID, sw_domain = url_host y site,
            sw_uri = origin site, sw_nonce = nonce, sw_issued = Some now,
            sw_expires = Some (now + CHALLENGE_SECONDS * 1000), sw_statement = login_statement\<rparr>) (\<lambda>m.
          Some \<lparr>ch_hash = digest, ch_address = to_lower wallet, ch_nonce = nonce, ch_message = m,
            ch_expires = now + CHALLENGE_SECONDS * 1000, ch_used = None\<rparr>))))"

definition verifyLoginSignature :: "host \<Rightarrow> siwe_ext \<Rightarrow> challenge_row \<Rightarrow> string \<Rightarrow> string \<Rightarrow> int \<Rightarrow> bool" where
  "verifyLoginSignature h y c signature og now =
     (let p = parse_siwe y (ch_message c)
      in case (new_URL (hs_ext h) og, checksum_address y (ch_address c)) of
           (Some site, Some wallet) \<Rightarrow>
             now < ch_expires c \<and> (case sw_issued p of None \<Rightarrow> False | Some t \<Rightarrow> t \<le> now) \<and> sw_uri p = origin site \<and>
             sw_chainId p = LOGIN_CHAIN_ID \<and> sw_expires p = Some (ch_expires c) \<and>
             validate_siwe y p wallet (url_host y site) (ch_nonce c) now \<and> hs_verifies h wallet (ch_message c) signature
         | _ \<Rightarrow> False)"

section \<open>Rate limits\<close>

definition hit :: "int \<Rightarrow> int \<Rightarrow> limit_row \<Rightarrow> limit_row" where
  "hit now seconds r = (if rl_reset r \<le> now then r\<lparr>rl_hits := 1, rl_reset := now + seconds * 1000\<rparr>
     else r\<lparr>rl_hits := rl_hits r + 1\<rparr>)"

definition drop_limits :: "exec_db \<Rightarrow> (unit \<times> exec_db) res" where
  "drop_limits d = Inr ((), d\<lparr>xd_limits := filter (\<lambda>r. xd_now d - 86400000 \<le> rl_reset r) (xd_limits d)\<rparr>)"

definition count_hit :: "string \<Rightarrow> int \<Rightarrow> exec_db \<Rightarrow> (int \<times> exec_db) res" where
  "count_hit bucket seconds d =
     (case find (\<lambda>r. rl_bucket r = bucket) (xd_limits d) of
        None \<Rightarrow> Inr (1, d\<lparr>xd_limits := xd_limits d @ [\<lparr>rl_bucket = bucket, rl_hits = 1, rl_reset = xd_now d + seconds * 1000\<rparr>]\<rparr>)
      | Some r \<Rightarrow> Inr (rl_hits (hit (xd_now d) seconds r),
          d\<lparr>xd_limits := update_where (\<lambda>q. rl_bucket q = bucket) (hit (xd_now d) seconds) (xd_limits d)\<rparr>))"

definition rateLimit :: "host \<Rightarrow> string \<Rightarrow> int \<Rightarrow> int \<Rightarrow> (exec_db, 'r) session \<Rightarrow> (exec_db, 'r) session" where
  "rateLimit h bucket maximum seconds k =
     transact drop_limits (\<lambda>_.
     transact (count_hit (sha256 (hs_web h) bucket) seconds) (\<lambda>hits.
     needS (hits \<le> maximum) (Platform 429 ''RATE_LIMITED'' ''Too many requests. Wait a minute and try again.'') k))"

section \<open>Sign-in\<close>

definition insert_challenge :: "challenge_row \<Rightarrow> exec_db \<Rightarrow> (unit \<times> exec_db) res" where
  "insert_challenge c d =
     (let rest = filter (\<lambda>r. xd_now d - 86400000 \<le> ch_expires r) (xd_challenges d)
      in if list_ex (\<lambda>r. ch_hash r = ch_hash c) rest then Inl violation
         else Inr ((), d\<lparr>xd_challenges := rest @ [c]\<rparr>))"

definition issueChallenge :: "host \<Rightarrow> siwe_ext \<Rightarrow> string \<Rightarrow> string \<Rightarrow> json \<Rightarrow> (exec_db, string \<times> string) session" where
  "issueChallenge h y nonce token body =
     liftS (of_opt Zod (if strict [''address''] body then check (isAddress (hs_ext h)) (fstr body ''address'') else None)) (\<lambda>address.
     rateLimit h ''login-global'' 300 60
     (rateLimit h (''login:'' @ to_lower address) 6 60
     (liftS (hs_origin h) (\<lambda>og.
      query xd_clock (\<lambda>now.
      liftS (makeChallenge h y (sha256 (hs_web h) token) nonce address og now) (\<lambda>c.
      transact (insert_challenge c) (\<lambda>_. Reply (Inr (token, ch_message c)))))))))"

text \<open>\<open>/^[a-f0-9]{64}$/\<close>, a token of 32 random bytes.\<close>

definition session_token :: "string option \<Rightarrow> string option" where
  "session_token cookie = check (\<lambda>s. length s = 64 \<and> list_all is_lower_hex s) cookie"

definition open_challenge :: "string \<Rightarrow> exec_db \<Rightarrow> challenge_row \<Rightarrow> bool" where
  "open_challenge digest d c \<longleftrightarrow> ch_hash c = digest \<and> ch_used c = None \<and> xd_now d < ch_expires c"

text \<open>The one statement that uses up the challenge, finds or makes the user and starts the session.\<close>

definition redeem_tx :: "string \<Rightarrow> string \<Rightarrow> string \<Rightarrow> exec_db \<Rightarrow> ((string \<times> string) option \<times> exec_db) res" where
  "redeem_tx fresh digest session_digest d =
     (case find (open_challenge digest d) (xd_challenges d) of
        None \<Rightarrow> Inr (None, d)
      | Some c \<Rightarrow>
          let known = find (\<lambda>u. snd u = ch_address c) (xd_users d);
              user = (case known of None \<Rightarrow> (to_lower fresh, ch_address c) | Some u \<Rightarrow> u)
          in if (known = None \<and> (list_ex (\<lambda>u. fst u = to_lower fresh) (xd_users d) \<or> \<not> hex_n 40 (ch_address c) \<or>
                   to_lower (ch_address c) \<noteq> ch_address c)) \<or>
                list_ex (\<lambda>s. se_hash s = session_digest) (xd_sessions d)
             then Inl violation
             else Inr (Some user, d\<lparr>
               xd_challenges := update_where (open_challenge digest d) (\<lambda>q. q\<lparr>ch_used := Some (xd_now d)\<rparr>) (xd_challenges d),
               xd_users := (if known = None then xd_users d @ [user] else xd_users d),
               xd_sessions := xd_sessions d @ [\<lparr>se_hash = session_digest, se_user = fst user,
                 se_expires = xd_now d + SESSION_SECONDS * 1000\<rparr>]\<rparr>))"

definition bad_signature :: js_error where
  "bad_signature = Platform 401 ''INVALID_SIGNATURE'' ''The signature is invalid or expired. Request a new sign-in message.''"

definition redeemChallenge ::
    "host \<Rightarrow> siwe_ext \<Rightarrow> string \<Rightarrow> string \<Rightarrow> string option \<Rightarrow> json \<Rightarrow> (exec_db, string \<times> string \<times> string) session" where
  "redeemChallenge h y fresh sessionToken cookie body =
     liftS (of_opt Zod (if strict [''signature''] body then check (hex_n 130) (fstr body ''signature'') else None)) (\<lambda>signature.
     liftS (of_opt (Platform 401 ''CHALLENGE_REQUIRED'' ''Connect your wallet to request a new sign-in message.'')
       (session_token cookie)) (\<lambda>token.
     let digest = sha256 (hs_web h) token
     in query (\<lambda>d. find (open_challenge digest d) (xd_challenges d)) (\<lambda>row.
        liftS (of_opt bad_signature row) (\<lambda>c.
        rateLimit h (''verify:'' @ digest) 10 60
        (liftS (hs_origin h) (\<lambda>og.
         query xd_clock (\<lambda>now.
         needS (verifyLoginSignature h y c signature og now) bad_signature
         (transact (redeem_tx fresh digest (sha256 (hs_web h) sessionToken)) (\<lambda>created.
          liftS (of_opt (Platform 401 ''CHALLENGE_USED'' ''This sign-in message has already been used. Request a new one.'') created)
            (\<lambda>u. Reply (Inr (sessionToken, u))))))))))))"

definition requireUser :: "host \<Rightarrow> string option \<Rightarrow> (string \<Rightarrow> string \<Rightarrow> (exec_db, 'r) session) \<Rightarrow> (exec_db, 'r) session" where
  "requireUser h cookie k =
     liftS (of_opt (Platform 401 ''AUTH_REQUIRED'' ''Sign in with your wallet to continue.'') (session_token cookie)) (\<lambda>token.
     query (\<lambda>d. Option.bind (find (\<lambda>s. se_hash s = sha256 (hs_web h) token \<and> xd_now d < se_expires s) (xd_sessions d))
         (\<lambda>s. find (\<lambda>u. fst u = se_user s) (xd_users d))) (\<lambda>row.
     liftS (of_opt (Platform 401 ''AUTH_REQUIRED'' ''Your session has expired. Sign in again.'') row) (\<lambda>(i, address). k i address)))"

definition end_session :: "string \<Rightarrow> exec_db \<Rightarrow> (unit \<times> exec_db) res" where
  "end_session digest d = Inr ((), d\<lparr>xd_sessions := filter (\<lambda>s. se_hash s \<noteq> digest) (xd_sessions d)\<rparr>)"

definition revokeSession :: "host \<Rightarrow> string option \<Rightarrow> (exec_db, unit) session" where
  "revokeSession h cookie = (case session_token cookie of
     None \<Rightarrow> Reply (Inr ())
   | Some token \<Rightarrow> transact (end_session (sha256 (hs_web h) token)) (\<lambda>_. Reply (Inr ())))"

end
