(* ===== verification/JobSafety.thy ===== *)
theory JobSafety
  imports RunnerUploads Login
begin

text \<open>
  What the hosted platform guarantees about mandates, runs, payments and orders, whatever requests
  are made and however their statements interleave: who signed what a run may spend, that the runs
  of a mandate stay within the totals its message names, that a recorded result or payment never
  changes, and that no payment counts twice.
\<close>

section \<open>Requests and histories\<close>

datatype exec_request =
    IssueChallenge string string json
  | Redeem string string "string option" json
  | Logout "string option"
  | CreateAgent "string option" string json
  | IssueKey "string option" string string string json
  | RevokeKey "string option" string string
  | PairRunner "string option" string string string
  | RevokeRunner "string option" string
  | PrepareMandate "string option" string string json
  | ApproveMandate "string option" string json
  | RevokeMandate "string option" string
  | QueueRun "string option" string string json "string option"
  | OwnerRun "string option" string string json "string option"
  | Claim "string option"
  | Upload "string option" string json
  | Authorize "string option" string
  | Publish "string option" string json
  | EditListing "string option" string json
  | PlaceOrder "string option" string json
  | ConfirmOrder "string option" string string json
  | Redeliver "string option" string string

definition silent :: "(exec_db, 'a) session \<Rightarrow> (exec_db, unit) session" where
  "silent s = answer_with (\<lambda>_. ()) s"

definition as_runner :: "host \<Rightarrow> string option \<Rightarrow> (string \<Rightarrow> string \<Rightarrow> (exec_db, unit) session) \<Rightarrow> (exec_db, unit) session" where
  "as_runner h authorization k = bindS (authenticateRunner h authorization) (\<lambda>r. liftS r (\<lambda>(i, agent). k i agent))"

fun exec_api :: "host \<Rightarrow> siwe_ext \<Rightarrow> exec_request \<Rightarrow> (exec_db, unit) session" where
  "exec_api h y (IssueChallenge nonce token v) = silent (issueChallenge h y nonce token v)"
| "exec_api h y (Redeem fresh token cookie v) = silent (redeemChallenge h y fresh token cookie v)"
| "exec_api h y (Logout cookie) = revokeSession h cookie"
| "exec_api h y (CreateAgent cookie fresh v) = requireUser h cookie (\<lambda>u _. silent (createAgent fresh u v))"
| "exec_api h y (IssueKey cookie fresh secret agent v) =
     requireUser h cookie (\<lambda>u _. silent (issueAgentKey h fresh secret u agent v))"
| "exec_api h y (RevokeKey cookie agent i) = requireUser h cookie (\<lambda>u _. revokeAgentKey u agent i)"
| "exec_api h y (PairRunner cookie fresh secret agent) =
     requireUser h cookie (\<lambda>u _. silent (pairRunner h fresh secret u agent))"
| "exec_api h y (RevokeRunner cookie agent) = requireUser h cookie (\<lambda>u _. revokeRunner u agent)"
| "exec_api h y (PrepareMandate cookie fresh agent v) =
     requireUser h cookie (\<lambda>u a. silent (prepareMandate h fresh u a agent v))"
| "exec_api h y (ApproveMandate cookie agent v) = requireUser h cookie (\<lambda>u a. silent (approveMandate h u a agent v))"
| "exec_api h y (RevokeMandate cookie agent) = requireUser h cookie (\<lambda>u _. revokeMandate u agent)"
| "exec_api h y (QueueRun authorization fresh agent v key) =
     bindS (authenticateAgentKey h authorization agent) (\<lambda>r. liftS r (\<lambda>_. silent (queueRun fresh agent v key)))"
| "exec_api h y (OwnerRun cookie fresh agent v key) =
     requireUser h cookie (\<lambda>u _. owned_agent u agent (silent (queueRun fresh agent v key)))"
| "exec_api h y (Claim authorization) = as_runner h authorization (\<lambda>i agent. silent (claimJob i agent))"
| "exec_api h y (Upload authorization i v) = as_runner h authorization (\<lambda>r agent. silent (saveRunnerResult h r agent i v))"
| "exec_api h y (Authorize authorization i) = as_runner h authorization (\<lambda>r agent. authorizeRunnerJob r agent i)"
| "exec_api h y (Publish cookie fresh v) = requireUser h cookie (\<lambda>u a. silent (createMarketService h fresh u a v))"
| "exec_api h y (EditListing cookie i v) = requireUser h cookie (\<lambda>u _. silent (updateMarketService h u i v))"
| "exec_api h y (PlaceOrder authorization fresh v) =
     as_runner h authorization (\<lambda>r agent. silent (createMarketOrder h fresh r agent v))"
| "exec_api h y (ConfirmOrder authorization token i v) =
     as_runner h authorization (\<lambda>r agent. silent (confirmMarketOrder h token r agent i v))"
| "exec_api h y (Redeliver cookie token i) = requireUser h cookie (\<lambda>u _. silent (retryMarketDelivery h token u i))"

text \<open>Purchases, clocks and the answers of other systems may change between statements.\<close>

definition exec_world :: "exec_db \<Rightarrow> exec_db \<Rightarrow> exec_db" where
  "exec_world w d = d\<lparr>xd_payments := xd_payments w, xd_now := xd_now w, xd_clock := xd_clock w, xd_mirror := xd_mirror w,
     xd_chain := xd_chain w, xd_remote := xd_remote w\<rparr>"

definition empty_exec :: "exec_db \<Rightarrow> exec_db" where
  "empty_exec d = d\<lparr>xd_users := [], xd_challenges := [], xd_sessions := [], xd_limits := [], xd_agents := [], xd_keys := [],
     xd_runners := [], xd_mandates := [], xd_jobs := [], xd_claims := [], xd_listings := [], xd_orders := []\<rparr>"

definition exec_history :: "host \<Rightarrow> siwe_ext \<Rightarrow> (exec_request, exec_db) event list \<Rightarrow> exec_db \<Rightarrow> exec_db" where
  "exec_history h y es d = fst (run_pool (exec_api h y) exec_world es (empty_exec d, []))"

section \<open>The invariant\<close>

definition signed_by_owner :: "host \<Rightarrow> mandate_row \<Rightarrow> bool" where
  "signed_by_owner h m \<longleftrightarrow>
     (case mr_signature m of None \<Rightarrow> False | Some s \<Rightarrow> hs_verifies h (mf_owner (mr_fields m)) (mr_message m) s) \<and>
     mr_message m = mandateMessage (mr_fields m) \<and> 1 \<le> mf_data (mr_fields m) \<and> 1 \<le> mf_verification (mr_fields m) \<and>
     1 \<le> mf_maxRuns (mr_fields m) \<and> mf_maxRuns (mr_fields m) \<le> 10"

definition runs_of :: "mandate_row \<Rightarrow> job_row list \<Rightarrow> job_row list" where
  "runs_of m js = filter (\<lambda>j. jb_mandate j = mr_id m) js"

definition mandate_sound :: "host \<Rightarrow> job_row list \<Rightarrow> mandate_row \<Rightarrow> bool" where
  "mandate_sound h js m \<longleftrightarrow>
     mr_message m = mandateMessage (mr_fields m) \<and> mr_maxRuns m = mf_maxRuns (mr_fields m) \<and>
     to_lower (mr_id m) = mr_id m \<and> to_lower (mr_agent m) = mr_agent m \<and>
     mr_reserved m = int (length (runs_of m js)) \<and> (runs_of m js = [] \<or> mr_reserved m \<le> mr_maxRuns m) \<and>
     (mr_approved m = None) = (mr_signature m = None) \<and> (mr_approved m \<noteq> None \<longrightarrow> signed_by_owner h m)"

definition in_force :: "mandate_row \<Rightarrow> bool" where
  "in_force m \<longleftrightarrow> mr_approved m \<noteq> None \<and> mr_revoked m = None"

definition one_each :: "('a \<Rightarrow> bool) \<Rightarrow> ('a \<Rightarrow> 'b) \<Rightarrow> 'a list \<Rightarrow> bool" where
  "one_each P agent rows \<longleftrightarrow> distinct (map agent (filter P rows))"

definition claimed :: "chain_claim list \<Rightarrow> string \<Rightarrow> payment_receipt \<Rightarrow> bool" where
  "claimed cs i p \<longleftrightarrow> \<lparr>cr_network = pr_network p, cr_transaction = receipt_tx p, cr_job = i\<rparr> \<in> set cs"

text \<open>The recorded result: a validated one for this job and mandate, with the status it gives.\<close>

definition recorded :: "host \<Rightarrow> chain_claim list \<Rightarrow> mandate_row \<Rightarrow> job_row \<Rightarrow> json \<Rightarrow> bool" where
  "recorded h cs m j v \<longleftrightarrow>
     (\<exists>u i r. same_uuid (jb_id j) i \<and>
       validateRunnerResult h u \<lparr>rj_id = i, rj_repos = jb_repos j, rj_mandate = signed m\<rparr> = Inr r \<and>
       v = runner_result_json r \<and> jb_status j = classifyRunnerStatus r (jb_proofs j) \<and>
       (jb_proofs j \<noteq> None \<longrightarrow> (\<forall>p \<in> set (run_receipts r). claimed cs (jb_id j) p)))"

definition job_sound :: "host \<Rightarrow> mandate_row list \<Rightarrow> chain_claim list \<Rightarrow> job_row \<Rightarrow> bool" where
  "job_sound h ms cs j \<longleftrightarrow>
     to_lower (jb_id j) = jb_id j \<and> to_lower (jb_agent j) = jb_agent j \<and>
     (jb_status j = JobQueued \<longrightarrow> jb_runner j = None) \<and>
     (jb_result j = None \<longrightarrow> jb_proofs j = None) \<and>
     (jb_result j \<noteq> None \<longrightarrow> jb_status j \<notin> {JobQueued, JobRunning} \<and> jb_runner j \<noteq> None) \<and>
     (\<exists>m \<in> set ms. mr_id m = jb_mandate j \<and> mr_agent m = jb_agent j \<and> mr_approved m \<noteq> None \<and>
       set (jb_repos j) \<subseteq> set (mf_repos (mr_fields m)) \<and> (\<forall>v. jb_result j = Some v \<longrightarrow> recorded h cs m j v))"

text \<open>What the chain answers is among \<open>S\<close>, the answers it ever gives.\<close>

definition answers_within :: "(string \<times> chain_answer) set \<Rightarrow> exec_db \<Rightarrow> bool" where
  "answers_within S d \<longleftrightarrow> (\<forall>t p. xd_chain d t = Inr p \<longrightarrow> (t, p) \<in> S)"

text \<open>A paid order: for its transaction the chain gave an answer with the transfer it asks for,
  within its window.\<close>

definition order_sound :: "(string \<times> chain_answer) set \<Rightarrow> market_order \<Rightarrow> bool" where
  "order_sound S q \<longleftrightarrow>
     (if mo_status q = OrderQuoted then mo_hash q = None
      else \<exists>t answer. mo_hash q = Some t \<and> (t, answer) \<in> S \<and> assertMarketTransfer answer q = Inr () \<and>
        mo_proof q = Some (transfer_proof t q answer)) \<and>
     (mo_checks q = None) = (mo_status q \<noteq> OrderFulfilled)"

definition paid_hashes :: "market_order list \<Rightarrow> string list" where
  "paid_hashes qs = List.map_filter mo_hash qs"

definition orders_sound :: "(string \<times> chain_answer) set \<Rightarrow> market_order list \<Rightarrow> bool" where
  "orders_sound S qs \<longleftrightarrow> (\<forall>q \<in> set qs. order_sound S q \<and> to_lower (mo_id q) = mo_id q) \<and> distinct (map mo_id qs) \<and>
     distinct (map mo_job qs) \<and> distinct (map mo_dataTx qs) \<and> distinct (map mo_dataSource qs) \<and> distinct (paid_hashes qs)"

definition exec_ok :: "host \<Rightarrow> (string \<times> chain_answer) set \<Rightarrow> exec_db \<Rightarrow> bool" where
  "exec_ok h S d \<longleftrightarrow>
     (\<forall>m \<in> set (xd_mandates d). mandate_sound h (xd_jobs d) m) \<and> distinct (map mr_id (xd_mandates d)) \<and>
     one_each in_force mr_agent (xd_mandates d) \<and>
     (\<forall>j \<in> set (xd_jobs d). job_sound h (xd_mandates d) (xd_claims d) j) \<and> distinct (map jb_id (xd_jobs d)) \<and>
     distinct (map (\<lambda>j. (jb_agent j, jb_key j)) (xd_jobs d)) \<and>
     distinct (map (\<lambda>c. (cr_network c, cr_transaction c)) (xd_claims d)) \<and> orders_sound S (xd_orders d) \<and> answers_within S d"

section \<open>Evolution\<close>

definition mandate_evolves :: "mandate_row \<Rightarrow> mandate_row \<Rightarrow> bool" where
  "mandate_evolves a b \<longleftrightarrow>
     (mr_id b, mr_agent b, mr_fields b, mr_message b, mr_maxRuns b, mr_expires b, mr_created b) =
       (mr_id a, mr_agent a, mr_fields a, mr_message a, mr_maxRuns a, mr_expires a, mr_created a) \<and>
     mr_reserved a \<le> mr_reserved b \<and>
     (mr_approved a \<noteq> None \<longrightarrow> mr_approved b = mr_approved a \<and> mr_signature b = mr_signature a) \<and>
     (mr_revoked a \<noteq> None \<longrightarrow> mr_revoked b = mr_revoked a \<and> mr_approved b = mr_approved a)"

definition job_evolves :: "job_row \<Rightarrow> job_row \<Rightarrow> bool" where
  "job_evolves a b \<longleftrightarrow>
     (jb_id b, jb_agent b, jb_key b, jb_repos b, jb_mandate b, jb_created b) =
       (jb_id a, jb_agent a, jb_key a, jb_repos a, jb_mandate a, jb_created a) \<and>
     (jb_runner a \<noteq> None \<longrightarrow> jb_runner b = jb_runner a) \<and>
     (jb_status a \<notin> {JobQueued, JobRunning} \<longrightarrow> b = a) \<and> (jb_status a = JobRunning \<longrightarrow> jb_status b \<noteq> JobQueued)"

definition order_terms :: "market_order \<Rightarrow> string \<times> string \<times> string \<times> int \<times> string \<times> string \<times> string \<times> int \<times> string \<times> string \<times>
    string \<times> report \<times> verification_service \<times> int \<times> int" where
  "order_terms q = (mo_id q, mo_job q, mo_service q, mo_revision q, mo_runner q, mo_payer q, mo_recipient q, mo_amount q,
     mo_dataTx q, mo_dataSource q, mo_digest q, mo_report q, mo_snapshot q, mo_created q, mo_expires q)"

definition order_evolves :: "market_order \<Rightarrow> market_order \<Rightarrow> bool" where
  "order_evolves a b \<longleftrightarrow> order_terms b = order_terms a \<and>
     (mo_status a \<noteq> OrderQuoted \<longrightarrow> mo_status b \<noteq> OrderQuoted \<and> mo_hash b = mo_hash a \<and> mo_proof b = mo_proof a) \<and>
     (mo_status a = OrderFulfilled \<longrightarrow> b = a)"

definition rows_evolve :: "('a \<Rightarrow> 'a \<Rightarrow> bool) \<Rightarrow> 'a list \<Rightarrow> 'a list \<Rightarrow> bool" where
  "rows_evolve E xs ys \<longleftrightarrow> (\<forall>a \<in> set xs. \<exists>b \<in> set ys. E a b)"

definition exec_evolves :: "exec_db \<Rightarrow> exec_db \<Rightarrow> bool" where
  "exec_evolves d d' \<longleftrightarrow> rows_evolve mandate_evolves (xd_mandates d) (xd_mandates d') \<and>
     rows_evolve job_evolves (xd_jobs d) (xd_jobs d') \<and> rows_evolve order_evolves (xd_orders d) (xd_orders d') \<and>
     set (xd_claims d) \<subseteq> set (xd_claims d')"

lemma rows_evolve_refl: "(\<And>a. E a a) \<Longrightarrow> rows_evolve E xs xs"
  unfolding rows_evolve_def by blast

lemma rows_evolve_trans:
  "(\<And>a b c. E a b \<Longrightarrow> E b c \<Longrightarrow> E a c) \<Longrightarrow> rows_evolve E xs ys \<Longrightarrow> rows_evolve E ys zs \<Longrightarrow> rows_evolve E xs zs"
  unfolding rows_evolve_def by meson

lemma mandate_evolves_refl: "mandate_evolves m m"
  by (simp add: mandate_evolves_def)

lemma job_evolves_refl: "job_evolves j j"
  by (simp add: job_evolves_def)

lemma order_evolves_refl: "order_evolves q q"
  by (simp add: order_evolves_def)

lemma mandate_evolves_trans: "mandate_evolves a b \<Longrightarrow> mandate_evolves b c \<Longrightarrow> mandate_evolves a c"
  unfolding mandate_evolves_def by auto

lemma job_evolves_trans: "job_evolves a b \<Longrightarrow> job_evolves b c \<Longrightarrow> job_evolves a c"
  unfolding job_evolves_def by auto

lemma order_evolves_trans: "order_evolves a b \<Longrightarrow> order_evolves b c \<Longrightarrow> order_evolves a c"
  unfolding order_evolves_def by auto

interpretation exec_evolution: evolution "exec_ok h S" exec_evolves for h S
proof
  fix a b c :: exec_db
  show "exec_evolves a a"
    by (simp add: exec_evolves_def rows_evolve_refl mandate_evolves_refl job_evolves_refl order_evolves_refl)
  assume "exec_evolves a b" "exec_evolves b c"
  then show "exec_evolves a c"
    unfolding exec_evolves_def
    by (blast intro: rows_evolve_trans mandate_evolves_trans job_evolves_trans order_evolves_trans)
qed

section \<open>Quiet requests\<close>

text \<open>The tables the invariant is about.\<close>

definition core :: "exec_db \<Rightarrow> (string \<Rightarrow> chain_answer res) \<times> mandate_row list \<times> job_row list \<times> chain_claim list \<times> market_order list" where
  "core d = (xd_chain d, xd_mandates d, xd_jobs d, xd_claims d, xd_orders d)"

abbreviation exec_safe :: "host \<Rightarrow> (string \<times> chain_answer) set \<Rightarrow> exec_db \<Rightarrow> (exec_db, 'r) session \<Rightarrow> bool" where
  "exec_safe h S d s \<equiv> guaranteed (exec_ok h S) exec_evolves (\<lambda>_. True) d s"

lemma same_core: "core d' = core d \<Longrightarrow> exec_ok h S d' = exec_ok h S d \<and> exec_evolves d d'"
  unfolding exec_ok_def exec_evolves_def core_def answers_within_def
  by (simp add: rows_evolve_refl mandate_evolves_refl job_evolves_refl order_evolves_refl)

lemma quiet_transact:
  assumes "\<And>d a d'. f d = Inr (a, d') \<Longrightarrow> core d' = core d" "\<And>d a. exec_safe h S d (k a)"
  shows "exec_safe h S d (transact f k)"
proof (rule exec_evolution.transacted)
  fix d' a d'' assume "exec_ok h S d'" "f d' = Inr (a, d'')"
  then show "exec_ok h S d'' \<and> exec_evolves d' d'' \<and> exec_safe h S d'' (k a)"
    using assms same_core [of d'' d' h S] by blast
qed

lemma safe_bindS: "exec_safe h S d s \<Longrightarrow> (\<And>d r. exec_safe h S d (f r)) \<Longrightarrow> exec_safe h S d (bindS s f)"
  by (rule exec_evolution.bound)

lemma safe_query: "(\<And>d a. exec_safe h S d (k a)) \<Longrightarrow> exec_safe h S d (query f k)"
  by (rule exec_evolution.queried)

lemma safe_lift: "(\<And>d a. exec_safe h S d (k a)) \<Longrightarrow> exec_safe h S d (liftS r k)"
  by (rule exec_evolution.lifted)

lemma safe_need: "exec_safe h S d s \<Longrightarrow> exec_safe h S d (needS b e s)"
  by (rule exec_evolution.needed)

lemma safe_reply: "exec_safe h S d (Reply r)"
  by (rule guaranteed.reply) simp

lemmas quiet = safe_reply safe_need safe_lift safe_query safe_bindS

lemma safe_answer: "exec_safe h S d s \<Longrightarrow> exec_safe h S d (answer_with f s)"
  unfolding answer_with_def by (intro quiet)

lemma safe_silent: "exec_safe h S d s \<Longrightarrow> exec_safe h S d (silent s)"
  unfolding silent_def by (rule safe_answer)

lemma safe_prod: "(\<And>a b. exec_safe h S d (f a b)) \<Longrightarrow> exec_safe h S d (case p of (a, b) \<Rightarrow> f a b)"
  by (cases p) simp

lemma safe_option: "exec_safe h S d a \<Longrightarrow> (\<And>v. exec_safe h S d (f v)) \<Longrightarrow> exec_safe h S d (case o1 of None \<Rightarrow> a | Some v \<Rightarrow> f v)"
  by (cases o1) simp_all

lemma safe_if: "exec_safe h S d a \<Longrightarrow> exec_safe h S d b \<Longrightarrow> exec_safe h S d (if c then a else b)"
  by simp

lemma safe_owned: "(\<And>d. exec_safe h S d k) \<Longrightarrow> exec_safe h S d (owned_agent user agent k)"
  unfolding owned_agent_def by (intro quiet)

lemma safe_user: "(\<And>d i a. exec_safe h S d (k i a)) \<Longrightarrow> exec_safe h S d (requireUser h cookie k)"
  unfolding requireUser_def by (intro quiet safe_prod)

lemma safe_limit: "(\<And>d. exec_safe h S d k) \<Longrightarrow> exec_safe h S d (rateLimit h bucket n s k)"
  unfolding rateLimit_def
  by (intro quiet_transact quiet) (auto simp: drop_limits_def count_hit_def core_def split: option.splits)

lemma issueChallenge_safe: "exec_safe h S d (issueChallenge h y nonce token v)"
  unfolding issueChallenge_def
  by (intro quiet safe_limit quiet_transact)
    (auto simp: insert_challenge_def core_def Let_def split: if_splits)

lemma redeemChallenge_safe: "exec_safe h S d (redeemChallenge h y fresh token cookie v)"
  unfolding redeemChallenge_def Let_def
  by (intro quiet safe_limit quiet_transact)
    (auto simp: redeem_tx_def core_def Let_def split: if_splits option.splits)

lemma revokeSession_safe: "exec_safe h S d (revokeSession h cookie)"
  unfolding revokeSession_def
  by (intro quiet safe_option quiet_transact) (auto simp: end_session_def core_def)

lemma createAgent_safe: "exec_safe h S d (createAgent fresh u v)"
  unfolding createAgent_def
  by (intro quiet quiet_transact) (auto simp: insert_agent_def core_def Let_def split: if_splits)

lemma issueAgentKey_safe: "exec_safe h S d (issueAgentKey h fresh secret u agent v)"
  unfolding issueAgentKey_def Let_def
  by (intro quiet safe_owned quiet_transact safe_prod) (auto simp: insert_key_def core_def Let_def split: if_splits)

lemma revokeAgentKey_safe: "exec_safe h S d (revokeAgentKey u agent i)"
  unfolding revokeAgentKey_def
  by (intro quiet safe_owned quiet_transact) (auto simp: revoke_key_def core_def Let_def)

lemma pairRunner_safe: "exec_safe h S d (pairRunner h fresh secret u agent)"
  unfolding pairRunner_def Let_def
  by (intro quiet safe_owned quiet_transact) (auto simp: pair_tx_def core_def Let_def split: if_splits)

lemma revokeRunner_safe: "exec_safe h S d (revokeRunner u agent)"
  unfolding revokeRunner_def by (intro quiet safe_owned quiet_transact) (auto simp: unpair_tx_def core_def)

lemma getVerificationService_safe: "exec_safe h S d (getVerificationService h i)"
  unfolding getVerificationService_def by (intro quiet)

lemma createMarketService_safe: "exec_safe h S d (createMarketService h fresh u a v)"
  unfolding createMarketService_def
  by (intro quiet quiet_transact) (auto simp: insert_listing_def core_def Let_def split: if_splits)

lemma updateMarketService_safe: "exec_safe h S d (updateMarketService h u i v)"
  unfolding updateMarketService_def
  by (intro quiet quiet_transact) (auto simp: edit_listing_def core_def Let_def split: if_splits)

lemma authenticateAgentKey_safe: "exec_safe h S d (authenticateAgentKey h authorization agent)"
  unfolding authenticateAgentKey_def by (intro quiet safe_prod)

lemma as_runner_safe: "(\<And>d i a. exec_safe h S d (k i a)) \<Longrightarrow> exec_safe h S d (as_runner h authorization k)"
  unfolding as_runner_def authenticateRunner_def by (intro quiet safe_prod)

lemma authorizeRunnerJob_safe: "exec_safe h S d (authorizeRunnerJob r agent i)"
  unfolding authorizeRunnerJob_def by (intro quiet)

section \<open>Tables\<close>

lemma map_update_where: "(\<And>x. x \<in> set xs \<Longrightarrow> p x \<Longrightarrow> g (f x) = g x) \<Longrightarrow> map g (update_where p f xs) = map g xs"
  by (simp add: update_where_def)

lemma rows_evolve_update:
  "(\<And>x. E x x) \<Longrightarrow> (\<And>x. x \<in> set xs \<Longrightarrow> p x \<Longrightarrow> E x (f x)) \<Longrightarrow> rows_evolve E xs (update_where p f xs)"
  unfolding rows_evolve_def update_where_def
proof (intro ballI)
  fix x assume "\<And>x. E x x" "\<And>x. x \<in> set xs \<Longrightarrow> p x \<Longrightarrow> E x (f x)" "x \<in> set xs"
  then show "\<exists>b \<in> set (map (\<lambda>r. if p r then f r else r) xs). E x b"
    by (intro bexI [of _ "if p x then f x else x"]) simp_all
qed

lemma rows_evolve_append: "rows_evolve E xs ys \<Longrightarrow> rows_evolve E xs (ys @ zs)"
  unfolding rows_evolve_def by auto

lemma ball_update:
  "(\<forall>x \<in> set (update_where p f xs). Q x) \<longleftrightarrow> (\<forall>x \<in> set xs. if p x then Q (f x) else Q x)"
  by (auto simp: update_where_def)

lemma filter_update_same:
  "(\<And>x. x \<in> set xs \<Longrightarrow> p x \<Longrightarrow> \<not> P (f x) \<and> \<not> P x) \<Longrightarrow> filter P (update_where p f xs) = filter P xs"
  unfolding update_where_def by (induction xs) auto

lemma by_key: "distinct (map k xs) \<Longrightarrow> a \<in> set xs \<Longrightarrow> b \<in> set xs \<Longrightarrow> k a = k b \<Longrightarrow> a = b"
  by (auto simp: distinct_map dest: inj_onD)

lemma find_member: "find P xs = Some a \<Longrightarrow> a \<in> set xs \<and> P a"
  by (auto simp: find_Some_iff)

text \<open>Only the mandates of the jobs matter to the reservations.\<close>

lemma runs_of_length: "map jb_mandate js' = map jb_mandate js \<Longrightarrow> length (runs_of m js') = length (runs_of m js)"
proof -
  have "length (runs_of m js) = count_list (map jb_mandate js) (mr_id m)" for js
    by (induction js) (auto simp: runs_of_def)
  then show "map jb_mandate js' = map jb_mandate js \<Longrightarrow> ?thesis" by simp
qed

lemma mandate_sound_jobs: "map jb_mandate js' = map jb_mandate js \<Longrightarrow> mandate_sound h js' m = mandate_sound h js m"
  using runs_of_length [of js' js m] unfolding mandate_sound_def by (metis length_0_conv)

lemma mandate_sound_revoked [simp]: "mandate_sound h js (m\<lparr>mr_revoked := x\<rparr>) = mandate_sound h js m"
  by (cases "mr_signature m") (simp_all add: mandate_sound_def runs_of_def signed_by_owner_def)

lemma recorded_evolves:
  assumes "recorded h cs m j v" "mandate_evolves m m'" "mr_approved m \<noteq> None" "set cs \<subseteq> set cs'"
  shows "recorded h cs' m' j v"
proof -
  have "signed m' = signed m" using assms(2,3) by (auto simp: mandate_evolves_def signed_def)
  then show ?thesis using assms(1,4) unfolding recorded_def claimed_def by (metis subset_iff)
qed

lemma job_sound_evolves:
  assumes "job_sound h ms cs j" "rows_evolve mandate_evolves ms ms'" "set cs \<subseteq> set cs'"
  shows "job_sound h ms' cs' j"
proof -
  obtain m where m: "m \<in> set ms" "mr_id m = jb_mandate j" "mr_agent m = jb_agent j" "mr_approved m \<noteq> None"
    "set (jb_repos j) \<subseteq> set (mf_repos (mr_fields m))" "\<forall>v. jb_result j = Some v \<longrightarrow> recorded h cs m j v"
    using assms(1) by (auto simp: job_sound_def)
  obtain m' where m': "m' \<in> set ms'" "mandate_evolves m m'" using assms(2) m(1) by (auto simp: rows_evolve_def)
  have "mr_id m' = jb_mandate j \<and> mr_agent m' = jb_agent j \<and> mr_approved m' \<noteq> None \<and>
      set (jb_repos j) \<subseteq> set (mf_repos (mr_fields m')) \<and> (\<forall>v. jb_result j = Some v \<longrightarrow> recorded h cs' m' j v)"
    using m m'(2) recorded_evolves [OF _ m'(2) m(4) assms(3)] by (auto simp: mandate_evolves_def)
  then show ?thesis using assms(1) m'(1) unfolding job_sound_def by blast
qed

lemma exec_okD:
  assumes "exec_ok h S d"
  shows "\<And>m. m \<in> set (xd_mandates d) \<Longrightarrow> mandate_sound h (xd_jobs d) m" "distinct (map mr_id (xd_mandates d))"
    "one_each in_force mr_agent (xd_mandates d)"
    "\<And>j. j \<in> set (xd_jobs d) \<Longrightarrow> job_sound h (xd_mandates d) (xd_claims d) j" "distinct (map jb_id (xd_jobs d))"
    "distinct (map (\<lambda>j. (jb_agent j, jb_key j)) (xd_jobs d))"
    "distinct (map (\<lambda>c. (cr_network c, cr_transaction c)) (xd_claims d))" "orders_sound S (xd_orders d)" "answers_within S d"
  using assms by (simp_all add: exec_ok_def)

text \<open>A change of the mandates alone.\<close>

lemma mandates_changed:
  assumes ok: "exec_ok h S d" and core: "core d' = (xd_chain d, ms, xd_jobs d, xd_claims d, xd_orders d)"
    and ev: "rows_evolve mandate_evolves (xd_mandates d) ms"
    and sound: "\<And>m. m \<in> set ms \<Longrightarrow> mandate_sound h (xd_jobs d) m" "distinct (map mr_id ms)" "one_each in_force mr_agent ms"
  shows "exec_ok h S d' \<and> exec_evolves d d'"
proof -
  note job_sound_evolves [OF exec_okD(4) [OF ok] ev subset_refl]
  then show ?thesis
    using core sound ev exec_okD [OF ok] unfolding exec_ok_def exec_evolves_def core_def answers_within_def
    by (auto intro: rows_evolve_refl job_evolves_refl order_evolves_refl)
qed

section \<open>Mandates\<close>

lemma revoke_evolves: "mr_revoked m = None \<Longrightarrow> mandate_evolves m (m\<lparr>mr_revoked := x\<rparr>)"
  by (simp add: mandate_evolves_def)

lemma insert_mandate_safe:
  assumes ok: "exec_ok h S d" and tx: "insert_mandate agent f d = Inr (a, d')"
  shows "exec_ok h S d' \<and> exec_evolves d d'"
proof -
  let ?p = "\<lambda>m. mandate_for agent m \<and> mr_approved m = None \<and> mr_revoked m = None"
  define rest where "rest = update_where ?p (\<lambda>m. m\<lparr>mr_revoked := Some (xd_now d)\<rparr>) (xd_mandates d)"
  define new where "new = \<lparr>mr_id = to_lower (mf_id f), mr_agent = to_lower agent, mr_fields = f, mr_message = mandateMessage f,
      mr_signature = None, mr_maxRuns = mf_maxRuns f, mr_reserved = 0, mr_expires = expiry_ms (mf_expires f),
      mr_created = xd_now d, mr_approved = None, mr_revoked = None\<rparr>"
  have d': "d' = d\<lparr>xd_mandates := rest @ [new]\<rparr>" and fresh: "\<forall>q \<in> set rest. mr_id q \<noteq> mr_id new"
    using tx by (auto simp: insert_mandate_def Let_def rest_def new_def list_ex_iff split: if_splits)
  have ids: "map mr_id rest = map mr_id (xd_mandates d)"
    unfolding rest_def by (rule map_update_where) simp
  have "runs_of new (xd_jobs d) = []"
  proof -
    have new: "mr_id new \<notin> mr_id ` set (xd_mandates d)" using fresh ids by (metis image_iff list.set_map)
    have "jb_mandate j \<noteq> mr_id new" if j: "j \<in> set (xd_jobs d)" for j
    proof -
      obtain m where "m \<in> set (xd_mandates d)" "mr_id m = jb_mandate j"
        using exec_okD(4) [OF ok j] unfolding job_sound_def by blast
      then show ?thesis using new by (metis imageI)
    qed
    then show ?thesis by (simp add: runs_of_def filter_empty_conv)
  qed
  then have "mandate_sound h (xd_jobs d) new" by (simp add: mandate_sound_def new_def to_lower_idem)
  moreover have "\<forall>m \<in> set rest. mandate_sound h (xd_jobs d) m"
    unfolding rest_def ball_update using exec_okD(1) [OF ok] by simp
  ultimately have sound: "mandate_sound h (xd_jobs d) m" if "m \<in> set (rest @ [new])" for m
    using that by auto
  have force: "filter in_force (rest @ [new]) = filter in_force (xd_mandates d)"
    unfolding rest_def filter_append by (subst filter_update_same) (simp_all add: in_force_def new_def)
  show ?thesis
  proof (rule mandates_changed [OF ok, where ms = "rest @ [new]"])
    show "core d' = (xd_chain d, rest @ [new], xd_jobs d, xd_claims d, xd_orders d)" by (simp add: d' core_def)
    show "rows_evolve mandate_evolves (xd_mandates d) (rest @ [new])"
      unfolding rest_def
      by (intro rows_evolve_append rows_evolve_update mandate_evolves_refl revoke_evolves) simp
    show "distinct (map mr_id (rest @ [new]))"
      using exec_okD(2) [OF ok] fresh unfolding map_append ids by (auto simp flip: ids)
    show "one_each in_force mr_agent (rest @ [new])"
      using exec_okD(3) [OF ok] unfolding one_each_def force .
  qed (use sound in blast)
qed

lemma prepareMandate_safe: "exec_safe h S d (prepareMandate h fresh u a agent v)"
proof -
  have tx: "exec_safe h S d (transact (insert_mandate agent f) k)" if "\<And>d a. exec_safe h S d (k a)"
    for d f and k :: "unit \<Rightarrow> (exec_db, mandate_fields \<times> string) session"
    by (rule exec_evolution.transacted) (use insert_mandate_safe that in blast)
  show ?thesis
    unfolding prepareMandate_def Let_def selected_service_def
    by (intro safe_owned quiet tx safe_option safe_answer getVerificationService_safe)
qed

text \<open>What a validated mandate says is what the row says.\<close>

lemma fld_signed_json [simp]:
  "fld (signed_json s) ''owner'' = Some (JStr (mf_owner s))"
  "fld (signed_json s) ''dataBudgetAtomic'' = Some (nat_json (mf_data s))"
  "fld (signed_json s) ''verificationBudgetAtomic'' = Some (nat_json (mf_verification s))"
  "fld (signed_json s) ''maxRuns'' = Some (nat_json (mf_maxRuns s))"
  "fld (signed_json s) ''message'' = Some (JStr (sm_message s))"
  "fld (signed_json s) ''signature'' = Some (JStr (sm_signature s))"
  by (simp_all add: signed_json_def split: option.split)

lemma p_bounded_nat: "p_bounded a b (nat_json i) = Some k \<Longrightarrow> k = i \<and> a \<le> i \<and> i \<le> b"
  by (auto simp: p_bounded_def nat_json_def as_int_def split: if_splits)

lemma validated_terms:
  assumes "validateSignedMandate h (signed_json s) pin"
  shows "hs_verifies h (mf_owner s) (sm_message s) (sm_signature s) \<and> 1 \<le> mf_data s \<and> 1 \<le> mf_verification s \<and>
    1 \<le> mf_maxRuns s \<and> mf_maxRuns s \<le> 10"
proof -
  obtain m where m: "p_signed_mandate (hs_ext h) (signed_json s) = Some m"
    "hs_verifies h (mf_owner m) (sm_message m) (sm_signature m)"
    using assms unfolding validateSignedMandate_def by (auto split: option.splits)
  obtain f where f: "p_mandate_fields (hs_ext h) (signed_json s) = Some f" "m = sign_fields f (sm_message s) (sm_signature s)"
    using m(1) unfolding p_signed_mandate_def by (auto simp: fstr_def bind_eq_Some_conv split: if_splits)
  then have "mf_owner f = mf_owner s \<and> 1 \<le> mf_data s \<and> 1 \<le> mf_verification s \<and> 1 \<le> mf_maxRuns s \<and> mf_maxRuns s \<le> 10"
    unfolding p_mandate_fields_def by (auto simp: fstr_def bind_eq_Some_conv dest!: p_bounded_nat)
  then show ?thesis using m(2) f(2) by simp
qed

text \<open>A mandate read earlier and still in the table.\<close>

lemma seen_mandate:
  assumes "exec_ok h S d0" "m0 \<in> set (xd_mandates d0)" "exec_evolves d0 d" "exec_ok h S d" "m \<in> set (xd_mandates d)"
    "mr_id m = mr_id m0"
  shows "mandate_evolves m0 m"
proof -
  obtain m' where m': "m' \<in> set (xd_mandates d)" "mandate_evolves m0 m'"
    using assms(2,3) by (auto simp: exec_evolves_def rows_evolve_def)
  moreover have "m' = m"
    using by_key [OF exec_okD(2) [OF assms(4)] m'(1) assms(5)] m'(2) assms(6) by (simp add: mandate_evolves_def)
  ultimately show ?thesis by simp
qed

lemma same_uuid_lower: "to_lower a = a \<Longrightarrow> to_lower b = b \<Longrightarrow> same_uuid a i \<Longrightarrow> same_uuid b i \<Longrightarrow> a = b"
  by (simp add: same_uuid_def)

lemma one_each_fewer:
  assumes "one_each P k xs" "\<And>m. m \<in> set xs \<Longrightarrow> P (g m) \<Longrightarrow> P m" "\<And>m. k (g m) = k m"
  shows "one_each P k (map g xs)"
proof -
  have "filter (\<lambda>m. P (g m)) xs = filter (\<lambda>m. P (g m)) (filter P xs)"
    using assms(2) by (simp, intro filter_cong) auto
  then have "map k (filter P (map g xs)) = map k (filter (\<lambda>m. P (g m)) (filter P xs))"
    by (simp add: filter_map comp_def assms(3))
  then show ?thesis using assms(1) distinct_map_filter unfolding one_each_def by metis
qed

lemma one_each_replaced:
  assumes "one_each P k xs" "distinct xs" "\<And>m. m \<in> set xs \<Longrightarrow> P (g m) \<longleftrightarrow> m = n \<or> (P m \<and> k m \<noteq> k n)" "\<And>m. k (g m) = k m"
  shows "one_each P k (map g xs)"
proof -
  have "inj_on k (set (filter P xs))" using assms(1) by (simp add: one_each_def distinct_map)
  then have "inj_on k (set (filter (\<lambda>m. P (g m)) xs))"
    using assms(3) unfolding inj_on_def by (auto split: if_splits)
  then show ?thesis using assms(2,4) by (simp add: one_each_def filter_map comp_def distinct_map)
qed

lemma mandate_sound_signed:
  assumes "mandate_sound h js m" "signed_by_owner h (m\<lparr>mr_signature := Some s\<rparr>)"
  shows "mandate_sound h js (m\<lparr>mr_signature := Some s, mr_approved := Some t\<rparr>)"
proof -
  have "runs_of (m\<lparr>mr_signature := Some s, mr_approved := Some t\<rparr>) js = runs_of m js" by (simp add: runs_of_def)
  moreover have "signed_by_owner h (m\<lparr>mr_signature := Some s, mr_approved := Some t\<rparr>)"
    using assms(2) unfolding signed_by_owner_def by auto
  ultimately show ?thesis using assms(1) unfolding mandate_sound_def by (elim conjE) simp
qed

lemma in_force_agent: "mandate_for agent n \<Longrightarrow> mandate_for agent m \<longleftrightarrow> to_lower (mr_agent m) = to_lower (mr_agent n)"
  by (auto simp: mandate_for_def same_uuid_def)

text \<open>The approval as one map over the mandates: the row is signed, the one in force is revoked.\<close>

definition approved_row :: "exec_db \<Rightarrow> string \<Rightarrow> string \<Rightarrow> string \<Rightarrow> mandate_row \<Rightarrow> mandate_row" where
  "approved_row d agent i s m =
     (if unsigned_mandate i (xd_now d) m \<and> mandate_for agent m
      then m\<lparr>mr_signature := Some s, mr_approved := Some (xd_now d)\<rparr>
      else if mandate_for agent m \<and> in_force m \<and> list_ex (unsigned_mandate i (xd_now d)) (xd_mandates d)
      then m\<lparr>mr_revoked := Some (xd_now d)\<rparr> else m)"

lemma approve_tx_rows:
  assumes "exec_ok h S d" "approve_tx agent i s d = Inr (r, d')"
  shows "core d' = (xd_chain d, map (approved_row d agent i s) (xd_mandates d), xd_jobs d, xd_claims d, xd_orders d)"
proof -
  have "mr_approved m = None" if "m \<in> set (xd_mandates d)" "mr_signature m = None" for m
    using exec_okD(1) [OF assms(1) that(1)] that(2) by (simp add: mandate_sound_def)
  then show ?thesis
    using assms(2)
    by (auto simp: approve_tx_def Let_def update_where_def core_def comp_def approved_row_def unsigned_mandate_def in_force_def)
qed

lemma approve_tx_safe:
  assumes ok: "exec_ok h S d" and tx: "approve_tx agent i s d = Inr (r, d')"
    and row: "\<And>m. m \<in> set (xd_mandates d) \<Longrightarrow> unsigned_mandate i (xd_now d) m \<Longrightarrow> mandate_for agent m \<Longrightarrow>
      signed_by_owner h (m\<lparr>mr_signature := Some s\<rparr>)"
  shows "exec_ok h S d' \<and> exec_evolves d d'"
proof -
  let ?ms = "xd_mandates d" and ?g = "approved_row d agent i s"
  let ?p = "\<lambda>m. unsigned_mandate i (xd_now d) m \<and> mandate_for agent m"
  have sound: "mandate_sound h (xd_jobs d) m" if "m \<in> set ?ms" for m using exec_okD(1) [OF ok that] .
  have unsigned: "mr_approved m = None" if "m \<in> set ?ms" "mr_signature m = None" for m
    using sound [OF that(1)] that(2) by (simp add: mandate_sound_def)
  have same: "mr_agent (?g m) = mr_agent m" "mr_id (?g m) = mr_id m" for m by (simp_all add: approved_row_def)
  have force: "one_each in_force mr_agent (map ?g ?ms)"
  proof (cases "list_ex ?p ?ms")
    case False
    have "in_force m" if m: "m \<in> set ?ms" "in_force (?g m)" for m
      using False m by (auto simp: approved_row_def in_force_def list_ex_iff split: if_splits)
    then show ?thesis using exec_okD(3) [OF ok] same by (intro one_each_fewer)
  next
    case True
    then obtain n where n: "n \<in> set ?ms" "?p n" by (auto simp: list_ex_iff)
    have only: "?p m \<longleftrightarrow> m = n" if m: "m \<in> set ?ms" for m
      using by_key [OF exec_okD(2) [OF ok] m n(1)] n sound [OF m] sound [OF n(1)] same_uuid_lower
      by (auto simp: unsigned_mandate_def mandate_sound_def)
    have "in_force (?g m) \<longleftrightarrow> m = n \<or> (in_force m \<and> mr_agent m \<noteq> mr_agent n)" if m: "m \<in> set ?ms" for m
    proof -
      have "list_ex (unsigned_mandate i (xd_now d)) ?ms" using n by (auto simp: list_ex_iff)
      moreover have "mandate_for agent m \<longleftrightarrow> mr_agent m = mr_agent n"
        using in_force_agent n(2) sound [OF m] sound [OF n(1)] by (auto simp: mandate_sound_def)
      ultimately show ?thesis
        using only [OF m] n(2) by (auto simp: approved_row_def in_force_def unsigned_mandate_def)
    qed
    moreover have "distinct ?ms" using exec_okD(2) [OF ok] by (simp add: distinct_map)
    ultimately show ?thesis using exec_okD(3) [OF ok] same by (intro one_each_replaced)
  qed
  have "mandate_evolves m (?g m)" if "m \<in> set ?ms" for m
    using unsigned [OF that] by (auto simp: approved_row_def mandate_evolves_def unsigned_mandate_def in_force_def)
  moreover have "mandate_sound h (xd_jobs d) (?g m)" if "m \<in> set ?ms" for m
    using sound [OF that] row [OF that] mandate_sound_signed by (simp add: approved_row_def)
  ultimately show ?thesis
    using exec_okD(2) [OF ok] force same
    by (intro mandates_changed [OF ok approve_tx_rows [OF ok tx]]) (auto simp: rows_evolve_def comp_def)
qed

lemma approveMandate_safe: "exec_safe h S d (approveMandate h u address agent v)"
proof -
  have tx: "exec_safe h S d (transact (approve_tx agent i s) k)"
    if m: "exec_ok h S d0" "m \<in> set (xd_mandates d0)" "pending_mandate agent i m" "exec_evolves d0 d"
      and valid: "validateSignedMandate h (signed_json (sign_fields (mr_fields m) (mr_message m) s)) pin"
      and k: "\<And>d a. exec_safe h S d (k a)"
    for d d0 i s pin m and k :: "mandate_row option \<Rightarrow> (exec_db, mandate_view) session"
  proof (rule exec_evolution.transacted)
    fix d1 r d2 assume d1: "exec_ok h S d1" "exec_evolves d d1" "approve_tx agent i s d1 = Inr (r, d2)"
    have signed: "signed_by_owner h (n\<lparr>mr_signature := Some s\<rparr>)"
      if n: "n \<in> set (xd_mandates d1)" "unsigned_mandate i (xd_now d1) n" "mandate_for agent n" for n
    proof -
      have "mr_id n = mr_id m"
        using exec_okD(1) [OF d1(1) n(1)] exec_okD(1) [OF m(1,2)] n(2) m(3) same_uuid_lower
        by (auto simp: mandate_sound_def unsigned_mandate_def pending_mandate_def)
      then have "mandate_evolves m n"
        using seen_mandate [OF m(1,2) exec_evolution.trans [OF m(4) d1(2)] d1(1) n(1)] by simp
      then show ?thesis
        using validated_terms [OF valid] exec_okD(1) [OF d1(1) n(1)]
        by (simp add: signed_by_owner_def mandate_evolves_def mandate_sound_def)
    qed
    show "exec_ok h S d2 \<and> exec_evolves d1 d2 \<and> exec_safe h S d2 (k r)"
      using approve_tx_safe [OF d1(1,3)] signed k by blast
  qed
  show ?thesis
    unfolding approveMandate_def Let_def
    apply (rule safe_owned)
    apply (rule safe_lift)
    apply (rule safe_prod)
    apply (rule exec_evolution.queried)
    apply (rule exec_evolution.lifted)
    apply (rule exec_evolution.lifted)
    apply (rule exec_evolution.queried)
    apply (rule exec_evolution.needed)
    apply (rule tx)
         apply assumption
        apply (auto dest!: find_member split: option.splits intro!: quiet)
    done
qed

end
