(* ===== verification/RunLedger.thy ===== *)
theory RunLedger
  imports JobSafety
begin

text \<open>
  Every transaction on the runs keeps the invariant of \<open>JobSafety\<close>: the withdrawal of a mandate,
  the queueing of a run against the mandate's allowance, the claim by a runner, and the upload of a
  result that was checked against a job and a mandate read earlier.
\<close>

section \<open>Changed rows\<close>

lemma rows_evolve_map: "(\<And>x. x \<in> set xs \<Longrightarrow> E x (f x)) \<Longrightarrow> rows_evolve E xs (map f xs)"
  by (auto simp: rows_evolve_def)

lemma orders_kept: "rows_evolve order_evolves qs qs"
  by (rule rows_evolve_refl) (rule order_evolves_refl)

text \<open>A change of mandates and jobs row by row, with more claims.\<close>

lemma rows_changed:
  assumes ok: "exec_ok h S d" and core: "core d' = (xd_chain d, map f (xd_mandates d), map g (xd_jobs d), cs, xd_orders d)"
    and m: "\<And>m. m \<in> set (xd_mandates d) \<Longrightarrow>
      mandate_evolves m (f m) \<and> mandate_sound h (xd_jobs d) (f m) \<and> (in_force (f m) \<longrightarrow> in_force m)"
      "\<And>m. mr_agent (f m) = mr_agent m"
    and j: "\<And>j. j \<in> set (xd_jobs d) \<Longrightarrow> job_evolves j (g j) \<and> job_sound h (map f (xd_mandates d)) cs (g j)"
    and cs: "set (xd_claims d) \<subseteq> set cs" "distinct (map (\<lambda>c. (cr_network c, cr_transaction c)) cs)"
  shows "exec_ok h S d' \<and> exec_evolves d d'"
proof -
  have ids: "map mr_id (map f (xd_mandates d)) = map mr_id (xd_mandates d)"
    using m(1) by (auto simp: mandate_evolves_def)
  have jobs: "map jb_id (map g (xd_jobs d)) = map jb_id (xd_jobs d)"
    "map jb_mandate (map g (xd_jobs d)) = map jb_mandate (xd_jobs d)"
    "map (\<lambda>j. (jb_agent j, jb_key j)) (map g (xd_jobs d)) = map (\<lambda>j. (jb_agent j, jb_key j)) (xd_jobs d)"
    using j by (auto simp: job_evolves_def)
  have force: "one_each in_force mr_agent (map f (xd_mandates d))"
    using m exec_okD(3) [OF ok] by (intro one_each_fewer) auto
  have sound: "mandate_sound h (map g (xd_jobs d)) n" if "n \<in> set (map f (xd_mandates d))" for n
    using that m(1) unfolding mandate_sound_jobs [OF jobs(2)] by auto
  have "exec_ok h S d'"
    using core sound force j cs(2) exec_okD [OF ok] ids jobs
    unfolding exec_ok_def core_def answers_within_def by (simp del: map_map)
  moreover have "exec_evolves d d'"
    using core m(1) j cs(1) orders_kept unfolding exec_evolves_def core_def
    by (auto intro!: rows_evolve_map)
  ultimately show ?thesis by simp
qed

lemma jobs_changed:
  assumes ok: "exec_ok h S d" and core: "core d' = (xd_chain d, xd_mandates d, map g (xd_jobs d), cs, xd_orders d)"
    and j: "\<And>j. j \<in> set (xd_jobs d) \<Longrightarrow> job_evolves j (g j) \<and> job_sound h (xd_mandates d) cs (g j)"
    and cs: "set (xd_claims d) \<subseteq> set cs" "distinct (map (\<lambda>c. (cr_network c, cr_transaction c)) cs)"
  shows "exec_ok h S d' \<and> exec_evolves d d'"
  using assms exec_okD(1) [OF ok]
  by (intro rows_changed [where f = "\<lambda>m. m" and g = g and cs = cs]) (auto simp: mandate_evolves_refl)

section \<open>Withdrawal and claims\<close>

lemma job_stopped:
  assumes "job_sound h ms cs j" "jb_status j = JobQueued"
  shows "job_evolves j (j\<lparr>jb_status := JobBlocked, jb_updated := t\<rparr>) \<and>
    job_sound h ms cs (j\<lparr>jb_status := JobBlocked, jb_updated := t\<rparr>)"
  using assms by (auto simp: job_sound_def job_evolves_def)

lemma job_started:
  assumes "job_sound h ms cs j" "jb_status j = JobQueued"
  shows "job_evolves j (claimed_by runner t j) \<and> job_sound h ms cs (claimed_by runner t j)"
  using assms by (auto simp: job_sound_def job_evolves_def claimed_by_def)

lemma withdraw_tx_safe:
  assumes ok: "exec_ok h S d" and tx: "withdraw_tx agent d = Inr (a, d')"
  shows "exec_ok h S d' \<and> exec_evolves d d'"
proof -
  define f :: "mandate_row \<Rightarrow> mandate_row" where "f = (\<lambda>m. if mandate_for agent m \<and> mr_revoked m = None then m\<lparr>mr_revoked := Some (xd_now d)\<rparr> else m)"
  define g :: "job_row \<Rightarrow> job_row" where "g = (\<lambda>j. if same_uuid (jb_agent j) agent \<and> jb_status j = JobQueued
    then j\<lparr>jb_status := JobBlocked, jb_updated := xd_now d\<rparr> else j)"
  have m: "mandate_evolves m (f m) \<and> mandate_sound h (xd_jobs d) (f m) \<and> (in_force (f m) \<longrightarrow> in_force m)"
    if "m \<in> set (xd_mandates d)" for m
    using exec_okD(1) [OF ok that] by (simp add: f_def revoke_evolves mandate_evolves_refl in_force_def)
  have ev: "rows_evolve mandate_evolves (xd_mandates d) (map f (xd_mandates d))"
    using m by (intro rows_evolve_map) simp
  show ?thesis
  proof (rule rows_changed [OF ok, where f = f and g = g and cs = "xd_claims d"])
    show "core d' = (xd_chain d, map f (xd_mandates d), map g (xd_jobs d), xd_claims d, xd_orders d)"
      using tx by (auto simp: withdraw_tx_def core_def update_where_def f_def g_def)
    show "job_evolves j (g j) \<and> job_sound h (map f (xd_mandates d)) (xd_claims d) (g j)" if j: "j \<in> set (xd_jobs d)" for j
    proof -
      have "job_sound h (map f (xd_mandates d)) (xd_claims d) j"
        using job_sound_evolves [OF exec_okD(4) [OF ok j] ev subset_refl] .
      then show ?thesis using job_stopped by (simp add: g_def job_evolves_refl)
    qed
  qed (use m exec_okD(7) [OF ok] in \<open>simp_all add: f_def\<close>)
qed

lemma revokeMandate_safe: "exec_safe h S d (revokeMandate u agent)"
  unfolding revokeMandate_def
  by (intro safe_owned exec_evolution.transacted) (use withdraw_tx_safe in \<open>auto intro: safe_reply\<close>)

lemma first_of_member: "first_of rs = Some r \<Longrightarrow> r \<in> set rs"
  by (cases rs) (simp_all add: first_of_def)

lemma next_job_queued: "next_job d runner agent js = Some j \<Longrightarrow> j \<in> set js \<and> jb_status j = JobQueued"
  unfolding next_job_def by (auto split: if_splits dest!: first_of_member)

lemma claim_tx_safe:
  assumes ok: "exec_ok h S d" and tx: "claim_tx runner agent d = Inr (a, d')"
  shows "exec_ok h S d' \<and> exec_evolves d d'"
proof -
  let ?stop = "\<lambda>j. if stale_job d agent j then j\<lparr>jb_status := JobBlocked, jb_updated := xd_now d\<rparr> else j"
  define jobs where "jobs = map ?stop (xd_jobs d)"
  define started where "started = next_job d runner agent jobs"
  define g where "g = (\<lambda>j. let k = ?stop j in
    case started of None \<Rightarrow> k | Some s \<Rightarrow> if jb_id k = jb_id s then claimed_by runner (xd_now d) k else k)"
  have jobs: "jobs = update_where (stale_job d agent) (\<lambda>j. j\<lparr>jb_status := JobBlocked, jb_updated := xd_now d\<rparr>) (xd_jobs d)"
    by (simp add: jobs_def update_where_def)
  have "core d' = (xd_chain d, xd_mandates d, case started of None \<Rightarrow> jobs
      | Some s \<Rightarrow> update_where (\<lambda>j. jb_id j = jb_id s) (claimed_by runner (xd_now d)) jobs, xd_claims d, xd_orders d)"
    using tx unfolding claim_tx_def Let_def jobs [symmetric] started_def [symmetric] by (auto simp: core_def)
  moreover have "map g (xd_jobs d) = (case started of None \<Rightarrow> jobs
      | Some s \<Rightarrow> update_where (\<lambda>j. jb_id j = jb_id s) (claimed_by runner (xd_now d)) jobs)"
    unfolding g_def Let_def jobs_def update_where_def by (cases started) simp_all
  ultimately have core: "core d' = (xd_chain d, xd_mandates d, map g (xd_jobs d), xd_claims d, xd_orders d)" by simp
  have stop: "job_evolves j (?stop j) \<and> job_sound h (xd_mandates d) (xd_claims d) (?stop j)" if "j \<in> set (xd_jobs d)" for j
    using exec_okD(4) [OF ok that] job_stopped [OF exec_okD(4) [OF ok that]] by (simp add: stale_job_def job_evolves_refl)
  have ids: "map jb_id jobs = map jb_id (xd_jobs d)" by (simp add: jobs_def)
  have queued: "jb_status (?stop j) = JobQueued" if j: "j \<in> set (xd_jobs d)" "started = Some s" "jb_id (?stop j) = jb_id s" for j s
  proof -
    have s: "s \<in> set jobs" "jb_status s = JobQueued" using next_job_queued j(2) by (auto simp: started_def)
    have "?stop j \<in> set jobs" using j(1) by (auto simp: jobs_def)
    then have "?stop j = s" using by_key [of jb_id jobs "?stop j" s] exec_okD(5) [OF ok] ids s j(3) by simp
    then show ?thesis using s by simp
  qed
  show ?thesis
  proof (rule jobs_changed [OF ok core])
    fix j assume j: "j \<in> set (xd_jobs d)"
    show "job_evolves j (g j) \<and> job_sound h (xd_mandates d) (xd_claims d) (g j)"
    proof (cases "\<exists>s. started = Some s \<and> jb_id (?stop j) = jb_id s")
      case True
      then obtain s where s: "started = Some s" "jb_id (?stop j) = jb_id s" by blast
      then have "g j = claimed_by runner (xd_now d) (?stop j)" by (simp add: g_def)
      moreover note job_started [OF conjunct2 [OF stop [OF j]] queued [OF j s], of runner "xd_now d"]
      ultimately show ?thesis using job_evolves_trans [OF conjunct1 [OF stop [OF j]]] by simp
    next
      case False
      then have "g j = ?stop j" by (cases started) (simp_all add: g_def)
      then show ?thesis using stop [OF j] by simp
    qed
  qed (use exec_okD(7) [OF ok] in simp_all)
qed

lemma claimJob_safe: "exec_safe h S d (claimJob runner agent)"
  unfolding claimJob_def
  by (intro exec_evolution.transacted) (use claim_tx_safe in \<open>auto intro!: safe_prod quiet safe_option\<close>)

section \<open>Queueing\<close>

lemma runs_of_append: "runs_of m (js @ [j]) = runs_of m js @ (if jb_mandate j = mr_id m then [j] else [])"
  by (simp add: runs_of_def)

lemma mandate_sound_more:
  assumes "mandate_sound h js m" "jb_mandate j = mr_id m" "mr_reserved m < mr_maxRuns m"
  shows "mandate_sound h (js @ [j]) (m\<lparr>mr_reserved := mr_reserved m + 1\<rparr>)"
proof -
  have "runs_of (m\<lparr>mr_reserved := mr_reserved m + 1\<rparr>) (js @ [j]) = runs_of m js @ [j]"
    using assms(2) by (simp add: runs_of_def)
  moreover have "signed_by_owner h (m\<lparr>mr_reserved := mr_reserved m + 1\<rparr>) = signed_by_owner h m"
    by (cases "mr_signature m") (simp_all add: signed_by_owner_def)
  ultimately show ?thesis using assms(1,3) unfolding mandate_sound_def by (elim conjE) auto
qed

lemma mandate_sound_other: "jb_mandate j \<noteq> mr_id m \<Longrightarrow> mandate_sound h (js @ [j]) m = mandate_sound h js m"
  by (simp add: mandate_sound_def runs_of_append)

lemma queue_tx_new:
  assumes "queue_tx i agent repos key d = Inr (a, d')" "core d' \<noteq> core d"
  obtains m j where "find (agent_job agent key) (xd_jobs d) = None" "m \<in> set (xd_mandates d)" "usable_mandate agent repos d m"
    "j = \<lparr>jb_id = to_lower i, jb_agent = to_lower agent, jb_key = key, jb_status = JobQueued, jb_repos = repos,
       jb_mandate = mr_id m, jb_runner = None, jb_claimed = None, jb_result = None, jb_verification = None,
       jb_proofs = None, jb_created = xd_now d, jb_updated = xd_now d\<rparr>"
    "\<forall>q \<in> set (xd_jobs d). jb_id q \<noteq> jb_id j"
    "core d' = (xd_chain d, update_where (\<lambda>q. mr_id q = mr_id m) (\<lambda>q. q\<lparr>mr_reserved := mr_reserved q + 1\<rparr>) (xd_mandates d),
       xd_jobs d @ [j], xd_claims d, xd_orders d)"
proof -
  have old: "find (agent_job agent key) (xd_jobs d) = None"
    using assms by (cases "find (agent_job agent key) (xd_jobs d)") (simp_all add: queue_tx_def Let_def)
  obtain m where m: "find (usable_mandate agent repos d) (xd_mandates d) = Some m"
    using assms old by (cases "find (usable_mandate agent repos d) (xd_mandates d)") (simp_all add: queue_tx_def Let_def)
  show thesis
    using assms(1) find_member [OF m] unfolding queue_tx_def Let_def old m
    by (intro that [OF old, of m]) (auto simp: core_def list_ex_iff split: if_splits)
qed

text \<open>A run taken from the allowance of a mandate.\<close>

definition one_more :: "mandate_row \<Rightarrow> mandate_row \<Rightarrow> mandate_row" where
  "one_more m q = (if mr_id q = mr_id m then q\<lparr>mr_reserved := mr_reserved q + 1\<rparr> else q)"

lemma one_more_simps [simp]: "mr_id (one_more m q) = mr_id q" "mr_agent (one_more m q) = mr_agent q"
  "mr_fields (one_more m q) = mr_fields q" "mr_approved (one_more m q) = mr_approved q" "mr_revoked (one_more m q) = mr_revoked q"
  by (simp_all add: one_more_def)

lemma run_appended:
  assumes ok: "exec_ok h S d" and m: "m \<in> set (xd_mandates d)" "mr_reserved m < mr_maxRuns m" "jb_mandate j = mr_id m"
    and core: "core d' = (xd_chain d, map (one_more m) (xd_mandates d), xd_jobs d @ [j], xd_claims d, xd_orders d)"
    and j: "job_sound h (map (one_more m) (xd_mandates d)) (xd_claims d) j" "jb_id j \<notin> jb_id ` set (xd_jobs d)"
      "(jb_agent j, jb_key j) \<notin> (\<lambda>j. (jb_agent j, jb_key j)) ` set (xd_jobs d)"
  shows "exec_ok h S d' \<and> exec_evolves d d'"
proof -
  let ?ms = "map (one_more m) (xd_mandates d)"
  have sound: "mandate_sound h (xd_jobs d) q" if "q \<in> set (xd_mandates d)" for q using exec_okD(1) [OF ok that] .
  have "mandate_sound h (xd_jobs d @ [j]) (one_more m q)" if q: "q \<in> set (xd_mandates d)" for q
  proof (cases "mr_id q = mr_id m")
    case True
    then have "q = m" using by_key [OF exec_okD(2) [OF ok] q m(1)] by simp
    then show ?thesis using mandate_sound_more [OF sound [OF m(1)] m(3,2)] by (simp add: one_more_def)
  next
    case False
    then show ?thesis using sound [OF q] mandate_sound_other [of j q] m(3) by (simp add: one_more_def)
  qed
  then have ms: "\<forall>q \<in> set ?ms. mandate_sound h (xd_jobs d @ [j]) q" by simp
  have ev: "rows_evolve mandate_evolves (xd_mandates d) ?ms"
    by (intro rows_evolve_map) (simp add: mandate_evolves_def one_more_def)
  have "one_each in_force mr_agent ?ms"
    using exec_okD(3) [OF ok] by (intro one_each_fewer) (auto simp: in_force_def)
  moreover have "\<forall>q \<in> set (xd_jobs d @ [j]). job_sound h ?ms (xd_claims d) q"
    using j(1) job_sound_evolves [OF exec_okD(4) [OF ok] ev subset_refl] by auto
  moreover have "map mr_id ?ms = map mr_id (xd_mandates d)" by simp
  ultimately have "exec_ok h S d'"
    using core exec_okD(2,5-9) [OF ok] ms j(2,3) unfolding exec_ok_def core_def answers_within_def by (simp del: map_map)
  moreover have "exec_evolves d d'"
    using core ev orders_kept unfolding exec_evolves_def core_def
    by (auto intro!: rows_evolve_append rows_evolve_refl job_evolves_refl)
  ultimately show ?thesis by simp
qed

lemma queue_tx_safe:
  assumes ok: "exec_ok h S d" and tx: "queue_tx i agent repos key d = Inr (a, d')"
  shows "exec_ok h S d' \<and> exec_evolves d d'"
proof (cases "core d' = core d")
  case True
  then show ?thesis using same_core ok by blast
next
  case False
  obtain m j where new: "find (agent_job agent key) (xd_jobs d) = None"
    and m: "m \<in> set (xd_mandates d)" "usable_mandate agent repos d m"
    and j: "j = \<lparr>jb_id = to_lower i, jb_agent = to_lower agent, jb_key = key, jb_status = JobQueued, jb_repos = repos,
       jb_mandate = mr_id m, jb_runner = None, jb_claimed = None, jb_result = None, jb_verification = None,
       jb_proofs = None, jb_created = xd_now d, jb_updated = xd_now d\<rparr>"
      "\<forall>q \<in> set (xd_jobs d). jb_id q \<noteq> jb_id j"
    and core: "core d' = (xd_chain d, update_where (\<lambda>q. mr_id q = mr_id m) (\<lambda>q. q\<lparr>mr_reserved := mr_reserved q + 1\<rparr>) (xd_mandates d),
       xd_jobs d @ [j], xd_claims d, xd_orders d)"
    using queue_tx_new [OF tx False] .
  have "mr_agent m = to_lower agent"
    using m exec_okD(1) [OF ok m(1)] by (auto simp: usable_mandate_def mandate_for_def same_uuid_def mandate_sound_def)
  then have "job_sound h (map (one_more m) (xd_mandates d)) (xd_claims d) j"
    unfolding job_sound_def using m
    by (simp add: j(1) to_lower_idem usable_mandate_def active_mandate_def) (use m(1) in \<open>auto\<close>)
  moreover have "\<not> (jb_agent q = to_lower agent \<and> jb_key q = key)" if q: "q \<in> set (xd_jobs d)" for q
    using new exec_okD(4) [OF ok q] q by (auto simp: job_sound_def find_None_iff agent_job_def same_uuid_def)
  then have "(jb_agent j, jb_key j) \<notin> (\<lambda>j. (jb_agent j, jb_key j)) ` set (xd_jobs d)"
    by (force simp: j(1))
  ultimately show ?thesis
    using core j(2) m(2)
    by (intro run_appended [OF ok m(1)]) (auto simp: usable_mandate_def update_where_def one_more_def j(1))
qed

lemma queueRun_safe: "exec_safe h S d (queueRun fresh agent v key)"
  unfolding queueRun_def
  by (intro safe_lift safe_prod exec_evolution.transacted)
    (use queue_tx_safe in \<open>auto intro!: quiet split: option.split\<close>)

section \<open>Uploads\<close>

lemma claim_receipts_sound:
  "claim_receipts i ps cs = Inr cs' \<Longrightarrow> distinct (map (\<lambda>c. (cr_network c, cr_transaction c)) cs) \<Longrightarrow>
    distinct (map (\<lambda>c. (cr_network c, cr_transaction c)) cs') \<and> set cs \<subseteq> set cs' \<and> (\<forall>p \<in> set ps. claimed cs' i p)"
proof (induction ps arbitrary: cs)
  case (Cons p ps)
  let ?new = "\<lparr>cr_network = pr_network p, cr_transaction = receipt_tx p, cr_job = i\<rparr>"
  have "claim_receipts i ps (cs @ [?new]) = Inr cs'" "distinct (map (\<lambda>c. (cr_network c, cr_transaction c)) (cs @ [?new]))"
    using Cons.prems by (auto simp: list_ex_iff split: if_splits)
  from Cons.IH [OF this] show ?case by (auto simp: claimed_def)
qed auto

lemma seen_job:
  assumes "j0 \<in> set (xd_jobs d0)" "exec_evolves d0 d" "exec_ok h S d" "j \<in> set (xd_jobs d)" "jb_id j = jb_id j0"
  shows "job_evolves j0 j"
proof -
  obtain j' where j': "j' \<in> set (xd_jobs d)" "job_evolves j0 j'"
    using assms(1,2) by (auto simp: exec_evolves_def rows_evolve_def)
  moreover have "j' = j"
    using by_key [OF exec_okD(5) [OF assms(3)] j'(1) assms(4)] j'(2) assms(5) by (simp add: job_evolves_def)
  ultimately show ?thesis by simp
qed

lemma save_tx_rows:
  assumes "save_tx runner agent i r proofs d = Inr (a, d')"
  obtains cs P where "claim_receipts (to_lower i) (if proofs \<noteq> None \<and> list_ex (accepts_result runner agent i d) (xd_jobs d)
      then run_receipts r else []) (xd_claims d) = Inr cs" "\<forall>j. P j \<longrightarrow> accepts_result runner agent i d j"
    "core d' = (xd_chain d, xd_mandates d, map (\<lambda>j. if P j then
       j\<lparr>jb_verification := (case proofs of Some (_ # _) \<Rightarrow> Some ''chain-confirmed'' | _ \<Rightarrow> None), jb_proofs := proofs,
         jb_result := Some (runner_result_json r), jb_status := classifyRunnerStatus r proofs, jb_updated := xd_now d\<rparr>
       else j) (xd_jobs d), cs, xd_orders d)"
proof -
  let ?held = "accepts_result runner agent i d"
  define claiming where "claiming = (if proofs \<noteq> None \<and> list_ex ?held (xd_jobs d) then run_receipts r else [])"
  note tx = assms [unfolded save_tx_def Let_def claiming_def [symmetric]]
  obtain cs where cs: "claim_receipts (to_lower i) claiming (xd_claims d) = Inr cs"
    using tx unfolding bindR_def by (simp split: sum.splits)
  let ?taken = "list_ex (\<lambda>c. cr_transaction c \<in> receipt_tx ` set (run_receipts r) \<and> \<not> same_uuid (cr_job c) i) cs"
  show thesis
    by (rule that [OF cs [unfolded claiming_def], where P = "\<lambda>j. ?held j \<and> \<not> ?taken"])
      (use tx in \<open>auto simp: bindR_def cs core_def update_where_def split: sum.splits\<close>)
qed

lemma classify_final: "classifyRunnerStatus r proofs \<notin> {JobQueued, JobRunning}"
  by (simp add: classifyRunnerStatus_def)

lemma save_tx_safe:
  assumes ok: "exec_ok h S d" and tx: "save_tx runner agent i r proofs d = Inr (a, d')"
    and before: "exec_ok h S d0" "j0 \<in> set (xd_jobs d0)" "job_held runner agent i j0" "mandate_of d0 j0 = Some m0" "exec_evolves d0 d"
    and valid: "validateRunnerResult h v \<lparr>rj_id = i, rj_repos = jb_repos j0, rj_mandate = signed m0\<rparr> = Inr r"
  shows "exec_ok h S d' \<and> exec_evolves d d'"
proof -
  obtain cs P where claims: "claim_receipts (to_lower i) (if proofs \<noteq> None \<and> list_ex (accepts_result runner agent i d) (xd_jobs d)
      then run_receipts r else []) (xd_claims d) = Inr cs"
    and P: "\<forall>j. P j \<longrightarrow> accepts_result runner agent i d j"
    and core: "core d' = (xd_chain d, xd_mandates d, map (\<lambda>j. if P j then
       j\<lparr>jb_verification := (case proofs of Some (_ # _) \<Rightarrow> Some ''chain-confirmed'' | _ \<Rightarrow> None), jb_proofs := proofs,
         jb_result := Some (runner_result_json r), jb_status := classifyRunnerStatus r proofs, jb_updated := xd_now d\<rparr>
       else j) (xd_jobs d), cs, xd_orders d)"
    using save_tx_rows [OF tx] .
  note cs = claim_receipts_sound [OF claims exec_okD(7) [OF ok]]
  show ?thesis
  proof (rule jobs_changed [OF ok core], goal_cases)
    case (1 j)
    let ?j = "j\<lparr>jb_verification := (case proofs of Some (_ # _) \<Rightarrow> Some ''chain-confirmed'' | _ \<Rightarrow> None), jb_proofs := proofs,
         jb_result := Some (runner_result_json r), jb_status := classifyRunnerStatus r proofs, jb_updated := xd_now d\<rparr>"
    have js: "job_sound h (xd_mandates d) cs j"
      using job_sound_evolves [OF exec_okD(4) [OF ok 1] _ conjunct1 [OF conjunct2 [OF cs]]]
      by (simp add: rows_evolve_refl mandate_evolves_refl)
    show ?case
    proof (cases "P j")
      case True
      have acc: "accepts_result runner agent i d j" using P True by blast
      then have running: "jb_status j = JobRunning" "jb_result j = None" "jb_runner j \<noteq> None"
        by (auto simp: accepts_result_def job_held_def split: option.splits)
      have "to_lower (jb_id j0) = jb_id j0" "to_lower (jb_id j) = jb_id j"
        using exec_okD(4) [OF before(1,2)] js by (simp_all add: job_sound_def)
      then have i: "jb_id j = to_lower i" "jb_id j0 = to_lower i"
        using acc before(3) by (auto simp: accepts_result_def job_held_def same_uuid_def)
      then have seen: "job_evolves j0 j" using seen_job [OF before(2,5) ok 1] by simp
      obtain m where m: "m \<in> set (xd_mandates d)" "mr_id m = jb_mandate j" "mr_agent m = jb_agent j" "mr_approved m \<noteq> None"
        "set (jb_repos j) \<subseteq> set (mf_repos (mr_fields m))" using js by (auto simp: job_sound_def)
      obtain m1 where m1: "m1 \<in> set (xd_mandates d0)" "mr_id m1 = jb_mandate j0" "mr_approved m1 \<noteq> None"
        using exec_okD(4) [OF before(1,2)] by (auto simp: job_sound_def)
      have m0: "m0 \<in> set (xd_mandates d0)" "mr_id m0 = jb_mandate j0"
        using find_member [OF before(4) [unfolded mandate_of_def]] by simp_all
      have "m1 = m0" using by_key [OF exec_okD(2) [OF before(1)] m1(1) m0(1)] m1(2) m0(2) by simp
      moreover have "mandate_evolves m0 m"
        using seen_mandate [OF before(1) m0(1) before(5) ok m(1)] m(2) m0(2) seen by (simp add: job_evolves_def)
      ultimately have "signed m = signed m0" using m1(3) by (auto simp: mandate_evolves_def signed_def)
      moreover have "jb_repos j = jb_repos j0" using seen by (simp add: job_evolves_def)
      ultimately have vr: "validateRunnerResult h v \<lparr>rj_id = i, rj_repos = jb_repos j, rj_mandate = signed m\<rparr> = Inr r"
        using valid by simp
      have same: "same_uuid (jb_id j) i" using i(1) by (simp add: same_uuid_def to_lower_idem)
      have paid: "proofs \<noteq> None \<longrightarrow> (\<forall>p \<in> set (run_receipts r). claimed cs (jb_id j) p)"
        using cs acc 1 i(1) by (auto simp: list_ex_iff)
      have "recorded h cs m ?j (runner_result_json r)"
        unfolding recorded_def using vr same paid by (intro exI [of _ v] exI [of _ i] exI [of _ r]) simp
      then have "job_sound h (xd_mandates d) cs ?j"
        using js m running classify_final [of r proofs] unfolding job_sound_def by auto
      moreover have "job_evolves j ?j" using running classify_final [of r proofs] by (simp add: job_evolves_def)
      ultimately show ?thesis using True by simp
    qed (use js in \<open>simp add: job_evolves_refl\<close>)
  qed (use cs in simp_all)
qed

lemma settlement_proofs_safe: "exec_safe h S d (settlement_proofs h i c r m v ps)"
  by (induction ps arbitrary: d)
    (auto simp: hedera_proof_def arc_proof_def intro!: quiet safe_answer safe_prod)

lemma saveRunnerResult_safe: "exec_safe h S d (saveRunnerResult h runner agent i v)"
proof -
  have settled: "exec_safe h S d (verifyHostedSettlement h i c r m)" for d c r m
    unfolding verifyHostedSettlement_def by (intro safe_option safe_reply safe_answer settlement_proofs_safe)
  have tx: "exec_safe h S d (transact (save_tx runner agent i r proofs) k)"
    if before: "exec_ok h S d0" "held_job runner agent i d0 = Some (j0, m0)" "exec_evolves d0 d"
      and valid: "validateRunnerResult h u \<lparr>rj_id = i, rj_repos = jb_repos j0, rj_mandate = signed m0\<rparr> = Inr r"
      and k: "\<And>d a. exec_safe h S d (k a)"
    for d d0 j0 m0 u r proofs and k :: "job_row option \<Rightarrow> (exec_db, job_view) session"
  proof (rule exec_evolution.transacted)
    fix d1 a d2 assume d1: "exec_ok h S d1" "exec_evolves d d1" "save_tx runner agent i r proofs d1 = Inr (a, d2)"
    have "j0 \<in> set (xd_jobs d0)" "job_held runner agent i j0" "mandate_of d0 j0 = Some m0"
      using before(2) by (auto simp: held_job_def bind_eq_Some_conv dest: find_member)
    from save_tx_safe [OF d1(1,3) before(1) this exec_evolution.trans [OF before(3) d1(2)] valid]
    show "exec_ok h S d2 \<and> exec_evolves d1 d2 \<and> exec_safe h S d2 (k a)" using k by blast
  qed
  show ?thesis
    unfolding saveRunnerResult_def
    apply (intro safe_need)
    apply (rule exec_evolution.queried)
    apply (rule exec_evolution.lifted)
    apply (simp only: split_paired_all prod.case)
    apply (rule exec_evolution.lifted)
    apply (rule exec_evolution.bound [OF settled])
    apply (rule exec_evolution.lifted)
    apply (rule tx)
        apply assumption
    apply (auto split: option.splits intro!: quiet safe_prod)
    done
qed

end
