(* ===== verification/MarketSafety.thy ===== *)
theory MarketSafety
  imports RunLedger
begin

text \<open>
  The orders of the verification market keep the invariant of \<open>JobSafety\<close>: an order is paid only
  on a transfer the chain shows, each transfer pays one order, and a delivered order is final. With
  every request covered, the hosted platform is interpreted as a pool of sessions, and the
  guarantees to owners are read off: what a mandate's runs may spend, which payments count, and
  which records never change.
\<close>

section \<open>Changed orders\<close>

lemma orders_changed:
  assumes ok: "exec_ok h S d" and core: "core d' = (xd_chain d, xd_mandates d, xd_jobs d, xd_claims d, qs)"
    and qs: "orders_sound S qs" "rows_evolve order_evolves (xd_orders d) qs"
  shows "exec_ok h S d' \<and> exec_evolves d d'"
  using assms exec_okD [OF ok] unfolding exec_ok_def exec_evolves_def core_def answers_within_def
  by (auto intro: rows_evolve_refl mandate_evolves_refl job_evolves_refl)

lemma distinct_map_filter:
  "distinct xs \<Longrightarrow> distinct (List.map_filter f xs) \<longleftrightarrow>
    (\<forall>x \<in> set xs. \<forall>y \<in> set xs. f x \<noteq> None \<longrightarrow> f x = f y \<longrightarrow> x = y)"
proof (induction xs)
  case (Cons a xs)
  have "x \<in> set (List.map_filter f xs) \<longleftrightarrow> (\<exists>b \<in> set xs. f b = Some x)" for x
    by (force simp: List.map_filter_def)
  then show ?case using Cons by (cases "f a") (auto simp: List.map_filter_simps)
qed (simp add: List.map_filter_def)

lemma orders_soundD:
  assumes "orders_sound S qs"
  shows "\<And>q. q \<in> set qs \<Longrightarrow> order_sound S q" "\<And>q. q \<in> set qs \<Longrightarrow> to_lower (mo_id q) = mo_id q" "distinct (map mo_id qs)"
    "distinct (map mo_job qs)" "distinct (map mo_dataTx qs)" "distinct (map mo_dataSource qs)" "distinct (paid_hashes qs)"
  using assms by (simp_all add: orders_sound_def)

text \<open>Orders changed row by row; the paid transfers stay distinct.\<close>

lemma orders_mapped:
  assumes ok: "exec_ok h S d" and core: "core d' = (xd_chain d, xd_mandates d, xd_jobs d, xd_claims d, map g (xd_orders d))"
    and g: "\<And>q. q \<in> set (xd_orders d) \<Longrightarrow> order_evolves q (g q) \<and> order_sound S (g q)"
    and hashes: "distinct (paid_hashes (map g (xd_orders d)))"
  shows "exec_ok h S d' \<and> exec_evolves d d'"
proof (rule orders_changed [OF ok core])
  note qs = orders_soundD [OF exec_okD(8) [OF ok]]
  have terms: "order_terms (g q) = order_terms q" if "q \<in> set (xd_orders d)" for q
    using g [OF that] by (simp add: order_evolves_def)
  then have "map mo_id (map g (xd_orders d)) = map mo_id (xd_orders d)"
    "map mo_job (map g (xd_orders d)) = map mo_job (xd_orders d)"
    "map mo_dataTx (map g (xd_orders d)) = map mo_dataTx (xd_orders d)"
    "map mo_dataSource (map g (xd_orders d)) = map mo_dataSource (xd_orders d)"
    by (auto simp: order_terms_def)
  then show "orders_sound S (map g (xd_orders d))"
    using qs g hashes terms unfolding orders_sound_def by (simp del: map_map) (auto simp: order_terms_def)
  show "rows_evolve order_evolves (xd_orders d) (map g (xd_orders d))"
    using g by (intro rows_evolve_map) blast
qed

lemma paid_hashes_same: "(\<And>q. q \<in> set qs \<Longrightarrow> mo_hash (g q) = mo_hash q) \<Longrightarrow> paid_hashes (map g qs) = paid_hashes qs"
  unfolding paid_hashes_def List.map_filter_def by (induction qs) auto

lemma orders_updated:
  assumes ok: "exec_ok h S d" and core: "core d' = (xd_chain d, xd_mandates d, xd_jobs d, xd_claims d, update_where p f (xd_orders d))"
    and f: "\<And>q. q \<in> set (xd_orders d) \<Longrightarrow> p q \<Longrightarrow> order_sound S q \<Longrightarrow>
      order_evolves q (f q) \<and> order_sound S (f q) \<and> mo_hash (f q) = mo_hash q"
  shows "exec_ok h S d' \<and> exec_evolves d d'"
proof (rule orders_mapped [OF ok, where g = "\<lambda>q. if p q then f q else q"])
  note qs = orders_soundD [OF exec_okD(8) [OF ok]]
  show "core d' = (xd_chain d, xd_mandates d, xd_jobs d, xd_claims d, map (\<lambda>q. if p q then f q else q) (xd_orders d))"
    using core by (simp add: update_where_def)
  show "order_evolves q (if p q then f q else q) \<and> order_sound S (if p q then f q else q)" if "q \<in> set (xd_orders d)" for q
    using that f qs(1) order_evolves_refl by simp
  have "paid_hashes (map (\<lambda>q. if p q then f q else q) (xd_orders d)) = paid_hashes (xd_orders d)"
    using f qs(1) by (intro paid_hashes_same) simp
  then show "distinct (paid_hashes (map (\<lambda>q. if p q then f q else q) (xd_orders d)))" using qs(7) by simp
qed

section \<open>Transactions on orders\<close>

lemma transfer_of_terms:
  assumes "order_terms q = order_terms o1"
  shows "assertMarketTransfer p q = assertMarketTransfer p o1" "transfer_proof t q p = transfer_proof t o1 p"
  using assms by (simp_all add: order_terms_def assertMarketTransfer_def transfer_proof_def)

lemma order_sound_same:
  assumes t: "order_terms q = order_terms o1"
    and "(mo_status q, mo_hash q, mo_proof q, mo_checks q) = (mo_status o1, mo_hash o1, mo_proof o1, mo_checks o1)"
  shows "order_sound S q = order_sound S o1"
  using assms(2) unfolding order_sound_def transfer_of_terms [OF t] by simp

lemma insert_order_rows:
  assumes "insert_order i runner v digest s source e d = Inr (a, d')" "core d' \<noteq> core d"
  obtains q where "core d' = (xd_chain d, xd_mandates d, xd_jobs d, xd_claims d, xd_orders d @ [q])" "mo_status q = OrderQuoted"
    "mo_hash q = None" "mo_checks q = None" "to_lower (mo_id q) = mo_id q"
    "\<forall>o1 \<in> set (xd_orders d). mo_id o1 \<noteq> mo_id q \<and> mo_job o1 \<noteq> mo_job q \<and> mo_dataTx o1 \<noteq> mo_dataTx q \<and>
      mo_dataSource o1 \<noteq> mo_dataSource q"
  using assms unfolding insert_order_def Let_def
  by (auto simp: core_def list_ex_iff to_lower_idem split: option.splits if_splits)

lemma insert_order_safe:
  assumes ok: "exec_ok h S d" and tx: "insert_order i runner v digest s source e d = Inr (a, d')"
  shows "exec_ok h S d' \<and> exec_evolves d d'"
proof (cases "core d' = core d")
  case True
  then show ?thesis using same_core ok by blast
next
  case False
  note qs = orders_soundD [OF exec_okD(8) [OF ok]]
  obtain q where q: "core d' = (xd_chain d, xd_mandates d, xd_jobs d, xd_claims d, xd_orders d @ [q])" "mo_status q = OrderQuoted"
    "mo_hash q = None" "mo_checks q = None" "to_lower (mo_id q) = mo_id q"
    "\<forall>o1 \<in> set (xd_orders d). mo_id o1 \<noteq> mo_id q \<and> mo_job o1 \<noteq> mo_job q \<and> mo_dataTx o1 \<noteq> mo_dataTx q \<and>
      mo_dataSource o1 \<noteq> mo_dataSource q"
    using insert_order_rows [OF tx False] .
  show ?thesis
  proof (rule orders_changed [OF ok q(1)])
    have "paid_hashes (xd_orders d @ [q]) = paid_hashes (xd_orders d)"
      using q(3) by (simp add: paid_hashes_def List.map_filter_def)
    moreover have "order_sound S q" using q(2-4) by (simp add: order_sound_def)
    ultimately show "orders_sound S (xd_orders d @ [q])"
      using qs q(5,6) unfolding orders_sound_def by auto
    show "rows_evolve order_evolves (xd_orders d) (xd_orders d @ [q])"
      by (intro rows_evolve_append orders_kept)
  qed
qed

lemma lease_order_safe:
  assumes ok: "exec_ok h S d" and tx: "lease_order sc token i d = Inr (a, d')"
  shows "exec_ok h S d' \<and> exec_evolves d d'"
proof -
  obtain p f where core: "core d' = (xd_chain d, xd_mandates d, xd_jobs d, xd_claims d, update_where p f (xd_orders d))"
    and f: "\<forall>q. order_terms (f q) = order_terms q \<and> mo_status (f q) = mo_status q \<and> mo_hash (f q) = mo_hash q \<and>
      mo_proof (f q) = mo_proof q \<and> mo_checks (f q) = mo_checks q" "\<forall>q. p q \<longrightarrow> mo_status q = OrderPaidFor"
    using tx unfolding lease_order_def Let_def by (auto simp: core_def order_terms_def intro: that)
  show ?thesis
  proof (rule orders_updated [OF ok core])
    fix q assume q: "p q" "order_sound S q"
    have "order_sound S (f q) = order_sound S q" using f(1) by (intro order_sound_same) simp_all
    then show "order_evolves q (f q) \<and> order_sound S (f q) \<and> mo_hash (f q) = mo_hash q"
      using q f by (simp add: order_evolves_def)
  qed
qed

lemma complete_order_safe:
  assumes ok: "exec_ok h S d" and tx: "complete_order i token cs d = Inr (a, d')"
  shows "exec_ok h S d' \<and> exec_evolves d d'"
proof (cases "list_all no_nul cs")
  case False
  then show ?thesis using tx ok exec_evolution.refl by (auto simp: complete_order_def)
next
  case True
  let ?f = "\<lambda>q. q\<lparr>mo_checks := Some cs, mo_status := OrderFulfilled, mo_token := None, mo_lease := None, mo_error := None\<rparr>"
  have core: "core d' = (xd_chain d, xd_mandates d, xd_jobs d, xd_claims d, update_where (leased i token) ?f (xd_orders d))"
    using tx True by (auto simp: complete_order_def core_def Let_def)
  show ?thesis
    by (rule orders_updated [OF ok core])
      (auto simp: order_evolves_def order_sound_def order_terms_def leased_def transfer_proof_def assertMarketTransfer_def)
qed

lemma record_failure_safe:
  assumes ok: "exec_ok h S d" and tx: "record_failure i token d = Inr (a, d')"
  shows "exec_ok h S d' \<and> exec_evolves d d'"
proof -
  let ?f = "\<lambda>q. q\<lparr>mo_error := Some delivery_failed, mo_token := None, mo_lease := None\<rparr>"
  have core: "core d' = (xd_chain d, xd_mandates d, xd_jobs d, xd_claims d, update_where (leased i token) ?f (xd_orders d))"
    using tx by (auto simp: record_failure_def core_def)
  show ?thesis
    by (rule orders_updated [OF ok core])
      (auto simp: order_evolves_def order_sound_def order_terms_def leased_def transfer_proof_def assertMarketTransfer_def)
qed

section \<open>Payments\<close>

lemma seen_order:
  assumes "o1 \<in> set (xd_orders d0)" "exec_evolves d0 d" "exec_ok h S d" "q \<in> set (xd_orders d)" "mo_id q = mo_id o1"
  shows "order_terms q = order_terms o1"
proof -
  obtain q' where q': "q' \<in> set (xd_orders d)" "order_evolves o1 q'"
    using assms(1,2) by (auto simp: exec_evolves_def rows_evolve_def)
  moreover have "q' = q"
    using by_key [OF orders_soundD(3) [OF exec_okD(8) [OF assms(3)]] q'(1) assms(4)] q'(2) assms(5)
    by (simp add: order_evolves_def order_terms_def)
  ultimately show ?thesis by (simp add: order_evolves_def)
qed

lemma distinct_paid:
  assumes "distinct (map mo_id qs)" "distinct (paid_hashes qs)" "\<forall>q \<in> set qs. mo_hash q \<noteq> Some t"
    "\<And>q. q \<in> set qs \<Longrightarrow> p q \<Longrightarrow> q = o1" "\<And>q. mo_hash (f q) = Some t"
    "\<And>q. mo_id (f q) = mo_id q"
  shows "distinct (paid_hashes (map (\<lambda>q. if p q then f q else q) qs))"
proof -
  let ?g = "\<lambda>q. if p q then f q else q"
  have ids: "distinct (map mo_id (map ?g qs))" using assms(1,6) by (simp add: comp_def if_distrib cong: if_cong)
  have "distinct qs" using assms(1) by (simp add: distinct_map)
  then have old: "x = y" if "x \<in> set qs" "y \<in> set qs" "mo_hash x \<noteq> None" "mo_hash x = mo_hash y" for x y
    using assms(2) that unfolding paid_hashes_def by (simp add: distinct_map_filter)
  have "?g x = ?g y" if x: "x \<in> set qs" and y: "y \<in> set qs" and e: "mo_hash (?g x) \<noteq> None" "mo_hash (?g x) = mo_hash (?g y)" for x y
  proof (cases "p x"; cases "p y")
    assume "p x" "p y"
    then show ?thesis using assms(4) [OF x] assms(4) [OF y] by simp
  next
    assume "\<not> p x" "\<not> p y"
    then show ?thesis using old [OF x y] e by simp
  next
    assume "p x" "\<not> p y"
    then show ?thesis using assms(3,5) y e(2) by auto
  next
    assume "\<not> p x" "p y"
    then show ?thesis using assms(3,5) x e(2) by auto
  qed
  then have "\<forall>x \<in> set (map ?g qs). \<forall>y \<in> set (map ?g qs). mo_hash x \<noteq> None \<longrightarrow> mo_hash x = mo_hash y \<longrightarrow> x = y"
    unfolding set_map by blast
  then show ?thesis
    using distinct_map_filter [of "map ?g qs" mo_hash] ids distinct_map [of mo_id "map ?g qs"] unfolding paid_hashes_def by blast
qed

lemma pay_quoted_safe:
  assumes ok: "exec_ok h S d" and tx: "pay_quoted runner i t proof1 d = Inr (a, d')"
    and before: "exec_ok h S d0" "o1 \<in> set (xd_orders d0)" "same_uuid (mo_id o1) i" "exec_evolves d0 d"
    and shown: "assertMarketTransfer p o1 = Inr ()" "proof1 = transfer_proof t o1 p" "(t, p) \<in> S"
  shows "exec_ok h S d' \<and> exec_evolves d d'"
proof -
  let ?p = "\<lambda>q. same_uuid (mo_id q) i \<and> mo_status q = OrderQuoted \<and> live_runner d runner"
  let ?f = "\<lambda>q. q\<lparr>mo_hash := Some t, mo_proof := Some proof1, mo_status := OrderPaidFor\<rparr>"
  let ?g = "\<lambda>q. if ?p q then ?f q else q"
  note qs = orders_soundD [OF exec_okD(8) [OF ok]]
  have core: "core d' = (xd_chain d, xd_mandates d, xd_jobs d, xd_claims d, map ?g (xd_orders d))"
    and unused: "list_ex ?p (xd_orders d) \<longrightarrow> \<not> list_ex (\<lambda>q. mo_hash q = Some t) (xd_orders d)"
    using tx unfolding pay_quoted_def Let_def by (auto simp: core_def update_where_def split: if_splits)
  have id: "mo_id q = mo_id o1" if "q \<in> set (xd_orders d)" "?p q" for q
    using that before(3) qs(2) orders_soundD(2) [OF exec_okD(8) [OF before(1)] before(2)] same_uuid_lower by blast
  show ?thesis
  proof (rule orders_mapped [OF ok core])
    show "order_evolves q (?g q) \<and> order_sound S (?g q)" if q: "q \<in> set (xd_orders d)" for q
    proof (cases "?p q")
      case True
      have t: "order_terms q = order_terms o1" using seen_order [OF before(2,4) ok q id [OF q True]] .
      have "order_terms (?f q) = order_terms q" by (simp add: order_terms_def)
      then have "assertMarketTransfer p (?f q) = Inr ()" "proof1 = transfer_proof t (?f q) p"
        using shown transfer_of_terms [of "?f q" o1] t by simp_all
      then have "order_sound S (?f q)"
        using qs(1) [OF q] True shown(3) by (auto simp: order_sound_def)
      then show ?thesis using True by (simp add: order_evolves_def order_terms_def)
    next
      case False
      then have "?g q = q" by auto
      then show ?thesis using qs(1) [OF q] order_evolves_refl by simp
    qed
    show "distinct (paid_hashes (map ?g (xd_orders d)))"
    proof (cases "list_ex ?p (xd_orders d)")
      case True
      then obtain o2 where o2: "o2 \<in> set (xd_orders d)" "?p o2" by (auto simp: list_ex_iff)
      have only: "q = o2" if "q \<in> set (xd_orders d)" "?p q" for q
        using by_key [OF qs(3) that(1) o2(1)] id [OF that] id [OF o2] by simp
      show ?thesis
        by (rule distinct_paid [OF qs(3,7) _ only]) (use unused True in \<open>simp_all add: list_ex_iff\<close>)
    next
      case False
      then have "map ?g (xd_orders d) = xd_orders d" by (intro map_idI) (auto simp: list_ex_iff)
      then show ?thesis using qs(7) by simp
    qed
  qed
qed

section \<open>Market requests\<close>

lemma show_order_safe: "exec_safe h S d (show_order q)"
  unfolding show_order_def by (intro quiet)

lemma getMarketOrder_safe:
  assumes "\<And>d q. exec_ok h S d \<Longrightarrow> q \<in> set (xd_orders d) \<Longrightarrow> same_uuid (mo_id q) i \<Longrightarrow> exec_safe h S d (k q)"
  shows "exec_safe h S d (getMarketOrder i sc k)"
  unfolding getMarketOrder_def
  by (intro safe_need exec_evolution.queried exec_evolution.lifted assms) (auto split: option.splits dest: find_member)

lemma new_order_safe: "exec_safe h S d (new_order h fresh runner v digest j m selected)"
proof -
  have tx: "exec_safe h S d (transact (insert_order fresh runner v digest selected source e) k)"
    if "\<And>d a. exec_safe h S d (k a)" for d source e and k :: "market_order option \<Rightarrow> (exec_db, market_order_view) session"
    by (rule exec_evolution.transacted) (use insert_order_safe that in blast)
  show ?thesis
    unfolding new_order_def by (intro quiet safe_prod tx safe_option show_order_safe)
qed

lemma createMarketOrder_safe: "exec_safe h S d (createMarketOrder h fresh runner agent v)"
  unfolding createMarketOrder_def Let_def
  by (intro quiet safe_prod safe_option getMarketOrder_safe show_order_safe getVerificationService_safe new_order_safe)

lemma verifier_answer_safe: "exec_safe h S d (verifier_answer h q)"
  unfolding verifier_answer_def requestRemoteVerification_def Let_def
  by (intro safe_option quiet safe_prod safe_if)

lemma deliverPaidMarketOrder_safe: "exec_safe h S d (deliverPaidMarketOrder h token sc row)"
proof -
  have lease: "exec_safe h S d (transact (lease_order sc token i) k)" if "\<And>d a. exec_safe h S d (k a)"
    for d i and k :: "market_order option \<Rightarrow> (exec_db, market_order_view) session"
    by (rule exec_evolution.transacted) (use lease_order_safe that in blast)
  have complete: "exec_safe h S d (transact (complete_order i token cs) k)" if "\<And>d a. exec_safe h S d (k a)"
    for d i cs and k :: "market_order option res \<Rightarrow> (exec_db, market_order_view) session"
    by (rule exec_evolution.transacted) (use complete_order_safe that in blast)
  have failed: "exec_safe h S d (transact (record_failure i token) k)" if "\<And>d a. exec_safe h S d (k a)"
    for d i and k :: "unit \<Rightarrow> (exec_db, market_order_view) session"
    by (rule exec_evolution.transacted) (use record_failure_safe that in blast)
  have sum: "exec_safe h S d (case r of Inl e \<Rightarrow> f e | Inr a \<Rightarrow> g a)"
    if "\<And>e. exec_safe h S d (f e)" "\<And>a. exec_safe h S d (g a)" for d and r :: "'a res" and f g
    using that by (cases r) simp_all
  show ?thesis
    unfolding deliverPaidMarketOrder_def Let_def
    by (intro lease complete failed safe_option sum safe_bindS verifier_answer_safe getMarketOrder_safe safe_if
        show_order_safe safe_reply)
qed

lemma paid_row_safe:
  fixes k :: "market_order \<Rightarrow> (exec_db, 'r) session"
  assumes "exec_ok h S d0" "row \<in> set (xd_orders d0)" "same_uuid (mo_id row) i" "exec_evolves d0 d"
    and k: "\<And>d q. exec_safe h S d (k q)"
  shows "exec_safe h S d (paid_row runner agent i tx row k)"
proof -
  have pay: "exec_safe h S d1 (transact (pay_quoted runner i tx (transfer_proof tx row p)) f)"
    if "exec_evolves d0 d1" "assertMarketTransfer p row = Inr ()" "(tx, p) \<in> S" "\<And>d a. exec_safe h S d (f a)"
    for d1 p and f :: "market_order option \<Rightarrow> (exec_db, 'r) session"
  proof (rule exec_evolution.transacted)
    fix d2 a d3 assume d2: "exec_ok h S d2" "exec_evolves d1 d2" "pay_quoted runner i tx (transfer_proof tx row p) d2 = Inr (a, d3)"
    show "exec_ok h S d3 \<and> exec_evolves d2 d3 \<and> exec_safe h S d3 (f a)"
      using pay_quoted_safe [OF d2(1,3) assms(1-3) exec_evolution.trans [OF that(1) d2(2)] that(2) refl that(3)] that(4) by blast
  qed
  have verified: "exec_safe h S d (verifyMarketTransfer tx row (\<lambda>proof. transact (pay_quoted runner i tx proof) f))"
    if "\<And>d a. exec_safe h S d (f a)" for f :: "market_order option \<Rightarrow> (exec_db, 'r) session"
    unfolding verifyMarketTransfer_def
    by (intro exec_evolution.queried exec_evolution.lifted pay that)
      (use exec_evolution.trans [OF assms(4)] exec_okD(9) in \<open>auto simp: answers_within_def\<close>)
  show ?thesis
    unfolding paid_row_def by (intro safe_if k exec_evolution.lifted verified safe_option getMarketOrder_safe)
qed

lemma confirmMarketOrder_safe: "exec_safe h S d (confirmMarketOrder h token runner agent i v)"
  unfolding confirmMarketOrder_def
  by (intro safe_lift getMarketOrder_safe safe_need safe_if show_order_safe paid_row_safe deliverPaidMarketOrder_safe)
    (assumption | rule exec_evolution.refl)+

lemma retryMarketDelivery_safe: "exec_safe h S d (retryMarketDelivery h token u i)"
  unfolding retryMarketDelivery_def
  by (intro getMarketOrder_safe safe_if show_order_safe safe_need deliverPaidMarketOrder_safe)

section \<open>The platform\<close>

lemma exec_api_safe: "exec_safe h S d (exec_api h y q)"
  by (cases q)
    (simp_all, (intro safe_silent safe_user as_runner_safe safe_owned quiet issueChallenge_safe redeemChallenge_safe
      revokeSession_safe createAgent_safe issueAgentKey_safe revokeAgentKey_safe pairRunner_safe revokeRunner_safe
      prepareMandate_safe approveMandate_safe revokeMandate_safe queueRun_safe authenticateAgentKey_safe claimJob_safe
      saveRunnerResult_safe authorizeRunnerJob_safe createMarketService_safe updateMarketService_safe
      createMarketOrder_safe confirmMarketOrder_safe retryMarketDelivery_safe)+)

lemma empty_exec_ok: "answers_within S d \<Longrightarrow> exec_ok h S (empty_exec d)"
  by (simp add: exec_ok_def empty_exec_def one_each_def orders_sound_def paid_hashes_def List.map_filter_def answers_within_def)

text \<open>The changes outside the requests, as far as the chain's answers stay among \<open>S\<close>.\<close>

definition world_within :: "(string \<times> chain_answer) set \<Rightarrow> exec_db \<Rightarrow> exec_db \<Rightarrow> exec_db" where
  "world_within S w d = (if answers_within S w then exec_world w d else d)"

interpretation exec_platform: platform "exec_ok h S" exec_evolves "exec_api h y" "world_within S" "\<lambda>_. True" for h y S
proof
  show "guaranteed (exec_ok h S) exec_evolves (\<lambda>_. True) d (exec_api h y q)" for d q by (rule exec_api_safe)
  show "exec_ok h S (world_within S w d) \<and> exec_evolves d (world_within S w d)" if ok: "exec_ok h S d" for w d
  proof (cases "answers_within S w")
    case True
    then show ?thesis
      using exec_okD [OF ok] unfolding world_within_def exec_ok_def exec_evolves_def answers_within_def
      by (simp add: exec_world_def rows_evolve_refl mandate_evolves_refl job_evolves_refl order_evolves_refl)
  qed (simp add: world_within_def ok exec_evolution.refl)
qed

lemma world_within_run:
  assumes "\<And>w. World w \<in> set es \<Longrightarrow> answers_within S w"
  shows "run_pool (exec_api h y) exec_world es p = run_pool (exec_api h y) (world_within S) es p"
  unfolding run_pool_def
proof (rule fold_cong)
  fix e :: "(exec_request, exec_db) event" assume e: "e \<in> set es"
  show "pool_step (exec_api h y) exec_world e = pool_step (exec_api h y) (world_within S) e"
  proof
    fix q show "pool_step (exec_api h y) exec_world e q = pool_step (exec_api h y) (world_within S) e q"
    proof (cases e)
      case (World w)
      then show ?thesis using assms [of w] e by (cases q) (simp add: world_within_def)
    qed (cases q; simp)+
  qed
qed simp_all

lemma every_answer [simp]: "answers_within UNIV d"
  by (simp add: answers_within_def)

lemma exec_history_ok: "exec_ok h UNIV (exec_history h y es d)"
  unfolding exec_history_def world_within_run [of es UNIV, simplified]
  using exec_platform.run_invariant [OF empty_exec_ok] by simp

lemma exec_history_later: "exec_evolves (exec_history h y es d) (exec_history h y (es @ fs) d)"
  unfolding exec_history_def world_within_run [of _ UNIV, simplified]
  by (rule exec_platform.run_later [OF empty_exec_ok]) simp

text \<open>The answers the chain gave in a history.\<close>

definition answered :: "host \<Rightarrow> siwe_ext \<Rightarrow> (exec_request, exec_db) event list \<Rightarrow> exec_db \<Rightarrow> (string \<times> chain_answer) set" where
  "answered h y es d = {(t, p). \<exists>n \<le> length es. xd_chain (exec_history h y (take n es) d) t = Inr p}"

lemma exec_history_answered: "exec_ok h (answered h y es d) (exec_history h y es d)"
proof -
  let ?S = "answered h y es d"
  have "answers_within ?S d"
    unfolding answers_within_def answered_def
    by (auto simp: exec_history_def run_pool_def empty_exec_def intro!: exI [of _ 0])
  moreover have world: "answers_within ?S w" if w: "World w \<in> set es" for w
  proof -
    obtain as bs where es: "es = as @ World w # bs" using split_list [OF w] by blast
    have "xd_chain (exec_history h y (as @ [World w]) d) = xd_chain w"
      by (cases "run_pool (exec_api h y) exec_world as (empty_exec d, [])")
        (simp add: exec_history_def run_pool_def exec_world_def)
    then show ?thesis
      unfolding answers_within_def answered_def
      by (auto simp: es intro!: exI [of _ "Suc (length as)"])
  qed
  moreover have "run_pool (exec_api h y) exec_world es (empty_exec d, []) =
      run_pool (exec_api h y) (world_within ?S) es (empty_exec d, [])"
    by (rule world_within_run) (rule world)
  ultimately show ?thesis
    using exec_platform.run_invariant [OF empty_exec_ok, of ?S d h y es] unfolding exec_history_def by simp
qed

end
