(* ===== verification/Guarantees.thy ===== *)
theory Guarantees
  imports MarketSafety
begin

text \<open>
  What the hosted platform promises, in every history of requests whose statements interleave in
  any order: the spending of a mandate's runs, the payments that count, the records that are final,
  the orders of the market, and the progress of the queue.
\<close>

section \<open>What a stored result says was paid\<close>

definition stored_receipts :: "job_row \<Rightarrow> json list" where
  "stored_receipts j = (case jb_result j of None \<Rightarrow> [] | Some v \<Rightarrow> elems (given (fld v ''receipts'') JNull))"

definition amount_of :: "json \<Rightarrow> int" where
  "amount_of e = (case fld e ''amountAtomic'' of Some (JNum n) \<Rightarrow> num_int n | _ \<Rightarrow> 0)"

definition paid_by_job :: "bool \<Rightarrow> job_row \<Rightarrow> int" where
  "paid_by_job hedera j =
     (\<Sum>e \<leftarrow> filter (\<lambda>e. (fstr e ''network'' = Some HEDERA_NETWORK) = hedera) (stored_receipts j). amount_of e)"

definition proven_payments :: "job_row \<Rightarrow> (string option \<times> string) list" where
  "proven_payments j = (if jb_proofs j = None then []
     else map (\<lambda>e. (fstr e ''network'', given (fstr e ''transactionId'') [])) (stored_receipts j))"

lemma given_simps [simp]: "given (Some a) b = a" "given None b = b"
  by (simp_all add: given_def)

lemma fld_receipts [simp]: "fld (runner_result_json r) ''receipts'' = Some (JArr (map receipt_json (run_receipts r)))"
  by (simp add: runner_result_json_def opt_entry_def split: option.split)

lemma fld_receipt [simp]:
  "fstr (receipt_json p) ''network'' = Some (pr_network p)" "amount_of (receipt_json p) = pr_amount p"
  "given (fstr (receipt_json p) ''transactionId'') [] = receipt_tx p"
  by (simp_all add: receipt_json_def fstr_def amount_of_def nat_json_def opt_entry_def receipt_tx_def split: option.split)

lemma linked_simps [simp]: "pr_network (linked p) = pr_network p" "pr_amount (linked p) = pr_amount p"
  by (simp_all add: linked_def Let_def)

lemma signed_simps [simp]: "mf_data (signed m) = mf_data (mr_fields m)" "mf_verification (signed m) = mf_verification (mr_fields m)"
  by (simp_all add: signed_def sign_fields_def mandate_fields.defs)

lemma receipts_by_network:
  "check_receipts j r seen ps \<Longrightarrow> distinct (map pr_requestId ps) \<and> set seen \<inter> pr_requestId ` set ps = {} \<and>
    (\<forall>p \<in> set ps. pr_requestId p = rj_id j @ (if pr_network p = HEDERA_NETWORK then '':data'' else '':verify''))"
proof (induction ps arbitrary: seen)
  case (Cons p ps)
  then have "check_receipts j r (pr_requestId p # seen) ps" "pr_requestId p \<notin> set seen"
    "pr_requestId p = rj_id j @ (if pr_network p = HEDERA_NETWORK then '':data'' else '':verify'')"
    by (auto simp: data_receipt_ok_def verification_receipt_ok_def split: if_splits)
  with Cons.IH [OF this(1)] show ?case by auto
qed simp

lemma networks_distinct:
  assumes "check_receipts j r [] ps"
  shows "distinct (map pr_network ps)"
proof -
  let ?f = "\<lambda>n. rj_id j @ (if n = HEDERA_NETWORK then '':data'' else '':verify'')"
  have "map pr_requestId ps = map ?f (map pr_network ps)" "distinct (map pr_requestId ps)"
    using receipts_by_network [OF assms] by (auto simp: comp_def)
  then have "distinct (map ?f (map pr_network ps))" by metis
  then show ?thesis by (simp only: distinct_map)
qed

lemma validated_result:
  assumes "validateRunnerResult h v j = Inr r"
  obtains r0 where "run_receipts r = map linked (run_receipts r0)" "check_receipts j r0 [] (run_receipts r0)"
    "paid_on True (run_receipts r0) \<le> mf_data (rj_mandate j)" "paid_on False (run_receipts r0) \<le> mf_verification (rj_mandate j)"
proof -
  obtain r0 where "r = r0\<lparr>run_receipts := map linked (run_receipts r0)\<rparr>" "check_receipts j r0 [] (run_receipts r0)"
    "result_consistent j r0"
    using assms unfolding validateRunnerResult_def bindR_eq_Inr need_eq_Inr by blast
  then show thesis by (intro that [of r0]) (simp_all add: result_consistent_def Let_def)
qed

lemma recorded_facts:
  assumes "recorded h cs m j v" "jb_result j = Some v"
  shows "paid_by_job True j \<le> mf_data (mr_fields m)" "paid_by_job False j \<le> mf_verification (mr_fields m)"
    "distinct (proven_payments j)"
    "\<forall>p \<in> set (proven_payments j). \<exists>c \<in> set cs. cr_job c = jb_id j \<and> p = (Some (cr_network c), cr_transaction c)"
proof -
  obtain u i r where r: "validateRunnerResult h u \<lparr>rj_id = i, rj_repos = jb_repos j, rj_mandate = signed m\<rparr> = Inr r"
    "v = runner_result_json r" "jb_proofs j \<noteq> None \<longrightarrow> (\<forall>p \<in> set (run_receipts r). claimed cs (jb_id j) p)"
    using assms(1) unfolding recorded_def by blast
  obtain r0 where r0: "run_receipts r = map linked (run_receipts r0)"
    "check_receipts \<lparr>rj_id = i, rj_repos = jb_repos j, rj_mandate = signed m\<rparr> r0 [] (run_receipts r0)"
    "paid_on True (run_receipts r0) \<le> mf_data (mr_fields m)" "paid_on False (run_receipts r0) \<le> mf_verification (mr_fields m)"
    using validated_result [OF r(1)] by auto
  have stored: "stored_receipts j = map receipt_json (run_receipts r)"
    using assms(2) r(2) by (simp add: stored_receipts_def)
  have "paid_by_job b j = paid_on b (run_receipts r0)" for b
    by (simp add: paid_by_job_def stored r0(1) paid_on_def filter_map comp_def)
  then show "paid_by_job True j \<le> mf_data (mr_fields m)" "paid_by_job False j \<le> mf_verification (mr_fields m)"
    using r0(3,4) by simp_all
  have proven: "proven_payments j = (if jb_proofs j = None then [] else map (\<lambda>p. (Some (pr_network p), receipt_tx p)) (run_receipts r))"
    by (simp add: proven_payments_def stored)
  have "distinct (map pr_network (run_receipts r))"
    using networks_distinct [OF r0(2)] by (simp add: r0(1) comp_def)
  then show "distinct (proven_payments j)" unfolding proven by (auto simp: distinct_map inj_on_def)
  show "\<forall>p \<in> set (proven_payments j). \<exists>c \<in> set cs. cr_job c = jb_id j \<and> p = (Some (cr_network c), cr_transaction c)"
  proof
    fix q assume "q \<in> set (proven_payments j)"
    then obtain p where p: "jb_proofs j \<noteq> None" "p \<in> set (run_receipts r)" "q = (Some (pr_network p), receipt_tx p)"
      unfolding proven by (auto split: if_splits)
    then have "claimed cs (jb_id j) p" using r(3) by blast
    then show "\<exists>c \<in> set cs. cr_job c = jb_id j \<and> q = (Some (cr_network c), cr_transaction c)"
      unfolding claimed_def p(3) by (rule bexI [rotated]) simp
  qed
qed

lemma job_recorded:
  assumes "exec_ok h S d" "j \<in> set (xd_jobs d)"
  obtains m where "m \<in> set (xd_mandates d)" "mr_id m = jb_mandate j" "mr_approved m \<noteq> None"
    "\<forall>v. jb_result j = Some v \<longrightarrow> recorded h (xd_claims d) m j v"
  using exec_okD(4) [OF assms] unfolding job_sound_def by blast

lemma paid_bounds:
  assumes "exec_ok h S d" "m \<in> set (xd_mandates d)" "mr_approved m \<noteq> None" "j \<in> set (runs_of m (xd_jobs d))"
  shows "paid_by_job True j \<le> mf_data (mr_fields m)" "paid_by_job False j \<le> mf_verification (mr_fields m)"
proof -
  have j: "j \<in> set (xd_jobs d)" "jb_mandate j = mr_id m" using assms(4) by (simp_all add: runs_of_def)
  obtain m' where m': "m' \<in> set (xd_mandates d)" "mr_id m' = jb_mandate j" "mr_approved m' \<noteq> None"
    "\<forall>v. jb_result j = Some v \<longrightarrow> recorded h (xd_claims d) m' j v" using job_recorded [OF assms(1) j(1)] .
  have "m' = m" using by_key [OF exec_okD(2) [OF assms(1)] m'(1) assms(2)] m'(2) j(2) by simp
  moreover have "1 \<le> mf_data (mr_fields m) \<and> 1 \<le> mf_verification (mr_fields m)"
    using exec_okD(1) [OF assms(1,2)] assms(3) by (simp add: mandate_sound_def signed_by_owner_def)
  ultimately show "paid_by_job True j \<le> mf_data (mr_fields m)" "paid_by_job False j \<le> mf_verification (mr_fields m)"
    using m'(4) recorded_facts(1,2) [of h "xd_claims d" m j]
    by (cases "jb_result j"; simp add: paid_by_job_def stored_receipts_def)+
qed

lemma sum_within: "(\<And>x. x \<in> set xs \<Longrightarrow> f x \<le> b) \<Longrightarrow> int (length xs) \<le> n \<Longrightarrow> 0 \<le> b \<Longrightarrow> (\<Sum>x \<leftarrow> xs. f x) \<le> b * (n :: int)"
proof -
  assume f: "\<And>x. x \<in> set xs \<Longrightarrow> f x \<le> b" and n: "int (length xs) \<le> n" "0 \<le> b"
  have "(\<Sum>x \<leftarrow> xs. f x) \<le> b * int (length xs)" using f by (induction xs) (auto simp: distrib_left add_mono)
  also have "\<dots> \<le> b * n" using n by (simp add: mult_left_mono)
  finally show ?thesis .
qed

lemma mandate_within:
  assumes ok: "exec_ok h S d" and m: "m \<in> set (xd_mandates d)"
  shows "case mr_approved m of None \<Rightarrow> runs_of m (xd_jobs d) = []
    | Some _ \<Rightarrow> signed_by_owner h m \<and> int (length (runs_of m (xd_jobs d))) \<le> mf_maxRuns (mr_fields m) \<and>
        (\<Sum>j \<leftarrow> runs_of m (xd_jobs d). paid_by_job True j) \<le> mf_data (mr_fields m) * mf_maxRuns (mr_fields m) \<and>
        (\<Sum>j \<leftarrow> runs_of m (xd_jobs d). paid_by_job False j) \<le> mf_verification (mr_fields m) * mf_maxRuns (mr_fields m)"
proof (cases "mr_approved m")
  case None
  have "jb_mandate j \<noteq> mr_id m" if j: "j \<in> set (xd_jobs d)" for j
  proof -
    obtain m' where "m' \<in> set (xd_mandates d)" "mr_id m' = jb_mandate j" "mr_approved m' \<noteq> None" using job_recorded [OF ok j] .
    then show ?thesis using by_key [OF exec_okD(2) [OF ok] _ m, of m'] None by auto
  qed
  then show ?thesis using None by (simp add: runs_of_def filter_empty_conv)
next
  case (Some t)
  have s: "signed_by_owner h m" "mr_reserved m = int (length (runs_of m (xd_jobs d)))"
    "runs_of m (xd_jobs d) = [] \<or> mr_reserved m \<le> mf_maxRuns (mr_fields m)"
    using exec_okD(1) [OF ok m] Some by (simp_all add: mandate_sound_def) metis
  then have n: "int (length (runs_of m (xd_jobs d))) \<le> mf_maxRuns (mr_fields m)" "0 \<le> mf_data (mr_fields m)"
    "0 \<le> mf_verification (mr_fields m)" by (auto simp: signed_by_owner_def)
  have "(\<Sum>j \<leftarrow> runs_of m (xd_jobs d). paid_by_job True j) \<le> mf_data (mr_fields m) * mf_maxRuns (mr_fields m)"
    "(\<Sum>j \<leftarrow> runs_of m (xd_jobs d). paid_by_job False j) \<le> mf_verification (mr_fields m) * mf_maxRuns (mr_fields m)"
    using n Some by (auto intro!: sum_within paid_bounds [OF ok m])
  then show ?thesis using s(1) n Some by simp
qed

section \<open>The queue\<close>

definition ready_job :: "exec_db \<Rightarrow> string \<Rightarrow> job_row \<Rightarrow> bool" where
  "ready_job d agent j \<longleftrightarrow> same_uuid (jb_agent j) agent \<and> jb_status j = JobQueued \<and>
     (case mandate_of d j of None \<Rightarrow> False | Some m \<Rightarrow> active_mandate d m)"

definition after_claim :: "string \<Rightarrow> string \<Rightarrow> exec_db \<Rightarrow> exec_db" where
  "after_claim runner agent d = (case claim_tx runner agent d of Inl _ \<Rightarrow> d | Inr (_, d') \<Rightarrow> d')"

definition blocked_job :: "exec_db \<Rightarrow> string \<Rightarrow> job_row \<Rightarrow> job_row" where
  "blocked_job d agent j = (if stale_job d agent j then j\<lparr>jb_status := JobBlocked, jb_updated := xd_now d\<rparr> else j)"

text \<open>What a queue without new runs comes to: stale runs are blocked, ready runs are started.\<close>

definition drained :: "exec_db \<Rightarrow> string \<Rightarrow> string \<Rightarrow> job_row \<Rightarrow> job_row" where
  "drained d runner agent j =
     (if stale_job d agent j then j\<lparr>jb_status := JobBlocked, jb_updated := xd_now d\<rparr>
      else if ready_job d agent j then claimed_by runner (xd_now d) j else j)"

lemma ready_not_stale: "ready_job d agent j \<Longrightarrow> \<not> stale_job d agent j"
  by (auto simp: ready_job_def stale_job_def active_mandate_def split: option.splits)

lemma drained_again [simp]: "\<not> ready_job d agent (drained d runner agent j)" "drained d runner agent (drained d runner agent j) = drained d runner agent j"
  by (auto simp: drained_def ready_job_def stale_job_def claimed_by_def)

lemma drained_id [simp]: "jb_id (drained d runner agent j) = jb_id j"
  by (simp add: drained_def claimed_by_def)

lemma after_claim_eq:
  "after_claim runner agent d =
    d\<lparr>xd_runners := update_where (working runner agent) (\<lambda>r. r\<lparr>rn_seen := Some (xd_now d)\<rparr>) (xd_runners d),
      xd_jobs := (let jobs = map (blocked_job d agent) (xd_jobs d) in case next_job d runner agent jobs of None \<Rightarrow> jobs
        | Some s \<Rightarrow> update_where (\<lambda>j. jb_id j = jb_id s) (claimed_by runner (xd_now d)) jobs)\<rparr>"
  unfolding after_claim_def claim_tx_def Let_def blocked_job_def update_where_def by simp

lemma list_ex_update: "(\<And>x. P x \<Longrightarrow> P (f x)) \<Longrightarrow> list_ex P xs \<Longrightarrow> list_ex P (update_where p f xs)"
  unfolding update_where_def by (induction xs) auto

lemma after_claim_kept:
  "xd_mandates (after_claim runner agent d) = xd_mandates d" "xd_now (after_claim runner agent d) = xd_now d"
  "list_ex (working runner agent) (xd_runners d) \<Longrightarrow> list_ex (working runner agent) (xd_runners (after_claim runner agent d))"
  unfolding after_claim_eq by (simp_all, intro list_ex_update) (simp add: working_def of_agent_def)

lemma drained_kept:
  assumes "xd_mandates d' = xd_mandates d" "xd_now d' = xd_now d"
  shows "stale_job d' = stale_job d" "ready_job d' = ready_job d" "drained d' = drained d"
proof -
  have m: "mandate_of d' = mandate_of d" "active_mandate d' = active_mandate d"
    by (simp_all add: fun_eq_iff mandate_of_def active_mandate_def assms)
  show k: "stale_job d' = stale_job d" "ready_job d' = ready_job d"
    by (simp_all add: fun_eq_iff stale_job_def ready_job_def assms m cong: option.case_cong)
  show "drained d' = drained d" by (simp add: fun_eq_iff drained_def k assms)
qed

lemma next_job_ready:
  assumes "list_ex (working runner agent) (xd_runners d)"
  shows "case next_job d runner agent (map (blocked_job d agent) js) of None \<Rightarrow> filter (ready_job d agent) js = []
    | Some s \<Rightarrow> s \<in> set js \<and> ready_job d agent s"
proof -
  let ?rs = "sort_key (\<lambda>j. (jb_created j, jb_id j)) (filter (ready_job d agent) (map (blocked_job d agent) js))"
  have n: "next_job d runner agent (map (blocked_job d agent) js) = first_of ?rs"
    using assms unfolding next_job_def ready_job_def by simp
  have "ready_job d agent (blocked_job d agent j) \<longleftrightarrow> ready_job d agent j" for j
    using ready_not_stale by (auto simp: blocked_job_def ready_job_def stale_job_def)
  then have "set ?rs = {j \<in> set js. ready_job d agent j}"
    using ready_not_stale by (force simp: blocked_job_def)
  then show ?thesis
    unfolding n by (cases ?rs) (auto simp: first_of_def filter_empty_conv)
qed

lemma after_claim_jobs:
  assumes "list_ex (working runner agent) (xd_runners d)" "distinct (map jb_id (xd_jobs d))"
  shows "(filter (ready_job d agent) (xd_jobs d) = [] \<and> xd_jobs (after_claim runner agent d) = map (drained d runner agent) (xd_jobs d)) \<or>
    (\<exists>s \<in> set (xd_jobs d). ready_job d agent s \<and>
      xd_jobs (after_claim runner agent d) = map (\<lambda>j. if stale_job d agent j \<or> j = s then drained d runner agent j else j) (xd_jobs d))"
proof (cases "next_job d runner agent (map (blocked_job d agent) (xd_jobs d))")
  case None
  then have "filter (ready_job d agent) (xd_jobs d) = []" using next_job_ready [OF assms(1), of "xd_jobs d"] by simp
  moreover from this have "map (blocked_job d agent) (xd_jobs d) = map (drained d runner agent) (xd_jobs d)"
    by (auto simp: blocked_job_def drained_def filter_empty_conv)
  ultimately show ?thesis using None by (simp add: after_claim_eq)
next
  case (Some s)
  then have s: "s \<in> set (xd_jobs d)" "ready_job d agent s" using next_job_ready [OF assms(1), of "xd_jobs d"] by simp_all
  have "jb_id j = jb_id s \<longleftrightarrow> j = s" if "j \<in> set (xd_jobs d)" for j
    using by_key [OF assms(2) that s(1)] by blast
  then have "xd_jobs (after_claim runner agent d) = map (\<lambda>j. if stale_job d agent j \<or> j = s then drained d runner agent j else j) (xd_jobs d)"
    using s ready_not_stale [OF s(2)] Some by (auto simp: after_claim_eq update_where_def blocked_job_def drained_def)
  then show ?thesis using s by blast
qed

lemma queue_drains:
  assumes "list_ex (working runner agent) (xd_runners d)" "distinct (map jb_id (xd_jobs d))"
    "length (filter (ready_job d agent) (xd_jobs d)) < n"
  shows "xd_jobs ((after_claim runner agent ^^ n) d) = map (drained d runner agent) (xd_jobs d)"
  using assms
proof (induction n arbitrary: d)
  case (Suc n)
  let ?d = "after_claim runner agent d" and ?ready = "ready_job d agent" and ?f = "drained d runner agent"
  note kept = after_claim_kept [of runner agent d] drained_kept [OF after_claim_kept(1,2), of runner agent d]
  have step: "(after_claim runner agent ^^ Suc n) d = (after_claim runner agent ^^ n) ?d" by (simp only: funpow_Suc_right comp_apply)
  have go: "xd_jobs ((after_claim runner agent ^^ n) ?d) = map ?f (xd_jobs d)"
    if g: "xd_jobs ?d = map g (xd_jobs d)" "\<And>j. g j = j \<or> g j = ?f j" and n: "length (filter ?ready (xd_jobs ?d)) < n" for g
  proof -
    have "distinct (map jb_id (xd_jobs ?d))"
      using Suc.prems(2) g by (simp add: comp_def) (metis (mono_tags, lifting) drained_id map_eq_conv)
    then have "xd_jobs ((after_claim runner agent ^^ n) ?d) = map ?f (xd_jobs ?d)"
      using Suc.IH [of ?d] Suc.prems(1) n kept by simp
    moreover have "?f (g j) = ?f j" for j using g(2) [of j] by auto
    ultimately show ?thesis by (simp add: g(1))
  qed
  consider "filter ?ready (xd_jobs d) = []" "xd_jobs ?d = map ?f (xd_jobs d)"
    | s where "s \<in> set (xd_jobs d)" "?ready s" "xd_jobs ?d = map (\<lambda>j. if stale_job d agent j \<or> j = s then ?f j else j) (xd_jobs d)"
    using after_claim_jobs [OF Suc.prems(1,2)] by blast
  then show ?case
  proof cases
    case 1
    then show ?thesis
    proof (cases n)
      case (Suc k)
      then show ?thesis unfolding step using 1 by (intro go [OF 1(2)]) (auto simp: filter_map comp_def)
    qed (simp add: 1)
  next
    case (2 s)
    let ?g = "\<lambda>j. if stale_job d agent j \<or> j = s then ?f j else j"
    have "?ready (?g j) \<longleftrightarrow> ?ready j \<and> j \<noteq> s" for j using ready_not_stale by auto
    then have "length (filter ?ready (xd_jobs ?d)) = length (filter (\<lambda>j. j \<noteq> s) (filter ?ready (xd_jobs d)))"
      unfolding 2(3) by (simp add: filter_map comp_def conj_commute)
    also have "\<dots> < length (filter ?ready (xd_jobs d))" using 2(1,2) by (intro length_filter_less [of s]) simp_all
    finally show ?thesis unfolding step using Suc.prems(3) by (intro go [OF 2(3)]) auto
  qed
qed simp

section \<open>Guarantees\<close>

text \<open>
  C9. In every history of the hosted platform, whatever is requested and however the statements of
  the requests interleave: a mandate nobody approved has no runs; an approved one carries a signature
  that verifies for its owner over the message printed from its terms, has at most the number of runs
  it grants, and what the recorded results of all its runs paid stays within the two totals that the
  signed message prints, in HBAR on Hedera and in USDC on Arc.
\<close>

theorem mandate_totals_bound_spending:
  "list_all (\<lambda>m. case mr_approved m of None \<Rightarrow> runs_of m (xd_jobs (exec_history h y es d)) = []
     | Some _ \<Rightarrow> signed_by_owner h m \<and>
         int (length (runs_of m (xd_jobs (exec_history h y es d)))) \<le> mf_maxRuns (mr_fields m) \<and>
         (\<Sum>j \<leftarrow> runs_of m (xd_jobs (exec_history h y es d)). paid_by_job True j)
           \<le> mf_data (mr_fields m) * mf_maxRuns (mr_fields m) \<and>
         (\<Sum>j \<leftarrow> runs_of m (xd_jobs (exec_history h y es d)). paid_by_job False j)
           \<le> mf_verification (mr_fields m) * mf_maxRuns (mr_fields m))
     (xd_mandates (exec_history h y es d))"
  unfolding list_all_iff using mandate_within [OF exec_history_ok] by blast

lemma distinct_concat_by_key:
  assumes "distinct (map k js)" "\<And>j. j \<in> set js \<Longrightarrow> distinct (f j)"
    "\<And>i j x. i \<in> set js \<Longrightarrow> j \<in> set js \<Longrightarrow> x \<in> set (f i) \<Longrightarrow> x \<in> set (f j) \<Longrightarrow> k i = k j"
  shows "distinct (concat (map f js))"
  using assms
proof (induction js)
  case (Cons j js)
  have "x \<notin> set (f i)" if "x \<in> set (f j)" "i \<in> set js" for x i
    using Cons.prems(1,3) that by (metis distinct.simps(2) imageI list.set_intros list.set_map list.simps(9))
  moreover have "distinct (concat (map f js))"
    using Cons.prems by (intro Cons.IH) auto
  ultimately show ?case using Cons.prems(2) by auto
qed simp

lemma proven_claims:
  assumes "exec_ok h S d" "j \<in> set (xd_jobs d)"
  shows "distinct (proven_payments j)"
    "p \<in> set (proven_payments j) \<Longrightarrow> \<exists>c \<in> set (xd_claims d). cr_job c = jb_id j \<and> p = (Some (cr_network c), cr_transaction c)"
proof -
  obtain m where m: "\<forall>v. jb_result j = Some v \<longrightarrow> recorded h (xd_claims d) m j v" using job_recorded [OF assms] .
  have none: "jb_result j = None \<Longrightarrow> proven_payments j = []" by (simp add: proven_payments_def stored_receipts_def)
  show "distinct (proven_payments j)"
    using m none recorded_facts(3) by (cases "jb_result j") auto
  show "p \<in> set (proven_payments j) \<Longrightarrow> \<exists>c \<in> set (xd_claims d). cr_job c = jb_id j \<and> p = (Some (cr_network c), cr_transaction c)"
    using m none recorded_facts(4) by (cases "jb_result j") auto
qed

text \<open>
  C13. A payment counts once: over all runs of all users, the receipts of the results that were
  stored with settlement proofs name pairwise different transactions of each network, in every
  history of the platform.
\<close>

theorem proven_payments_count_once:
  "distinct (concat (map proven_payments (xd_jobs (exec_history h y es d))))"
proof (rule distinct_concat_by_key)
  note ok = exec_history_ok [of h y es d]
  show "distinct (map jb_id (xd_jobs (exec_history h y es d)))" by (rule exec_okD(5) [OF ok])
  show "distinct (proven_payments j)" if "j \<in> set (xd_jobs (exec_history h y es d))" for j
    using proven_claims(1) [OF ok that] .
  fix i j p assume ij: "i \<in> set (xd_jobs (exec_history h y es d))" "j \<in> set (xd_jobs (exec_history h y es d))"
    "p \<in> set (proven_payments i)" "p \<in> set (proven_payments j)"
  obtain a b where "a \<in> set (xd_claims (exec_history h y es d))" "b \<in> set (xd_claims (exec_history h y es d))"
    "cr_job a = jb_id i" "cr_job b = jb_id j" "(cr_network a, cr_transaction a) = (cr_network b, cr_transaction b)"
    using proven_claims(2) [OF ok ij(1,3)] proven_claims(2) [OF ok ij(2,4)] by auto
  moreover from this have "a = b" using by_key [OF exec_okD(7) [OF ok]] by blast
  ultimately show "jb_id i = jb_id j" by simp
qed

text \<open>
  C14. What the platform recorded stays: however a history goes on, an approved mandate keeps its
  terms, message and signature, and a revoked one stays revoked; a run keeps its scope and mandate,
  never changes its runner, and is as it was once it is finished or stopped; a paid order keeps its
  terms and its transfer, and a delivered one changes no more; a payment claim stays.
\<close>

theorem platform_records_final:
  "exec_evolves (exec_history h y es d) (exec_history h y (es @ fs) d)"
  by (rule exec_history_later)

text \<open>An order with the chain's answer that paid it, written out.\<close>

definition pays_order :: "string \<Rightarrow> market_order \<Rightarrow> chain_answer \<Rightarrow> bool" where
  "pays_order t q p \<longleftrightarrow> ca_chainId p = 5042002 \<and> ca_status p = ''success'' \<and>
              mo_created q div 1000 \<le> ca_timestamp p \<and> ca_timestamp p \<le> mo_expires q div 1000 \<and>
              list_ex (\<lambda>e. to_lower (te_address e) = ''0x3600000000000000000000000000000000000000'' \<and>
                to_lower (te_from e) = to_lower (mo_payer q) \<and> to_lower (te_to e) = to_lower (mo_recipient q) \<and>
                te_value e = mo_amount q) (ca_events p) \<and>
              mo_proof q = Some (transfer_proof t q p)"

definition paid_in_history :: "host \<Rightarrow> siwe_ext \<Rightarrow> (exec_request, exec_db) event list \<Rightarrow> exec_db \<Rightarrow> market_order \<Rightarrow> bool" where
  "paid_in_history h y es d q \<longleftrightarrow>
       (if mo_status q = OrderQuoted then mo_hash q = None
        else case mo_hash q of None \<Rightarrow> False | Some t \<Rightarrow>
          list_ex (\<lambda>n. case xd_chain (exec_history h y (take n es) d) t of Inl _ \<Rightarrow> False | Inr p \<Rightarrow> pays_order t q p)
            [0..<Suc (length es)]) \<and>
       (mo_checks q = None) = (mo_status q \<noteq> OrderFulfilled)"

lemma order_paid_in_history:
  assumes "order_sound (answered h y es d) q"
  shows "paid_in_history h y es d q"
proof (cases "mo_status q = OrderQuoted")
  case True
  then show ?thesis using assms by (simp add: order_sound_def paid_in_history_def)
next
  case False
  then obtain t p n where t: "mo_hash q = Some t" and p: "assertMarketTransfer p q = Inr ()" "mo_proof q = Some (transfer_proof t q p)"
    and n: "n \<le> length es" "xd_chain (exec_history h y (take n es) d) t = Inr p"
    using assms by (auto simp: order_sound_def answered_def)
  have "pays_order t q p"
    using p by (simp add: pays_order_def assertMarketTransfer_def arc_usdc_def)
  then have "list_ex (\<lambda>n. case xd_chain (exec_history h y (take n es) d) t of Inl _ \<Rightarrow> False | Inr p \<Rightarrow> pays_order t q p)
      [0..<Suc (length es)]"
    unfolding list_ex_iff by (intro bexI [of _ n]) (use n in \<open>simp_all del: upt_Suc\<close>)
  then show ?thesis
    using assms False t by (simp add: paid_in_history_def order_sound_def)
qed

text \<open>
  C15. The verification market in every history: an order is unpaid, or it names a transaction for
  which the chain, asked at some time of this history, answered with a successful USDC transfer on Arc
  testnet of exactly the order's amount, from its payer to its recipient, within the order's window,
  and its proof records that block and transfer; only a delivered order has checks; and no two orders
  share a job, a purchase of evidence, or a transfer.
\<close>

theorem market_orders_paid_once:
  "let qs = xd_orders (exec_history h y es d) in
     list_all (\<lambda>q.
       (if mo_status q = OrderQuoted then mo_hash q = None
        else case mo_hash q of None \<Rightarrow> False | Some t \<Rightarrow>
          list_ex (\<lambda>n. case xd_chain (exec_history h y (take n es) d) t of Inl _ \<Rightarrow> False | Inr p \<Rightarrow>
              ca_chainId p = 5042002 \<and> ca_status p = ''success'' \<and>
              mo_created q div 1000 \<le> ca_timestamp p \<and> ca_timestamp p \<le> mo_expires q div 1000 \<and>
              list_ex (\<lambda>e. to_lower (te_address e) = ''0x3600000000000000000000000000000000000000'' \<and>
                to_lower (te_from e) = to_lower (mo_payer q) \<and> to_lower (te_to e) = to_lower (mo_recipient q) \<and>
                te_value e = mo_amount q) (ca_events p) \<and>
              mo_proof q = Some (transfer_proof t q p))
            [0..<Suc (length es)]) \<and>
       (mo_checks q = None) = (mo_status q \<noteq> OrderFulfilled)) qs \<and>
     distinct (map mo_id qs) \<and> distinct (map mo_job qs) \<and> distinct (map mo_dataTx qs) \<and>
     distinct (map mo_dataSource qs) \<and> distinct (List.map_filter mo_hash qs)"
proof -
  note ok = exec_okD(8) [OF exec_history_answered [of h y es d]]
  have "paid_in_history h y es d q" if "q \<in> set (xd_orders (exec_history h y es d))" for q
    using that ok by (auto simp: orders_sound_def intro: order_paid_in_history)
  note paid = this [unfolded paid_in_history_def pays_order_def]
  show ?thesis
    unfolding Let_def list_all_iff using paid ok [unfolded orders_sound_def paid_hashes_def] by (intro conjI ballI) blast+
qed

text \<open>
  C16. The queue moves: where a runner of the agent is paired and nothing else happens, one claim
  more than there are ready runs starts every ready run on this runner, blocks every queued run whose
  mandate was revoked or has expired, and changes no other run. (The ids of the runs differ in every
  history.)
\<close>

theorem queued_runs_start:
  assumes "list_ex (working runner agent) (xd_runners d)" "distinct (map jb_id (xd_jobs d))"
  shows "xd_jobs ((after_claim runner agent ^^ Suc (length (filter (ready_job d agent) (xd_jobs d)))) d) =
    map (drained d runner agent) (xd_jobs d)"
  using queue_drains [OF assms lessI] .

definition queue_witness :: "exec_db \<Rightarrow> exec_db" where
  "queue_witness d =
     (let f = \<lparr>mf_id = ''m'', mf_agentId = ''a'', mf_owner = ''o'', mf_origin = ''u'', mf_repos = [], mf_providers = [],
            mf_data = 1, mf_verification = 1, mf_unitPrice = 1, mf_maxRuns = 2, mf_expires = ''e'', mf_service = None\<rparr>;
          m = (\<lambda>i e. \<lparr>mr_id = i, mr_agent = ''a'', mr_fields = f, mr_message = ''t'', mr_signature = Some ''s'', mr_maxRuns = 2,
            mr_reserved = 1, mr_expires = e, mr_created = 0, mr_approved = Some 0, mr_revoked = None\<rparr>);
          j = (\<lambda>i p. \<lparr>jb_id = i, jb_agent = ''a'', jb_key = i, jb_status = JobQueued, jb_repos = [], jb_mandate = p,
            jb_runner = None, jb_claimed = None, jb_result = None, jb_verification = None, jb_proofs = None,
            jb_created = 1, jb_updated = 1\<rparr>)
      in d\<lparr>xd_now := 5, xd_mandates := [m ''m'' 9, m ''n'' 3], xd_jobs := [j ''j'' ''m'', j ''k'' ''n''],
           xd_runners := [\<lparr>rn_id = ''r'', rn_agent = ''a'', rn_hash = ''h'', rn_prefix = ''p'', rn_created = 0, rn_seen = None,
             rn_revoked = None\<rparr>]\<rparr>)"

lemma queued_runs_start_witness:
  "map jb_status (xd_jobs ((after_claim ''r'' ''a'' ^^ 2) (queue_witness (empty_exec
     \<lparr>xd_users = [], xd_challenges = [], xd_sessions = [], xd_limits = [], xd_agents = [], xd_keys = [], xd_runners = [],
       xd_mandates = [], xd_jobs = [], xd_claims = [], xd_listings = [], xd_orders = [], xd_payments = [], xd_now = 0,
       xd_clock = 0, xd_mirror = \<lambda>_. Inl Zod, xd_chain = \<lambda>_. Inl Zod, xd_remote = \<lambda>_ _ _. Inl Zod\<rparr>)))) =
    [JobRunning, JobBlocked]"
proof -
  define d where "d = queue_witness (empty_exec
     \<lparr>xd_users = [], xd_challenges = [], xd_sessions = [], xd_limits = [], xd_agents = [], xd_keys = [], xd_runners = [],
       xd_mandates = [], xd_jobs = [], xd_claims = [], xd_listings = [], xd_orders = [], xd_payments = [], xd_now = 0,
       xd_clock = 0, xd_mirror = \<lambda>_. Inl Zod, xd_chain = \<lambda>_. Inl Zod, xd_remote = \<lambda>_ _ _. Inl Zod\<rparr>)"
  note simps = d_def queue_witness_def empty_exec_def ready_job_def stale_job_def drained_def claimed_by_def mandate_of_def
    active_mandate_def working_def of_agent_def same_uuid_def Let_def
  have "length (filter (ready_job d ''a'') (xd_jobs d)) = 1" by (simp add: simps)
  moreover have "list_ex (working ''r'' ''a'') (xd_runners d)" "distinct (map jb_id (xd_jobs d))" by (simp_all add: simps)
  note queued_runs_start [OF this]
  moreover have "map jb_status (map (drained d ''r'' ''a'') (xd_jobs d)) = [JobRunning, JobBlocked]" by (simp add: simps)
  ultimately show ?thesis by (simp add: numeral_2_eq_2 flip: d_def)
qed

end
