(* ===== verification/DataService.thy ===== *)
theory DataService
  imports Sessions PlatformHttp A2A HederaChecks Commerce RunnerScope "HOL-Library.AList"
begin

text \<open>
  The hosted repository data service, \<open>src/src/lib/platform/data-service.ts\<close>, with the token
  configuration and the scheduled deliveries of \<open>hedera-commerce.ts\<close>. A request is a session over
  the tables of prices, configuration, payments and deliveries, with their primary keys and unique
  indexes. The reservation of a native transaction is one \<open>INSERT ... ON CONFLICT DO NOTHING\<close>;
  only a request whose insert added the row goes on to the facilitator.

  What a request takes from outside is its record \<open>data_answers\<close>: the facilitator with its header
  codec, the reading of a native transaction, GitHub and the mirror node, and the clock. A header's
  value is the JSON it encodes. \<open>db_sent\<close> records the payments handed to the facilitator; no request
  reads it.
\<close>

section \<open>Tables\<close>

record submission =
  su_transaction :: string
  su_provider :: string
  su_repos :: "string list"
  su_amount :: int
  su_asset :: string
  su_offer :: "string option"
  su_offerKey :: "string option"

record service_payment = submission +
  sy_settled :: bool
  sy_settlement :: "json option"
  sy_evidence :: "json list option"

record delivery_row =
  dl_schedule :: string
  dl_fingerprint :: string
  dl_delivered :: bool
  dl_evidence :: "json list"
  dl_proof :: json

record data_db =
  db_prices :: "(string \<times> int) list"
  db_config :: "string \<Rightarrow> json option"
  db_payments :: "service_payment list"
  db_deliveries :: "delivery_row list"
  db_sent :: "submission list"

record data_reply =
  ry_status :: int
  ry_body :: json
  ry_headers :: "(string \<times> json) list"

record service_call =
  dq_method :: string
  dq_path :: "string list"
  dq_http :: http_request

record data_answers =
  da_clock :: clock
  da_offerClock :: clock
  da_now :: clock
  da_requirements :: "string \<Rightarrow> string \<Rightarrow> int \<Rightarrow> json res"
  da_decode :: "string \<Rightarrow> json res"
  da_verify :: "json \<Rightarrow> json \<Rightarrow> json res"
  da_native :: "string \<Rightarrow> string option res"
  da_settle :: "json \<Rightarrow> json \<Rightarrow> json res"
  da_get :: "string \<Rightarrow> http_response res"
  da_fetched :: "string res"

type_synonym data_session = "(data_db, data_reply) session"

definition answer :: "json \<Rightarrow> int \<Rightarrow> data_session" where
  "answer v status = Reply (Inr \<lparr>ry_status = status, ry_body = v, ry_headers = []\<rparr>)"

definition answer_header :: "json \<Rightarrow> int \<Rightarrow> string \<Rightarrow> json \<Rightarrow> data_session" where
  "answer_header v status k h = Reply (Inr \<lparr>ry_status = status, ry_body = v, ry_headers = [(k, h)]\<rparr>)"

definition problem :: "string \<Rightarrow> int \<Rightarrow> data_session" where
  "problem t status = answer (JObj [(''error'', JStr t)]) status"

text \<open>\<open>try { s } catch (e) { return f(e) }\<close> around a whole request.\<close>

definition caught :: "data_session \<Rightarrow> (js_error \<Rightarrow> data_reply) \<Rightarrow> data_session" where
  "caught s f = bindS s (\<lambda>r. case r of Inr a \<Rightarrow> Reply (Inr a) | Inl e \<Rightarrow> Reply (Inr (f e)))"

section \<open>Configuration\<close>

record token_config =
  tk_asset :: string
  tk_payTo :: string
  tk_unitPrice :: int
  tk_decimals :: int
  tk_symbol :: string

definition p_token_config :: "json \<Rightarrow> token_config option" where
  "p_token_config v =
     (if \<not> strict [''asset'', ''payTo'', ''unitPriceAtomic'', ''decimals'', ''symbol'', ''network''] v then None
      else Option.bind (check is_account (fstr v ''asset'')) (\<lambda>a.
           Option.bind (check is_account (fstr v ''payTo'')) (\<lambda>p.
           Option.bind (check (\<lambda>n. 0 < n \<and> n \<le> 100000000) (fint v ''unitPriceAtomic'')) (\<lambda>u.
           Option.bind (check (\<lambda>n. 0 \<le> n \<and> n \<le> 8) (fint v ''decimals'')) (\<lambda>d.
           Option.bind (check (\<lambda>s. 1 \<le> length s \<and> length s \<le> 12) (fstr v ''symbol'')) (\<lambda>s.
           Option.bind (check (\<lambda>n. n = HEDERA_NETWORK) (fstr v ''network'')) (\<lambda>_.
             Some \<lparr>tk_asset = a, tk_payTo = p, tk_unitPrice = u, tk_decimals = d, tk_symbol = s\<rparr>)))))))"

definition hederaPublicConfig :: "string \<Rightarrow> (json option \<Rightarrow> data_session) \<Rightarrow> data_session" where
  "hederaPublicConfig i k = query (\<lambda>d. db_config d i) k"

definition hederaTokenConfig :: "(token_config option \<Rightarrow> data_session) \<Rightarrow> data_session" where
  "hederaTokenConfig k = hederaPublicConfig ''hts'' (\<lambda>v.
     if truthy v then liftS (of_opt Zod (Option.bind v p_token_config)) (\<lambda>c. k (Some c)) else k None)"

definition price_list :: "(string \<times> int) list \<Rightarrow> (string \<times> int) list res" where
  "price_list rows =
     bindR (need ((case map_of rows ''repo-standard'' of None \<Rightarrow> False | Some n \<Rightarrow> safe_int n) \<and>
         (case map_of rows ''repo-economy'' of None \<Rightarrow> False | Some n \<Rightarrow> safe_int n))
       (Err ''Price book unavailable'')) (\<lambda>_. Inr rows)"

definition as_book :: "(string \<times> int) list \<Rightarrow> price_book" where
  "as_book rows = \<lparr>pb_standard = given (map_of rows ''repo-standard'') 0, pb_economy = given (map_of rows ''repo-economy'') 0\<rparr>"

definition priceBook :: "token_config option \<Rightarrow> ((string \<times> int) list res \<Rightarrow> data_session) \<Rightarrow> data_session" where
  "priceBook token k = (case token of
       Some t \<Rightarrow> k (Inr [(''repo-standard'', tk_unitPrice t), (''repo-economy'', tk_unitPrice t)])
     | None \<Rightarrow> query db_prices (\<lambda>rows. k (price_list rows)))"

definition recipient :: "host \<Rightarrow> string res" where
  "recipient h = of_opt (Err ''Recipient missing'') (check is_account (hs_env h ''HEDERA_PAY_TO''))"

definition is_operator :: "host \<Rightarrow> http_request \<Rightarrow> bool" where
  "is_operator h q = (case (hq_header q ''authorization'', hs_env h ''DATA_SERVICE_OPERATOR_TOKEN'') of
     (Some header, Some token) \<Rightarrow> 24 \<le> length token \<and> header = ''Bearer '' @ token | _ \<Rightarrow> False)"

section \<open>Reads\<close>

text \<open>\<open>/^0\.0\.[1-9]\d*@\d{10,}\.\d{1,9}$/\<close>.\<close>

definition is_native_identity :: "string \<Rightarrow> bool" where
  "is_native_identity s = (case split_on (CHR ''@'') s of
     [a, t] \<Rightarrow> is_account a \<and> (case split_on (CHR ''.'') t of
         [b, c] \<Rightarrow> 10 \<le> length b \<and> list_all is_digit b \<and> 1 \<le> length c \<and> length c \<le> 9 \<and> list_all is_digit c
       | _ \<Rightarrow> False)
   | _ \<Rightarrow> False)"

definition payment_json :: "service_payment \<Rightarrow> json" where
  "payment_json p = JObj
     [(''transactionId'', JStr (su_transaction p)), (''providerId'', JStr (su_provider p)),
      (''repos'', repos_json (su_repos p)), (''amountAtomic'', int_json (su_amount p)), (''asset'', JStr (su_asset p)),
      (''state'', JStr (if sy_settled p then ''settled'' else ''pending'')),
      (''settlement'', given (sy_settlement p) JNull),
      (''evidence'', case sy_evidence p of None \<Rightarrow> JNull | Some es \<Rightarrow> JArr es)]"

definition token_receipt :: "token_config \<Rightarrow> string \<Rightarrow> data_session" where
  "token_receipt t i =
     (if \<not> is_native_identity i then problem ''Invalid native transaction identity.'' 400
      else query (\<lambda>d. find (\<lambda>p. su_transaction p = i \<and> su_asset p = tk_asset t) (db_payments d)) (\<lambda>row.
        case row of
          None \<Rightarrow> problem ''Payment record not found.'' 404
        | Some p \<Rightarrow> if \<not> sy_settled p then problem ''Payment is pending; reconcile its original transaction.'' 409
            else answer (payment_json p) 200))"

definition health_json :: json where
  "health_json = JObj [(''ready'', JBool True), (''network'', JStr HEDERA_NETWORK), (''facilitator'', JStr BLOCKY402_URL),
     (''storage'', JStr ''postgres'')]"

definition token_fields :: "token_config option \<Rightarrow> (string \<times> json) list" where
  "token_fields token = (case token of None \<Rightarrow> []
     | Some t \<Rightarrow> [(''symbol'', JStr (tk_symbol t)), (''decimals'', int_json (tk_decimals t))])"

definition listed_provider :: "token_config option \<Rightarrow> string \<Rightarrow> string \<times> int \<Rightarrow> json" where
  "listed_provider token base p = JObj
     ([(''id'', JStr (fst p)),
       (''name'', JStr (if fst p = ''repo-standard'' then ''Repository Standard'' else ''Repository Economy'')),
       (''description'', JStr ''Current public GitHub repository metadata, paid per repository.''),
       (''network'', JStr HEDERA_NETWORK), (''asset'', JStr (case token of None \<Rightarrow> ''HBAR'' | Some t \<Rightarrow> tk_asset t))] @
      token_fields token @
      [(''unit'', JStr ''repository''), (''unitPriceAtomic'', int_json (snd p)),
       (''endpoint'', JStr (base @ ''/evidence/'' @ fst p))])"

section \<open>Operator prices\<close>

definition set_price :: "string \<Rightarrow> int \<Rightarrow> data_db \<Rightarrow> data_db" where
  "set_price i n d = d\<lparr>db_prices := map (\<lambda>(k, v). (k, if k = i then n else v)) (db_prices d)\<rparr>"

definition operator_prices :: "host \<Rightarrow> token_config option \<Rightarrow> http_request \<Rightarrow> data_session" where
  "operator_prices h token q =
     (if token \<noteq> None then problem ''HTS terms require operator provisioning.'' 405
      else if \<not> is_operator h q then problem ''Operator authentication required.'' 401
      else liftS (read_request_json (hs_web h) 16384 q) (\<lambda>v.
        if v = JNull then Reply (Inl (Thrown ''TypeError''))
        else (let i = interpolated (fld v ''providerId'')
          in case check (\<lambda>n. i \<in> {''repo-standard'', ''repo-economy''} \<and> 1 \<le> n \<and> n \<le> 100000000) (fint v ''unitPriceAtomic'') of
             None \<Rightarrow> problem ''Invalid price.'' 400
           | Some n \<Rightarrow> Sql (\<lambda>d. (answer (JObj (copied ''providerId'' (fld v ''providerId'') @ copied ''unitPriceAtomic'' (fld v ''unitPriceAtomic''))) 200,
               set_price i n d)))))"

section \<open>A paid request\<close>

text \<open>\<open>buildPaymentRequirements\<close> for the quote, and the comparison of what the payer accepted.\<close>

definition term_keys :: "string list" where
  "term_keys = [''scheme'', ''network'', ''asset'', ''amount'', ''payTo'', ''maxTimeoutSeconds'']"

definition same_fee_payer :: "json \<Rightarrow> json \<Rightarrow> bool res" where
  "same_fee_payer accepted required = (case fld required ''extra'' of
       None \<Rightarrow> Inl (Thrown ''TypeError'')
     | Some JNull \<Rightarrow> Inl (Thrown ''TypeError'')
     | Some e \<Rightarrow> Inr (strict_eq (Option.bind (fld accepted ''extra'') (\<lambda>x. fld x ''feePayer'')) (fld e ''feePayer'')))"

definition accepted_terms :: "string \<Rightarrow> json \<Rightarrow> json \<Rightarrow> bool res" where
  "accepted_terms url payload required =
     (if payload = JNull then Inl (Thrown ''TypeError'')
      else if \<not> (strict_eq (fld payload ''x402Version'') (Some (int_json 2)) \<and>
          Option.bind (fld payload ''resource'') (\<lambda>r. fld r ''url'') = Some (JStr url)) then Inr False
      else case fld payload ''accepted'' of
          None \<Rightarrow> Inr False
        | Some a \<Rightarrow> if \<not> truthy (Some a) then Inr False
            else if required = JNull then Inl (Thrown ''TypeError'')
            else if \<not> list_all (\<lambda>k. strict_eq (fld a k) (fld required k)) term_keys then Inr False
            else same_fee_payer a required)"

definition proven_payer :: "json \<Rightarrow> string option res" where
  "proven_payer v = (if v = JNull then Inl (Thrown ''TypeError'')
     else Inr (if truthy (fld v ''isValid'') then check is_account (fstr v ''payer'') else None))"

definition native_transaction :: "json \<Rightarrow> string option res" where
  "native_transaction payload = (case fld payload ''payload'' of
       None \<Rightarrow> Inl (Thrown ''TypeError'')
     | Some JNull \<Rightarrow> Inl (Thrown ''TypeError'')
     | Some p \<Rightarrow> Inr (fstr p ''transaction''))"

definition offer_expired :: "web \<Rightarrow> a2a_offer option \<Rightarrow> int \<Rightarrow> int \<Rightarrow> bool" where
  "offer_expired w offer t t' = (case offer of None \<Rightarrow> False
     | Some ao \<Rightarrow> date_le (parse_date w (of_expires ao)) (Some t) \<or> date_le (parse_date w (of_mandateExpires ao)) (Some t'))"

text \<open>The offer a request names, which must be for exactly what it asks.\<close>

definition negotiated_offer ::
    "host \<Rightarrow> data_answers \<Rightarrow> token_config option \<Rightarrow> http_request \<Rightarrow> json \<Rightarrow> string \<Rightarrow> string \<Rightarrow> string \<Rightarrow> string list \<Rightarrow> repo_quote \<Rightarrow>
      a2a_offer option res" where
  "negotiated_offer h x token q v provider url payTo repos qt =
     (case fld v ''a2aOfferToken'' of
        None \<Rightarrow> Inr None
      | Some o1 \<Rightarrow>
          bindR (of_opt (Err []) (if token = None then as_str o1 else None)) (\<lambda>text.
          bindR (a2aConfiguration (hs_web h) (hs_env h)) (\<lambda>c.
          bindR (verifyA2AOffer (hs_web h) (da_offerClock x) text c False) (\<lambda>ao.
          bindR (need (hq_header q ''idempotency-key'' = Some (ao_paymentRequest ao) \<and> of_provider ao = provider \<and>
              of_resource ao = url \<and> of_payTo ao = payTo \<and> of_amount ao = repo_quote.rq_amount qt \<and>
              of_unitPrice ao = repo_quote.rq_unitPrice qt \<and> stringify (repos_json (of_repos ao)) = stringify (repos_json repos)) (Err [])) (\<lambda>_.
            Inr (Some ao))))))"

text \<open>
  The reservation: the primary key and the two unique indexes decide; a conflict inserts nothing.
  The row's check refuses an amount that is not positive.
\<close>

definition conflicts :: "submission \<Rightarrow> service_payment \<Rightarrow> bool" where
  "conflicts s p \<longleftrightarrow> su_transaction p = su_transaction s \<or> (su_offer s \<noteq> None \<and> su_offer p = su_offer s) \<or>
     (su_offerKey s \<noteq> None \<and> su_offerKey p = su_offerKey s)"

definition pending_payment :: "submission \<Rightarrow> service_payment" where
  "pending_payment s = submission.extend s \<lparr>sy_settled = False, sy_settlement = None, sy_evidence = None\<rparr>"

definition claim_payment :: "submission \<Rightarrow> data_db \<Rightarrow> (bool \<times> data_db) res" where
  "claim_payment s d =
     (if su_amount s \<le> 0 then Inl (Thrown ''check violation'')
      else if list_ex (conflicts s) (db_payments d) then Inr (False, d)
      else Inr (True, d\<lparr>db_payments := db_payments d @ [pending_payment s]\<rparr>))"

definition settle_payment :: "string \<Rightarrow> json \<Rightarrow> json list \<Rightarrow> data_db \<Rightarrow> data_db" where
  "settle_payment i settlement es d = d\<lparr>db_payments := map (\<lambda>p.
     if su_transaction p = i \<and> \<not> sy_settled p
     then p\<lparr>sy_settled := True, sy_settlement := Some settlement, sy_evidence := Some es\<rparr> else p) (db_payments d)\<rparr>"

definition submission_of :: "token_config option \<Rightarrow> a2a_offer option \<Rightarrow> string \<Rightarrow> string list \<Rightarrow> repo_quote \<Rightarrow> string \<Rightarrow> submission" where
  "submission_of token offer provider repos qt i =
     \<lparr>su_transaction = i, su_provider = provider, su_repos = repos, su_amount = repo_quote.rq_amount qt,
      su_asset = (case token of None \<Rightarrow> HBAR_ASSET | Some t \<Rightarrow> tk_asset t), su_offer = map_option ao_id offer,
      su_offerKey = map_option (\<lambda>ao. of_payer ao @ '':'' @ of_requestId ao) offer\<rparr>"

text \<open>The facilitator's answer, after the payment was handed to it.\<close>

definition settle_outcome ::
    "submission \<Rightarrow> repo_quote \<Rightarrow> string \<Rightarrow> json list \<Rightarrow> json res \<Rightarrow> data_session" where
  "settle_outcome s qt payer es settled =
     liftS settled (\<lambda>v.
     if v = JNull then Reply (Inl (Thrown ''TypeError''))
     else if \<not> (truthy (fld v ''success'') \<and> truthy (fld v ''transaction'') \<and> fld v ''network'' = Some (JStr HEDERA_NETWORK))
       then answer_header (JObj [(''error'', JStr ''Settlement failed or uncertain; reconcile before retrying.'')]) 502 ''PAYMENT-RESPONSE'' v
     else case validateSettlement v payer of
         Inr t \<Rightarrow> if normalizeTransactionId t = normalizeTransactionId (su_transaction s)
           then Sql (\<lambda>d. (answer_header (JObj [(''evidence'', JArr es), (''quote'', quote_json qt)]) 200 ''PAYMENT-RESPONSE'' v,
                  settle_payment (su_transaction s) v es d))
           else answer_header (JObj [(''error'', JStr ''Settlement identity is unproven; reconcile the reserved original transaction before retrying.'')]) 502 ''PAYMENT-RESPONSE'' v
       | Inl _ \<Rightarrow> answer_header (JObj [(''error'', JStr ''Settlement identity is unproven; reconcile the reserved original transaction before retrying.'')]) 502 ''PAYMENT-RESPONSE'' v)"

definition submit_payment :: "submission \<Rightarrow> data_session \<Rightarrow> data_session" where
  "submit_payment s k = Sql (\<lambda>d. (k, d\<lparr>db_sent := db_sent d @ [s]\<rparr>))"

definition reserve_and_settle ::
    "host \<Rightarrow> data_answers \<Rightarrow> a2a_offer option \<Rightarrow> submission \<Rightarrow> repo_quote \<Rightarrow> string \<Rightarrow> json list \<Rightarrow> json \<Rightarrow> json \<Rightarrow> data_session" where
  "reserve_and_settle h x offer s qt payer es payload required =
     transact (claim_payment s) (\<lambda>claimed.
     if \<not> claimed then problem ''Payment already submitted; reconcile the existing transaction.'' 409
     else if offer_expired (hs_web h) offer (da_now x 2) (da_now x 3)
       then problem ''A2A authority expired. Reserved intent requires reconciliation.'' 409
     else submit_payment s (settle_outcome s qt payer es (da_settle x payload required)))"

definition prepared_payment ::
    "host \<Rightarrow> data_answers \<Rightarrow> token_config option \<Rightarrow> a2a_offer option \<Rightarrow> string \<Rightarrow> string list \<Rightarrow> repo_quote \<Rightarrow> string \<Rightarrow> json \<Rightarrow> json \<Rightarrow> data_session" where
  "prepared_payment h x token offer provider repos qt payer payload required =
     (case fetchRepoEvidence (da_get x) (da_fetched x) repos of
        Inl _ \<Rightarrow> problem ''GitHub evidence unavailable; payment was not submitted.'' 502
      | Inr es \<Rightarrow> liftS (native_transaction payload) (\<lambda>tx. case tx of
            None \<Rightarrow> problem ''Missing native transaction.'' 400
          | Some text \<Rightarrow> liftS (da_native x text) (\<lambda>i. case check (\<lambda>i. i \<noteq> []) i of
                None \<Rightarrow> problem ''Missing native transaction ID.'' 400
              | Some i \<Rightarrow> if offer_expired (hs_web h) offer (da_now x 0) (da_now x 1)
                  then problem ''A2A spending authority expired before settlement.'' 409
                  else reserve_and_settle h x offer (submission_of token offer provider repos qt i) qt payer es payload required)))"

definition challenge_json :: "string \<Rightarrow> nat \<Rightarrow> json \<Rightarrow> json" where
  "challenge_json url n required = JObj
     [(''x402Version'', int_json 2),
      (''resource'', JObj [(''url'', JStr url), (''description'', JStr (''Live GitHub evidence for '' @ nat_dec n @ '' repositories'')),
         (''mimeType'', JStr ''application/json'')]),
      (''accepts'', JArr [required])]"

definition verified_payment ::
    "host \<Rightarrow> data_answers \<Rightarrow> token_config option \<Rightarrow> a2a_offer option \<Rightarrow> string \<Rightarrow> string list \<Rightarrow> repo_quote \<Rightarrow> json \<Rightarrow> json \<Rightarrow> data_session" where
  "verified_payment h x token offer provider repos qt payload required =
     liftS (bindR (da_verify x payload required) proven_payer) (\<lambda>payer. case payer of
         None \<Rightarrow> problem ''Payment verification failed or native payer is unproven.'' 402
       | Some p \<Rightarrow> if (case offer of None \<Rightarrow> False | Some ao \<Rightarrow> p \<noteq> of_payer ao)
           then problem ''Payment payer differs from negotiated offer.'' 402
           else prepared_payment h x token offer provider repos qt p payload required)"

definition sell_evidence ::
    "host \<Rightarrow> data_answers \<Rightarrow> token_config option \<Rightarrow> http_request \<Rightarrow> string \<Rightarrow> string \<Rightarrow> string \<Rightarrow> a2a_offer option \<Rightarrow> string list \<Rightarrow> repo_quote \<Rightarrow>
      data_session" where
  "sell_evidence h x token q provider url payTo offer repos qt =
     liftS (da_requirements x payTo (case token of None \<Rightarrow> HBAR_ASSET | Some t \<Rightarrow> tk_asset t) (repo_quote.rq_amount qt)) (\<lambda>required.
     let challenge = challenge_json url (length repos) required in
     case hq_header q ''payment-signature'' of
       None \<Rightarrow> answer_header challenge 402 ''PAYMENT-REQUIRED'' challenge
     | Some signature \<Rightarrow>
         if signature = [] then answer_header challenge 402 ''PAYMENT-REQUIRED'' challenge
         else if 24000 < length signature then problem ''Oversized payment signature.'' 400
         else (case da_decode x signature of
             Inl _ \<Rightarrow> problem ''Malformed payment signature.'' 400
           | Inr payload \<Rightarrow> liftS (accepted_terms url payload required) (\<lambda>same_terms.
               if \<not> same_terms then answer_header (JObj [(''error'', JStr ''Payment terms changed; fetch a fresh quote.'')]) 402 ''PAYMENT-REQUIRED'' challenge
               else verified_payment h x token offer provider repos qt payload required)))"

definition quote_or_purchase ::
    "host \<Rightarrow> data_answers \<Rightarrow> token_config option \<Rightarrow> http_request \<Rightarrow> string \<Rightarrow> string \<Rightarrow> string option \<Rightarrow> json \<Rightarrow> data_session" where
  "quote_or_purchase h x token q base payTo evidenceOf v =
     (if v = JNull \<and> evidenceOf = None then Reply (Inl (Thrown ''TypeError''))
      else let provider = (case evidenceOf of Some p \<Rightarrow> p | None \<Rightarrow> interpolated (fld v ''providerId''));
               bad = problem ''Invalid provider or repository request.'' 400;
               url = base @ ''/evidence/'' @ provider
      in case validateRepos (given (fld v ''repos'') JNull) of
          Inl _ \<Rightarrow> bad
        | Inr repos \<Rightarrow> priceBook token (\<lambda>book.
            case bindR book (\<lambda>rows. createQuote (da_clock x) provider (repos_json repos) (as_book rows) payTo) of
              Inl _ \<Rightarrow> bad
            | Inr qt \<Rightarrow>
                if evidenceOf = None
                then answer (JObj ((case token of None \<Rightarrow> entries (quote_json qt)
                    | Some t \<Rightarrow> AList.update ''asset'' (JStr (tk_asset t)) (entries (quote_json qt))) @ token_fields token)) 200
                else (case negotiated_offer h x token q v provider url payTo repos qt of
                    Inl _ \<Rightarrow> problem ''Invalid, changed or expired A2A offer.'' 400
                  | Inr offer \<Rightarrow> sell_evidence h x token q provider url payTo offer repos qt)))"

section \<open>Scheduled deliveries\<close>

text \<open>\<open>/^\d+\.\d+$/\<close>, of the text of any value.\<close>

definition is_consensus_time :: "string \<Rightarrow> bool" where
  "is_consensus_time s = (case split_on (CHR ''.'') s of
     [a, b] \<Rightarrow> a \<noteq> [] \<and> b \<noteq> [] \<and> list_all is_digit a \<and> list_all is_digit b | _ \<Rightarrow> False)"

definition delivery_for :: "string \<Rightarrow> data_db \<Rightarrow> delivery_row option" where
  "delivery_for i d = find (\<lambda>r. dl_schedule r = i) (db_deliveries d)"

definition insert_delivery :: "delivery_row \<Rightarrow> data_db \<Rightarrow> bool \<times> data_db" where
  "insert_delivery r d =
     (if list_ex (\<lambda>p. dl_schedule p = dl_schedule r) (db_deliveries d) then (False, d)
      else (True, d\<lparr>db_deliveries := db_deliveries d @ [r]\<rparr>))"

definition p_scheduled :: "json \<Rightarrow> (json \<times> int \<times> string) option" where
  "p_scheduled v =
     (if \<not> strict [''plan'', ''round'', ''scheduleId''] v then None
      else Option.bind (check (\<lambda>n. 0 \<le> n) (fint v ''round'')) (\<lambda>n.
           Option.bind (check is_account (fstr v ''scheduleId'')) (\<lambda>i. Some (given (fld v ''plan'') JNull, n, i))))"

definition scheduled_proof :: "schedule_plan \<Rightarrow> int \<Rightarrow> string \<Rightarrow> json \<Rightarrow> json" where
  "scheduled_proof p n i timestamp = JObj
     [(''scheduleId'', JStr i), (''consensusTimestamp'', timestamp), (''payer'', JStr (sp_payer p)),
      (''payTo'', JStr (sp_payTo p)), (''amountAtomic'', int_json (sp_unitPrice p * int (length (sp_repos p)))),
      (''network'', JStr HEDERA_NETWORK), (''asset'', JStr ''HBAR''), (''round'', int_json n)]"

definition replay_delivery :: "string \<Rightarrow> delivery_row \<Rightarrow> data_session" where
  "replay_delivery f r =
     (if dl_fingerprint r \<noteq> f then problem ''Schedule already belongs to a different resource request.'' 409
      else if dl_delivered r then answer (JObj [(''evidence'', JArr (dl_evidence r)), (''proof'', dl_proof r), (''replayed'', JBool True)]) 200
      else problem ''Delivery is pending; reconcile the original request.'' 409)"

definition mirror_base :: string where
  "mirror_base = ''https://testnet.mirrornode.hedera.com/api/v1''"

definition deliver_proved ::
    "host \<Rightarrow> data_answers \<Rightarrow> schedule_plan \<Rightarrow> int \<Rightarrow> string \<Rightarrow> string \<Rightarrow> json \<Rightarrow> json \<Rightarrow> json \<Rightarrow> data_session" where
  "deliver_proved h x p n i f schedule timestamp transfer =
     liftS (validateScheduledProof (hs_web h) schedule transfer p n i) (\<lambda>_.
     liftS (fetchRepoEvidence (da_get x) (da_fetched x) (sp_repos p)) (\<lambda>es.
     let evidenced = scheduled_proof p n i timestamp;
         r = \<lparr>dl_schedule = i, dl_fingerprint = f, dl_delivered = True, dl_evidence = es, dl_proof = evidenced\<rparr>
     in Sql (\<lambda>d. case insert_delivery r d of (inserted, d') \<Rightarrow>
          (if inserted then answer (JObj [(''evidence'', JArr es), (''proof'', evidenced)]) 200
           else problem ''Concurrent delivery recorded. Retrieve the same request again.'' 409, d'))))"

definition fetch_and_deliver ::
    "host \<Rightarrow> data_answers \<Rightarrow> schedule_plan \<Rightarrow> int \<Rightarrow> string \<Rightarrow> string \<Rightarrow> data_session" where
  "fetch_and_deliver h x p n i f =
     liftS (da_get x (mirror_base @ ''/schedules/'' @ i)) (\<lambda>a.
     if \<not> hr_ok a then problem ''Schedule is not indexed yet.'' 409
     else liftS (hr_body a) (\<lambda>schedule.
     if schedule = JNull then Reply (Inl (Thrown ''TypeError''))
     else case check (\<lambda>v. truthy (Some v) \<and> is_consensus_time (interpolated (Some v))) (fld schedule ''executed_timestamp'') of
       None \<Rightarrow> problem ''Scheduled payment has not executed yet.'' 402
     | Some timestamp \<Rightarrow>
         liftS (da_get x (mirror_base @ ''/transactions?timestamp='' @ encodeURIComponent (interpolated (Some timestamp)))) (\<lambda>b.
         if \<not> hr_ok b then problem ''Scheduled transfer proof is not indexed yet.'' 409
         else liftS (hr_body b) (deliver_proved h x p n i f schedule timestamp))))"

definition scheduled_request :: "host \<Rightarrow> data_answers \<Rightarrow> http_request \<Rightarrow> data_session" where
  "scheduled_request h x q =
     liftS (read_request_json (hs_web h) 16384 q) (\<lambda>v.
     liftS (of_opt Zod (p_scheduled v)) (\<lambda>(plan, n, i).
     liftS (validateSchedulePlan (hs_web h) plan 0 True) (\<lambda>p.
     if hs_env h ''HEDERA_PAY_TO'' \<noteq> Some (sp_payTo p) then problem ''Schedule recipient is not this service.'' 400
     else if sp_count p \<le> n then problem ''Invalid schedule round.'' 400
     else let f = sha256 (hs_web h) (stringify (JArr [schedule_json p, int_json n])) in
       query (delivery_for i) (\<lambda>existing. case existing of
           Some r \<Rightarrow> replay_delivery f r
         | None \<Rightarrow> query (\<lambda>d. map_of (db_prices d) ''repo-standard'') (\<lambda>price.
             if price \<noteq> Some (sp_unitPrice p) then problem ''Resource price changed. No payment is initiated by this endpoint.'' 409
             else fetch_and_deliver h x p n i f)))))"

definition scheduledRepositoryRequest :: "host \<Rightarrow> data_answers \<Rightarrow> http_request \<Rightarrow> data_session" where
  "scheduledRepositoryRequest h x q = caught (scheduled_request h x q) (\<lambda>e.
     \<lparr>ry_status = (if e = Zod then 400 else 503),
      ry_body = JObj [(''error'', JStr (if e = Zod then ''Invalid scheduled resource request.''
        else ''Scheduled proof or resource unavailable. No payment was initiated.''))], ry_headers = []\<rparr>)"

section \<open>The endpoint\<close>

definition data_endpoint :: "host \<Rightarrow> data_answers \<Rightarrow> service_call \<Rightarrow> string list \<Rightarrow> token_config option \<Rightarrow> data_session" where
  "data_endpoint h x r path token =
     liftS (case token of Some t \<Rightarrow> Inr (tk_payTo t) | None \<Rightarrow> recipient h) (\<lambda>payTo.
     liftS (hs_origin h) (\<lambda>og.
     let base = og @ ''/x402'' @ (if token = None then [] else ''/hts''); get = (dq_method r = ''GET'');
         missing = problem ''Service endpoint not found.'' 404; endpoint = join ''/'' path
     in if token \<noteq> None \<and> get \<and> length path = 2 \<and> hd path = ''receipts'' then token_receipt (the token) (path ! 1)
        else if get \<and> endpoint = ''health'' then priceBook token (\<lambda>b. liftS b (\<lambda>_. answer health_json 200))
          else if get \<and> endpoint = ''discovery''
            then priceBook token (\<lambda>b. liftS b (\<lambda>rows. answer (JArr (map (listed_provider token base) rows)) 200))
          else if dq_method r \<noteq> ''POST'' then missing
          else if endpoint = ''operator/prices'' then operator_prices h token (dq_http r)
          else if endpoint \<noteq> ''quote'' \<and> \<not> (length path = 2 \<and> hd path = ''evidence'') then missing
          else liftS (read_request_json (hs_web h) 16384 (dq_http r))
            (quote_or_purchase h x token (dq_http r) base payTo (if endpoint = ''quote'' then None else Some (path ! 1)))))"

definition data_routes :: "host \<Rightarrow> data_answers \<Rightarrow> service_call \<Rightarrow> data_session" where
  "data_routes h x r =
     (let path = dq_path r
      in if path \<noteq> [] \<and> hd path = ''hts'' then hederaTokenConfig (\<lambda>token. case token of
            None \<Rightarrow> problem ''HTS service is not configured.'' 503
          | Some t \<Rightarrow> data_endpoint h x r (tl path) (Some t))
         else data_endpoint h x r path None)"

definition publicDataRequest :: "host \<Rightarrow> data_answers \<Rightarrow> service_call \<Rightarrow> data_session" where
  "publicDataRequest h x r =
     (if join ''/'' (dq_path r) = ''scheduled/evidence'' \<and> dq_method r = ''POST'' then scheduledRepositoryRequest h x (dq_http r)
      else caught (data_routes h x r) (\<lambda>_.
        \<lparr>ry_status = 503, ry_body = JObj [(''error'', JStr ''Data service unavailable. Reconcile any submitted payment before retrying.'')],
         ry_headers = []\<rparr>))"

text \<open>A call of the service, and what operators change outside it: configuration and prices.\<close>

type_synonym data_call = "host \<times> data_answers \<times> service_call"

definition data_api :: "data_call \<Rightarrow> data_session" where
  "data_api c = (case c of (h, x, r) \<Rightarrow> publicDataRequest h x r)"

definition data_world :: "(string \<Rightarrow> json option) \<times> (string \<times> int) list \<Rightarrow> data_db \<Rightarrow> data_db" where
  "data_world c d = d\<lparr>db_config := fst c, db_prices := snd c\<rparr>"

end
