(* ===== verification/DataSafety.thy ===== *)
theory DataSafety
  imports DataService
begin

text \<open>
  What any pool of requests does with the payments of the hosted data service. A request may hand
  a payment to the facilitator only with a ticket, which the insert of its row gives once.
  \<open>licensed I claimed used T s\<close> is the contract of a session that holds the tickets \<open>T\<close>: each of its
  statements keeps \<open>I\<close>, and either uses none and gains at most the tickets it claims, or uses one
  of \<open>T\<close> and loses it. In a pool of such sessions no ticket is used twice.
\<close>

section \<open>Tickets\<close>

definition spends :: "('d \<Rightarrow> 'k set) \<Rightarrow> ('d \<Rightarrow> 'k list) \<Rightarrow> 'k set \<Rightarrow> 'k set \<Rightarrow> 'd \<Rightarrow> 'd \<Rightarrow> bool" where
  "spends claimed used T T' d d' \<longleftrightarrow> claimed d \<subseteq> claimed d' \<and>
     (used d' = used d \<and> T' \<subseteq> T \<union> (claimed d' - claimed d) \<or>
      (\<exists>k \<in> T. used d' = used d @ [k] \<and> T' \<subseteq> T - {k}))"

inductive licensed ::
    "('d \<Rightarrow> bool) \<Rightarrow> ('d \<Rightarrow> 'k set) \<Rightarrow> ('d \<Rightarrow> 'k list) \<Rightarrow> 'k set \<Rightarrow> ('d, 'r) session \<Rightarrow> bool"
  for I claimed used where
  reply: "licensed I claimed used T (Reply r)"
| sql: "(\<And>d. I d \<Longrightarrow> I (snd (g d)) \<and>
      (\<exists>T'. spends claimed used T T' d (snd (g d)) \<and> licensed I claimed used T' (fst (g d)))) \<Longrightarrow>
    licensed I claimed used T (Sql g)"

inductive_cases licensed_Sql: "licensed I claimed used T (Sql g)"

locale tickets =
  fixes I :: "'d \<Rightarrow> bool" and claimed :: "'d \<Rightarrow> 'k set" and used :: "'d \<Rightarrow> 'k list"
begin

lemma idle: "spends claimed used T T d d"
  by (simp add: spends_def)

lemma queried: "(\<And>d. I d \<Longrightarrow> licensed I claimed used T (k (f d))) \<Longrightarrow> licensed I claimed used T (query f k)"
  unfolding query_def by (rule licensed.sql) (auto intro: idle)

lemma stated:
  assumes "\<And>d. I d \<Longrightarrow> I (snd (g d)) \<and> spends claimed used T T' d (snd (g d)) \<and> licensed I claimed used T' (fst (g d))"
  shows "licensed I claimed used T (Sql g)"
  using assms by (blast intro: licensed.sql)

lemma transacted:
  assumes "\<And>d a d'. I d \<Longrightarrow> f d = Inr (a, d') \<Longrightarrow> I d' \<and> (\<exists>T'. spends claimed used T T' d d' \<and> licensed I claimed used T' (k a))"
  shows "licensed I claimed used T (transact f k)"
  unfolding transact_def
proof (rule licensed.sql)
  fix d assume "I d"
  then show "I (snd (case f d of Inl e \<Rightarrow> (Reply (Inl e), d) | Inr (a, d') \<Rightarrow> (k a, d'))) \<and>
      (\<exists>T'. spends claimed used T T' d (snd (case f d of Inl e \<Rightarrow> (Reply (Inl e), d) | Inr (a, d') \<Rightarrow> (k a, d'))) \<and>
        licensed I claimed used T' (fst (case f d of Inl e \<Rightarrow> (Reply (Inl e), d) | Inr (a, d') \<Rightarrow> (k a, d'))))"
    using assms [of d] by (auto split: sum.splits intro: idle licensed.reply)
qed

lemma lifted: "(\<And>a. r = Inr a \<Longrightarrow> licensed I claimed used T (k a)) \<Longrightarrow> licensed I claimed used T (liftS r k)"
  by (cases r) (auto simp: liftS_def intro: licensed.reply)

lemma bound: "licensed I claimed used T s \<Longrightarrow> (\<And>T r. licensed I claimed used T (f r)) \<Longrightarrow> licensed I claimed used T (bindS s f)"
proof (induction rule: licensed.induct)
  case (sql g T)
  show ?case
    unfolding bindS.simps
  proof (rule licensed.sql)
    fix d assume "I d"
    then show "I (snd (map_prod (\<lambda>s. bindS s f) (\<lambda>x. x) (g d))) \<and>
      (\<exists>T'. spends claimed used T T' d (snd (map_prod (\<lambda>s. bindS s f) (\<lambda>x. x) (g d))) \<and>
        licensed I claimed used T' (fst (map_prod (\<lambda>s. bindS s f) (\<lambda>x. x) (g d))))"
      using sql.IH sql.prems by fastforce
  qed
qed simp

end

text \<open>The tickets of a pool: those each session holds, kept apart from each other and from the used ones.\<close>

definition apart :: "('d \<Rightarrow> 'k set) \<Rightarrow> ('d \<Rightarrow> 'k list) \<Rightarrow> 'd \<Rightarrow> 'k set list \<Rightarrow> bool" where
  "apart claimed used d Ts \<longleftrightarrow> distinct (used d) \<and> set (used d) \<subseteq> claimed d \<and>
     (\<forall>i < length Ts. Ts ! i \<subseteq> claimed d - set (used d)) \<and>
     (\<forall>i < length Ts. \<forall>j < length Ts. i \<noteq> j \<longrightarrow> Ts ! i \<inter> Ts ! j = {})"

lemma apart_spends:
  assumes "apart claimed used d Ts" "i < length Ts" "spends claimed used (Ts ! i) T d d'"
  shows "apart claimed used d' (Ts[i := T])"
proof -
  have a: "distinct (used d)" "set (used d) \<subseteq> claimed d"
    and b: "\<And>j. j < length Ts \<Longrightarrow> Ts ! j \<subseteq> claimed d - set (used d)"
    and c: "\<And>j k. j < length Ts \<Longrightarrow> k < length Ts \<Longrightarrow> j \<noteq> k \<Longrightarrow> Ts ! j \<inter> Ts ! k = {}"
    using assms(1) by (simp_all add: apart_def)
  have m: "claimed d \<subseteq> claimed d'" using assms(3) by (simp add: spends_def)
  have bi: "Ts ! i \<subseteq> claimed d - set (used d)" using b [OF assms(2)] .
  have "distinct (used d') \<and> set (used d') \<subseteq> claimed d' \<and> T \<subseteq> claimed d' - set (used d') \<and>
      (\<forall>j < length Ts. j \<noteq> i \<longrightarrow> Ts ! j \<subseteq> claimed d' - set (used d') \<and> Ts ! j \<inter> T = {})"
  proof (cases "used d' = used d \<and> T \<subseteq> Ts ! i \<union> (claimed d' - claimed d)")
    case True
    then have u: "used d' = used d" and T: "T \<subseteq> Ts ! i \<union> (claimed d' - claimed d)" by simp_all
    have "T \<subseteq> claimed d' - set (used d)" using T a(2) bi m by blast
    moreover have "Ts ! j \<subseteq> claimed d' - set (used d) \<and> Ts ! j \<inter> T = {}" if "j < length Ts" "j \<noteq> i" for j
      using T b [OF that(1)] c [OF that(1) assms(2) that(2)] m by blast
    ultimately show ?thesis using a m unfolding u by blast
  next
    case False
    then obtain k where k: "k \<in> Ts ! i" "used d' = used d @ [k]" "T \<subseteq> Ts ! i - {k}"
      using assms(3) unfolding spends_def by blast
    have u: "set (used d') = insert k (set (used d))" using k(2) by simp
    have "k \<in> claimed d'" "k \<notin> set (used d)" using k(1) bi m by blast+
    moreover have "T \<subseteq> claimed d' - set (used d')" unfolding u using k(1,3) bi m by blast
    moreover have "Ts ! j \<subseteq> claimed d' - set (used d') \<and> Ts ! j \<inter> T = {}" if "j < length Ts" "j \<noteq> i" for j
      unfolding u using k(1,3) b [OF that(1)] m c [OF that(1) assms(2) that(2)] by blast
    ultimately show ?thesis using k(2) a m by auto
  qed
  then have e: "distinct (used d')" "set (used d') \<subseteq> claimed d'"
    and f: "\<And>j. j < length Ts \<Longrightarrow> Ts[i := T] ! j \<subseteq> claimed d' - set (used d')"
    and g: "\<And>j. j < length Ts \<Longrightarrow> j \<noteq> i \<Longrightarrow> Ts ! j \<inter> T = {}"
    using assms(2) by (simp_all add: nth_list_update)
  have "Ts[i := T] ! j \<inter> Ts[i := T] ! k = {}" if "j < length Ts" "k < length Ts" "j \<noteq> k" for j k
    using that g [OF that(1)] g [OF that(2)] c [OF that] assms(2) by (simp add: nth_list_update Int_commute)
  then show ?thesis unfolding apart_def length_list_update using e f by blast
qed

locale ticket_pool = tickets I claimed used
  for I :: "'d \<Rightarrow> bool" and claimed :: "'d \<Rightarrow> 'k set" and used :: "'d \<Rightarrow> 'k list" +
  fixes api :: "'q \<Rightarrow> ('d, 'r) session" and world :: "'w \<Rightarrow> 'd \<Rightarrow> 'd"
  assumes api: "licensed I claimed used {} (api q)"
    and world: "I d \<Longrightarrow> I (world w d) \<and> claimed (world w d) = claimed d \<and> used (world w d) = used d"
begin

definition orderly :: "'d \<times> ('d, 'r) session list \<Rightarrow> bool" where
  "orderly p \<longleftrightarrow> I (fst p) \<and>
     (\<exists>Ts. apart claimed used (fst p) Ts \<and> list_all2 (licensed I claimed used) Ts (snd p))"

lemma step_orderly:
  assumes "orderly p"
  shows "orderly (pool_step api world e p)"
proof -
  obtain d ss where p: "p = (d, ss)" by (cases p)
  obtain Ts where I: "I d" and Ts: "apart claimed used d Ts" "list_all2 (licensed I claimed used) Ts ss"
    using assms by (auto simp: orderly_def p)
  show ?thesis
  proof (cases e)
    case (Call q)
    have "apart claimed used d (Ts @ [{}])" using Ts(1) by (auto simp: apart_def nth_append less_Suc_eq)
    moreover have "list_all2 (licensed I claimed used) (Ts @ [{}]) (ss @ [api q])"
      using Ts(2) api by (simp add: list_all2_appendI)
    ultimately show ?thesis using I Call by (auto simp: p orderly_def)
  next
    case (World w)
    then show ?thesis using I Ts world [OF I, of w] by (auto simp: p orderly_def apart_def)
  next
    case (Turn i)
    show ?thesis
    proof (cases "\<exists>g. i < length ss \<and> ss ! i = Sql g")
      case False
      then show ?thesis using I Ts Turn by (auto simp: p orderly_def split: session.split)
    next
      case True
      then obtain g where g: "i < length ss" "ss ! i = Sql g" by blast
      have n: "length Ts = length ss" using Ts(2) by (rule list_all2_lengthD)
      have "licensed I claimed used (Ts ! i) (Sql g)" using list_all2_nthD2 [OF Ts(2) g(1)] g(2) by simp
      then obtain T' where s: "I (snd (g d))" "spends claimed used (Ts ! i) T' d (snd (g d))"
          "licensed I claimed used T' (fst (g d))"
        using I by (auto elim: licensed_Sql)
      have "pool_step api world e p = (snd (g d), ss[i := fst (g d)])"
        using g by (simp add: p Turn case_prod_beta Let_def)
      then show ?thesis
        using s apart_spends [OF Ts(1) _ s(2)] g(1) n list_all2_update_cong [OF Ts(2) s(3)]
        by (auto simp: orderly_def)
    qed
  qed
qed

lemma run_orderly: "orderly p \<Longrightarrow> orderly (run_pool api world es p)"
  by (induction es arbitrary: p) (simp_all add: run_pool_def step_orderly)

lemma used_once:
  assumes "I d" "used d = []"
  shows "I (fst (run_pool api world es (d, []))) \<and> distinct (used (fst (run_pool api world es (d, [])))) \<and>
    set (used (fst (run_pool api world es (d, [])))) \<subseteq> claimed (fst (run_pool api world es (d, [])))"
proof -
  have "orderly (d, [])" using assms by (auto simp: orderly_def apart_def)
  then show ?thesis using run_orderly [of "(d, [])" es] by (auto simp: orderly_def apart_def)
qed

end

section \<open>Unique keys\<close>

definition unique_by :: "('a \<Rightarrow> 'k option) \<Rightarrow> 'a list \<Rightarrow> bool" where
  "unique_by f xs = distinct (List.map_filter f xs)"

lemma unique_by_Some: "unique_by (Some \<circ> f) xs \<longleftrightarrow> distinct (map f xs)"
  by (induction xs) (auto simp: unique_by_def map_filter_simps List.map_filter_def)

lemma unique_by_Nil [simp]: "unique_by f []"
  by (simp add: unique_by_def map_filter_simps)

lemma unique_by_Cons: "unique_by f (x # xs) \<longleftrightarrow> unique_by f xs \<and> (f x = None \<or> (\<forall>y \<in> set xs. f y \<noteq> f x))"
  by (auto simp: unique_by_def map_filter_simps List.map_filter_def image_iff split: option.splits)

lemma unique_by_snoc: "unique_by f (xs @ [x]) \<longleftrightarrow> unique_by f xs \<and> (f x = None \<or> (\<forall>y \<in> set xs. f y \<noteq> f x))"
  by (induction xs) (auto simp: unique_by_Cons)

lemma unique_by_eq: "unique_by f xs \<Longrightarrow> x \<in> set xs \<Longrightarrow> y \<in> set xs \<Longrightarrow> f x = f y \<Longrightarrow> f x \<noteq> None \<Longrightarrow> x = y"
  by (induction xs) (auto simp: unique_by_Cons)

lemma unique_by_subset: "unique_by f xs \<Longrightarrow> distinct ys \<Longrightarrow> set ys \<subseteq> set xs \<Longrightarrow> unique_by f ys"
proof (induction ys)
  case (Cons y ys)
  then show ?case using unique_by_eq [OF Cons.prems(1), of _ y] by (auto simp: unique_by_Cons)
qed simp

section \<open>The payments of the data service\<close>

definition submissions :: "data_db \<Rightarrow> submission list" where
  "submissions d = map submission.truncate (db_payments d)"

definition keys_unique :: "submission list \<Rightarrow> bool" where
  "keys_unique ss \<longleftrightarrow> unique_by (Some \<circ> su_transaction) ss \<and> unique_by su_offer ss \<and> unique_by su_offerKey ss"

definition tables_ok :: "data_db \<Rightarrow> bool" where
  "tables_ok d \<longleftrightarrow> keys_unique (submissions d) \<and> (\<forall>s \<in> set (submissions d). 0 < su_amount s) \<and>
     distinct (map dl_schedule (db_deliveries d))"

lemma submissions_simps [simp]:
  "submissions (d\<lparr>db_sent := ss\<rparr>) = submissions d" "submissions (d\<lparr>db_prices := ps\<rparr>) = submissions d"
  "submissions (d\<lparr>db_config := c\<rparr>) = submissions d" "submissions (d\<lparr>db_deliveries := rs\<rparr>) = submissions d"
  by (simp_all add: submissions_def)

lemma claim_payment_ok:
  assumes "tables_ok d" "claim_payment s d = Inr (b, d')"
  shows "tables_ok d' \<and> db_sent d' = db_sent d \<and> (if b then submissions d' = submissions d @ [s] \<and> s \<notin> set (submissions d) else d' = d)"
proof (cases b)
  case False
  then show ?thesis using assms by (auto simp: claim_payment_def split: if_splits)
next
  case True
  then have n: "0 < su_amount s" "\<not> list_ex (conflicts s) (db_payments d)"
      and d': "d' = d\<lparr>db_payments := db_payments d @ [pending_payment s]\<rparr>"
    using assms(2) by (auto simp: claim_payment_def split: if_splits)
  have "submission.truncate (pending_payment s) = s"
    by (cases s) (simp add: pending_payment_def submission.defs)
  then have sub: "submissions d' = submissions d @ [s]" by (simp add: d' submissions_def)
  have "su_transaction y \<noteq> su_transaction s \<and> (su_offer s = None \<or> su_offer y \<noteq> su_offer s) \<and>
      (su_offerKey s = None \<or> su_offerKey y \<noteq> su_offerKey s)" if "y \<in> set (submissions d)" for y
    using that n(2) by (auto simp: submissions_def list_ex_iff conflicts_def submission.defs)
  then show ?thesis
    using True assms(1) n(1) unfolding tables_ok_def keys_unique_def sub
    by (auto simp: unique_by_snoc d')
qed

lemma settle_payment_keeps:
  "submissions (settle_payment i v es d) = submissions d" "db_sent (settle_payment i v es d) = db_sent d"
  "db_deliveries (settle_payment i v es d) = db_deliveries d"
  by (auto simp: settle_payment_def submissions_def submission.defs)

lemma insert_delivery_ok:
  "tables_ok d \<Longrightarrow> insert_delivery r d = (b, d') \<Longrightarrow>
    tables_ok d' \<and> submissions d' = submissions d \<and> db_sent d' = db_sent d"
  by (fastforce simp: insert_delivery_def tables_ok_def list_ex_iff image_iff split: if_splits)

interpretation paid: tickets tables_ok "\<lambda>d. set (submissions d)" db_sent .

abbreviation covered :: "submission set \<Rightarrow> data_session \<Rightarrow> bool" where
  "covered \<equiv> licensed tables_ok (\<lambda>d. set (submissions d)) db_sent"

lemma covers_reply [simp]:
  "covered T (Reply r)" "covered T (answer v n)" "covered T (answer_header v n k h)" "covered T (problem t n)"
  by (simp_all add: licensed.reply answer_def answer_header_def problem_def)

lemma covers_quiet:
  assumes "\<And>d. tables_ok d \<Longrightarrow> covered T (fst (g d)) \<and> tables_ok (snd (g d)) \<and> submissions (snd (g d)) = submissions d \<and> db_sent (snd (g d)) = db_sent d"
  shows "covered T (Sql g)"
  using assms by (intro paid.stated [where T' = T]) (simp add: spends_def)

lemma settle_outcome_covered: "covered T (settle_outcome s qt payer es r)"
  unfolding settle_outcome_def
  by (intro paid.lifted)
     (auto simp: settle_payment_keeps tables_ok_def intro!: covers_quiet split: sum.splits)

lemma reserve_and_settle_covered: "covered {} (reserve_and_settle h x offer s qt payer es payload required)"
  unfolding reserve_and_settle_def
proof (rule paid.transacted)
  fix d b d' assume d: "tables_ok d" "claim_payment s d = Inr (b, d')"
  note ok = claim_payment_ok [OF d]
  have "covered {s} (submit_payment s (settle_outcome s qt payer es (da_settle x payload required)))"
    unfolding submit_payment_def
    by (rule paid.stated [where T' = "{}"])
       (auto simp: spends_def tables_ok_def settle_outcome_covered)
  moreover have "spends (\<lambda>d. set (submissions d)) db_sent {} (if b then {s} else {}) d d'"
    using ok by (auto simp: spends_def)
  ultimately show "tables_ok d' \<and> (\<exists>T'. spends (\<lambda>d. set (submissions d)) db_sent {} T' d d' \<and> covered T'
      (if \<not> b then problem ''Payment already submitted; reconcile the existing transaction.'' 409
       else if offer_expired (hs_web h) offer (da_now x 2) (da_now x 3)
         then problem ''A2A authority expired. Reserved intent requires reconciliation.'' 409
       else submit_payment s (settle_outcome s qt payer es (da_settle x payload required))))"
    using ok by (intro conjI exI [of _ "if b then {s} else {}"]) (auto split: if_splits)
qed

lemma prepared_payment_covered: "covered {} (prepared_payment h x token offer provider repos qt payer payload required)"
  unfolding prepared_payment_def
  by (auto intro!: paid.lifted reserve_and_settle_covered split: sum.splits option.splits)

lemma verified_payment_covered: "covered {} (verified_payment h x token offer provider repos qt payload required)"
  unfolding verified_payment_def
  by (auto intro!: paid.lifted prepared_payment_covered split: option.splits)

lemma sell_evidence_covered: "covered {} (sell_evidence h x token q provider url payTo offer repos qt)"
  unfolding sell_evidence_def Let_def
  by (auto intro!: paid.lifted verified_payment_covered split: sum.splits option.splits)

lemma priceBook_covered: "(\<And>b. covered T (k b)) \<Longrightarrow> covered T (priceBook token k)"
  unfolding priceBook_def by (auto intro: paid.queried split: option.splits)

lemma quote_or_purchase_covered: "covered {} (quote_or_purchase h x token q base payTo e v)"
  unfolding quote_or_purchase_def Let_def
  by (auto intro!: priceBook_covered sell_evidence_covered split: sum.splits)

lemma operator_prices_covered: "covered T (operator_prices h token q)"
proof -
  have "covered T (Sql (\<lambda>d. (answer v n, set_price i m d)))" for v n i m
    by (rule covers_quiet) (simp add: set_price_def tables_ok_def)
  then show ?thesis
    unfolding operator_prices_def Let_def by (auto intro!: paid.lifted split: option.splits)
qed

lemma token_receipt_covered: "covered T (token_receipt t i)"
  unfolding token_receipt_def by (auto intro!: paid.queried split: option.splits)

lemma scheduled_covered: "covered {} (scheduledRepositoryRequest h x q)"
proof -
  have deliver: "covered {} (deliver_proved h x p n i f schedule timestamp transfer)" for p n i f schedule timestamp transfer
    unfolding deliver_proved_def Let_def
    by (intro paid.lifted covers_quiet) (use insert_delivery_ok in \<open>auto split: prod.splits if_splits\<close>)
  have fetched: "covered {} (fetch_and_deliver h x p n i f)" for p n i f
    unfolding fetch_and_deliver_def by (auto intro!: paid.lifted deliver split: option.splits)
  have "covered {} (scheduled_request h x q)"
    unfolding scheduled_request_def Let_def
    by (auto intro!: paid.lifted paid.queried fetched simp: replay_delivery_def split: option.splits)
  then show ?thesis
    unfolding scheduledRepositoryRequest_def caught_def by (rule paid.bound) (simp split: sum.split)
qed

lemma data_endpoint_covered: "covered {} (data_endpoint h x r path token)"
  unfolding data_endpoint_def Let_def
  by (intro paid.lifted)
     (simp add: priceBook_covered paid.lifted quote_or_purchase_covered operator_prices_covered token_receipt_covered)

lemma data_routes_covered: "covered {} (data_routes h x r)"
  unfolding data_routes_def hederaTokenConfig_def hederaPublicConfig_def Let_def
  by (auto intro!: paid.lifted paid.queried data_endpoint_covered split: option.splits)

lemma data_api_covered: "covered {} (data_api c)"
proof -
  have "covered {} (caught (data_routes h x r) f)" for h x r f
    unfolding caught_def by (rule paid.bound [OF data_routes_covered]) (simp split: sum.split)
  then show ?thesis
    by (cases c) (simp add: data_api_def publicDataRequest_def scheduled_covered)
qed

interpretation shop: ticket_pool tables_ok "\<lambda>d. set (submissions d)" db_sent data_api data_world
  by unfold_locales (rule data_api_covered, simp add: data_world_def tables_ok_def)

definition data_start :: "(string \<Rightarrow> json option) \<times> (string \<times> int) list \<Rightarrow> data_db" where
  "data_start c = \<lparr>db_prices = snd c, db_config = fst c, db_payments = [], db_deliveries = [], db_sent = []\<rparr>"

text \<open>
  C12. In any pool of requests that starts with empty tables, however requests interleave, stop or
  fail and whatever payers, the facilitator and the mirror node answer: each native transaction, each
  negotiated offer and each of a payer's offer requests is handed to the facilitator at most once,
  only for a positive amount and exactly as the row of its payment holds it; and one schedule has
  at most one delivery.
\<close>
theorem data_service_submits_once:
  "let d = fst (run_pool data_api data_world es (data_start c, [])) in
     distinct (map su_transaction (db_sent d)) \<and> distinct (List.map_filter su_offer (db_sent d)) \<and>
     distinct (List.map_filter su_offerKey (db_sent d)) \<and>
     list_all (\<lambda>s. 0 < su_amount s \<and> List.member (submissions d) s) (db_sent d) \<and>
     distinct (map dl_schedule (db_deliveries d))"
proof -
  let ?d = "fst (run_pool data_api data_world es (data_start c, []))"
  have "tables_ok (data_start c)" "db_sent (data_start c) = []"
    by (simp_all add: data_start_def tables_ok_def submissions_def keys_unique_def)
  then have ok: "tables_ok ?d" "distinct (db_sent ?d)" "set (db_sent ?d) \<subseteq> set (submissions ?d)"
    using shop.used_once by blast+
  note once = unique_by_subset [OF _ ok(2,3)]
  have "unique_by (Some \<circ> su_transaction) (db_sent ?d)" "unique_by su_offer (db_sent ?d)" "unique_by su_offerKey (db_sent ?d)"
    using ok(1) by (auto simp: tables_ok_def keys_unique_def intro: once)
  then show ?thesis
    using ok(1,3) by (auto simp: Let_def tables_ok_def unique_by_Some unique_by_def [of su_offer] unique_by_def [of su_offerKey] list_all_iff)
qed

end
