(* ===== verification/Spec2Isabelle.thy ===== *)
theory Spec2Isabelle
  imports TaskModel CircleOps A2AOffers TokenBuyer A2ABuyer Identity TaskSafety ExecutorLive RunnerHistory Guarantees DataSafety
begin

text \<open>
  Obolos: a marketplace in which agents buy digital services within limits their owners approved.

  \<^bold>\<open>The program.\<close> A hosted workspace (Next.js routes over PostgreSQL, \<open>src/src/lib/platform\<close>)
  keeps users, agents, API keys, mandates, tasks and orders. Private processes of the owner do the
  paying: a runner executes queued runs within a wallet-signed mandate, an executor buys catalogued
  services on Arc through Circle (\<open>src/src/lib/economy\<close>, \<open>src/scripts/economy-*\<close>), and two
  buyers pay for repository data on Hedera (\<open>src/src/lib/integrations/hedera.ts\<close>,
  \<open>src/scripts/hedera-*.ts\<close>). Sellers publish service definitions and, for repository data, signed
  offers over an agent-to-agent protocol (\<open>src/src/lib/hedera\<close>). A private workspace
  (\<open>src/src/lib/engine.ts\<close>, \<open>store.ts\<close>) runs the same purchase end to end from files. What has
  to hold everywhere: no payment twice, none beyond what was approved, and records that stay.

  \<^bold>\<open>Foundations.\<close> \<open>Prelude\<close>: errors (\<open>js_error\<close>), the result type \<open>'a res\<close>, strings.
  \<open>Json\<close>, \<open>JsonParse\<close>, \<open>Bytes\<close>, \<open>IsoDate\<close>: JSON values with decimal numbers, the two
  printers, \<open>JSON.parse\<close> with its round trip, UTF-8 and base64url, dates. \<open>Machine\<close>: programs
  that may die at every effect, over a disk of journals that survives; \<open>triple\<close> states what holds
  after a normal end, a throw or a death. \<open>Dispatch\<close>: the journal discipline of the buyers.
  \<open>Sessions\<close>: requests as sequences of atomic statements on a shared database, interleaved by a
  pool; the locales \<open>evolution\<close> and \<open>platform\<close> are its contract and are interpreted on the
  task service (\<open>TaskSafety\<close>) and on the execution platform (\<open>MarketSafety\<close>).

  \<^bold>\<open>The economy.\<close> \<open>ServiceContract\<close>, \<open>ServiceTerms\<close> (\<open>economy/service-contract.ts\<close>):
  constrained schemas, canonical hashes, service definitions, requests and settlement receipts.
  \<open>TaskModel\<close> (\<open>tasks/model.ts\<close>): plans of paid calls, references between their outputs, budgets.
  \<open>CircleOps\<close> (\<open>scripts/economy-circle.ts\<close>): durable operations under a lock, one submission per
  name. \<open>Executor\<close> (\<open>economy/executor.ts\<close>) and \<open>ExecutorLive\<close> (\<open>economy/executor-live.ts\<close>):
  the order's state machine and its dependencies on Circle, refined to a four-state order.

  \<^bold>\<open>Hedera.\<close> \<open>RepoService\<close>, \<open>Contracts\<close>, \<open>HederaChecks\<close>, \<open>HederaPurchase\<close>: quotes,
  evidence, and the journalled purchase. \<open>A2A\<close>, \<open>A2AOffers\<close>: the seller's signed offers and
  JSON-RPC handler. \<open>A2ABuyer\<close>, \<open>TokenBuyer\<close>: the two command-line buyers; the first is
  shown to pay only what the recorded answers of the seller offered and accepted. \<open>Commerce\<close>,
  \<open>Identity\<close>: token transfers, schedules, agent identifiers.

  \<^bold>\<open>The private workspace.\<close> \<open>Workspace\<close>, \<open>Engine\<close>, \<open>RunStore\<close> model the run, its policy,
  its hash-chained audit trail and the file store; \<open>RunSafety\<close> and \<open>RunProgress\<close> prove what its
  histories keep and that every run stops. The first mandate of a run is trusted to the application, as
  \<open>src/docs/architecture.md\<close> says; each later one is signed by the controller.

  \<^bold>\<open>The private runner.\<close> \<open>RunnerJournal\<close> (\<open>runner/journal.ts\<close>): the one file by which a
  runner remembers the jobs it began, with its lock and its failing writes. \<open>PrivateRunner\<close>
  (\<open>runner/execution.ts\<close>): the gateway that checks every capability against the signed mandate and
  the loop that executes a job with the engine above. \<open>RunnerProcess\<close> (\<open>runner/config.ts\<close>,
  \<open>runner/transport.ts\<close>, \<open>services/agent-runner.ts\<close>): configuration, HTTP and polling.
  \<open>RunnerSafety\<close> and \<open>RunnerHistory\<close> prove that no platform, however it answers, makes a runner
  spend more than its owner signed, over all its lives, and that every job ends.

  \<^bold>\<open>The hosted platform.\<close> \<open>PlatformHttp\<close>, \<open>Login\<close>, \<open>Accounts\<close>: origins, bodies, sign-in,
  agents and keys. \<open>PlatformTasks\<close> with \<open>TaskSafety\<close>: the task service. \<open>RunnerScope\<close>,
  \<open>RunnerResult\<close>, \<open>RunnerJobs\<close>, \<open>RunnerUploads\<close>: mandates, the result schema, queueing,
  claims and uploads. \<open>Marketplace\<close>: the verification market. \<open>JobSafety\<close> states the invariant
  of all these tables, \<open>RunLedger\<close> and \<open>MarketSafety\<close> prove it for every transaction, and
  \<open>Guarantees\<close> reads off what owners and sellers can rely on. \<open>DataService\<close>
  (\<open>platform/data-service.ts\<close>, \<open>hedera-commerce.ts\<close>): the public repository data service, with
  quotes, paid evidence and scheduled deliveries. \<open>DataSafety\<close> shows that interleaved requests
  hand no payment to the facilitator twice: its locale \<open>ticket_pool\<close> treats an inserted row as a
  ticket for one submission.

  \<^bold>\<open>State and operations.\<close> A table is a list of records with the columns the code uses; a
  statement is a function on the whole database, with the constraints and triggers of
  \<open>src/db/migrations\<close> as failing branches (\<open>violation\<close>). Fresh identifiers, tokens and clocks
  are arguments. A file or journal is a map from names to \<open>Absent\<close>, \<open>Stored\<close> or \<open>Corrupt\<close>.
  Amounts are integers with the code's safe-integer checks; JSON numbers are decimals, and the
  rounding of \<open>double\<close> is a parameter (\<open>read_number\<close>, \<open>add_double\<close>).

  \<^bold>\<open>Parameters.\<close> Code outside \<open>src/\<close> is an argument: \<open>web\<close> (hashes, HMAC, URLs, dates, double
  arithmetic), \<open>ext\<close> (URL and address parsing), \<open>host\<close> (configuration and signature checks of
  the platform), \<open>siwe_ext\<close> (sign-in messages), and the records of answers from Circle, chains,
  mirror nodes and providers. A theorem that needs one of their properties names it
  (\<open>exact_numbers\<close>, \<open>mac_bytes\<close>, \<open>hex_hash\<close>).

  \<^bold>\<open>Bounds.\<close> \<open>json_parse\<close> recurses with fuel, one more than the length of the text, which the
  round trip shows to be enough. A run spends at most five gateway calls before it halts, so
  the runner's loop has fuel for six rounds. Receipts
  are polled ten times, as in the code. Loops over lists are structural.

  \<^bold>\<open>Not modelled.\<close> The React components and pages; the route files that only pass a request on;
  the indexer, measurements, evidence and accounting views of the economy (read-only projections of
  chain events and tables); the broker, provider, task runner and stand-alone
  data service processes (process wiring) and the planner that asks a language model; the Ledger Key
  Ring tool (device transport and encryption by a vendored SDK); smoke, release and publication
  scripts; the Solidity contracts and SQL files (their constraints are part of the statements); the
  revision history of market services, written by a trigger; and the pinned TLS connection to a
  remote verifier, whose answer is a parameter.
\<close>

end
